(* ===== verification/Prelude.thy ===== *)
theory Prelude
  imports Main "HOL-Library.AList" "HOL-Library.List_Lexorder" "HOL-Library.Char_ord"
    "HOL-Library.Product_Lexorder" "HOL-Library.Sublist"
begin

text \<open>
  Shared vocabulary of the development: the fragment of the JavaScript standard library the
  modelled modules of \<^verbatim>\<open>src/client-v2/src\<close> use (\<^verbatim>\<open>String.split\<close>, \<^verbatim>\<open>Array.join\<close>,
  \<^verbatim>\<open>Array.slice\<close>, plain objects and \<^verbatim>\<open>Map\<close>s as insertion-ordered association lists,
  \<^verbatim>\<open>Set\<close>s as duplicate-free lists), the generic lemmas the component theories share, and two
  interfaces: \<open>js_record\<close>, what a keyed store promises its clients, and \<open>machine\<close>, a
  deterministic state machine with an invariant.

  A JavaScript string is modelled by the type of strings of HOL. The modelled code looks at
  strings only through equality, the ordering of \<^verbatim>\<open>sort\<close>, prefix and suffix tests and splitting at
  a line feed, all of which work unit by unit.
\<close>

named_theorems js_simps \<open>unfolding rules for the JavaScript library operations\<close>

type_synonym 'v js_obj = "(string \<times> 'v) list"

section \<open>Text and lines\<close>

definition LF :: char where
  "LF = CHR 0x0A"

definition CR :: char where
  "CR = CHR 0x0D"

text \<open>\<^verbatim>\<open>text.split("\n")\<close>: never the empty list.\<close>

fun js_split :: "string \<Rightarrow> string list" where
  "js_split [] = [[]]"
| "js_split (c # cs) =
     (if c = LF then [] # js_split cs
      else (case js_split cs of [] \<Rightarrow> [[c]] | l # ls \<Rightarrow> (c # l) # ls))"

text \<open>\<^verbatim>\<open>lines.join("\n")\<close>.\<close>

fun js_join :: "string list \<Rightarrow> string" where
  "js_join [] = []"
| "js_join [l] = l"
| "js_join (l # ls) = l @ LF # js_join ls"

text \<open>\<^verbatim>\<open>xs.slice(from, to)\<close> for indices that are not negative.\<close>

definition js_slice :: "'a list \<Rightarrow> nat \<Rightarrow> nat \<Rightarrow> 'a list" where
  "js_slice xs from to = take (to - from) (drop from xs)"

text \<open>\<^verbatim>\<open>s.includes(pat)\<close>.\<close>

fun js_includes :: "string \<Rightarrow> string \<Rightarrow> bool" where
  "js_includes pat [] = (pat = [])"
| "js_includes pat (c # cs) = (prefix pat (c # cs) \<or> js_includes pat cs)"

text \<open>\<^verbatim>\<open>s.trim()\<close>: white space and line ends stripped from both ends.\<close>

definition js_space :: "char \<Rightarrow> bool" where
  "js_space c \<longleftrightarrow> (of_char c :: nat) \<in> {9, 10, 11, 12, 13, 32, 160}"

definition js_trim :: "string \<Rightarrow> string" where
  "js_trim s = rev (dropWhile js_space (rev (dropWhile js_space s)))"

text \<open>\<^verbatim>\<open>toLowerCase\<close> on the characters of the string type: ASCII and the Latin-1 capitals.\<close>

definition js_lower :: "string \<Rightarrow> string" where
  "js_lower s =
     map (\<lambda>c. let n = of_char c :: nat
              in if 65 \<le> n \<and> n \<le> 90 \<or> 192 \<le> n \<and> n \<le> 222 \<and> n \<noteq> 215 then char_of (n + 32) else c) s"

text \<open>\<^verbatim>\<open>String(n)\<close> of a number that is a natural: its decimal digits.\<close>

definition digit :: "nat \<Rightarrow> char" where
  "digit d = ''0123456789'' ! d"

fun js_nat :: "nat \<Rightarrow> string" where
  "js_nat n = (if n < 10 then [digit n] else js_nat (n div 10) @ [digit (n mod 10)])"

declare js_nat.simps [simp del]

lemma js_split_neq_Nil [simp]: "js_split s \<noteq> []"
  by (cases s) (auto split: list.splits)

lemma js_join_Cons: "ls \<noteq> [] \<Longrightarrow> js_join (l # ls) = l @ LF # js_join ls"
  by (cases ls) auto

lemma js_join_split [simp]: "js_join (js_split s) = s"
proof (induction s)
  case (Cons c cs)
  obtain l ls where ls: "js_split cs = l # ls"
    by (cases "js_split cs") auto
  with Cons show ?case
    by (cases ls) auto
qed simp

lemma js_split_no_LF: "l \<in> set (js_split s) \<Longrightarrow> LF \<notin> set l"
  by (induction s arbitrary: l) (auto split: if_splits list.splits)

lemma js_split_line: "LF \<notin> set l \<Longrightarrow> js_split l = [l]"
  by (induction l) auto

lemma js_split_append_LF: "LF \<notin> set l \<Longrightarrow> js_split (l @ LF # cs) = l # js_split cs"
  by (induction l) auto

lemma js_split_join [simp]:
  "ls \<noteq> [] \<Longrightarrow> (\<And>l. l \<in> set ls \<Longrightarrow> LF \<notin> set l) \<Longrightarrow> js_split (js_join ls) = ls"
  by (induction ls rule: js_join.induct) (auto simp: js_split_line js_split_append_LF)

lemma js_split_inj: "js_split a = js_split b \<longleftrightarrow> a = b"
  by (metis js_join_split)

lemma js_slice_full [simp]: "js_slice xs 0 (length xs) = xs"
  by (simp add: js_slice_def)

lemma js_slice_same [simp]: "js_slice xs i i = []"
  by (simp add: js_slice_def)

lemma length_js_slice [simp]: "length (js_slice xs i j) = min (j - i) (length xs - i)"
  by (simp add: js_slice_def min.commute)

lemma js_slice_append:
  "i \<le> j \<Longrightarrow> j \<le> k \<Longrightarrow> js_slice xs i j @ js_slice xs j k = js_slice xs i k"
proof -
  assume ij: "i \<le> j" "j \<le> k"
  then have "k - i = (j - i) + (k - j)" by simp
  then have "js_slice xs i k = take ((j - i) + (k - j)) (drop i xs)"
    by (simp add: js_slice_def)
  also have "\<dots> = take (j - i) (drop i xs) @ take (k - j) (drop (j - i) (drop i xs))"
    by (rule take_add)
  finally show ?thesis using ij by (simp add: js_slice_def)
qed

lemma set_js_slice: "x \<in> set (js_slice xs i j) \<Longrightarrow> x \<in> set xs"
  by (auto simp: js_slice_def dest: in_set_takeD in_set_dropD)

lemma drop_eq_appendD:
  assumes "drop i xs = ys @ zs" and "i \<le> length xs"
  shows "i + length ys \<le> length xs" "drop (i + length ys) xs = zs"
    "js_slice xs i (i + length ys) = ys"
proof -
  have "length xs - i = length ys + length zs"
    using arg_cong [OF assms(1), of length] by simp
  then show "i + length ys \<le> length xs" using assms(2) by simp
  have "drop (i + length ys) xs = drop (length ys) (drop i xs)"
    by (simp add: add.commute)
  then show "drop (i + length ys) xs = zs" by (simp add: assms(1))
  show "js_slice xs i (i + length ys) = ys" by (simp add: js_slice_def assms(1))
qed

lemma digit_inj: "d < 10 \<Longrightarrow> e < 10 \<Longrightarrow> digit d = digit e \<longleftrightarrow> d = e"
  unfolding digit_def by (rule nth_eq_iff_index_eq) simp_all

lemma js_nat_neq_Nil [simp]: "js_nat n \<noteq> []"
  by (subst js_nat.simps) simp

lemma js_nat_long: "\<not> n < 10 \<Longrightarrow> js_nat n = js_nat (n div 10) @ [digit (n mod 10)]"
  and js_nat_short: "n < 10 \<Longrightarrow> js_nat n = [digit n]"
  by (subst js_nat.simps, simp)+

lemma js_nat_single: "js_nat n = [d] \<Longrightarrow> n < 10 \<and> d = digit n"
  by (cases "n < 10") (simp_all add: js_nat_short js_nat_long)

lemma js_nat_eq: "js_nat m = js_nat n \<Longrightarrow> m = n"
proof (induction m arbitrary: n rule: less_induct)
  case (less m)
  show ?case
  proof (cases "m < 10 \<or> n < 10")
    case True
    then have "m < 10 \<and> n < 10 \<and> digit m = digit n"
      using less.prems js_nat_single [of m] js_nat_single [of n] js_nat_short [of m] js_nat_short [of n]
      by metis
    then show ?thesis using digit_inj by blast
  next
    case False
    then have *: "js_nat (m div 10) = js_nat (n div 10)" "digit (m mod 10) = digit (n mod 10)"
      using less.prems by (simp_all add: js_nat_long)
    have "m div 10 = n div 10" by (rule less.IH [OF _ *(1)]) (use False in simp)
    moreover have "m mod 10 = n mod 10" using *(2) by (simp add: digit_inj)
    ultimately show ?thesis by (metis div_mult_mod_eq)
  qed
qed

lemma js_nat_inj [simp]: "js_nat m = js_nat n \<longleftrightarrow> m = n"
  by (auto dest: js_nat_eq)

lemma set_js_nat: "set (js_nat n) \<subseteq> set ''0123456789''"
proof (induction n rule: less_induct)
  case (less n)
  have "digit d \<in> set ''0123456789''" if "d < 10" for d
    unfolding digit_def by (rule nth_mem) (use that in simp)
  then show ?case
    using less.IH [of "n div 10"] by (cases "n < 10") (auto simp: js_nat_short js_nat_long)
qed

section \<open>Objects, maps and sets\<close>

text \<open>
  A plain object used as a dictionary, or a \<^verbatim>\<open>Map\<close>: an association list in insertion order.
  Assigning an existing key keeps its place, a new key goes to the end, as
  \<^verbatim>\<open>AList.update\<close> does. \<^verbatim>\<open>key in obj\<close> and \<^verbatim>\<open>obj[key]\<close> are \<open>obj_has\<close> and \<open>map_of\<close>.
\<close>

definition obj_has :: "'v js_obj \<Rightarrow> string \<Rightarrow> bool" where
  "obj_has obj k \<longleftrightarrow> map_of obj k \<noteq> None"

definition obj_set :: "string \<Rightarrow> 'v \<Rightarrow> 'v js_obj \<Rightarrow> 'v js_obj" where
  "obj_set k v obj = AList.update k v obj"

definition obj_keys :: "'v js_obj \<Rightarrow> string list" where
  "obj_keys obj = map fst obj"

text \<open>\<^verbatim>\<open>[...new Set(xs)]\<close>: the first occurrence of each element, in order.\<close>

definition js_set :: "'a list \<Rightarrow> 'a list" where
  "js_set xs = rev (remdups (rev xs))"

text \<open>An object never holds a key twice.\<close>

abbreviation obj_ok :: "'v js_obj \<Rightarrow> bool" where
  "obj_ok obj \<equiv> distinct (map fst obj)"

lemma obj_has_keys: "obj_has obj k \<longleftrightarrow> k \<in> set (obj_keys obj)"
  by (auto simp: obj_has_def obj_keys_def map_of_eq_None_iff)

lemma set_obj_keys: "set (obj_keys obj) = dom (map_of obj)"
  by (simp add: obj_keys_def dom_map_of_conv_image_fst)

lemma length_filter_obj_keys:
  "obj_ok obj \<Longrightarrow> length (filter P (obj_keys obj)) = card (set (filter P (obj_keys obj)))"
  by (rule distinct_card [symmetric]) (simp add: obj_keys_def distinct_filter del: filter_map)

lemma map_of_obj_set [simp]: "map_of (obj_set k v obj) = (map_of obj)(k \<mapsto> v)"
  by (simp add: obj_set_def update_conv')

lemma obj_has_obj_set [simp]: "obj_has (obj_set k v obj) k' \<longleftrightarrow> k' = k \<or> obj_has obj k'"
  by (auto simp: obj_has_def)

lemma obj_ok_set [simp]: "obj_ok obj \<Longrightarrow> obj_ok (obj_set k v obj)"
  unfolding obj_set_def by (rule distinct_update)

lemma set_js_set [simp]: "set (js_set xs) = set xs"
  by (simp add: js_set_def)

lemma distinct_js_set [simp]: "distinct (js_set xs)"
  by (simp add: js_set_def)

section \<open>Interfaces\<close>

text \<open>
  What a keyed store (an object, a \<^verbatim>\<open>Map\<close>) promises: reading back what was stored, and
  nothing else disturbed. The client lemmas describe the loops the code runs over such a store.
\<close>

locale js_record =
  fixes lookup :: "'m \<Rightarrow> 'k \<Rightarrow> 'v option"
    and store :: "'k \<Rightarrow> 'v \<Rightarrow> 'm \<Rightarrow> 'm"
    and wf :: "'m \<Rightarrow> bool"
  assumes lookup_store: "lookup (store k v m) = (lookup m)(k \<mapsto> v)"
    and wf_store: "wf m \<Longrightarrow> wf (store k v m)"
begin

lemma lookup_loop:
  "lookup (fold (\<lambda>k m. case f k of None \<Rightarrow> m | Some v \<Rightarrow> store k v m) ks m) k =
     (if k \<in> set ks \<and> f k \<noteq> None then f k else lookup m k)"
  by (induction ks arbitrary: m) (auto simp: lookup_store split: option.splits)

lemma wf_loop:
  "wf m \<Longrightarrow> wf (fold (\<lambda>k m. case f k of None \<Rightarrow> m | Some v \<Rightarrow> store k v m) ks m)"
  by (induction ks arbitrary: m) (auto simp: wf_store split: option.splits)

lemma lookup_defaults:
  "lookup (fold (\<lambda>k m. if lookup m k = None then store k v m else m) ks m) k =
     (if k \<in> set ks \<and> lookup m k = None then Some v else lookup m k)"
  by (induction ks arbitrary: m) (auto simp: lookup_store)

end

interpretation obj: js_record map_of obj_set "\<lambda>m. obj_ok m"
  by unfold_locales simp_all

text \<open>
  A deterministic machine with an invariant: a start state, one step per event, and a predicate
  every step keeps. A run is the left fold of the step over the events.
\<close>

locale machine =
  fixes init :: 's
    and step :: "'s \<Rightarrow> 'e \<Rightarrow> 's"
    and inv :: "'s \<Rightarrow> bool"
  assumes inv_init: "inv init"
    and inv_step: "inv s \<Longrightarrow> inv (step s e)"
begin

lemma inv_run_from: "inv s \<Longrightarrow> inv (foldl step s es)"
  by (induction es arbitrary: s) (auto simp: inv_step)

lemma inv_run: "inv (foldl step init es)"
  by (rule inv_run_from [OF inv_init])

end

end
