(* ===== verification/Merge3.thy ===== *)
theory Merge3
  imports Prelude
begin

text \<open>
  The line-based three-way merge of \<^verbatim>\<open>features/persistence/model/merge.ts\<close> (\<^verbatim>\<open>hunksOf\<close>,
  \<^verbatim>\<open>merge3\<close>, \<^verbatim>\<open>mixesLineBreaks\<close>). The diff itself is \<^verbatim>\<open>diffArrays\<close> of the npm package
  \<^verbatim>\<open>diff\<close>, which is not part of the repository: it is the parameter \<open>diff\<close>, and
  \<open>diff_laws\<close> states what its documentation promises of the change objects it returns.
\<close>

section \<open>Data\<close>

datatype side = Ours | Theirs

text \<open>One change object of \<^verbatim>\<open>diffArrays\<close>.\<close>

record part =
  part_value :: "string list"
  part_added :: bool
  part_removed :: bool

type_synonym diff_fn = "string list \<Rightarrow> string list \<Rightarrow> part list"

text \<open>\<^verbatim>\<open>base[start, end)\<close> is replaced by \<^verbatim>\<open>lines\<close> on one side.\<close>

record hunk =
  h_start :: nat
  h_end :: nat
  h_lines :: "string list"
  h_side :: side

datatype change_by = ByOurs | ByTheirs | ByBoth

record settled_change =
  sc_start :: nat
  sc_count :: nat
  sc_by :: change_by

datatype chunk =
    Settled "string list" "settled_change list option"
  | Conflict "string list" "string list" "string list"

datatype merge3_result = Clean string | Conflicted "chunk list"

section \<open>Hunks of one side\<close>

fun hunks_loop :: "side \<Rightarrow> part list \<Rightarrow> hunk list \<Rightarrow> nat \<Rightarrow> hunk option \<Rightarrow> hunk list" where
  "hunks_loop s [] hunks at opn = (case opn of None \<Rightarrow> hunks | Some h \<Rightarrow> hunks @ [h])"
| "hunks_loop s (p # ps) hunks at opn =
     (if \<not> part_added p \<and> \<not> part_removed p
      then hunks_loop s ps (case opn of None \<Rightarrow> hunks | Some h \<Rightarrow> hunks @ [h])
             (at + length (part_value p)) None
      else
        let h = (case opn of
            Some h \<Rightarrow> h
          | None \<Rightarrow> \<lparr>h_start = at, h_end = at, h_lines = [], h_side = s\<rparr>)
        in if part_removed p
           then hunks_loop s ps hunks (at + length (part_value p))
                  (Some (h\<lparr>h_end := at + length (part_value p)\<rparr>))
           else hunks_loop s ps hunks at (Some (h\<lparr>h_lines := h_lines h @ part_value p\<rparr>)))"

definition hunksOf :: "diff_fn \<Rightarrow> string list \<Rightarrow> string list \<Rightarrow> side \<Rightarrow> hunk list" where
  "hunksOf diff base other s = hunks_loop s (diff base other) [] 0 None"

section \<open>The merge\<close>

text \<open>The state of the merge loop: the \<^verbatim>\<open>let\<close>s of \<^verbatim>\<open>merge3\<close>.\<close>

record merge_acc =
  ma_chunks :: "chunk list"
  ma_out :: "string list"
  ma_changes :: "settled_change list"
  ma_at :: nat

definition settle :: "merge_acc \<Rightarrow> merge_acc" where
  "settle acc =
     (if ma_out acc = [] then acc
      else acc\<lparr>ma_chunks := ma_chunks acc @
                 [Settled (ma_out acc)
                    (if ma_changes acc \<noteq> [] then Some (ma_changes acc) else None)],
               ma_out := [], ma_changes := []\<rparr>)"

definition changed :: "string list \<Rightarrow> change_by \<Rightarrow> merge_acc \<Rightarrow> merge_acc" where
  "changed ls who acc =
     acc\<lparr>ma_changes := ma_changes acc @
           [\<lparr>sc_start = length (ma_out acc), sc_count = length ls, sc_by = who\<rparr>],
         ma_out := ma_out acc @ ls\<rparr>"

text \<open>
  The hunks after the first one of a group that overlap or touch the region so far, the end of
  the region, and the hunks left over.
\<close>

fun take_group :: "hunk list \<Rightarrow> nat \<Rightarrow> hunk list \<times> nat \<times> hunk list" where
  "take_group [] e = ([], e, [])"
| "take_group (h # hs) e =
     (if h_start h \<le> e
      then (case take_group hs (max e (h_end h)) of (g, e', rest) \<Rightarrow> (h # g, e', rest))
      else ([], e, h # hs))"

fun render_loop :: "string list \<Rightarrow> nat \<Rightarrow> hunk list \<Rightarrow> nat \<Rightarrow> string list" where
  "render_loop b pos [] e = js_slice b pos e"
| "render_loop b pos (h # hs) e =
     js_slice b pos (h_start h) @ h_lines h @ render_loop b (h_end h) hs e"

definition side_hunks :: "side \<Rightarrow> hunk list \<Rightarrow> hunk list" where
  "side_hunks s hs = filter (\<lambda>h. h_side h = s) hs"

definition render :: "string list \<Rightarrow> hunk list \<Rightarrow> nat \<Rightarrow> nat \<Rightarrow> side \<Rightarrow> string list" where
  "render b grp start e s = render_loop b start (side_hunks s grp) e"

definition by_side :: "side \<Rightarrow> change_by" where
  "by_side s = (case s of Ours \<Rightarrow> ByOurs | Theirs \<Rightarrow> ByTheirs)"

text \<open>One group: \<open>h\<close> is its first hunk, \<open>e\<close> the end of its region in the base.\<close>

definition merge_group :: "string list \<Rightarrow> hunk \<Rightarrow> hunk list \<Rightarrow> nat \<Rightarrow> merge_acc \<Rightarrow> merge_acc" where
  "merge_group b h g e acc =
     (let grp = h # g;
          start = h_start h;
          acc1 = acc\<lparr>ma_out := ma_out acc @ js_slice b (ma_at acc) start\<rparr>;
          sides = js_set (map h_side grp);
          acc2 =
            (if length sides = 1
             then changed (render b grp start e (h_side h)) (by_side (h_side h)) acc1
             else
               let mine = render b grp start e Ours;
                   yours = render b grp start e Theirs
               in if mine \<noteq> yours
                  then (let acc' = settle acc1
                        in acc'\<lparr>ma_chunks := ma_chunks acc' @
                                  [Conflict (js_slice b start e) mine yours]\<rparr>)
                  else changed mine ByBoth acc1)
      in acc2\<lparr>ma_at := e\<rparr>)"

lemma take_group_length:
  "take_group hs e = (g, e', rest) \<Longrightarrow> length rest \<le> length hs"
  by (induction hs arbitrary: e g e' rest) (fastforce split: if_splits prod.splits)+

function merge_loop :: "string list \<Rightarrow> hunk list \<Rightarrow> merge_acc \<Rightarrow> merge_acc" where
  "merge_loop b [] acc = acc"
| "merge_loop b (h # hs) acc =
     (case take_group hs (h_end h) of
        (g, e, rest) \<Rightarrow> merge_loop b rest (merge_group b h g e acc))"
  by pat_completeness auto
termination
  by (relation "measure (\<lambda>(b, hs, acc). length hs)")
    (auto simp: less_Suc_eq_le dest: take_group_length [OF sym])

definition all_hunks :: "diff_fn \<Rightarrow> string list \<Rightarrow> string list \<Rightarrow> string list \<Rightarrow> hunk list" where
  "all_hunks diff b o' t =
     sort_key (\<lambda>h. (h_start h, h_end h)) (hunksOf diff b o' Ours @ hunksOf diff b t Theirs)"

definition merge3 :: "diff_fn \<Rightarrow> string \<Rightarrow> string \<Rightarrow> string \<Rightarrow> merge3_result" where
  "merge3 diff base ours theirs =
     (if ours = theirs then Clean ours
      else if ours = base then Clean theirs
      else if theirs = base then Clean ours
      else
        let b = js_split base;
            hunks = all_hunks diff b (js_split ours) (js_split theirs);
            acc = merge_loop b hunks
                    \<lparr>ma_chunks = [], ma_out = [], ma_changes = [], ma_at = 0\<rparr>;
            acc' = acc\<lparr>ma_out := ma_out acc @ drop (ma_at acc) b\<rparr>
        in if ma_chunks acc' = [] then Clean (js_join (ma_out acc'))
           else Conflicted (ma_chunks (settle acc')))"

section \<open>Line breaks\<close>

datatype break_kind = Crlf | Lf | Cr

text \<open>
  \<^verbatim>\<open>text.includes("\r\n")\<close>; \<^verbatim>\<open>/(^|[^\r])\n/\<close>: a line feed at the start of the text or after
  another character than a carriage return; \<^verbatim>\<open>/\r(?!\n)/\<close>: a carriage return no line feed
  follows. \<open>prev\<close> is the character before the text, none at its start.
\<close>

fun has_crlf :: "string \<Rightarrow> bool" where
  "has_crlf (c # d # cs) = (c = CR \<and> d = LF \<or> has_crlf (d # cs))"
| "has_crlf cs = False"

fun has_bare_lf :: "char option \<Rightarrow> string \<Rightarrow> bool" where
  "has_bare_lf prev [] = False"
| "has_bare_lf prev (c # cs) = (c = LF \<and> prev \<noteq> Some CR \<or> has_bare_lf (Some c) cs)"

fun has_lone_cr :: "string \<Rightarrow> bool" where
  "has_lone_cr [] = False"
| "has_lone_cr (c # cs) =
     (c = CR \<and> (case cs of [] \<Rightarrow> True | d # _ \<Rightarrow> d \<noteq> LF) \<or> has_lone_cr cs)"

definition breaksIn :: "string \<Rightarrow> break_kind list" where
  "breaksIn txt =
     (if has_crlf txt then [Crlf] else []) @
     (if has_bare_lf None txt then [Lf] else []) @
     (if has_lone_cr txt then [Cr] else [])"

definition mixesLineBreaks :: "string list \<Rightarrow> bool" where
  "mixesLineBreaks copies =
     (let kinds = js_set (concat (map breaksIn copies))
      in 1 < length kinds \<or> Cr \<in> set kinds)"

end
