(* ===== verification/Snapshot.thy ===== *)
theory Snapshot
  imports Prelude
begin

text \<open>
  A project as it is stored and compared: \<^verbatim>\<open>features/persistence/model/snapshot.ts\<close>. File
  contents are hashed by \<^verbatim>\<open>crypto.subtle\<close>, a service of the browser: the hash is the
  parameter \<open>sha256\<close>. The volume \<^verbatim>\<open>PgFs\<close> reads is a tree whose nodes may refuse to be read.
\<close>

section \<open>Which files travel\<close>

definition SYNCED_WORKSPACE_FILES :: "string list" where
  "SYNCED_WORKSPACE_FILES =
     [''.workspace/program-info.json'', ''.workspace/tutorial-storage.json'', ''.tutorial.json'']"

definition isSyncedWorkspaceFile :: "string \<Rightarrow> bool" where
  "isSyncedWorkspaceFile path =
     list_ex (\<lambda>synced. suffix (CHR ''/'' # synced) path) SYNCED_WORKSPACE_FILES"

definition filterSnapshotPaths :: "string list \<Rightarrow> string list" where
  "filterSnapshotPaths paths =
     filter (\<lambda>path. path \<in> set SYNCED_WORKSPACE_FILES \<or> \<not> prefix ''.workspace/'' path) paths"

definition isUserFile :: "string \<Rightarrow> bool" where
  "isUserFile path \<longleftrightarrow> path \<notin> set SYNCED_WORKSPACE_FILES"

section \<open>Hashes and differences\<close>

type_synonym files = "string js_obj"
type_synonym file_hashes = "string js_obj"

record snapshot =
  snap_files :: files

definition hashFiles :: "(string \<Rightarrow> string) \<Rightarrow> snapshot \<Rightarrow> file_hashes" where
  "hashFiles sha256 snap = map (\<lambda>(path, content). (path, sha256 content)) (snap_files snap)"

record file_diff =
  fd_changed :: "string list"
  fd_removed :: "string list"

definition diffFiles :: "file_hashes \<Rightarrow> file_hashes \<Rightarrow> file_diff" where
  "diffFiles base nxt =
     \<lparr>fd_changed = sort (filter (\<lambda>path. map_of nxt path \<noteq> map_of base path) (obj_keys nxt)),
      fd_removed = sort (filter (\<lambda>path. \<not> obj_has nxt path) (obj_keys base))\<rparr>"

definition sameUserFiles :: "file_hashes \<Rightarrow> file_hashes \<Rightarrow> bool" where
  "sameUserFiles a b =
     (let paths = filter isUserFile (obj_keys a)
      in length paths = length (filter isUserFile (obj_keys b)) \<and>
         list_all (\<lambda>path. map_of a path = map_of b path) paths)"

section \<open>Reading a workspace off the store\<close>

text \<open>
  A node of the volume. \<open>BadN\<close> is one whose read fails for another reason than being missing.
\<close>

datatype node = FileN string | DirN "(string \<times> node) list" | BadN

datatype store_error = StoreError

text \<open>
  \<^verbatim>\<open>walk\<close>: \<open>dir\<close> is the directory's path, \<open>n\<close> the length of the workspace root. A file is
  filed under its path relative to the root.
\<close>

fun walk :: "nat \<Rightarrow> string \<Rightarrow> node \<Rightarrow> files \<Rightarrow> store_error + files"
  and walk_entries :: "nat \<Rightarrow> string \<Rightarrow> (string \<times> node) list \<Rightarrow> files \<Rightarrow> store_error + files" where
  "walk n path (FileN content) files = Inr (obj_set (drop (n + 1) path) content files)"
| "walk n path (DirN entries) files = walk_entries n path entries files"
| "walk n path BadN files = Inl StoreError"
| "walk_entries n dir [] files = Inr files"
| "walk_entries n dir ((child, nd) # rest) files =
     (case walk n (dir @ ''/'' @ child) nd files of
        Inl e \<Rightarrow> Inl e
      | Inr files' \<Rightarrow> walk_entries n dir rest files')"

text \<open>The store's root directory maps workspace names to directories.\<close>

definition buildSnapshotOf :: "(string \<times> node) list \<Rightarrow> string \<Rightarrow> store_error + snapshot" where
  "buildSnapshotOf vol name =
     (let root = ''/'' @ name;
          walked = (case map_of vol name of
              None \<Rightarrow> Inr []
            | Some (DirN entries) \<Rightarrow> walk_entries (length root) root entries []
            | Some _ \<Rightarrow> Inl StoreError)
      in case walked of
           Inl e \<Rightarrow> Inl e
         | Inr files \<Rightarrow>
             Inr \<lparr>snap_files = map (\<lambda>path. (path, the (map_of files path)))
                    (filterSnapshotPaths (obj_keys files))\<rparr>)"

section \<open>Lemmas\<close>

lemma map_of_hashFiles: "map_of (hashFiles sha256 snap) p = map_option sha256 (map_of (snap_files snap) p)"
  by (simp add: hashFiles_def map_of_map)

lemma obj_keys_hashFiles [simp]: "obj_keys (hashFiles sha256 snap) = obj_keys (snap_files snap)"
  by (simp add: hashFiles_def obj_keys_def comp_def case_prod_unfold)

text \<open>
  The files of a tree with their relative paths: what the walk should find. \<open>pre\<close> is the path of
  the directory with its slash, empty for the workspace itself.
\<close>

fun node_files :: "string \<Rightarrow> node \<Rightarrow> (string \<times> string) list"
  and entry_files :: "string \<Rightarrow> (string \<times> node) list \<Rightarrow> (string \<times> string) list" where
  "node_files path (FileN content) = [(path, content)]"
| "node_files path (DirN entries) = entry_files (path @ ''/'') entries"
| "node_files path BadN = []"
| "entry_files pre [] = []"
| "entry_files pre ((child, nd) # rest) = node_files (pre @ child) nd @ entry_files pre rest"

fun node_ok :: "node \<Rightarrow> bool" where
  "node_ok (FileN content) = True"
| "node_ok (DirN entries) = (\<forall>e\<in>set entries. node_ok (snd e))"
| "node_ok BadN = False"

abbreviation store_all :: "(string \<times> string) list \<Rightarrow> files \<Rightarrow> files" where
  "store_all kvs files \<equiv> fold (\<lambda>(k, v). obj_set k v) kvs files"

lemma store_all_append: "store_all (xs @ ys) files = store_all ys (store_all xs files)"
  by simp

lemma walk_entries_step:
  assumes "\<And>child nd p files. (child, nd) \<in> set es \<Longrightarrow>
      walk (length root) (root @ ''/'' @ p) nd files =
        (if node_ok nd then Inr (store_all (node_files p nd) files) else Inl StoreError)"
    and "dir @ ''/'' = root @ ''/'' @ pre"
  shows "walk_entries (length root) dir es files =
    (if \<forall>e\<in>set es. node_ok (snd e) then Inr (store_all (entry_files pre es) files)
     else Inl StoreError)"
  using assms(1)
proof (induction es arbitrary: files)
  case (Cons e es)
  obtain child nd where e: "e = (child, nd)" by (cases e)
  have path: "dir @ ''/'' @ child = root @ ''/'' @ (pre @ child)"
    using arg_cong [OF assms(2), of "\<lambda>xs. xs @ child"] by simp
  have "walk (length root) (dir @ ''/'' @ child) nd files =
      (if node_ok nd then Inr (store_all (node_files (pre @ child) nd) files) else Inl StoreError)"
    unfolding path using Cons.prems [of child nd "pre @ child" files] e by simp
  moreover have "walk_entries (length root) dir es fs =
      (if \<forall>e\<in>set es. node_ok (snd e) then Inr (store_all (entry_files pre es) fs)
       else Inl StoreError)" for fs
    by (rule Cons.IH) (rule Cons.prems, rule list.set_intros(2))
  ultimately show ?case
    using e by simp
qed simp

lemma walk_node:
  "walk (length root) (root @ ''/'' @ p) nd files =
     (if node_ok nd then Inr (store_all (node_files p nd) files) else Inl StoreError)"
proof (induction nd arbitrary: p files)
  case (DirN es)
  have "walk_entries (length root) (root @ ''/'' @ p) es files =
    (if \<forall>e\<in>set es. node_ok (snd e) then Inr (store_all (entry_files (p @ ''/'') es) files)
     else Inl StoreError)"
    using DirN by (intro walk_entries_step) (force simp: snds.simps)+
  then show ?case by simp
qed simp_all

lemma map_of_store_all: "map_of (store_all kvs files) = map_of (rev kvs @ files)"
  by (induction kvs arbitrary: files) (auto simp: fun_eq_iff map_add_def split: option.splits)

lemma set_filterSnapshotPaths:
  "p \<in> set (filterSnapshotPaths ps) \<longleftrightarrow>
     p \<in> set ps \<and> (\<not> isUserFile p \<or> \<not> prefix ''.workspace/'' p)"
  by (auto simp: filterSnapshotPaths_def isUserFile_def)

lemma map_of_map_key:
  "map_of (map (\<lambda>k. (k, f k)) ks) p = (if p \<in> set ks then Some (f p) else None)"
  by (induction ks) auto

lemma buildSnapshotOf_dir:
  "map_of vol name = Some (DirN es) \<Longrightarrow>
   buildSnapshotOf vol name =
     (if \<forall>e\<in>set es. node_ok (snd e)
      then let files = store_all (entry_files [] es) []
           in Inr \<lparr>snap_files = map (\<lambda>path. (path, the (map_of files path)))
                (filterSnapshotPaths (obj_keys files))\<rparr>
      else Inl StoreError)"
  unfolding buildSnapshotOf_def Let_def
  by (subst walk_entries_step [OF walk_node, where pre = "[]"]) simp_all

section \<open>Properties\<close>

text \<open>
  A snapshot of a workspace holds exactly the files of its tree that travel: every user file
  and the three named workspace files under their relative paths, with their content, and nothing
  else under \<^verbatim>\<open>.workspace/\<close>.
\<close>

lemma snapshot_reads_tree:
  assumes "map_of vol name = Some (DirN es)" and "\<forall>e\<in>set es. node_ok (snd e)"
  shows "\<exists>snap. buildSnapshotOf vol name = Inr snap \<and>
    (\<forall>p. map_of (snap_files snap) p =
      (if isUserFile p \<and> prefix ''.workspace/'' p then None
       else map_of (rev (entry_files [] es)) p))"
proof -
  let ?files = "store_all (entry_files [] es) []"
  have files: "map_of ?files p = map_of (rev (entry_files [] es)) p" for p
    by (simp add: map_of_store_all)
  have "p \<in> set (obj_keys ?files) \<longleftrightarrow> map_of ?files p \<noteq> None" for p
    by (simp only: obj_has_keys [symmetric] obj_has_def)
  then show ?thesis
    using assms
    by (auto simp: buildSnapshotOf_dir Let_def map_of_map_key set_filterSnapshotPaths files
        simp del: fold_simps) 
qed

lemma snapshot_reads_tree_example:
  "\<exists>snap. buildSnapshotOf [(''p'', DirN [(''a.rs'', FileN ''x'')])] ''p'' = Inr snap \<and>
    (\<forall>p. map_of (snap_files snap) p =
      (if isUserFile p \<and> prefix ''.workspace/'' p then None
       else map_of (rev (entry_files [] [(''a.rs'', FileN ''x'')])) p))"
  by (rule snapshot_reads_tree) simp_all

text \<open>
  A store that cannot be read is never passed off as an empty project: the snapshot fails
  exactly when the workspace is there and some part of it refuses to be read. A workspace that is
  not there reads as empty.
\<close>

lemma snapshot_fails_iff_unreadable:
  "buildSnapshotOf vol name = Inl StoreError \<longleftrightarrow>
     (\<exists>nd. map_of vol name = Some nd \<and> \<not> (node_ok nd \<and> (\<nexists>c. nd = FileN c)))"
proof (cases "map_of vol name")
  case None
  then show ?thesis by (simp add: buildSnapshotOf_def)
next
  case (Some nd)
  then show ?thesis
  proof (cases nd)
    case (DirN es)
    with Some show ?thesis by (simp add: buildSnapshotOf_dir Let_def)
  qed (simp_all add: buildSnapshotOf_def)
qed

text \<open>
  The difference of two versions takes the first to the second: replacing the changed files
  and dropping the removed ones of \<^verbatim>\<open>base\<close> gives \<^verbatim>\<open>next\<close>, and both lists are sorted.
\<close>

lemma diffFiles_patches:
  "(\<lambda>p. if p \<in> set (fd_changed (diffFiles base nxt)) then map_of nxt p
        else if p \<in> set (fd_removed (diffFiles base nxt)) then None else map_of base p) = map_of nxt \<and>
   sorted (fd_changed (diffFiles base nxt)) \<and> sorted (fd_removed (diffFiles base nxt))"
  by (auto simp: diffFiles_def fun_eq_iff obj_has_def set_obj_keys) (metis not_None_eq)+

text \<open>
  Two copies hold the same user files, as the code counts and compares them, exactly when
  every user path has the same hash, or none, in both. The generated files do not matter.
\<close>

lemma sameUserFiles_iff:
  assumes "obj_ok a" and "obj_ok b"
  shows "sameUserFiles a b \<longleftrightarrow> (\<forall>p. isUserFile p \<longrightarrow> map_of a p = map_of b p)"
proof
  assume same: "sameUserFiles a b"
  let ?A = "set (filter isUserFile (obj_keys a))" and ?B = "set (filter isUserFile (obj_keys b))"
  have "?A \<subseteq> ?B"
    using same by (fastforce simp: sameUserFiles_def set_obj_keys list_all_iff)
  moreover have "card ?A = card ?B"
    using same assms length_filter_obj_keys [of a isUserFile] length_filter_obj_keys [of b isUserFile]
    by (simp add: sameUserFiles_def Let_def)
  ultimately have eq: "?A = ?B" by (simp add: card_subset_eq)
  show "\<forall>p. isUserFile p \<longrightarrow> map_of a p = map_of b p"
  proof (intro allI impI)
    fix p assume "isUserFile p"
    then show "map_of a p = map_of b p"
      using same eq by (cases "p \<in> ?A") (force simp: sameUserFiles_def set_obj_keys list_all_iff)+
  qed
next
  assume eq: "\<forall>p. isUserFile p \<longrightarrow> map_of a p = map_of b p"
  have "set (filter isUserFile (obj_keys a)) = set (filter isUserFile (obj_keys b))"
    using eq by (auto simp: set_obj_keys)
  then have "length (filter isUserFile (obj_keys a)) = length (filter isUserFile (obj_keys b))"
    using assms by (simp only: length_filter_obj_keys)
  then show "sameUserFiles a b"
    using eq by (simp add: sameUserFiles_def list_all_iff)
qed

lemma sameUserFiles_iff_example:
  "sameUserFiles [(''a'', ''1''), (''.tutorial.json'', ''2'')] [(''a'', ''1'')] \<longleftrightarrow>
   (\<forall>p. isUserFile p \<longrightarrow> map_of [(''a'', ''1''), (''.tutorial.json'', ''2'')] p = map_of [(''a'', ''1'')] p)"
  by (rule sameUserFiles_iff) simp_all

end
