(* ===== verification/Json.thy ===== *)
theory Json
  imports Complex_Main Prelude
begin

text \<open>
  JSON values as \<^verbatim>\<open>JSON.parse\<close> returns them. Components that read or write JSON text take the
  two functions of the language's standard library as arguments: a parser that returns no value
  where \<^verbatim>\<open>JSON.parse\<close> throws, and a printer; nothing here depends on how the text looks.
  A number is a rational: every finite double is one.
\<close>

datatype json =
    JNull
  | JBool bool
  | JNum rat
  | JStr string
  | JArr "json list"
  | JObj "(string \<times> json) list"

type_synonym json_parse = "string \<Rightarrow> json option"
type_synonym json_stringify = "json \<Rightarrow> string"

text \<open>A value that is an object and neither \<^verbatim>\<open>null\<close> nor an array.\<close>

definition as_obj :: "json option \<Rightarrow> (string \<times> json) list option" where
  "as_obj v = (case v of Some (JObj flds) \<Rightarrow> Some flds | _ \<Rightarrow> None)"

definition as_str :: "json option \<Rightarrow> string option" where
  "as_str v = (case v of Some (JStr s) \<Rightarrow> Some s | _ \<Rightarrow> None)"

text \<open>\<^verbatim>\<open>Number.isInteger\<close>.\<close>

definition is_integer :: "rat \<Rightarrow> bool" where
  "is_integer x \<longleftrightarrow> snd (quotient_of x) = 1"

lemma as_obj_Some [simp]: "as_obj v = Some flds \<longleftrightarrow> v = Some (JObj flds)"
  by (auto simp: as_obj_def split: option.splits json.splits)

lemma as_str_Some [simp]: "as_str v = Some s \<longleftrightarrow> v = Some (JStr s)"
  by (auto simp: as_str_def split: option.splits json.splits)

end
