(* ===== verification/Merge_Plan.thy ===== *)
theory Merge_Plan
  imports Merge3 Snapshot Json
begin

text \<open>
  Merging a whole project: the rest of \<^verbatim>\<open>features/persistence/model/merge.ts\<close>. The keypair that
  must not be lost (\<^verbatim>\<open>keepLocalKeypair\<close>), the decision for every path (\<^verbatim>\<open>planMerge\<close>), the
  user's answers (\<^verbatim>\<open>settleConflicts\<close>) and the base kept for the next merge
  (\<^verbatim>\<open>baseAfterMerge\<close>). Paths are looked up among an object's own keys; the code's \<^verbatim>\<open>path in from\<close> and
  \<^verbatim>\<open>base[path]\<close> also find the names every object inherits, such as \<^verbatim>\<open>constructor\<close>, and a file at the root with
  such a name is outside the model.
\<close>

section \<open>The program's keypair\<close>

definition PROGRAM_INFO_PATH :: string where
  "PROGRAM_INFO_PATH = ''.workspace/program-info.json''"

fun is_byte :: "json \<Rightarrow> bool" where
  "is_byte (JNum x) \<longleftrightarrow> is_integer x \<and> 0 \<le> x \<and> x \<le> 255"
| "is_byte v \<longleftrightarrow> False"

fun isSecretKey :: "json \<Rightarrow> bool" where
  "isSecretKey (JArr kp) \<longleftrightarrow> length kp = 64 \<and> list_all is_byte kp"
| "isSecretKey v \<longleftrightarrow> False"

datatype copy_side = LocalCopy | AccountCopy

text \<open>What \<^verbatim>\<open>report\<close> is told of a copy that cannot be used.\<close>

datatype info_report = UnreadableInfo copy_side | MalformedInfo copy_side

definition parseProgramInfo ::
  "json_parse \<Rightarrow> string \<Rightarrow> copy_side \<Rightarrow> info_report list \<times> (string \<times> json) list option" where
  "parseProgramInfo parse content sd =
     (case parse content of
        None \<Rightarrow> ([UnreadableInfo sd], None)
      | Some v \<Rightarrow>
          (case v of JObj flds \<Rightarrow> ([], Some flds) | _ \<Rightarrow> ([MalformedInfo sd], None)))"

definition keepLocalKeypair ::
  "json_parse \<Rightarrow> json_stringify \<Rightarrow> string option \<Rightarrow> string option \<Rightarrow> info_report list \<times> string option"
  where
  "keepLocalKeypair parse stringify local account =
     (case local of
        None \<Rightarrow> ([], account)
      | Some l \<Rightarrow>
          (case parseProgramInfo parse l LocalCopy of
             (lg, None) \<Rightarrow> (lg, account)
           | (lg, Some mine) \<Rightarrow>
               (case map_of mine ''kp'' of
                  None \<Rightarrow> (lg, account)
                | Some kp \<Rightarrow>
                    if \<not> isSecretKey kp then (lg, account)
                    else (case account of
                        None \<Rightarrow> (lg, Some (stringify (JObj [(''kp'', kp)])))
                      | Some acc \<Rightarrow>
                          (case parseProgramInfo parse acc AccountCopy of
                             (lg2, None) \<Rightarrow> (lg @ lg2, account)
                           | (lg2, Some theirs) \<Rightarrow>
                               if map_of theirs ''kp'' \<noteq> Some JNull \<and> map_of theirs ''kp'' \<noteq> None
                               then (lg @ lg2, account)
                               else (lg @ lg2, Some (stringify (JObj (obj_set ''kp'' kp theirs)))))))))"

definition withLocalKeypair ::
  "json_parse \<Rightarrow> json_stringify \<Rightarrow> files \<Rightarrow> files \<Rightarrow> info_report list \<times> files" where
  "withLocalKeypair parse stringify files local =
     (case keepLocalKeypair parse stringify (map_of local PROGRAM_INFO_PATH)
             (map_of files PROGRAM_INFO_PATH) of
        (lg, kept) \<Rightarrow>
          (lg, if kept = map_of files PROGRAM_INFO_PATH then files
                else (case kept of None \<Rightarrow> files | Some c \<Rightarrow> obj_set PROGRAM_INFO_PATH c files)))"

section \<open>The plan\<close>

record base_content =
  bc_hash :: "string option"
  bc_content :: string

record merge_input =
  mi_base :: file_hashes
  mi_baseContents :: "base_content js_obj"
  mi_local :: files
  mi_localHashes :: file_hashes
  mi_server :: files
  mi_serverHashes :: file_hashes

datatype file_conflict =
    LinesConflict string "chunk list" "string option" "string option"
  | WholeConflict string "string option" "string option" "string option" "string option"
  | SettledConflict string "string option" "string option" "string option"

text \<open>The path of a conflict, and the hashes of the local and the server copy it is about.\<close>

fun fc_path :: "file_conflict \<Rightarrow> string" where
  "fc_path (LinesConflict path chunks lh sh) = path"
| "fc_path (WholeConflict path l s lh sh) = path"
| "fc_path (SettledConflict path c lh sh) = path"

fun fc_localHash :: "file_conflict \<Rightarrow> string option" where
  "fc_localHash (LinesConflict path chunks lh sh) = lh"
| "fc_localHash (WholeConflict path l s lh sh) = lh"
| "fc_localHash (SettledConflict path c lh sh) = lh"

fun fc_serverHash :: "file_conflict \<Rightarrow> string option" where
  "fc_serverHash (LinesConflict path chunks lh sh) = sh"
| "fc_serverHash (WholeConflict path l s lh sh) = sh"
| "fc_serverHash (SettledConflict path c lh sh) = sh"

record merge_plan =
  mp_files :: files
  mp_conflicts :: "file_conflict list"
  mp_log :: "info_report list"

definition take_from :: "files \<Rightarrow> string \<Rightarrow> merge_plan \<Rightarrow> merge_plan" where
  "take_from from path st =
     (case map_of from path of
        None \<Rightarrow> st
      | Some c \<Rightarrow> st\<lparr>mp_files := obj_set path c (mp_files st)\<rparr>)"

definition add_conflict :: "file_conflict \<Rightarrow> merge_plan \<Rightarrow> merge_plan" where
  "add_conflict c st = st\<lparr>mp_conflicts := mp_conflicts st @ [c]\<rparr>"

text \<open>A user file both sides changed.\<close>

definition plan_both ::
  "diff_fn \<Rightarrow> merge_input \<Rightarrow> string \<Rightarrow> merge_plan \<Rightarrow> merge_plan" where
  "plan_both diff i path st =
     (let b = map_of (mi_base i) path;
          l = map_of (mi_localHashes i) path;
          s = map_of (mi_serverHashes i) path;
          ancestor = map_of (mi_baseContents i) path
      in case (ancestor, map_of (mi_local i) path, map_of (mi_server i) path) of
           (Some anc, Some mine, Some theirs) \<Rightarrow>
             if b = None \<or> bc_hash anc \<noteq> b
             then add_conflict (WholeConflict path (Some mine) (Some theirs) l s) st
             else (case merge3 diff (bc_content anc) mine theirs of
                 Clean txt \<Rightarrow> st\<lparr>mp_files := obj_set path txt (mp_files st)\<rparr>
               | Conflicted chunks \<Rightarrow>
                   if mixesLineBreaks [bc_content anc, mine, theirs]
                   then add_conflict (WholeConflict path (Some mine) (Some theirs) l s) st
                   else add_conflict (LinesConflict path chunks l s) st)
         | (_, mine, theirs) \<Rightarrow>
             add_conflict (WholeConflict path mine theirs
               (if mine = None then None else l) (if theirs = None then None else s)) st)"

definition plan_path ::
  "json_parse \<Rightarrow> json_stringify \<Rightarrow> diff_fn \<Rightarrow> merge_input \<Rightarrow> string \<Rightarrow> merge_plan \<Rightarrow> merge_plan" where
  "plan_path parse stringify diff i path st =
     (let b = map_of (mi_base i) path;
          l = map_of (mi_localHashes i) path;
          s = map_of (mi_serverHashes i) path
      in if l = s then take_from (mi_local i) path st
         else if l = b then take_from (mi_server i) path st
         else if s = b then take_from (mi_local i) path st
         else if \<not> isUserFile path then
           (let st1 = take_from (if obj_has (mi_server i) path then mi_server i else mi_local i) path st
            in if path = PROGRAM_INFO_PATH \<and> obj_has (mi_server i) path
               then (case keepLocalKeypair parse stringify
                            (map_of (mi_local i) path) (map_of (mi_server i) path) of
                       (lg, None) \<Rightarrow> st1\<lparr>mp_log := mp_log st1 @ lg\<rparr>
                     | (lg, Some c) \<Rightarrow>
                         st1\<lparr>mp_files := obj_set path c (mp_files st1), mp_log := mp_log st1 @ lg\<rparr>)
               else st1)
         else plan_both diff i path st)"

definition plan_paths :: "merge_input \<Rightarrow> string list" where
  "plan_paths i =
     sort (js_set (obj_keys (mi_base i) @ obj_keys (mi_localHashes i) @ obj_keys (mi_serverHashes i)))"

definition planMerge ::
  "json_parse \<Rightarrow> json_stringify \<Rightarrow> diff_fn \<Rightarrow> merge_input \<Rightarrow> merge_plan" where
  "planMerge parse stringify diff i =
     fold (plan_path parse stringify diff i) (plan_paths i)
       \<lparr>mp_files = [], mp_conflicts = [], mp_log = []\<rparr>"

section \<open>Answers\<close>

record resolved_file =
  rf_content :: "string option"
  rf_localHash :: "string option"
  rf_serverHash :: "string option"

datatype preference = PreferLocal | PreferServer | Resolved "resolved_file js_obj"

datatype settle_error = NoAnswer string

fun settle_answers ::
  "resolved_file js_obj \<Rightarrow> file_conflict list \<Rightarrow> files \<Rightarrow> settle_error + files" where
  "settle_answers answers [] files = Inr files"
| "settle_answers answers (c # cs) files =
     (case map_of answers (fc_path c) of
        None \<Rightarrow> Inl (NoAnswer (fc_path c))
      | Some answer \<Rightarrow>
          settle_answers answers cs
            (case rf_content answer of None \<Rightarrow> files | Some txt \<Rightarrow> obj_set (fc_path c) txt files))"

definition settle_from :: "files \<Rightarrow> file_conflict list \<Rightarrow> files \<Rightarrow> files" where
  "settle_from from cs files =
     fold (\<lambda>path files. case map_of from path of None \<Rightarrow> files | Some c \<Rightarrow> obj_set path c files)
       (map fc_path cs) files"

definition settleConflicts ::
  "merge_plan \<Rightarrow> preference \<Rightarrow> files \<Rightarrow> files \<Rightarrow> settle_error + files" where
  "settleConflicts plan prefer local server =
     (case prefer of
        Resolved answers \<Rightarrow> settle_answers answers (mp_conflicts plan) (mp_files plan)
      | PreferLocal \<Rightarrow> Inr (settle_from local (mp_conflicts plan) (mp_files plan))
      | PreferServer \<Rightarrow> Inr (settle_from server (mp_conflicts plan) (mp_files plan)))"

section \<open>After the merge\<close>

definition baseAfterMerge :: "files \<Rightarrow> files \<Rightarrow> file_hashes \<Rightarrow> base_content js_obj" where
  "baseAfterMerge merged server serverHashes =
     map (\<lambda>path. (path, \<lparr>bc_hash = map_of serverHashes path,
                         bc_content = the (map_of server path)\<rparr>))
       (filter (\<lambda>path. isUserFile path \<and> map_of merged path \<noteq> map_of server path) (obj_keys server))"

definition sameFiles :: "files \<Rightarrow> files \<Rightarrow> bool" where
  "sameFiles a b \<longleftrightarrow>
     length (obj_keys a) = length (obj_keys b) \<and>
     list_all (\<lambda>path. obj_has b path \<and> map_of a path = map_of b path) (obj_keys a)"

end
