(* ===== verification/Merge3_Correct.thy ===== *)
theory Merge3_Correct
  imports Merge3 "HOL-Library.Multiset"
begin

text \<open>
  Correctness of the three-way merge. The interface \<open>line_diff\<close> is what the merge relies on of
  \<^verbatim>\<open>diffArrays\<close>; the specification is the textbook one of diff3: both sides and the base
  split into the same sequence of regions, each of them unchanged, changed by one side, changed
  the same way by both, or in conflict, and the merge is read off the regions.
\<close>

section \<open>The diff interface\<close>

text \<open>
  What the package documents of the change objects: those that were not added spell the old
  array, those that were not removed the new one, none is empty and none is both. (Of two empty
  arrays the package makes one empty part; nothing is asked of it there.)
\<close>

locale line_diff =
  fixes diff :: diff_fn
  assumes base_parts:
      "concat (map part_value (filter (\<lambda>p. \<not> part_added p) (diff b x))) = b"
    and other_parts:
      "concat (map part_value (filter (\<lambda>p. \<not> part_removed p) (diff b x))) = x"
    and part_neq_Nil: "b \<noteq> [] \<or> x \<noteq> [] \<Longrightarrow> p \<in> set (diff b x) \<Longrightarrow> part_value p \<noteq> []"
    and part_exclusive: "p \<in> set (diff b x) \<Longrightarrow> \<not> (part_added p \<and> part_removed p)"

section \<open>Hunks apply to the base\<close>

abbreviation sep_hunks :: "hunk list \<Rightarrow> bool" where
  "sep_hunks hs \<equiv> sorted_wrt (\<lambda>h k. h_end h < h_start k) hs"

lemma render_loop_append:
  assumes "\<forall>h\<in>set xs. h_end h \<le> m" and "\<forall>h\<in>set ys. m \<le> h_start h"
    and "pos \<le> m" and "m \<le> e"
  shows "render_loop b pos (xs @ ys) e = render_loop b pos xs m @ render_loop b m ys e"
  using assms
proof (induction xs arbitrary: pos)
  case Nil
  then show ?case
    by (cases ys) (simp_all add: js_slice_append flip: append_assoc)
qed simp

lemma render_loop_snoc:
  "\<forall>k\<in>set hs. h_end k \<le> h_start h \<Longrightarrow> pos \<le> h_start h \<Longrightarrow> h_start h \<le> e \<Longrightarrow>
   render_loop b pos (hs @ [h]) e =
     render_loop b pos hs (h_start h) @ h_lines h @ js_slice b (h_end h) e"
  by (subst render_loop_append [where m = "h_start h"]) simp_all

text \<open>The state of \<^verbatim>\<open>hunksOf\<close>'s scan: \<open>at\<close> lines of the base are behind it.\<close>

definition scan_ok :: "string list \<Rightarrow> side \<Rightarrow> hunk list \<Rightarrow> nat \<Rightarrow> hunk option \<Rightarrow> bool" where
  "scan_ok b s hunks at opn \<longleftrightarrow>
     at \<le> length b \<and> sep_hunks hunks \<and>
     (\<forall>h\<in>set hunks. h_start h \<le> h_end h \<and> h_end h \<le> at \<and> h_side h = s) \<and>
     (case opn of
        None \<Rightarrow> \<forall>h\<in>set hunks. h_end h < at
      | Some h \<Rightarrow> h_start h \<le> at \<and> h_end h = at \<and> h_side h = s \<and>
          (\<forall>k\<in>set hunks. h_end k < h_start h))"

definition scan_text :: "string list \<Rightarrow> hunk list \<Rightarrow> nat \<Rightarrow> hunk option \<Rightarrow> string list" where
  "scan_text b hunks at opn = render_loop b 0 (hunks @ (case opn of None \<Rightarrow> [] | Some h \<Rightarrow> [h])) at"

definition hunks_ok :: "string list \<Rightarrow> side \<Rightarrow> hunk list \<Rightarrow> bool" where
  "hunks_ok b s hs \<longleftrightarrow>
     sep_hunks hs \<and> (\<forall>h\<in>set hs. h_start h \<le> h_end h \<and> h_end h \<le> length b \<and> h_side h = s)"

lemma scan_text_Some:
  "scan_ok b s hunks at (Some h) \<Longrightarrow>
   scan_text b hunks at (Some h) = render_loop b 0 hunks (h_start h) @ h_lines h"
  by (auto simp: scan_ok_def scan_text_def render_loop_snoc less_imp_le)

lemma scan_text_None: "scan_text b hunks at None = render_loop b 0 hunks at"
  by (simp add: scan_text_def)

lemma scan_text_close:
  "scan_ok b s hunks at opn \<Longrightarrow> at \<le> e \<Longrightarrow>
   render_loop b 0 (hunks @ (case opn of None \<Rightarrow> [] | Some h \<Rightarrow> [h])) e =
     scan_text b hunks at opn @ js_slice b at e"
  unfolding scan_text_def
  by (subst append_Nil2 [symmetric], subst render_loop_append [where m = at])
    (auto simp: scan_ok_def less_imp_le split: option.splits)

lemma hunks_loop_ok:
  assumes "scan_ok b s hunks at opn"
    and "drop at b = concat (map part_value (filter (\<lambda>p. \<not> part_added p) ps))"
    and "\<forall>p\<in>set ps. part_value p \<noteq> [] \<and> \<not> (part_added p \<and> part_removed p)"
  shows "hunks_ok b s (hunks_loop s ps hunks at opn) \<and>
    render_loop b 0 (hunks_loop s ps hunks at opn) (length b) =
      scan_text b hunks at opn @ concat (map part_value (filter (\<lambda>p. \<not> part_removed p) ps))"
  using assms
proof (induction ps arbitrary: hunks at opn)
  case Nil
  then have at: "at = length b" by (simp add: scan_ok_def)
  with Nil show ?case
    using scan_text_close [OF Nil.prems(1), of "length b"]
    by (auto simp: hunks_ok_def scan_ok_def sorted_wrt_append split: option.splits)
next
  case (Cons p ps)
  let ?n = "length (part_value p)"
  let ?h = "case opn of Some h \<Rightarrow> h
    | None \<Rightarrow> \<lparr>h_start = at, h_end = at, h_lines = [], h_side = s\<rparr>"
  note ok = Cons.prems(1) and rest = Cons.prems(2)
  have at: "at \<le> length b" using ok by (simp add: scan_ok_def)
  have n: "0 < ?n" using Cons.prems(3) by simp
  have tail: "\<forall>q\<in>set ps. part_value q \<noteq> [] \<and> \<not> (part_added q \<and> part_removed q)"
    using Cons.prems(3) by simp
  consider (keep) "\<not> part_added p" "\<not> part_removed p" | (rem) "part_removed p" "\<not> part_added p"
    | (add) "part_added p" "\<not> part_removed p"
    using Cons.prems(3) by auto
  then show ?case
  proof cases
    case keep
    let ?hs = "case opn of None \<Rightarrow> hunks | Some h \<Rightarrow> hunks @ [h]"
    from keep rest have d: "drop at b = part_value p @ concat (map part_value (filter (\<lambda>p. \<not> part_added p) ps))"
      by simp
    note len = drop_eq_appendD [OF d at]
    have "scan_ok b s ?hs (at + ?n) None"
      using ok n len(1) by (fastforce simp: scan_ok_def sorted_wrt_append split: option.splits)
    moreover have "drop (at + ?n) b = concat (map part_value (filter (\<lambda>p. \<not> part_added p) ps))"
      by (rule len(2))
    moreover have "scan_text b ?hs (at + ?n) None = scan_text b hunks at opn @ part_value p"
      using scan_text_close [OF ok, of "at + ?n"] len(3)
      by (auto simp: scan_text_def split: option.splits)
    ultimately show ?thesis
      using Cons.IH [OF _ _ tail] keep by simp
  next
    case rem
    from rem rest have d: "drop at b = part_value p @ concat (map part_value (filter (\<lambda>p. \<not> part_added p) ps))"
      by simp
    note len = drop_eq_appendD [OF d at]
    let ?h' = "?h\<lparr>h_end := at + ?n\<rparr>"
    have ok': "scan_ok b s hunks (at + ?n) (Some ?h')"
      using ok len(1) by (fastforce simp: scan_ok_def split: option.splits)
    moreover have "drop (at + ?n) b = concat (map part_value (filter (\<lambda>p. \<not> part_added p) ps))"
      by (rule len(2))
    moreover have "scan_text b hunks (at + ?n) (Some ?h') = scan_text b hunks at opn"
      using scan_text_Some [OF ok'] ok
      by (cases opn) (auto simp: scan_text_Some scan_text_None)
    ultimately show ?thesis
      using Cons.IH [OF _ _ tail] rem by (simp add: Let_def)
  next
    case add
    let ?h' = "?h\<lparr>h_lines := h_lines ?h @ part_value p\<rparr>"
    have ok': "scan_ok b s hunks at (Some ?h')"
      using ok by (fastforce simp: scan_ok_def split: option.splits)
    moreover have "drop at b = concat (map part_value (filter (\<lambda>p. \<not> part_added p) ps))"
      using rest add by simp
    moreover have "scan_text b hunks at (Some ?h') = scan_text b hunks at opn @ part_value p"
      using scan_text_Some [OF ok'] ok
      by (cases opn) (auto simp: scan_text_Some scan_text_None)
    ultimately show ?thesis
      using Cons.IH [OF _ _ tail] add by (simp add: Let_def)
  qed
qed

context line_diff
begin

lemma hunksOf_ok: "b \<noteq> [] \<or> x \<noteq> [] \<Longrightarrow> hunks_ok b s (hunksOf diff b x s)"
  and hunksOf_render:
    "b \<noteq> [] \<or> x \<noteq> [] \<Longrightarrow> render_loop b 0 (hunksOf diff b x s) (length b) = x"
proof -
  assume ne: "b \<noteq> [] \<or> x \<noteq> []"
  have "scan_ok b s [] 0 None" by (simp add: scan_ok_def)
  moreover have "\<forall>p\<in>set (diff b x). part_value p \<noteq> [] \<and> \<not> (part_added p \<and> part_removed p)"
    using part_neq_Nil [OF ne] part_exclusive by blast
  ultimately have *: "hunks_ok b s (hunks_loop s (diff b x) [] 0 None) \<and>
      render_loop b 0 (hunks_loop s (diff b x) [] 0 None) (length b) =
        scan_text b [] 0 None @ concat (map part_value (filter (\<lambda>p. \<not> part_removed p) (diff b x)))"
    by (intro hunks_loop_ok) (simp_all add: base_parts)
  then show "hunks_ok b s (hunksOf diff b x s)"
    and "render_loop b 0 (hunksOf diff b x s) (length b) = x"
    by (simp_all add: hunksOf_def scan_text_def other_parts)
qed

end

section \<open>Regions\<close>

text \<open>
  A region of the three files. \<open>One s b n\<close>: side \<open>s\<close> made \<open>n\<close> of the base's \<open>b\<close>, the
  other side has \<open>b\<close>. \<open>Same b n\<close>: both made \<open>n\<close> of it. \<open>Clash b x y\<close>: ours made \<open>x\<close>
  and theirs \<open>y\<close>.
\<close>

datatype region =
    Kept "string list"
  | One side "string list" "string list"
  | Same "string list" "string list"
  | Clash "string list" "string list" "string list"

fun region_base :: "region \<Rightarrow> string list" where
  "region_base (Kept b) = b"
| "region_base (One s b n) = b"
| "region_base (Same b n) = b"
| "region_base (Clash b x y) = b"

fun region_side :: "side \<Rightarrow> region \<Rightarrow> string list" where
  "region_side s (Kept b) = b"
| "region_side s (One s' b n) = (if s = s' then n else b)"
| "region_side s (Same b n) = n"
| "region_side s (Clash b x y) = (case s of Ours \<Rightarrow> x | Theirs \<Rightarrow> y)"

text \<open>The three panes of a conflict: its base lines, ours, theirs.\<close>

datatype pane = BasePane | SidePane side

fun pick :: "pane \<Rightarrow> string list \<Rightarrow> string list \<Rightarrow> string list \<Rightarrow> string list" where
  "pick BasePane b x y = b"
| "pick (SidePane Ours) b x y = x"
| "pick (SidePane Theirs) b x y = y"

text \<open>What a pane shows of a region once everything decided is applied.\<close>

fun region_pane :: "pane \<Rightarrow> region \<Rightarrow> string list" where
  "region_pane p (Kept b) = b"
| "region_pane p (One s b n) = n"
| "region_pane p (Same b n) = n"
| "region_pane p (Clash b x y) = pick p b x y"

fun chunk_pane :: "pane \<Rightarrow> chunk \<Rightarrow> string list" where
  "chunk_pane p (Settled ls cs) = ls"
| "chunk_pane p (Conflict b x y) = pick p b x y"

definition pane_lines :: "pane \<Rightarrow> chunk list \<Rightarrow> string list" where
  "pane_lines p cs = concat (map (chunk_pane p) cs)"

fun conflicts_in :: "chunk list \<Rightarrow> (string list \<times> string list \<times> string list) list" where
  "conflicts_in [] = []"
| "conflicts_in (Settled ls cs # rest) = conflicts_in rest"
| "conflicts_in (Conflict b x y # rest) = (b, x, y) # conflicts_in rest"

fun clashes :: "region list \<Rightarrow> (string list \<times> string list \<times> string list) list" where
  "clashes [] = []"
| "clashes (Clash b x y # rs) = (b, x, y) # clashes rs"
| "clashes (r # rs) = clashes rs"

text \<open>A clash is a real one: the sides differ there.\<close>

fun region_ok :: "region \<Rightarrow> bool" where
  "region_ok (Clash b x y) \<longleftrightarrow> x \<noteq> y"
| "region_ok r \<longleftrightarrow> True"

abbreviation splits_into :: "region list \<Rightarrow> string list \<Rightarrow> string list \<Rightarrow> string list \<Rightarrow> bool" where
  "splits_into rs b x y \<equiv>
     concat (map region_base rs) = b \<and> concat (map (region_side Ours) rs) = x \<and>
     concat (map (region_side Theirs) rs) = y \<and> list_all region_ok rs"

text \<open>The result of a merge agrees with a splitting into regions.\<close>

fun agrees :: "region list \<Rightarrow> merge3_result \<Rightarrow> bool" where
  "agrees rs (Clean text) \<longleftrightarrow>
     clashes rs = [] \<and> text = js_join (concat (map (region_pane BasePane) rs))"
| "agrees rs (Conflicted cs) \<longleftrightarrow>
     clashes rs \<noteq> [] \<and> conflicts_in cs = clashes rs \<and>
     (\<forall>p. pane_lines p cs = concat (map (region_pane p) rs))"

lemma pane_lines_simps [simp]:
  "pane_lines p [] = []" "pane_lines p (c # cs) = chunk_pane p c @ pane_lines p cs"
  "pane_lines p (cs @ ds) = pane_lines p cs @ pane_lines p ds"
  by (simp_all add: pane_lines_def)

lemma conflicts_in_append [simp]: "conflicts_in (xs @ ys) = conflicts_in xs @ conflicts_in ys"
  by (induction xs rule: conflicts_in.induct) auto

lemma clashes_append [simp]: "clashes (xs @ ys) = clashes xs @ clashes ys"
  by (induction xs rule: clashes.induct) auto

section \<open>Groups\<close>

lemma take_group_split:
  assumes "take_group hs e = (g, e', rest)" and "sorted (map h_start hs)"
  shows "hs = g @ rest \<and> e \<le> e' \<and> (\<forall>h\<in>set g. h_end h \<le> e') \<and> (\<forall>h\<in>set rest. e' < h_start h)"
  using assms
  by (induction hs arbitrary: e g e' rest) (fastforce split: if_splits prod.splits)+

lemma take_group_end:
  "take_group hs e = (g, e', rest) \<Longrightarrow> e \<le> n \<Longrightarrow> \<forall>h\<in>set hs. h_end h \<le> n \<Longrightarrow> e' \<le> n"
  by (induction hs arbitrary: e g e' rest) (fastforce split: if_splits prod.splits)+

lemma side_hunks_append [simp]: "side_hunks s (xs @ ys) = side_hunks s xs @ side_hunks s ys"
  by (simp add: side_hunks_def)

lemma side_hunks_subset: "h \<in> set (side_hunks s hs) \<Longrightarrow> h \<in> set hs"
  by (simp add: side_hunks_def)

lemma one_side_group:
  "length (js_set (map h_side (h # g))) = 1 \<longleftrightarrow> (\<forall>k\<in>set g. h_side k = h_side h)"
proof -
  have "length (js_set xs) = card (set xs)" for xs :: "side list"
    by (metis distinct_card distinct_js_set set_js_set)
  then have "length (js_set (map h_side (h # g))) = 1 \<longleftrightarrow> card (h_side ` set (h # g)) = 1"
    by simp
  also have "\<dots> \<longleftrightarrow> (\<forall>k\<in>set g. h_side k = h_side h)"
    by (auto simp: card_1_singleton_iff)
  finally show ?thesis .
qed

lemma side_hunks_other: "\<forall>k\<in>set hs. h_side k = s' \<Longrightarrow> s \<noteq> s' \<Longrightarrow> side_hunks s hs = []"
  by (auto simp: side_hunks_def filter_empty_conv)

text \<open>The region a group stands for.\<close>

definition group_region :: "string list \<Rightarrow> hunk \<Rightarrow> hunk list \<Rightarrow> nat \<Rightarrow> region" where
  "group_region b h g e =
     (let start = h_start h; base = js_slice b start e;
          mine = render b (h # g) start e Ours; yours = render b (h # g) start e Theirs
      in if \<forall>k\<in>set g. h_side k = h_side h
         then One (h_side h) base (render b (h # g) start e (h_side h))
         else if mine \<noteq> yours then Clash base mine yours else Same base mine)"

lemma group_region_base [simp]: "region_base (group_region b h g e) = js_slice b (h_start h) e"
  by (simp add: group_region_def Let_def)

lemma group_region_ok [simp]: "region_ok (group_region b h g e)"
  by (simp add: group_region_def Let_def)

lemma group_region_side:
  "region_side s (group_region b h g e) = render b (h # g) (h_start h) e s"
  using side_hunks_other [of "h # g" "h_side h" s]
  by (cases s) (auto simp: group_region_def Let_def render_def)

text \<open>What a merge state holds so far, read as a pane and as a list of conflicts.\<close>

definition acc_pane :: "pane \<Rightarrow> merge_acc \<Rightarrow> string list" where
  "acc_pane p acc = pane_lines p (ma_chunks acc) @ ma_out acc"

lemma acc_pane_settle [simp]: "acc_pane p (settle acc) = acc_pane p acc"
  by (simp add: acc_pane_def settle_def)

lemma ma_out_settle [simp]: "ma_out (settle acc) = []"
  by (simp add: settle_def)

lemma pane_settle: "pane_lines p (ma_chunks (settle acc)) = acc_pane p acc"
  by (simp add: acc_pane_def settle_def)

lemma ma_at_settle [simp]: "ma_at (settle acc) = ma_at acc"
  by (simp add: settle_def)

lemma conflicts_settle [simp]:
  "conflicts_in (ma_chunks (settle acc)) = conflicts_in (ma_chunks acc)"
  by (simp add: settle_def)

lemma merge_group_at [simp]: "ma_at (merge_group b h g e acc) = e"
  by (simp add: merge_group_def Let_def)

lemma merge_group_pane:
  "acc_pane p (merge_group b h g e acc) =
     acc_pane p acc @ js_slice b (ma_at acc) (h_start h) @ region_pane p (group_region b h g e)"
proof -
  define acc1 where "acc1 = acc\<lparr>ma_out := ma_out acc @ js_slice b (ma_at acc) (h_start h)\<rparr>"
  have acc1: "acc_pane p acc1 = acc_pane p acc @ js_slice b (ma_at acc) (h_start h)"
    by (simp add: acc1_def acc_pane_def)
  then show ?thesis
    using pane_settle [of p acc1]
    by (simp only: merge_group_def Let_def group_region_def one_side_group acc1_def [symmetric])
      (auto simp: acc_pane_def changed_def)
qed

lemma merge_group_conflicts:
  "conflicts_in (ma_chunks (merge_group b h g e acc)) =
     conflicts_in (ma_chunks acc) @ clashes [group_region b h g e]"
  by (simp only: merge_group_def Let_def group_region_def one_side_group)
    (auto simp: changed_def)

section \<open>The merge loop splits the files into regions\<close>

definition sorted_hunks :: "string list \<Rightarrow> nat \<Rightarrow> hunk list \<Rightarrow> bool" where
  "sorted_hunks b at hs \<longleftrightarrow> sorted (map h_start hs) \<and> at \<le> length b \<and>
     (\<forall>h\<in>set hs. at \<le> h_start h \<and> h_start h \<le> h_end h \<and> h_end h \<le> length b)"

text \<open>The end state of \<^verbatim>\<open>merge3\<close>: the loop, then the rest of the base.\<close>

definition merge_end :: "string list \<Rightarrow> hunk list \<Rightarrow> merge_acc \<Rightarrow> merge_acc" where
  "merge_end b hs acc = (let acc' = merge_loop b hs acc
     in acc'\<lparr>ma_out := ma_out acc' @ drop (ma_at acc') b\<rparr>)"

lemma js_slice_to_end: "js_slice xs i (length xs) = drop i xs"
  by (simp add: js_slice_def)

lemma merge_end_Nil:
  "merge_end b [] acc = acc\<lparr>ma_out := ma_out acc @ drop (ma_at acc) b\<rparr>"
  by (simp add: merge_end_def)

lemma merge_end_Cons:
  "take_group hs (h_end h) = (g, e, rest) \<Longrightarrow>
   merge_end b (h # hs) acc = merge_end b rest (merge_group b h g e acc)"
  by (simp add: merge_end_def)

lemma group_step:
  assumes "sorted_hunks b at (h # hs)" and "take_group hs (h_end h) = (g, e, rest)"
  shows "sorted_hunks b e rest" "hs = g @ rest" "at \<le> h_start h" "h_start h \<le> e" "e \<le> length b"
    "\<forall>k\<in>set rest. e < h_start k" "\<forall>k\<in>set (h # g). h_start h \<le> h_start k \<and> h_end k \<le> e"
proof -
  from assms have st: "sorted (map h_start hs)" by (simp add: sorted_hunks_def)
  note split = take_group_split [OF assms(2) st]
  show "hs = g @ rest" "\<forall>k\<in>set rest. e < h_start k"
    using split by simp_all
  show at: "at \<le> h_start h" using assms(1) by (simp add: sorted_hunks_def)
  show "h_start h \<le> e" using assms(1) split by (auto simp: sorted_hunks_def)
  show e: "e \<le> length b"
    using assms(1) take_group_end [OF assms(2), of "length b"] by (auto simp: sorted_hunks_def)
  show "\<forall>k\<in>set (h # g). h_start h \<le> h_start k \<and> h_end k \<le> e"
    using assms(1) split by (auto simp: sorted_hunks_def)
  show "sorted_hunks b e rest"
    using assms(1) split e by (fastforce simp: sorted_hunks_def sorted_append)
qed

lemma group_step_render:
  assumes "sorted_hunks b at (h # hs)" and "take_group hs (h_end h) = (g, e, rest)"
  shows "render_loop b at (side_hunks s (h # hs)) (length b) =
    js_slice b at (h_start h) @ render b (h # g) (h_start h) e s @
    render_loop b e (side_hunks s rest) (length b)"
proof -
  note step = group_step [OF assms]
  let ?xs = "side_hunks s (h # g)" and ?ys = "side_hunks s rest"
  have "side_hunks s (h # hs) = ?xs @ ?ys"
    using step(2) by (metis append_Cons side_hunks_append)
  moreover have "render_loop b at (?xs @ ?ys) (length b) =
      render_loop b at ?xs e @ render_loop b e ?ys (length b)"
    using step by (intro render_loop_append) (auto dest!: side_hunks_subset)
  moreover have "render_loop b at ([] @ ?xs) e =
      render_loop b at [] (h_start h) @ render_loop b (h_start h) ?xs e"
    using step by (intro render_loop_append) (auto dest!: side_hunks_subset)
  ultimately show ?thesis by (simp add: render_def)
qed

text \<open>What the loop makes of the hunks that are left, from \<open>at\<close> on.\<close>

definition splits_from :: "string list \<Rightarrow> nat \<Rightarrow> hunk list \<Rightarrow> region list \<Rightarrow> bool" where
  "splits_from b at hs rs \<longleftrightarrow>
     concat (map region_base rs) = drop at b \<and> list_all region_ok rs \<and>
     (\<forall>s. concat (map (region_side s) rs) = render_loop b at (side_hunks s hs) (length b))"

lemma splits_from_Nil: "splits_from b at [] [Kept (drop at b)]"
  by (simp add: splits_from_def side_hunks_def js_slice_to_end)

lemma splits_from_Cons:
  assumes "sorted_hunks b at (h # hs)" and "take_group hs (h_end h) = (g, e, rest)"
    and "splits_from b e rest rs"
  shows "splits_from b at (h # hs) (Kept (js_slice b at (h_start h)) # group_region b h g e # rs)"
proof -
  note step = group_step [OF assms(1,2)]
  have "js_slice b at (h_start h) @ js_slice b (h_start h) e @ drop e b = drop at b"
    using step js_slice_append [of at "h_start h" e b] js_slice_append [of at e "length b" b]
    by (simp add: js_slice_to_end flip: append_assoc)
  then show ?thesis
    using assms(3)
    by (simp add: splits_from_def group_region_side group_step_render [OF assms(1,2)])
qed

lemma merge_end_regions:
  assumes "sorted_hunks b (ma_at acc) hs"
  shows "\<exists>rs. splits_from b (ma_at acc) hs rs \<and>
    (\<forall>p. acc_pane p (merge_end b hs acc) = acc_pane p acc @ concat (map (region_pane p) rs)) \<and>
    conflicts_in (ma_chunks (merge_end b hs acc)) = conflicts_in (ma_chunks acc) @ clashes rs"
  using assms
proof (induction b hs acc rule: merge_loop.induct)
  case (1 b acc)
  have "splits_from b (ma_at acc) [] [Kept (drop (ma_at acc) b)]"
    by (rule splits_from_Nil)
  then show ?case
    by (intro exI [of _ "[Kept (drop (ma_at acc) b)]"]) (simp add: merge_end_Nil acc_pane_def)
next
  case (2 b h hs acc)
  obtain g e rest where tg: "take_group hs (h_end h) = (g, e, rest)"
    by (cases "take_group hs (h_end h)")
  let ?acc = "merge_group b h g e acc"
  have "sorted_hunks b (ma_at ?acc) rest"
    using group_step(1) [OF "2.prems" tg] by simp
  from "2.IH" [OF tg [symmetric] refl this] obtain rs where rs: "splits_from b e rest rs"
    "\<forall>p. acc_pane p (merge_end b rest ?acc) = acc_pane p ?acc @ concat (map (region_pane p) rs)"
    "conflicts_in (ma_chunks (merge_end b rest ?acc)) = conflicts_in (ma_chunks ?acc) @ clashes rs"
    by (auto)
  let ?rs = "Kept (js_slice b (ma_at acc) (h_start h)) # group_region b h g e # rs"
  have "splits_from b (ma_at acc) (h # hs) ?rs"
    by (rule splits_from_Cons [OF "2.prems" tg rs(1)])
  moreover have "clashes ?rs = clashes [group_region b h g e] @ clashes rs"
    using clashes_append [of "[group_region b h g e]" rs] by simp
  ultimately show ?case
    by (intro exI [of _ ?rs])
      (simp add: merge_end_Cons [OF tg] rs merge_group_pane merge_group_conflicts)
qed

section \<open>The shape of the chunks\<close>

fun is_conflict :: "chunk \<Rightarrow> bool" where
  "is_conflict (Conflict b x y) = True"
| "is_conflict (Settled ls cs) = False"

text \<open>
  The changes of a settled chunk lie inside its lines, in order, with a line between any two.
\<close>

definition changes_ok :: "nat \<Rightarrow> settled_change list \<Rightarrow> bool" where
  "changes_ok n cs \<longleftrightarrow> (\<forall>c\<in>set cs. sc_start c + sc_count c \<le> n) \<and>
     sorted_wrt (\<lambda>c d. sc_start c + sc_count c < sc_start d) cs"

fun chunk_ok :: "chunk \<Rightarrow> bool" where
  "chunk_ok (Conflict b x y) \<longleftrightarrow> x \<noteq> y"
| "chunk_ok (Settled ls None) \<longleftrightarrow> ls \<noteq> []"
| "chunk_ok (Settled ls (Some cs)) \<longleftrightarrow> ls \<noteq> [] \<and> cs \<noteq> [] \<and> changes_ok (length ls) cs"

text \<open>No chunk is empty or vacuous, and no two settled ones follow each other.\<close>

definition chunks_ok :: "chunk list \<Rightarrow> bool" where
  "chunks_ok cs \<longleftrightarrow> list_all chunk_ok cs \<and> successively (\<lambda>c d. is_conflict c \<or> is_conflict d) cs"

definition loop_ok :: "merge_acc \<Rightarrow> hunk list \<Rightarrow> bool" where
  "loop_ok acc hs \<longleftrightarrow>
     chunks_ok (ma_chunks acc) \<and> (ma_chunks acc \<noteq> [] \<longrightarrow> is_conflict (last (ma_chunks acc))) \<and>
     changes_ok (length (ma_out acc)) (ma_changes acc) \<and>
     (ma_changes acc \<noteq> [] \<longrightarrow> (\<forall>h\<in>set hs. ma_at acc < h_start h))"

lemma changes_ok_Nil [simp]: "changes_ok n []"
  by (simp add: changes_ok_def)

lemma changes_ok_mono: "changes_ok n cs \<Longrightarrow> n \<le> m \<Longrightarrow> changes_ok m cs"
  by (fastforce simp: changes_ok_def)

lemma changes_ok_snoc:
  "changes_ok n cs \<Longrightarrow> (cs \<noteq> [] \<longrightarrow> n < sc_start c) \<Longrightarrow> sc_start c + sc_count c \<le> m \<Longrightarrow>
   n \<le> m \<Longrightarrow> changes_ok m (cs @ [c])"
  by (cases "cs = []") (fastforce simp: changes_ok_def sorted_wrt_append)+

lemma chunks_ok_snoc:
  "chunks_ok (cs @ [c]) \<longleftrightarrow>
     chunks_ok cs \<and> chunk_ok c \<and> (cs \<noteq> [] \<longrightarrow> is_conflict (last cs) \<or> is_conflict c)"
  by (auto simp: chunks_ok_def successively_append_iff)

lemma settle_ok:
  assumes "chunks_ok (ma_chunks acc)" "ma_chunks acc \<noteq> [] \<longrightarrow> is_conflict (last (ma_chunks acc))"
    "changes_ok (length (ma_out acc)) (ma_changes acc)"
  shows "chunks_ok (ma_chunks (settle acc))"
  using assms by (simp add: settle_def chunks_ok_snoc)

lemma merge_group_ok:
  assumes "loop_ok acc (h # hs)" and "h_start h \<le> length b" and "\<forall>k\<in>set rest. e < h_start k"
  shows "loop_ok (merge_group b h g e acc) rest"
proof -
  define acc1 where "acc1 = acc\<lparr>ma_out := ma_out acc @ js_slice b (ma_at acc) (h_start h)\<rparr>"
  have grown: "ma_changes acc \<noteq> [] \<longrightarrow> length (ma_out acc) < length (ma_out acc1)"
    using assms(1,2) by (auto simp: acc1_def loop_ok_def)
  have old: "changes_ok (length (ma_out acc)) (ma_changes acc1)"
    using assms(1) by (simp add: loop_ok_def acc1_def)
  have le: "length (ma_out acc) \<le> length (ma_out acc1)" by (simp add: acc1_def)
  note ok1 = changes_ok_mono [OF old le]
  have chunks: "chunks_ok (ma_chunks acc1)"
    "ma_chunks acc1 \<noteq> [] \<longrightarrow> is_conflict (last (ma_chunks acc1))"
    using assms(1) by (simp_all add: loop_ok_def acc1_def)
  have "ma_changes acc1 = ma_changes acc" by (simp add: acc1_def)
  then have empty: "ma_changes (settle acc1) = []"
    using grown by (auto simp: settle_def)
  have ch: "loop_ok ((changed ls who acc1)\<lparr>ma_at := e\<rparr>) rest" for ls who
    using chunks grown assms(3) changes_ok_snoc [OF old]
    by (auto simp: loop_ok_def changed_def acc1_def)
  have co: "loop_ok ((settle acc1)\<lparr>ma_chunks := ma_chunks (settle acc1) @ [Conflict c x y], ma_at := e\<rparr>) rest"
    if "x \<noteq> y" for c x y
    using settle_ok [OF chunks ok1] empty that
    by (simp add: loop_ok_def chunks_ok_snoc)
  show ?thesis
    unfolding merge_group_def Let_def acc1_def [symmetric]
    using ch co by simp
qed

lemma merge_end_ok:
  assumes "sorted_hunks b (ma_at acc) hs" and "loop_ok acc hs"
  shows "chunks_ok (ma_chunks (settle (merge_end b hs acc)))"
    and "ma_chunks (merge_end b hs acc) \<noteq> [] \<Longrightarrow> conflicts_in (ma_chunks (merge_end b hs acc)) \<noteq> []"
  using assms
proof (induction b hs acc rule: merge_loop.induct)
  case (1 b acc)
  { case 1
    then show ?case
      by (intro settle_ok) (auto simp: merge_end_Nil loop_ok_def intro: changes_ok_mono)
  next
    case 2
    then obtain cs c where "ma_chunks acc = cs @ [c]" "is_conflict c"
      by (metis append_butlast_last_id loop_ok_def merge_end_Nil merge_acc.select_convs(1)
          merge_acc.surjective merge_acc.update_convs(2))
    then show ?case by (cases c) (simp_all add: merge_end_Nil)
  }
next
  case (2 b h hs acc)
  obtain g e rest where tg: "take_group hs (h_end h) = (g, e, rest)"
    by (cases "take_group hs (h_end h)")
  { case 1
    note step = group_step [OF 1(1) tg]
    then have "loop_ok (merge_group b h g e acc) rest"
      using 1 by (intro merge_group_ok) auto
    then show ?case
      using "2.IH"(1) [OF tg [symmetric] refl] step(1) by (simp add: merge_end_Cons [OF tg])
  next
    case 2
    note step = group_step [OF 2(2) tg]
    then have "loop_ok (merge_group b h g e acc) rest"
      using 2 by (intro merge_group_ok) auto
    then show ?case
      using "2.IH"(2) [OF tg [symmetric] refl] step(1) 2(1) by (simp add: merge_end_Cons [OF tg])
  }
qed

section \<open>Sorting keeps each side's hunks in order\<close>

lemma sort_key_sorted_id: "sorted (map f xs) \<Longrightarrow> sort_key f xs = xs"
  by (induction xs) (auto simp: insort_is_Cons)

lemma side_hunks_sort: "side_hunks s (sort_key f hs) = sort_key f (side_hunks s hs)"
  by (simp add: side_hunks_def filter_sort)

context line_diff
begin

lemma hunks_sorted: "b \<noteq> [] \<Longrightarrow> sorted (map (\<lambda>h. (h_start h, h_end h)) (hunksOf diff b x s))"
  using hunksOf_ok [of b x s]
  by (auto simp: hunks_ok_def sorted_wrt_map intro!: sorted_wrt_mono_rel [of _ "\<lambda>h k. h_end h < h_start k"])

lemma side_hunks_own: "b \<noteq> [] \<Longrightarrow> side_hunks s (hunksOf diff b x s) = hunksOf diff b x s"
  and side_hunks_foreign: "b \<noteq> [] \<Longrightarrow> s' \<noteq> s \<Longrightarrow> side_hunks s' (hunksOf diff b x s) = []"
  using hunksOf_ok [of b x s] by (auto simp: hunks_ok_def side_hunks_def filter_empty_conv)

lemma side_all_hunks:
  "b \<noteq> [] \<Longrightarrow> side_hunks s (all_hunks diff b x y) = hunksOf diff b (case s of Ours \<Rightarrow> x | Theirs \<Rightarrow> y) s"
  by (cases s)
    (simp_all add: all_hunks_def side_hunks_sort side_hunks_own side_hunks_foreign
      sort_key_sorted_id hunks_sorted)

lemma sorted_all_hunks: "b \<noteq> [] \<Longrightarrow> sorted_hunks b 0 (all_hunks diff b x y)"
proof -
  assume ne: "b \<noteq> []"
  have "sorted (map (\<lambda>h. (h_start h, h_end h)) (all_hunks diff b x y))"
    by (simp add: all_hunks_def)
  then have "sorted (map h_start (all_hunks diff b x y))"
    by (auto simp: sorted_wrt_map elim!: sorted_wrt_mono_rel [rotated])
  moreover have "set (all_hunks diff b x y) = set (hunksOf diff b x Ours) \<union> set (hunksOf diff b y Theirs)"
    by (simp add: all_hunks_def)
  ultimately show ?thesis
    using hunksOf_ok [of b x Ours] hunksOf_ok [of b y Theirs] ne
    by (auto simp: sorted_hunks_def hunks_ok_def)
qed

lemma merge3_regions_exist:
  "\<exists>rs. splits_into rs (js_split base) (js_split ours) (js_split theirs) \<and>
        agrees rs (merge3 diff base ours theirs)"
proof -
  let ?b = "js_split base" and ?x = "js_split ours" and ?y = "js_split theirs"
  consider (eq) "ours = theirs" | (l) "ours \<noteq> theirs" "ours = base" | (r) "ours \<noteq> theirs" "theirs = base"
    | (loop) "ours \<noteq> theirs" "ours \<noteq> base" "theirs \<noteq> base" by blast
  then show ?thesis
  proof cases
    case eq
    then show ?thesis by (intro exI [of _ "[Same ?b ?x]"]) (simp add: merge3_def)
  next
    case l
    then show ?thesis by (intro exI [of _ "[One Theirs ?b ?y]"]) (simp add: merge3_def)
  next
    case r
    then show ?thesis by (intro exI [of _ "[One Ours ?b ?x]"]) (simp add: merge3_def)
  next
    case loop
    let ?hs = "all_hunks diff ?b ?x ?y"
    let ?acc = "\<lparr>ma_chunks = [], ma_out = [], ma_changes = [], ma_at = 0\<rparr>"
    let ?fin = "merge_end ?b ?hs ?acc"
    obtain rs where rs: "splits_from ?b 0 ?hs rs"
      "\<And>p. acc_pane p ?fin = concat (map (region_pane p) rs)"
      "conflicts_in (ma_chunks ?fin) = clashes rs"
      using merge_end_regions [of ?b ?acc ?hs] sorted_all_hunks [of ?b ?x ?y]
      by (auto simp: acc_pane_def)
    have "splits_into rs ?b ?x ?y"
      using rs(1) by (auto simp: splits_from_def side_all_hunks hunksOf_render)
    moreover have "merge3 diff base ours theirs =
      (if ma_chunks ?fin = [] then Clean (js_join (ma_out ?fin)) else Conflicted (ma_chunks (settle ?fin)))"
      using loop by (simp add: merge3_def merge_end_def Let_def)
    moreover have "clashes rs \<noteq> []" if "ma_chunks ?fin \<noteq> []"
      using merge_end_ok(2) [of ?b ?acc ?hs] sorted_all_hunks [of ?b ?x ?y] that rs(3)
      by (simp add: loop_ok_def chunks_ok_def)
    ultimately show ?thesis
      using rs by (intro exI [of _ rs]) (auto simp: acc_pane_def pane_settle)
  qed
qed

end

section \<open>Edits that do not touch merge cleanly\<close>

abbreviation apart :: "hunk \<Rightarrow> hunk \<Rightarrow> bool" where
  "apart h k \<equiv> h_end h < h_start k \<or> h_end k < h_start h"

lemma sorted_wrt_insort_sym:
  "(\<And>x y. P x y \<Longrightarrow> P y x) \<Longrightarrow> sorted_wrt P xs \<Longrightarrow> \<forall>y\<in>set xs. P x y \<Longrightarrow>
   sorted_wrt P (insort_key f x xs)"
  by (induction xs) (auto simp: set_insort_key)

lemma sorted_wrt_sort_sym:
  "(\<And>x y. P x y \<Longrightarrow> P y x) \<Longrightarrow> sorted_wrt P xs \<Longrightarrow> sorted_wrt P (sort_key f xs)"
  by (induction xs) (auto intro: sorted_wrt_insort_sym)

lemma sorted_wrt_conj:
  "sorted_wrt P xs \<Longrightarrow> sorted_wrt Q xs \<Longrightarrow> sorted_wrt (\<lambda>x y. P x y \<and> Q x y) xs"
  by (induction xs) auto

lemma sep_hunks_merge_end:
  assumes "sorted_hunks b (ma_at acc) hs" and "sep_hunks hs"
  shows "ma_chunks (merge_end b hs acc) = ma_chunks acc \<and>
    ma_out (merge_end b hs acc) = ma_out acc @ render_loop b (ma_at acc) hs (length b)"
  using assms
proof (induction hs arbitrary: acc)
  case Nil
  then show ?case by (simp add: merge_end_Nil js_slice_to_end)
next
  case (Cons h hs)
  have tg: "take_group hs (h_end h) = ([], h_end h, hs)"
    using Cons.prems(2) by (cases hs) auto
  have ren: "render b [h] (h_start h) (h_end h) (h_side h) = h_lines h"
    by (simp add: render_def side_hunks_def)
  have one: "length (js_set [h_side h]) = 1" by (simp add: js_set_def)
  let ?acc = "merge_group b h [] (h_end h) acc"
  have "ma_chunks ?acc = ma_chunks acc"
    "ma_out ?acc = ma_out acc @ js_slice b (ma_at acc) (h_start h) @ h_lines h"
    using one ren by (simp_all add: merge_group_def Let_def changed_def)
  then show ?case
    using Cons.IH [of ?acc] Cons.prems group_step(1) [OF Cons.prems(1) tg]
    by (simp add: merge_end_Cons [OF tg])
qed

context line_diff
begin

lemma sep_all_hunks:
  assumes ne: "b \<noteq> []"
    and "\<forall>h\<in>set (hunksOf diff b x Ours). \<forall>k\<in>set (hunksOf diff b y Theirs). apart h k"
  shows "sep_hunks (all_hunks diff b x y)"
proof -
  let ?H = "all_hunks diff b x y"
  have "sorted_wrt apart (hunksOf diff b x Ours @ hunksOf diff b y Theirs)"
    using assms hunksOf_ok [of b x Ours] hunksOf_ok [of b y Theirs]
    by (auto simp: sorted_wrt_append hunks_ok_def
        intro: sorted_wrt_mono_rel [of _ "\<lambda>h k. h_end h < h_start k"])
  then have "sorted_wrt apart ?H"
    unfolding all_hunks_def by (intro sorted_wrt_sort_sym) auto
  moreover have "sorted_wrt (\<lambda>h k. h_start h \<le> h_start k) ?H"
    using sorted_all_hunks [OF ne, of x y] by (simp add: sorted_hunks_def sorted_wrt_map)
  ultimately have "sorted_wrt (\<lambda>h k. apart h k \<and> h_start h \<le> h_start k) ?H"
    by (rule sorted_wrt_conj)
  moreover have "h_start h \<le> h_end h" if "h \<in> set ?H" for h
    using sorted_all_hunks [OF ne, of x y] that by (simp add: sorted_hunks_def)
  ultimately show ?thesis
    by (elim sorted_wrt_mono_rel [rotated]) force
qed

end

section \<open>Swapping the two sides\<close>

fun flip_side :: "side \<Rightarrow> side" where
  "flip_side Ours = Theirs"
| "flip_side Theirs = Ours"

fun flip_by :: "change_by \<Rightarrow> change_by" where
  "flip_by ByOurs = ByTheirs"
| "flip_by ByTheirs = ByOurs"
| "flip_by ByBoth = ByBoth"

definition flip_hunk :: "hunk \<Rightarrow> hunk" where
  "flip_hunk h = h\<lparr>h_side := flip_side (h_side h)\<rparr>"

definition flip_change :: "settled_change \<Rightarrow> settled_change" where
  "flip_change c = c\<lparr>sc_by := flip_by (sc_by c)\<rparr>"

fun flip_chunk :: "chunk \<Rightarrow> chunk" where
  "flip_chunk (Settled ls cs) = Settled ls (map_option (map flip_change) cs)"
| "flip_chunk (Conflict b x y) = Conflict b y x"

fun flip_result :: "merge3_result \<Rightarrow> merge3_result" where
  "flip_result (Clean text) = Clean text"
| "flip_result (Conflicted cs) = Conflicted (map flip_chunk cs)"

definition flip_acc :: "merge_acc \<Rightarrow> merge_acc" where
  "flip_acc acc = acc\<lparr>ma_chunks := map flip_chunk (ma_chunks acc),
     ma_changes := map flip_change (ma_changes acc)\<rparr>"

lemma flip_hunk_simps [simp]:
  "h_start (flip_hunk h) = h_start h" "h_end (flip_hunk h) = h_end h"
  "h_lines (flip_hunk h) = h_lines h" "h_side (flip_hunk h) = flip_side (h_side h)"
  by (simp_all add: flip_hunk_def)

lemma flip_side_flip [simp]: "flip_side (flip_side s) = s"
  and flip_side_eq: "flip_side s = s' \<longleftrightarrow> s = flip_side s'"
  and by_side_flip: "by_side (flip_side s) = flip_by (by_side s)"
  by (cases s; cases s'; simp add: by_side_def)+

lemma flip_acc_simps [simp]:
  "ma_out (flip_acc acc) = ma_out acc" "ma_at (flip_acc acc) = ma_at acc"
  "ma_chunks (flip_acc acc) = map flip_chunk (ma_chunks acc)"
  "ma_changes (flip_acc acc) = map flip_change (ma_changes acc)"
  by (simp_all add: flip_acc_def)

lemma settle_flip: "settle (flip_acc acc) = flip_acc (settle acc)"
  by (simp add: settle_def flip_acc_def)

lemma changed_flip: "changed ls (flip_by who) (flip_acc acc) = flip_acc (changed ls who acc)"
  by (simp add: changed_def flip_acc_def flip_change_def)

lemma changed_flip_both: "changed ls ByBoth (flip_acc acc) = flip_acc (changed ls ByBoth acc)"
  using changed_flip [where who = ByBoth] by simp

lemma take_group_flip:
  "take_group (map flip_hunk hs) e =
     (case take_group hs e of (g, e', rest) \<Rightarrow> (map flip_hunk g, e', map flip_hunk rest))"
  by (induction hs arbitrary: e) (auto split: prod.splits)

lemma render_loop_flip: "render_loop b pos (map flip_hunk hs) e = render_loop b pos hs e"
  by (induction hs arbitrary: pos) auto

lemma side_hunks_flip: "side_hunks s (map flip_hunk hs) = map flip_hunk (side_hunks (flip_side s) hs)"
  by (induction hs) (auto simp: side_hunks_def flip_side_eq)

lemma render_flip: "render b (map flip_hunk hs) start e s = render b hs start e (flip_side s)"
  by (simp add: render_def side_hunks_flip render_loop_flip)

lemma merge_group_flip:
  "merge_group b (flip_hunk h) (map flip_hunk g) e (flip_acc acc) = flip_acc (merge_group b h g e acc)"
proof -
  define acc1 where "acc1 = acc\<lparr>ma_out := ma_out acc @ js_slice b (ma_at acc) (h_start h)\<rparr>"
  have acc1: "(flip_acc acc)\<lparr>ma_out := ma_out acc @ js_slice b (ma_at acc) (h_start h)\<rparr> = flip_acc acc1"
    by (simp add: acc1_def flip_acc_def)
  have ren: "render b (flip_hunk h # map flip_hunk g) start e s = render b (h # g) start e (flip_side s)"
    for start s using render_flip [of b "h # g"] by simp
  have one: "length (js_set (map h_side (flip_hunk h # map flip_hunk g))) = 1 \<longleftrightarrow>
      length (js_set (map h_side (h # g))) = 1"
    unfolding one_side_group by (auto simp: flip_side_eq)
  have at: "(flip_acc a)\<lparr>ma_at := e\<rparr> = flip_acc (a\<lparr>ma_at := e\<rparr>)" for a
    by (simp add: flip_acc_def)
  have con: "(flip_acc a)\<lparr>ma_chunks := map flip_chunk (ma_chunks a) @ [Conflict c y x], ma_at := e\<rparr> =
      flip_acc (a\<lparr>ma_chunks := ma_chunks a @ [Conflict c x y], ma_at := e\<rparr>)" for a c x y
    by (simp add: flip_acc_def)
  show ?thesis
    unfolding merge_group_def Let_def
    by (simp only: one)
      (auto simp: acc1 ren at con by_side_flip changed_flip changed_flip_both settle_flip
        acc1_def [symmetric])
qed

lemma merge_loop_flip:
  "merge_loop b (map flip_hunk hs) (flip_acc acc) = flip_acc (merge_loop b hs acc)"
proof (induction b hs acc rule: merge_loop.induct)
  case (2 b h hs acc)
  obtain g e rest where tg: "take_group hs (h_end h) = (g, e, rest)"
    by (cases "take_group hs (h_end h)")
  then show ?case
    using "2.IH" [OF tg [symmetric] refl] by (simp add: take_group_flip merge_group_flip)
qed simp

text \<open>
  The order in which hunks of the two sides with the same extent are sorted makes no difference.
\<close>

abbreviation hunk_key :: "hunk \<Rightarrow> nat \<times> nat" where
  "hunk_key h \<equiv> (h_start h, h_end h)"

definition same_hunks :: "hunk list \<Rightarrow> hunk list \<Rightarrow> bool" where
  "same_hunks hs ks \<longleftrightarrow> map hunk_key hs = map hunk_key ks \<and> (\<forall>s. side_hunks s hs = side_hunks s ks)"

lemma take_group_keys:
  "map hunk_key hs = map hunk_key ks \<Longrightarrow> take_group hs e = (g, e1, r) \<Longrightarrow>
   take_group ks e = (g', e2, r') \<Longrightarrow> e1 = e2 \<and> map hunk_key r = map hunk_key r'"
proof (induction hs arbitrary: ks e g e1 r g' e2 r')
  case (Cons h hs)
  from Cons.prems(1) obtain k ks' where ks: "ks = k # ks'" by (cases ks) simp_all
  show ?case
  proof (cases "h_start h \<le> e")
    case True
    obtain a b c where tg: "take_group hs (max e (h_end h)) = (a, b, c)"
      by (cases "take_group hs (max e (h_end h))")
    obtain a' b' c' where tg': "take_group ks' (max e (h_end k)) = (a', b', c')"
      by (cases "take_group ks' (max e (h_end k))")
    have hk: "map hunk_key hs = map hunk_key ks'" "h_end h = h_end k" "h_start h = h_start k"
      using Cons.prems(1) ks by simp_all
    have "e1 = b" "r = c" "e2 = b'" "r' = c'"
      using Cons.prems(2,3) True tg tg' hk ks by simp_all
    then show ?thesis using Cons.IH [OF hk(1) tg] tg' hk by simp
  next
    case False
    then show ?thesis using Cons.prems ks by auto
  qed
qed simp

lemma one_side_iff:
  "(\<forall>k\<in>set g. h_side k = h_side h) \<longleftrightarrow> (\<exists>s. side_hunks s (h # g) = [])"
proof
  assume "\<forall>k\<in>set g. h_side k = h_side h"
  then have "side_hunks (flip_side (h_side h)) (h # g) = []"
    by (intro side_hunks_other [where s' = "h_side h"]) (auto, cases "h_side h", auto)
  then show "\<exists>s. side_hunks s (h # g) = []" ..
next
  assume "\<exists>s. side_hunks s (h # g) = []"
  then obtain s where "\<forall>k\<in>set (h # g). h_side k \<noteq> s"
    unfolding side_hunks_def filter_empty_conv by blast
  then show "\<forall>k\<in>set g. h_side k = h_side h"
    by (metis (full_types) list.set_intros(1) list.set_intros(2) side.exhaust)
qed

lemma merge_group_cong:
  assumes "h_start h = h_start k" and "\<And>s. side_hunks s (h # g) = side_hunks s (k # g')"
  shows "merge_group b h g e acc = merge_group b k g' e acc"
proof -
  have one: "(\<forall>x\<in>set g. h_side x = h_side h) \<longleftrightarrow> (\<forall>x\<in>set g'. h_side x = h_side k)"
    using assms(2) by (simp add: one_side_iff)
  have side: "h_side h = h_side k" if "\<forall>x\<in>set g'. h_side x = h_side k"
  proof -
    have "h \<in> set (side_hunks (h_side h) (k # g'))"
      unfolding assms(2) [symmetric] by (simp add: side_hunks_def)
    with that show ?thesis by (auto simp: side_hunks_def split: if_splits)
  qed
  have ren: "render b (h # g) (h_start h) e s = render b (k # g') (h_start k) e s" for s
    using assms by (simp add: render_def)
  show ?thesis
    unfolding merge_group_def Let_def one_side_group one ren
    using assms(1) side by simp
qed

lemma filter_cut:
  assumes "\<forall>x\<in>set xs. P x" and "\<forall>x\<in>set ys. \<not> P x"
  shows "filter P (filter Q (xs @ ys)) = filter Q xs"
    "filter (\<lambda>x. \<not> P x) (filter Q (xs @ ys)) = filter Q ys"
  using assms by (auto simp: filter_empty_conv intro!: filter_cong)

lemma same_hunks_group:
  assumes "sorted_hunks b at (h # hs)" "sorted_hunks b at (k # ks)" "same_hunks (h # hs) (k # ks)"
    and "take_group hs (h_end h) = (g, e, r)" "take_group ks (h_end k) = (g', e', r')"
  shows "e = e'" "same_hunks r r'" "side_hunks s (h # g) = side_hunks s (k # g')"
proof -
  have keys: "map hunk_key hs = map hunk_key ks" and hk: "h_start h = h_start k" "h_end h = h_end k"
    using assms(3) by (auto simp: same_hunks_def)
  have e: "e = e' \<and> map hunk_key r = map hunk_key r'"
    using take_group_keys [OF keys assms(4)] assms(5) hk by simp
  then show "e = e'" by simp
  note s1 = group_step [OF assms(1,4)] and s2 = group_step [OF assms(2,5)]
  have ord: "\<forall>x\<in>set (h # g). h_start x \<le> h_end x" "\<forall>x\<in>set (k # g'). h_start x \<le> h_end x"
    using assms(1,2) s1(2) s2(2) by (simp_all add: sorted_hunks_def)
  have st: "\<forall>x\<in>set (h # g). h_start x \<le> e" "\<forall>x\<in>set (k # g'). h_start x \<le> e'"
    using ord s1(7) s2(7) by (blast intro: le_trans)+
  have cut: "side_hunks s (h # g) = filter (\<lambda>x. h_start x \<le> e) (side_hunks s (h # hs)) \<and>
      side_hunks s r = filter (\<lambda>x. \<not> h_start x \<le> e) (side_hunks s (h # hs))" for s
    using filter_cut [of "h # g" "\<lambda>x. h_start x \<le> e" r "\<lambda>x. h_side x = s"] st(1) s1(2,6)
    by (simp only: side_hunks_def append_Cons) (simp add: not_le del: filter_filter)
  have cut': "side_hunks s (k # g') = filter (\<lambda>x. h_start x \<le> e) (side_hunks s (k # ks)) \<and>
      side_hunks s r' = filter (\<lambda>x. \<not> h_start x \<le> e) (side_hunks s (k # ks))" for s
    using filter_cut [of "k # g'" "\<lambda>x. h_start x \<le> e" r' "\<lambda>x. h_side x = s"] st(2) s2(2,6) e
    by (simp only: side_hunks_def append_Cons) (simp add: not_le del: filter_filter)
  show "side_hunks s (h # g) = side_hunks s (k # g')" "same_hunks r r'"
    using cut cut' assms(3) e by (simp_all add: same_hunks_def)
qed

lemma merge_loop_same:
  "same_hunks hs ks \<Longrightarrow> sorted_hunks b at hs \<Longrightarrow> sorted_hunks b at ks \<Longrightarrow>
   merge_loop b hs acc = merge_loop b ks acc"
proof (induction b hs acc arbitrary: ks at rule: merge_loop.induct)
  case (1 b acc)
  then show ?case by (simp add: same_hunks_def)
next
  case (2 b h hs acc)
  then obtain k ks' where ks: "ks = k # ks'" by (cases ks) (auto simp: same_hunks_def)
  obtain g e r where tg: "take_group hs (h_end h) = (g, e, r)"
    by (cases "take_group hs (h_end h)")
  obtain g' e' r' where tg': "take_group ks' (h_end k) = (g', e', r')"
    by (cases "take_group ks' (h_end k)")
  note same = same_hunks_group [OF "2.prems"(2) "2.prems"(3) [unfolded ks] "2.prems"(1) [unfolded ks] tg tg']
  have "merge_group b h g e acc = merge_group b k g' e' acc"
    using merge_group_cong [of h k g g'] same "2.prems"(1) ks by (simp add: same_hunks_def)
  then show ?case
    using "2.IH" [OF tg [symmetric] refl same(2)]
      group_step(1) [OF "2.prems"(2) tg] group_step(1) [OF "2.prems"(3) [unfolded ks] tg'] same(1)
    by (simp add: ks tg tg')
qed

context line_diff
begin

lemma hunks_loop_flip:
  "hunks_loop (flip_side s) ps (map flip_hunk hunks) at (map_option flip_hunk opn) =
     map flip_hunk (hunks_loop s ps hunks at opn)"
proof (induction ps arbitrary: hunks at opn)
  case (Cons p ps)
  let ?new = "\<lambda>s. \<lparr>h_start = at, h_end = at, h_lines = [], h_side = s\<rparr>"
  have opened: "(case map_option flip_hunk opn of Some h \<Rightarrow> h | None \<Rightarrow> ?new (flip_side s)) =
      flip_hunk (case opn of Some h \<Rightarrow> h | None \<Rightarrow> ?new s)"
    by (cases opn) (simp_all add: flip_hunk_def)
  have pushed: "(case map_option flip_hunk opn of None \<Rightarrow> map flip_hunk hunks
      | Some h \<Rightarrow> map flip_hunk hunks @ [h]) =
      map flip_hunk (case opn of None \<Rightarrow> hunks | Some h \<Rightarrow> hunks @ [h])"
    by (cases opn) simp_all
  have upd: "(flip_hunk h)\<lparr>h_end := n\<rparr> = flip_hunk (h\<lparr>h_end := n\<rparr>)"
    "(flip_hunk h)\<lparr>h_lines := ls\<rparr> = flip_hunk (h\<lparr>h_lines := ls\<rparr>)" for h n ls
    by (simp_all add: flip_hunk_def)
  show ?case
    unfolding hunks_loop.simps Let_def opened pushed
    using Cons.IH [where opn = None] Cons.IH [where opn = "Some h" for h] by (simp add: upd)
qed (simp split: option.splits)

lemma hunksOf_flip: "hunksOf diff b x (flip_side s) = map flip_hunk (hunksOf diff b x s)"
  using hunks_loop_flip [where hunks = "[]" and opn = None] by (simp add: hunksOf_def)

lemma insort_key_flip:
  "insort_key hunk_key (flip_hunk h) (map flip_hunk hs) = map flip_hunk (insort_key hunk_key h hs)"
  by (induction hs) auto

lemma sort_key_flip: "sort_key hunk_key (map flip_hunk hs) = map flip_hunk (sort_key hunk_key hs)"
  by (induction hs) (simp_all add: insort_key_flip)

lemma map_sort_key: "map f (sort_key f xs) = sort (map f xs)"
  by (rule properties_for_sort [symmetric]) simp_all

lemma all_hunks_flip:
  "b \<noteq> [] \<Longrightarrow> same_hunks (all_hunks diff b y x) (map flip_hunk (all_hunks diff b x y))"
proof -
  assume ne: "b \<noteq> []"
  let ?A = "hunksOf diff b x Ours" and ?B = "hunksOf diff b y Theirs"
  have "all_hunks diff b y x = sort_key hunk_key (map flip_hunk (?B @ ?A))"
    using hunksOf_flip [of b x Ours] hunksOf_flip [of b y Theirs] by (simp add: all_hunks_def)
  then have yx: "all_hunks diff b y x = map flip_hunk (sort_key hunk_key (?B @ ?A))"
    by (simp only: sort_key_flip)
  have "map hunk_key (all_hunks diff b y x) = sort (map hunk_key (?B @ ?A))"
    by (simp add: yx map_sort_key [symmetric] comp_def del: map_append)
  also have "\<dots> = sort (map hunk_key (?A @ ?B))"
    by (rule properties_for_sort) (simp_all add: union_commute)
  also have "\<dots> = map hunk_key (map flip_hunk (all_hunks diff b x y))"
    by (simp add: all_hunks_def map_sort_key [symmetric] comp_def del: map_append)
  finally show ?thesis
    using hunksOf_flip [of b x Ours] hunksOf_flip [of b y Theirs]
    by (auto simp: same_hunks_def side_hunks_flip side_all_hunks [OF ne] split: side.splits)
qed

lemma merge3_flip: "merge3 diff base theirs ours = flip_result (merge3 diff base ours theirs)"
proof -
  let ?b = "js_split base" and ?x = "js_split ours" and ?y = "js_split theirs"
  let ?acc = "\<lparr>ma_chunks = [], ma_out = [], ma_changes = [], ma_at = 0\<rparr>"
  have acc: "flip_acc ?acc = ?acc" by (simp add: flip_acc_def)
  have "sorted_hunks ?b 0 (map flip_hunk (all_hunks diff ?b ?x ?y))"
    using sorted_all_hunks [of ?b ?x ?y] by (simp add: sorted_hunks_def comp_def)
  then have "merge_loop ?b (all_hunks diff ?b ?y ?x) ?acc =
      merge_loop ?b (map flip_hunk (all_hunks diff ?b ?x ?y)) ?acc"
    by (intro merge_loop_same [OF all_hunks_flip sorted_all_hunks]) simp_all
  also have "\<dots> = flip_acc (merge_loop ?b (all_hunks diff ?b ?x ?y) ?acc)"
    using merge_loop_flip [of ?b _ ?acc] by (simp only: acc)
  finally have loop: "merge_loop ?b (all_hunks diff ?b ?y ?x) ?acc =
      flip_acc (merge_loop ?b (all_hunks diff ?b ?x ?y) ?acc)" .
  define r where "r = merge_loop ?b (all_hunks diff ?b ?x ?y) ?acc"
  have "settle ((flip_acc r)\<lparr>ma_out := out\<rparr>) = flip_acc (settle (r\<lparr>ma_out := out\<rparr>))" for out
    by (simp add: settle_def flip_acc_def)
  then show ?thesis
    by (simp add: merge3_def Let_def loop r_def [symmetric])
qed

end

section \<open>An instance of the interface\<close>

text \<open>A line diff by longest common subsequence, one change object per line.\<close>

definition keep_part :: "string \<Rightarrow> part" where
  "keep_part l = \<lparr>part_value = [l], part_added = False, part_removed = False\<rparr>"

definition add_part :: "string \<Rightarrow> part" where
  "add_part l = \<lparr>part_value = [l], part_added = True, part_removed = False\<rparr>"

definition del_part :: "string \<Rightarrow> part" where
  "del_part l = \<lparr>part_value = [l], part_added = False, part_removed = True\<rparr>"

definition kept_parts :: "part list \<Rightarrow> nat" where
  "kept_parts ps = length (filter (\<lambda>p. \<not> part_added p \<and> \<not> part_removed p) ps)"

fun lcs_diff :: diff_fn where
  "lcs_diff [] ys = map add_part ys"
| "lcs_diff xs [] = map del_part xs"
| "lcs_diff (x # xs) (y # ys) =
     (if x = y then keep_part x # lcs_diff xs ys
      else let d = lcs_diff xs (y # ys); a = lcs_diff (x # xs) ys
           in if kept_parts a \<le> kept_parts d then del_part x # d else add_part y # a)"

lemma lcs_diff_parts:
  "concat (map part_value (filter (\<lambda>p. \<not> part_added p) (lcs_diff xs ys))) = xs"
  "concat (map part_value (filter (\<lambda>p. \<not> part_removed p) (lcs_diff xs ys))) = ys"
  "p \<in> set (lcs_diff xs ys) \<Longrightarrow> part_value p \<noteq> [] \<and> \<not> (part_added p \<and> part_removed p)"
  by (induction xs ys rule: lcs_diff.induct)
    (auto simp: keep_part_def add_part_def del_part_def Let_def comp_def split: if_splits)

interpretation lcs: line_diff lcs_diff
  using lcs_diff_parts by unfold_locales blast+

section \<open>Properties\<close>

text \<open>
  C1: for any diff that keeps its documented promises, the merge splits the base and both edits
  into the same regions. A clean result is every one-sided change and every change both made
  alike; a conflicted one has as its conflicts exactly the regions the sides changed differently,
  and each pane is that pane's lines of the regions, everything decided already applied.
\<close>

theorem merge3_splits_files:
  assumes "line_diff diff"
  shows "\<exists>rs. splits_into rs (js_split base) (js_split ours) (js_split theirs) \<and>
    agrees rs (merge3 diff base ours theirs)"
  by (rule line_diff.merge3_regions_exist [OF assms])

theorem merge3_splits_files_witness:
  "\<exists>rs. splits_into rs (js_split (js_join [''a'', ''b'', ''c'']))
      (js_split (js_join [''A'', ''b'', ''c''])) (js_split (js_join [''a'', ''b'', ''C''])) \<and>
    agrees rs (merge3 lcs_diff (js_join [''a'', ''b'', ''c''])
      (js_join [''A'', ''b'', ''c'']) (js_join [''a'', ''b'', ''C'']))"
  by (rule merge3_splits_files [OF lcs.line_diff_axioms])

text \<open>
  C2: when no edit of one side overlaps or touches an edit of the other, nothing is asked: the
  result is the base with the edits of both sides applied.
\<close>

theorem merge3_untouching_edits:
  assumes "line_diff diff" and "ours \<noteq> theirs" and "ours \<noteq> base" and "theirs \<noteq> base"
    and "\<forall>h\<in>set (hunksOf diff (js_split base) (js_split ours) Ours).
         \<forall>k\<in>set (hunksOf diff (js_split base) (js_split theirs) Theirs). apart h k"
  shows "merge3 diff base ours theirs =
    Clean (js_join (render_loop (js_split base) 0
      (all_hunks diff (js_split base) (js_split ours) (js_split theirs)) (length (js_split base))))"
proof -
  let ?hs = "all_hunks diff (js_split base) (js_split ours) (js_split theirs)"
  let ?acc = "\<lparr>ma_chunks = [], ma_out = [], ma_changes = [], ma_at = 0\<rparr>"
  have "ma_chunks (merge_end (js_split base) ?hs ?acc) = [] \<and>
    ma_out (merge_end (js_split base) ?hs ?acc) =
      render_loop (js_split base) 0 ?hs (length (js_split base))"
    using sep_hunks_merge_end [of "js_split base" ?acc ?hs]
      line_diff.sorted_all_hunks [OF assms(1)] line_diff.sep_all_hunks [OF assms(1) _ assms(5)] by simp
  then show ?thesis
    using assms(2-4) by (simp add: merge3_def merge_end_def Let_def)
qed

theorem merge3_untouching_edits_witness:
  "merge3 lcs_diff (js_join [''a'', ''b'', ''c'']) (js_join [''A'', ''b'', ''c''])
     (js_join [''a'', ''b'', ''C'']) = Clean (js_join [''A'', ''b'', ''C''])"
  by (subst merge3_untouching_edits [OF lcs.line_diff_axioms]) code_simp+

text \<open>
  C3: the two devices of a merge agree. Exchanging the sides gives the mirrored result: the same
  text when it is clean, and otherwise the same chunks with each conflict's sides and each
  change's author exchanged.
\<close>

theorem merge3_mirror:
  assumes "line_diff diff"
  shows "merge3 diff base theirs ours = flip_result (merge3 diff base ours theirs)"
  by (rule line_diff.merge3_flip [OF assms])

theorem merge3_mirror_witness:
  "merge3 lcs_diff (js_join [''a'', ''b'']) (js_join [''a'', ''y'']) (js_join [''a'', ''x'']) =
   flip_result (merge3 lcs_diff (js_join [''a'', ''b'']) (js_join [''a'', ''x'']) (js_join [''a'', ''y'']))"
  by (rule merge3_mirror [OF lcs.line_diff_axioms])

text \<open>
  C4: the chunks of a conflicted file are well formed: at least one conflict, no conflict whose
  sides agree, no empty settled chunk, no two settled chunks in a row, and every recorded change
  lies within its chunk's lines, after the one before it.
\<close>

theorem merge3_chunks_ok:
  assumes "line_diff diff" and "merge3 diff base ours theirs = Conflicted cs"
  shows "chunks_ok cs \<and> conflicts_in cs \<noteq> []"
proof -
  let ?b = "js_split base"
  let ?hs = "all_hunks diff ?b (js_split ours) (js_split theirs)"
  let ?acc = "\<lparr>ma_chunks = [], ma_out = [], ma_changes = [], ma_at = 0\<rparr>"
  have cs: "cs = ma_chunks (settle (merge_end ?b ?hs ?acc))" "ma_chunks (merge_end ?b ?hs ?acc) \<noteq> []"
    using assms(2) by (auto simp: merge3_def merge_end_def Let_def split: if_splits)
  have "sorted_hunks ?b (ma_at ?acc) ?hs" "loop_ok ?acc ?hs"
    using line_diff.sorted_all_hunks [OF assms(1)] by (simp_all add: loop_ok_def chunks_ok_def)
  then show ?thesis
    using merge_end_ok [of ?b ?acc ?hs] cs by simp
qed

theorem merge3_chunks_ok_witness:
  "chunks_ok [Settled [''a''] None, Conflict [''b''] [''x''] [''y'']] \<and>
   conflicts_in [Settled [''a''] None, Conflict [''b''] [''x''] [''y'']] \<noteq> []"
proof (rule merge3_chunks_ok [OF lcs.line_diff_axioms])
  show "merge3 lcs_diff (js_join [''a'', ''b'']) (js_join [''a'', ''x'']) (js_join [''a'', ''y'']) =
    Conflicted [Settled [''a''] None, Conflict [''b''] [''x''] [''y'']]"
    by code_simp
qed

text \<open>
  The hunks computed for a side are that side's whole edit: they lie in the base in order,
  at least one unchanged line apart, and applying them to the base gives the side's lines.
\<close>

lemma hunksOf_applies:
  assumes "line_diff diff" and "b \<noteq> [] \<or> x \<noteq> []"
  shows "hunks_ok b s (hunksOf diff b x s) \<and> render_loop b 0 (hunksOf diff b x s) (length b) = x"
  using line_diff.hunksOf_ok [OF assms] line_diff.hunksOf_render [OF assms] by blast

lemma hunksOf_applies_example:
  "hunks_ok [''a'', ''b''] Ours (hunksOf lcs_diff [''a'', ''b''] [''b'', ''c''] Ours) \<and>
   render_loop [''a'', ''b''] 0 (hunksOf lcs_diff [''a'', ''b''] [''b'', ''c''] Ours)
     (length [''a'', ''b'']) = [''b'', ''c'']"
  by (rule hunksOf_applies [OF lcs.line_diff_axioms]) simp

end
