(* ===== verification/Merge_Plan_Correct.thy ===== *)
theory Merge_Plan_Correct
  imports Merge_Plan Merge3_Correct
begin

text \<open>
  What the project merge promises: the keypair survives, the plan is a three-way merge of files,
  answers are applied to the conflicts and to nothing else, and the base kept after a
  merge is the one the next merge needs.
\<close>

section \<open>Lemmas\<close>

lemma keepLocalKeypair_Some: "\<exists>c. snd (keepLocalKeypair parse stringify local (Some acc)) = Some c"
  by (auto simp: keepLocalKeypair_def split: option.splits prod.splits)

text \<open>
  The decision of one round of the plan's loop, apart from the state it is applied to: \<open>Inl\<close> of what the path holds
  afterwards (or that it is gone), \<open>Inr\<close> of the question asked about it.
\<close>

definition both_changed :: "diff_fn \<Rightarrow> merge_input \<Rightarrow> string \<Rightarrow> string + file_conflict" where
  "both_changed diff i p =
     (let l = map_of (mi_localHashes i) p; s = map_of (mi_serverHashes i) p;
          mine = map_of (mi_local i) p; theirs = map_of (mi_server i) p;
          whole = WholeConflict p mine theirs
            (if mine = None then None else l) (if theirs = None then None else s)
      in case (map_of (mi_baseContents i) p, mine, theirs) of
           (Some anc, Some x, Some y) \<Rightarrow>
             if map_of (mi_base i) p = None \<or> bc_hash anc \<noteq> map_of (mi_base i) p then Inr whole
             else (case merge3 diff (bc_content anc) x y of
                 Clean txt \<Rightarrow> Inl txt
               | Conflicted chunks \<Rightarrow>
                   if mixesLineBreaks [bc_content anc, x, y] then Inr whole
                   else Inr (LinesConflict p chunks l s))
         | _ \<Rightarrow> Inr whole)"

definition decide ::
  "json_parse \<Rightarrow> json_stringify \<Rightarrow> diff_fn \<Rightarrow> merge_input \<Rightarrow> string \<Rightarrow> string option + file_conflict"
  where
  "decide parse stringify diff i p =
     (let b = map_of (mi_base i) p; l = map_of (mi_localHashes i) p; s = map_of (mi_serverHashes i) p;
          mine = map_of (mi_local i) p; theirs = map_of (mi_server i) p
      in if l = s then Inl mine
         else if l = b then Inl theirs
         else if s = b then Inl mine
         else if \<not> isUserFile p then
           Inl (case theirs of
               None \<Rightarrow> mine
             | Some y \<Rightarrow> if p = PROGRAM_INFO_PATH then snd (keepLocalKeypair parse stringify mine theirs)
                 else theirs)
         else map_sum Some id (both_changed diff i p))"

definition settled_at ::
  "json_parse \<Rightarrow> json_stringify \<Rightarrow> diff_fn \<Rightarrow> merge_input \<Rightarrow> string \<Rightarrow> string option" where
  "settled_at parse stringify diff i p =
     (case decide parse stringify diff i p of Inl v \<Rightarrow> v | Inr c \<Rightarrow> None)"

definition asked_at ::
  "json_parse \<Rightarrow> json_stringify \<Rightarrow> diff_fn \<Rightarrow> merge_input \<Rightarrow> string \<Rightarrow> file_conflict list" where
  "asked_at parse stringify diff i p =
     (case decide parse stringify diff i p of Inl v \<Rightarrow> [] | Inr c \<Rightarrow> [c])"

definition apply_decision :: "string \<Rightarrow> string option + file_conflict \<Rightarrow> merge_plan \<Rightarrow> merge_plan" where
  "apply_decision p d st =
     (case d of
        Inl None \<Rightarrow> st
      | Inl (Some v) \<Rightarrow> st\<lparr>mp_files := obj_set p v (mp_files st)\<rparr>
      | Inr c \<Rightarrow> add_conflict c st)"

lemma plan_both_decides:
  "plan_both diff i p st = apply_decision p (map_sum Some id (both_changed diff i p)) st"
proof (cases "map_of (mi_baseContents i) p")
  case None
  then show ?thesis by (simp add: plan_both_def both_changed_def apply_decision_def Let_def)
next
  case (Some anc)
  then show ?thesis
    by (cases "map_of (mi_local i) p"; cases "map_of (mi_server i) p")
      (simp_all add: plan_both_def both_changed_def apply_decision_def Let_def split: merge3_result.splits)
qed

lemma obj_set_twice [simp]: "obj_set k v (obj_set k w m) = obj_set k v m"
  unfolding obj_set_def by (induction m) auto

lemma take_from_decides: "take_from from p st = apply_decision p (Inl (map_of from p)) st"
  by (simp add: take_from_def apply_decision_def split: option.splits)

lemma plan_generated:
  assumes "map_of (mi_server i) p = Some y" and "p = PROGRAM_INFO_PATH"
    and "keepLocalKeypair parse stringify (map_of (mi_local i) p) (Some y) = (lg, Some c)"
    and "map_of (mi_localHashes i) p \<noteq> map_of (mi_serverHashes i) p"
      "map_of (mi_localHashes i) p \<noteq> map_of (mi_base i) p"
      "map_of (mi_serverHashes i) p \<noteq> map_of (mi_base i) p" "\<not> isUserFile p"
  shows "plan_path parse stringify diff i p st =
    (apply_decision p (Inl (Some c)) st)\<lparr>mp_log := mp_log st @ lg\<rparr>"
  using assms by (simp add: plan_path_def take_from_def apply_decision_def obj_has_def)

text \<open>One iteration of the plan's loop is the decision for its path, applied.\<close>

lemma plan_path_decides:
  "\<exists>lg. plan_path parse stringify diff i p st =
     (apply_decision p (decide parse stringify diff i p) st)\<lparr>mp_log := mp_log st @ lg\<rparr>"
proof -
  let ?b = "map_of (mi_base i) p" and ?l = "map_of (mi_localHashes i) p"
    and ?s = "map_of (mi_serverHashes i) p"
  have id: "(apply_decision p d st)\<lparr>mp_log := mp_log st\<rparr> = apply_decision p d st" for d
    by (auto simp: apply_decision_def add_conflict_def split: sum.splits option.splits)
  consider (eq) "?l = ?s" | (l) "?l \<noteq> ?s" "?l = ?b" | (s) "?l \<noteq> ?s" "?s = ?b"
    | (gen) "?l \<noteq> ?s" "?l \<noteq> ?b" "?s \<noteq> ?b" "\<not> isUserFile p"
    | (user) "?l \<noteq> ?s" "?l \<noteq> ?b" "?s \<noteq> ?b" "isUserFile p" by blast
  then show ?thesis
  proof cases
    case gen
    note g = this
    show ?thesis
    proof (cases "map_of (mi_server i) p")
      case None
      with g show ?thesis
        by (intro exI [of _ "[]"]) (simp add: id plan_path_def decide_def take_from_decides obj_has_def)
    next
      case (Some y)
      obtain lg c where k: "keepLocalKeypair parse stringify (map_of (mi_local i) p) (Some y) = (lg, Some c)"
        using keepLocalKeypair_Some [of parse stringify "map_of (mi_local i) p" y] by (metis prod.collapse)
      show ?thesis
      proof (cases "p = PROGRAM_INFO_PATH")
        case True
        then show ?thesis
          using plan_generated [OF Some True k] g k Some
          by (intro exI [of _ lg]) (simp add: decide_def)
      next
        case False
        with g Some show ?thesis
          by (intro exI [of _ "[]"]) (simp add: id plan_path_def decide_def take_from_decides obj_has_def)
      qed
    qed
  qed (intro exI [of _ "[]"], simp add: id plan_path_def decide_def take_from_decides plan_both_decides)+
qed

lemma mp_files_plan_path:
  "mp_files (plan_path parse stringify diff i p st) =
     (case settled_at parse stringify diff i p of
        None \<Rightarrow> mp_files st | Some v \<Rightarrow> obj_set p v (mp_files st))"
  using plan_path_decides [of parse stringify diff i p st]
  by (auto simp: settled_at_def apply_decision_def add_conflict_def split: sum.splits option.splits)

lemma mp_conflicts_plan_path:
  "mp_conflicts (plan_path parse stringify diff i p st) =
     mp_conflicts st @ asked_at parse stringify diff i p"
  using plan_path_decides [of parse stringify diff i p st]
  by (auto simp: asked_at_def apply_decision_def add_conflict_def split: sum.splits option.splits)

lemma mp_files_planMerge:
  "mp_files (planMerge parse stringify diff i) =
     fold (\<lambda>p m. case settled_at parse stringify diff i p of None \<Rightarrow> m | Some v \<Rightarrow> obj_set p v m)
       (plan_paths i) []"
proof -
  have "mp_files (fold (plan_path parse stringify diff i) ps st) =
      fold (\<lambda>p m. case settled_at parse stringify diff i p of None \<Rightarrow> m | Some v \<Rightarrow> obj_set p v m)
        ps (mp_files st)" for ps st
    by (induction ps arbitrary: st) (simp_all add: mp_files_plan_path)
  then show ?thesis by (simp add: planMerge_def)
qed

lemma mp_conflicts_planMerge:
  "mp_conflicts (planMerge parse stringify diff i) =
     concat (map (asked_at parse stringify diff i) (plan_paths i))"
proof -
  have "mp_conflicts (fold (plan_path parse stringify diff i) ps st) =
      mp_conflicts st @ concat (map (asked_at parse stringify diff i) ps)" for ps st
    by (induction ps arbitrary: st) (simp_all add: mp_conflicts_plan_path)
  then show ?thesis by (simp add: planMerge_def)
qed

lemma set_plan_paths:
  "p \<in> set (plan_paths i) \<longleftrightarrow>
     obj_has (mi_base i) p \<or> obj_has (mi_localHashes i) p \<or> obj_has (mi_serverHashes i) p"
  by (auto simp: plan_paths_def obj_has_keys)

lemma map_of_mp_files:
  "map_of (mp_files (planMerge parse stringify diff i)) p =
     (if p \<in> set (plan_paths i) then settled_at parse stringify diff i p else None)"
  unfolding mp_files_planMerge by (simp add: obj.lookup_loop)

lemma both_changed_path: "both_changed diff i p = Inr c \<Longrightarrow> fc_path c = p"
  by (auto simp: both_changed_def Let_def split: option.splits if_splits merge3_result.splits)

lemma asked_at_path: "c \<in> set (asked_at parse stringify diff i p) \<Longrightarrow> fc_path c = p"
  by (cases "both_changed diff i p")
    (auto simp: asked_at_def decide_def Let_def both_changed_path split: if_splits)

text \<open>A path is asked about only when it is a user file both sides changed, each its own way.\<close>

abbreviation changed_apart :: "merge_input \<Rightarrow> string \<Rightarrow> bool" where
  "changed_apart i p \<equiv> isUserFile p \<and>
     map_of (mi_localHashes i) p \<noteq> map_of (mi_serverHashes i) p \<and>
     map_of (mi_localHashes i) p \<noteq> map_of (mi_base i) p \<and>
     map_of (mi_serverHashes i) p \<noteq> map_of (mi_base i) p"

lemma asked_at_changed:
  "asked_at parse stringify diff i p \<noteq> [] \<Longrightarrow>
     changed_apart i p \<and> settled_at parse stringify diff i p = None \<and>
     length (asked_at parse stringify diff i p) = 1"
  by (auto simp: asked_at_def settled_at_def decide_def Let_def split: sum.splits if_splits)

lemma settle_answers_all:
  "\<forall>c\<in>set cs. obj_has answers (fc_path c) \<Longrightarrow>
   \<exists>fs. settle_answers answers cs files = Inr fs \<and>
     (\<forall>p. map_of fs p =
       (if p \<in> fc_path ` set cs \<and> rf_content (the (map_of answers p)) \<noteq> None
        then rf_content (the (map_of answers p)) else map_of files p))"
proof (induction cs arbitrary: files)
  case (Cons c cs)
  from Cons.prems obtain answer where answer: "map_of answers (fc_path c) = Some answer"
    by (auto simp: obj_has_def)
  let ?files = "case rf_content answer of None \<Rightarrow> files | Some txt \<Rightarrow> obj_set (fc_path c) txt files"
  from Cons.IH [of ?files] Cons.prems obtain fs where
    fs: "settle_answers answers cs ?files = Inr fs" "\<And>p. map_of fs p =
       (if p \<in> fc_path ` set cs \<and> rf_content (the (map_of answers p)) \<noteq> None
        then rf_content (the (map_of answers p)) else map_of ?files p)" by auto
  show ?case
    using fs answer by (intro exI [of _ fs]) (auto split: option.splits)
qed simp

lemma settle_answers_error:
  "(\<exists>e. settle_answers answers cs files = Inl e) \<longleftrightarrow> (\<exists>c\<in>set cs. \<not> obj_has answers (fc_path c))"
  by (induction cs arbitrary: files) (auto simp: obj_has_def split: option.splits)

lemma conflict_paths:
  "p \<in> fc_path ` set (mp_conflicts (planMerge parse stringify diff i)) \<longleftrightarrow>
     p \<in> set (plan_paths i) \<and> asked_at parse stringify diff i p \<noteq> []"
proof -
  have "p \<in> fc_path ` set (mp_conflicts (planMerge parse stringify diff i)) \<longleftrightarrow>
      (\<exists>q\<in>set (plan_paths i). \<exists>c\<in>set (asked_at parse stringify diff i q). fc_path c = p)"
    by (auto simp: mp_conflicts_planMerge)
  also have "\<dots> \<longleftrightarrow> p \<in> set (plan_paths i) \<and> asked_at parse stringify diff i p \<noteq> []"
    by (metis asked_at_path last_in_set list.set_cases neq_Nil_conv list.set_intros(1))
  finally show ?thesis .
qed

lemma conflict_not_in_files:
  "p \<in> fc_path ` set (mp_conflicts (planMerge parse stringify diff i)) \<Longrightarrow>
   map_of (mp_files (planMerge parse stringify diff i)) p = None"
  by (simp add: conflict_paths map_of_mp_files asked_at_changed)

lemma settle_plan_answers:
  assumes "\<forall>c\<in>set (mp_conflicts (planMerge parse stringify diff i)). obj_has answers (fc_path c)"
  shows "\<exists>fs. settleConflicts (planMerge parse stringify diff i) (Resolved answers) local server = Inr fs \<and>
    (\<forall>p. map_of fs p =
      (if p \<in> fc_path ` set (mp_conflicts (planMerge parse stringify diff i))
       then rf_content (the (map_of answers p))
       else map_of (mp_files (planMerge parse stringify diff i)) p))"
  using settle_answers_all [OF assms, of "mp_files (planMerge parse stringify diff i)"]
    conflict_not_in_files [of _ parse stringify diff i]
  by (fastforce simp: settleConflicts_def)

lemma map_fc_path_conflicts:
  "map fc_path (mp_conflicts (planMerge parse stringify diff i)) =
     filter (\<lambda>p. asked_at parse stringify diff i p \<noteq> []) (plan_paths i)"
proof -
  have "map fc_path (asked_at parse stringify diff i p) =
      (if asked_at parse stringify diff i p \<noteq> [] then [p] else [])" for p
    using asked_at_changed [of parse stringify diff i p] asked_at_path [of _ parse stringify diff i p]
    by (cases "asked_at parse stringify diff i p") auto
  then have "concat (map (\<lambda>p. map fc_path (asked_at parse stringify diff i p)) ps) =
      filter (\<lambda>p. asked_at parse stringify diff i p \<noteq> []) ps" for ps
    by (induction ps) auto
  then show ?thesis
    by (simp add: mp_conflicts_planMerge map_concat comp_def)
qed

lemma map_of_baseAfterMerge:
  "map_of (baseAfterMerge merged server sh) p =
     (if isUserFile p \<and> obj_has server p \<and> map_of merged p \<noteq> map_of server p
      then Some \<lparr>bc_hash = map_of sh p, bc_content = the (map_of server p)\<rparr> else None)"
  by (auto simp: baseAfterMerge_def map_of_map_key obj_has_keys)

text \<open>One file both sides changed and no base kept for it: the input of the witnesses below.\<close>

definition example_input :: merge_input where
  "example_input =
     \<lparr>mi_base = [(''f'', ''h0'')], mi_baseContents = [],
      mi_local = [(''f'', ''x'')], mi_localHashes = [(''f'', ''h1'')],
      mi_server = [(''f'', ''y'')], mi_serverHashes = [(''f'', ''h2'')]\<rparr>"

section \<open>Properties\<close>

text \<open>
  The input of a merge whose hashes are those of three sets of files: the ones last agreed, this device's and the account's. A
  kept base content has the hash it is kept under.
\<close>

definition three_files ::
  "(string \<Rightarrow> string) \<Rightarrow> base_content js_obj \<Rightarrow> files \<Rightarrow> files \<Rightarrow> files \<Rightarrow> merge_input" where
  "three_files sha held base local server =
     \<lparr>mi_base = hashFiles sha \<lparr>snap_files = base\<rparr>, mi_baseContents = held,
      mi_local = local, mi_localHashes = hashFiles sha \<lparr>snap_files = local\<rparr>,
      mi_server = server, mi_serverHashes = hashFiles sha \<lparr>snap_files = server\<rparr>\<rparr>"

definition kept_true :: "(string \<Rightarrow> string) \<Rightarrow> base_content js_obj \<Rightarrow> bool" where
  "kept_true sha held \<longleftrightarrow> (\<forall>p anc. map_of held p = Some anc \<longrightarrow> bc_hash anc = Some (sha (bc_content anc)))"

text \<open>The merge of three texts by lines, where the agreed text was kept and no two changes meet.\<close>

definition line_merge :: "diff_fn \<Rightarrow> base_content js_obj \<Rightarrow> string option \<Rightarrow> string option \<Rightarrow> string option \<Rightarrow> string \<Rightarrow> string option" where
  "line_merge diff held base mine theirs p =
     (case (base, mine, theirs) of
        (Some b, Some x, Some y) \<Rightarrow>
          if map_option bc_content (map_of held p) = Some b
          then (case merge3 diff b x y of Clean t \<Rightarrow> Some t | Conflicted chunks \<Rightarrow> None) else None
      | _ \<Rightarrow> None)"

lemma three_paths:
  "p \<notin> set (plan_paths (three_files sha held base local server)) \<longleftrightarrow>
     map_of base p = None \<and> map_of local p = None \<and> map_of server p = None"
  by (auto simp: set_plan_paths three_files_def obj_has_def map_of_hashFiles)

lemma three_both_changed:
  assumes "inj sha" and "kept_true sha held"
  shows "case line_merge diff held (map_of base p) (map_of local p) (map_of server p) p of
      Some t \<Rightarrow> both_changed diff (three_files sha held base local server) p = Inl t
    | None \<Rightarrow> \<exists>c. both_changed diff (three_files sha held base local server) p = Inr c"
proof -
  let ?i = "three_files sha held base local server"
  have "bc_hash anc = map_option sha (map_of base p) \<longleftrightarrow> map_of base p = Some (bc_content anc)" if "map_of held p = Some anc" for anc
    using assms that by (cases "map_of base p") (auto simp: kept_true_def dest: injD)
  then show ?thesis
    by (cases "map_of held p"; cases "map_of base p"; cases "map_of local p"; cases "map_of server p")
      (auto simp: line_merge_def both_changed_def three_files_def map_of_hashFiles Let_def split: merge3_result.splits)
qed

text \<open>
  C10: the plan is a three-way merge of files. Against the files last agreed: a path this device has left as it was is as the account
  has it, a path the account has left as it was is as this device has it, deletions and additions included, and a path both have alike stays;
  none of these is asked about. A user file both changed, each its own way, holds the merge of the three texts by lines if
  the agreed text was kept and the changes do not meet, and otherwise it is in no copy and asked about. A generated
  file both changed is never asked about: it is the account's, with this device's keypair carried in, or this device's if
  the account has none. Hashes tell texts apart, and a kept text has the hash it is kept under.
\<close>

theorem planMerge_three_way:
  fixes parse stringify diff base local server
  assumes "inj sha" and "kept_true sha held"
  defines "plan \<equiv> planMerge parse stringify diff (three_files sha held base local server)"
  defines "result \<equiv> map_of (mp_files plan)" and "asked \<equiv> fc_path ` set (mp_conflicts plan)"
  shows "(map_of local p = map_of base p \<longrightarrow> result p = map_of server p \<and> p \<notin> asked) \<and>
    (map_of server p = map_of base p \<longrightarrow> result p = map_of local p \<and> p \<notin> asked) \<and>
    (map_of local p = map_of server p \<longrightarrow> result p = map_of local p \<and> p \<notin> asked) \<and>
    (map_of local p \<noteq> map_of base p \<and> map_of server p \<noteq> map_of base p \<and> map_of local p \<noteq> map_of server p \<longrightarrow>
       (if isUserFile p
        then (let merged = line_merge diff held (map_of base p) (map_of local p) (map_of server p) p
              in result p = merged \<and> (p \<in> asked \<longleftrightarrow> merged = None))
        else p \<notin> asked \<and>
          result p = (if map_of server p = None then map_of local p
            else if p = PROGRAM_INFO_PATH then snd (keepLocalKeypair parse stringify (map_of local p) (map_of server p))
            else map_of server p)))"
proof -
  let ?i = "three_files sha held base local server"
  let ?b = "map_of base p" and ?l = "map_of local p" and ?s = "map_of server p"
  have fields: "map_of (mi_base ?i) p = map_option sha ?b" "map_of (mi_localHashes ?i) p = map_option sha ?l"
    "map_of (mi_serverHashes ?i) p = map_option sha ?s" "map_of (mi_local ?i) p = ?l" "map_of (mi_server ?i) p = ?s"
    by (simp_all add: three_files_def map_of_hashFiles)
  have eq: "map_option sha u = map_option sha v \<longleftrightarrow> u = v" for u v
    using injD [OF option.inj_map [OF assms(1)]] by blast
  have dec: "decide parse stringify diff ?i p =
      (if ?l = ?s then Inl ?l else if ?l = ?b then Inl ?s else if ?s = ?b then Inl ?l
       else if \<not> isUserFile p then Inl (case ?s of None \<Rightarrow> ?l
         | Some y \<Rightarrow> if p = PROGRAM_INFO_PATH then snd (keepLocalKeypair parse stringify ?l ?s) else ?s)
       else map_sum Some id (both_changed diff ?i p))"
    unfolding decide_def fields eq Let_def by simp
  have out: "result p = (if p \<in> set (plan_paths ?i) then settled_at parse stringify diff ?i p else None)"
    "p \<in> asked \<longleftrightarrow> p \<in> set (plan_paths ?i) \<and> asked_at parse stringify diff ?i p \<noteq> []"
    unfolding result_def asked_def plan_def by (rule map_of_mp_files, rule conflict_paths)
  show ?thesis
  proof (cases "p \<in> set (plan_paths ?i)")
    case False
    then show ?thesis using out three_paths [of p sha held base local server] by auto
  next
    case True
    then have r: "result p = (case decide parse stringify diff ?i p of Inl v \<Rightarrow> v | Inr c \<Rightarrow> None)"
      "p \<in> asked \<longleftrightarrow> (\<exists>c. decide parse stringify diff ?i p = Inr c)"
      using out by (auto simp: settled_at_def asked_at_def split: sum.splits)
    show ?thesis
    proof (cases "?l = ?b \<or> ?s = ?b \<or> ?l = ?s")
      case True
      then show ?thesis unfolding r dec by auto
    next
      case apart: False
      show ?thesis
      proof (cases "isUserFile p")
        case True
        then have d: "decide parse stringify diff ?i p = map_sum Some id (both_changed diff ?i p)" using apart dec by simp
        show ?thesis
        proof (cases "line_merge diff held ?b ?l ?s p")
          case None
          then obtain c where "both_changed diff ?i p = Inr c"
            using three_both_changed [OF assms(1,2), where diff = diff and base = base and p = p and local = local and server = server]
            by auto
          then show ?thesis using None apart True unfolding r d by (simp add: Let_def)
        next
          case (Some t)
          then have "both_changed diff ?i p = Inl t"
            using three_both_changed [OF assms(1,2), where diff = diff and base = base and p = p and local = local and server = server]
            by simp
          then show ?thesis using Some apart True unfolding r d by (simp add: Let_def)
        qed
      next
        case False
        then show ?thesis using apart unfolding r dec by (cases ?s) auto
      qed
    qed
  qed
qed

text \<open>One file changed here, one deleted on the account, one changed on both with no kept text.\<close>

definition example_plan :: merge_plan where
  "example_plan = planMerge (\<lambda>_. None) (\<lambda>_. []) lcs_diff
     (three_files (\<lambda>t. CHR ''h'' # t) [] [(''a'', ''1''), (''b'', ''1''), (''c'', ''1'')]
       [(''a'', ''2''), (''b'', ''1''), (''c'', ''2'')] [(''a'', ''1''), (''c'', ''3'')])"

theorem planMerge_three_way_witness:
  "map_of (mp_files example_plan) ''a'' = Some ''2'' \<and> map_of (mp_files example_plan) ''b'' = None \<and>
   ''b'' \<notin> fc_path ` set (mp_conflicts example_plan) \<and> ''c'' \<in> fc_path ` set (mp_conflicts example_plan)"
proof -
  have h: "inj (\<lambda>t. CHR ''h'' # t)" "kept_true (\<lambda>t. CHR ''h'' # t) []" by (simp_all add: inj_def kept_true_def)
  note three = planMerge_three_way [OF h, where parse = "\<lambda>_. None" and stringify = "\<lambda>_. []" and diff = lcs_diff
      and base = "[(''a'', ''1''), (''b'', ''1''), (''c'', ''1'')]" and local = "[(''a'', ''2''), (''b'', ''1''), (''c'', ''2'')]"
      and server = "[(''a'', ''1''), (''c'', ''3'')]", folded example_plan_def]
  have "isUserFile ''c''" by code_simp
  then show ?thesis
    using three [where p = "''a''"] three [where p = "''b''"] three [where p = "''c''"] by (simp add: line_merge_def)
qed

text \<open>
  C11: the questions of a plan are sorted by path, one per path, each about a user file that both
  sides changed, each its own way; and no path is both settled and asked about.
\<close>

theorem planMerge_asks_only_both_changed:
  "sorted (map fc_path (mp_conflicts (planMerge parse stringify diff i))) \<and>
   distinct (map fc_path (mp_conflicts (planMerge parse stringify diff i))) \<and>
   (\<forall>c\<in>set (mp_conflicts (planMerge parse stringify diff i)).
      changed_apart i (fc_path c) \<and>
      map_of (mp_files (planMerge parse stringify diff i)) (fc_path c) = None)"
proof (intro conjI ballI)
  show "sorted (map fc_path (mp_conflicts (planMerge parse stringify diff i)))"
    "distinct (map fc_path (mp_conflicts (planMerge parse stringify diff i)))"
    unfolding map_fc_path_conflicts by (simp_all add: plan_paths_def sorted_wrt_filter)
next
  fix c assume "c \<in> set (mp_conflicts (planMerge parse stringify diff i))"
  then have c: "fc_path c \<in> fc_path ` set (mp_conflicts (planMerge parse stringify diff i))" by simp
  then show "map_of (mp_files (planMerge parse stringify diff i)) (fc_path c) = None"
    by (rule conflict_not_in_files)
  show "isUserFile (fc_path c)"
    "map_of (mi_localHashes i) (fc_path c) \<noteq> map_of (mi_serverHashes i) (fc_path c)"
    "map_of (mi_localHashes i) (fc_path c) \<noteq> map_of (mi_base i) (fc_path c)"
    "map_of (mi_serverHashes i) (fc_path c) \<noteq> map_of (mi_base i) (fc_path c)"
    using c [unfolded conflict_paths] asked_at_changed by blast+
qed

theorem planMerge_asks_only_both_changed_witness:
  "let plan = planMerge (\<lambda>_. None) (\<lambda>_. []) lcs_diff example_input in
   mp_conflicts plan = [WholeConflict ''f'' (Some ''x'') (Some ''y'') (Some ''h1'') (Some ''h2'')] \<and>
   sorted (map fc_path (mp_conflicts plan)) \<and> distinct (map fc_path (mp_conflicts plan)) \<and>
   changed_apart example_input ''f''"
proof -
  let ?plan = "planMerge (\<lambda>_. None) (\<lambda>_. []) lcs_diff example_input"
  have "mp_conflicts ?plan = [WholeConflict ''f'' (Some ''x'') (Some ''y'') (Some ''h1'') (Some ''h2'')]"
    by code_simp
  then show ?thesis
    using planMerge_asks_only_both_changed [of "\<lambda>_. None" "\<lambda>_. []" lcs_diff example_input]
    by (simp add: Let_def)
qed

text \<open>
  A resolution settles a plan exactly when it answers every conflicted file, and refuses it
  otherwise, since a file left out would read as a delete. The result holds the answer for each
  conflicted path, nothing where the answer deletes it, and leaves what merged on its own as it is.
\<close>

lemma settleConflicts_applies_answers:
  assumes "\<forall>c\<in>set (mp_conflicts (planMerge parse stringify diff i)). obj_has answers (fc_path c)"
  shows "\<exists>fs. settleConflicts (planMerge parse stringify diff i) (Resolved answers) local server = Inr fs \<and>
    (\<forall>p. map_of fs p =
      (if p \<in> fc_path ` set (mp_conflicts (planMerge parse stringify diff i))
       then rf_content (the (map_of answers p))
       else map_of (mp_files (planMerge parse stringify diff i)) p))"
  by (rule settle_plan_answers [OF assms])

lemma settleConflicts_applies_answers_example:
  "\<exists>fs. settleConflicts (planMerge (\<lambda>_. None) (\<lambda>_. []) lcs_diff example_input)
      (Resolved [(''f'', \<lparr>rf_content = Some ''z'', rf_localHash = Some ''h1'', rf_serverHash = Some ''h2''\<rparr>)])
      [] [] = Inr fs \<and> map_of fs ''f'' = Some ''z''"
proof -
  let ?plan = "planMerge (\<lambda>_. None) (\<lambda>_. []) lcs_diff example_input"
  let ?ans = "[(''f'', \<lparr>rf_content = Some ''z'', rf_localHash = Some ''h1'', rf_serverHash = Some ''h2''\<rparr>)]"
  have c: "mp_conflicts ?plan = [WholeConflict ''f'' (Some ''x'') (Some ''y'') (Some ''h1'') (Some ''h2'')]"
    by code_simp
  have "\<forall>c\<in>set (mp_conflicts ?plan). obj_has ?ans (fc_path c)" by (simp add: c obj_has_def)
  from settleConflicts_applies_answers [OF this, of "[]" "[]"] show ?thesis
    by (auto simp: c)
qed

text \<open>A resolution that leaves a conflicted file unanswered is refused, and only such a one.\<close>

lemma settleConflicts_refuses_unanswered:
  "(\<exists>e. settleConflicts plan (Resolved answers) local server = Inl e) =
   (\<exists>c\<in>set (mp_conflicts plan). \<not> obj_has answers (fc_path c))"
  by (simp add: settleConflicts_def settle_answers_error)

text \<open>
  The program's keypair. Where this device holds a well-formed secret key and the account's
  copy has none, the file becomes the account's with the key carried in, every other field
  untouched; where the account has a keypair in any form, its copy stays as it is.
\<close>

lemma keepLocalKeypair_carries:
  assumes "parse l = Some (JObj mine)" and "map_of mine ''kp'' = Some kp" and "isSecretKey kp"
    and "parse acc = Some (JObj theirs)"
    and "parse (stringify (JObj (obj_set ''kp'' kp theirs))) = Some (JObj (obj_set ''kp'' kp theirs))"
  shows "if map_of theirs ''kp'' = None \<or> map_of theirs ''kp'' = Some JNull
    then \<exists>txt flds. snd (keepLocalKeypair parse stringify (Some l) (Some acc)) = Some txt \<and>
      parse txt = Some (JObj flds) \<and> map_of flds = (map_of theirs)(''kp'' \<mapsto> kp)
    else snd (keepLocalKeypair parse stringify (Some l) (Some acc)) = Some acc"
  using assms by (auto simp: keepLocalKeypair_def parseProgramInfo_def)

lemma keepLocalKeypair_carries_example:
  "let kp = JArr (replicate 64 (JNum 7));
       parse = (\<lambda>t. if t = ''L'' then Some (JObj [(''kp'', kp)])
                    else if t = ''A'' then Some (JObj [(''kp'', JNull)])
                    else if t = ''B'' then Some (JObj [(''kp'', kp)]) else None);
       kept = keepLocalKeypair parse (\<lambda>_. ''B'') (Some ''L'') (Some ''A'')
   in \<exists>txt flds. snd kept = Some txt \<and> parse txt = Some (JObj flds) \<and> map_of flds ''kp'' = Some kp"
proof -
  define kp where "kp = JArr (replicate 64 (JNum 7))"
  define parse where "parse = (\<lambda>t. if t = ''L'' then Some (JObj [(''kp'', kp)])
    else if t = ''A'' then Some (JObj [(''kp'', JNull)])
    else if t = ''B'' then Some (JObj [(''kp'', kp)]) else None)"
  have key: "isSecretKey kp"
    unfolding kp_def isSecretKey.simps list_all_iff length_replicate by (simp add: is_integer_def)
  have tx: "parse ''L'' = Some (JObj [(''kp'', kp)])" "parse ''A'' = Some (JObj [(''kp'', JNull)])"
    "parse ''B'' = Some (JObj (obj_set ''kp'' kp [(''kp'', JNull)]))"
    by (simp_all add: parse_def obj_set_def)
  have fld: "map_of [(''kp'', kp)] ''kp'' = Some kp" by simp
  obtain t1 flds where "snd (keepLocalKeypair parse (\<lambda>_. ''B'') (Some ''L'') (Some ''A'')) = Some t1"
    "parse t1 = Some (JObj flds)" "map_of flds = (map_of [(''kp'', JNull)])(''kp'' \<mapsto> kp)"
    using keepLocalKeypair_carries [OF tx(1) fld key tx(2), of "\<lambda>_. ''B''"] tx(3) by auto
  then have "\<exists>txt flds. snd (keepLocalKeypair parse (\<lambda>_. ''B'') (Some ''L'') (Some ''A'')) = Some txt \<and>
      parse txt = Some (JObj flds) \<and> map_of flds ''kp'' = Some kp"
    by (intro exI [of _ t1] exI [of _ flds]) simp
  then show ?thesis
    unfolding Let_def kp_def [symmetric] parse_def .
qed

text \<open>
  C15: merging is stable. Once a merge has adopted the server's copy as the agreement, merging
  again before the server moves asks nothing and keeps exactly what this device holds, whatever
  base contents are kept.
\<close>

theorem merge_again_keeps_local:
  assumes "mi_base i = hashFiles sha \<lparr>snap_files = mi_server i\<rparr>"
    and "mi_serverHashes i = hashFiles sha \<lparr>snap_files = mi_server i\<rparr>"
    and "mi_localHashes i = hashFiles sha \<lparr>snap_files = mi_local i\<rparr>"
  shows "mp_conflicts (planMerge parse stringify diff i) = [] \<and>
    map_of (mp_files (planMerge parse stringify diff i)) = map_of (mi_local i)"
proof -
  have dec: "decide parse stringify diff i p = Inl (map_of (mi_local i) p)" for p
    using assms by (simp add: decide_def Let_def)
  moreover have "map_of (mi_local i) p = None" if "p \<notin> set (plan_paths i)" for p
    using that assms(3) by (simp add: set_plan_paths obj_has_def map_of_hashFiles)
  ultimately show ?thesis
    by (auto simp: mp_conflicts_planMerge asked_at_def map_of_mp_files settled_at_def fun_eq_iff)
qed

theorem merge_again_keeps_local_witness:
  "let i = \<lparr>mi_base = [(''f'', ''hs'')], mi_baseContents = [], mi_local = [(''f'', ''l'')],
            mi_localHashes = [(''f'', ''hl'')], mi_server = [(''f'', ''s'')],
            mi_serverHashes = [(''f'', ''hs'')]\<rparr>
   in mp_conflicts (planMerge (\<lambda>_. None) (\<lambda>_. []) lcs_diff i) = [] \<and>
      map_of (mp_files (planMerge (\<lambda>_. None) (\<lambda>_. []) lcs_diff i)) = map_of [(''f'', ''l'')]"
  using merge_again_keeps_local [of "\<lparr>mi_base = [(''f'', ''hs'')], mi_baseContents = [],
      mi_local = [(''f'', ''l'')], mi_localHashes = [(''f'', ''hl'')], mi_server = [(''f'', ''s'')],
      mi_serverHashes = [(''f'', ''hs'')]\<rparr>" "\<lambda>s. CHR ''h'' # s" "\<lambda>_. None" "\<lambda>_. []" lcs_diff]
  by (simp add: hashFiles_def Let_def)

text \<open>
  The base kept after a merge is the one the next merge needs. When the server moves on from
  the copy just adopted, a user file this device still differs on, and both sides hold, is merged
  line by line against the adopted copy: it is never a question about the whole file for want of a
  base.
\<close>

lemma baseAfterMerge_serves_next_merge:
  assumes "mi_baseContents i = baseAfterMerge (mi_local i) adopted (mi_base i)"
    and "mi_base i = hashFiles sha \<lparr>snap_files = adopted\<rparr>"
    and "changed_apart i p" and "mi_localHashes i = hashFiles sha \<lparr>snap_files = mi_local i\<rparr>"
    and "map_of adopted p = Some b" and "map_of (mi_local i) p = Some x" and "map_of (mi_server i) p = Some y"
  shows "decide parse stringify diff i p =
    (case merge3 diff b x y of
       Clean txt \<Rightarrow> Inl (Some txt)
     | Conflicted chunks \<Rightarrow> Inr
         (if mixesLineBreaks [b, x, y]
          then WholeConflict p (Some x) (Some y) (map_of (mi_localHashes i) p) (map_of (mi_serverHashes i) p)
          else LinesConflict p chunks (map_of (mi_localHashes i) p) (map_of (mi_serverHashes i) p)))"
proof -
  have "map_of (mi_local i) p \<noteq> map_of adopted p"
    using assms(2-4) by (auto simp: map_of_hashFiles)
  then have "map_of (mi_baseContents i) p = Some \<lparr>bc_hash = map_of (mi_base i) p, bc_content = b\<rparr>"
    using assms(1,3,5) by (simp add: map_of_baseAfterMerge obj_has_def)
  moreover have "map_of (mi_base i) p = Some (sha b)"
    using assms(2,5) by (simp add: map_of_hashFiles)
  ultimately show ?thesis
    using assms(3,6,7)
    by (simp add: decide_def both_changed_def Let_def split: merge3_result.splits)
qed

lemma baseAfterMerge_serves_next_merge_example:
  "decide (\<lambda>_. None) (\<lambda>_. []) lcs_diff
     \<lparr>mi_base = [(''f'', ''hb'')], mi_baseContents = baseAfterMerge [(''f'', ''x'')] [(''f'', ''b'')] [(''f'', ''hb'')],
      mi_local = [(''f'', ''x'')], mi_localHashes = [(''f'', ''hx'')],
      mi_server = [(''f'', ''y'')], mi_serverHashes = [(''f'', ''hy'')]\<rparr> ''f'' =
   Inr (LinesConflict ''f'' [Conflict [''b''] [''x''] [''y'']] (Some ''hx'') (Some ''hy''))"
proof -
  have m: "merge3 lcs_diff ''b'' ''x'' ''y'' = Conflicted [Conflict [''b''] [''x''] [''y'']]"
    and n: "\<not> mixesLineBreaks [''b'', ''x'', ''y'']" by code_simp+
  show ?thesis
    by (subst baseAfterMerge_serves_next_merge [where adopted = "[(''f'', ''b'')]" and b = "''b''"
          and x = "''x''" and y = "''y''" and sha = "\<lambda>s. CHR ''h'' # s"])
      (simp_all add: m n hashFiles_def isUserFile_def SYNCED_WORKSPACE_FILES_def)
qed

end
