(* ===== verification/Merge_File.thy ===== *)
theory Merge_File
  imports Merge_Plan
begin

text \<open>
  One conflicted file in the resolve view: the class \<^verbatim>\<open>MergeFile\<close> of
  \<^verbatim>\<open>features/persistence/ui/merge-editor/merge-file.ts\<close>, its panes, its segments, and every
  operation on it. The object is the record \<open>merge_file\<close>; the methods that change it return
  the changed record. A hunk object is identified by its index in \<^verbatim>\<open>segments\<close>. Line counts are
  integers, since \<^verbatim>\<open>userEdit\<close> adds differences to them; that they never go below zero is a
  theorem. \<^verbatim>\<open>diffArrays\<close> is the parameter \<open>diff\<close>, as in \<^verbatim>\<open>merge3\<close>.
\<close>

section \<open>Data\<close>

datatype merge_pane = PaneLeft | PaneResult | PaneRight

datatype hunk_side = LeftSide | RightSide

datatype side_state = Pending | Taken | Dismissed

datatype hunk_look = LookConflict | LookResolved | LookDismissed

text \<open>Lines per pane.\<close>

record counts =
  cn_left :: int
  cn_result :: int
  cn_right :: int

fun pane_count :: "merge_pane \<Rightarrow> counts \<Rightarrow> int" where
  "pane_count PaneLeft c = cn_left c"
| "pane_count PaneResult c = cn_result c"
| "pane_count PaneRight c = cn_right c"

record hunk_seg =
  hs_lines :: counts
  hs_base :: "string list"
  hs_ours :: "string list"
  hs_theirs :: "string list"
  hs_left :: side_state
  hs_right :: side_state
  hs_edited :: bool

datatype segment =
    SettledSeg counts "settled_change list"
  | HunkSeg hunk_seg

fun seg_lines :: "segment \<Rightarrow> counts" where
  "seg_lines (SettledSeg c chs) = c"
| "seg_lines (HunkSeg h) = hs_lines h"

text \<open>\<^verbatim>\<open>segment.lines.result += n\<close>.\<close>

definition grow :: "int \<Rightarrow> counts \<Rightarrow> counts" where
  "grow n c = c\<lparr>cn_result := cn_result c + n\<rparr>"

fun seg_grow :: "int \<Rightarrow> segment \<Rightarrow> segment" where
  "seg_grow n (SettledSeg c chs) = SettledSeg (grow n c) chs"
| "seg_grow n (HunkSeg h) = HunkSeg (h\<lparr>hs_lines := grow n (hs_lines h)\<rparr>)"

record text_edit =
  te_start :: nat
  te_end :: nat
  te_text :: string

text \<open>A \<^verbatim>\<open>Decision\<close>; the whole answer of an operation is optional on top of it.\<close>

record decision =
  de_edit :: "text_edit option"

record fold_range =
  fo_key :: string
  fo_start :: counts
  fo_count :: int

record merge_snapshot =
  ms_lines :: "string list"
  ms_segments :: "segment list"

record line_change =
  lc_segment :: nat
  lc_offset :: nat
  lc_count :: nat
  lc_panes :: "merge_pane list"

definition FOLD_CONTEXT :: int where
  "FOLD_CONTEXT = 3"

definition FOLD_MIN :: int where
  "FOLD_MIN = 4"

fun SIDE_PANES :: "change_by \<Rightarrow> merge_pane list" where
  "SIDE_PANES ByOurs = [PaneLeft]"
| "SIDE_PANES ByTheirs = [PaneRight]"
| "SIDE_PANES ByBoth = [PaneLeft, PaneRight]"

fun LOOK :: "side_state \<Rightarrow> hunk_look" where
  "LOOK Pending = LookConflict"
| "LOOK Taken = LookResolved"
| "LOOK Dismissed = LookDismissed"

section \<open>Helpers\<close>

definition linesOf :: "string option \<Rightarrow> string list" where
  "linesOf txt' = (case txt' of None \<Rightarrow> [] | Some s \<Rightarrow> js_split s)"

text \<open>
  The two counting loops of \<^verbatim>\<open>editBetween\<close>: how long the texts agree from the start, and how
  long from the end (the texts are handed over reversed), at most \<open>cap\<close>.
\<close>

fun agree_len :: "nat \<Rightarrow> string \<Rightarrow> string \<Rightarrow> nat" where
  "agree_len (Suc cap) (a # as) (b # bs) = (if a = b then Suc (agree_len cap as bs) else 0)"
| "agree_len _ _ _ = 0"

definition editBetween :: "string \<Rightarrow> string \<Rightarrow> text_edit option" where
  "editBetween from to =
     (if from = to then None
      else
        let shorter = min (length from) (length to);
            start = agree_len shorter from to;
            tail = agree_len (shorter - start) (rev from) (rev to)
        in Some \<lparr>te_start = start, te_end = length from - tail,
                 te_text = js_slice to start (length to - tail)\<rparr>)"

definition contentOf :: "hunk_seg \<Rightarrow> string list" where
  "contentOf h =
     (if hs_left h \<noteq> Taken \<and> hs_right h \<noteq> Taken then hs_base h
      else (if hs_left h = Taken then hs_ours h else []) @
           (if hs_right h = Taken then hs_theirs h else []))"

section \<open>The file\<close>

record merge_file =
  mf_conflict :: file_conflict
  mf_path :: string
  mf_left :: string
  mf_right :: string
  mf_deletedLeft :: bool
  mf_deletedRight :: bool
  mf_segments :: "segment list"
  mf_lines :: "string list"
  mf_initial :: string

definition even_counts :: "nat \<Rightarrow> counts" where
  "even_counts n = \<lparr>cn_left = int n, cn_result = int n, cn_right = int n\<rparr>"

definition pending_hunk :: "string list \<Rightarrow> string list \<Rightarrow> string list \<Rightarrow> hunk_seg" where
  "pending_hunk b o' t =
     \<lparr>hs_lines = \<lparr>cn_left = int (length o'), cn_result = int (length b), cn_right = int (length t)\<rparr>,
      hs_base = b, hs_ours = o', hs_theirs = t,
      hs_left = Pending, hs_right = Pending, hs_edited = False\<rparr>"

fun chunk_segment :: "chunk \<Rightarrow> segment" where
  "chunk_segment (Settled ls chs) =
     SettledSeg (even_counts (length ls)) (case chs of None \<Rightarrow> [] | Some cs \<Rightarrow> cs)"
| "chunk_segment (Conflict b o' t) = HunkSeg (pending_hunk b o' t)"

text \<open>A pane: the settled lines, and one side's lines of each conflict.\<close>

definition join_chunks ::
  "(string list \<Rightarrow> string list \<Rightarrow> string list \<Rightarrow> string list) \<Rightarrow> chunk list \<Rightarrow> string list" where
  "join_chunks pick' cs =
     concat (map (\<lambda>c. case c of Settled ls _ \<Rightarrow> ls | Conflict b o' t \<Rightarrow> pick' b o' t) cs)"

fun from_conflict :: "file_conflict \<Rightarrow> merge_file" where
  "from_conflict (SettledConflict path content lh sh) =
     (let t = (case content of None \<Rightarrow> [] | Some c \<Rightarrow> c);
          n = length (js_split t)
      in \<lparr>mf_conflict = SettledConflict path content lh sh, mf_path = path,
          mf_left = t, mf_right = t, mf_deletedLeft = False, mf_deletedRight = False,
          mf_segments = [SettledSeg (even_counts n) []],
          mf_lines = js_split t, mf_initial = js_join (js_split t)\<rparr>)"
| "from_conflict (LinesConflict path chunks lh sh) =
     (let ls = join_chunks (\<lambda>b o' t. b) chunks
      in \<lparr>mf_conflict = LinesConflict path chunks lh sh, mf_path = path,
          mf_left = js_join (join_chunks (\<lambda>b o' t. o') chunks),
          mf_right = js_join (join_chunks (\<lambda>b o' t. t) chunks),
          mf_deletedLeft = False, mf_deletedRight = False,
          mf_segments = map chunk_segment chunks,
          mf_lines = ls, mf_initial = js_join ls\<rparr>)"
| "from_conflict (WholeConflict path local server lh sh) =
     (let ours = linesOf local; theirs = linesOf server
      in \<lparr>mf_conflict = WholeConflict path local server lh sh, mf_path = path,
          mf_left = (case local of None \<Rightarrow> [] | Some c \<Rightarrow> c),
          mf_right = (case server of None \<Rightarrow> [] | Some c \<Rightarrow> c),
          mf_deletedLeft = (local = None), mf_deletedRight = (server = None),
          mf_segments = [HunkSeg (pending_hunk ours ours theirs)],
          mf_lines = ours, mf_initial = js_join ours\<rparr>)"

definition result :: "merge_file \<Rightarrow> string" where
  "result f = js_join (mf_lines f)"

text \<open>The hunks, each with its index in \<^verbatim>\<open>segments\<close> and its index among the hunks.\<close>

fun hunks_from :: "nat \<Rightarrow> nat \<Rightarrow> segment list \<Rightarrow> (hunk_seg \<times> nat \<times> nat) list" where
  "hunks_from i k [] = []"
| "hunks_from i k (SettledSeg c chs # ss) = hunks_from (Suc i) k ss"
| "hunks_from i k (HunkSeg h # ss) = (h, i, k) # hunks_from (Suc i) (Suc k) ss"

definition hunks :: "merge_file \<Rightarrow> (hunk_seg \<times> nat \<times> nat) list" where
  "hunks f = hunks_from 0 0 (mf_segments f)"

definition isResolved :: "hunk_seg \<Rightarrow> bool" where
  "isResolved h \<longleftrightarrow> hs_edited h \<or> (hs_left h \<noteq> Pending \<and> hs_right h \<noteq> Pending)"

definition unresolved :: "merge_file \<Rightarrow> nat" where
  "unresolved f = length (filter (\<lambda>(h, _). \<not> isResolved h) (hunks f))"

definition touched :: "merge_file \<Rightarrow> bool" where
  "touched f \<longleftrightarrow>
     result f \<noteq> mf_initial f \<or>
     list_ex (\<lambda>(h, _). hs_edited h \<or> hs_left h \<noteq> Pending \<or> hs_right h \<noteq> Pending) (hunks f)"

text \<open>The first line of each segment in a pane, and the line count.\<close>

fun starts_from :: "merge_pane \<Rightarrow> int \<Rightarrow> segment list \<Rightarrow> int list \<times> int" where
  "starts_from p pos [] = ([], pos)"
| "starts_from p pos (s # ss) =
     (case starts_from p (pos + pane_count p (seg_lines s)) ss of (sts, tot) \<Rightarrow> (pos # sts, tot))"

definition starts :: "merge_file \<Rightarrow> merge_pane \<Rightarrow> int list \<times> int" where
  "starts f p = starts_from p 0 (mf_segments f)"

fun side_of :: "hunk_seg \<Rightarrow> hunk_side \<Rightarrow> side_state" where
  "side_of h LeftSide = hs_left h"
| "side_of h RightSide = hs_right h"

fun set_side :: "hunk_side \<Rightarrow> side_state \<Rightarrow> hunk_seg \<Rightarrow> hunk_seg" where
  "set_side LeftSide st h = h\<lparr>hs_left := st\<rparr>"
| "set_side RightSide st h = h\<lparr>hs_right := st\<rparr>"

fun look :: "hunk_seg \<Rightarrow> merge_pane \<Rightarrow> hunk_look" where
  "look h PaneResult = (if isResolved h then LookResolved else LookConflict)"
| "look h PaneLeft =
     (if hs_edited h \<and> hs_left h = Pending then LookDismissed else LOOK (hs_left h))"
| "look h PaneRight =
     (if hs_edited h \<and> hs_right h = Pending then LookDismissed else LOOK (hs_right h))"

definition aligned :: "segment \<Rightarrow> bool" where
  "aligned s \<longleftrightarrow> cn_left (seg_lines s) = cn_result (seg_lines s) \<and>
                cn_right (seg_lines s) = cn_result (seg_lines s)"

fun changes_from :: "nat \<Rightarrow> segment list \<Rightarrow> line_change list" where
  "changes_from i [] = []"
| "changes_from i (HunkSeg h # ss) = changes_from (Suc i) ss"
| "changes_from i (SettledSeg c chs # ss) =
     map (\<lambda>ch. \<lparr>lc_segment = i, lc_offset = sc_start ch, lc_count = sc_count ch,
               lc_panes = (if aligned (SettledSeg c chs) then SIDE_PANES (sc_by ch) @ [PaneResult]
                           else SIDE_PANES (sc_by ch))\<rparr>) chs
     @ changes_from (Suc i) ss"

definition changes :: "merge_file \<Rightarrow> line_change list" where
  "changes f = changes_from 0 (mf_segments f)"

section \<open>Decisions\<close>

text \<open>The hunk with the given number and its index in \<^verbatim>\<open>segments\<close>, if this side is open.\<close>

definition pending :: "merge_file \<Rightarrow> nat \<Rightarrow> hunk_side \<Rightarrow> (hunk_seg \<times> nat) option" where
  "pending f index side =
     (if index < length (hunks f)
      then (case hunks f ! index of (h, i, k) \<Rightarrow>
              if hs_edited h \<or> side_of h side \<noteq> Pending then None else Some (h, i))
      else None)"

text \<open>\<^verbatim>\<open>xs.splice(start, deleteCount, ...items)\<close>.\<close>

definition js_splice :: "'a list \<Rightarrow> int \<Rightarrow> int \<Rightarrow> 'a list \<Rightarrow> 'a list" where
  "js_splice xs start cnt items =
     (let n = int (length xs);
          s = (if start < 0 then max 0 (n + start) else min start n);
          d = max 0 (min cnt (n - s))
      in take (nat s) xs @ items @ drop (nat (s + d)) xs)"

text \<open>\<open>h\<close> is the hunk at segment \<open>i\<close>, its sides as just decided.\<close>

definition rewrite :: "merge_file \<Rightarrow> nat \<Rightarrow> hunk_seg \<Rightarrow> merge_file \<times> decision" where
  "rewrite f i h =
     (let start = fst (starts f PaneResult) ! i;
          before = result f;
          content = contentOf h;
          h' = h\<lparr>hs_lines := (hs_lines h)\<lparr>cn_result := int (length content)\<rparr>\<rparr>;
          f' = f\<lparr>mf_lines := js_splice (mf_lines f) start (cn_result (hs_lines h)) content,
                 mf_segments := (mf_segments f)[i := HunkSeg h']\<rparr>
      in (f', \<lparr>de_edit = editBetween before (result f')\<rparr>))"

fun other_side :: "hunk_side \<Rightarrow> hunk_side" where
  "other_side LeftSide = RightSide"
| "other_side RightSide = LeftSide"

fun is_whole :: "file_conflict \<Rightarrow> bool" where
  "is_whole (WholeConflict path l s lh sh) \<longleftrightarrow> True"
| "is_whole c \<longleftrightarrow> False"

definition take_side :: "merge_file \<Rightarrow> nat \<Rightarrow> hunk_side \<Rightarrow> merge_file \<times> decision option" where
  "take_side f index side =
     (case pending f index side of
        None \<Rightarrow> (f, None)
      | Some (h, i) \<Rightarrow>
          let h1 = set_side side Taken h;
              h2 = (if is_whole (mf_conflict f) then set_side (other_side side) Dismissed h1 else h1)
          in (case rewrite f i h2 of (f', d) \<Rightarrow> (f', Some d)))"

definition dismiss_side :: "merge_file \<Rightarrow> nat \<Rightarrow> hunk_side \<Rightarrow> merge_file \<times> decision option" where
  "dismiss_side f index side =
     (case pending f index side of
        None \<Rightarrow> (f, None)
      | Some (h, i) \<Rightarrow>
          (case rewrite f i (set_side side Dismissed h) of (f', d) \<Rightarrow> (f', Some d)))"

section \<open>The user's own edits\<close>

text \<open>
  \<open>sts\<close> and \<open>ends\<close> are where the segments' result lines begin and end before the edit;
  \<open>touches\<close> asks whether old lines \<open>[a, b)\<close> replaced by new ones touch segment \<open>i\<close>.
\<close>

definition touches :: "int list \<Rightarrow> int list \<Rightarrow> nat \<Rightarrow> int \<Rightarrow> int \<Rightarrow> bool" where
  "touches sts ends i a b \<longleftrightarrow>
     (if a = b then a \<ge> sts ! i \<and> a \<le> ends ! i else a < ends ! i \<and> b > sts ! i)"

fun is_hunk :: "segment \<Rightarrow> bool" where
  "is_hunk (HunkSeg h) \<longleftrightarrow> True"
| "is_hunk (SettledSeg c chs) \<longleftrightarrow> False"

fun mark_edited :: "segment \<Rightarrow> segment" where
  "mark_edited (HunkSeg h) = HunkSeg (h\<lparr>hs_edited := True\<rparr>)"
| "mark_edited s = s"

text \<open>\<^verbatim>\<open>change(a, b, added)\<close>: the segments with their flags, and the differences.\<close>

definition change_target ::
  "int list \<Rightarrow> int list \<Rightarrow> segment list \<Rightarrow> int \<Rightarrow> int \<Rightarrow> nat" where
  "change_target sts ends segs a b =
     (case find (\<lambda>i. is_hunk (segs ! i) \<and> touches sts ends i a b) [0..<length segs] of
        Some i \<Rightarrow> i
      | None \<Rightarrow>
          (case find (\<lambda>i. a \<ge> sts ! i \<and> a < ends ! i) [0..<length segs] of
             Some i \<Rightarrow> i
           | None \<Rightarrow> length segs - 1))"

definition change ::
  "int list \<Rightarrow> int list \<Rightarrow> int \<times> int \<times> int \<Rightarrow> segment list \<times> int list \<Rightarrow> segment list \<times> int list"
  where
  "change sts ends c st =
     (case (c, st) of ((a, b, added), (segs, delta)) \<Rightarrow>
        let idx = [0..<length segs];
            delta' = map (\<lambda>i. delta ! i - max 0 (min b (ends ! i) - max a (sts ! i))) idx;
            segs' = map (\<lambda>i. if is_hunk (segs ! i) \<and> touches sts ends i a b
                            then mark_edited (segs ! i) else segs ! i) idx;
            target = change_target sts ends segs a b
        in (segs', delta'[target := delta' ! target + added]))"

text \<open>The loop over the parts of the diff: the line it is at and the change it has open.\<close>

fun edit_loop ::
  "int list \<Rightarrow> int list \<Rightarrow> part list \<Rightarrow> int \<Rightarrow> (int \<times> int \<times> int) option \<Rightarrow>
     segment list \<times> int list \<Rightarrow> segment list \<times> int list" where
  "edit_loop sts ends [] pos opn st =
     (case opn of None \<Rightarrow> st | Some c \<Rightarrow> change sts ends c st)"
| "edit_loop sts ends (p # ps) pos opn st =
     (let n = int (length (part_value p))
      in if \<not> part_added p \<and> \<not> part_removed p
         then edit_loop sts ends ps (pos + n) None
                (case opn of None \<Rightarrow> st | Some c \<Rightarrow> change sts ends c st)
         else (case (case opn of None \<Rightarrow> (pos, pos, 0) | Some c \<Rightarrow> c) of (a, b, added) \<Rightarrow>
            if part_removed p then edit_loop sts ends ps (pos + n) (Some (a, pos + n, added)) st
            else edit_loop sts ends ps pos (Some (a, b, added + n)) st))"

definition userEdit :: "diff_fn \<Rightarrow> merge_file \<Rightarrow> string \<Rightarrow> merge_file" where
  "userEdit diff f t =
     (if t = result f then f
      else
        let nxt = js_split t;
            segs = mf_segments f;
            (sts, total) = starts f PaneResult;
            ends = map (\<lambda>i. sts ! i + cn_result (seg_lines (segs ! i))) [0..<length segs];
            (segs1, delta) =
              edit_loop sts ends (diff (mf_lines f) nxt) 0 None (segs, map (\<lambda>_. 0) segs);
            segs2 = map2 seg_grow delta segs1;
            drift = int (length nxt) - (total + sum_list delta);
            lst = length segs2 - 1;
            segs3 = (if drift \<noteq> 0 then segs2[lst := seg_grow drift (segs2 ! lst)] else segs2)
        in f\<lparr>mf_segments := segs3, mf_lines := nxt\<rparr>)"

section \<open>Folding, answers and undo\<close>

text \<open>\<^verbatim>\<open>`${i}:${from}`\<close> for numbers that are not negative.\<close>

definition fold_key :: "nat \<Rightarrow> int \<Rightarrow> string" where
  "fold_key i from = js_nat i @ '':'' @ js_nat (nat from)"

text \<open>
  The lines of a settled run of \<open>n\<close> lines kept in view, and the gaps between them that are long
  enough to fold.
\<close>

definition kept_ranges :: "bool \<Rightarrow> bool \<Rightarrow> int \<Rightarrow> settled_change list \<Rightarrow> (int \<times> int) list" where
  "kept_ranges isFirst isLast n chs =
     sort_key fst
       ((if isFirst then [] else [(0, FOLD_CONTEXT)]) @
        [if isLast then (n - 1, n) else (n - FOLD_CONTEXT, n)] @
        map (\<lambda>ch. (int (sc_start ch) - FOLD_CONTEXT,
                  int (sc_start ch) + int (sc_count ch) + FOLD_CONTEXT)) chs)"

fun gaps :: "int \<Rightarrow> int \<Rightarrow> (int \<times> int) list \<Rightarrow> (int \<times> int) list" where
  "gaps n from [] = []"
| "gaps n from ((a, b) # ks) =
     (if min a n - from < FOLD_MIN then [] else [(from, min a n)]) @ gaps n (max from b) ks"

definition seg_folds :: "merge_file \<Rightarrow> nat \<Rightarrow> fold_range list" where
  "seg_folds f i =
     (case mf_segments f ! i of
        HunkSeg h \<Rightarrow> []
      | SettledSeg c chs \<Rightarrow>
          if \<not> aligned (SettledSeg c chs) then []
          else
            let n = cn_result c
            in map (\<lambda>(from, to).
                   \<lparr>fo_key = fold_key i from,
                    fo_start = \<lparr>cn_left = fst (starts f PaneLeft) ! i + from,
                                cn_result = fst (starts f PaneResult) ! i + from,
                                cn_right = fst (starts f PaneRight) ! i + from\<rparr>,
                    fo_count = to - from\<rparr>)
                 (gaps n 0 (kept_ranges (i = 0) (i = length (mf_segments f) - 1) n chs)))"

definition folds :: "merge_file \<Rightarrow> fold_range list" where
  "folds f = concat (map (seg_folds f) [0..<length (mf_segments f)])"

definition deletes :: "merge_file \<Rightarrow> bool" where
  "deletes f =
     (case mf_conflict f of
        SettledConflict path content lh sh \<Rightarrow> content = None \<and> result f = []
      | LinesConflict path chunks lh sh \<Rightarrow> False
      | WholeConflict path l s lh sh \<Rightarrow>
          if \<not> (mf_deletedLeft f \<or> mf_deletedRight f) then False
          else if result f \<noteq> [] then False
          else (case mf_segments f of
              HunkSeg h # _ \<Rightarrow>
                if hs_edited h then mf_initial f \<noteq> [] \<or> mf_deletedLeft f
                else if hs_left h = Taken then mf_deletedLeft f
                else if hs_right h = Taken then mf_deletedRight f
                else mf_deletedLeft f
            | _ \<Rightarrow> mf_deletedLeft f))"

definition resolved :: "merge_file \<Rightarrow> resolved_file" where
  "resolved f =
     \<lparr>rf_content = (if deletes f then None else Some (result f)),
      rf_localHash = fc_localHash (mf_conflict f),
      rf_serverHash = fc_serverHash (mf_conflict f)\<rparr>"

definition snapshot_of :: "merge_file \<Rightarrow> merge_snapshot" where
  "snapshot_of f = \<lparr>ms_lines = mf_lines f, ms_segments = mf_segments f\<rparr>"

text \<open>
  \<^verbatim>\<open>restore\<close>. A snapshot with more segments than the file makes \<^verbatim>\<open>Object.assign\<close> throw: no value.
\<close>

definition restore :: "merge_file \<Rightarrow> merge_snapshot \<Rightarrow> merge_file option" where
  "restore f snap =
     (if length (ms_segments snap) \<le> length (mf_segments f)
      then Some (f\<lparr>mf_lines := ms_lines snap,
                   mf_segments := ms_segments snap @ drop (length (ms_segments snap)) (mf_segments f)\<rparr>)
      else None)"

fun conflict_kind :: "file_conflict \<Rightarrow> string" where
  "conflict_kind (LinesConflict path chunks lh sh) = ''lines''"
| "conflict_kind (WholeConflict path l s lh sh) = ''whole''"
| "conflict_kind (SettledConflict path content lh sh) = ''settled''"

definition conflictKey :: "json_stringify \<Rightarrow> file_conflict \<Rightarrow> string" where
  "conflictKey stringify c =
     (let orNull = (\<lambda>h. case h of None \<Rightarrow> JNull | Some s \<Rightarrow> JStr s)
      in stringify (JArr [JStr (conflict_kind c), orNull (fc_localHash c), orNull (fc_serverHash c)]))"

definition resolvedFiles :: "merge_file list \<Rightarrow> resolved_file js_obj" where
  "resolvedFiles files = fold (\<lambda>f answers. obj_set (mf_path f) (resolved f) answers) files []"

end
