(* ===== verification/Merge_File_Correct.thy ===== *)
theory Merge_File_Correct
  imports Merge_File Merge3_Correct
begin

text \<open>
  Correctness of the resolve view's file. The invariant of a file is that its result cuts into one
  run of lines per segment, of the segment's length, the run of a hunk nobody typed into being
  what the hunk's sides say. Every operation keeps it, and every edit handed to the editor is the
  difference it makes.
\<close>

section \<open>Text edits\<close>

definition apply_edit :: "text_edit option \<Rightarrow> string \<Rightarrow> string" where
  "apply_edit e s =
     (case e of None \<Rightarrow> s | Some ed \<Rightarrow> take (te_start ed) s @ te_text ed @ drop (te_end ed) s)"

lemma agree_len_le:
  "agree_len cap xs ys \<le> cap" "agree_len cap xs ys \<le> length xs" "agree_len cap xs ys \<le> length ys"
  by (induction cap xs ys rule: agree_len.induct) auto

lemma agree_len_take: "take (agree_len cap xs ys) xs = take (agree_len cap xs ys) ys"
  by (induction cap xs ys rule: agree_len.induct) auto

lemma agree_len_drop:
  fixes cap xs ys
  defines "t \<equiv> agree_len cap (rev xs) (rev ys)"
  shows "drop (length xs - t) xs = drop (length ys - t) ys"
  using agree_len_take [of cap "rev xs" "rev ys"] agree_len_le [of cap "rev xs" "rev ys"]
  unfolding t_def by (simp add: take_rev)

lemma apply_editBetween: "apply_edit (editBetween old new) old = new"
proof (cases "old = new")
  case False
  define shorter where "shorter = min (length old) (length new)"
  define start where "start = agree_len shorter old new"
  define tail where "tail = agree_len (shorter - start) (rev old) (rev new)"
  have "tail \<le> shorter - start" "start \<le> shorter"
    unfolding tail_def start_def by (rule agree_len_le)+
  then have le: "start + tail \<le> length new" "start + tail \<le> length old"
    by (auto simp: shorter_def)
  have "apply_edit (editBetween old new) old =
      take start new @ js_slice new start (length new - tail) @ drop (length new - tail) new"
    using False agree_len_take [of shorter old new]
      agree_len_drop [where cap = "shorter - start" and xs = old and ys = new]
    by (simp add: editBetween_def apply_edit_def Let_def shorter_def start_def tail_def)
  also have "\<dots> = js_slice new 0 start @ js_slice new start (length new - tail) @
      js_slice new (length new - tail) (length new)"
    by (simp add: js_slice_def)
  also have "\<dots> = new"
    using le js_slice_append [of 0 start "length new - tail" new]
      js_slice_append [of 0 "length new - tail" "length new" new]
    by (simp flip: append_assoc)
  finally show ?thesis .
qed (simp add: editBetween_def apply_edit_def)

lemma editBetween_None: "editBetween old new = None \<longleftrightarrow> old = new"
  by (simp add: editBetween_def Let_def)

section \<open>Where the segments are\<close>

abbreviation seg_count :: "merge_pane \<Rightarrow> segment \<Rightarrow> int" where
  "seg_count p s \<equiv> pane_count p (seg_lines s)"

lemma starts_from_nth:
  "i < length ss \<Longrightarrow>
   fst (starts_from p pos ss) ! i = pos + sum_list (map (seg_count p) (take i ss))"
proof (induction ss arbitrary: pos i)
  case (Cons s ss)
  then show ?case
    by (cases i) (auto simp: split_beta)
qed simp

lemma starts_from_length [simp]: "length (fst (starts_from p pos ss)) = length ss"
  by (induction ss arbitrary: pos) (auto simp: split_beta)

lemma starts_from_total: "snd (starts_from p pos ss) = pos + sum_list (map (seg_count p) ss)"
  by (induction ss arbitrary: pos) (auto simp: split_beta)

definition part_fits :: "string list \<Rightarrow> segment \<Rightarrow> bool" where
  "part_fits ls s \<longleftrightarrow>
     seg_count PaneResult s = int (length ls) \<and>
     (\<forall>h. s = HunkSeg h \<and> \<not> hs_edited h \<longrightarrow> ls = contentOf h)"

definition file_ok :: "merge_file \<Rightarrow> bool" where
  "file_ok f \<longleftrightarrow>
     mf_segments f \<noteq> [] \<and>
     (\<exists>lss. concat lss = mf_lines f \<and> list_all2 part_fits lss (mf_segments f))"

lemma fits_sum:
  "list_all2 part_fits lss ss \<Longrightarrow>
   sum_list (map (seg_count PaneResult) ss) = int (length (concat lss))"
  by (induction rule: list_all2_induct) (auto simp: part_fits_def)

text \<open>What no operation changes of a segment: its kind, the sides' line counts and texts.\<close>

fun shape :: "segment \<Rightarrow> int \<times> int \<times> settled_change list + int \<times> int \<times> string list \<times> string list \<times> string list"
  where
  "shape (SettledSeg c chs) = Inl (cn_left c, cn_right c, chs)"
| "shape (HunkSeg h) =
     Inr (cn_left (hs_lines h), cn_right (hs_lines h), hs_base h, hs_ours h, hs_theirs h)"

section \<open>Decisions\<close>

lemma js_splice_parts:
  "js_splice (xs @ ys @ zs) (int (length xs)) (int (length ys)) items = xs @ items @ zs"
  by (simp add: js_splice_def Let_def)

lemma hunks_from_nth:
  "(h, i, k) \<in> set (hunks_from i0 k0 ss) \<Longrightarrow> i0 \<le> i \<and> i - i0 < length ss \<and> ss ! (i - i0) = HunkSeg h"
proof (induction i0 k0 ss rule: hunks_from.induct)
  case (2 i0 k0 c chs ss)
  then have "Suc i0 \<le> i \<and> i - Suc i0 < length ss \<and> ss ! (i - Suc i0) = HunkSeg h" by simp
  then show ?case by (auto simp: nth_Cons')
next
  case (3 i0 k0 h' ss)
  show ?case
  proof (cases "(h, i, k) = (h', i0, k0)")
    case False
    with 3 have "Suc i0 \<le> i \<and> i - Suc i0 < length ss \<and> ss ! (i - Suc i0) = HunkSeg h" by auto
    then show ?thesis by (auto simp: nth_Cons')
  qed simp
qed simp

lemma pendingD:
  "pending f index side = Some (h, i) \<Longrightarrow>
   i < length (mf_segments f) \<and> mf_segments f ! i = HunkSeg h \<and> \<not> hs_edited h \<and> side_of h side = Pending"
  using hunks_from_nth [of h i _ 0 0 "mf_segments f"]
  by (auto simp: pending_def hunks_def split: if_splits prod.splits dest!: nth_mem)

lemma list_all2_nth_split:
  assumes "list_all2 P xs ys" and "i < length ys"
  shows "xs = take i xs @ xs ! i # drop (Suc i) xs" "list_all2 P (take i xs) (take i ys)"
    "P (xs ! i) (ys ! i)"
  using assms by (auto simp: id_take_nth_drop list_all2_lengthD list_all2_takeI list_all2_nthD2)

lemma rewrite_parts:
  assumes ok: "list_all2 part_fits lss (mf_segments f)" "concat lss = mf_lines f"
    and i: "i < length (mf_segments f)" "mf_segments f ! i = HunkSeg h0"
    and h: "hs_lines h = hs_lines h0"
  shows "mf_lines (fst (rewrite f i h)) = concat (lss[i := contentOf h])"
    "list_all2 part_fits (lss[i := contentOf h]) (mf_segments (fst (rewrite f i h)))"
proof -
  note sp = list_all2_nth_split [OF ok(1) i(1)]
  have len: "i < length lss" using ok(1) i(1) by (simp add: list_all2_lengthD)
  have lines: "mf_lines f = concat (take i lss) @ lss ! i @ concat (drop (Suc i) lss)"
    using arg_cong [OF sp(1), of concat] ok(2) by simp
  have "fst (starts f PaneResult) ! i = int (length (concat (take i lss)))"
    using fits_sum [OF sp(2)] i(1) by (simp add: starts_def starts_from_nth)
  moreover have "cn_result (hs_lines h) = int (length (lss ! i))"
    using sp(3) i(2) h by (simp add: part_fits_def)
  moreover have "lss[i := contentOf h] = take i lss @ contentOf h # drop (Suc i) lss"
    using len by (rule upd_conv_take_nth_drop)
  ultimately show "mf_lines (fst (rewrite f i h)) = concat (lss[i := contentOf h])"
    by (simp add: rewrite_def Let_def lines js_splice_parts)
  show "list_all2 part_fits (lss[i := contentOf h]) (mf_segments (fst (rewrite f i h)))"
    using ok(1) by (simp add: rewrite_def Let_def list_all2_update_cong part_fits_def contentOf_def)
qed

lemma rewrite_edit:
  "apply_edit (de_edit (snd (rewrite f i h))) (result f) = result (fst (rewrite f i h))"
  by (simp add: rewrite_def Let_def apply_editBetween)

lemma rewrite_ok:
  assumes "file_ok f" and "i < length (mf_segments f)" "mf_segments f ! i = HunkSeg h0"
    and "hs_lines h = hs_lines h0"
  shows "file_ok (fst (rewrite f i h))"
  using assms rewrite_parts [OF _ _ assms(2-4)]
  by (auto simp: file_ok_def rewrite_def Let_def)

section \<open>The user's own edits\<close>

text \<open>A change of the result as \<^verbatim>\<open>userEdit\<close> sees it is a hunk of the line diff.\<close>

abbreviation hunk_change :: "hunk \<Rightarrow> int \<times> int \<times> int" where
  "hunk_change h \<equiv> (int (h_start h), int (h_end h), int (length (h_lines h)))"

lemma edit_loop_hunks:
  "fold (change sts ends) (map hunk_change (hunks_loop s ps hs pos opn)) st =
     edit_loop sts ends ps (int pos) (map_option hunk_change opn)
       (fold (change sts ends) (map hunk_change hs) st)"
proof (induction ps arbitrary: hs pos opn)
  case Nil
  then show ?case by (cases opn) simp_all
next
  case (Cons p ps)
  show ?case
  proof (cases "\<not> part_added p \<and> \<not> part_removed p")
    case True
    then show ?thesis using Cons.IH by (cases opn) simp_all
  next
    case False
    then show ?thesis using Cons.IH by (cases opn) (auto simp: Let_def)
  qed
qed

definition overlap :: "int \<Rightarrow> int \<Rightarrow> int \<times> int \<times> int \<Rightarrow> int" where
  "overlap s e c = (case c of (a, b, _) \<Rightarrow> max 0 (min b e - max a s))"

definition effect :: "int list \<Rightarrow> int list \<Rightarrow> segment list \<Rightarrow> int \<times> int \<times> int \<Rightarrow> nat \<Rightarrow> int" where
  "effect sts ends segs c i =
     (case c of (a, b, added) \<Rightarrow>
        (if i = change_target sts ends segs a b then added else 0) - overlap (sts ! i) (ends ! i) c)"

definition hit :: "int list \<Rightarrow> int list \<Rightarrow> segment list \<Rightarrow> int \<times> int \<times> int \<Rightarrow> nat \<Rightarrow> bool" where
  "hit sts ends segs c i \<longleftrightarrow>
     (case c of (a, b, _) \<Rightarrow> is_hunk (segs ! i) \<and> touches sts ends i a b)"

lemma is_hunk_mark [simp]: "is_hunk (mark_edited s) = is_hunk s"
  by (cases s) simp_all

lemma mark_twice [simp]: "mark_edited (mark_edited s) = mark_edited s"
  by (cases s) simp_all

lemma change_target_cong:
  assumes "length segs' = length segs" and "\<And>i. i < length segs \<Longrightarrow> is_hunk (segs' ! i) = is_hunk (segs ! i)"
  shows "change_target sts ends segs' a b = change_target sts ends segs a b"
proof -
  have "find (\<lambda>i. is_hunk (segs' ! i) \<and> touches sts ends i a b) [0..<length segs] =
      find (\<lambda>i. is_hunk (segs ! i) \<and> touches sts ends i a b) [0..<length segs]"
    using assms(2) by (intro find_cong) auto
  then show ?thesis by (simp add: change_target_def assms(1) cong: option.case_cong)
qed

lemma change_nth:
  assumes "change sts ends c (segs, delta) = (segs', delta')" and "segs \<noteq> []"
  shows "length segs' = length segs" "length delta' = length segs"
    "i < length segs \<Longrightarrow> segs' ! i = (if hit sts ends segs c i then mark_edited (segs ! i) else segs ! i)"
    "i < length segs \<Longrightarrow> delta' ! i = delta ! i + effect sts ends segs c i"
  using assms
  by (auto simp: change_def Let_def hit_def effect_def overlap_def nth_list_update split: prod.splits)

lemma fold_change_nth:
  assumes "fold (change sts ends) cs (segs, delta) = (segs', delta')" and "segs \<noteq> []"
    and "length delta = length segs"
  shows "length segs' = length segs \<and> length delta' = length segs \<and>
    (\<forall>i<length segs.
       segs' ! i = (if \<exists>c\<in>set cs. hit sts ends segs c i then mark_edited (segs ! i) else segs ! i) \<and>
       delta' ! i = delta ! i + (\<Sum>c\<leftarrow>cs. effect sts ends segs c i))"
  using assms
proof (induction cs arbitrary: segs delta)
  case (Cons c cs)
  obtain segs1 delta1 where c: "change sts ends c (segs, delta) = (segs1, delta1)" by force
  note one = change_nth [OF c Cons.prems(2)]
  have hunk: "is_hunk (segs1 ! i) = is_hunk (segs ! i)" if "i < length segs" for i
    using one(3) [OF that] by simp
  have eff: "effect sts ends segs1 d i = effect sts ends segs d i" for d i
    using change_target_cong [OF one(1) hunk] by (simp add: effect_def split: prod.splits)
  have hit: "hit sts ends segs1 d i = hit sts ends segs d i" if "i < length segs" for d i
    using hunk [OF that] by (simp add: hit_def split: prod.splits)
  have "segs1 \<noteq> []" using one(1) Cons.prems(2) by auto
  then have IH: "length segs' = length segs1 \<and> length delta' = length segs1 \<and>
    (\<forall>i<length segs1.
       segs' ! i = (if \<exists>c\<in>set cs. hit sts ends segs1 c i then mark_edited (segs1 ! i) else segs1 ! i) \<and>
       delta' ! i = delta1 ! i + (\<Sum>c\<leftarrow>cs. effect sts ends segs1 c i))"
    using Cons.IH [of segs1 delta1] Cons.prems(1) c one(1,2) by simp
  then show ?case
    using one(1) by (auto simp: eff hit one(3,4))
qed simp

text \<open>
  \<open>S i\<close> is where segment \<open>i\<close> begins in the result before the edit, \<open>S n\<close> where it ends.
\<close>

definition cuts :: "(nat \<Rightarrow> int) \<Rightarrow> nat \<Rightarrow> int list \<Rightarrow> int list \<Rightarrow> bool" where
  "cuts S n sts ends \<longleftrightarrow>
     S 0 = 0 \<and> (\<forall>i<n. S i \<le> S (Suc i) \<and> sts ! i = S i \<and> ends ! i = S (Suc i))"

lemma cuts_mono: "cuts S n sts ends \<Longrightarrow> i \<le> j \<Longrightarrow> j \<le> n \<Longrightarrow> S i \<le> S j"
proof (induction j)
  case (Suc j)
  moreover have "S j \<le> S (Suc j)" using Suc.prems by (simp add: cuts_def)
  ultimately show ?case by (cases "i = Suc j") auto
qed simp

lemma cuts_less: "cuts S n sts ends \<Longrightarrow> S i < S j \<Longrightarrow> i \<le> n \<Longrightarrow> j \<le> n \<Longrightarrow> i < j"
  using cuts_mono [of S n sts ends j i] by (meson leD leI)

lemma cuts_locate:
  "cuts S n sts ends \<Longrightarrow> 0 \<le> a \<Longrightarrow> a < S n \<Longrightarrow> \<exists>j<n. S j \<le> a \<and> a < S (Suc j)"
proof (induction n)
  case (Suc n)
  then have "cuts S n sts ends" by (simp add: cuts_def)
  with Suc show ?case
    by (cases "a < S n") (auto simp: less_Suc_eq intro: Suc.IH)
qed (simp add: cuts_def)

lemma overlap_prefix:
  "cuts S n sts ends \<Longrightarrow> 0 \<le> a \<Longrightarrow> a \<le> b \<Longrightarrow>
   (\<Sum>j<n. overlap (sts ! j) (ends ! j) (a, b, x)) = min b (S n) - min a (S n)"
proof (induction n)
  case (Suc n)
  then have "cuts S n sts ends" by (simp add: cuts_def)
  moreover have "S n \<le> S (Suc n)" "sts ! n = S n" "ends ! n = S (Suc n)"
    using Suc.prems(1) by (simp_all add: cuts_def)
  ultimately show ?case
    using Suc.IH Suc.prems by (auto simp: overlap_def min_def max_def)
qed (simp add: cuts_def)

lemma overlap_disjoint:
  "sep_hunks hs \<Longrightarrow> (\<forall>h\<in>set hs. lo \<le> int (h_start h) \<and> h_start h \<le> h_end h) \<Longrightarrow>
   (\<Sum>h\<leftarrow>hs. overlap s e (hunk_change h)) \<le> max 0 (e - max s lo)"
proof (induction hs arbitrary: lo)
  case (Cons h hs)
  have "(\<Sum>h\<leftarrow>hs. overlap s e (hunk_change h)) \<le> max 0 (e - max s (int (h_end h)))"
    using Cons.prems by (intro Cons.IH) auto
  moreover have "lo \<le> int (h_start h)" "h_start h \<le> h_end h" using Cons.prems by auto
  ultimately show ?case
    by (auto simp: overlap_def max_def min_def split: if_splits)
qed simp

lemma find_upt:
  "find P [0..<n] = Some i \<Longrightarrow> i < n \<and> P i"
  "find P [0..<n] = None \<Longrightarrow> j < n \<Longrightarrow> \<not> P j"
  by (auto simp: find_Some_iff find_None_iff)

lemma change_target_cases:
  assumes "segs \<noteq> []"
  obtains i where "i < length segs" "is_hunk (segs ! i)" "touches sts ends i a b"
      "change_target sts ends segs a b = i"
    | i where "i < length segs" "a \<ge> sts ! i" "a < ends ! i" "change_target sts ends segs a b = i"
    | "\<And>i. i < length segs \<Longrightarrow> \<not> (a \<ge> sts ! i \<and> a < ends ! i)"
      "\<And>i. i < length segs \<Longrightarrow> \<not> (is_hunk (segs ! i) \<and> touches sts ends i a b)"
      "change_target sts ends segs a b = length segs - 1"
  by (cases "find (\<lambda>i. is_hunk (segs ! i) \<and> touches sts ends i a b) [0..<length segs]";
      cases "find (\<lambda>i. a \<ge> sts ! i \<and> a < ends ! i) [0..<length segs]")
    (auto simp: change_target_def dest: find_upt)

lemma change_target_less: "segs \<noteq> [] \<Longrightarrow> change_target sts ends segs a b < length segs"
  by (cases rule: change_target_cases [of segs sts ends a b]) auto

text \<open>Where the lines added by a change go, seen from a hunk the change does not touch.\<close>

lemma change_target_before:
  assumes cuts: "cuts S (length segs) sts ends" and i: "i < length segs" "is_hunk (segs ! i)"
    and no: "\<not> touches sts ends i a b" and ab: "0 \<le> a" "a \<le> b" "b \<le> S i"
  shows "change_target sts ends segs a b < i"
proof -
  have at: "sts ! j = S j" "ends ! j = S (Suc j)" "S j \<le> S (Suc j)" if "j < length segs" for j
    using cuts that by (auto simp: cuts_def)
  have lt: "a < S i" using no ab at [OF i(1)] by (auto simp: touches_def split: if_splits)
  have "S i \<le> S (length segs)" using cuts_mono [OF cuts, of i "length segs"] i(1) by simp
  then have ex: "\<exists>j<length segs. S j \<le> a \<and> a < S (Suc j)"
    using cuts_locate [OF cuts ab(1)] lt by simp
  have "segs \<noteq> []" using i by auto
  then show ?thesis
  proof (cases rule: change_target_cases [of segs sts ends a b])
    case (1 j)
    then have "S j < S i" using at [of j] ab lt by (auto simp: touches_def split: if_splits)
    then show ?thesis using 1 cuts_less [OF cuts, of j i] i(1) by simp
  next
    case (2 j)
    then have "S j < S i" using at [of j] lt by simp
    then show ?thesis using 2 cuts_less [OF cuts, of j i] i(1) by simp
  next
    case 3
    then show ?thesis using ex at by auto
  qed
qed

lemma change_target_after:
  assumes cuts: "cuts S (length segs) sts ends" and i: "i < length segs" "is_hunk (segs ! i)"
    and no: "\<not> touches sts ends i a b" and ab: "0 \<le> a" "a \<le> b" "S (Suc i) \<le> a" "b \<le> S (length segs)"
  shows "i < change_target sts ends segs a b"
proof -
  have at: "sts ! j = S j" "ends ! j = S (Suc j)" "S j \<le> S (Suc j)" if "j < length segs" for j
    using cuts that by (auto simp: cuts_def)
  have gt: "a = b \<Longrightarrow> S (Suc i) < a"
    using no ab at [OF i(1)] by (auto simp: touches_def split: if_splits)
  have "segs \<noteq> []" using i by auto
  then show ?thesis
  proof (cases rule: change_target_cases [of segs sts ends a b])
    case (1 j)
    then have "S (Suc i) < S (Suc j)" using at [of j] ab gt by (auto simp: touches_def split: if_splits)
    then show ?thesis using 1 cuts_less [OF cuts, of "Suc i" "Suc j"] i(1) by simp
  next
    case (2 j)
    then have "S (Suc i) < S (Suc j)" using at [of j] ab by simp
    then show ?thesis using 2 cuts_less [OF cuts, of "Suc i" "Suc j"] i(1) by simp
  next
    case 3
    have "\<not> a < S (length segs)"
      using cuts_locate [OF cuts ab(1)] 3(1) at by force
    then have "S (Suc i) < S (length segs)" using gt ab by auto
    then have "Suc i < length segs" using cuts_less [OF cuts, of "Suc i" "length segs"] i(1) by simp
    then show ?thesis using 3 by simp
  qed
qed

section \<open>What the edit leaves of a hunk it does not touch\<close>

lemma render_loop_length:
  "sep_hunks hs \<Longrightarrow> (\<forall>h\<in>set hs. pos \<le> h_start h \<and> h_start h \<le> h_end h \<and> h_end h \<le> e) \<Longrightarrow>
   pos \<le> e \<Longrightarrow> e \<le> length b \<Longrightarrow>
   int (length (render_loop b pos hs e)) =
     int e - int pos + (\<Sum>h\<leftarrow>hs. int (length (h_lines h)) - (int (h_end h) - int (h_start h)))"
proof (induction hs arbitrary: pos)
  case (Cons h hs)
  have "int (length (render_loop b (h_end h) hs e)) = int e - int (h_end h) +
      (\<Sum>h\<leftarrow>hs. int (length (h_lines h)) - (int (h_end h) - int (h_start h)))"
    using Cons.prems by (intro Cons.IH) (auto simp: less_imp_le)
  then show ?case using Cons.prems by auto
qed auto

lemma sum_sum_list: "(\<Sum>i<n. \<Sum>c\<leftarrow>cs. g c i) = (\<Sum>c\<leftarrow>cs. \<Sum>i<n. (g c i :: int))"
  by (induction cs) (simp_all add: sum.distrib)

lemma effect_sum:
  assumes "cuts S n sts ends" and "0 \<le> a" "a \<le> b"
  shows "(\<Sum>i<n. effect sts ends segs (a, b, x) i) =
    (if change_target sts ends segs a b < n then x else 0) - (min b (S n) - min a (S n))"
  using overlap_prefix [OF assms, of x] by (simp add: effect_def sum_subtractf)

abbreviation hunk_gain :: "hunk \<Rightarrow> int" where
  "hunk_gain h \<equiv> int (length (h_lines h)) - (int (h_end h) - int (h_start h))"

text \<open>
  The edit \<open>hs\<close> of the result's lines \<open>b\<close>, cut at \<open>S\<close> into the segments \<open>segs\<close>: the
  differences add up, no count goes below zero, and an untouched hunk keeps its lines, at the
  place the differences before it say.
\<close>

definition edits ::
  "(nat \<Rightarrow> int) \<Rightarrow> segment list \<Rightarrow> int list \<Rightarrow> int list \<Rightarrow> string list \<Rightarrow> hunk list \<Rightarrow> bool" where
  "edits S segs sts ends b hs \<longleftrightarrow>
     cuts S (length segs) sts ends \<and> S (length segs) = int (length b) \<and> segs \<noteq> [] \<and>
     (\<exists>s. hunks_ok b s hs)"

definition gain :: "int list \<Rightarrow> int list \<Rightarrow> segment list \<Rightarrow> hunk list \<Rightarrow> nat \<Rightarrow> int" where
  "gain sts ends segs hs i = (\<Sum>h\<leftarrow>hs. effect sts ends segs (hunk_change h) i)"

lemma editsD:
  assumes "edits S segs sts ends b hs"
  shows "cuts S (length segs) sts ends" "S (length segs) = int (length b)" "segs \<noteq> []"
    "sep_hunks hs" "h \<in> set hs \<Longrightarrow> h_start h \<le> h_end h" "h \<in> set hs \<Longrightarrow> h_end h \<le> length b"
  using assms by (auto simp: edits_def hunks_ok_def)

lemma gain_total:
  assumes "edits S segs sts ends b hs"
  shows "(\<Sum>i<length segs. gain sts ends segs hs i) = (\<Sum>h\<leftarrow>hs. hunk_gain h)"
proof -
  have "(\<Sum>i<length segs. effect sts ends segs (hunk_change h) i) = hunk_gain h" if "h \<in> set hs" for h
    using effect_sum [OF editsD(1) [OF assms], of "int (h_start h)" "int (h_end h)"]
      editsD(5,6) [OF assms that] editsD(2) [OF assms] change_target_less [OF editsD(3) [OF assms]]
    by simp
  then show ?thesis
    unfolding gain_def sum_sum_list by (auto intro!: arg_cong [of _ _ sum_list])
qed

lemma gain_lower:
  assumes "edits S segs sts ends b hs" and "i < length segs"
  shows "0 \<le> S (Suc i) - S i + gain sts ends segs hs i"
proof -
  have i: "sts ! i = S i" "ends ! i = S (Suc i)" "S i \<le> S (Suc i)"
    using editsD(1) [OF assms(1)] assms(2) by (auto simp: cuts_def)
  have "0 \<le> S i" using cuts_mono [OF editsD(1) [OF assms(1)], of 0 i] editsD(1) [OF assms(1)] assms(2)
    by (simp add: cuts_def)
  then have "(\<Sum>h\<leftarrow>hs. overlap (S i) (S (Suc i)) (hunk_change h)) \<le> S (Suc i) - S i"
    using overlap_disjoint [of hs 0 "S i" "S (Suc i)"] editsD(4,5) [OF assms(1)] i by auto
  moreover have "(\<Sum>h\<leftarrow>hs. - overlap (S i) (S (Suc i)) (hunk_change h)) \<le> gain sts ends segs hs i"
    unfolding gain_def by (intro sum_list_mono) (simp add: effect_def i)
  moreover have "(\<Sum>h\<leftarrow>hs. - overlap (S i) (S (Suc i)) (hunk_change h)) =
      - (\<Sum>h\<leftarrow>hs. overlap (S i) (S (Suc i)) (hunk_change h))"
    by (simp add: uminus_sum_list_map comp_def)
  ultimately show ?thesis by simp
qed

text \<open>The changes before and after an untouched hunk.\<close>

lemma untouched_side:
  assumes "edits S segs sts ends b hs" and "i < length segs" "h \<in> set hs"
    and "\<not> touches sts ends i (int (h_start h)) (int (h_end h))"
  shows "int (h_end h) \<le> S i \<or> S (Suc i) \<le> int (h_start h)"
proof -
  have "sts ! i = S i" "ends ! i = S (Suc i)"
    using editsD(1) [OF assms(1)] assms(2) by (auto simp: cuts_def)
  then show ?thesis using assms(4) by (auto simp: touches_def split: if_splits)
qed

lemma sep_partition:
  assumes "sep_hunks hs" "\<forall>h\<in>set hs. h_start h \<le> h_end h"
    and "\<forall>h\<in>set hs. int (h_end h) \<le> lo \<or> hi \<le> int (h_start h)"
  shows "\<exists>xs ys. hs = xs @ ys \<and> (\<forall>h\<in>set xs. int (h_end h) \<le> lo) \<and> (\<forall>h\<in>set ys. hi \<le> int (h_start h))"
  using assms
proof (induction hs)
  case (Cons h hs)
  then have "\<exists>xs ys. hs = xs @ ys \<and> (\<forall>h\<in>set xs. int (h_end h) \<le> lo) \<and> (\<forall>h\<in>set ys. hi \<le> int (h_start h))"
    by simp
  then obtain xs ys where sp: "hs = xs @ ys" "\<forall>h\<in>set xs. int (h_end h) \<le> lo"
    "\<forall>h\<in>set ys. hi \<le> int (h_start h)" by blast
  show ?case
  proof (cases "int (h_end h) \<le> lo")
    case True
    then show ?thesis using sp by (intro exI [of _ "h # xs"] exI [of _ ys]) simp
  next
    case False
    then have "hi \<le> int (h_start h)" using Cons.prems by simp
    moreover have "hi \<le> int (h_start k)" if "k \<in> set hs" for k
    proof -
      have "h_end h < h_start k" "h_start h \<le> h_end h" using Cons.prems that by auto
      then show ?thesis using calculation by simp
    qed
    ultimately show ?thesis by (intro exI [of _ "[]"] exI [of _ "h # hs"]) simp
  qed
qed simp

lemma sum_list_zeros: "(\<And>x. x \<in> set xs \<Longrightarrow> f x = 0) \<Longrightarrow> (\<Sum>x\<leftarrow>xs. f x) = (0 :: int)"
  by (induction xs) simp_all

lemma gain_before:
  assumes ed: "edits S segs sts ends b (xs @ ys)" and i: "i < length segs" "is_hunk (segs ! i)"
    and no: "\<forall>h\<in>set (xs @ ys). \<not> touches sts ends i (int (h_start h)) (int (h_end h))"
    and xs: "\<forall>h\<in>set xs. int (h_end h) \<le> S i" and ys: "\<forall>h\<in>set ys. S (Suc i) \<le> int (h_start h)"
  shows "(\<Sum>j<i. gain sts ends segs (xs @ ys) j) = (\<Sum>h\<leftarrow>xs. hunk_gain h)"
    "gain sts ends segs (xs @ ys) i = 0"
proof -
  note D = editsD [OF ed]
  have cuts_i: "cuts S i sts ends" "S i \<le> S (Suc i)" "sts ! i = S i" "ends ! i = S (Suc i)"
    using D(1) i(1) by (auto simp: cuts_def)
  have x: "change_target sts ends segs (int (h_start h)) (int (h_end h)) < i" if "h \<in> set xs" for h
    using that no xs D(5) by (intro change_target_before [OF D(1) i]) auto
  have y: "i < change_target sts ends segs (int (h_start h)) (int (h_end h))" if "h \<in> set ys" for h
    using that no ys D(2,5,6) by (intro change_target_after [OF D(1) i]) auto
  have ex: "(\<Sum>j<i. effect sts ends segs (hunk_change h) j) = hunk_gain h" if "h \<in> set xs" for h
    using effect_sum [OF cuts_i(1), of "int (h_start h)" "int (h_end h)"] x [OF that] xs that D(5) by force
  have ey: "(\<Sum>j<i. effect sts ends segs (hunk_change h) j) = 0" if "h \<in> set ys" for h
    using effect_sum [OF cuts_i(1), of "int (h_start h)" "int (h_end h)"] y [OF that] ys that D(5) cuts_i(2)
    by force
  have "(\<Sum>h\<leftarrow>xs. \<Sum>j<i. effect sts ends segs (hunk_change h) j) = (\<Sum>h\<leftarrow>xs. hunk_gain h)"
    using ex by (auto intro!: arg_cong [of _ _ sum_list])
  moreover have "(\<Sum>h\<leftarrow>ys. \<Sum>j<i. effect sts ends segs (hunk_change h) j) = 0"
    using ey by (intro sum_list_zeros)
  ultimately show "(\<Sum>j<i. gain sts ends segs (xs @ ys) j) = (\<Sum>h\<leftarrow>xs. hunk_gain h)"
    unfolding gain_def sum_sum_list by simp
  have "effect sts ends segs (hunk_change h) i = 0" if "h \<in> set (xs @ ys)" for h
    using that x y xs ys D(5) cuts_i by (force simp: effect_def overlap_def)
  then show "gain sts ends segs (xs @ ys) i = 0"
    unfolding gain_def by (intro sum_list_zeros) simp
qed

definition shifted :: "(nat \<Rightarrow> int) \<Rightarrow> (nat \<Rightarrow> int) \<Rightarrow> nat \<Rightarrow> nat" where
  "shifted S g i = nat (S i + (\<Sum>j<i. g j))"

lemma shifted_mono:
  assumes "edits S segs sts ends b hs" and "i < length segs"
  shows "0 \<le> S i + (\<Sum>j<i. gain sts ends segs hs j)"
    "int (shifted S (gain sts ends segs hs) (Suc i)) =
      int (shifted S (gain sts ends segs hs) i) + (S (Suc i) - S i + gain sts ends segs hs i)"
proof -
  show *: "0 \<le> S i + (\<Sum>j<i. gain sts ends segs hs j)" using assms(2)
  proof (induction i)
    case 0
    then show ?case using editsD(1) [OF assms(1)] by (simp add: cuts_def)
  next
    case (Suc i)
    then show ?case using gain_lower [OF assms(1), of i] by simp
  qed
  show "int (shifted S (gain sts ends segs hs) (Suc i)) =
      int (shifted S (gain sts ends segs hs) i) + (S (Suc i) - S i + gain sts ends segs hs i)"
    using * gain_lower [OF assms] by (simp add: shifted_def)
qed

lemma untouched_lines:
  assumes ed: "edits S segs sts ends b hs" and i: "i < length segs" "is_hunk (segs ! i)"
    and no: "\<forall>h\<in>set hs. \<not> touches sts ends i (int (h_start h)) (int (h_end h))"
  shows "js_slice (render_loop b 0 hs (length b)) (shifted S (gain sts ends segs hs) i)
      (shifted S (gain sts ends segs hs) (Suc i)) = js_slice b (nat (S i)) (nat (S (Suc i)))"
proof -
  note D = editsD [OF ed]
  obtain xs ys where sp: "hs = xs @ ys" "\<forall>h\<in>set xs. int (h_end h) \<le> S i"
    "\<forall>h\<in>set ys. S (Suc i) \<le> int (h_start h)"
    using sep_partition [OF D(4), of "S i" "S (Suc i)"] D(5) untouched_side [OF ed i(1)] no by blast
  note gb = gain_before [OF ed [unfolded sp(1)] i, folded sp(1), OF no sp(2,3)]
  have S: "0 \<le> S i" "S i \<le> S (Suc i)" "S (Suc i) \<le> int (length b)"
    using cuts_mono [OF D(1), of 0 i] cuts_mono [OF D(1), of i "Suc i"]
      cuts_mono [OF D(1), of "Suc i" "length segs"] D(1,2) i(1) by (auto simp: cuts_def)
  define lo hi where "lo = nat (S i)" and "hi = nat (S (Suc i))"
  have lo_hi: "lo \<le> hi" "hi \<le> length b" "S i = int lo" "S (Suc i) = int hi"
    using S by (auto simp: lo_def hi_def)
  have xs: "\<forall>h\<in>set xs. h_end h \<le> lo" and ys: "\<forall>h\<in>set ys. hi \<le> h_start h"
    using sp(2,3) lo_hi by auto
  let ?pre = "render_loop b 0 xs lo" and ?post = "render_loop b hi ys (length b)"
  have "render_loop b 0 hs (length b) = ?pre @ render_loop b lo ([] @ ys) (length b)"
    unfolding sp(1) append_Nil using xs ys lo_hi by (intro render_loop_append) auto
  also have "render_loop b lo ([] @ ys) (length b) = render_loop b lo [] hi @ ?post"
    using ys lo_hi by (intro render_loop_append) auto
  finally have nxt: "render_loop b 0 hs (length b) = ?pre @ js_slice b lo hi @ ?post" by simp
  have "int (length ?pre) = int lo + (\<Sum>h\<leftarrow>xs. hunk_gain h)"
    using render_loop_length [of xs 0 lo b] D(4,5) xs lo_hi by (auto simp: sp(1) sorted_wrt_append)
  then have pre: "length ?pre = shifted S (gain sts ends segs hs) i"
    using lo_hi by (simp add: shifted_def gb(1))
  then have "shifted S (gain sts ends segs hs) (Suc i) = length ?pre + length (js_slice b lo hi)"
    using shifted_mono(2) [OF ed i(1)] lo_hi gb(2) by simp
  then show ?thesis
    unfolding nxt lo_def [symmetric] hi_def [symmetric]
    using lo_hi(2) by (simp add: js_slice_def pre [symmetric] min_def del: length_js_slice)
qed

lemma concat_slices:
  "(\<And>i. i < n \<Longrightarrow> N i \<le> N (Suc i)) \<Longrightarrow>
   N 0 \<le> N n \<and> concat (map (\<lambda>i. js_slice xs (N i) (N (Suc i))) [0..<n]) = js_slice xs (N 0) (N n)"
proof (induction n)
  case (Suc n)
  then have IH: "N 0 \<le> N n"
    "concat (map (\<lambda>i. js_slice xs (N i) (N (Suc i))) [0..<n]) = js_slice xs (N 0) (N n)"
    and le: "N n \<le> N (Suc n)" by simp_all
  show ?case using order_trans [OF IH(1) le] by (simp add: IH js_slice_append [OF IH(1) le])
qed simp

lemma seg_grow_simps [simp]:
  "seg_count PaneResult (seg_grow n s) = seg_count PaneResult s + n"
  "shape (seg_grow n s) = shape s" "shape (mark_edited s) = shape s"
  "seg_lines (mark_edited s) = seg_lines s"
  by (cases s; simp add: grow_def)+

lemma fits_cuts:
  assumes "list_all2 part_fits lss segs"
  defines "S \<equiv> \<lambda>i. int (length (concat (take i lss)))"
    and "sts \<equiv> fst (starts_from PaneResult 0 segs)"
  shows "cuts S (length segs) sts (map (\<lambda>i. sts ! i + cn_result (seg_lines (segs ! i))) [0..<length segs])"
    "S (length segs) = int (length (concat lss))"
    "i < length segs \<Longrightarrow> js_slice (concat lss) (nat (S i)) (nat (S (Suc i))) = lss ! i"
proof -
  have len: "length lss = length segs" using assms(1) by (rule list_all2_lengthD)
  have at: "sts ! i = S i" if "i < length segs" for i
    using fits_sum [OF list_all2_nth_split(2) [OF assms(1) that]] that
    by (simp add: sts_def S_def starts_from_nth)
  have step: "S (Suc i) = S i + cn_result (seg_lines (segs ! i))" if "i < length segs" for i
    using list_all2_nth_split(3) [OF assms(1) that] that len
    by (simp add: S_def take_Suc_conv_app_nth part_fits_def)
  have "S i \<le> S (Suc i)" if "i < length segs" for i
    using that len by (simp add: S_def take_Suc_conv_app_nth)
  then show "cuts S (length segs) sts (map (\<lambda>i. sts ! i + cn_result (seg_lines (segs ! i))) [0..<length segs])"
    using at step by (simp add: cuts_def) (simp add: S_def)
  show "S (length segs) = int (length (concat lss))" by (simp add: S_def len)
  show "js_slice (concat lss) (nat (S i)) (nat (S (Suc i))) = lss ! i" if "i < length segs"
  proof -
    have "concat lss = concat (take i lss) @ lss ! i @ concat (drop (Suc i) lss)"
      using arg_cong [OF list_all2_nth_split(1) [OF assms(1) that], of concat] by simp
    moreover have "S (Suc i) = S i + int (length (lss ! i))"
      using that len by (simp add: S_def take_Suc_conv_app_nth)
    ultimately show ?thesis by (simp add: S_def js_slice_def nat_add_distrib)
  qed
qed

text \<open>The whole edit of a file, as the hunks of the line diff give it.\<close>

lemma userEdit_segments:
  assumes diff: "line_diff diff" and t: "t \<noteq> result f"
    and ok: "list_all2 part_fits lss (mf_segments f)" "concat lss = mf_lines f" "mf_segments f \<noteq> []"
  obtains S sts ends hs where
    "edits S (mf_segments f) sts ends (mf_lines f) hs"
    "render_loop (mf_lines f) 0 hs (length (mf_lines f)) = js_split t"
    "\<And>i. i < length (mf_segments f) \<Longrightarrow>
       js_slice (mf_lines f) (nat (S i)) (nat (S (Suc i))) = lss ! i"
    "mf_segments (userEdit diff f t) = map (\<lambda>i. seg_grow (gain sts ends (mf_segments f) hs i)
       (if \<exists>h\<in>set hs. hit sts ends (mf_segments f) (hunk_change h) i
        then mark_edited (mf_segments f ! i) else mf_segments f ! i)) [0..<length (mf_segments f)]"
proof -
  let ?segs = "mf_segments f" and ?b = "mf_lines f"
  define sts where "sts = fst (starts_from PaneResult 0 ?segs)"
  define ends where "ends = map (\<lambda>i. sts ! i + cn_result (seg_lines (?segs ! i))) [0..<length ?segs]"
  define S where "S = (\<lambda>i. int (length (concat (take i lss))))"
  define hs where "hs = hunksOf diff ?b (js_split t) Ours"
  note fc = fits_cuts [OF ok(1), folded S_def sts_def, folded ends_def, unfolded ok(2)]
  have ed: "edits S ?segs sts ends ?b hs"
    using fc(1,2) ok(3) line_diff.hunksOf_ok [OF diff, of ?b "js_split t" Ours]
    by (auto simp: edits_def hs_def S_def)
  have ren: "render_loop ?b 0 hs (length ?b) = js_split t"
    using line_diff.hunksOf_render [OF diff, of ?b "js_split t" Ours] by (simp add: hs_def)
  obtain segs1 delta where loop: "edit_loop sts ends (diff ?b (js_split t)) 0 None (?segs, map (\<lambda>_. 0) ?segs) =
      (segs1, delta)" by force
  then have "fold (change sts ends) (map hunk_change hs) (?segs, map (\<lambda>_. 0) ?segs) = (segs1, delta)"
    using edit_loop_hunks [of sts ends Ours "diff ?b (js_split t)" "[]" 0 None] by (simp add: hs_def hunksOf_def)
  note fold = fold_change_nth [OF this ok(3)]
  have segs1: "length segs1 = length ?segs" "length delta = length ?segs"
    "\<And>i. i < length ?segs \<Longrightarrow> segs1 ! i = (if \<exists>h\<in>set hs. hit sts ends ?segs (hunk_change h) i
        then mark_edited (?segs ! i) else ?segs ! i)"
    "\<And>i. i < length ?segs \<Longrightarrow> delta ! i = gain sts ends ?segs hs i"
    using fold by (auto simp: gain_def comp_def)
  have "snd (starts_from PaneResult 0 ?segs) = int (length ?b)"
    using fits_sum [OF ok(1)] ok(2) by (simp add: starts_from_total)
  moreover have "sum_list delta = (\<Sum>h\<leftarrow>hs. hunk_gain h)"
    using gain_total [OF ed] segs1(2,4) by (simp add: sum_list_sum_nth atLeast0LessThan)
  moreover have "int (length (js_split t)) = int (length ?b) + (\<Sum>h\<leftarrow>hs. hunk_gain h)"
    using render_loop_length [OF editsD(4) [OF ed], of 0 "length ?b" ?b] editsD(5,6) [OF ed] ren by simp
  ultimately have drift: "int (length (js_split t)) - (snd (starts_from PaneResult 0 ?segs) + sum_list delta) = 0"
    by simp
  have "mf_segments (userEdit diff f t) = map2 seg_grow delta segs1"
    using t loop drift
    by (simp add: userEdit_def Let_def starts_def split_beta flip: sts_def ends_def)
  also have "\<dots> = map (\<lambda>i. seg_grow (gain sts ends ?segs hs i) (if \<exists>h\<in>set hs. hit sts ends ?segs (hunk_change h) i
        then mark_edited (?segs ! i) else ?segs ! i)) [0..<length ?segs]"
    using segs1 by (intro nth_equalityI) auto
  finally have segs: "mf_segments (userEdit diff f t) = \<dots>" .
  have "js_slice ?b (nat (S i)) (nat (S (Suc i))) = lss ! i" if "i < length ?segs" for i
    using fc(3) [OF that] by (simp add: S_def)
  then show ?thesis by (rule that [OF ed ren _ segs])
qed

lemma userEdit_result: "result (userEdit diff f t) = t"
  by (simp add: userEdit_def result_def Let_def split_beta)

lemma userEdit_shape: 
  assumes "line_diff diff" "file_ok f"
  shows "map shape (mf_segments (userEdit diff f t)) = map shape (mf_segments f)"
proof (cases "t = result f")
  case False
  obtain lss where lss: "list_all2 part_fits lss (mf_segments f)" "concat lss = mf_lines f" "mf_segments f \<noteq> []"
    using assms(2) by (auto simp: file_ok_def)
  show ?thesis
    by (rule userEdit_segments [OF assms(1) False lss]) (auto intro!: nth_equalityI)
qed (simp add: userEdit_def)

lemma part_fits_edit:
  assumes "part_fits ls s" "int (length ls') = int (length ls) + n" "\<not> hit' \<Longrightarrow> is_hunk s \<Longrightarrow> ls' = ls"
    "hit' \<Longrightarrow> is_hunk s"
  shows "part_fits ls' (seg_grow n (if hit' then mark_edited s else s))"
  using assms by (cases s; cases hit') (auto simp: part_fits_def grow_def contentOf_def)

lemma userEdit_ok:
  assumes diff: "line_diff diff" and ok: "file_ok f"
  shows "file_ok (userEdit diff f t)"
proof (cases "t = result f")
  case True
  then show ?thesis using ok by (simp add: userEdit_def)
next
  case False
  let ?segs = "mf_segments f" and ?b = "mf_lines f"
  obtain lss where lss: "list_all2 part_fits lss ?segs" "concat lss = ?b" "?segs \<noteq> []"
    using ok by (auto simp: file_ok_def)
  obtain S sts ends hs where ed: "edits S ?segs sts ends ?b hs"
    and ren: "render_loop ?b 0 hs (length ?b) = js_split t"
    and old: "\<And>i. i < length ?segs \<Longrightarrow> js_slice ?b (nat (S i)) (nat (S (Suc i))) = lss ! i"
    and new: "mf_segments (userEdit diff f t) = map (\<lambda>i. seg_grow (gain sts ends ?segs hs i)
       (if \<exists>h\<in>set hs. hit sts ends ?segs (hunk_change h) i then mark_edited (?segs ! i) else ?segs ! i))
       [0..<length ?segs]"
    by (rule userEdit_segments [OF diff False lss]) blast
  define N where "N = shifted S (gain sts ends ?segs hs)"
  define lss' where "lss' = map (\<lambda>i. js_slice (js_split t) (N i) (N (Suc i))) [0..<length ?segs]"
  have step: "int (N (Suc i)) = int (N i) + (S (Suc i) - S i + gain sts ends ?segs hs i)" "N i \<le> N (Suc i)"
    if "i < length ?segs" for i
    using shifted_mono(2) [OF ed that] gain_lower [OF ed that] by (simp_all add: N_def)
  have N_end: "N 0 = 0" "N (length ?segs) = length (js_split t)"
    using gain_total [OF ed] editsD [OF ed] ren
      render_loop_length [OF editsD(4) [OF ed], of 0 "length ?b" ?b]
    by (simp_all add: N_def shifted_def cuts_def)
  have N_le: "N i \<le> length (js_split t)" if "i \<le> length ?segs" for i
    using that by (induction rule: inc_induct) (use N_end(2) order_trans [OF step(2)] in auto)
  have "concat lss' = js_split t"
    using concat_slices [of "length ?segs" N "js_split t"] step(2) N_end by (simp add: lss'_def)
  moreover have "list_all2 part_fits lss' (mf_segments (userEdit diff f t))"
    unfolding new list_all2_conv_all_nth
  proof (intro conjI allI impI)
    fix i assume "i < length lss'"
    then have i: "i < length ?segs" by (simp add: lss'_def)
    have S: "0 \<le> S i" "S i \<le> S (Suc i)" "S (Suc i) \<le> int (length ?b)"
      using cuts_mono [OF editsD(1) [OF ed], of 0 i] cuts_mono [OF editsD(1) [OF ed], of i "Suc i"]
        cuts_mono [OF editsD(1) [OF ed], of "Suc i" "length ?segs"] editsD(1,2) [OF ed] i
      by (auto simp: cuts_def)
    have "part_fits (lss' ! i) (seg_grow (gain sts ends ?segs hs i)
       (if \<exists>h\<in>set hs. hit sts ends ?segs (hunk_change h) i then mark_edited (?segs ! i) else ?segs ! i))"
    proof (rule part_fits_edit [of "lss ! i"])
      show "part_fits (lss ! i) (?segs ! i)" using lss(1) i by (simp add: list_all2_nthD2)
      have "int (length (lss ! i)) = S (Suc i) - S i" using S by (simp flip: old [OF i])
      then show "int (length (lss' ! i)) = int (length (lss ! i)) + gain sts ends ?segs hs i"
        using step [OF i] N_le [of "Suc i"] i by (simp add: lss'_def)
      assume "\<not> (\<exists>h\<in>set hs. hit sts ends ?segs (hunk_change h) i)" "is_hunk (?segs ! i)"
      then show "lss' ! i = lss ! i"
        using untouched_lines [OF ed i] i by (simp add: lss'_def N_def ren old hit_def)
    qed (auto simp: hit_def)
    then show "part_fits (lss' ! i) (map (\<lambda>i. seg_grow (gain sts ends ?segs hs i)
       (if \<exists>h\<in>set hs. hit sts ends ?segs (hunk_change h) i then mark_edited (?segs ! i) else ?segs ! i))
       [0..<length ?segs] ! i)" using i by (simp split del: if_split cong: if_cong)
  qed (simp add: lss'_def)
  moreover have "mf_lines (userEdit diff f t) = js_split t"
    using False by (simp add: userEdit_def Let_def split_beta)
  ultimately show ?thesis
    using lss(3) by (auto simp: file_ok_def new)
qed

section \<open>Sessions\<close>

lemma list_all2_chunks: "list_all2 part_fits (map (chunk_pane BasePane) cs) (map chunk_segment cs)"
proof (induction cs)
  case (Cons c cs)
  then show ?case
    by (cases c) (auto simp: part_fits_def even_counts_def pending_hunk_def contentOf_def)
qed simp

lemma join_chunks_pane:
  "join_chunks (\<lambda>b o' t. b) cs = pane_lines BasePane cs"
  "join_chunks (\<lambda>b o' t. o') cs = pane_lines (SidePane Ours) cs"
  "join_chunks (\<lambda>b o' t. t) cs = pane_lines (SidePane Theirs) cs"
  by (induction cs) (auto simp: join_chunks_def pane_lines_def split: chunk.splits)

fun askable :: "file_conflict \<Rightarrow> bool" where
  "askable (LinesConflict path chunks lh sh) \<longleftrightarrow> chunks \<noteq> []"
| "askable c \<longleftrightarrow> True"

lemma from_conflict_ok: "askable c \<Longrightarrow> file_ok (from_conflict c)"
proof (cases c)
  case (LinesConflict path cs lh sh)
  assume "askable c"
  then show ?thesis
    using LinesConflict list_all2_chunks [of cs]
    by (auto simp: file_ok_def Let_def join_chunks_pane pane_lines_def intro!: exI [of _ "map (chunk_pane BasePane) cs"])
next
  case (WholeConflict path l s lh sh)
  then show ?thesis
    by (auto simp: file_ok_def Let_def part_fits_def pending_hunk_def contentOf_def
        intro!: exI [of _ "[linesOf l]"])
next
  case (SettledConflict path content lh sh)
  then show ?thesis
    by (auto simp: file_ok_def Let_def part_fits_def even_counts_def list_all2_Cons2
        intro!: exI [of _ "[js_split (case content of None \<Rightarrow> [] | Some c \<Rightarrow> c)]"])
qed

text \<open>What a person does in the resolve view: decisions, typing, and undo to an earlier moment.\<close>

datatype merge_action =
    Take nat hunk_side
  | Dismiss nat hunk_side
  | Type string
  | Undo nat

type_synonym session = "merge_file \<times> merge_snapshot list"

text \<open>
  Every step leaves a snapshot of where the file stood before it; \<open>Undo n\<close> goes back to the
  \<open>n\<close>-th of them.
\<close>

fun session_step :: "diff_fn \<Rightarrow> session \<Rightarrow> merge_action \<Rightarrow> session" where
  "session_step diff (f, snaps) (Take n side) = (fst (take_side f n side), snaps @ [snapshot_of f])"
| "session_step diff (f, snaps) (Dismiss n side) = (fst (dismiss_side f n side), snaps @ [snapshot_of f])"
| "session_step diff (f, snaps) (Type t) = (userEdit diff f t, snaps @ [snapshot_of f])"
| "session_step diff (f, snaps) (Undo n) =
     (if n < length snaps
      then (case restore f (snaps ! n) of None \<Rightarrow> f | Some f' \<Rightarrow> f')
      else f, snaps @ [snapshot_of f])"

text \<open>The parts of a file that never change, and a snapshot that fits it.\<close>

definition frame where
  "frame f = (mf_conflict f, mf_path f, mf_left f, mf_right f, mf_deletedLeft f, mf_deletedRight f,
     mf_initial f, map shape (mf_segments f))"

definition snap_ok :: "merge_file \<Rightarrow> merge_snapshot \<Rightarrow> bool" where
  "snap_ok f sn \<longleftrightarrow>
     (let f' = f\<lparr>mf_lines := ms_lines sn, mf_segments := ms_segments sn\<rparr>
      in file_ok f' \<and> frame f' = frame f)"

definition session_inv :: "file_conflict \<Rightarrow> session \<Rightarrow> bool" where
  "session_inv c ses \<longleftrightarrow>
     file_ok (fst ses) \<and> frame (fst ses) = frame (from_conflict c) \<and> list_all (snap_ok (fst ses)) (snd ses)"

lemma frame_rewrite:
  "i < length (mf_segments f) \<Longrightarrow> mf_segments f ! i = HunkSeg h0 \<Longrightarrow> shape (HunkSeg h) = shape (HunkSeg h0) \<Longrightarrow>
   frame (fst (rewrite f i h)) = frame f"
  by (auto simp: frame_def rewrite_def Let_def map_update intro!: list_update_same_conv [THEN iffD2])

lemma set_side_simps [simp]:
  "hs_lines (set_side sd st h) = hs_lines h" "hs_edited (set_side sd st h) = hs_edited h"
  "hs_base (set_side sd st h) = hs_base h" "hs_ours (set_side sd st h) = hs_ours h"
  "hs_theirs (set_side sd st h) = hs_theirs h"
  by (cases sd; simp)+

lemma decision_ok:
  assumes "file_ok f" and "pending f n sd = Some (h0, i)"
    and "hs_lines h = hs_lines h0" "shape (HunkSeg h) = shape (HunkSeg h0)"
  shows "file_ok (fst (rewrite f i h))" "frame (fst (rewrite f i h)) = frame f"
  using rewrite_ok [OF assms(1) _ _ assms(3)] frame_rewrite [OF _ _ assms(4)] pendingD [OF assms(2)]
  by blast+

lemma take_ok: "file_ok f \<Longrightarrow> file_ok (fst (take_side f n sd)) \<and> frame (fst (take_side f n sd)) = frame f"
  and dismiss_ok: "file_ok f \<Longrightarrow> file_ok (fst (dismiss_side f n sd)) \<and> frame (fst (dismiss_side f n sd)) = frame f"
  by (auto simp: take_side_def dismiss_side_def Let_def split_beta split: option.splits
      intro: decision_ok)

lemma frame_edit: "line_diff diff \<Longrightarrow> file_ok f \<Longrightarrow> frame (userEdit diff f t) = frame f"
  using userEdit_shape [of diff f t] by (simp add: frame_def userEdit_def Let_def split_beta)

lemma snap_ok_restore:
  assumes "snap_ok f sn"
  shows "\<exists>f'. restore f sn = Some f' \<and> file_ok f' \<and> frame f' = frame f"
proof -
  have "length (ms_segments sn) = length (mf_segments f)"
    using assms by (auto simp: snap_ok_def frame_def Let_def dest: map_eq_imp_length_eq)
  then show ?thesis using assms by (simp add: restore_def snap_ok_def Let_def)
qed

lemma snap_ok_frame: "frame f = frame f' \<Longrightarrow> snap_ok f sn \<longleftrightarrow> snap_ok f' sn"
  by (simp add: snap_ok_def frame_def file_ok_def Let_def)

lemma snap_ok_self: "file_ok f \<Longrightarrow> snap_ok f (snapshot_of f)"
  by (simp add: snap_ok_def snapshot_of_def)

lemma session_step_keeps:
  assumes "line_diff diff" and "file_ok f" and "list_all (snap_ok f) snaps"
  shows "file_ok (fst (session_step diff (f, snaps) a)) \<and> frame (fst (session_step diff (f, snaps) a)) = frame f \<and>
    snd (session_step diff (f, snaps) a) = snaps @ [snapshot_of f]"
proof (cases a)
  case (Undo n)
  then show ?thesis
    using assms snap_ok_restore [of f "snaps ! n"] by (auto simp: list_all_length)
qed (use assms take_ok dismiss_ok frame_edit userEdit_ok in auto)

lemma session_machine:
  assumes "line_diff diff" and "askable c"
  shows "machine (from_conflict c, []) (session_step diff) (session_inv c)"
proof
  show "session_inv c (from_conflict c, [])"
    using from_conflict_ok [OF assms(2)] by (simp add: session_inv_def)
  fix ses a assume inv: "session_inv c ses"
  obtain f snaps where ses: "ses = (f, snaps)" by force
  have "list_all (snap_ok f) (snaps @ [snapshot_of f])"
    using inv snap_ok_self by (simp add: session_inv_def ses)
  moreover have "file_ok (fst (session_step diff (f, snaps) a))"
    and fr: "frame (fst (session_step diff (f, snaps) a)) = frame f"
    and "snd (session_step diff (f, snaps) a) = snaps @ [snapshot_of f]"
    using session_step_keeps [OF assms(1), of f snaps a] inv by (simp_all add: session_inv_def ses)
  ultimately show "session_inv c (session_step diff ses a)"
    using inv ext [of "snap_ok _" "snap_ok f", OF snap_ok_frame [OF fr]] by (simp add: session_inv_def ses)
qed

interpretation lcs_session: machine "(from_conflict c, [])" "session_step lcs_diff"
  "\<lambda>ses. askable c \<longrightarrow> session_inv c ses" for c
  using session_machine [OF lcs.line_diff_axioms]
  by unfold_locales (auto simp: machine_def)

section \<open>Decisions only\<close>

fun seg_text :: "chunk \<Rightarrow> segment \<Rightarrow> string list" where
  "seg_text (Settled ls chs) s = ls"
| "seg_text (Conflict b o' t) (HunkSeg h) = contentOf h"
| "seg_text (Conflict b o' t) (SettledSeg c chs) = []"

fun seg_from :: "chunk \<Rightarrow> segment \<Rightarrow> bool" where
  "seg_from (Settled ls chs) (SettledSeg c _) \<longleftrightarrow> cn_result c = int (length ls)"
| "seg_from (Conflict b o' t) (HunkSeg h) \<longleftrightarrow>
     \<not> hs_edited h \<and> hs_base h = b \<and> hs_ours h = o' \<and> hs_theirs h = t \<and>
     cn_result (hs_lines h) = int (length (contentOf h))"
| "seg_from _ _ \<longleftrightarrow> False"

definition decided :: "chunk list \<Rightarrow> merge_file \<Rightarrow> bool" where
  "decided cs f \<longleftrightarrow> list_all2 seg_from cs (mf_segments f) \<and> mf_lines f = concat (map2 seg_text cs (mf_segments f))"

lemma seg_from_fits: "seg_from c s \<Longrightarrow> part_fits (seg_text c s) s"
  by (cases "(c, s)" rule: seg_from.cases) (auto simp: part_fits_def)

lemma decided_fits: "list_all2 seg_from cs ss \<Longrightarrow> list_all2 part_fits (map2 seg_text cs ss) ss"
  by (induction rule: list_all2_induct) (auto simp: seg_from_fits)

lemma decided_rewrite:
  assumes "decided cs f" and "pending f n sd = Some (h0, i)"
    and "hs_lines h = hs_lines h0" "shape (HunkSeg h) = shape (HunkSeg h0)" "hs_edited h = hs_edited h0"
  shows "decided cs (fst (rewrite f i h))"
proof -
  have all: "list_all2 seg_from cs (mf_segments f)" and lines: "concat (map2 seg_text cs (mf_segments f)) = mf_lines f"
    using assms(1) by (simp_all add: decided_def)
  note p = pendingD [OF assms(2)]
  define h' where "h' = h\<lparr>hs_lines := (hs_lines h)\<lparr>cn_result := int (length (contentOf h))\<rparr>\<rparr>"
  have segs: "mf_segments (fst (rewrite f i h)) = (mf_segments f)[i := HunkSeg h']"
    by (simp add: rewrite_def Let_def h'_def)
  have len: "length cs = length (mf_segments f)" using all by (rule list_all2_lengthD)
  obtain b o' t where c: "cs ! i = Conflict b o' t" "seg_from (cs ! i) (HunkSeg h0)"
    using list_all2_nthD2 [OF all] p by (cases "cs ! i") force+
  then have h': "seg_from (cs ! i) (HunkSeg h')" "seg_text (cs ! i) (HunkSeg h') = contentOf h"
    using assms(3-5) by (auto simp: h'_def contentOf_def)
  then have "list_all2 seg_from (cs[i := cs ! i]) ((mf_segments f)[i := HunkSeg h'])"
    using all by (intro list_all2_update_cong)
  moreover have "(map2 seg_text cs (mf_segments f))[i := contentOf h] =
      map2 seg_text cs ((mf_segments f)[i := HunkSeg h'])"
    using h'(2) len p by (auto intro!: nth_equalityI simp: nth_list_update)
  ultimately show ?thesis
    using rewrite_parts(1) [OF decided_fits [OF all] lines _ _ assms(3)] p
    by (simp add: decided_def segs)
qed

fun is_decision :: "merge_action \<Rightarrow> bool" where
  "is_decision (Take n sd) \<longleftrightarrow> True"
| "is_decision (Dismiss n sd) \<longleftrightarrow> True"
| "is_decision _ \<longleftrightarrow> False"

lemma decided_step:
  assumes "decided cs f" and "is_decision a"
  shows "decided cs (fst (session_step diff (f, snaps) a))"
proof (cases a)
  case (Take n sd)
  then show ?thesis
    by (cases "pending f n sd") (auto simp: take_side_def Let_def split_beta assms(1) intro: decided_rewrite)
next
  case (Dismiss n sd)
  then show ?thesis
    by (cases "pending f n sd") (auto simp: dismiss_side_def split_beta assms(1) intro: decided_rewrite)
qed (use assms(2) in auto)

lemma decided_run:
  "decided cs (fst ses) \<Longrightarrow> list_all is_decision acts \<Longrightarrow>
   decided cs (fst (foldl (session_step diff) ses acts))"
proof (induction acts arbitrary: ses)
  case (Cons a acts)
  then show ?case using decided_step [of cs "fst ses" a diff "snd ses"] by simp
qed simp

lemma decided_start: "decided cs (from_conflict (LinesConflict path cs lh sh))"
proof -
  have "list_all2 seg_from cs (map chunk_segment cs) \<and>
      concat (map2 seg_text cs (map chunk_segment cs)) = join_chunks (\<lambda>b o' t. b) cs"
  proof (induction cs)
    case (Cons c cs)
    then show ?case
      by (cases c) (auto simp: join_chunks_def even_counts_def pending_hunk_def contentOf_def)
  qed (simp add: join_chunks_def)
  then show ?thesis by (simp add: decided_def Let_def)
qed

lemma decided_pane:
  assumes "list_all2 seg_from cs ss"
    and "\<And>h b o' t. HunkSeg h \<in> set ss \<Longrightarrow> seg_from (Conflict b o' t) (HunkSeg h) \<Longrightarrow> contentOf h = pick' b o' t"
  shows "concat (map2 seg_text cs ss) = join_chunks pick' cs"
  using assms
proof (induction rule: list_all2_induct)
  case (Cons c cs s ss)
  have "concat (map2 seg_text cs ss) = join_chunks pick' cs"
    by (rule Cons.IH) (rule Cons.prems; simp only: list.set_intros)
  moreover have "seg_text c s = (case c of Settled ls _ \<Rightarrow> ls | Conflict b o' t \<Rightarrow> pick' b o' t)"
  proof (cases c)
    case (Conflict b o' t)
    then obtain h where s: "s = HunkSeg h" using Cons.hyps(1) by (cases s) auto
    then have "contentOf h = pick' b o' t" using Cons.prems [of h b o' t] Cons.hyps(1) Conflict by simp
    then show ?thesis by (simp add: Conflict s)
  qed simp
  ultimately show ?case by (simp add: join_chunks_def)
qed (simp add: join_chunks_def)

lemma hunks_from_mem: "HunkSeg h \<in> set ss \<Longrightarrow> \<exists>i' k'. (h, i', k') \<in> set (hunks_from i k ss)"
  by (induction i k ss rule: hunks_from.induct) fastforce+

section \<open>Folds\<close>

lemma gaps_ok:
  "sorted (map fst ks) \<Longrightarrow> (p, q) \<in> set (gaps n from' ks) \<Longrightarrow>
   from' \<le> p \<and> FOLD_MIN \<le> q - p \<and> q \<le> n \<and> (\<forall>(a, b)\<in>set ks. b \<le> p \<or> q \<le> a)"
proof (induction n from' ks rule: gaps.induct)
  case (2 n from' a b ks)
  show ?case
  proof (cases "(p, q) \<in> set (gaps n (max from' b) ks)")
    case True
    then show ?thesis using 2 by fastforce
  next
    case False
    then have "p = from'" "q = min a n" "FOLD_MIN \<le> min a n - from'"
      using "2.prems"(2) by (auto split: if_splits)
    then show ?thesis using "2.prems"(1) by fastforce
  qed
qed simp

lemma gaps_lower: "(p, q) \<in> set (gaps n from' ks) \<Longrightarrow> from' \<le> p"
  by (induction n from' ks rule: gaps.induct) (fastforce split: if_splits)+

lemma gaps_apart:
  "\<forall>(a, b)\<in>set ks. a \<le> b \<Longrightarrow> sorted_wrt (\<lambda>x y. snd x \<le> fst y) (gaps n from' ks)"
proof (induction n from' ks rule: gaps.induct)
  case (2 n from' a b ks)
  have "b \<le> fst y" if "y \<in> set (gaps n (max from' b) ks)" for y
    using gaps_lower [of "fst y" "snd y" n "max from' b" ks] that by simp
  moreover have "a \<le> b" using 2 by simp
  ultimately have "\<forall>y\<in>set (gaps n (max from' b) ks). min a n \<le> fst y"
    by (meson min.coboundedI1 order_trans)
  moreover have "sorted_wrt (\<lambda>x y. snd x \<le> fst y) (gaps n (max from' b) ks)" using 2 by simp
  ultimately show ?case by (simp add: sorted_wrt_append)
qed simp

lemma gaps_distinct:
  assumes "\<forall>(a, b)\<in>set ks. a \<le> b" and "sorted (map fst ks)"
  shows "distinct (map fst (gaps n from' ks))"
proof -
  have "sorted_wrt (\<lambda>x y. snd x \<le> fst y) (gaps n from' ks)"
    using gaps_apart [OF assms(1)] .
  moreover have "fst x < snd x" if "x \<in> set (gaps n from' ks)" for x
    using gaps_ok [OF assms(2), of "fst x" "snd x" n from'] that by (simp add: FOLD_MIN_def)
  ultimately have "sorted_wrt (\<lambda>x y. fst x < fst y) (gaps n from' ks)"
    by (elim sorted_wrt_mono_rel [rotated]) fastforce
  then have "sorted_wrt (<) (map fst (gaps n from' ks))"
    by (simp add: sorted_wrt_map)
  then show ?thesis using strict_sorted_iff by blast
qed

lemma kept_ranges_sorted [simp]: "sorted (map fst (kept_ranges fi la n chs))"
  by (simp add: kept_ranges_def)

lemma set_kept_ranges:
  "set (kept_ranges fi la n chs) =
     (if fi then {} else {(0, FOLD_CONTEXT)}) \<union> {(n - (if la then 1 else FOLD_CONTEXT), n)} \<union>
     (\<lambda>ch. (int (sc_start ch) - FOLD_CONTEXT, int (sc_start ch) + int (sc_count ch) + FOLD_CONTEXT)) ` set chs"
  unfolding kept_ranges_def set_sort by auto

lemma kept_ranges_le: "\<forall>(a, b)\<in>set (kept_ranges fi la n chs). a \<le> b"
  by (auto simp: set_kept_ranges FOLD_CONTEXT_def)

lemma fold_key_inj: "0 \<le> x \<Longrightarrow> 0 \<le> y \<Longrightarrow> fold_key i x = fold_key j y \<longleftrightarrow> i = j \<and> x = y"
proof -
  assume xy: "0 \<le> x" "0 \<le> y"
  have colon: "CHR '':'' \<notin> set (js_nat k)" for k using set_js_nat [of k] by auto
  have "takeWhile ((\<noteq>) CHR '':'') (fold_key k z) = js_nat k" for k z
    using colon [of k] by (simp add: fold_key_def takeWhile_append2 takeWhile_eq_all_conv takeWhile_tail)
      (metis takeWhile_append2 takeWhile.simps(2) append_Nil2)
  then have "fold_key i x = fold_key j y \<Longrightarrow> i = j" by (metis js_nat_inj)
  then show ?thesis using xy by (auto simp: fold_key_def)
qed

lemma seg_folds_ok:
  assumes "i < length (mf_segments f)" and "fo \<in> set (seg_folds f i)"
  obtains c chs p where "mf_segments f ! i = SettledSeg c chs" "aligned (SettledSeg c chs)"
    "fo_key fo = fold_key i p" "0 \<le> p" "FOLD_MIN \<le> fo_count fo"
    "fo_start fo = \<lparr>cn_left = fst (starts f PaneLeft) ! i + p,
       cn_result = fst (starts f PaneResult) ! i + p, cn_right = fst (starts f PaneRight) ! i + p\<rparr>"
    "i \<noteq> 0 \<Longrightarrow> FOLD_CONTEXT \<le> p"
    "p + fo_count fo \<le> cn_result c - (if i = length (mf_segments f) - 1 then 1 else FOLD_CONTEXT)"
    "\<forall>ch\<in>set chs. p + fo_count fo \<le> int (sc_start ch) - FOLD_CONTEXT \<or>
       int (sc_start ch) + int (sc_count ch) + FOLD_CONTEXT \<le> p"
proof -
  obtain c chs where s: "mf_segments f ! i = SettledSeg c chs" "aligned (SettledSeg c chs)"
    using assms(2) by (cases "mf_segments f ! i") (auto simp: seg_folds_def split: if_splits)
  let ?ks = "kept_ranges (i = 0) (i = length (mf_segments f) - 1) (cn_result c) chs"
  obtain p q where pq: "(p, q) \<in> set (gaps (cn_result c) 0 ?ks)" "fo_key fo = fold_key i p"
    "fo_count fo = q - p" "fo_start fo = \<lparr>cn_left = fst (starts f PaneLeft) ! i + p,
       cn_result = fst (starts f PaneResult) ! i + p, cn_right = fst (starts f PaneRight) ! i + p\<rparr>"
    using assms(2) s by (auto simp: seg_folds_def Let_def)
  note g = gaps_ok [OF kept_ranges_sorted pq(1)]
  have k: "b \<le> p \<or> q \<le> a" if "(a, b) \<in> set ?ks" for a b using g that by blast
  have len: "4 \<le> q - p" "0 \<le> p" "q \<le> cn_result c" using g by (auto simp: FOLD_MIN_def)
  show ?thesis
  proof (rule that [OF s pq(2) len(2)])
    show "FOLD_MIN \<le> fo_count fo" using len by (simp add: pq FOLD_MIN_def)
    show "FOLD_CONTEXT \<le> p" if "i \<noteq> 0"
      using k [of 0 FOLD_CONTEXT] that len by (simp add: set_kept_ranges)
    show "p + fo_count fo \<le> cn_result c - (if i = length (mf_segments f) - 1 then 1 else FOLD_CONTEXT)"
      using k [of "cn_result c - (if i = length (mf_segments f) - 1 then 1 else FOLD_CONTEXT)" "cn_result c"] len
      by (simp add: set_kept_ranges pq)
    show "\<forall>ch\<in>set chs. p + fo_count fo \<le> int (sc_start ch) - FOLD_CONTEXT \<or>
       int (sc_start ch) + int (sc_count ch) + FOLD_CONTEXT \<le> p"
    proof
      fix ch assume "ch \<in> set chs"
      then have "(int (sc_start ch) - FOLD_CONTEXT,
          int (sc_start ch) + int (sc_count ch) + FOLD_CONTEXT) \<in> set ?ks"
        by (auto simp: set_kept_ranges)
      from k [OF this] show "p + fo_count fo \<le> int (sc_start ch) - FOLD_CONTEXT \<or>
          int (sc_start ch) + int (sc_count ch) + FOLD_CONTEXT \<le> p"
        by (auto simp: pq)
    qed
  qed (rule pq)
qed

lemma distinct_concat_upt:
  assumes "\<And>i. i < n \<Longrightarrow> distinct (g i)"
    and "\<And>i j. i < n \<Longrightarrow> j < n \<Longrightarrow> i \<noteq> j \<Longrightarrow> set (g i) \<inter> set (g j) = {}"
  shows "distinct (concat (map g [0..<n]))"
  using assms
proof (induction n)
  case (Suc n)
  have "distinct (concat (map g [0..<n]))"
    by (rule Suc.IH) (use Suc.prems in \<open>simp_all\<close>)
  moreover have "set (g i) \<inter> set (g n) = {}" if "i < n" for i
    using Suc.prems(2) [of i n] that by simp
  ultimately show ?case using Suc.prems(1) [of n] by fastforce
qed simp

lemma fold_keys_distinct: "distinct (map fo_key (folds f))"
proof -
  have one: "distinct (map fo_key (seg_folds f i))" if i: "i < length (mf_segments f)" for i
  proof (cases "\<exists>c chs. mf_segments f ! i = SettledSeg c chs \<and> aligned (SettledSeg c chs)")
    case True
    then obtain c chs where s: "mf_segments f ! i = SettledSeg c chs" "aligned (SettledSeg c chs)" by blast
    let ?g = "gaps (cn_result c) 0 (kept_ranges (i = 0) (i = length (mf_segments f) - 1) (cn_result c) chs)"
    have "map fo_key (seg_folds f i) = map (fold_key i) (map fst ?g)"
      using s by (simp add: seg_folds_def Let_def comp_def split_beta)
    moreover have "inj_on (fold_key i) (set (map fst ?g))"
    proof (rule inj_onI)
      fix x y assume xy: "x \<in> set (map fst ?g)" "y \<in> set (map fst ?g)" "fold_key i x = fold_key i y"
      then have "0 \<le> x" "0 \<le> y" using gaps_lower by fastforce+
      with xy show "x = y" by (simp add: fold_key_inj)
    qed
    moreover have "distinct (map fst ?g)"
      by (rule gaps_distinct [OF kept_ranges_le kept_ranges_sorted])
    ultimately show ?thesis by (metis distinct_map)
  qed (cases "mf_segments f ! i"; auto simp: seg_folds_def)
  have "fo_key x \<noteq> fo_key y" if "i < length (mf_segments f)" "j < length (mf_segments f)" "i \<noteq> j"
    "x \<in> set (seg_folds f i)" "y \<in> set (seg_folds f j)" for i j x y
    using seg_folds_ok [OF that(1,4)] seg_folds_ok [OF that(2,5)] that(3) by (metis fold_key_inj)
  then have "set (map fo_key (seg_folds f i)) \<inter> set (map fo_key (seg_folds f j)) = {}"
    if "i < length (mf_segments f)" "j < length (mf_segments f)" "i \<noteq> j" for i j
    using that by fastforce
  then have "distinct (concat (map (\<lambda>i. map fo_key (seg_folds f i)) [0..<length (mf_segments f)]))"
    using one by (intro distinct_concat_upt)
  then show ?thesis by (simp add: folds_def map_concat comp_def)
qed

section \<open>Properties\<close>

text \<open>What a session makes of a conflict.\<close>

abbreviation run :: "diff_fn \<Rightarrow> file_conflict \<Rightarrow> merge_action list \<Rightarrow> merge_file" where
  "run diff c acts \<equiv> fst (foldl (session_step diff) (from_conflict c, []) acts)"

text \<open>
  C17: whatever is taken, dismissed, typed and undone, in any order, the segments keep adding up
  to the result: it cuts into one run of lines per segment, as long as the segment counts, and the
  run of every hunk nobody typed into is what its two sides say. Everything else about the file
  (its path, its panes, the hunks' texts and the sides' line counts) stays as it was opened.
\<close>

theorem merge_session_invariant:
  assumes "line_diff diff" and "askable c"
  shows "file_ok (run diff c acts) \<and> frame (run diff c acts) = frame (from_conflict c)"
  using machine.inv_run [OF session_machine [OF assms], of acts] by (simp add: session_inv_def)

definition example_conflict :: file_conflict where
  "example_conflict =
     LinesConflict ''f'' [Settled [''a''] None, Conflict [''b''] [''x''] [''y''], Settled [''c''] None]
       (Some ''h1'') (Some ''h2'')"

definition example_actions :: "merge_action list" where
  "example_actions = [Take 0 LeftSide, Type (js_join [''a'', ''x'', ''z'', ''c'']), Undo 1, Dismiss 0 RightSide]"

theorem merge_session_invariant_witness:
  "file_ok (run lcs_diff example_conflict example_actions) \<and>
   frame (run lcs_diff example_conflict example_actions) = frame (from_conflict example_conflict) \<and>
   result (run lcs_diff example_conflict example_actions) = js_join [''a'', ''x'', ''c'']"
proof -
  have "result (run lcs_diff example_conflict example_actions) = js_join [''a'', ''x'', ''c'']"
    by code_simp
  moreover have "askable example_conflict" by (simp add: example_conflict_def)
  ultimately show ?thesis
    using merge_session_invariant [OF lcs.line_diff_axioms, of example_conflict example_actions] by simp
qed

text \<open>
  The edit a decision hands to the editor turns the result before it into the result after
  it, and is none exactly when the text did not change; a decision that is not taken (the side is
  decided already, or the hunk typed over) changes nothing at all.
\<close>

lemma decision_edit_applies:
  "(case take_side f n sd of
      (f', None) \<Rightarrow> f' = f
    | (f', Some d) \<Rightarrow> apply_edit (de_edit d) (result f) = result f' \<and> (de_edit d = None) = (result f = result f')) \<and>
   (case dismiss_side f n sd of
      (f', None) \<Rightarrow> f' = f
    | (f', Some d) \<Rightarrow> apply_edit (de_edit d) (result f) = result f' \<and> (de_edit d = None) = (result f = result f'))"
  by (auto simp: take_side_def dismiss_side_def Let_def rewrite_def apply_editBetween editBetween_None
      split: option.splits)

text \<open>
  Deciding every hunk for one side gives that side's file. After decisions alone, the result
  is this device's text when the left side of every hunk is taken and the right is not, the other
  device's text the other way round, and the text the view opened on when nothing is taken.
\<close>

lemma decisions_give_panes:
  assumes "list_all is_decision acts"
  shows "let f0 = from_conflict (LinesConflict path cs lh sh);
      f = run diff (LinesConflict path cs lh sh) acts
    in ((\<forall>(h, _)\<in>set (hunks f). hs_left h = Taken \<and> hs_right h \<noteq> Taken) \<longrightarrow> result f = mf_left f0) \<and>
       ((\<forall>(h, _)\<in>set (hunks f). hs_left h \<noteq> Taken \<and> hs_right h = Taken) \<longrightarrow> result f = mf_right f0) \<and>
       ((\<forall>(h, _)\<in>set (hunks f). hs_left h \<noteq> Taken \<and> hs_right h \<noteq> Taken) \<longrightarrow> result f = mf_initial f0)"
proof -
  define f where "f = run diff (LinesConflict path cs lh sh) acts"
  have d: "decided cs f"
    unfolding f_def using decided_run [OF _ assms] decided_start by (metis fst_conv)
  have pane: "result f = js_join (join_chunks pick' cs)"
    if all: "\<forall>(h, _)\<in>set (hunks f). P (hs_left h) (hs_right h)"
      and P: "\<And>h. P (hs_left h) (hs_right h) \<Longrightarrow> contentOf h = pick' (hs_base h) (hs_ours h) (hs_theirs h)"
    for pick' P
  proof -
    have "contentOf h = pick' b o' t"
      if "HunkSeg h \<in> set (mf_segments f)" "seg_from (Conflict b o' t) (HunkSeg h)" for h b o' t
      using hunks_from_mem [OF that(1), of 0 0] all P [of h] that(2) by (auto simp: hunks_def)
    then show ?thesis
      using d decided_pane [of cs "mf_segments f" pick'] by (simp add: decided_def result_def)
  qed
  note l = pane [of "\<lambda>l r. l = Taken \<and> r \<noteq> Taken" "\<lambda>b o' t. o'"]
    and r = pane [of "\<lambda>l r. l \<noteq> Taken \<and> r = Taken" "\<lambda>b o' t. t"]
    and n = pane [of "\<lambda>l r. l \<noteq> Taken \<and> r \<noteq> Taken" "\<lambda>b o' t. b"]
  have panes: "mf_left (from_conflict (LinesConflict path cs lh sh)) = js_join (join_chunks (\<lambda>b o' t. o') cs)"
    "mf_right (from_conflict (LinesConflict path cs lh sh)) = js_join (join_chunks (\<lambda>b o' t. t) cs)"
    "mf_initial (from_conflict (LinesConflict path cs lh sh)) = js_join (join_chunks (\<lambda>b o' t. b) cs)"
    by (simp_all add: Let_def)
  show ?thesis
    unfolding Let_def f_def [symmetric] panes
    by (intro conjI impI) (erule l r n, simp add: contentOf_def)+
qed

lemma decisions_give_panes_example:
  "result (run lcs_diff example_conflict [Take 0 RightSide, Dismiss 0 LeftSide]) = js_join [''a'', ''y'', ''c'']"
proof -
  let ?acts = "[Take 0 RightSide, Dismiss 0 LeftSide]"
  have "\<forall>(h, _)\<in>set (hunks (run lcs_diff example_conflict ?acts)). hs_left h \<noteq> Taken \<and> hs_right h = Taken"
    by code_simp
  moreover have "mf_right (from_conflict example_conflict) = js_join [''a'', ''y'', ''c'']" by code_simp
  moreover have "list_all is_decision ?acts" by simp
  note decisions_give_panes [OF this, where diff = lcs_diff and path = "''f''" and
      cs = "[Settled [''a''] None, Conflict [''b''] [''x''] [''y''], Settled [''c''] None]"
      and lh = "Some ''h1''" and sh = "Some ''h2''", folded example_conflict_def, unfolded Let_def]
  ultimately show ?thesis by (simp only:)
qed

text \<open>
  Undo is exact. A snapshot taken at any moment of a session brings the file back to that
  moment, whatever was done in between.
\<close>

lemma undo_restores:
  assumes "line_diff diff" and "askable c"
  shows "restore (run diff c (acts @ later)) (snapshot_of (run diff c acts)) = Some (run diff c acts)"
proof -
  let ?f = "run diff c acts" and ?g = "run diff c (acts @ later)"
  have inv: "frame ?f = frame (from_conflict c)" "frame ?g = frame (from_conflict c)"
    using machine.inv_run [OF session_machine [OF assms], of acts]
      machine.inv_run [OF session_machine [OF assms], of "acts @ later"]
    by (simp_all add: session_inv_def)
  then have "map shape (mf_segments ?f) = map shape (mf_segments ?g)" by (simp add: frame_def)
  then have "length (mf_segments ?f) = length (mf_segments ?g)" by (rule map_eq_imp_length_eq)
  moreover have "?g\<lparr>mf_lines := mf_lines ?f, mf_segments := mf_segments ?f\<rparr> = ?f"
    using inv by (intro merge_file.equality) (simp_all add: frame_def)
  ultimately show ?thesis by (simp add: restore_def snapshot_of_def)
qed

lemma undo_restores_example:
  "restore (run lcs_diff example_conflict ([Take 0 LeftSide] @ example_actions))
     (snapshot_of (run lcs_diff example_conflict [Take 0 LeftSide])) =
   Some (run lcs_diff example_conflict [Take 0 LeftSide])"
  by (rule undo_restores [OF lcs.line_diff_axioms]) (simp add: example_conflict_def)

text \<open>
  What is folded away. Every fold lies in one settled run whose three panes line up, at least
  four lines long, three lines away from every hunk around the run and from every change inside
  it, never over the file's last line, at the same place in the three panes; and no two folds
  share a key.
\<close>

lemma folds_hide_only_settled:
  "distinct (map fo_key (folds f)) \<and>
   (\<forall>fo\<in>set (folds f). \<exists>i c chs p.
      i < length (mf_segments f) \<and> mf_segments f ! i = SettledSeg c chs \<and> aligned (SettledSeg c chs) \<and>
      fo_key fo = fold_key i p \<and> 0 \<le> p \<and> 4 \<le> fo_count fo \<and>
      (i \<noteq> 0 \<longrightarrow> 3 \<le> p) \<and>
      p + fo_count fo \<le> cn_result c - (if i = length (mf_segments f) - 1 then 1 else 3) \<and>
      (\<forall>ch\<in>set chs. p + fo_count fo \<le> int (sc_start ch) - 3 \<or>
         int (sc_start ch) + int (sc_count ch) + 3 \<le> p) \<and>
      fo_start fo = \<lparr>cn_left = fst (starts f PaneLeft) ! i + p,
        cn_result = fst (starts f PaneResult) ! i + p, cn_right = fst (starts f PaneRight) ! i + p\<rparr>)"
proof (intro conjI ballI fold_keys_distinct)
  fix fo assume "fo \<in> set (folds f)"
  then obtain i where i: "i < length (mf_segments f)" "fo \<in> set (seg_folds f i)"
    by (auto simp: folds_def)
  show "\<exists>i c chs p.
      i < length (mf_segments f) \<and> mf_segments f ! i = SettledSeg c chs \<and> aligned (SettledSeg c chs) \<and>
      fo_key fo = fold_key i p \<and> 0 \<le> p \<and> 4 \<le> fo_count fo \<and>
      (i \<noteq> 0 \<longrightarrow> 3 \<le> p) \<and>
      p + fo_count fo \<le> cn_result c - (if i = length (mf_segments f) - 1 then 1 else 3) \<and>
      (\<forall>ch\<in>set chs. p + fo_count fo \<le> int (sc_start ch) - 3 \<or>
         int (sc_start ch) + int (sc_count ch) + 3 \<le> p) \<and>
      fo_start fo = \<lparr>cn_left = fst (starts f PaneLeft) ! i + p,
        cn_result = fst (starts f PaneResult) ! i + p, cn_right = fst (starts f PaneRight) ! i + p\<rparr>"
    by (rule seg_folds_ok [OF i]) (use i(1) in \<open>unfold FOLD_MIN_def FOLD_CONTEXT_def, blast\<close>)
qed

definition example_long :: file_conflict where
  "example_long = LinesConflict ''f'' [Settled (replicate 9 ''s'') None, Conflict [''b''] [''x''] [''y'']] None None"

lemma folds_hide_only_settled_example:
  "\<exists>fo\<in>set (folds (from_conflict example_long)). 4 \<le> fo_count fo \<and> fo_count fo \<le> 6"
proof -
  let ?f = "from_conflict example_long"
  let ?fo = "\<lparr>fo_key = ''0:0'', fo_start = \<lparr>cn_left = 0, cn_result = 0, cn_right = 0\<rparr>, fo_count = 6\<rparr>"
  have "folds ?f = [?fo]" by code_simp
  then have "?fo \<in> set (folds ?f)" by simp
  moreover from this have "4 \<le> fo_count ?fo"
    using folds_hide_only_settled [of ?f] by blast
  ultimately show ?thesis by (intro bexI [of _ ?fo]) simp_all
qed

text \<open>
  A file without hunks is answered with one of two files. Taking a side answers with exactly
  that side's copy: its text, byte for byte, or the deletion of the file where that side deleted
  it, also when the other side holds an empty file.
\<close>

lemma take_whole:
  fixes path l s lh sh sd
  defines "f \<equiv> fst (take_side (from_conflict (WholeConflict path l s lh sh)) 0 sd)"
  shows "mf_lines f = linesOf (case sd of LeftSide \<Rightarrow> l | RightSide \<Rightarrow> s)"
    "\<exists>h. mf_segments f = [HunkSeg h] \<and> \<not> hs_edited h \<and>
       hs_left h = (if sd = LeftSide then Taken else Dismissed) \<and>
       hs_right h = (if sd = LeftSide then Dismissed else Taken)"
    "mf_conflict f = WholeConflict path l s lh sh" "mf_deletedLeft f = (l = None)"
    "mf_deletedRight f = (s = None)"
proof -
  let ?f = "from_conflict (WholeConflict path l s lh sh)"
  let ?h = "pending_hunk (linesOf l) (linesOf l) (linesOf s)"
  have p: "pending ?f 0 sd = Some (?h, 0)"
    by (cases sd) (simp_all add: pending_def hunks_def Let_def pending_hunk_def)
  have "hs_lines ?h = \<lparr>cn_left = int (length (linesOf l)), cn_result = int (length (linesOf l)),
      cn_right = int (length (linesOf s))\<rparr>" by (simp add: pending_hunk_def)
  moreover have "mf_lines ?f = linesOf l" "is_whole (mf_conflict ?f)" "fst (starts ?f PaneResult) ! 0 = 0"
    by (simp_all add: Let_def starts_def)
  moreover have "js_splice xs 0 (int (length xs)) ys = ys" for xs ys :: "string list"
    using js_splice_parts [of "[]" xs "[]" ys] by simp
  ultimately show "mf_lines f = linesOf (case sd of LeftSide \<Rightarrow> l | RightSide \<Rightarrow> s)"
    unfolding f_def take_side_def p by (cases sd) (simp_all add: Let_def rewrite_def contentOf_def pending_hunk_def)
  show "\<exists>h. mf_segments f = [HunkSeg h] \<and> \<not> hs_edited h \<and>
       hs_left h = (if sd = LeftSide then Taken else Dismissed) \<and>
       hs_right h = (if sd = LeftSide then Dismissed else Taken)"
    unfolding f_def take_side_def p by (cases sd) (simp_all add: Let_def rewrite_def pending_hunk_def)
  show "mf_conflict f = WholeConflict path l s lh sh" "mf_deletedLeft f = (l = None)"
    "mf_deletedRight f = (s = None)"
    unfolding f_def take_side_def p by (simp_all add: Let_def rewrite_def)
qed

lemma taking_a_side_answers_its_copy:
  "rf_content (resolved (fst (take_side (from_conflict (WholeConflict path l s lh sh)) 0 LeftSide))) = l \<and>
   rf_content (resolved (fst (take_side (from_conflict (WholeConflict path l s lh sh)) 0 RightSide))) = s"
proof -
  have "rf_content (resolved (fst (take_side (from_conflict (WholeConflict path l s lh sh)) 0 sd))) =
      (case sd of LeftSide \<Rightarrow> l | RightSide \<Rightarrow> s)" for sd
  proof -
    define f where "f = fst (take_side (from_conflict (WholeConflict path l s lh sh)) 0 sd)"
    note w = take_whole [of path l s lh sh sd, folded f_def]
    have "result f = (case (case sd of LeftSide \<Rightarrow> l | RightSide \<Rightarrow> s) of None \<Rightarrow> [] | Some c \<Rightarrow> c)"
      by (cases "case sd of LeftSide \<Rightarrow> l | RightSide \<Rightarrow> s") (simp_all add: result_def w(1) linesOf_def)
    then show ?thesis
      unfolding f_def [symmetric] resolved_def deletes_def
      using w(2-5) by (cases sd; cases l; cases s) auto
  qed
  from this [of LeftSide] this [of RightSide] show ?thesis by simp
qed

end
