(* ===== verification/Merge_Settled.thy ===== *)
theory Merge_Settled
  imports Merge_Plan_Correct Merge_File_Correct
begin

text \<open>
  The merge plan and the resolve view together: one session of the view per file the plan asks about settles the plan.
\<close>

lemma map_of_resolvedFiles:
  assumes "distinct (map mf_path files)" and "f \<in> set files"
  shows "map_of (resolvedFiles files) (mf_path f) = Some (resolved f)"
proof -
  have "map_of (fold (\<lambda>g m. obj_set (mf_path g) (resolved g) m) files m) (mf_path f) =
      (if f \<in> set files then Some (resolved f) else map_of m (mf_path f))"
    if "distinct (map mf_path files)" "f \<in> set files \<or> mf_path f \<notin> mf_path ` set files" for m
    using that
  proof (induction files arbitrary: m)
    case (Cons g files)
    show ?case
    proof (cases "f = g")
      case True
      then show ?thesis using Cons by auto
    next
      case False
      then have "mf_path f \<noteq> mf_path g" using Cons.prems by (auto simp: image_iff)
      then show ?thesis using Cons False by auto
    qed
  qed simp
  then show ?thesis using assms by (simp add: resolvedFiles_def)
qed

lemma merge3_conflicted_neq_Nil: "merge3 diff b x y = Conflicted cs \<Longrightarrow> cs \<noteq> []"
  by (auto simp: merge3_def Let_def settle_def split: if_splits)

lemma both_changed_askable: "both_changed diff i p = Inr c \<Longrightarrow> askable c"
  by (auto simp: both_changed_def Let_def dest: merge3_conflicted_neq_Nil
      split: option.splits if_splits merge3_result.splits)

lemma planMerge_askable:
  assumes "c \<in> set (mp_conflicts (planMerge parse stringify diff i))"
  shows "askable c"
proof -
  from assms obtain p where "c \<in> set (asked_at parse stringify diff i p)"
    by (auto simp: mp_conflicts_planMerge)
  then show ?thesis
    by (cases "both_changed diff i p")
      (auto simp: asked_at_def decide_def Let_def both_changed_askable split: if_splits)
qed

lemma run_path:
  assumes "line_diff diff" and "askable c"
  shows "mf_path (run diff c acts) = fc_path c"
proof -
  have "frame (run diff c acts) = frame (from_conflict c)"
    using machine.inv_run [OF session_machine [OF assms], of acts] by (simp add: session_inv_def)
  moreover have "mf_path (from_conflict c) = fc_path c" by (cases c) (simp_all add: Let_def)
  ultimately show ?thesis by (simp add: frame_def)
qed

lemma distinct_conflict_paths:
  "distinct (map fc_path (mp_conflicts (planMerge parse stringify diff i)))"
  by (simp add: map_fc_path_conflicts plan_paths_def)

text \<open>
  C23: a merge, end to end. Whatever a person does in the resolve view, one session per file the
  plan asks about, handing the files' answers back settles the plan: it is never refused, every
  conflicted path holds exactly what its session answered (nothing, where that is a deletion), and
  every other path holds what the plan decided.
\<close>

theorem resolve_view_settles_plan:
  assumes "line_diff diff"
  shows "let plan = planMerge parse stringify diff i;
      files = map (\<lambda>c. run diff c (acts c)) (mp_conflicts plan)
    in \<exists>fs. settleConflicts plan (Resolved (resolvedFiles files)) local server = Inr fs \<and>
      (\<forall>c\<in>set (mp_conflicts plan). map_of fs (fc_path c) = rf_content (resolved (run diff c (acts c)))) \<and>
      (\<forall>p. p \<notin> fc_path ` set (mp_conflicts plan) \<longrightarrow> map_of fs p = map_of (mp_files plan) p)"
proof -
  define plan where "plan = planMerge parse stringify diff i"
  define files where "files = map (\<lambda>c. run diff c (acts c)) (mp_conflicts plan)"
  have path: "mf_path (run diff c (acts c)) = fc_path c" if "c \<in> set (mp_conflicts plan)" for c
    using run_path [OF assms] planMerge_askable that by (simp add: plan_def)
  then have "map mf_path files = map fc_path (mp_conflicts plan)" by (simp add: files_def)
  then have "distinct (map mf_path files)" using distinct_conflict_paths by (simp add: plan_def)
  then have answer: "map_of (resolvedFiles files) (fc_path c) = Some (resolved (run diff c (acts c)))"
    if "c \<in> set (mp_conflicts plan)" for c
    using map_of_resolvedFiles [of files "run diff c (acts c)"] path [OF that] that by (simp add: files_def)
  then have "\<forall>c\<in>set (mp_conflicts plan). obj_has (resolvedFiles files) (fc_path c)"
    by (simp add: obj_has_def)
  from settle_plan_answers [OF this [unfolded plan_def], folded plan_def, of local server] obtain fs
    where fs: "settleConflicts plan (Resolved (resolvedFiles files)) local server = Inr fs"
      "\<And>p. map_of fs p = (if p \<in> fc_path ` set (mp_conflicts plan)
        then rf_content (the (map_of (resolvedFiles files) p)) else map_of (mp_files plan) p)" by blast
  have "\<exists>fs. settleConflicts plan (Resolved (resolvedFiles files)) local server = Inr fs \<and>
      (\<forall>c\<in>set (mp_conflicts plan). map_of fs (fc_path c) = rf_content (resolved (run diff c (acts c)))) \<and>
      (\<forall>p. p \<notin> fc_path ` set (mp_conflicts plan) \<longrightarrow> map_of fs p = map_of (mp_files plan) p)"
    using fs answer by (intro exI [of _ fs]) simp
  then show ?thesis unfolding Let_def plan_def files_def .
qed

theorem resolve_view_settles_plan_witness:
  "\<exists>fs. settleConflicts (planMerge (\<lambda>_. None) (\<lambda>_. []) lcs_diff example_input)
      (Resolved (resolvedFiles [run lcs_diff
         (WholeConflict ''f'' (Some ''x'') (Some ''y'') (Some ''h1'') (Some ''h2'')) [Take 0 RightSide]]))
      [] [] = Inr fs \<and> map_of fs ''f'' = Some ''y''"
proof -
  let ?plan = "planMerge (\<lambda>_. None) (\<lambda>_. []) lcs_diff example_input"
  let ?c = "WholeConflict ''f'' (Some ''x'') (Some ''y'') (Some ''h1'') (Some ''h2'')"
  have c: "mp_conflicts ?plan = [?c]" by code_simp
  have "rf_content (resolved (run lcs_diff ?c [Take 0 RightSide])) = Some ''y''" by code_simp
  then show ?thesis
    using resolve_view_settles_plan [OF lcs.line_diff_axioms, of "\<lambda>_. None" "\<lambda>_. []" example_input
        "\<lambda>_. [Take 0 RightSide]" "[]" "[]"]
    by (simp only: Let_def c list.map list.set ball_simps) auto
qed

end
