(* ===== verification/Flow_Stage.thy ===== *)
theory Flow_Stage
  imports Json
begin

text \<open>
  The dev loop as state: \<^verbatim>\<open>views/flow/state/stage.ts\<close>. The reducer \<^verbatim>\<open>PgFlow.reduce\<close> over
  \<^verbatim>\<open>FlowState\<close>, the counting of compiler errors, and \<^verbatim>\<open>PgFlow.init\<close>, which turns the client's
  own events (commands starting and ending, build output arriving, the workspace switching) into
  flow events. The build output it listens to is \<^verbatim>\<open>views/sidebar/assistant/bridge/build-output.ts\<close>.
  Times are integers (milliseconds).
\<close>

section \<open>State and events\<close>

datatype stage = Write | Build | Deploy | Interact

datatype stage_status = Upcoming | Active | Done | Failed | Running

datatype run_kind = BuildRun | DeployRun

datatype build_failure =
    NoAnswer string
  | OtherFailure string
  | EmptySource string string

record flow_state =
  fs_stage :: stage
  fs_build :: stage_status
  fs_buildSettled :: stage_status
  fs_deploy :: stage_status
  fs_interact :: stage_status
  fs_buildErrorCount :: nat
  fs_buildMs :: "int option"
  fs_buildStartedAt :: "int option"
  fs_buildStartedBefore :: "int option"
  fs_buildFailure :: "build_failure option"
  fs_deployBeforeRun :: "stage_status option"
  fs_stopped :: "run_kind option"
  fs_hasProgram :: bool

datatype flow_event =
    BuildStart int
  | BuildFinish bool nat int "build_failure option"
  | BuildStop
  | DeployStart
  | DeployFinish bool
  | DeployStop
  | SetStage stage
  | WorkspaceChange
  | Program bool
  | Restore "bool option" bool

definition INITIAL_FLOW_STATE :: flow_state where
  "INITIAL_FLOW_STATE =
     \<lparr>fs_stage = Write, fs_build = Upcoming, fs_buildSettled = Upcoming, fs_deploy = Upcoming,
      fs_interact = Upcoming, fs_buildErrorCount = 0, fs_buildMs = None, fs_buildStartedAt = None,
      fs_buildStartedBefore = None, fs_buildFailure = None, fs_deployBeforeRun = None,
      fs_stopped = None, fs_hasProgram = True\<rparr>"

definition STAGES :: "stage list" where
  "STAGES = [Write, Build, Deploy, Interact]"

definition WRITE_ONLY :: "stage list" where
  "WRITE_ONLY = [Write]"

definition stagesOf :: "flow_state \<Rightarrow> stage list" where
  "stagesOf s = (if fs_hasProgram s then STAGES else WRITE_ONLY)"

definition onVisibleStage :: "flow_state \<Rightarrow> flow_state" where
  "onVisibleStage s = (if fs_hasProgram s \<or> fs_stage s = Write then s else s\<lparr>fs_stage := Write\<rparr>)"

section \<open>The reducer\<close>

fun flow_step :: "flow_state \<Rightarrow> flow_event \<Rightarrow> flow_state" where
  "flow_step s (BuildStart at') =
     s\<lparr>fs_stage := Build, fs_build := Running, fs_buildStartedAt := Some at',
       fs_buildStartedBefore :=
         (if fs_build s = Running then fs_buildStartedBefore s else fs_buildStartedAt s),
       fs_stopped := None\<rparr>"
| "flow_step s BuildStop =
     (if fs_build s \<noteq> Running then s
      else s\<lparr>fs_build := fs_buildSettled s, fs_buildStartedAt := fs_buildStartedBefore s,
             fs_stopped := Some BuildRun\<rparr>)"
| "flow_step s (BuildFinish failed errorCount ms failure) =
     (if failed
      then s\<lparr>fs_stage := Build, fs_build := Failed, fs_buildSettled := Failed,
             fs_buildErrorCount := errorCount, fs_buildMs := Some ms, fs_buildFailure := failure\<rparr>
      else s\<lparr>fs_build := Done, fs_buildSettled := Done,
             fs_deploy := (if fs_deploy s = Upcoming then Active else fs_deploy s),
             fs_buildErrorCount := 0, fs_buildMs := Some ms, fs_buildFailure := None\<rparr>)"
| "flow_step s DeployStart =
     (if fs_deploy s = Running then s
      else s\<lparr>fs_stage := Deploy, fs_deploy := Running, fs_deployBeforeRun := Some (fs_deploy s),
             fs_stopped := None\<rparr>)"
| "flow_step s DeployStop =
     (if fs_deploy s \<noteq> Running then s
      else s\<lparr>fs_deploy := (case fs_deployBeforeRun s of None \<Rightarrow> Active | Some d \<Rightarrow> d),
             fs_stopped := Some (if fs_stopped s = Some BuildRun then BuildRun else DeployRun)\<rparr>)"
| "flow_step s (DeployFinish ok) =
     (if ok then s\<lparr>fs_stage := Deploy, fs_deploy := Done, fs_interact := Active\<rparr>
      else s\<lparr>fs_stage := Deploy, fs_deploy := Failed\<rparr>)"
| "flow_step s (SetStage st) = s\<lparr>fs_stage := st\<rparr>"
| "flow_step s (Program has) = (if fs_hasProgram s = has then s else s\<lparr>fs_hasProgram := has\<rparr>)"
| "flow_step s WorkspaceChange = INITIAL_FLOW_STATE\<lparr>fs_hasProgram := fs_hasProgram s\<rparr>"
| "flow_step s (Restore built deployed) =
     (let recorded = (case built of None \<Rightarrow> Upcoming | Some f \<Rightarrow> if f then Failed else Done);
          fresh = (fs_build s = Upcoming)
      in s\<lparr>fs_build := (if fresh then recorded else fs_build s),
           fs_buildSettled := (if fresh then recorded else fs_buildSettled s),
           fs_deploy := (if fs_deploy s \<noteq> Upcoming then fs_deploy s
                         else if deployed then Done
                         else if recorded = Done then Active else fs_deploy s),
           fs_interact := (if deployed \<and> fs_interact s = Upcoming then Active else fs_interact s)\<rparr>)"

definition reduce :: "flow_state \<Rightarrow> flow_event \<Rightarrow> flow_state" where
  "reduce s ev = onVisibleStage (flow_step s ev)"

section \<open>Counting compiler errors\<close>

text \<open>The regular expressions of the module, as functions on one line.\<close>

definition is_digit :: "char \<Rightarrow> bool" where
  "is_digit c \<longleftrightarrow> c \<in> set ''0123456789''"

definition is_hex :: "char \<Rightarrow> bool" where
  "is_hex c \<longleftrightarrow> c \<in> set ''0123456789abcdef''"

definition is_word :: "char \<Rightarrow> bool" where
  "is_word c \<longleftrightarrow>
     (let n = of_char c :: nat
      in 48 \<le> n \<and> n \<le> 57 \<or> 65 \<le> n \<and> n \<le> 90 \<or> 97 \<le> n \<and> n \<le> 122 \<or> n = 95)"

text \<open>What follows a prefix, if it is there.\<close>

fun after :: "string \<Rightarrow> string \<Rightarrow> string option" where
  "after [] s = Some s"
| "after (p # ps) [] = None"
| "after (p # ps) (c # cs) = (if p = c then after ps cs else None)"

text \<open>Digits, at least one, at the start of the text: what follows it.\<close>

definition after_digits :: "string \<Rightarrow> string option" where
  "after_digits s =
     (case s of [] \<Rightarrow> None | c # cs \<Rightarrow> if is_digit c then Some (dropWhile is_digit cs) else None)"

text \<open>Anything, then \<^verbatim>\<open>Stack offset of <digits> exceeded\<close>; the dot does not cross a carriage return.\<close>

fun has_stack_offset :: "string \<Rightarrow> bool" where
  "has_stack_offset s =
     (Option.bind (Option.bind (after ''Stack offset of '' s) after_digits) (after '' exceeded'') \<noteq> None \<or>
      (case s of [] \<Rightarrow> False | c # cs \<Rightarrow> c \<noteq> CR \<and> has_stack_offset cs))"

declare has_stack_offset.simps [simp del]

definition is_noise :: "string \<Rightarrow> bool" where
  "is_noise l = (case after ''Error: Function '' l of None \<Rightarrow> False | Some r \<Rightarrow> has_stack_offset r)"

text \<open>\<open>n\<close> hexadecimal digits and then a character.\<close>

fun after_hex :: "nat \<Rightarrow> char \<Rightarrow> string \<Rightarrow> string option" where
  "after_hex (Suc n) e (c # cs) = (if is_hex c then after_hex n e cs else None)"
| "after_hex 0 e (c # cs) = (if c = e then Some cs else None)"
| "after_hex n e [] = None"

definition after_uuid :: "string \<Rightarrow> string option" where
  "after_uuid s =
     Option.bind (after_hex 8 (CHR ''-'') s) (\<lambda>s1.
     Option.bind (after_hex 4 (CHR ''-'') s1) (\<lambda>s2.
     Option.bind (after_hex 4 (CHR ''-'') s2) (\<lambda>s3.
     Option.bind (after_hex 4 (CHR ''-'') s3) (\<lambda>s4. after_hex 12 (CHR ''/'') s4))))"

lemma after_hex_length: "after_hex n e s = Some r \<Longrightarrow> length r < length s"
  by (induction n e s rule: after_hex.induct) (auto split: if_splits)

lemma after_uuid_length: "after_uuid s = Some r \<Longrightarrow> length r < length s"
  by (auto simp: after_uuid_def bind_eq_Some_conv dest!: after_hex_length)

text \<open>
  The replacement of every UUID that starts a word and ends in a slash by nothing; \<open>prev\<close> is the character before the text, none
  at its start.
\<close>

function strip_uuids :: "char option \<Rightarrow> string \<Rightarrow> string" where
  "strip_uuids prev s =
     (case s of
        [] \<Rightarrow> []
      | c # cs \<Rightarrow>
          (case (if (case prev of None \<Rightarrow> True | Some p \<Rightarrow> \<not> is_word p) then after_uuid s else None) of
             Some rest \<Rightarrow> strip_uuids (Some (CHR ''/'')) rest
           | None \<Rightarrow> c # strip_uuids (Some c) cs))"
  by pat_completeness auto
termination
  by (relation "measure (\<lambda>(prev, s). length s)") (auto dest: after_uuid_length split: if_splits)

declare strip_uuids.simps [simp del]

definition stripKnownNoise :: "string \<Rightarrow> string" where
  "stripKnownNoise stderr =
     js_trim (strip_uuids None (js_join (filter (\<lambda>l. \<not> is_noise l) (js_split stderr))))"

text \<open>\<^verbatim>\<open>ERROR_HEADER\<close>: what its group holds, if the line matches.\<close>

definition error_header :: "string \<Rightarrow> string option" where
  "error_header l =
     (case after ''error'' l of
        None \<Rightarrow> None
      | Some r \<Rightarrow>
          let r' = (case Option.bind (Option.bind (after ''[E'' r) after_digits) (after '']'') of
                      None \<Rightarrow> r | Some x \<Rightarrow> x)
          in (case after '': '' r' of
                None \<Rightarrow> None
              | Some h \<Rightarrow> if h \<noteq> [] \<and> CR \<notin> set h then Some h else None))"

definition is_summary :: "string \<Rightarrow> bool" where
  "is_summary h \<longleftrightarrow> prefix ''could not compile'' h \<or> prefix ''aborting due to'' h"

definition countErrors :: "string \<Rightarrow> nat" where
  "countErrors stderr =
     length (filter (\<lambda>l. case error_header l of None \<Rightarrow> False | Some h \<Rightarrow> \<not> is_summary h)
       (js_split (stripKnownNoise stderr)))"

section \<open>The client's events\<close>

text \<open>An error value as the handlers look at it: by its shape.\<close>

record err_value =
  er_stopped :: bool
  er_answered :: "json option"
  er_message :: "json option"
  er_emptyFile :: "json option"
  er_string :: string

definition emptyFileOf :: "err_value \<Rightarrow> string option" where
  "emptyFileOf err = as_str (er_emptyFile err)"

definition buildFailureOf :: "err_value \<Rightarrow> build_failure" where
  "buildFailureOf err =
     (let t = (case as_str (er_message err) of Some msg \<Rightarrow> msg | None \<Rightarrow> er_string err)
      in case emptyFileOf err of
           Some (c # file) \<Rightarrow> EmptySource t (c # file)
         | _ \<Rightarrow> if er_answered err = Some (JBool False) then NoAnswer t else OtherFailure t)"

record build_output =
  bo_stderr :: string
  bo_failed :: bool
  bo_at :: int
  bo_workspace :: "string option"

text \<open>\<^verbatim>\<open>PROGRAM_FILE_REGEX\<close>: a Rust or Python file somewhere under \<^verbatim>\<open>src/\<close>.\<close>

definition is_program_file :: "string \<Rightarrow> bool" where
  "is_program_file path =
     (case after ''src/'' path of
        None \<Rightarrow> False
      | Some r \<Rightarrow> (suffix ''.rs'' r \<or> suffix ''.py'' r) \<and> 3 < length r \<and> LF \<notin> set r \<and> CR \<notin> set r)"

definition hasProgram :: "string list \<Rightarrow> bool" where
  "hasProgram paths = list_ex is_program_file paths"

datatype deploy_state = Ready | Loading | Paused | Cancelled

text \<open>
  What the subscriptions of \<^verbatim>\<open>PgFlow.init\<close> close over and read: the start of the current build,
  the latest build output, and the flow state itself.
\<close>

record client =
  cl_startedAt :: int
  cl_latest :: "build_output option"
  cl_flow :: flow_state

text \<open>
  Events of the client. A finished command carries its error, if it has one. \<open>Files None\<close> is a
  workspace whose files cannot be read at the moment, \<open>Files (Some paths)\<close> what it holds.
\<close>

datatype client_event =
    BuildCommandStart int
  | BuildOutputSet string "string option" int
  | BuildCommandFinish "err_value option" int
  | DeployCommandStart
  | DeployCommandFinish "err_value option" deploy_state
  | SwitchWorkspace bool "string list option"
  | FilesChange bool "string list option"
  | OnChainChange "bool option" bool
  | UserSetStage stage

definition dispatch :: "flow_event \<Rightarrow> client \<Rightarrow> client" where
  "dispatch ev c = c\<lparr>cl_flow := reduce (cl_flow c) ev\<rparr>"

definition readProgram :: "bool \<Rightarrow> string list option \<Rightarrow> client \<Rightarrow> client" where
  "readProgram isInitialized paths c =
     (if \<not> isInitialized then c
      else (case paths of None \<Rightarrow> c | Some ps \<Rightarrow> dispatch (Program (hasProgram ps)) c))"

definition build_output_of :: "string \<Rightarrow> string option \<Rightarrow> int \<Rightarrow> build_output" where
  "build_output_of stderr ws now =
     \<lparr>bo_stderr = stderr, bo_failed = js_includes ''error: could not compile'' stderr,
      bo_at = now, bo_workspace = ws\<rparr>"

text \<open>The listener of the build output, also called once with the latest one on subscribing.\<close>

definition on_output :: "build_output option \<Rightarrow> client \<Rightarrow> client" where
  "on_output out' c =
     (case out' of
        None \<Rightarrow> c
      | Some out \<Rightarrow>
          dispatch
            (BuildFinish (bo_failed out)
               (if bo_failed out then max 1 (countErrors (bo_stderr out)) else 0)
               (if cl_startedAt c = 0 then 0 else bo_at out - cl_startedAt c) None) c)"

fun on_event :: "client \<Rightarrow> client_event \<Rightarrow> client" where
  "on_event c (BuildCommandStart now) =
     dispatch (BuildStart now) (c\<lparr>cl_startedAt := now\<rparr>)"
| "on_event c (BuildOutputSet stderr ws now) =
     (let out = build_output_of stderr ws now in on_output (Some out) (c\<lparr>cl_latest := Some out\<rparr>))"
| "on_event c (BuildCommandFinish err now) =
     (case err of
        None \<Rightarrow> c
      | Some e \<Rightarrow>
          if er_stopped e then dispatch BuildStop c
          else if (case cl_latest c of None \<Rightarrow> False | Some out \<Rightarrow> bo_at out \<ge> cl_startedAt c) then c
          else dispatch
                 (BuildFinish True 0 (if cl_startedAt c = 0 then 0 else now - cl_startedAt c)
                    (Some (buildFailureOf e))) c)"
| "on_event c DeployCommandStart = dispatch DeployStart c"
| "on_event c (DeployCommandFinish err ds) =
     (if ds \<noteq> Ready then c
      else (case err of
          Some e \<Rightarrow> if er_stopped e then dispatch DeployStop c else dispatch (DeployFinish False) c
        | None \<Rightarrow> dispatch (DeployFinish True) c))"
| "on_event c (SwitchWorkspace isInitialized paths) =
     readProgram isInitialized paths (dispatch WorkspaceChange c)"
| "on_event c (FilesChange isInitialized paths) = readProgram isInitialized paths c"
| "on_event c (OnChainChange built deployed) = dispatch (Restore built deployed) c"
| "on_event c (UserSetStage st) = dispatch (SetStage st) c"

definition flow_init :: "build_output option \<Rightarrow> client" where
  "flow_init latest =
     on_output latest \<lparr>cl_startedAt = 0, cl_latest = latest, cl_flow = INITIAL_FLOW_STATE\<rparr>"

section \<open>Invariants\<close>

definition flow_ok :: "flow_state \<Rightarrow> bool" where
  "flow_ok s \<longleftrightarrow>
     fs_stage s \<in> set (stagesOf s) \<and>
     fs_buildSettled s \<noteq> Running \<and> (fs_build s = Running \<or> fs_build s = fs_buildSettled s) \<and>
     fs_deployBeforeRun s \<noteq> Some Running \<and> (fs_deploy s = Running \<longrightarrow> fs_deployBeforeRun s \<noteq> None) \<and>
     fs_interact s \<in> {Upcoming, Active} \<and>
     (fs_deploy s = Done \<or> fs_deployBeforeRun s = Some Done \<longrightarrow> fs_interact s = Active) \<and>
     (fs_buildErrorCount s \<noteq> 0 \<longrightarrow> fs_buildSettled s = Failed)"

lemma onVisibleStage_simps [simp]:
  "fs_build (onVisibleStage s) = fs_build s" "fs_buildSettled (onVisibleStage s) = fs_buildSettled s"
  "fs_deploy (onVisibleStage s) = fs_deploy s" "fs_interact (onVisibleStage s) = fs_interact s"
  "fs_buildErrorCount (onVisibleStage s) = fs_buildErrorCount s"
  "fs_buildMs (onVisibleStage s) = fs_buildMs s" "fs_buildFailure (onVisibleStage s) = fs_buildFailure s"
  "fs_buildStartedAt (onVisibleStage s) = fs_buildStartedAt s"
  "fs_buildStartedBefore (onVisibleStage s) = fs_buildStartedBefore s"
  "fs_deployBeforeRun (onVisibleStage s) = fs_deployBeforeRun s"
  "fs_stopped (onVisibleStage s) = fs_stopped s" "fs_hasProgram (onVisibleStage s) = fs_hasProgram s"
  by (simp_all add: onVisibleStage_def)

lemma stage_visible: "fs_stage (onVisibleStage s) \<in> set (stagesOf (onVisibleStage s))"
  by (cases "fs_stage s") (auto simp: onVisibleStage_def stagesOf_def STAGES_def WRITE_ONLY_def)

lemma flow_ok_step: "flow_ok s \<Longrightarrow> flow_ok (reduce s ev)"
  unfolding reduce_def flow_ok_def
  by (cases ev) (use stage_visible in \<open>auto simp: Let_def INITIAL_FLOW_STATE_def split: option.splits\<close>)

interpretation flow: machine INITIAL_FLOW_STATE reduce flow_ok
  by unfold_locales
    (simp_all add: flow_ok_step, simp add: flow_ok_def INITIAL_FLOW_STATE_def stagesOf_def STAGES_def)

lemma flow_ok_dispatch: "flow_ok (cl_flow c) \<Longrightarrow> flow_ok (cl_flow (dispatch ev c))"
  by (simp add: dispatch_def flow_ok_step)

lemma flow_ok_output: "flow_ok (cl_flow c) \<Longrightarrow> flow_ok (cl_flow (on_output out c))"
  by (simp add: on_output_def flow_ok_dispatch split: option.splits)

lemma flow_ok_readProgram: "flow_ok (cl_flow c) \<Longrightarrow> flow_ok (cl_flow (readProgram ini paths c))"
  by (simp add: readProgram_def flow_ok_dispatch split: option.splits)

lemma flow_ok_event: "flow_ok (cl_flow c) \<Longrightarrow> flow_ok (cl_flow (on_event c ev))"
  by (cases ev) (auto simp: flow_ok_dispatch flow_ok_output flow_ok_readProgram Let_def split: option.splits)

interpretation client: machine "flow_init latest" on_event "\<lambda>c. flow_ok (cl_flow c)" for latest
  by unfold_locales (simp_all add: flow_init_def flow_ok_event flow_ok_output flow.inv_init)

section \<open>A run and its stop\<close>

fun around_build :: "flow_event \<Rightarrow> bool" where
  "around_build (BuildStart t) \<longleftrightarrow> True"
| "around_build (SetStage st) \<longleftrightarrow> True"
| "around_build _ \<longleftrightarrow> False"

fun around_deploy :: "flow_event \<Rightarrow> bool" where
  "around_deploy DeployStart \<longleftrightarrow> True"
| "around_deploy (SetStage st) \<longleftrightarrow> True"
| "around_deploy _ \<longleftrightarrow> False"

definition in_build :: "flow_state \<Rightarrow> flow_state \<Rightarrow> bool" where
  "in_build s r \<longleftrightarrow> fs_build r = Running \<and> fs_buildStartedBefore r = fs_buildStartedAt s \<and>
     r\<lparr>fs_build := fs_build s, fs_buildStartedAt := fs_buildStartedAt s,
       fs_buildStartedBefore := fs_buildStartedBefore s, fs_stopped := fs_stopped s, fs_stage := fs_stage s\<rparr> = s"

definition in_deploy :: "flow_state \<Rightarrow> flow_state \<Rightarrow> bool" where
  "in_deploy s r \<longleftrightarrow> fs_deploy r = Running \<and> fs_deployBeforeRun r = Some (fs_deploy s) \<and>
     fs_stopped r = None \<and>
     r\<lparr>fs_deploy := fs_deploy s, fs_deployBeforeRun := fs_deployBeforeRun s,
       fs_stopped := fs_stopped s, fs_stage := fs_stage s\<rparr> = s"

lemma onVisibleStage_stage: "\<exists>st. onVisibleStage s = s\<lparr>fs_stage := st\<rparr>"
  by (auto simp: onVisibleStage_def intro: exI [of _ "fs_stage s"])

lemma in_build_step: "in_build s r \<Longrightarrow> around_build ev \<Longrightarrow> in_build s (reduce r ev)"
  using onVisibleStage_stage [of "flow_step r ev"]
  by (cases ev) (auto simp: in_build_def reduce_def)

lemma in_deploy_step: "in_deploy s r \<Longrightarrow> around_deploy ev \<Longrightarrow> in_deploy s (reduce r ev)"
  using onVisibleStage_stage [of "flow_step r ev"]
  by (cases ev) (auto simp: in_deploy_def reduce_def)

lemma in_build_run: "in_build s r \<Longrightarrow> list_all around_build evs \<Longrightarrow> in_build s (foldl reduce r evs)"
  by (induction evs arbitrary: r) (auto simp: in_build_step)

lemma in_deploy_run: "in_deploy s r \<Longrightarrow> list_all around_deploy evs \<Longrightarrow> in_deploy s (foldl reduce r evs)"
  by (induction evs arbitrary: r) (auto simp: in_deploy_step)

lemma in_build_settled: "in_build s r \<Longrightarrow> fs_buildSettled r = fs_buildSettled s"
  by (cases r; cases s) (auto simp: in_build_def)

lemma in_build_start: "fs_build s \<noteq> Running \<Longrightarrow> in_build s (reduce s (BuildStart t))"
  using onVisibleStage_stage [of "flow_step s (BuildStart t)"] by (auto simp: in_build_def reduce_def)

lemma in_deploy_start: "fs_deploy s \<noteq> Running \<Longrightarrow> in_deploy s (reduce s DeployStart)"
  using onVisibleStage_stage [of "flow_step s DeployStart"] by (auto simp: in_deploy_def reduce_def)

text \<open>
  The client's clock: a build starts later than the output of every build before it.
\<close>

fun clock_ok :: "client \<Rightarrow> client_event \<Rightarrow> bool" where
  "clock_ok c (BuildCommandStart now) =
     (case cl_latest c of None \<Rightarrow> True | Some out \<Rightarrow> bo_at out < now)"
| "clock_ok c ev = True"

inductive client_reach :: "client \<Rightarrow> bool" where
  start: "client_reach (flow_init latest)"
| event: "client_reach c \<Longrightarrow> clock_ok c ev \<Longrightarrow> client_reach (on_event c ev)"

definition answered :: "client \<Rightarrow> bool" where
  "answered c \<longleftrightarrow>
     (case cl_latest c of None \<Rightarrow> False | Some out \<Rightarrow> bo_at out \<ge> cl_startedAt c)"

lemma dispatch_simps [simp]:
  "cl_startedAt (dispatch ev c) = cl_startedAt c" "cl_latest (dispatch ev c) = cl_latest c"
  "answered (dispatch ev c) = answered c"
  "cl_flow (dispatch ev c) = reduce (cl_flow c) ev"
  by (simp_all add: dispatch_def answered_def split: option.splits)

lemma reduce_build:
  "fs_build (reduce s ev) = Running \<Longrightarrow> (\<exists>t. ev = BuildStart t) \<or> fs_build s = Running \<or> fs_buildSettled s = Running"
  by (cases ev) (auto simp: reduce_def INITIAL_FLOW_STATE_def Let_def split: if_splits option.splits)

lemma answered_not_running:
  "client_reach c \<Longrightarrow> flow_ok (cl_flow c) \<and> (answered c \<longrightarrow> fs_build (cl_flow c) \<noteq> Running)"
proof (induction rule: client_reach.induct)
  case (start latest)
  then show ?case
    using client.inv_init [of latest]
    by (auto simp: flow_init_def on_output_def reduce_def INITIAL_FLOW_STATE_def split: option.splits)
next
  case (event c ev)
  then have ok: "fs_buildSettled (cl_flow c) \<noteq> Running" by (simp add: flow_ok_def)
  have keep: "fs_build (reduce (cl_flow c) e) \<noteq> Running" if "answered c" "\<nexists>t. e = BuildStart t" for e
    using reduce_build [of "cl_flow c" e] event ok that by blast
  show ?case
  proof (cases ev)
    case (BuildOutputSet stderr ws now)
    then show ?thesis
      using event flow_ok_event [of c ev] by (auto simp: on_output_def reduce_def Let_def)
  next
    case (SwitchWorkspace ini paths)
    then show ?thesis
      using event flow_ok_event [of c ev]
      by (auto simp: readProgram_def reduce_def INITIAL_FLOW_STATE_def split: option.splits)
  qed (use event keep flow_ok_event [of c ev] in
    \<open>auto simp: readProgram_def answered_def split: option.splits\<close>)
qed

section \<open>Properties\<close>

text \<open>
  Whatever the client does, in any order, the flow state stays sound: the router is on a stage
  the project offers (only Write without a program), the settled build verdict is never
  \<^verbatim>\<open>running\<close> and the build status is the verdict unless a run is in flight, a running deploy
  knows what to go back to and never goes back to \<^verbatim>\<open>running\<close>, a deployed program can be
  interacted with, and errors are counted only for a failed build.
\<close>

lemma flow_stays_sound: "flow_ok (cl_flow (foldl on_event (flow_init latest) evs))"
  by (rule client.inv_run)

text \<open>
  C25: stopping a run leaves no trace of it. However often it was started again and whichever stage
  was looked at meanwhile, after the stop every field is as before the run, except the stage shown,
  the note of what was stopped, and the two fields only the next stop reads.
\<close>

theorem stop_leaves_no_trace:
  assumes "flow_ok s"
  shows "(fs_build s \<noteq> Running \<and> list_all around_build evs \<longrightarrow>
     (let r = reduce (foldl reduce (reduce s (BuildStart t)) evs) BuildStop
      in r\<lparr>fs_buildStartedBefore := fs_buildStartedBefore s, fs_stopped := fs_stopped s,
           fs_stage := fs_stage s\<rparr> = s \<and> fs_stopped r = Some BuildRun)) \<and>
    (fs_deploy s \<noteq> Running \<and> list_all around_deploy evs \<longrightarrow>
     (let r = reduce (foldl reduce (reduce s DeployStart) evs) DeployStop
      in r\<lparr>fs_deployBeforeRun := fs_deployBeforeRun s, fs_stopped := fs_stopped s,
           fs_stage := fs_stage s\<rparr> = s \<and> fs_stopped r = Some DeployRun))"
proof (intro conjI impI)
  assume run: "fs_build s \<noteq> Running \<and> list_all around_build evs"
  define q where "q = foldl reduce (reduce s (BuildStart t)) evs"
  have "in_build s q" unfolding q_def using run in_build_run in_build_start by blast
  moreover have "fs_buildSettled s = fs_build s" using assms run by (auto simp: flow_ok_def)
  moreover have "fs_buildSettled q = fs_buildSettled s"
    using calculation(1) by (rule in_build_settled)
  ultimately show "let r = reduce (foldl reduce (reduce s (BuildStart t)) evs) BuildStop
      in r\<lparr>fs_buildStartedBefore := fs_buildStartedBefore s, fs_stopped := fs_stopped s,
           fs_stage := fs_stage s\<rparr> = s \<and> fs_stopped r = Some BuildRun"
    using onVisibleStage_stage [of "flow_step q BuildStop"]
    unfolding q_def [symmetric] by (auto simp: in_build_def reduce_def)
next
  assume run: "fs_deploy s \<noteq> Running \<and> list_all around_deploy evs"
  define q where "q = foldl reduce (reduce s DeployStart) evs"
  have "in_deploy s q" unfolding q_def using run in_deploy_run in_deploy_start by blast
  then show "let r = reduce (foldl reduce (reduce s DeployStart) evs) DeployStop
      in r\<lparr>fs_deployBeforeRun := fs_deployBeforeRun s, fs_stopped := fs_stopped s,
           fs_stage := fs_stage s\<rparr> = s \<and> fs_stopped r = Some DeployRun"
    using onVisibleStage_stage [of "flow_step q DeployStop"]
    unfolding q_def [symmetric] by (auto simp: in_deploy_def reduce_def)
qed

theorem stop_leaves_no_trace_witness:
  "let r = reduce (foldl reduce (reduce INITIAL_FLOW_STATE (BuildStart 5)) [SetStage Write, BuildStart 7]) BuildStop
   in fs_build r = Upcoming \<and> fs_buildStartedAt r = None \<and> fs_stopped r = Some BuildRun"
proof -
  let ?evs = "[SetStage Write, BuildStart 7]"
  let ?r = "reduce (foldl reduce (reduce INITIAL_FLOW_STATE (BuildStart 5)) ?evs) BuildStop"
  have "fs_build INITIAL_FLOW_STATE \<noteq> Running \<and> list_all around_build ?evs"
    by (simp add: INITIAL_FLOW_STATE_def)
  with stop_leaves_no_trace [OF flow.inv_init, of ?evs 5]
  have "?r\<lparr>fs_buildStartedBefore := fs_buildStartedBefore INITIAL_FLOW_STATE,
      fs_stopped := fs_stopped INITIAL_FLOW_STATE, fs_stage := fs_stage INITIAL_FLOW_STATE\<rparr> = INITIAL_FLOW_STATE"
    and stopped: "fs_stopped ?r = Some BuildRun" by (auto simp: Let_def)
  then have "fs_build ?r = fs_build INITIAL_FLOW_STATE \<and>
      fs_buildStartedAt ?r = fs_buildStartedAt INITIAL_FLOW_STATE"
    by (cases ?r) (simp add: INITIAL_FLOW_STATE_def)
  with stopped show ?thesis by (simp add: Let_def INITIAL_FLOW_STATE_def)
qed

text \<open>
  What a reload reads back only fills in. A restore never changes a build, a deploy or an
  interact status that has left \<^verbatim>\<open>upcoming\<close>, touches nothing but the statuses, and restoring the
  same record again changes nothing.
\<close>

lemma restore_seeds_forward:
  "reduce (reduce s (Restore b d)) (Restore b d) = reduce s (Restore b d) \<and>
   fs_build (reduce s (Restore b d)) \<in> {fs_build s} \<union> (if fs_build s = Upcoming then {Failed, Done} else {}) \<and>
   fs_deploy (reduce s (Restore b d)) \<in> {fs_deploy s} \<union> (if fs_deploy s = Upcoming then {Active, Done} else {}) \<and>
   fs_interact (reduce s (Restore b d)) \<in> {fs_interact s} \<union> (if fs_interact s = Upcoming then {Active} else {}) \<and>
   (reduce s (Restore b d))\<lparr>fs_build := fs_build s, fs_buildSettled := fs_buildSettled s,
      fs_deploy := fs_deploy s, fs_interact := fs_interact s\<rparr> = onVisibleStage s"
  by (cases b) (auto simp: reduce_def onVisibleStage_def Let_def)

text \<open>
  A build command that fails never leaves the stepper running. In every state the client can
  reach, whatever came before, once the command is over with an error the build stage has settled:
  the compiler's verdict stands if it arrived for this run, the stop goes back, and otherwise the
  failure is recorded.
\<close>

lemma failed_build_settles:
  assumes "client_reach c"
  shows "fs_build (cl_flow (on_event c (BuildCommandFinish (Some e) now))) \<noteq> Running"
  using answered_not_running [OF assms]
  by (auto simp: answered_def reduce_def flow_ok_def split: option.splits)

lemma failed_build_settles_example:
  "fs_build (cl_flow (on_event (on_event (flow_init None) (BuildCommandStart 5))
     (BuildCommandFinish (Some \<lparr>er_stopped = False, er_answered = Some (JBool False), er_message = None,
        er_emptyFile = None, er_string = ''x''\<rparr>) 9))) \<noteq> Running"
proof (rule failed_build_settles)
  have "clock_ok (flow_init None) (BuildCommandStart 5)" by (simp add: flow_init_def on_output_def)
  then show "client_reach (on_event (flow_init None) (BuildCommandStart 5))"
    by (rule client_reach.event [OF client_reach.start])
qed

end
