(* ===== verification/Lesson.thy ===== *)
theory Lesson
  imports Flow_Stage
begin

text \<open>
  Guided lessons: the steps of a path and what proves them (\<^verbatim>\<open>types.ts\<close>, \<^verbatim>\<open>verify.ts\<close>), the
  event log (\<^verbatim>\<open>events.ts\<close>) and the two folds over it, marks and cursor (\<^verbatim>\<open>ledger.ts\<close>), all under
  \<^verbatim>\<open>views/flow/lessons\<close>. The mutable fold state is a record that every step returns; a \<^verbatim>\<open>Map\<close> is an
  association list in insertion order, a \<^verbatim>\<open>Set\<close> a list without repetitions. The numbers of events are rationals, so that
  \<open>nextSeq\<close> always grows; the code's doubles stop growing at 2 to the power of 53.
\<close>

section \<open>Paths and what proves a step\<close>

datatype verify_condition =
    BuildPasses
  | Deployed
  | IdlShape string "string option" "string option"
  | Read stage

record lesson_step =
  ls_id :: string
  ls_objective :: string
  ls_verifiedBy :: string
  ls_verify :: verify_condition
  ls_hints :: "string list"

record lesson_path =
  lp_tutorial :: string
  lp_steps :: "lesson_step list"

text \<open>What the grader reads of an IDL: the names of instructions, of their arguments, of accounts.\<close>

record idl_instruction =
  ii_name :: string
  ii_args :: "string list"

record idl =
  idl_instructions :: "idl_instruction list"
  idl_accounts :: "string list option"

datatype grader_class = Synchronous | OnDemand | Attestation

fun graderClass :: "verify_condition \<Rightarrow> grader_class" where
  "graderClass BuildPasses = Synchronous"
| "graderClass Deployed = Synchronous"
| "graderClass (IdlShape i a acc) = Synchronous"
| "graderClass (Read st) = Attestation"

fun verifyingStage :: "verify_condition \<Rightarrow> stage option" where
  "verifyingStage BuildPasses = Some Build"
| "verifyingStage (IdlShape i a acc) = Some Build"
| "verifyingStage Deployed = Some Deploy"
| "verifyingStage (Read st) = None"

fun targetStage :: "verify_condition \<Rightarrow> stage" where
  "targetStage (Read st) = st"
| "targetStage c = the (verifyingStage c)"

definition sameName :: "string \<Rightarrow> string \<Rightarrow> bool" where
  "sameName a b \<longleftrightarrow> js_lower a = js_lower b"

text \<open>\<^verbatim>\<open>c.arg && ...\<close>: an absent name and an empty one ask nothing.\<close>

definition asks :: "string option \<Rightarrow> (string \<Rightarrow> bool) \<Rightarrow> bool" where
  "asks name P \<longleftrightarrow> (case name of None \<Rightarrow> True | Some n \<Rightarrow> n = [] \<or> P n)"

fun isSatisfied :: "verify_condition \<Rightarrow> flow_state \<Rightarrow> idl option \<Rightarrow> bool" where
  "isSatisfied BuildPasses flow idl' \<longleftrightarrow> fs_build flow = Done"
| "isSatisfied Deployed flow idl' \<longleftrightarrow> fs_deploy flow = Done"
| "isSatisfied (IdlShape instruction arg account) flow idl' \<longleftrightarrow>
     (if fs_build flow \<noteq> Done then False
      else (case idl' of
          None \<Rightarrow> False
        | Some i \<Rightarrow>
            (case find (\<lambda>ix. sameName (ii_name ix) instruction) (idl_instructions i) of
               None \<Rightarrow> False
             | Some ix \<Rightarrow>
                 asks arg (\<lambda>a. list_ex (\<lambda>b. sameName b a) (ii_args ix)) \<and>
                 asks account (\<lambda>a. list_ex (\<lambda>b. sameName b a)
                   (case idl_accounts i of None \<Rightarrow> [] | Some accs \<Rightarrow> accs)))))"
| "isSatisfied (Read st) flow idl' \<longleftrightarrow> False"

section \<open>The event log\<close>

datatype lesson_actor = Learner | Toolchain | Unknown

datatype lesson_mark = OpenM | ProvedM | AttestedM | PassedM

datatype lesson_payload =
    Enter
  | Graded "string list"
  | Checked string "string option"
  | Pass string
  | Attest string
  | Move string
  | Attempt rat
  | Hint string rat
  | Opened string

record lesson_event =
  le_seq :: rat
  le_at :: "rat option"
  le_actor :: lesson_actor
  le_via :: bool
  le_payload :: lesson_payload

record lesson_snapshot =
  sn_marks :: "lesson_mark js_obj"
  sn_cursor :: string
  sn_opened :: "string list option"

record stored_lesson =
  sl_snapshot :: "lesson_snapshot option"
  sl_events :: "lesson_event list"

definition EMPTY_STORED :: stored_lesson where
  "EMPTY_STORED = \<lparr>sl_snapshot = None, sl_events = []\<rparr>"

definition nextSeq :: "stored_lesson \<Rightarrow> rat" where
  "nextSeq r = (if sl_events r \<noteq> [] then le_seq (last (sl_events r)) + 1 else 1)"

section \<open>Positions\<close>

datatype lesson_position = At nat | End

record lesson_view =
  lv_marks :: "lesson_mark js_obj"
  lv_cursor :: lesson_position
  lv_frontier :: lesson_position
  lv_firstArrival :: "(nat \<times> rat) list"
  lv_attempts :: "rat list"
  lv_rungs :: "nat js_obj"
  lv_opened :: "string list"

definition isHuman :: "lesson_event \<Rightarrow> bool" where
  "isHuman ev \<longleftrightarrow> le_actor ev \<noteq> Toolchain"

text \<open>\<^verbatim>\<open>findIndex\<close>: the first index that satisfies the predicate.\<close>

definition find_index :: "('a \<Rightarrow> bool) \<Rightarrow> 'a list \<Rightarrow> nat option" where
  "find_index P xs = find (\<lambda>i. P (xs ! i)) [0..<length xs]"

definition indexOf :: "lesson_path \<Rightarrow> string \<Rightarrow> nat option" where
  "indexOf path stepId = find_index (\<lambda>s. ls_id s = stepId) (lp_steps path)"

text \<open>\<^verbatim>\<open>marks.get(id) ?? "open"\<close>.\<close>

definition mark_of :: "lesson_mark js_obj \<Rightarrow> string \<Rightarrow> lesson_mark" where
  "mark_of marks i = (case map_of marks i of None \<Rightarrow> OpenM | Some m \<Rightarrow> m)"

definition frontierOf :: "lesson_path \<Rightarrow> lesson_mark js_obj \<Rightarrow> lesson_position" where
  "frontierOf path marks =
     (case find_index (\<lambda>s. mark_of marks (ls_id s) = OpenM) (lp_steps path) of
        None \<Rightarrow> End | Some i \<Rightarrow> At i)"

fun legalWith ::
  "lesson_path \<Rightarrow> lesson_mark js_obj \<Rightarrow> lesson_position \<Rightarrow> lesson_position \<Rightarrow> bool" where
  "legalWith path marks frontier End \<longleftrightarrow> frontier = End"
| "legalWith path marks frontier (At p) \<longleftrightarrow>
     p < length (lp_steps path) \<and>
     (mark_of marks (ls_id (lp_steps path ! p)) \<noteq> OpenM \<or> At p = frontier)"

record fold_state =
  fo_marks :: "lesson_mark js_obj"
  fo_cursor :: lesson_position
  fo_firstArrival :: "(nat \<times> rat) list"
  fo_attempts :: "rat list"
  fo_rungs :: "nat js_obj"
  fo_opened :: "string list"

definition resolve :: "lesson_path \<Rightarrow> string \<Rightarrow> lesson_position option" where
  "resolve path to = (if to = ''end'' then Some End else map_option At (indexOf path to))"

definition nextLegalAfter ::
  "lesson_path \<Rightarrow> lesson_mark js_obj \<Rightarrow> nat \<Rightarrow> lesson_position option" where
  "nextLegalAfter path marks k =
     (let frontier = frontierOf path marks
      in case find (\<lambda>j. legalWith path marks frontier (At j)) [k + 1..<length (lp_steps path)] of
           Some j \<Rightarrow> Some (At j)
         | None \<Rightarrow> if frontier = End then Some End else None)"

definition arrive :: "rat \<Rightarrow> fold_state \<Rightarrow> fold_state" where
  "arrive seq st =
     (case fo_cursor st of
        End \<Rightarrow> st
      | At p \<Rightarrow>
          if map_of (fo_firstArrival st) p \<noteq> None then st
          else st\<lparr>fo_firstArrival := fo_firstArrival st @ [(p, seq)]\<rparr>)"

section \<open>The folds\<close>

text \<open>\<^verbatim>\<open>applyMarks\<close>: the marks after the event and the indices whose mark changed.\<close>

definition grade_one ::
  "lesson_path \<Rightarrow> string \<Rightarrow> lesson_mark js_obj \<times> nat list \<Rightarrow> lesson_mark js_obj \<times> nat list" where
  "grade_one path i acc =
     (case (acc, indexOf path i) of
        ((marks, flipped), None) \<Rightarrow> (marks, flipped)
      | ((marks, flipped), Some k) \<Rightarrow>
          if graderClass (ls_verify (lp_steps path ! k)) \<noteq> Attestation \<and>
             (mark_of marks i = OpenM \<or> mark_of marks i = PassedM)
          then (obj_set i ProvedM marks, flipped @ [k]) else (marks, flipped))"

definition click ::
  "lesson_path \<Rightarrow> lesson_mark js_obj \<Rightarrow> lesson_event \<Rightarrow> string \<Rightarrow> bool \<Rightarrow> lesson_mark \<Rightarrow>
     lesson_mark js_obj \<times> nat list" where
  "click path marks ev stepId attestation mark =
     (case indexOf path stepId of
        None \<Rightarrow> (marks, [])
      | Some i \<Rightarrow>
          if At i \<noteq> frontierOf path marks \<or> \<not> isHuman ev then (marks, [])
          else if (graderClass (ls_verify (lp_steps path ! i)) = Attestation) \<noteq> attestation
          then (marks, [])
          else (obj_set (ls_id (lp_steps path ! i)) mark marks, [i]))"

definition applyMarks ::
  "lesson_path \<Rightarrow> lesson_mark js_obj \<Rightarrow> lesson_event \<Rightarrow> lesson_mark js_obj \<times> nat list" where
  "applyMarks path marks ev =
     (case le_payload ev of
        Graded stepIds \<Rightarrow> fold (grade_one path) stepIds (marks, [])
      | Pass stepId \<Rightarrow> click path marks ev stepId False PassedM
      | Attest stepId \<Rightarrow> click path marks ev stepId True AttestedM
      | _ \<Rightarrow> (marks, []))"

lemma nextLegalAfter_greater:
  "nextLegalAfter path marks k = Some (At j) \<Longrightarrow> k < j \<and> j < length (lp_steps path)"
  by (auto simp: nextLegalAfter_def Let_def find_Some_iff split: option.splits if_splits)

text \<open>The walk of the cursor over the steps one event proved.\<close>

function walk :: "lesson_path \<Rightarrow> lesson_mark js_obj \<Rightarrow> nat list \<Rightarrow> lesson_position \<Rightarrow> lesson_position" where
  "walk path marks flipped End = End"
| "walk path marks flipped (At k) =
     (if k \<in> set flipped
      then (case nextLegalAfter path marks k of
              None \<Rightarrow> At k
            | Some p \<Rightarrow> walk path marks flipped p)
      else At k)"
  by pat_completeness auto
termination
  by (relation "measure (\<lambda>(path, marks, flipped, p). case p of End \<Rightarrow> 0
        | At k \<Rightarrow> Suc (length (lp_steps path) - k))")
    (auto split: lesson_position.splits dest!: nextLegalAfter_greater)

definition applyCursor :: "lesson_path \<Rightarrow> lesson_event \<Rightarrow> nat list \<Rightarrow> fold_state \<Rightarrow> fold_state" where
  "applyCursor path ev flipped st =
     (let frontier = frontierOf path (fo_marks st)
      in case le_payload ev of
           Move to \<Rightarrow>
             (case resolve path to of
                None \<Rightarrow> st
              | Some p \<Rightarrow>
                  if legalWith path (fo_marks st) frontier p
                  then arrive (le_seq ev) (st\<lparr>fo_cursor := p\<rparr>) else st)
         | Graded ids \<Rightarrow>
             (case fo_cursor st of
                End \<Rightarrow> st
              | At k \<Rightarrow>
                  if k \<notin> set flipped then st
                  else arrive (le_seq ev) (st\<lparr>fo_cursor := walk path (fo_marks st) flipped (At k)\<rparr>))
         | Pass i \<Rightarrow>
             (case flipped of
                [] \<Rightarrow> st
              | k # _ \<Rightarrow>
                  arrive (le_seq ev)
                    (case nextLegalAfter path (fo_marks st) k of
                       None \<Rightarrow> st | Some p \<Rightarrow> st\<lparr>fo_cursor := p\<rparr>))
         | Attest i \<Rightarrow>
             (case flipped of
                [] \<Rightarrow> st
              | k # _ \<Rightarrow>
                  arrive (le_seq ev)
                    (case nextLegalAfter path (fo_marks st) k of
                       None \<Rightarrow> st | Some p \<Rightarrow> st\<lparr>fo_cursor := p\<rparr>))
         | _ \<Rightarrow> st)"

text \<open>One event of the fold.\<close>

definition fold_event :: "lesson_path \<Rightarrow> fold_state \<Rightarrow> lesson_event \<Rightarrow> fold_state" where
  "fold_event path st ev =
     (let st1 = (case le_payload ev of
            Attempt t \<Rightarrow> st\<lparr>fo_attempts := fo_attempts st @ [le_seq ev]\<rparr>
          | Hint i r \<Rightarrow> st\<lparr>fo_rungs :=
              obj_set i (Suc (case map_of (fo_rungs st) i of None \<Rightarrow> 0 | Some n \<Rightarrow> n)) (fo_rungs st)\<rparr>
          | Opened i \<Rightarrow> st\<lparr>fo_opened := (if i \<in> set (fo_opened st) then fo_opened st else fo_opened st @ [i])\<rparr>
          | _ \<Rightarrow> st)
      in case applyMarks path (fo_marks st1) ev of
           (marks, flipped) \<Rightarrow> applyCursor path ev flipped (st1\<lparr>fo_marks := marks\<rparr>))"

definition fold_start :: "lesson_path \<Rightarrow> lesson_snapshot option \<Rightarrow> fold_state" where
  "fold_start path snap =
     (let given = fold (\<lambda>(k, v) m. obj_set k v m) (case snap of None \<Rightarrow> [] | Some s \<Rightarrow> sn_marks s) [];
          marks = fold (\<lambda>s m. if map_of m (ls_id s) = None then obj_set (ls_id s) OpenM m else m)
                    (lp_steps path) given;
          frontier = frontierOf path marks;
          target = (case snap of None \<Rightarrow> None | Some s \<Rightarrow> resolve path (sn_cursor s));
          cursor = (case target of
                None \<Rightarrow> frontier
              | Some p \<Rightarrow> if legalWith path marks frontier p then p else frontier);
          opened = (case snap of None \<Rightarrow> [] | Some s \<Rightarrow> (case sn_opened s of None \<Rightarrow> [] | Some os \<Rightarrow> js_set os))
      in arrive 0 \<lparr>fo_marks = marks, fo_cursor = cursor, fo_firstArrival = [], fo_attempts = [],
                   fo_rungs = [], fo_opened = opened\<rparr>)"

definition view_of :: "lesson_path \<Rightarrow> fold_state \<Rightarrow> lesson_view" where
  "view_of path st =
     \<lparr>lv_marks = fo_marks st, lv_cursor = fo_cursor st, lv_frontier = frontierOf path (fo_marks st),
      lv_firstArrival = fo_firstArrival st, lv_attempts = fo_attempts st, lv_rungs = fo_rungs st,
      lv_opened = fo_opened st\<rparr>"

definition foldRecord :: "lesson_path \<Rightarrow> stored_lesson \<Rightarrow> lesson_view" where
  "foldRecord path r =
     view_of path (foldl (fold_event path) (fold_start path (sl_snapshot r)) (sl_events r))"

section \<open>Queries\<close>

definition legal :: "lesson_path \<Rightarrow> lesson_view \<Rightarrow> lesson_position \<Rightarrow> bool" where
  "legal path v p \<longleftrightarrow> legalWith path (lv_marks v) (lv_frontier v) p"

definition prevLegal :: "lesson_path \<Rightarrow> lesson_view \<Rightarrow> lesson_position option" where
  "prevLegal path v =
     (let from = (case lv_cursor v of End \<Rightarrow> length (lp_steps path) | At p \<Rightarrow> p)
      in map_option At (find (\<lambda>j. legal path v (At j)) (rev [0..<from])))"

definition nextLegal :: "lesson_path \<Rightarrow> lesson_view \<Rightarrow> lesson_position option" where
  "nextLegal path v =
     (case lv_cursor v of
        End \<Rightarrow> None
      | At p \<Rightarrow>
          (case find (\<lambda>j. legal path v (At j)) [p + 1..<length (lp_steps path)] of
             Some j \<Rightarrow> Some (At j)
           | None \<Rightarrow> if legal path v End then Some End else None))"

definition admits :: "lesson_path \<Rightarrow> lesson_view \<Rightarrow> lesson_event \<Rightarrow> bool" where
  "admits path v ev \<longleftrightarrow>
     (case le_payload ev of
        Graded ids \<Rightarrow> snd (applyMarks path (lv_marks v) ev) \<noteq> []
      | Pass i \<Rightarrow> snd (applyMarks path (lv_marks v) ev) \<noteq> []
      | Attest i \<Rightarrow> snd (applyMarks path (lv_marks v) ev) \<noteq> []
      | Move to \<Rightarrow>
          (case resolve path to of None \<Rightarrow> False | Some p \<Rightarrow> p \<noteq> lv_cursor v \<and> legal path v p)
      | Opened i \<Rightarrow> indexOf path i \<noteq> None \<and> i \<notin> set (lv_opened v)
      | _ \<Rightarrow> True)"

definition TRIM_CAP :: nat where
  "TRIM_CAP = 200"

definition TRIM_KEEP :: nat where
  "TRIM_KEEP = 120"

definition position_id :: "lesson_path \<Rightarrow> lesson_position \<Rightarrow> string" where
  "position_id path p = (case p of End \<Rightarrow> ''end'' | At i \<Rightarrow> ls_id (lp_steps path ! i))"

definition trimRecord :: "lesson_path \<Rightarrow> stored_lesson \<Rightarrow> stored_lesson" where
  "trimRecord path r =
     (if length (sl_events r) \<le> TRIM_CAP then r
      else
        let n = length (sl_events r) - TRIM_KEEP;
            cut = foldRecord path (r\<lparr>sl_events := take n (sl_events r)\<rparr>)
        in \<lparr>sl_snapshot = Some \<lparr>sn_marks = lv_marks cut, sn_cursor = position_id path (lv_cursor cut),
                                sn_opened = Some (lv_opened cut)\<rparr>,
            sl_events = drop n (sl_events r)\<rparr>)"

definition stepAt :: "lesson_path \<Rightarrow> lesson_position \<Rightarrow> lesson_step option" where
  "stepAt path p =
     (case p of End \<Rightarrow> None
      | At i \<Rightarrow> if i < length (lp_steps path) then Some (lp_steps path ! i) else None)"

definition cursorStep :: "lesson_path \<Rightarrow> lesson_view \<Rightarrow> lesson_step option" where
  "cursorStep path v = stepAt path (lv_cursor v)"

definition positionNumber :: "lesson_path \<Rightarrow> lesson_view \<Rightarrow> nat" where
  "positionNumber path v =
     (case lv_cursor v of End \<Rightarrow> length (lp_steps path) + 1 | At p \<Rightarrow> p + 1)"

definition attempted :: "lesson_path \<Rightarrow> lesson_view \<Rightarrow> string \<Rightarrow> bool" where
  "attempted path v stepId =
     (case Option.bind (indexOf path stepId) (map_of (lv_firstArrival v)) of
        None \<Rightarrow> False
      | Some arrival \<Rightarrow> list_ex (\<lambda>seq. seq > arrival) (lv_attempts v))"

definition rung :: "lesson_view \<Rightarrow> string \<Rightarrow> nat" where
  "rung v stepId = (case map_of (lv_rungs v) stepId of None \<Rightarrow> 0 | Some n \<Rightarrow> n)"

end
