(* ===== verification/Lesson_Correct.thy ===== *)
theory Lesson_Correct
  imports Lesson
begin

text \<open>
  What the lesson's record promises: the cursor always stands somewhere legal, marks only ever move
  along the table's edges, a trim does not change what is known, and an event is admitted exactly
  when it has something to do.
\<close>

section \<open>Indices and the frontier\<close>

lemma find_index_Some:
  "find_index P xs = Some i \<longleftrightarrow> i < length xs \<and> P (xs ! i) \<and> (\<forall>j<i. \<not> P (xs ! j))"
  by (auto simp: find_index_def find_Some_iff)

lemma find_index_None: "find_index P xs = None \<longleftrightarrow> (\<forall>i<length xs. \<not> P (xs ! i))"
  by (auto simp: find_index_def find_None_iff)

abbreviation step_id :: "lesson_path \<Rightarrow> nat \<Rightarrow> string" where
  "step_id path i \<equiv> ls_id (lp_steps path ! i)"

abbreviation step_count :: "lesson_path \<Rightarrow> nat" where
  "step_count path \<equiv> length (lp_steps path)"

definition is_open :: "lesson_path \<Rightarrow> lesson_mark js_obj \<Rightarrow> nat \<Rightarrow> bool" where
  "is_open path marks i \<longleftrightarrow> mark_of marks (step_id path i) = OpenM"

lemma frontier_At:
  "frontierOf path marks = At i \<longleftrightarrow>
     i < step_count path \<and> is_open path marks i \<and> (\<forall>j<i. \<not> is_open path marks j)"
  using find_index_Some [of "\<lambda>s. mark_of marks (ls_id s) = OpenM" "lp_steps path" i]
  by (auto simp: frontierOf_def is_open_def split: option.splits)

lemma frontier_End: "frontierOf path marks = End \<longleftrightarrow> (\<forall>i<step_count path. \<not> is_open path marks i)"
  using find_index_None [of "\<lambda>s. mark_of marks (ls_id s) = OpenM" "lp_steps path"]
  by (auto simp: frontierOf_def is_open_def split: option.splits)

abbreviation legal_in :: "lesson_path \<Rightarrow> lesson_mark js_obj \<Rightarrow> lesson_position \<Rightarrow> bool" where
  "legal_in path marks p \<equiv> legalWith path marks (frontierOf path marks) p"

lemma legal_At:
  "legal_in path marks (At p) \<longleftrightarrow>
     p < step_count path \<and> (\<not> is_open path marks p \<or> (\<forall>j<p. \<not> is_open path marks j))"
  by (auto simp: is_open_def [symmetric] eq_commute [of "At p"] frontier_At)

lemma legal_frontier: "legal_in path marks (frontierOf path marks)"
proof (cases "frontierOf path marks")
  case (At i)
  then show ?thesis by (simp add: frontier_At del: legalWith.simps) (simp add: At)
qed simp

lemma indexOf_Some: "indexOf path i = Some k \<Longrightarrow> k < step_count path \<and> step_id path k = i"
  by (simp add: indexOf_def find_index_Some)

lemma indexOf_step:
  assumes "distinct (map ls_id (lp_steps path))" and "k < step_count path"
  shows "indexOf path (step_id path k) = Some k"
proof -
  have "step_id path j \<noteq> step_id path k" if "j < k" for j
    using assms that by (auto simp: distinct_conv_nth)
  then show ?thesis using assms(2) by (simp add: indexOf_def find_index_Some)
qed

section \<open>Marks only grow\<close>

definition mark_le :: "lesson_mark \<Rightarrow> lesson_mark \<Rightarrow> bool" where
  "mark_le m m' \<longleftrightarrow> m = m' \<or> m = OpenM \<or> (m = PassedM \<and> m' = ProvedM)"

definition marks_le :: "lesson_mark js_obj \<Rightarrow> lesson_mark js_obj \<Rightarrow> bool" where
  "marks_le ms ms' \<longleftrightarrow> (\<forall>i. mark_le (mark_of ms i) (mark_of ms' i))"

lemma marks_le_refl [simp]: "marks_le ms ms"
  by (simp add: marks_le_def mark_le_def)

lemma mark_le_trans: "mark_le a b \<Longrightarrow> mark_le b c \<Longrightarrow> mark_le a c"
  by (auto simp: mark_le_def)

lemma mark_le_open: "mark_le m OpenM \<Longrightarrow> m = OpenM"
  by (auto simp: mark_le_def)

lemma marks_le_trans [trans]: "marks_le a b \<Longrightarrow> marks_le b c \<Longrightarrow> marks_le a c"
  unfolding marks_le_def using mark_le_trans by blast

lemma mark_of_obj_set [simp]: "mark_of (obj_set k m ms) i = (if i = k then m else mark_of ms i)"
  by (simp add: mark_of_def)

lemma grade_one_le: "marks_le (fst acc) (fst (grade_one path i acc))"
  by (cases acc; cases "indexOf path i") (auto simp: grade_one_def marks_le_def mark_le_def)

lemma grade_le: "marks_le (fst acc) (fst (fold (grade_one path) ids acc))"
proof (induction ids arbitrary: acc)
  case (Cons i ids)
  show ?case using marks_le_trans [OF grade_one_le Cons.IH] by simp
qed simp

lemma click_le: "marks_le ms (fst (click path ms ev i att m))"
proof (cases "indexOf path i")
  case (Some k)
  then show ?thesis
    by (auto simp: click_def marks_le_def mark_le_def eq_commute [of "At k"] frontier_At is_open_def)
qed (simp add: click_def)

lemma applyMarks_le: "marks_le ms (fst (applyMarks path ms ev))"
  using grade_le [of "(ms, [])"] click_le
  by (cases "le_payload ev") (simp_all add: applyMarks_def)

lemma is_open_le: "marks_le ms ms' \<Longrightarrow> \<not> is_open path ms i \<Longrightarrow> \<not> is_open path ms' i"
  unfolding marks_le_def is_open_def using mark_le_open by metis

lemma legal_mono: "marks_le ms ms' \<Longrightarrow> legal_in path ms p \<Longrightarrow> legal_in path ms' p"
proof (cases p)
  case (At i)
  assume "marks_le ms ms'" "legal_in path ms p"
  then show ?thesis using is_open_le unfolding At legal_At by blast
next
  case End
  assume "marks_le ms ms'" "legal_in path ms p"
  then show ?thesis using is_open_le by (auto simp: End frontier_End)
qed

section \<open>The cursor stays legal\<close>

lemma nextLegalAfter_legal: "nextLegalAfter path ms k = Some p \<Longrightarrow> legal_in path ms p"
  by (auto simp: nextLegalAfter_def Let_def find_Some_iff simp del: legalWith.simps(2)
      split: option.splits if_splits)

lemma walk_legal: "legal_in path ms p \<Longrightarrow> legal_in path ms (walk path ms flipped p)"
proof (induction path ms flipped p rule: walk.induct)
  case (2 path ms flipped k)
  then show ?case
    using nextLegalAfter_legal [of path ms k] by (auto split: option.splits)
qed simp

lemma arrive_simps [simp]:
  "fo_marks (arrive n st) = fo_marks st" "fo_cursor (arrive n st) = fo_cursor st"
  "fo_attempts (arrive n st) = fo_attempts st" "fo_rungs (arrive n st) = fo_rungs st"
  "fo_opened (arrive n st) = fo_opened st"
  by (simp_all add: arrive_def split: lesson_position.splits)

lemma applyCursor_simps [simp]:
  "fo_marks (applyCursor path ev fl st) = fo_marks st"
  "fo_attempts (applyCursor path ev fl st) = fo_attempts st"
  "fo_rungs (applyCursor path ev fl st) = fo_rungs st"
  "fo_opened (applyCursor path ev fl st) = fo_opened st"
  by (auto simp: applyCursor_def Let_def split: lesson_payload.splits option.splits lesson_position.splits list.splits)

lemma applyCursor_legal:
  assumes "legal_in path (fo_marks st) (fo_cursor st)"
  shows "legal_in path (fo_marks st) (fo_cursor (applyCursor path ev fl st))"
  using assms nextLegalAfter_legal walk_legal
  by (auto simp: applyCursor_def Let_def split: lesson_payload.splits option.splits lesson_position.splits list.splits)

abbreviation state_legal :: "lesson_path \<Rightarrow> fold_state \<Rightarrow> bool" where
  "state_legal path st \<equiv> legal_in path (fo_marks st) (fo_cursor st)"

lemma fold_event_marks: "fo_marks (fold_event path st ev) = fst (applyMarks path (fo_marks st) ev)"
  by (cases "le_payload ev") (simp_all add: fold_event_def Let_def split_beta)

lemma fold_event_cursor:
  "fo_cursor (fold_event path st ev) =
     fo_cursor (applyCursor path ev (snd (applyMarks path (fo_marks st) ev))
       (st\<lparr>fo_marks := fst (applyMarks path (fo_marks st) ev)\<rparr>))"
  by (cases "le_payload ev")
    (simp_all add: fold_event_def Let_def split_beta applyCursor_def split: option.splits list.splits)

lemma fold_event_legal: "state_legal path st \<Longrightarrow> state_legal path (fold_event path st ev)"
proof -
  assume "state_legal path st"
  then have "legal_in path (fst (applyMarks path (fo_marks st) ev)) (fo_cursor st)"
    by (rule legal_mono [OF applyMarks_le])
  then show ?thesis
    using applyCursor_legal [of path "st\<lparr>fo_marks := fst (applyMarks path (fo_marks st) ev)\<rparr>" ev
        "snd (applyMarks path (fo_marks st) ev)"]
    by (simp add: fold_event_marks fold_event_cursor)
qed

lemma fold_start_legal: "state_legal path (fold_start path snap)"
  by (auto simp: fold_start_def Let_def legal_frontier split: option.splits)

interpretation lesson: machine "fold_start path snap" "fold_event path" "state_legal path" for path snap
  by unfold_locales (simp_all add: fold_start_legal fold_event_legal)

section \<open>What a snapshot carries over\<close>

definition path_ok :: "lesson_path \<Rightarrow> bool" where
  "path_ok path \<longleftrightarrow> distinct (map ls_id (lp_steps path)) \<and> ''end'' \<notin> ls_id ` set (lp_steps path)"

definition state_wf :: "lesson_path \<Rightarrow> fold_state \<Rightarrow> bool" where
  "state_wf path st \<longleftrightarrow>
     obj_ok (fo_marks st) \<and> (\<forall>s\<in>set (lp_steps path). map_of (fo_marks st) (ls_id s) \<noteq> None) \<and>
     distinct (fo_opened st)"

lemma fold_event_opened:
  "fo_opened (fold_event path st ev) =
     (case le_payload ev of
        Opened i \<Rightarrow> if i \<in> set (fo_opened st) then fo_opened st else fo_opened st @ [i]
      | _ \<Rightarrow> fo_opened st)"
  by (cases "le_payload ev") (simp_all add: fold_event_def Let_def split_beta)

text \<open>Storing marks keeps an association list well-formed and loses no key.\<close>

definition marks_wf :: "string set \<Rightarrow> lesson_mark js_obj \<Rightarrow> bool" where
  "marks_wf ids ms \<longleftrightarrow> obj_ok ms \<and> ids \<subseteq> dom (map_of ms)"

lemma marks_wf_set: "marks_wf ids ms \<Longrightarrow> marks_wf ids (obj_set k m ms)"
  by (auto simp: marks_wf_def)

lemma marks_wf_grade: "marks_wf ids (fst acc) \<Longrightarrow> marks_wf ids (fst (fold (grade_one path) is acc))"
proof (induction "is" arbitrary: acc)
  case (Cons i "is")
  have "marks_wf ids (fst (grade_one path i acc))"
    using Cons.prems by (auto simp: grade_one_def marks_wf_set split: option.splits prod.splits)
  then show ?case using Cons.IH by simp
qed simp

lemma marks_wf_apply: "marks_wf ids ms \<Longrightarrow> marks_wf ids (fst (applyMarks path ms ev))"
  using marks_wf_grade [of ids "(ms, [])"]
  by (auto simp: applyMarks_def click_def marks_wf_set split: lesson_payload.splits option.splits)

lemma state_wf_marks: "state_wf path st \<longleftrightarrow> marks_wf (ls_id ` set (lp_steps path)) (fo_marks st) \<and> distinct (fo_opened st)"
  by (auto simp: state_wf_def marks_wf_def)

lemma state_wf_event: "state_wf path st \<Longrightarrow> state_wf path (fold_event path st ev)"
  unfolding state_wf_marks fold_event_marks fold_event_opened
  by (auto simp: marks_wf_apply split: lesson_payload.splits)

definition seed_marks :: "lesson_path \<Rightarrow> lesson_mark js_obj \<Rightarrow> lesson_mark js_obj" where
  "seed_marks path given =
     fold (\<lambda>s m. if map_of m (ls_id s) = None then obj_set (ls_id s) OpenM m else m) (lp_steps path) given"

lemma map_of_seed:
  "map_of (seed_marks path given) i =
     (if i \<in> ls_id ` set (lp_steps path) \<and> map_of given i = None then Some OpenM else map_of given i)"
proof -
  have "seed_marks path given =
      fold (\<lambda>i m. if map_of m i = None then obj_set i OpenM m else m) (map ls_id (lp_steps path)) given"
    by (simp add: seed_marks_def fold_map comp_def)
  then show ?thesis by (simp add: obj.lookup_defaults)
qed

lemma obj_ok_seed: "obj_ok given \<Longrightarrow> obj_ok (seed_marks path given)"
proof -
  have "obj_ok m \<Longrightarrow> obj_ok (fold (\<lambda>s m. if map_of m (ls_id s) = None then obj_set (ls_id s) OpenM m else m) ss m)"
    for ss m by (induction ss arbitrary: m) auto
  then show "obj_ok given \<Longrightarrow> ?thesis" by (simp add: seed_marks_def)
qed

lemma obj_ok_entries: "obj_ok m \<Longrightarrow> obj_ok (fold (\<lambda>(k, v) m. obj_set k v m) es m)"
  by (induction es arbitrary: m) auto

lemma obj_set_new: "k \<notin> fst ` set m \<Longrightarrow> obj_set k v m = m @ [(k, v)]"
  unfolding obj_set_def by (induction m) auto

lemma entries_same: "obj_ok (m @ es) \<Longrightarrow> fold (\<lambda>(k, v) m. obj_set k v m) es m = m @ es"
proof (induction es arbitrary: m)
  case (Cons e es)
  obtain k v where e: "e = (k, v)" by force
  have "obj_set k v m = m @ [e]" using Cons.prems by (auto simp: e intro!: obj_set_new)
  then show ?case using Cons.IH [of "m @ [e]"] Cons.prems by (simp add: e)
qed simp

lemma fold_start_alt:
  "fo_marks (fold_start path snap) =
     seed_marks path (fold (\<lambda>(k, v) m. obj_set k v m) (case snap of None \<Rightarrow> [] | Some s \<Rightarrow> sn_marks s) [])"
  "fo_opened (fold_start path snap) =
     (case snap of None \<Rightarrow> [] | Some s \<Rightarrow> (case sn_opened s of None \<Rightarrow> [] | Some os \<Rightarrow> js_set os))"
  by (simp_all add: fold_start_def Let_def seed_marks_def)

lemma state_wf_start: "state_wf path (fold_start path snap)"
  unfolding state_wf_def fold_start_alt
  by (auto simp: map_of_seed obj_ok_seed obj_ok_entries split: option.splits)

lemma seed_same: "\<forall>s\<in>set (lp_steps path). map_of m (ls_id s) \<noteq> None \<Longrightarrow> seed_marks path m = m"
proof -
  have "\<forall>s\<in>set ss. map_of m (ls_id s) \<noteq> None \<Longrightarrow>
      fold (\<lambda>s m. if map_of m (ls_id s) = None then obj_set (ls_id s) OpenM m else m) ss m = m" for ss
    by (induction ss) auto
  then show "\<forall>s\<in>set (lp_steps path). map_of m (ls_id s) \<noteq> None \<Longrightarrow> ?thesis" by (simp add: seed_marks_def)
qed

lemma js_set_distinct: "distinct xs \<Longrightarrow> js_set xs = xs"
  by (simp add: js_set_def distinct_remdups_id)

definition core :: "fold_state \<Rightarrow> lesson_mark js_obj \<times> lesson_position \<times> string list" where
  "core st = (fo_marks st, fo_cursor st, fo_opened st)"

lemma resolve_position:
  assumes "path_ok path" and "legal_in path ms p"
  shows "resolve path (position_id path p) = Some p"
proof (cases p)
  case (At i)
  then have i: "i < step_count path" using assms(2) by simp
  then have "step_id path i \<in> ls_id ` set (lp_steps path)" using nth_mem by blast
  then have "step_id path i \<noteq> ''end''" using assms(1) by (auto simp: path_ok_def)
  then show ?thesis
    using indexOf_step [of path i] i assms(1) At by (simp add: resolve_def position_id_def path_ok_def)
qed (simp add: resolve_def position_id_def)

lemma snapshot_core:
  assumes "path_ok path" and "state_wf path st" and "state_legal path st"
  shows "core (fold_start path (Some \<lparr>sn_marks = fo_marks st, sn_cursor = position_id path (fo_cursor st),
    sn_opened = Some (fo_opened st)\<rparr>)) = core st"
proof -
  have "fold (\<lambda>(k, v) m. obj_set k v m) (fo_marks st) [] = fo_marks st"
    using entries_same [of "[]" "fo_marks st"] assms(2) by (simp add: state_wf_def)
  moreover have "seed_marks path (fo_marks st) = fo_marks st"
    using assms(2) unfolding state_wf_def by (intro seed_same) blast
  moreover have "resolve path (position_id path (fo_cursor st)) = Some (fo_cursor st)"
    by (rule resolve_position [OF assms(1,3)])
  ultimately show ?thesis
    using assms(2,3) by (simp add: core_def fold_start_def Let_def js_set_distinct state_wf_def flip: seed_marks_def)
qed

lemma applyCursor_cong:
  "fo_marks a = fo_marks b \<Longrightarrow> fo_cursor a = fo_cursor b \<Longrightarrow>
   fo_cursor (applyCursor path ev fl a) = fo_cursor (applyCursor path ev fl b)"
  by (cases "le_payload ev")
    (simp_all add: applyCursor_def Let_def split: option.splits list.splits lesson_position.splits)

lemma core_event: "core a = core b \<Longrightarrow> core (fold_event path a ev) = core (fold_event path b ev)"
proof -
  assume "core a = core b"
  then have eq: "fo_marks a = fo_marks b" "fo_cursor a = fo_cursor b" "fo_opened a = fo_opened b"
    by (simp_all add: core_def)
  define m where "m = applyMarks path (fo_marks b) ev"
  have "fo_cursor (applyCursor path ev (snd m) (a\<lparr>fo_marks := fst m\<rparr>)) =
      fo_cursor (applyCursor path ev (snd m) (b\<lparr>fo_marks := fst m\<rparr>))"
    using eq by (intro applyCursor_cong) simp_all
  then show ?thesis
    unfolding core_def fold_event_marks fold_event_cursor fold_event_opened eq m_def [symmetric] by simp
qed

lemma core_events:
  "core a = core b \<Longrightarrow> core (foldl (fold_event path) a evs) = core (foldl (fold_event path) b evs)"
proof (induction evs arbitrary: a b)
  case (Cons ev evs)
  show ?case using Cons.IH [OF core_event [OF Cons.prems]] by simp
qed simp

interpretation lesson_wf: machine "fold_start path snap" "fold_event path" "state_wf path" for path snap
  by unfold_locales (simp_all add: state_wf_start state_wf_event)

lemma trim_core:
  assumes "path_ok path"
  shows "core (foldl (fold_event path) (fold_start path (sl_snapshot (trimRecord path r))) (sl_events (trimRecord path r))) =
    core (foldl (fold_event path) (fold_start path (sl_snapshot r)) (sl_events r))"
proof (cases "length (sl_events r) \<le> TRIM_CAP")
  case False
  define n where "n = length (sl_events r) - TRIM_KEEP"
  define st where "st = foldl (fold_event path) (fold_start path (sl_snapshot r)) (take n (sl_events r))"
  have "foldl (fold_event path) (fold_start path (sl_snapshot r)) (sl_events r) =
      foldl (fold_event path) st (drop n (sl_events r))"
    by (metis st_def append_take_drop_id foldl_append)
  moreover have "core (fold_start path (sl_snapshot (trimRecord path r))) = core st"
    using snapshot_core [OF assms, of st] lesson.inv_run [of path] lesson_wf.inv_run [of path] False
    by (simp add: trimRecord_def Let_def n_def [symmetric] st_def foldRecord_def view_of_def)
  moreover have "sl_events (trimRecord path r) = drop n (sl_events r)"
    using False by (simp add: trimRecord_def Let_def n_def)
  ultimately show ?thesis by (metis core_events)
qed (simp add: trimRecord_def)

section \<open>The edges of the mark table\<close>

text \<open>What an event may do to the mark of a step: stay, or one of three edges with their guards.\<close>

definition edge :: "lesson_path \<Rightarrow> lesson_mark js_obj \<Rightarrow> lesson_event \<Rightarrow> string \<Rightarrow> lesson_mark \<Rightarrow> lesson_mark \<Rightarrow> bool"
  where
  "edge path ms ev i m m' \<longleftrightarrow>
     (case m' of
        ProvedM \<Rightarrow> (m = OpenM \<or> m = PassedM) \<and>
          (\<exists>ids k. le_payload ev = Graded ids \<and> i \<in> set ids \<and> indexOf path i = Some k \<and>
             graderClass (ls_verify (lp_steps path ! k)) \<noteq> Attestation)
      | PassedM \<Rightarrow> m = OpenM \<and> isHuman ev \<and>
          (\<exists>k. le_payload ev = Pass i \<and> frontierOf path ms = At k \<and> indexOf path i = Some k \<and>
             graderClass (ls_verify (lp_steps path ! k)) \<noteq> Attestation)
      | AttestedM \<Rightarrow> m = OpenM \<and> isHuman ev \<and>
          (\<exists>k. le_payload ev = Attest i \<and> frontierOf path ms = At k \<and> indexOf path i = Some k \<and>
             graderClass (ls_verify (lp_steps path ! k)) = Attestation)
      | OpenM \<Rightarrow> False)"

lemma grade_edge:
  "mark_of (fst (fold (grade_one path) ids acc)) i = mark_of (fst acc) i \<or>
   (mark_of (fst (fold (grade_one path) ids acc)) i = ProvedM \<and>
    (mark_of (fst acc) i = OpenM \<or> mark_of (fst acc) i = PassedM) \<and> i \<in> set ids \<and>
    (\<exists>k. indexOf path i = Some k \<and> graderClass (ls_verify (lp_steps path ! k)) \<noteq> Attestation))"
proof (induction ids arbitrary: acc)
  case (Cons j ids)
  have "mark_of (fst (grade_one path j acc)) i = mark_of (fst acc) i \<or>
    (mark_of (fst (grade_one path j acc)) i = ProvedM \<and> i = j \<and>
     (mark_of (fst acc) i = OpenM \<or> mark_of (fst acc) i = PassedM) \<and>
     (\<exists>k. indexOf path i = Some k \<and> graderClass (ls_verify (lp_steps path ! k)) \<noteq> Attestation))"
    by (auto simp: grade_one_def split: option.splits prod.splits)
  then show ?case using Cons.IH [of "grade_one path j acc"] by auto
qed simp

lemma applyMarks_edge:
  "mark_of (fst (applyMarks path ms ev)) i = mark_of ms i \<or>
   edge path ms ev i (mark_of ms i) (mark_of (fst (applyMarks path ms ev)) i)"
proof (cases "le_payload ev")
  case (Graded ids)
  then show ?thesis
    using grade_edge [of path ids "(ms, [])" i] by (auto simp: applyMarks_def edge_def)
next
  case (Pass j)
  then show ?thesis
    by (auto simp: applyMarks_def click_def edge_def frontier_At is_open_def eq_commute [of "At _"]
        dest: indexOf_Some split: option.splits)
next
  case (Attest j)
  then show ?thesis
    by (auto simp: applyMarks_def click_def edge_def frontier_At is_open_def eq_commute [of "At _"]
        dest: indexOf_Some split: option.splits)
qed (simp_all add: applyMarks_def)

lemma grade_flips:
  "snd (fold (grade_one path) ids acc) \<noteq> snd acc \<Longrightarrow>
   \<exists>i. mark_of (fst acc) i \<noteq> ProvedM \<and> mark_of (fst (fold (grade_one path) ids acc)) i = ProvedM"
proof (induction ids arbitrary: acc)
  case (Cons j ids)
  let ?acc = "grade_one path j acc"
  show ?case
  proof (cases "snd ?acc = snd acc")
    case True
    then have "fst ?acc = fst acc"
      by (auto simp: grade_one_def split: option.splits prod.splits if_splits)
    then have "?acc = acc" using True by (intro prod_eqI)
    then show ?thesis using Cons.IH [of acc] Cons.prems by simp
  next
    case False
    then have "mark_of (fst acc) j \<noteq> ProvedM" "mark_of (fst ?acc) j = ProvedM"
      by (auto simp: grade_one_def split: option.splits prod.splits if_splits)
    moreover have "mark_of (fst (fold (grade_one path) ids ?acc)) j = ProvedM"
      using grade_le [of ?acc path ids] calculation(2) by (auto simp: marks_le_def mark_le_def dest: spec [of _ j])
    ultimately show ?thesis by auto
  qed
qed simp

lemma grade_no_flip:
  "snd (fold (grade_one path) ids acc) = snd acc \<Longrightarrow> fst (fold (grade_one path) ids acc) = fst acc"
proof (induction ids arbitrary: acc)
  case (Cons j ids)
  let ?acc = "grade_one path j acc"
  have len: "length (snd b) \<le> length (snd (fold (grade_one path) is b))" for "is" b
  proof (induction "is" arbitrary: b)
    case (Cons i "is")
    have "length (snd b) \<le> length (snd (grade_one path i b))"
      by (auto simp: grade_one_def split: option.splits prod.splits)
    then show ?case using Cons.IH [of "grade_one path i b"] by simp
  qed simp
  have "snd ?acc = snd acc \<and> fst ?acc = fst acc"
  proof (rule ccontr)
    assume "\<not> (snd ?acc = snd acc \<and> fst ?acc = fst acc)"
    then have "length (snd ?acc) = Suc (length (snd acc))"
      by (auto simp: grade_one_def split: option.splits prod.splits if_splits)
    then show False using len [of ?acc ids] Cons.prems by simp
  qed
  then show ?case using Cons by simp
qed simp

lemma applyMarks_flips:
  "(snd (applyMarks path ms ev) \<noteq> []) \<longleftrightarrow> (\<exists>i. mark_of (fst (applyMarks path ms ev)) i \<noteq> mark_of ms i)"
  "snd (applyMarks path ms ev) = [] \<Longrightarrow> fst (applyMarks path ms ev) = ms"
proof -
  have click: "(snd (click path ms ev j att m) = [] \<longrightarrow> fst (click path ms ev j att m) = ms) \<and>
      (m \<noteq> OpenM \<and> snd (click path ms ev j att m) \<noteq> [] \<longrightarrow> mark_of (fst (click path ms ev j att m)) j \<noteq> mark_of ms j)"
    for j att m
    by (auto simp: click_def frontier_At is_open_def eq_commute [of "At _"] dest: indexOf_Some split: option.splits)
  show same: "snd (applyMarks path ms ev) = [] \<Longrightarrow> fst (applyMarks path ms ev) = ms"
    using grade_no_flip [of path _ "(ms, [])"] click
    by (auto simp: applyMarks_def split: lesson_payload.splits)
  have "\<exists>i. mark_of (fst (applyMarks path ms ev)) i \<noteq> mark_of ms i" if flip: "snd (applyMarks path ms ev) \<noteq> []"
  proof (cases "le_payload ev")
    case (Graded ids)
    then obtain i where "mark_of ms i \<noteq> ProvedM" "mark_of (fst (applyMarks path ms ev)) i = ProvedM"
      using flip grade_flips [of path ids "(ms, [])"] by (auto simp: applyMarks_def)
    then show ?thesis by (intro exI [of _ i]) simp
  next
    case (Pass j)
    then show ?thesis using that click [of j False PassedM] by (auto simp: applyMarks_def)
  next
    case (Attest j)
    then show ?thesis using that click [of j True AttestedM] by (auto simp: applyMarks_def)
  qed (use that in \<open>simp_all add: applyMarks_def\<close>)
  then show "(snd (applyMarks path ms ev) \<noteq> []) \<longleftrightarrow> (\<exists>i. mark_of (fst (applyMarks path ms ev)) i \<noteq> mark_of ms i)"
    using same by auto
qed

section \<open>There is always somewhere to go\<close>

text \<open>
  A step is passed only at the frontier, so nothing before a passed step is open. From a position
  with nothing open up to it, there is always a legal position ahead.
\<close>

definition passed_ok :: "lesson_path \<Rightarrow> lesson_mark js_obj \<Rightarrow> bool" where
  "passed_ok path ms \<longleftrightarrow>
     (\<forall>i<step_count path. mark_of ms (step_id path i) = PassedM \<longrightarrow> (\<forall>j<i. \<not> is_open path ms j))"

lemma find_upt_Some:
  assumes "find P [m..<n] = Some j"
  shows "m \<le> j" "j < n" "P j" "m \<le> i \<Longrightarrow> i < j \<Longrightarrow> \<not> P i"
proof -
  obtain a where a: "a < n - m" "P (m + a)" "j = m + a" "\<forall>b<a. \<not> P (m + b)"
    using assms by (auto simp: find_Some_iff)
  then show "m \<le> j" "j < n" "P j" by auto
  show "\<not> P i" if "m \<le> i" "i < j"
    using a(4) [rule_format, of "i - m"] a(3) that by simp
qed

lemma next_exists:
  assumes "\<forall>j\<le>k. j < step_count path \<longrightarrow> \<not> is_open path ms j"
  obtains p where "nextLegalAfter path ms k = Some p"
    "\<And>j. p = At j \<Longrightarrow> \<forall>i<j. i < step_count path \<longrightarrow> \<not> is_open path ms i"
proof (cases "find (\<lambda>j. legal_in path ms (At j)) [k + 1..<step_count path]")
  case None
  then have "\<forall>j\<in>{k + 1..<step_count path}. \<not> legal_in path ms (At j)"
    unfolding find_None_iff by auto
  then have "frontierOf path ms \<noteq> At j" for j
    using assms by (auto simp: frontier_At legal_At not_less_eq_eq[symmetric] simp del: legalWith.simps dest!: spec [of _ j])
  then have "frontierOf path ms = End" by (cases "frontierOf path ms") auto
  then have "nextLegalAfter path ms k = Some End" using None by (simp add: nextLegalAfter_def Let_def)
  then show ?thesis using that [of End] by simp
next
  case (Some j)
  have j: "k < j" "j < step_count path" using find_upt_Some(1,2) [OF Some] by simp_all
  have before: "\<not> legal_in path ms (At i)" if "k < i" "i < j" for i
    using find_upt_Some(4) [OF Some, of i] that by simp
  have none: "\<not> is_open path ms i" if "i < j" for i
    using that
  proof (induction i rule: less_induct)
    case (less i)
    show ?case
    proof (cases "i \<le> k")
      case True
      then show ?thesis using assms j less.prems by auto
    next
      case False
      then have "\<not> legal_in path ms (At i)" using before less.prems by simp
      then show ?thesis using less j by (auto simp: legal_At simp del: legalWith.simps)
    qed
  qed
  have "nextLegalAfter path ms k = Some (At j)" using Some by (simp add: nextLegalAfter_def Let_def)
  then show ?thesis using that [of "At j"] none by simp
qed

definition flips_ok :: "lesson_path \<Rightarrow> lesson_mark js_obj \<Rightarrow> lesson_mark js_obj \<times> nat list \<Rightarrow> bool" where
  "flips_ok path ms acc \<longleftrightarrow>
     (\<forall>k. k \<in> set (snd acc) \<longleftrightarrow>
        k < step_count path \<and> mark_of (fst acc) (step_id path k) \<noteq> mark_of ms (step_id path k)) \<and>
     (\<forall>i. mark_of (fst acc) i \<noteq> mark_of ms i \<longrightarrow> mark_of (fst acc) i \<notin> {OpenM, PassedM})"

lemma flips_ok_grade:
  assumes "path_ok path" and "flips_ok path ms acc"
  shows "flips_ok path ms (grade_one path i acc)"
proof (cases "indexOf path i")
  case (Some k)
  have k: "k < step_count path" "step_id path k = i" using indexOf_Some [OF Some] by simp_all
  have uniq: "step_id path j = i \<longleftrightarrow> j = k" if "j < step_count path" for j
    using assms(1) k that by (auto simp: path_ok_def distinct_conv_nth)
  obtain m fl where acc: "acc = (m, fl)" by force
  have inv: "\<And>j. j \<in> set fl \<longleftrightarrow> j < step_count path \<and> mark_of m (step_id path j) \<noteq> mark_of ms (step_id path j)"
    and dn: "\<And>x. mark_of m x \<noteq> mark_of ms x \<Longrightarrow> mark_of m x \<notin> {OpenM, PassedM}"
    using assms(2) by (auto simp: flips_ok_def acc)
  show ?thesis
  proof (cases "graderClass (ls_verify (lp_steps path ! k)) \<noteq> Attestation \<and> mark_of m i \<in> {OpenM, PassedM}")
    case True
    then have same: "mark_of ms i = mark_of m i" using dn [of i] by metis
    then have "ProvedM \<noteq> mark_of ms i" using True by auto
    then have "j \<in> set (fl @ [k]) \<longleftrightarrow> j < step_count path \<and>
        mark_of (obj_set i ProvedM m) (step_id path j) \<noteq> mark_of ms (step_id path j)" for j
      using inv [of j] uniq [of j] k by (cases "j = k") auto
    moreover have "mark_of (obj_set i ProvedM m) x \<noteq> mark_of ms x \<longrightarrow>
        mark_of (obj_set i ProvedM m) x \<notin> {OpenM, PassedM}" for x
      using dn [of x] by simp
    moreover have "grade_one path i acc = (obj_set i ProvedM m, fl @ [k])"
      using True by (auto simp: grade_one_def acc Some)
    ultimately show ?thesis unfolding flips_ok_def by simp
  next
    case False
    then have "grade_one path i acc = acc" by (auto simp: grade_one_def acc Some)
    then show ?thesis using assms(2) by simp
  qed
qed (use assms in \<open>auto simp: grade_one_def split: prod.splits\<close>)

lemma flips_ok_grades: "path_ok path \<Longrightarrow> flips_ok path ms acc \<Longrightarrow> flips_ok path ms (fold (grade_one path) ids acc)"
  by (induction ids arbitrary: acc) (simp_all add: flips_ok_grade)

lemma flipped_iff:
  assumes "path_ok path"
  shows "k \<in> set (snd (applyMarks path ms ev)) \<longleftrightarrow>
    k < step_count path \<and> mark_of (fst (applyMarks path ms ev)) (step_id path k) \<noteq> mark_of ms (step_id path k)"
proof -
  have click: "k \<in> set (snd (click path ms ev i att m)) \<longleftrightarrow>
    k < step_count path \<and> mark_of (fst (click path ms ev i att m)) (step_id path k) \<noteq> mark_of ms (step_id path k)"
    if "m \<noteq> OpenM" for i att m
  proof (cases "indexOf path i")
    case (Some j)
    have j: "j < step_count path" "step_id path j = i" using indexOf_Some [OF Some] by simp_all
    have "step_id path k = i \<longleftrightarrow> k = j" if "k < step_count path"
      using assms j that by (auto simp: path_ok_def distinct_conv_nth)
    then show ?thesis
      using j that by (auto simp: click_def Some eq_commute [of "At j"] frontier_At is_open_def)
  qed (simp add: click_def)
  have "flips_ok path ms (ms, [])" by (simp add: flips_ok_def)
  then have "flips_ok path ms (fold (grade_one path) ids (ms, []))" for ids
    by (rule flips_ok_grades [OF assms])
  then show ?thesis
    using click by (cases "le_payload ev") (simp_all add: applyMarks_def flips_ok_def)
qed

lemma passed_ok_apply:
  assumes "path_ok path" and "passed_ok path ms"
  shows "passed_ok path (fst (applyMarks path ms ev))"
  unfolding passed_ok_def
proof (intro allI impI)
  fix i j assume i: "i < step_count path" "mark_of (fst (applyMarks path ms ev)) (step_id path i) = PassedM" and j: "j < i"
  have "\<not> is_open path ms j"
    using applyMarks_edge [of path ms ev "step_id path i"]
  proof
    assume "mark_of (fst (applyMarks path ms ev)) (step_id path i) = mark_of ms (step_id path i)"
    then show ?thesis using assms(2) i j by (simp add: passed_ok_def)
  next
    assume "edge path ms ev (step_id path i) (mark_of ms (step_id path i))
      (mark_of (fst (applyMarks path ms ev)) (step_id path i))"
    then obtain k where "frontierOf path ms = At k" "indexOf path (step_id path i) = Some k"
      using i(2) by (auto simp: edge_def)
    then show ?thesis using indexOf_step [of path i] assms(1) i(1) j by (auto simp: path_ok_def frontier_At)
  qed
  then show "\<not> is_open path (fst (applyMarks path ms ev)) j" by (rule is_open_le [OF applyMarks_le])
qed

lemma walk_leaves:
  assumes "\<forall>k\<in>set fl. k < step_count path \<longrightarrow> \<not> is_open path ms k"
  shows "\<forall>j\<le>k. j < step_count path \<longrightarrow> \<not> is_open path ms j \<Longrightarrow> k \<in> set fl \<Longrightarrow>
    (\<forall>j. walk path ms fl (At k) = At j \<longrightarrow> k < j \<and> j \<notin> set fl)"
proof (induction "step_count path - k" arbitrary: k rule: less_induct)
  case less
  obtain p where p: "nextLegalAfter path ms k = Some p"
    "\<And>j. p = At j \<Longrightarrow> \<forall>i<j. i < step_count path \<longrightarrow> \<not> is_open path ms i"
    using next_exists [OF less.prems(1)] by metis
  show ?case
  proof (cases p)
    case (At j)
    have j: "k < j" "j < step_count path" using nextLegalAfter_greater p(1) At by simp_all
    show ?thesis
    proof (cases "j \<in> set fl")
      case True
      then have "\<forall>i\<le>j. i < step_count path \<longrightarrow> \<not> is_open path ms i"
        using p(2) [OF At] assms by (auto simp: le_less)
      then have "\<forall>i. walk path ms fl (At j) = At i \<longrightarrow> j < i \<and> i \<notin> set fl"
        using less.hyps [of j] j True by simp
      moreover have "walk path ms fl (At k) = walk path ms fl (At j)" using p(1) At less.prems(2) by simp
      ultimately show ?thesis using j(1) by (metis order.strict_trans)
    next
      case False
      then show ?thesis using p(1) At j less.prems(2) by simp
    qed
  qed (use p(1) less.prems(2) in simp)
qed

section \<open>Views\<close>

text \<open>The state behind a view, and the record with one more event.\<close>

abbreviation state_of :: "lesson_path \<Rightarrow> stored_lesson \<Rightarrow> fold_state" where
  "state_of path r \<equiv> foldl (fold_event path) (fold_start path (sl_snapshot r)) (sl_events r)"

definition with_event :: "stored_lesson \<Rightarrow> lesson_event \<Rightarrow> stored_lesson" where
  "with_event r ev = r\<lparr>sl_events := sl_events r @ [ev]\<rparr>"

lemma state_of_with_event: "state_of path (with_event r ev) = fold_event path (state_of path r) ev"
  by (simp add: with_event_def)

lemma view_simps [simp]:
  "lv_marks (foldRecord path r) = fo_marks (state_of path r)"
  "lv_cursor (foldRecord path r) = fo_cursor (state_of path r)"
  "lv_opened (foldRecord path r) = fo_opened (state_of path r)"
  "lv_frontier (foldRecord path r) = frontierOf path (fo_marks (state_of path r))"
  "lv_rungs (foldRecord path r) = fo_rungs (state_of path r)"
  "lv_attempts (foldRecord path r) = fo_attempts (state_of path r)"
  by (simp_all add: foldRecord_def view_of_def)

lemma cursor_same:
  assumes "snd (applyMarks path (fo_marks st) ev) = []" and "\<And>to. le_payload ev \<noteq> Move to"
  shows "fo_cursor (fold_event path st ev) = fo_cursor st"
  unfolding fold_event_cursor
  using assms by (cases "le_payload ev") (auto simp: applyCursor_def Let_def split: lesson_position.splits)

text \<open>
  When an event marks the step under a legal cursor, every step up to it is settled.
\<close>

lemma marked_before:
  assumes "path_ok path" "passed_ok path ms" "legal_in path ms (At k)"
    and "k \<in> set (snd (applyMarks path ms ev))"
  shows "\<forall>j\<le>k. j < step_count path \<longrightarrow> \<not> is_open path (fst (applyMarks path ms ev)) j"
proof -
  have k: "k < step_count path" using assms(3) by simp
  have "mark_of (fst (applyMarks path ms ev)) (step_id path k) \<noteq> mark_of ms (step_id path k)"
    using assms(4) flipped_iff [OF assms(1)] by blast
  then have "edge path ms ev (step_id path k) (mark_of ms (step_id path k))
      (mark_of (fst (applyMarks path ms ev)) (step_id path k))"
    using applyMarks_edge [of path ms ev "step_id path k"] by simp
  then have was: "mark_of ms (step_id path k) \<in> {OpenM, PassedM}"
    and now: "\<not> is_open path (fst (applyMarks path ms ev)) k"
    by (auto simp: edge_def is_open_def split: lesson_mark.splits)
  have "\<not> is_open path ms j" if "j < k" for j
    using was assms(2,3) that k unfolding legal_At passed_ok_def by (auto simp: is_open_def)
  then show ?thesis
    using is_open_le [OF applyMarks_le] now by (auto simp: le_less)
qed

lemma marked_cursor_leaves:
  assumes "path_ok path" "passed_ok path (fo_marks st)" "state_legal path st"
    and "fo_cursor st = At k" "k \<in> set (snd (applyMarks path (fo_marks st) ev))"
    and "fo_cursor (fold_event path st ev) = At j"
  shows "k < j \<and> j \<notin> set (snd (applyMarks path (fo_marks st) ev))"
proof -
  define ms' where "ms' = fst (applyMarks path (fo_marks st) ev)"
  define fl where "fl = snd (applyMarks path (fo_marks st) ev)"
  have kfl: "k \<in> set fl" using assms(5) by (simp add: fl_def)
  have before: "\<forall>j\<le>k. j < step_count path \<longrightarrow> \<not> is_open path ms' j"
    unfolding ms'_def using marked_before [OF assms(1,2) _ assms(5)] assms(3,4) by simp
  have settled: "\<forall>j\<in>set fl. j < step_count path \<longrightarrow> \<not> is_open path ms' j"
    using applyMarks_edge [of path "fo_marks st" ev] flipped_iff [OF assms(1), of _ "fo_marks st" ev]
    by (fastforce simp: edge_def is_open_def ms'_def fl_def split: lesson_mark.splits)
  obtain p where p: "nextLegalAfter path ms' k = Some p" using next_exists [OF before] by metis
  have cursor: "fo_cursor (applyCursor path ev fl (st\<lparr>fo_marks := ms'\<rparr>)) = At j"
    using assms(6) by (simp add: fold_event_cursor fl_def ms'_def)
  have "k < j \<and> j \<notin> set fl"
  proof (cases "le_payload ev")
    case (Graded ids)
    then show ?thesis
      using walk_leaves [OF settled before kfl] cursor kfl assms(4) by (simp add: applyCursor_def Let_def)
  next
    case (Pass i)
    then have "fl = [k]" using kfl by (auto simp: fl_def applyMarks_def click_def split: option.splits if_splits)
    then show ?thesis
      using cursor p nextLegalAfter_greater [of path ms' k] Pass by (auto simp: applyCursor_def Let_def)
  next
    case (Attest i)
    then have "fl = [k]" using kfl by (auto simp: fl_def applyMarks_def click_def split: option.splits if_splits)
    then show ?thesis
      using cursor p nextLegalAfter_greater [of path ms' k] Attest by (auto simp: applyCursor_def Let_def)
  qed (use kfl in \<open>simp_all add: fl_def applyMarks_def\<close>)
  then show ?thesis by (simp add: fl_def)
qed

section \<open>Properties\<close>

text \<open>
  The learner always stands somewhere legal. Whatever the log and the snapshot hold, even ones
  nobody wrote, the cursor the fold arrives at is the end with nothing open, a step that is not open,
  or the first open step.
\<close>

lemma cursor_always_legal: "legal path (foldRecord path r) (lv_cursor (foldRecord path r))"
  using lesson.inv_run [of path "sl_snapshot r" "sl_events r"] by (simp add: legal_def)

text \<open>
  Marks move only along the table. One more event leaves the mark of a step alone, or makes an
  open or passed machine-graded step proved because the event grades it, or makes the open step at
  the frontier passed (machine-graded) or attested (an attestation) because a person, never the
  toolchain, asked for that very step. Nothing ever becomes open again.
\<close>

lemma marks_follow_edges:
  "let v = foldRecord path r; v' = foldRecord path (with_event r ev)
   in mark_of (lv_marks v') i = mark_of (lv_marks v) i \<or>
      edge path (lv_marks v) ev i (mark_of (lv_marks v) i) (mark_of (lv_marks v') i)"
  using applyMarks_edge [of path "fo_marks (state_of path r)" ev i]
  by (simp only: Let_def view_simps state_of_with_event fold_event_marks)

text \<open>
  A trim loses nothing that is known. For a path whose step ids are distinct and none of which
  is the reserved word, the trimmed record has the marks, the cursor, the frontier and the opened
  pages of the whole one, and at most two hundred events.
\<close>

lemma trim_keeps_view:
  assumes "path_ok path"
  shows "let v = foldRecord path r; v' = foldRecord path (trimRecord path r)
    in lv_marks v' = lv_marks v \<and> lv_cursor v' = lv_cursor v \<and> lv_frontier v' = lv_frontier v \<and>
       lv_opened v' = lv_opened v \<and> length (sl_events (trimRecord path r)) \<le> 200"
  using trim_core [OF assms, of r]
  by (auto simp: core_def Let_def trimRecord_def TRIM_CAP_def TRIM_KEEP_def)

definition example_path :: lesson_path where
  "example_path =
     \<lparr>lp_tutorial = ''t'', lp_steps =
       [\<lparr>ls_id = ''a'', ls_objective = [], ls_verifiedBy = [], ls_verify = BuildPasses, ls_hints = []\<rparr>,
        \<lparr>ls_id = ''b'', ls_objective = [], ls_verifiedBy = [], ls_verify = Read Write, ls_hints = []\<rparr>]\<rparr>"

definition an_event :: "rat \<Rightarrow> lesson_actor \<Rightarrow> lesson_payload \<Rightarrow> lesson_event" where
  "an_event n who pl = \<lparr>le_seq = n, le_at = None, le_actor = who, le_via = False, le_payload = pl\<rparr>"

lemma example_path_ok: "path_ok example_path"
  by (simp add: path_ok_def example_path_def)

lemma trim_keeps_view_example:
  "let r = \<lparr>sl_snapshot = None, sl_events = an_event 1 Toolchain (Graded [''a'']) # replicate 200 (an_event 2 Learner Enter)\<rparr>
   in lv_cursor (foldRecord example_path (trimRecord example_path r)) = lv_cursor (foldRecord example_path r) \<and>
      length (sl_events (trimRecord example_path r)) \<le> 200"
  using trim_keeps_view [OF example_path_ok] by (simp only: Let_def)

text \<open>
  An event is admitted exactly when it has something to do. A grade, a click or a move is
  admitted if and only if appending it changes a mark or the cursor; the note that a page of the
  path was opened, if and only if it is new; the other facts always.
\<close>

lemma admits_iff_changes:
  "let v = foldRecord path r; v' = foldRecord path (with_event r ev);
       differs = (\<not> (lv_cursor v' = lv_cursor v \<and> (\<forall>i. mark_of (lv_marks v') i = mark_of (lv_marks v) i) \<and>
                     lv_opened v' = lv_opened v))
   in admits path v ev =
      (case le_payload ev of
         Graded ids \<Rightarrow> differs | Pass i \<Rightarrow> differs | Attest i \<Rightarrow> differs | Move to \<Rightarrow> differs
       | Opened i \<Rightarrow> indexOf path i \<noteq> None \<and> differs
       | _ \<Rightarrow> True)"
proof -
  define st where "st = state_of path r"
  have ev: "state_of path (with_event r ev) = fold_event path st ev"
    by (simp only: state_of_with_event st_def)
  note flips = applyMarks_flips [of path "fo_marks st" ev]
  have opened: "fo_opened (fold_event path st ev) = fo_opened st" if "\<And>i. le_payload ev \<noteq> Opened i"
    using that by (auto simp: fold_event_opened split: lesson_payload.splits)
  show ?thesis
  proof (cases "le_payload ev")
    case (Move to)
    then have "applyMarks path (fo_marks st) ev = (fo_marks st, [])" by (simp add: applyMarks_def)
    then show ?thesis
      using Move opened
      by (auto simp: Let_def admits_def ev st_def [symmetric] fold_event_marks fold_event_cursor applyCursor_def legal_def
          split: option.splits)
  next
    case (Opened i)
    then have "applyMarks path (fo_marks st) ev = (fo_marks st, [])" by (simp add: applyMarks_def)
    then show ?thesis
      using Opened cursor_same [of path st ev]
      by (auto simp: Let_def admits_def ev st_def [symmetric] fold_event_marks fold_event_opened)
  next
    case (Graded ids)
    then show ?thesis
      using flips cursor_same [of path st ev] opened
      by (auto simp: Let_def admits_def ev st_def [symmetric] fold_event_marks)
  next
    case (Pass i)
    then show ?thesis
      using flips cursor_same [of path st ev] opened
      by (auto simp: Let_def admits_def ev st_def [symmetric] fold_event_marks)
  next
    case (Attest i)
    then show ?thesis
      using flips cursor_same [of path st ev] opened
      by (auto simp: Let_def admits_def ev st_def [symmetric] fold_event_marks)
  qed (simp_all add: Let_def admits_def)
qed

text \<open>
  A learner is never left on the step an event has just settled. In a record in which nothing
  open comes before a passed step (as in every record the store writes), an event that changes the
  mark of the step under the cursor takes the cursor off it, to the end or to a later step whose
  mark the event did not change: the stay-put fallback of the code is never taken.
\<close>

lemma marked_step_is_left:
  assumes "path_ok path" and "passed_ok path (lv_marks (foldRecord path r))"
    and "lv_cursor (foldRecord path r) = At k"
    and "mark_of (lv_marks (foldRecord path (with_event r ev))) (step_id path k) \<noteq>
         mark_of (lv_marks (foldRecord path r)) (step_id path k)"
  shows "case lv_cursor (foldRecord path (with_event r ev)) of
      End \<Rightarrow> True
    | At j \<Rightarrow> k < j \<and> mark_of (lv_marks (foldRecord path (with_event r ev))) (step_id path j) =
                       mark_of (lv_marks (foldRecord path r)) (step_id path j)"
proof (cases "lv_cursor (foldRecord path (with_event r ev))")
  case (At j)
  let ?st = "state_of path r"
  have legal: "state_legal path ?st" by (rule lesson.inv_run)
  have flip: "i \<in> set (snd (applyMarks path (fo_marks ?st) ev)) \<longleftrightarrow> i < step_count path \<and>
      mark_of (lv_marks (foldRecord path (with_event r ev))) (step_id path i) \<noteq>
      mark_of (lv_marks (foldRecord path r)) (step_id path i)" for i
    unfolding view_simps state_of_with_event fold_event_marks by (rule flipped_iff [OF assms(1)])
  have "k < step_count path" using legal assms(3) by simp
  then have "k < j \<and> j \<notin> set (snd (applyMarks path (fo_marks ?st) ev))"
    using marked_cursor_leaves [of path ?st k ev j] assms legal flip [of k] At
    by (simp add: state_of_with_event)
  moreover have "j < step_count path"
    using lesson.inv_run [of path "sl_snapshot (with_event r ev)" "sl_events (with_event r ev)"] At by simp
  ultimately show ?thesis using flip [of j] At by simp
qed simp

lemma marked_step_is_left_example:
  "let r = \<lparr>sl_snapshot = None, sl_events = [an_event 1 Learner Enter]\<rparr>;
       v' = foldRecord example_path (with_event r (an_event 2 Toolchain (Graded [''a''])))
   in case lv_cursor v' of End \<Rightarrow> True
      | At j \<Rightarrow> 0 < j \<and> mark_of (lv_marks v') (step_id example_path j) =
                         mark_of (lv_marks (foldRecord example_path r)) (step_id example_path j)"
  unfolding Let_def
  by (rule marked_step_is_left [OF example_path_ok, of _ 0]) (code_simp; simp add: passed_ok_def)+

end
