(* ===== verification/Lesson_Store.thy ===== *)
theory Lesson_Store
  imports Lesson_Correct
begin

text \<open>
  The lesson the learner is in: the registry of paths (\<^verbatim>\<open>registry.ts\<close>), the hint ladder's prompt
  (\<^verbatim>\<open>hints.ts\<close>), reading stored records of both versions (\<^verbatim>\<open>migrate.ts\<close>) and the store's reducer
  with its load and its write-through (\<^verbatim>\<open>store.ts\<close>), all under \<^verbatim>\<open>views/flow/lessons\<close>. A stored value
  is a JSON value; where the code goes on with a value its type guard has let through,
  \<open>as_stored\<close> and \<open>as_progress\<close> are the typed reading of it: the code casts the value and reads its fields where it
  needs them, so the readings mean something only for values the guard accepts, and are applied to no others.
\<close>

section \<open>The registry\<close>

datatype path_error =
    NotATutorial string
  | NoSteps string
  | DuplicateStep string string
  | NoInstruction string

fun validate_steps :: "string \<Rightarrow> string list \<Rightarrow> lesson_step list \<Rightarrow> path_error option" where
  "validate_steps tutorial seen [] = None"
| "validate_steps tutorial seen (s # ss) =
     (if ls_id s \<in> set seen then Some (DuplicateStep tutorial (ls_id s))
      else (case ls_verify s of
          IdlShape [] arg account \<Rightarrow> Some (NoInstruction (ls_id s))
        | _ \<Rightarrow> validate_steps tutorial (seen @ [ls_id s]) ss))"

definition validatePath :: "lesson_path \<Rightarrow> string list \<Rightarrow> path_error option" where
  "validatePath path tutorialNames =
     (if lp_tutorial path \<notin> set tutorialNames then Some (NotATutorial (lp_tutorial path))
      else if length (lp_steps path) = 0 then Some (NoSteps (lp_tutorial path))
      else validate_steps (lp_tutorial path) [] (lp_steps path))"

text \<open>All paths are checked before any is installed; an error leaves the installed ones.\<close>

fun registerPaths :: "lesson_path list \<Rightarrow> string list \<Rightarrow> path_error + lesson_path list" where
  "registerPaths nxt tutorialNames =
     (case List.map_filter (\<lambda>p. validatePath p tutorialNames) nxt of
        e # _ \<Rightarrow> Inl e
      | [] \<Rightarrow> Inr nxt)"

definition getLessonPath :: "lesson_path list \<Rightarrow> string option \<Rightarrow> lesson_path option" where
  "getLessonPath paths tutorialName =
     (case tutorialName of
        None \<Rightarrow> None
      | Some [] \<Rightarrow> None
      | Some n \<Rightarrow> find (\<lambda>p. lp_tutorial p = n) paths)"

section \<open>Hints\<close>

definition RUNG_COUNT :: nat where
  "RUNG_COUNT = 3"

text \<open>A missing hint prints as nothing, as \<^verbatim>\<open>undefined\<close> does in a join.\<close>

definition hintPrompt :: "lesson_step \<Rightarrow> nat \<Rightarrow> string" where
  "hintPrompt step r =
     js_join
       [''Hint '' @ js_nat r @ '' of '' @ js_nat RUNG_COUNT @ ''.'',
        ''I am on this lesson step: '' @ ls_objective step,
        ''It is finished when '' @ ls_verifiedBy step @ ''.'',
        if 1 \<le> r \<and> r - 1 < length (ls_hints step) then ls_hints step ! (r - 1) else []]"

section \<open>Stored records\<close>

record lesson_progress_v1 =
  v1_completed :: "string list"
  v1_skipped :: "string list option"
  v1_current :: "string option"

fun is_str :: "json option \<Rightarrow> bool" where
  "is_str (Some (JStr s)) \<longleftrightarrow> True"
| "is_str v \<longleftrightarrow> False"

fun is_num :: "json option \<Rightarrow> bool" where
  "is_num (Some (JNum n)) \<longleftrightarrow> True"
| "is_num v \<longleftrightarrow> False"

fun is_arr :: "json option \<Rightarrow> bool" where
  "is_arr (Some (JArr vs)) \<longleftrightarrow> True"
| "is_arr v \<longleftrightarrow> False"

fun elems :: "json option \<Rightarrow> json list" where
  "elems (Some (JArr vs)) = vs"
| "elems v = []"

definition all_strs :: "json option \<Rightarrow> bool" where
  "all_strs v \<longleftrightarrow> is_arr v \<and> list_all (\<lambda>x. is_str (Some x)) (elems v)"

fun strs :: "json list \<Rightarrow> string list" where
  "strs [] = []"
| "strs (JStr s # vs) = s # strs vs"
| "strs (v # vs) = strs vs"

text \<open>The fields of a value that is an object; an array has none of the names asked for here.\<close>

fun is_object :: "json \<Rightarrow> bool" where
  "is_object (JObj flds) \<longleftrightarrow> True"
| "is_object (JArr vs) \<longleftrightarrow> True"
| "is_object v \<longleftrightarrow> False"

fun field :: "json \<Rightarrow> string \<Rightarrow> json option" where
  "field (JObj flds) k = map_of flds k"
| "field v k = None"

definition isV1 :: "json \<Rightarrow> bool" where
  "isV1 raw \<longleftrightarrow>
     is_object raw \<and> is_arr (field raw ''completedStepIds'') \<and>
     (field raw ''currentStepId'' = Some JNull \<or> is_str (field raw ''currentStepId''))"

definition MARKS :: "string list" where
  "MARKS = [''open'', ''proved'', ''attested'', ''passed'']"

fun is_mark_entry :: "json \<Rightarrow> bool" where
  "is_mark_entry (JArr (JStr i # JStr m # _)) \<longleftrightarrow> m \<in> set MARKS"
| "is_mark_entry v \<longleftrightarrow> False"

definition isSnapshot :: "json \<Rightarrow> bool" where
  "isSnapshot raw \<longleftrightarrow>
     is_object raw \<and>
     is_arr (field raw ''marks'') \<and> list_all is_mark_entry (elems (field raw ''marks'')) \<and>
     is_str (field raw ''cursor'') \<and>
     (field raw ''opened'' = None \<or> all_strs (field raw ''opened''))"

definition isEvent :: "json \<Rightarrow> bool" where
  "isEvent raw \<longleftrightarrow>
     is_object raw \<and> is_num (field raw ''seq'') \<and>
     (field raw ''at'' = Some JNull \<or> is_num (field raw ''at'')) \<and>
     is_str (field raw ''actor'') \<and>
     (case as_str (field raw ''type'') of
        None \<Rightarrow> False
      | Some t \<Rightarrow>
          if t = ''enter'' then True
          else if t = ''graded'' then all_strs (field raw ''stepIds'')
          else if t \<in> {''checked'', ''pass'', ''attest'', ''opened''} then is_str (field raw ''stepId'')
          else if t = ''move'' then is_str (field raw ''to'')
          else if t = ''attempt'' then is_num (field raw ''startedAt'')
          else if t = ''hint'' then is_str (field raw ''stepId'') \<and> is_num (field raw ''rung'')
          else False)"

definition isV2 :: "json \<Rightarrow> bool" where
  "isV2 raw \<longleftrightarrow>
     is_object raw \<and> field raw ''v'' = Some (JNum 2) \<and>
     is_arr (field raw ''events'') \<and> list_all isEvent (elems (field raw ''events'')) \<and>
     (case field raw ''snapshot'' of None \<Rightarrow> True | Some s \<Rightarrow> isSnapshot s)"

section \<open>The typed reading of a stored value\<close>

definition str_of :: "json option \<Rightarrow> string" where
  "str_of v = (case as_str v of None \<Rightarrow> [] | Some s \<Rightarrow> s)"

fun num_of :: "json option \<Rightarrow> rat option" where
  "num_of (Some (JNum n)) = Some n"
| "num_of v = None"

definition as_mark :: "string \<Rightarrow> lesson_mark" where
  "as_mark m =
     (if m = ''proved'' then ProvedM else if m = ''attested'' then AttestedM
      else if m = ''passed'' then PassedM else OpenM)"

fun as_mark_entry :: "json \<Rightarrow> string \<times> lesson_mark" where
  "as_mark_entry (JArr (JStr i # JStr m # _)) = (i, as_mark m)"
| "as_mark_entry v = ([], OpenM)"

definition as_actor :: "string \<Rightarrow> lesson_actor" where
  "as_actor a = (if a = ''toolchain'' then Toolchain else if a = ''learner'' then Learner else Unknown)"

definition as_payload :: "json \<Rightarrow> lesson_payload" where
  "as_payload raw =
     (let t = str_of (field raw ''type''); i = str_of (field raw ''stepId'')
      in if t = ''graded'' then Graded (strs (elems (field raw ''stepIds'')))
         else if t = ''checked'' then Checked i (as_str (field raw ''output''))
         else if t = ''pass'' then Pass i
         else if t = ''attest'' then Attest i
         else if t = ''opened'' then Opened i
         else if t = ''move'' then Move (str_of (field raw ''to''))
         else if t = ''attempt'' then Attempt (the (num_of (field raw ''startedAt'')))
         else if t = ''hint'' then Hint i (the (num_of (field raw ''rung'')))
         else Enter)"

definition as_event :: "json \<Rightarrow> lesson_event" where
  "as_event raw =
     \<lparr>le_seq = the (num_of (field raw ''seq'')), le_at = num_of (field raw ''at''),
      le_actor = as_actor (str_of (field raw ''actor'')),
      le_via = (field raw ''via'' = Some (JStr ''agent'')),
      le_payload = as_payload raw\<rparr>"

definition as_snapshot :: "json \<Rightarrow> lesson_snapshot" where
  "as_snapshot raw =
     \<lparr>sn_marks = map as_mark_entry (elems (field raw ''marks'')),
      sn_cursor = str_of (field raw ''cursor''),
      sn_opened = (case field raw ''opened'' of None \<Rightarrow> None | Some v \<Rightarrow> Some (strs (elems (Some v))))\<rparr>"

definition as_stored :: "json \<Rightarrow> stored_lesson" where
  "as_stored raw =
     \<lparr>sl_snapshot = map_option as_snapshot (field raw ''snapshot''),
      sl_events = map as_event (elems (field raw ''events''))\<rparr>"

text \<open>
  Ids of a version 1 record: only strings are ever compared equal with a step id, so anything else in
  the arrays plays no part. The guard does not look at the skipped ids: an absent or null field is an
  empty list, \<^verbatim>\<open>includes\<close> on a string asks for a substring, and on anything else it throws as soon
  as there is a step to ask about.
\<close>

definition as_progress :: "lesson_path \<Rightarrow> json \<Rightarrow> lesson_progress_v1" where
  "as_progress path raw =
     \<lparr>v1_completed = strs (elems (field raw ''completedStepIds'')),
      v1_skipped = (case field raw ''skippedStepIds'' of
          Some (JArr vs) \<Rightarrow> Some (strs vs)
        | Some (JStr s) \<Rightarrow> Some (filter (\<lambda>i. js_includes i s) (map ls_id (lp_steps path)))
        | _ \<Rightarrow> None),
      v1_current = as_str (field raw ''currentStepId'')\<rparr>"

definition v1_throws :: "lesson_path \<Rightarrow> json \<Rightarrow> bool" where
  "v1_throws path raw \<longleftrightarrow>
     lp_steps path \<noteq> [] \<and>
     (case field raw ''skippedStepIds'' of
        Some (JNum n) \<Rightarrow> True | Some (JBool b) \<Rightarrow> True | Some (JObj flds) \<Rightarrow> True | _ \<Rightarrow> False)"

section \<open>Migration\<close>

definition migrated :: "stored_lesson \<Rightarrow> lesson_payload \<Rightarrow> lesson_event" where
  "migrated r pl =
     \<lparr>le_seq = nextSeq r, le_at = None, le_actor = Unknown, le_via = False, le_payload = pl\<rparr>"

definition migrate_append :: "lesson_path \<Rightarrow> lesson_payload \<Rightarrow> stored_lesson \<Rightarrow> stored_lesson" where
  "migrate_append path pl r =
     (if \<not> admits path (foldRecord path r) (migrated r pl) then r
      else \<lparr>sl_snapshot = None, sl_events = sl_events r @ [migrated r pl]\<rparr>)"

definition migrate_step :: "lesson_path \<Rightarrow> lesson_progress_v1 \<Rightarrow> lesson_step \<Rightarrow> stored_lesson \<Rightarrow> stored_lesson" where
  "migrate_step path v1 step r =
     (let attestation = (graderClass (ls_verify step) = Attestation);
          r1 = fold (\<lambda>i r. if i \<noteq> ls_id step then r
                 else if attestation then migrate_append path (Attest (ls_id step)) r
                 else migrate_append path (Graded [ls_id step]) r) (v1_completed v1) r
      in if ls_id step \<in> set (case v1_skipped v1 of None \<Rightarrow> [] | Some is \<Rightarrow> is)
         then (if attestation then migrate_append path (Attest (ls_id step)) r1
               else migrate_append path (Pass (ls_id step)) r1)
         else r1)"

definition migrateV1 :: "lesson_path \<Rightarrow> lesson_progress_v1 \<Rightarrow> stored_lesson" where
  "migrateV1 path v1 =
     (let r = fold (migrate_step path v1) (lp_steps path) \<lparr>sl_snapshot = None, sl_events = []\<rparr>
      in case v1_current v1 of None \<Rightarrow> r | Some i \<Rightarrow> migrate_append path (Move i) r)"

section \<open>The store\<close>

record lesson_state =
  st_path :: "lesson_path option"
  st_record :: stored_lesson
  st_loadFailed :: bool

definition INITIAL_LESSON_STATE :: lesson_state where
  "INITIAL_LESSON_STATE = \<lparr>st_path = None, st_record = EMPTY_STORED, st_loadFailed = False\<rparr>"

datatype lesson_action =
    LoadAction "lesson_path option" "stored_lesson option" "bool option" rat
  | EvaluateAction flow_state "idl option" rat
  | PassAction rat
  | AttestAction rat
  | MoveAction string rat
  | HintAction rat
  | OpenedAction string rat

definition store_append :: "lesson_payload \<Rightarrow> lesson_actor \<Rightarrow> rat \<Rightarrow> lesson_state \<Rightarrow> lesson_state" where
  "store_append pl who t st =
     (case st_path st of
        None \<Rightarrow> st
      | Some path \<Rightarrow>
          let ev = \<lparr>le_seq = nextSeq (st_record st), le_at = Some t, le_actor = who, le_via = False,
                    le_payload = pl\<rparr>
          in if \<not> admits path (foldRecord path (st_record st)) ev then st
             else st\<lparr>st_record := trimRecord path
                       ((st_record st)\<lparr>sl_events := sl_events (st_record st) @ [ev]\<rparr>)\<rparr>)"

definition onFrontier :: "lesson_state \<Rightarrow> lesson_step option" where
  "onFrontier st =
     (case st_path st of
        None \<Rightarrow> None
      | Some path \<Rightarrow>
          let v = foldRecord path (st_record st)
          in if lv_cursor v \<noteq> lv_frontier v then None else cursorStep path v)"

definition gradable :: "lesson_path \<Rightarrow> lesson_view \<Rightarrow> flow_state \<Rightarrow> idl option \<Rightarrow> string list" where
  "gradable path v flow idl' =
     map ls_id (filter (\<lambda>s.
       (map_of (lv_marks v) (ls_id s) = Some OpenM \<or> map_of (lv_marks v) (ls_id s) = Some PassedM) \<and>
       graderClass (ls_verify s) \<noteq> Attestation \<and> isSatisfied (ls_verify s) flow idl') (lp_steps path))"

definition is_attempt :: "rat \<Rightarrow> lesson_event \<Rightarrow> bool" where
  "is_attempt t e \<longleftrightarrow> le_payload e = Attempt t"

fun reduceLesson :: "lesson_state \<Rightarrow> lesson_action \<Rightarrow> lesson_state" where
  "reduceLesson st (LoadAction path' rec failed t) =
     (case path' of
        None \<Rightarrow> INITIAL_LESSON_STATE
      | Some path \<Rightarrow>
          store_append Enter Learner t
            \<lparr>st_path = Some path, st_record = (case rec of None \<Rightarrow> EMPTY_STORED | Some r \<Rightarrow> r),
             st_loadFailed = (case failed of None \<Rightarrow> False | Some b \<Rightarrow> b)\<rparr>)"
| "reduceLesson st (EvaluateAction flow idl' t) =
     (case st_path st of
        None \<Rightarrow> st
      | Some path \<Rightarrow>
          let nxt = (case fs_buildStartedAt flow of
                       None \<Rightarrow> st
                     | Some n \<Rightarrow>
                         if list_ex (is_attempt (rat_of_int n)) (sl_events (st_record st)) then st
                         else store_append (Attempt (rat_of_int n)) Learner t st);
              ids = gradable path (foldRecord path (st_record nxt)) flow idl'
          in if length ids > 0 then store_append (Graded ids) Toolchain t nxt else nxt)"
| "reduceLesson st (PassAction t) =
     (case onFrontier st of None \<Rightarrow> st | Some s \<Rightarrow> store_append (Pass (ls_id s)) Learner t st)"
| "reduceLesson st (AttestAction t) =
     (case onFrontier st of None \<Rightarrow> st | Some s \<Rightarrow> store_append (Attest (ls_id s)) Learner t st)"
| "reduceLesson st (MoveAction to t) = store_append (Move to) Learner t st"
| "reduceLesson st (HintAction t) =
     (case st_path st of
        None \<Rightarrow> st
      | Some path \<Rightarrow>
          let v = foldRecord path (st_record st)
          in (case cursorStep path v of
                None \<Rightarrow> st
              | Some s \<Rightarrow>
                  let used = rung v (ls_id s);
                      ceiling = (if attempted path v (ls_id s) then RUNG_COUNT else 1)
                  in if used \<ge> ceiling then st
                     else store_append (Hint (ls_id s) (of_nat (used + 1))) Learner t st))"
| "reduceLesson st (OpenedAction i t) = store_append (Opened i) Learner t st"

text \<open>
  The load of \<^verbatim>\<open>PgLesson.init\<close>: what the storage hands back is the default object itself (nothing
  stored, or a read that failed silently), \<^verbatim>\<open>undefined\<close>, or a value; the read may throw.
\<close>

datatype loaded = LoadedDefault | LoadedUndefined | LoadedValue json | LoadThrew

definition load_record :: "lesson_path \<Rightarrow> bool \<Rightarrow> loaded \<Rightarrow> stored_lesson \<times> bool" where
  "load_record path hasFile ld =
     (case ld of
        LoadThrew \<Rightarrow> (EMPTY_STORED, True)
      | LoadedDefault \<Rightarrow> (EMPTY_STORED, hasFile)
      | LoadedUndefined \<Rightarrow> (EMPTY_STORED, False)
      | LoadedValue v \<Rightarrow>
          if v = JNull then (EMPTY_STORED, False)
          else if isV2 v then (as_stored v, False)
          else if isV1 v
          then (if v1_throws path v then (EMPTY_STORED, True) else (migrateV1 path (as_progress path v), False))
          else (EMPTY_STORED, True))"

text \<open>What \<^verbatim>\<open>_persist\<close> writes, given the workspace that is open when the write lands.\<close>

definition persist :: "string option \<Rightarrow> string \<Rightarrow> stored_lesson \<Rightarrow> bool \<Rightarrow> stored_lesson option" where
  "persist currentWorkspace tutorial r loadFailed =
     (if loadFailed then None
      else if currentWorkspace \<noteq> Some tutorial then None
      else Some r)"

text \<open>
  \<^verbatim>\<open>_dispatch\<close>: the state after an action, and what it hands to \<^verbatim>\<open>_persist\<close>, which writes when
  the action is not a load, changed the state and leaves a path open.
\<close>

fun is_load :: "lesson_action \<Rightarrow> bool" where
  "is_load (LoadAction path' rec failed t) \<longleftrightarrow> True"
| "is_load a \<longleftrightarrow> False"

definition dispatch ::
  "string option \<Rightarrow> lesson_state \<Rightarrow> lesson_action \<Rightarrow> lesson_state \<times> stored_lesson option" where
  "dispatch currentWorkspace st a =
     (let nxt = reduceLesson st a
      in if nxt = st then (st, None)
         else (nxt, case st_path nxt of
             None \<Rightarrow> None
           | Some path \<Rightarrow>
               if is_load a then None
               else persist currentWorkspace (lp_tutorial path) (st_record nxt) (st_loadFailed nxt)))"

text \<open>What \<^verbatim>\<open>init\<close> dispatches for the workspace that is open, \<open>path'\<close> being its path.\<close>

definition load_action :: "lesson_path option \<Rightarrow> bool \<Rightarrow> loaded \<Rightarrow> rat \<Rightarrow> lesson_action" where
  "load_action path' hasFile ld t =
     (case path' of
        None \<Rightarrow> LoadAction None None None t
      | Some path \<Rightarrow>
          (case load_record path hasFile ld of
             (r, failed) \<Rightarrow> LoadAction (Some path) (Some r) (Some failed) t))"

definition canPass :: "lesson_state \<Rightarrow> bool" where
  "canPass st =
     (case st_path st of
        None \<Rightarrow> False
      | Some path \<Rightarrow>
          let v = foldRecord path (st_record st)
          in if lv_cursor v \<noteq> lv_frontier v then False
             else (case cursorStep path v of
                 None \<Rightarrow> False
               | Some s \<Rightarrow> graderClass (ls_verify s) \<noteq> Attestation))"

text \<open>\<^verbatim>\<open>moveBack\<close> and \<^verbatim>\<open>moveForward\<close>.\<close>

definition move_to ::
  "(lesson_path \<Rightarrow> lesson_view \<Rightarrow> lesson_position option) \<Rightarrow> rat \<Rightarrow> lesson_state \<Rightarrow> lesson_state" where
  "move_to pick' t st =
     (case st_path st of
        None \<Rightarrow> st
      | Some path \<Rightarrow>
          (case pick' path (foldRecord path (st_record st)) of
             None \<Rightarrow> st
           | Some p \<Rightarrow> reduceLesson st (MoveAction (position_id path p) t)))"

definition requestHint :: "rat \<Rightarrow> lesson_state \<Rightarrow> lesson_state \<times> string option" where
  "requestHint t st =
     (case st_path st of
        None \<Rightarrow> (st, None)
      | Some path \<Rightarrow>
          let v = foldRecord path (st_record st)
          in (case cursorStep path v of
                None \<Rightarrow> (st, None)
              | Some s \<Rightarrow>
                  let used = rung v (ls_id s); st' = reduceLesson st (HintAction t)
                  in (st', if st' = st then None else Some (hintPrompt s (used + 1)))))"

end
