(* ===== verification/Lesson_Migrate_Correct.thy ===== *)
theory Lesson_Migrate_Correct
  imports Lesson_Store
begin

text \<open>
  What the replay of a version 1 record (\<^verbatim>\<open>migrate.ts\<close>) makes of it: which marks the listed steps
  get, and that the synthesized events claim neither a time nor an author.
\<close>

section \<open>One appended event\<close>

abbreviation marks_at :: "lesson_path \<Rightarrow> stored_lesson \<Rightarrow> lesson_mark js_obj" where
  "marks_at path r \<equiv> fo_marks (state_of path r)"

fun is_hint :: "lesson_payload \<Rightarrow> bool" where
  "is_hint (Hint i r) \<longleftrightarrow> True"
| "is_hint _ \<longleftrightarrow> False"

definition plain_log :: "stored_lesson \<Rightarrow> bool" where
  "plain_log r \<longleftrightarrow>
     sl_snapshot r = None \<and> map le_seq (sl_events r) = map of_nat [1..<Suc (length (sl_events r))] \<and>
     (\<forall>e\<in>set (sl_events r). le_at e = None \<and> le_actor e = Unknown \<and> \<not> is_hint (le_payload e))"

lemma plain_log_next: "plain_log r \<Longrightarrow> nextSeq r = of_nat (Suc (length (sl_events r)))"
proof (cases "sl_events r" rule: rev_cases)
  case (snoc evs e)
  assume "plain_log r"
  then have "last (map le_seq (sl_events r)) = last (map of_nat [1..<Suc (length (sl_events r))])"
    by (simp add: plain_log_def)
  then show ?thesis using snoc by (simp add: nextSeq_def last_map del: upt_Suc)
qed (simp add: nextSeq_def)

lemma plain_log_append: "plain_log r \<Longrightarrow> \<not> is_hint pl \<Longrightarrow> plain_log (migrate_append path pl r)"
  using plain_log_next [of r] by (auto simp: migrate_append_def plain_log_def migrated_def)

lemma marks_append:
  assumes "plain_log r"
  shows "marks_at path (migrate_append path pl r) = fst (applyMarks path (marks_at path r) (migrated r pl))"
proof (cases "admits path (foldRecord path r) (migrated r pl)")
  case True
  then show ?thesis
    using assms by (simp add: migrate_append_def plain_log_def fold_event_marks)
next
  case False
  then have "snd (applyMarks path (marks_at path r) (migrated r pl)) = []"
    by (auto simp: admits_def applyMarks_def split: lesson_payload.splits)
  then show ?thesis using False applyMarks_flips(2) by (simp add: migrate_append_def)
qed

lemma human_migrated [simp]: "isHuman (migrated r pl)" "le_payload (migrated r pl) = pl"
  by (simp_all add: isHuman_def migrated_def)

section \<open>One step of the path\<close>

text \<open>The event a completed step is replayed as, and the one a skipped step is.\<close>

definition completion :: "lesson_step \<Rightarrow> lesson_payload" where
  "completion s = (if graderClass (ls_verify s) = Attestation then Attest (ls_id s) else Graded [ls_id s])"

definition skip :: "lesson_step \<Rightarrow> lesson_payload" where
  "skip s = (if graderClass (ls_verify s) = Attestation then Attest (ls_id s) else Pass (ls_id s))"

lemma no_hint [simp]: "\<not> is_hint (completion s)" "\<not> is_hint (skip s)"
  by (simp_all add: completion_def skip_def)

lemma own_mark_only:
  assumes "pl \<in> {completion s, skip s}" "i \<noteq> ls_id s"
  shows "mark_of (fst (applyMarks path ms (migrated r pl))) i = mark_of ms i"
  using assms
  by (auto simp: applyMarks_def completion_def skip_def grade_one_def click_def dest!: indexOf_Some
      split: option.splits)

lemma completion_mark:
  assumes "indexOf path (ls_id s) = Some k" "lp_steps path ! k = s" "mark_of ms (ls_id s) = OpenM"
  shows "mark_of (fst (applyMarks path ms (migrated r (completion s)))) (ls_id s) =
    (if graderClass (ls_verify s) \<noteq> Attestation then ProvedM
     else if frontierOf path ms = At k then AttestedM else OpenM)"
  using assms by (auto simp: completion_def applyMarks_def grade_one_def click_def)

lemma skip_mark:
  assumes "indexOf path (ls_id s) = Some k" "lp_steps path ! k = s" "frontierOf path ms = At k"
  shows "mark_of (fst (applyMarks path ms (migrated r (skip s)))) (ls_id s) \<noteq> OpenM"
  using assms by (auto simp: skip_def applyMarks_def click_def)

definition replay_completed :: "lesson_path \<Rightarrow> lesson_step \<Rightarrow> string list \<Rightarrow> stored_lesson \<Rightarrow> stored_lesson" where
  "replay_completed path s ids r = fold (\<lambda>i r. if i \<noteq> ls_id s then r else migrate_append path (completion s) r) ids r"

definition v1_skips :: "lesson_progress_v1 \<Rightarrow> string set" where
  "v1_skips v1 = set (case v1_skipped v1 of None \<Rightarrow> [] | Some is \<Rightarrow> is)"

lemma migrate_step_alt:
  "migrate_step path v1 s r =
     (let r1 = replay_completed path s (v1_completed v1) r
      in if ls_id s \<in> v1_skips v1 then migrate_append path (skip s) r1 else r1)"
  unfolding migrate_step_def replay_completed_def completion_def skip_def v1_skips_def
  by (cases "graderClass (ls_verify s) = Attestation") (simp_all only: Let_def refl if_True if_False simp_thms)

lemma plain_log_replay: "plain_log r \<Longrightarrow> plain_log (replay_completed path s ids r)"
  unfolding replay_completed_def by (induction ids arbitrary: r) (simp_all add: plain_log_append)

lemma replay_le: "plain_log r \<Longrightarrow> marks_le (marks_at path r) (marks_at path (replay_completed path s ids r))"
proof (induction ids arbitrary: r)
  case (Cons i ids)
  show ?case
  proof (cases "i = ls_id s")
    case True
    have "marks_le (marks_at path r) (marks_at path (migrate_append path (completion s) r))"
      by (simp only: marks_append [OF Cons.prems] applyMarks_le)
    also note Cons.IH [OF plain_log_append [OF Cons.prems no_hint(1)]]
    finally show ?thesis using True by (simp add: replay_completed_def)
  qed (use Cons in \<open>simp add: replay_completed_def\<close>)
qed (simp add: replay_completed_def)

lemma replay_other:
  "plain_log r \<Longrightarrow> i \<noteq> ls_id s \<Longrightarrow>
   mark_of (marks_at path (replay_completed path s ids r)) i = mark_of (marks_at path r) i"
  unfolding replay_completed_def
proof (induction ids arbitrary: r)
  case (Cons j ids)
  then show ?case
    using own_mark_only [of "completion s" s i path] plain_log_append
    by (auto simp del: foldl_append simp add: marks_append)
qed simp

lemma replay_absent: "ls_id s \<notin> set ids \<Longrightarrow> replay_completed path s ids r = r"
  unfolding replay_completed_def by (induction ids) auto

lemma replay_present:
  assumes "ls_id s \<in> set ids" "plain_log r"
  shows "marks_le (marks_at path (migrate_append path (completion s) r)) (marks_at path (replay_completed path s ids r))"
proof -
  obtain ys zs where ids: "ids = ys @ ls_id s # zs" "ls_id s \<notin> set ys"
    using split_list_first [OF assms(1)] by blast
  have "replay_completed path s ids r = replay_completed path s zs (migrate_append path (completion s) r)"
    using replay_absent [OF ids(2), of path r] by (simp add: ids(1) replay_completed_def)
  then show ?thesis using replay_le [OF plain_log_append [OF assms(2) no_hint(1)]] by simp
qed

definition v1_listed :: "lesson_progress_v1 \<Rightarrow> string set" where
  "v1_listed v1 = set (v1_completed v1) \<union> v1_skips v1"

lemma plain_log_step: "plain_log r \<Longrightarrow> plain_log (migrate_step path v1 s r)"
  by (simp add: migrate_step_alt Let_def plain_log_append plain_log_replay)

lemma migrate_step_other:
  assumes "plain_log r" "i \<noteq> ls_id s"
  shows "mark_of (marks_at path (migrate_step path v1 s r)) i = mark_of (marks_at path r) i"
proof -
  note r1 = plain_log_replay [OF assms(1), of path s "v1_completed v1"]
  have "mark_of (marks_at path (migrate_append path (skip s) (replay_completed path s (v1_completed v1) r))) i =
      mark_of (marks_at path (replay_completed path s (v1_completed v1) r)) i"
    unfolding marks_append [OF r1] by (rule own_mark_only [where s = s]) (simp_all add: assms(2))
  then show ?thesis
    using replay_other [OF assms] by (simp add: migrate_step_alt Let_def del: foldl_append)
qed

lemma migrate_step_after:
  assumes "plain_log r"
  shows "marks_le (marks_at path (replay_completed path s (v1_completed v1) r)) (marks_at path (migrate_step path v1 s r))"
  using applyMarks_le
  by (simp add: migrate_step_alt Let_def marks_append [OF plain_log_replay [OF assms]])

lemma marks_le_keeps:
  assumes "marks_le ms ms'"
  shows "mark_of ms i = ProvedM \<Longrightarrow> mark_of ms' i = ProvedM" "mark_of ms i \<noteq> OpenM \<Longrightarrow> mark_of ms' i \<noteq> OpenM"
  using assms unfolding marks_le_def mark_le_def by (metis lesson_mark.distinct)+

lemma migrate_step_own:
  fixes v1 :: lesson_progress_v1
  assumes s: "path_ok path" "k < step_count path" "lp_steps path ! k = s"
    and r: "plain_log r" "mark_of (marks_at path r) (ls_id s) = OpenM"
  defines "m \<equiv> mark_of (marks_at path (migrate_step path v1 s r)) (ls_id s)"
  shows "ls_id s \<in> set (v1_completed v1) \<Longrightarrow> graderClass (ls_verify s) \<noteq> Attestation \<Longrightarrow> m = ProvedM"
    and "ls_id s \<in> v1_listed v1 \<Longrightarrow> \<forall>j<k. \<not> is_open path (marks_at path r) j \<Longrightarrow> m \<noteq> OpenM"
    and "ls_id s \<notin> v1_listed v1 \<Longrightarrow> m = OpenM"
proof -
  let ?r1 = "replay_completed path s (v1_completed v1) r"
  have ix: "indexOf path (ls_id s) = Some k" using indexOf_step [of path k] s by (auto simp: path_ok_def)
  note own = completion_mark [OF ix s(3) r(2), of r]
  note later = marks_le_keeps [OF migrate_step_after [OF r(1), of path s v1]]
  note grown = marks_le_keeps [OF replay_present [OF _ r(1)], of s "v1_completed v1" path]
  show "m = ProvedM" if "ls_id s \<in> set (v1_completed v1)" "graderClass (ls_verify s) \<noteq> Attestation"
    unfolding m_def by (rule later(1), rule grown(1) [OF that(1)]) (simp only: marks_append [OF r(1)] own that simp_thms if_True)
  show "m = OpenM" if "ls_id s \<notin> v1_listed v1"
    using that r(2) replay_absent [of s "v1_completed v1" path r]
    by (simp add: m_def migrate_step_alt Let_def v1_listed_def)
  assume listed: "ls_id s \<in> v1_listed v1" and before: "\<forall>j<k. \<not> is_open path (marks_at path r) j"
  have fr: "frontierOf path (marks_at path r) = At k"
    using before s r(2) by (simp add: frontier_At is_open_def)
  show "m \<noteq> OpenM"
  proof (cases "ls_id s \<in> set (v1_completed v1)")
    case True
    show ?thesis
      unfolding m_def by (rule later(2), rule grown(2) [OF True]) (simp add: marks_append [OF r(1)] own fr)
  next
    case False
    then have "migrate_step path v1 s r = migrate_append path (skip s) r"
      using listed replay_absent [of s "v1_completed v1" path r]
      by (simp add: migrate_step_alt Let_def v1_listed_def)
    then show ?thesis
      using skip_mark [OF ix s(3) fr] by (simp only: m_def marks_append [OF r(1)] not_False_eq_True)
  qed
qed

section \<open>The whole path\<close>

definition replayed :: "lesson_path \<Rightarrow> lesson_progress_v1 \<Rightarrow> nat \<Rightarrow> stored_lesson" where
  "replayed path v1 k = fold (migrate_step path v1) (take k (lp_steps path)) \<lparr>sl_snapshot = None, sl_events = []\<rparr>"

lemma replayed_Suc:
  "k < step_count path \<Longrightarrow> replayed path v1 (Suc k) = migrate_step path v1 (lp_steps path ! k) (replayed path v1 k)"
  by (simp add: replayed_def take_Suc_conv_app_nth)

lemma plain_log_replayed: "k \<le> step_count path \<Longrightarrow> plain_log (replayed path v1 k)"
  by (induction k) (simp_all add: replayed_Suc plain_log_step, simp add: replayed_def plain_log_def)

definition replay_ok :: "lesson_path \<Rightarrow> lesson_progress_v1 \<Rightarrow> nat \<Rightarrow> lesson_mark js_obj \<Rightarrow> bool" where
  "replay_ok path v1 k ms \<longleftrightarrow>
     (\<forall>i<k. step_id path i \<in> set (v1_completed v1) \<and> graderClass (ls_verify (lp_steps path ! i)) \<noteq> Attestation \<longrightarrow>
        mark_of ms (step_id path i) = ProvedM) \<and>
     (\<forall>i<k. (\<forall>j\<le>i. step_id path j \<in> v1_listed v1) \<longrightarrow> mark_of ms (step_id path i) \<noteq> OpenM) \<and>
     (\<forall>i<step_count path. i \<ge> k \<or> step_id path i \<notin> v1_listed v1 \<longrightarrow> mark_of ms (step_id path i) = OpenM)"

lemma replayed_ok:
  assumes "path_ok path"
  shows "k \<le> step_count path \<Longrightarrow> replay_ok path v1 k (marks_at path (replayed path v1 k))"
proof (induction k)
  case 0
  have "mark_of (fo_marks (fold_start path None)) i = OpenM" for i
    by (simp add: mark_of_def fold_start_alt map_of_seed)
  then show ?case by (simp add: replay_ok_def replayed_def)
next
  case (Suc k)
  let ?r = "replayed path v1 k" and ?s = "lp_steps path ! k"
  have k: "k < step_count path" using Suc.prems by simp
  have IH: "replay_ok path v1 k (marks_at path ?r)" using Suc by simp
  have log: "plain_log ?r" using plain_log_replayed [of k path v1] k by simp
  have opn: "mark_of (marks_at path ?r) (ls_id ?s) = OpenM" using IH k by (simp add: replay_ok_def)
  have uniq: "step_id path i \<noteq> step_id path k" if "i < step_count path" "i \<noteq> k" for i
    using assms k that by (auto simp: path_ok_def distinct_conv_nth)
  have other: "mark_of (marks_at path (replayed path v1 (Suc k))) (step_id path i) = mark_of (marks_at path ?r) (step_id path i)"
    if "i < step_count path" "i \<noteq> k" for i
    unfolding replayed_Suc [OF k] by (rule migrate_step_other [OF log uniq [OF that]])
  note own = migrate_step_own [OF assms k refl log opn, of v1, folded replayed_Suc [OF k]]
  have before: "\<not> is_open path (marks_at path ?r) j" if "\<forall>i\<le>k. step_id path i \<in> v1_listed v1" "j < k" for j
    using IH that by (auto simp: replay_ok_def is_open_def)
  show ?case
    unfolding replay_ok_def
  proof (intro conjI allI impI)
    fix i assume i: "i < Suc k"
      and l: "step_id path i \<in> set (v1_completed v1) \<and> graderClass (ls_verify (lp_steps path ! i)) \<noteq> Attestation"
    then show "mark_of (marks_at path (replayed path v1 (Suc k))) (step_id path i) = ProvedM"
      using own(1) other [of i] IH k by (cases "i = k") (simp_all add: replay_ok_def del: foldl_append)
  next
    fix i assume i: "i < Suc k" and l: "\<forall>j\<le>i. step_id path j \<in> v1_listed v1"
    then show "mark_of (marks_at path (replayed path v1 (Suc k))) (step_id path i) \<noteq> OpenM"
      using own(2) before other [of i] IH k by (cases "i = k") (simp_all add: replay_ok_def)
  next
    fix i assume i: "i < step_count path" and l: "i \<ge> Suc k \<or> step_id path i \<notin> v1_listed v1"
    then show "mark_of (marks_at path (replayed path v1 (Suc k))) (step_id path i) = OpenM"
      using own(3) other [of i] IH by (cases "i = k") (auto simp: replay_ok_def)
  qed
qed

lemma migrateV1_alt:
  "migrateV1 path v1 =
     (case v1_current v1 of None \<Rightarrow> replayed path v1 (step_count path)
      | Some i \<Rightarrow> migrate_append path (Move i) (replayed path v1 (step_count path)))"
  by (cases "v1_current v1") (simp_all add: migrateV1_def replayed_def Let_def)

lemma migrateV1_marks:
  "marks_at path (migrateV1 path v1) = marks_at path (replayed path v1 (step_count path))"
  by (simp add: migrateV1_alt marks_append plain_log_replayed applyMarks_def split: option.splits)

lemma migrateV1_plain: "plain_log (migrateV1 path v1)"
  by (simp add: migrateV1_alt plain_log_append plain_log_replayed split: option.splits)

section \<open>Properties\<close>

text \<open>
  A version 1 record is carried over without a claim nobody made. The replay has no snapshot,
  its events are numbered from one without a gap and say neither when nor by whom; a machine-graded
  step listed as completed is proved; a step up to which every step is listed as completed or skipped
  is settled; and a step listed nowhere is open.
\<close>

lemma migration_faithful:
  assumes "path_ok path"
  shows "let r = migrateV1 path v1; ms = lv_marks (foldRecord path r)
    in sl_snapshot r = None \<and> map le_seq (sl_events r) = map of_nat [1..<Suc (length (sl_events r))] \<and>
       (\<forall>e\<in>set (sl_events r). le_at e = None \<and> le_actor e = Unknown) \<and>
       (\<forall>i<step_count path. step_id path i \<in> set (v1_completed v1) \<and> graderClass (ls_verify (lp_steps path ! i)) \<noteq> Attestation \<longrightarrow>
          mark_of ms (step_id path i) = ProvedM) \<and>
       (\<forall>i<step_count path. (\<forall>j\<le>i. step_id path j \<in> v1_listed v1) \<longrightarrow> mark_of ms (step_id path i) \<noteq> OpenM) \<and>
       (\<forall>i<step_count path. step_id path i \<notin> v1_listed v1 \<longrightarrow> mark_of ms (step_id path i) = OpenM)"
proof -
  have "plain_log (migrateV1 path v1)" by (rule migrateV1_plain)
  moreover have "replay_ok path v1 (step_count path) (marks_at path (migrateV1 path v1))"
    unfolding migrateV1_marks by (rule replayed_ok [OF assms order_refl])
  ultimately show ?thesis
    unfolding Let_def view_simps plain_log_def replay_ok_def by (intro conjI; blast)
qed

lemma migration_faithful_example:
  "let r = migrateV1 example_path \<lparr>v1_completed = [''a'', ''a''], v1_skipped = Some [''b''], v1_current = Some ''a''\<rparr>;
       ms = lv_marks (foldRecord example_path r)
   in sl_snapshot r = None \<and> mark_of ms (step_id example_path 0) = ProvedM \<and> mark_of ms (step_id example_path 1) \<noteq> OpenM"
proof -
  let ?v = "\<lparr>v1_completed = [''a'', ''a''], v1_skipped = Some [''b''], v1_current = Some ''a''\<rparr>"
  have p: "step_count example_path = 2" "step_id example_path 0 = ''a''" "step_id example_path 1 = ''b''"
    "graderClass (ls_verify (lp_steps example_path ! 0)) = Synchronous"
    by (simp_all add: example_path_def)
  have "step_id example_path j \<in> v1_listed ?v" if "j \<le> 1" for j
    using that p by (cases j) (simp_all add: v1_listed_def v1_skips_def)
  moreover have "step_id example_path 0 \<in> set (v1_completed ?v)" using p by simp
  ultimately show ?thesis
    using migration_faithful [OF example_path_ok, of ?v] unfolding Let_def p(1)
    by (metis p(4) grader_class.distinct(3) one_less_numeral_iff semiring_norm(76) zero_less_numeral)
qed

end
