(* ===== verification/Lesson_Store_Correct.thy ===== *)
theory Lesson_Store_Correct
  imports Lesson_Migrate_Correct
begin

text \<open>
  The store keeps a well-formed log, never writes over a record it could not read, reads back what it
  wrote, and carries a version 1 record over without claiming what nobody recorded.
\<close>

section \<open>Counting hints\<close>

fun hints_for :: "string \<Rightarrow> lesson_payload \<Rightarrow> bool" where
  "hints_for i (Hint j r) \<longleftrightarrow> i = j"
| "hints_for i _ \<longleftrightarrow> False"

abbreviation hint_count :: "string \<Rightarrow> lesson_event list \<Rightarrow> nat" where
  "hint_count i evs \<equiv> length (filter (\<lambda>e. hints_for i (le_payload e)) evs)"

definition rungs_at :: "fold_state \<Rightarrow> string \<Rightarrow> nat" where
  "rungs_at st i = (case map_of (fo_rungs st) i of None \<Rightarrow> 0 | Some n \<Rightarrow> n)"

lemma fold_event_rungs:
  "rungs_at (fold_event path st ev) i = rungs_at st i + (if hints_for i (le_payload ev) then 1 else 0)"
  by (cases "le_payload ev") (auto simp: rungs_at_def fold_event_def Let_def split_beta split: option.splits)

lemma rungs_fold: "rungs_at (foldl (fold_event path) st evs) i = rungs_at st i + hint_count i evs"
  by (induction evs arbitrary: st) (auto simp: fold_event_rungs)

lemma rung_count: "rung (foldRecord path r) i = hint_count i (sl_events r)"
proof -
  have "rungs_at (fold_start path snap) i = 0" for snap
    by (simp add: rungs_at_def fold_start_def Let_def)
  then show ?thesis
    using rungs_fold [of path "fold_start path (sl_snapshot r)" "sl_events r" i]
    by (simp add: rung_def rungs_at_def)
qed

section \<open>Well-formed logs\<close>

definition log_ok :: "lesson_path \<Rightarrow> stored_lesson \<Rightarrow> bool" where
  "log_ok path r \<longleftrightarrow>
     sorted_wrt (<) (map le_seq (sl_events r)) \<and>
     (\<forall>i. hint_count i (sl_events r) \<le> RUNG_COUNT) \<and> passed_ok path (fo_marks (state_of path r))"

lemma state_of_append:
  "state_of path (r\<lparr>sl_events := sl_events r @ [ev]\<rparr>) = fold_event path (state_of path r) ev"
  by simp

lemma sorted_append_next:
  "sorted_wrt (<) (map le_seq (sl_events r)) \<Longrightarrow> le_seq ev = nextSeq r \<Longrightarrow>
   sorted_wrt (<) (map le_seq (sl_events r @ [ev]))"
proof (cases "sl_events r" rule: rev_cases)
  case (snoc evs e)
  assume "sorted_wrt (<) (map le_seq (sl_events r))" "le_seq ev = nextSeq r"
  then show ?thesis
    using snoc by (force simp: sorted_wrt_append nextSeq_def)
qed simp

lemma sorted_wrt_drop': "sorted_wrt P xs \<Longrightarrow> sorted_wrt P (drop n xs)"
  by (metis append_take_drop_id sorted_wrt_append)

lemma hint_count_drop: "hint_count i (drop n evs) \<le> hint_count i evs"
proof -
  have "hint_count i evs = hint_count i (take n evs) + hint_count i (drop n evs)"
    by (metis append_take_drop_id filter_append length_append)
  then show ?thesis by simp
qed

lemma trim_events: "\<exists>n. sl_events (trimRecord path r) = drop n (sl_events r)"
proof (cases "length (sl_events r) \<le> TRIM_CAP")
  case True
  then show ?thesis by (intro exI [of _ 0]) (simp add: trimRecord_def)
qed (auto simp: trimRecord_def Let_def)

lemma trim_length: "length (sl_events (trimRecord path r)) \<le> TRIM_CAP"
  by (simp add: trimRecord_def Let_def TRIM_CAP_def TRIM_KEEP_def)

lemma log_ok_trim:
  assumes "path_ok path" and "log_ok path r"
  shows "log_ok path (trimRecord path r)"
proof -
  obtain n where evs: "sl_events (trimRecord path r) = drop n (sl_events r)" using trim_events by blast
  have "fo_marks (state_of path (trimRecord path r)) = fo_marks (state_of path r)"
    using trim_core [OF assms(1), of r] by (simp add: core_def)
  then have "passed_ok path (fo_marks (state_of path (trimRecord path r)))"
    using assms(2) by (simp add: log_ok_def)
  moreover have "hint_count i (drop n (sl_events r)) \<le> RUNG_COUNT" for i
    using hint_count_drop [of i n "sl_events r"] assms(2) le_trans unfolding log_ok_def by blast
  moreover have "sorted_wrt (<) (map le_seq (drop n (sl_events r)))"
    using sorted_wrt_drop' [of _ "map le_seq (sl_events r)" n] assms(2) by (simp add: log_ok_def drop_map)
  ultimately show ?thesis
    unfolding log_ok_def evs by (intro conjI allI) assumption+
qed

definition store_ok :: "lesson_state \<Rightarrow> bool" where
  "store_ok st \<longleftrightarrow>
     (case st_path st of None \<Rightarrow> True | Some path \<Rightarrow>
        path_ok path \<and> log_ok path (st_record st) \<and> length (sl_events (st_record st)) \<le> TRIM_CAP)"

lemma log_ok_with_event:
  assumes "path_ok path" "log_ok path r" "le_seq ev = nextSeq r"
    and "\<And>i. hints_for i (le_payload ev) \<Longrightarrow> hint_count i (sl_events r) < RUNG_COUNT"
  shows "log_ok path (r\<lparr>sl_events := sl_events r @ [ev]\<rparr>)"
proof -
  have "sorted_wrt (<) (map le_seq (sl_events r @ [ev]))"
    using sorted_append_next [of r ev] assms(2,3) by (simp add: log_ok_def)
  moreover have "hint_count i (sl_events r @ [ev]) \<le> RUNG_COUNT" for i
    using assms(2) assms(4) [of i] by (simp add: log_ok_def Suc_leI)
  moreover have "passed_ok path (fo_marks (fold_event path (state_of path r) ev))"
    unfolding fold_event_marks using passed_ok_apply [OF assms(1)] assms(2) by (simp add: log_ok_def)
  ultimately show ?thesis by (simp add: log_ok_def)
qed

lemma store_append_ok':
  assumes "st_path st = Some path" "path_ok path" "log_ok path (st_record st)"
    and "length (sl_events (st_record st)) \<le> TRIM_CAP \<or> (\<forall>v ev. le_payload ev = pl \<longrightarrow> admits path v ev)"
    and "\<And>i. hints_for i pl \<Longrightarrow> hint_count i (sl_events (st_record st)) < RUNG_COUNT"
  shows "store_ok (store_append pl who t st)"
proof -
  define ev where "ev = \<lparr>le_seq = nextSeq (st_record st), le_at = Some t, le_actor = who, le_via = False, le_payload = pl\<rparr>"
  let ?r = "(st_record st)\<lparr>sl_events := sl_events (st_record st) @ [ev]\<rparr>"
  have "log_ok path (trimRecord path ?r)"
    by (intro log_ok_trim log_ok_with_event assms) (simp_all add: ev_def assms(5))
  moreover have "admits path (foldRecord path (st_record st)) ev \<or> length (sl_events (st_record st)) \<le> TRIM_CAP"
    using assms(4) by (auto simp: ev_def)
  ultimately show ?thesis
    using assms(1-3) trim_length [of path ?r] by (auto simp: store_append_def Let_def store_ok_def simp flip: ev_def)
qed

lemma store_append_ok:
  assumes "store_ok st"
    and "\<And>path i. st_path st = Some path \<Longrightarrow> hints_for i pl \<Longrightarrow> hint_count i (sl_events (st_record st)) < RUNG_COUNT"
  shows "store_ok (store_append pl who t st)"
proof (cases "st_path st")
  case (Some path)
  show ?thesis
    by (rule store_append_ok' [OF Some]) (use assms Some in \<open>auto simp: store_ok_def\<close>)
qed (use assms in \<open>simp add: store_append_def\<close>)

lemma store_append_path [simp]:
  "st_path (store_append pl who t st) = st_path st" "st_loadFailed (store_append pl who t st) = st_loadFailed st"
  by (simp_all add: store_append_def Let_def split: option.splits)

text \<open>A load hands over a record that is well formed for its path, and a path with proper ids.\<close>

fun action_ok :: "lesson_action \<Rightarrow> bool" where
  "action_ok (LoadAction (Some path) rec failed t) \<longleftrightarrow>
     path_ok path \<and> log_ok path (case rec of None \<Rightarrow> EMPTY_STORED | Some r \<Rightarrow> r)"
| "action_ok _ \<longleftrightarrow> True"

lemma reduce_ok:
  assumes "store_ok st" and "action_ok a"
  shows "store_ok (reduceLesson st a)"
proof (cases a)
  case (LoadAction path' rec failed t)
  show ?thesis
  proof (cases path')
    case (Some path)
    let ?st = "\<lparr>st_path = Some path, st_record = (case rec of None \<Rightarrow> EMPTY_STORED | Some r \<Rightarrow> r),
             st_loadFailed = (case failed of None \<Rightarrow> False | Some b \<Rightarrow> b)\<rparr>"
    have "store_ok (store_append Enter Learner t ?st)"
      by (rule store_append_ok' [of _ path]) (use assms(2) LoadAction Some in \<open>simp_all add: admits_def\<close>)
    then show ?thesis using LoadAction Some by simp
  qed (simp add: LoadAction store_ok_def INITIAL_LESSON_STATE_def)
next
  case (EvaluateAction flow idl' t)
  have "store_ok (store_append (Attempt n) Learner t st)" for n
    using assms(1) by (intro store_append_ok) simp_all
  then have "store_ok (case fs_buildStartedAt flow of None \<Rightarrow> st
      | Some n \<Rightarrow> if list_ex (is_attempt (rat_of_int n)) (sl_events (st_record st)) then st
                  else store_append (Attempt (rat_of_int n)) Learner t st)"
    using assms(1) by (simp split: option.splits)
  then show ?thesis
    using assms(1) EvaluateAction by (cases "st_path st") (auto simp: Let_def intro!: store_append_ok)
next
  case (HintAction t)
  then show ?thesis
    using assms(1)
    by (auto simp: Let_def rung_count RUNG_COUNT_def split: option.splits intro!: store_append_ok)
qed (use assms in \<open>auto split: option.splits intro!: store_append_ok\<close>)

interpretation store: machine INITIAL_LESSON_STATE "\<lambda>st a. if action_ok a then reduceLesson st a else st" store_ok
  by unfold_locales (auto simp: reduce_ok, simp add: store_ok_def INITIAL_LESSON_STATE_def)

lemma log_ok_empty: "log_ok path EMPTY_STORED"
proof -
  have "mark_of (fo_marks (fold_start path None)) i = OpenM" for i
    by (simp add: mark_of_def fold_start_alt map_of_seed)
  then show ?thesis by (simp add: log_ok_def EMPTY_STORED_def passed_ok_def)
qed

interpretation lesson_passed: machine "fold_start path None" "fold_event path"
    "\<lambda>st. path_ok path \<longrightarrow> passed_ok path (fo_marks st)" for path
proof unfold_locales
  have "mark_of (fo_marks (fold_start path None)) i = OpenM" for i
    by (simp add: mark_of_def fold_start_alt map_of_seed)
  then show "path_ok path \<longrightarrow> passed_ok path (fo_marks (fold_start path None))"
    by (simp add: passed_ok_def)
qed (simp add: fold_event_marks passed_ok_apply)

lemma log_ok_migrate:
  assumes "path_ok path"
  shows "log_ok path (migrateV1 path v1)"
proof -
  let ?r = "migrateV1 path v1"
  note plain = migrateV1_plain [of path v1, unfolded plain_log_def]
  have "sorted_wrt (<) (map le_seq (sl_events ?r))"
    using plain by (simp add: sorted_wrt_map del: upt_Suc)
  moreover have "hint_count i (sl_events ?r) = 0" for i
  proof -
    have "\<not> hints_for i (le_payload e)" if "e \<in> set (sl_events ?r)" for e
      using plain that by (cases "le_payload e") auto
    then show ?thesis by simp
  qed
  moreover have "passed_ok path (fo_marks (state_of path ?r))"
    using lesson_passed.inv_run [of path "sl_events ?r"] assms plain by simp
  ultimately show ?thesis by (simp add: log_ok_def)
qed

section \<open>What is written\<close>

text \<open>The JSON text a record is stored as: absent fields are left out.\<close>

fun mark_name :: "lesson_mark \<Rightarrow> string" where
  "mark_name OpenM = ''open''"
| "mark_name ProvedM = ''proved''"
| "mark_name AttestedM = ''attested''"
| "mark_name PassedM = ''passed''"

fun actor_name :: "lesson_actor \<Rightarrow> string" where
  "actor_name Learner = ''learner''"
| "actor_name Toolchain = ''toolchain''"
| "actor_name Unknown = ''unknown''"

fun payload_json :: "lesson_payload \<Rightarrow> (string \<times> json) list" where
  "payload_json Enter = [(''type'', JStr ''enter'')]"
| "payload_json (Graded ids) = [(''type'', JStr ''graded''), (''stepIds'', JArr (map JStr ids))]"
| "payload_json (Checked i out) =
     [(''type'', JStr ''checked''), (''stepId'', JStr i)] @
     (case out of None \<Rightarrow> [] | Some s \<Rightarrow> [(''output'', JStr s)])"
| "payload_json (Pass i) = [(''type'', JStr ''pass''), (''stepId'', JStr i)]"
| "payload_json (Attest i) = [(''type'', JStr ''attest''), (''stepId'', JStr i)]"
| "payload_json (Move to) = [(''type'', JStr ''move''), (''to'', JStr to)]"
| "payload_json (Attempt n) = [(''type'', JStr ''attempt''), (''startedAt'', JNum n)]"
| "payload_json (Hint i r) = [(''type'', JStr ''hint''), (''stepId'', JStr i), (''rung'', JNum r)]"
| "payload_json (Opened i) = [(''type'', JStr ''opened''), (''stepId'', JStr i)]"

definition event_json :: "lesson_event \<Rightarrow> json" where
  "event_json e = JObj (payload_json (le_payload e) @
     [(''seq'', JNum (le_seq e)), (''at'', case le_at e of None \<Rightarrow> JNull | Some n \<Rightarrow> JNum n),
      (''actor'', JStr (actor_name (le_actor e)))] @ (if le_via e then [(''via'', JStr ''agent'')] else []))"

definition snapshot_json :: "lesson_snapshot \<Rightarrow> json" where
  "snapshot_json s = JObj ([(''marks'', JArr (map (\<lambda>(i, m). JArr [JStr i, JStr (mark_name m)]) (sn_marks s))),
      (''cursor'', JStr (sn_cursor s))] @
     (case sn_opened s of None \<Rightarrow> [] | Some os \<Rightarrow> [(''opened'', JArr (map JStr os))]))"

definition stored_json :: "stored_lesson \<Rightarrow> json" where
  "stored_json r = JObj ([(''v'', JNum 2)] @
     (case sl_snapshot r of None \<Rightarrow> [] | Some s \<Rightarrow> [(''snapshot'', snapshot_json s)]) @
     [(''events'', JArr (map event_json (sl_events r)))])"

lemma strs_map [simp]: "strs (map JStr xs) = xs"
  by (induction xs) auto

lemma all_strs_map [simp]: "all_strs (Some (JArr (map JStr xs)))"
  by (induction xs) (auto simp: all_strs_def)

lemma str_of_Some [simp]: "str_of (Some (JStr s)) = s"
  by (simp add: str_of_def as_str_def)

lemma as_str_simps [simp]: "as_str (Some (JStr s)) = Some s" "as_str None = None"
  by (simp_all add: as_str_def)

lemma as_actor_name [simp]: "as_actor (actor_name a) = a"
  by (cases a) (simp_all add: as_actor_def)

lemma event_roundtrip: "isEvent (event_json e)" "as_event (event_json e) = e"
proof -
  have "as_payload (event_json e) = le_payload e"
    by (cases "le_payload e") (auto simp: event_json_def as_payload_def split: option.splits)
  moreover have "field (event_json e) ''seq'' = Some (JNum (le_seq e))"
    "field (event_json e) ''at'' = Some (case le_at e of None \<Rightarrow> JNull | Some n \<Rightarrow> JNum n)"
    "field (event_json e) ''actor'' = Some (JStr (actor_name (le_actor e)))"
    "field (event_json e) ''via'' = (if le_via e then Some (JStr ''agent'') else None)"
    by (cases "le_payload e"; simp add: event_json_def split: option.splits)+
  ultimately show "as_event (event_json e) = e"
    by (simp add: as_event_def split: option.splits)
  show "isEvent (event_json e)"
    by (cases "le_payload e"; cases "le_at e") (auto simp: event_json_def isEvent_def split: option.splits)
qed

lemma snapshot_roundtrip: "isSnapshot (snapshot_json s)" "as_snapshot (snapshot_json s) = s"
proof -
  have "as_mark (mark_name m) = m" "mark_name m \<in> set MARKS" for m
    by (cases m; simp add: as_mark_def MARKS_def)+
  then have "map (\<lambda>x. as_mark_entry (case x of (i, m) \<Rightarrow> JArr [JStr i, JStr (mark_name m)])) ms = ms"
    and "list_all (\<lambda>x. is_mark_entry (case x of (i, m) \<Rightarrow> JArr [JStr i, JStr (mark_name m)])) ms" for ms
    by (induction ms) auto
  then show "isSnapshot (snapshot_json s)" "as_snapshot (snapshot_json s) = s"
    by (auto simp: snapshot_json_def isSnapshot_def as_snapshot_def list.pred_map comp_def split: option.splits)
qed

lemma stored_roundtrip: "isV2 (stored_json r)" "as_stored (stored_json r) = r"
  using event_roundtrip snapshot_roundtrip
  by (auto simp: stored_json_def isV2_def as_stored_def list.pred_map comp_def list.pred_True map_idI split: option.splits)

section \<open>Properties\<close>

text \<open>
  One lesson over its whole life: the file its progress is kept in, and the store of the page that is open. The page is opened on
  the lesson, reading the file or failing to; it leaves the lesson; or the learner or the toolchain does something, with some
  workspace open when the write lands. A load is always of what the file holds.
\<close>

record lesson_life =
  li_file :: "json option"
  li_store :: lesson_state

datatype life_event =
    OpenLesson rat
  | OpenUnread loaded rat
  | LeaveLesson rat
  | Act "string option" lesson_action

fun file_read :: "json option \<Rightarrow> loaded" where
  "file_read None = LoadedDefault"
| "file_read (Some v) = LoadedValue v"

text \<open>A read that fails throws, or hands back the default although there is a file.\<close>

fun life_step :: "lesson_path \<Rightarrow> lesson_life \<Rightarrow> life_event \<Rightarrow> lesson_life" where
  "life_step path li (OpenLesson t) =
     li\<lparr>li_store := reduceLesson (li_store li) (load_action (Some path) (li_file li \<noteq> None) (file_read (li_file li)) t)\<rparr>"
| "life_step path li (OpenUnread ld t) =
     (if ld \<in> {LoadThrew, LoadedDefault}
      then li\<lparr>li_store := reduceLesson (li_store li) (load_action (Some path) (li_file li \<noteq> None) ld t)\<rparr> else li)"
| "life_step path li (LeaveLesson t) = li\<lparr>li_store := reduceLesson (li_store li) (load_action None False LoadedUndefined t)\<rparr>"
| "life_step path li (Act ws a) =
     (if is_load a then li
      else case dispatch ws (li_store li) a of (st, written) \<Rightarrow>
        li\<lparr>li_store := st, li_file := (case written of None \<Rightarrow> li_file li | Some r \<Rightarrow> Some (stored_json r))\<rparr>)"

definition new_life :: "json option \<Rightarrow> lesson_life" where
  "new_life v = \<lparr>li_file = v, li_store = INITIAL_LESSON_STATE\<rparr>"

definition life_ok :: "lesson_path \<Rightarrow> lesson_life \<Rightarrow> bool" where
  "life_ok path li \<longleftrightarrow>
     store_ok (li_store li) \<and> st_path (li_store li) \<in> {None, Some path} \<and>
     (case li_file li of None \<Rightarrow> True | Some v \<Rightarrow> \<not> isV2 v \<or> (\<exists>r. v = stored_json r \<and> log_ok path r))"

lemma stored_not_null: "stored_json r \<noteq> JNull"
  by (simp add: stored_json_def)

lemma load_record_ok:
  assumes "path_ok path" and "case li_file li of None \<Rightarrow> True | Some v \<Rightarrow> \<not> isV2 v \<or> (\<exists>r. v = stored_json r \<and> log_ok path r)"
    and "ld \<in> {LoadThrew, LoadedDefault, file_read (li_file li)}"
  shows "log_ok path (fst (load_record path hasFile ld))"
proof (cases "ld \<in> {LoadThrew, LoadedDefault}")
  case False
  then obtain v where v: "li_file li = Some v" "ld = LoadedValue v" using assms(3) by (cases "li_file li") auto
  have "log_ok path (as_stored v)" if "isV2 v"
    using assms(2) that v(1) by (auto simp: stored_roundtrip)
  then show ?thesis using v(2) log_ok_empty log_ok_migrate [OF assms(1)] by (simp add: load_record_def)
qed (auto simp: load_record_def log_ok_empty)

lemma reduce_path: "\<not> is_load a \<Longrightarrow> st_path (reduceLesson st a) = st_path st"
  by (cases a) (auto simp: Let_def onFrontier_def split: option.splits)

lemma life_ok_load:
  assumes "path_ok path" and "life_ok path li" and "ld \<in> {LoadThrew, LoadedDefault, file_read (li_file li)}"
  shows "life_ok path (li\<lparr>li_store := reduceLesson (li_store li) (load_action (Some path) hasFile ld t)\<rparr>)"
proof -
  let ?a = "load_action (Some path) hasFile ld t"
  have "log_ok path (fst (load_record path hasFile ld))"
    using assms unfolding life_ok_def by (intro load_record_ok) auto
  then have "action_ok ?a" using assms(1) by (cases "load_record path hasFile ld") (simp add: load_action_def)
  then have "store_ok (reduceLesson (li_store li) ?a)" using assms(2) by (simp add: life_ok_def reduce_ok)
  moreover have "st_path (reduceLesson (li_store li) ?a) = Some path" by (simp add: load_action_def split: prod.split)
  ultimately show ?thesis using assms(2) by (simp add: life_ok_def)
qed

lemma life_ok_act:
  assumes "life_ok path li" and "\<not> is_load a"
  shows "life_ok path (life_step path li (Act ws a))"
proof -
  obtain st written where d: "dispatch ws (li_store li) a = (st, written)" by fastforce
  have st: "st = reduceLesson (li_store li) a" using d by (simp add: dispatch_def Let_def split: if_splits)
  have "action_ok a" using assms(2) by (cases a) auto
  then have ok: "store_ok st" using assms(1) by (simp add: st life_ok_def reduce_ok)
  have path: "st_path st \<in> {None, Some path}" using assms by (simp add: st reduce_path life_ok_def)
  have "log_ok path r" if "written = Some r" for r
  proof -
    have "st_path st = Some path" "r = st_record st"
      using d that path by (auto simp: dispatch_def Let_def persist_def split: if_splits option.splits)
    then show ?thesis using ok by (simp add: store_ok_def)
  qed
  then show ?thesis using assms d ok path by (auto simp: life_ok_def split: option.splits)
qed

interpretation life: machine "new_life (if v = None \<or> \<not> isV2 (the v) then v else None)"
    "\<lambda>li e. if path_ok path then life_step path li e else li" "life_ok path" for v path
proof unfold_locales
  show "life_ok path (new_life (if v = None \<or> \<not> isV2 (the v) then v else None))"
    by (auto simp: life_ok_def new_life_def store_ok_def INITIAL_LESSON_STATE_def split: option.split)
next
  fix li e assume ok: "life_ok path li"
  show "life_ok path (if path_ok path then life_step path li e else li)"
  proof (cases "path_ok path")
    case True
    show ?thesis
    proof (cases e)
      case (Act ws a)
      show ?thesis
      proof (cases "is_load a")
        case False
        show ?thesis using life_ok_act [OF ok False] True Act by simp
      qed (use True Act ok in simp)
    next
      case (LeaveLesson t)
      have "life_ok path (life_step path li (LeaveLesson t))"
        using ok by (simp add: life_ok_def load_action_def INITIAL_LESSON_STATE_def store_ok_def)
      then show ?thesis using True LeaveLesson by simp
    next
      case (OpenLesson t)
      show ?thesis using life_ok_load [OF True ok, of "file_read (li_file li)"] True OpenLesson by simp
    next
      case (OpenUnread ld t)
      have "life_ok path (life_step path li (OpenUnread ld t))"
        using life_ok_load [OF True ok, of ld] ok by (auto simp del: insert_iff)
      then show ?thesis using True OpenUnread by simp
    qed
  qed (use ok in simp)
qed

text \<open>
  C33: whatever a learner does, the log of a lesson stays well formed. A lesson whose steps have ids of their own, none of them
  \<open>end\<close>, and whose file at first is missing, or holds a record of version 1 or anything else that is no record of version 2: after
  any sequence of opening it, with the file read or not, leaving it and acting in it, with any workspace open, the log
  of the open lesson numbers its events in strictly increasing order, holds at most two hundred of them, gives at most
  three hint rungs for any step, and has no open step before a passed one. The path is the same all along; a lesson
  whose steps are changed between two visits is not covered.
\<close>

theorem store_log_well_formed:
  assumes "path_ok path" and "v = None \<or> (\<exists>x. v = Some x \<and> \<not> isV2 x)"
  defines "st \<equiv> \<lambda>es. li_store (foldl (life_step path) (new_life v) es)"
  shows "st_path (st es) = None \<or> st_path (st es) = Some path \<and>
    sorted_wrt (<) (map le_seq (sl_events (st_record (st es)))) \<and> length (sl_events (st_record (st es))) \<le> 200 \<and>
    (\<forall>i. rung (foldRecord path (st_record (st es))) i \<le> 3) \<and>
    passed_ok path (lv_marks (foldRecord path (st_record (st es))))"
proof -
  have "life_ok path (foldl (life_step path) (new_life v) es)"
    using life.inv_run [of path v es] assms(1,2) by (auto split: if_splits)
  then show ?thesis
    by (auto simp: st_def life_ok_def store_ok_def log_ok_def rung_count TRIM_CAP_def RUNG_COUNT_def)
qed

text \<open>Acting, reloading the page and acting again.\<close>

theorem store_log_well_formed_witness:
  "let st = li_store (foldl (life_step example_path) (new_life None)
       [OpenLesson 0, Act (Some (lp_tutorial example_path)) (HintAction 1), OpenLesson 2, Act None (PassAction 3)])
   in st_path st = Some example_path \<and> length (sl_events (st_record st)) \<le> 200 \<and>
      passed_ok example_path (lv_marks (foldRecord example_path (st_record st)))"
proof -
  let ?es = "[OpenLesson 0, Act (Some (lp_tutorial example_path)) (HintAction 1), OpenLesson 2, Act None (PassAction 3)]"
  have "st_path (li_store (life_step path (life_step path li (OpenLesson t)) (Act ws (PassAction u)))) = Some path" for path li t ws u
  proof -
    have "st_path (li_store (life_step path li (OpenLesson t))) = Some path"
      by (simp add: load_action_def split: prod.split)
    then show ?thesis using reduce_path [of "PassAction u" "li_store (life_step path li (OpenLesson t))"]
      by (simp add: dispatch_def Let_def del: reduceLesson.simps life_step.simps(1))
  qed
  then have "st_path (li_store (foldl (life_step example_path) (new_life None) ?es)) \<noteq> None"
    by (simp del: life_step.simps)
  moreover note store_log_well_formed [OF example_path_ok disjI1 [OF refl], of ?es]
  ultimately show ?thesis unfolding Let_def by (elim disjE conjE) (auto simp del: foldl.simps life_step.simps)
qed

text \<open>
  C34: what was written is read back. The stored form of any record passes the version 2 guard and
  loads as that record, not as a failure; and the store that loads it shows the marks, the cursor and
  the opened pages of the record that was written.
\<close>

theorem reload_restores:
  assumes "path_ok path"
  shows "load_record path hasFile (LoadedValue (stored_json r)) = (r, False) \<and>
    (let st' = reduceLesson st (load_action (Some path) hasFile (LoadedValue (stored_json r)) t);
         v = foldRecord path r; v' = foldRecord path (st_record st')
     in st_path st' = Some path \<and> \<not> st_loadFailed st' \<and> lv_marks v' = lv_marks v \<and>
        lv_cursor v' = lv_cursor v \<and> lv_opened v' = lv_opened v)"
proof -
  have ld: "load_record path hasFile (LoadedValue (stored_json r)) = (r, False)"
    using stored_roundtrip by (simp add: load_record_def) (simp add: stored_json_def)
  define r' where "r' = r\<lparr>sl_events := sl_events r @
    [\<lparr>le_seq = nextSeq r, le_at = Some t, le_actor = Learner, le_via = False, le_payload = Enter\<rparr>]\<rparr>"
  have st': "reduceLesson st (load_action (Some path) hasFile (LoadedValue (stored_json r)) t) =
      \<lparr>st_path = Some path, st_record = trimRecord path r', st_loadFailed = False\<rparr>"
    by (simp add: load_action_def ld store_append_def admits_def r'_def)
  have "core (state_of path (trimRecord path r')) = core (state_of path r)"
    using trim_core [OF assms, of r']
    by (simp add: r'_def core_def fold_event_marks fold_event_opened cursor_same applyMarks_def)
  then show ?thesis using ld by (simp add: st' core_def)
qed

theorem reload_restores_witness:
  "load_record example_path True (LoadedValue (stored_json EMPTY_STORED)) = (EMPTY_STORED, False)"
  using reload_restores [OF example_path_ok, of True EMPTY_STORED] by blast

text \<open>
  C35: a record that could not be read is never written over. When the read threw, when it handed
  back the default although the file exists, or when it handed back something neither version wrote,
  no action before the next load writes anything, whatever came before and whichever workspace is open.
\<close>

theorem unreadable_never_overwritten:
  assumes "ld = LoadThrew \<or> ld = LoadedDefault \<and> hasFile \<or>
      (\<exists>v. ld = LoadedValue v \<and> v \<noteq> JNull \<and> \<not> isV2 v \<and> \<not> isV1 v)"
    and "\<not> list_ex is_load (acts @ [a])"
  shows "snd (dispatch ws (foldl (\<lambda>st a. fst (dispatch ws st a))
      (reduceLesson st (load_action path' hasFile ld t)) acts) a) = None"
proof -
  have fst_dispatch: "fst (dispatch ws st a) = reduceLesson st a" for st a
    by (simp add: dispatch_def Let_def)
  define safe where "safe st \<longleftrightarrow> st_loadFailed st \<or> st_path st = None" for st :: lesson_state
  have keep: "safe (reduceLesson st a)" if "safe st" "\<not> is_load a" for st a
    using that by (cases a) (auto simp: safe_def Let_def onFrontier_def store_append_def split: option.splits)
  have "safe (reduceLesson st (load_action path' hasFile ld t))"
    using assms(1) by (cases path') (auto simp: safe_def load_action_def load_record_def INITIAL_LESSON_STATE_def)
  then have "safe (foldl (\<lambda>st a. fst (dispatch ws st a)) (reduceLesson st (load_action path' hasFile ld t)) acts)"
    using assms(2) keep
    by (induction acts rule: rev_induct) (simp_all add: fst_dispatch)
  then have "safe (reduceLesson (foldl (\<lambda>st a. fst (dispatch ws st a)) (reduceLesson st (load_action path' hasFile ld t)) acts) a)"
    using keep assms(2) by simp
  then show ?thesis
    by (auto simp: dispatch_def Let_def safe_def persist_def split: option.splits)
qed

theorem unreadable_never_overwritten_witness:
  "snd (dispatch (Some ''t'') (foldl (\<lambda>st a. fst (dispatch (Some ''t'') st a))
      (reduceLesson INITIAL_LESSON_STATE (load_action (Some example_path) True (LoadedValue (JStr ''x'')) 0)) [HintAction 1])
      (PassAction 2)) = None"
  by (rule unreadable_never_overwritten) (simp_all add: isV2_def isV1_def)

end
