(* ===== verification/Layout_State.thy ===== *)
theory Layout_State
  imports Json Flow_Stage
begin

text \<open>
  The layout of the shell: what of it is stored and how it is read back
  (\<^verbatim>\<open>widgets/layout-shell/model/layout-state.ts\<close>), the hook that restores it, changes it and saves it
  (\<^verbatim>\<open>use-layout-state.ts\<close>), the pages of the phone layout (\<^verbatim>\<open>phone-pages.ts\<close>) and what covers the
  screen (\<^verbatim>\<open>screen.ts\<close>). An open flag is optional: \<open>None\<close> is a field that reads as \<^verbatim>\<open>undefined\<close>, which
  the type forbids but the reader does not rule out. The local storage is the text stored under the
  layout's key, with a read or a write that may throw.
\<close>

section \<open>Numbers\<close>

text \<open>
  Addition and subtraction of doubles: the exact result rounded to 53 significant bits, half to even.
  The sums here are far from overflowing.
\<close>

definition nearest_even :: "rat \<Rightarrow> int" where
  "nearest_even y =
     (let f = floor y; d = y - of_int f
      in if d < 1 / 2 then f else if d > 1 / 2 then f + 1 else if even f then f else f + 1)"

definition pow2 :: "int \<Rightarrow> rat" where
  "pow2 n = (if n \<ge> 0 then 2 ^ nat n else 1 / 2 ^ nat (- n))"

fun bits :: "nat \<Rightarrow> nat" where
  "bits n = (if n = 0 then 0 else Suc (bits (n div 2)))"

declare bits.simps [simp del]

definition to_double :: "rat \<Rightarrow> rat" where
  "to_double x =
     (if x = 0 then 0
      else let p = nat \<bar>fst (quotient_of x)\<bar>; q = nat (snd (quotient_of x));
               e0 = int (bits p) - int (bits q);
               e = (if pow2 e0 \<le> \<bar>x\<bar> then e0 else e0 - 1);
               u = max (e - 52) (- 1074)
           in of_int (nearest_even (x / pow2 u)) * pow2 u)"

definition js_add :: "rat \<Rightarrow> rat \<Rightarrow> rat" where
  "js_add a b = to_double (a + b)"

definition js_sub :: "rat \<Rightarrow> rat \<Rightarrow> rat" where
  "js_sub a b = to_double (a - b)"

section \<open>The stored layout\<close>

definition HORIZONTAL_PANELS :: "string list" where
  "HORIZONTAL_PANELS = [''assistant'', ''work'']"

definition WORK_PANELS :: "string list" where
  "WORK_PANELS = [''files'', ''center'']"

definition VERTICAL_PANELS :: "string list" where
  "VERTICAL_PANELS = [''stage'', ''console'']"

definition LAYOUT_PANELS :: "string list" where
  "LAYOUT_PANELS = [''nav'', ''files'', ''assistant'', ''console'']"

definition LAYOUT_PANELS_V1 :: "string list" where
  "LAYOUT_PANELS_V1 = [''left'', ''assistant'', ''console'']"

definition LAYOUT_VERSION :: rat where
  "LAYOUT_VERSION = 2"

type_synonym panel_layout = "rat js_obj"

record open_flags =
  of_nav :: "bool option"
  of_files :: "bool option"
  of_assistant :: "bool option"
  of_console :: "bool option"

record layout_state =
  ly_open :: open_flags
  ly_h :: "panel_layout option"
  ly_w :: "panel_layout option"
  ly_vert :: "panel_layout option"

datatype size_key = HKey | WKey | VertKey

definition DEFAULT_LAYOUT :: layout_state where
  "DEFAULT_LAYOUT =
     \<lparr>ly_open = \<lparr>of_nav = Some True, of_files = Some False, of_assistant = Some True, of_console = Some False\<rparr>,
      ly_h = None, ly_w = None, ly_vert = None\<rparr>"

datatype corrupt_reason = NotJson | NotAnObject | UnexpectedShape

datatype restored =
    Saved layout_state "size_key list" bool bool
  | NoneSaved
  | FailedVersion
  | FailedCorrupt corrupt_reason
  | FailedStorage

section \<open>The guards\<close>

fun isSize :: "json \<Rightarrow> bool" where
  "isSize (JNum n) \<longleftrightarrow> n \<ge> 0 \<and> n \<le> 100"
| "isSize v \<longleftrightarrow> False"

fun isBoolean :: "json \<Rightarrow> bool" where
  "isBoolean (JBool b) \<longleftrightarrow> True"
| "isBoolean v \<longleftrightarrow> False"

text \<open>\<^verbatim>\<open>keys.join()\<close>: the elements with a comma between.\<close>

definition COMMA :: char where
  "COMMA = CHR '',''"

fun join_comma :: "string list \<Rightarrow> string" where
  "join_comma [] = []"
| "join_comma [k] = k"
| "join_comma (k # ks) = k @ COMMA # join_comma ks"

definition hasExactly :: "json option \<Rightarrow> string list \<Rightarrow> (json \<Rightarrow> bool) \<Rightarrow> bool" where
  "hasExactly v ids isValue \<longleftrightarrow>
     (case v of
        Some (JObj flds) \<Rightarrow>
          join_comma (sort (map fst flds)) = join_comma (sort ids) \<and> list_all (\<lambda>(k, x). isValue x) flds
      | _ \<Rightarrow> False)"

definition SUM_TOLERANCE :: rat where
  "SUM_TOLERANCE = 1"

fun size_of :: "json \<Rightarrow> rat" where
  "size_of (JNum n) = n"
| "size_of v = 0"

definition sizes_of :: "json option \<Rightarrow> panel_layout" where
  "sizes_of v = (case v of Some (JObj flds) \<Rightarrow> map (\<lambda>(k, x). (k, size_of x)) flds | _ \<Rightarrow> [])"

definition isPanelLayout :: "json option \<Rightarrow> string list \<Rightarrow> bool" where
  "isPanelLayout v ids \<longleftrightarrow>
     hasExactly v ids isSize \<and>
     \<bar>js_sub (foldl js_add 0 (map snd (sizes_of v))) 100\<bar> \<le> SUM_TOLERANCE"

definition isLayoutCore :: "json js_obj \<Rightarrow> bool" where
  "isLayoutCore flds \<longleftrightarrow>
     map_of flds ''v'' = Some (JNum LAYOUT_VERSION) \<and> hasExactly (map_of flds ''open'') LAYOUT_PANELS isBoolean"

definition isLayoutCoreV1 :: "json js_obj \<Rightarrow> bool" where
  "isLayoutCoreV1 flds \<longleftrightarrow>
     map_of flds ''v'' = Some (JNum 1) \<and> hasExactly (map_of flds ''open'') LAYOUT_PANELS_V1 isBoolean"

definition isNewerVersion :: "json option \<Rightarrow> bool" where
  "isNewerVersion v \<longleftrightarrow>
     (case v of Some (JNum n) \<Rightarrow> is_integer n \<and> n > LAYOUT_VERSION | _ \<Rightarrow> False)"

text \<open>\<^verbatim>\<open>state.open.assistant ? ... : undefined\<close>.\<close>

definition withoutFoldedSizes :: "layout_state \<Rightarrow> layout_state" where
  "withoutFoldedSizes st =
     \<lparr>ly_open = ly_open st,
      ly_h = (if of_assistant (ly_open st) = Some True then ly_h st else None),
      ly_w = (if of_files (ly_open st) = Some True then ly_w st else None),
      ly_vert = (if of_console (ly_open st) = Some True then ly_vert st else None)\<rparr>"

definition sizes_json :: "panel_layout \<Rightarrow> json" where
  "sizes_json l = JObj (map (\<lambda>(k, n). (k, JNum n)) l)"

definition panels_of :: "string list \<Rightarrow> panel_layout \<Rightarrow> panel_layout option" where
  "panels_of ids l = (if isPanelLayout (Some (sizes_json l)) ids then Some l else None)"

definition horizontalOf :: "panel_layout \<Rightarrow> panel_layout option" where
  "horizontalOf = panels_of HORIZONTAL_PANELS"

definition workOf :: "panel_layout \<Rightarrow> panel_layout option" where
  "workOf = panels_of WORK_PANELS"

definition verticalOf :: "panel_layout \<Rightarrow> panel_layout option" where
  "verticalOf = panels_of VERTICAL_PANELS"

section \<open>Reading and writing\<close>

text \<open>A flag of the parsed open flags, \<open>None\<close> when the key is not there.\<close>

definition flag :: "json js_obj \<Rightarrow> string \<Rightarrow> bool option" where
  "flag flds k =
     (case map_of flds ''open'' of
        Some (JObj os) \<Rightarrow> (case map_of os k of Some (JBool b) \<Rightarrow> Some b | _ \<Rightarrow> None)
      | _ \<Rightarrow> None)"

text \<open>A size map: kept, absent, or dropped because it does not read.\<close>

definition read_sizes :: "json js_obj \<Rightarrow> string \<Rightarrow> string list \<Rightarrow> panel_layout option \<times> bool" where
  "read_sizes flds key ids =
     (if map_of flds key = None then (None, False)
      else if isPanelLayout (map_of flds key) ids then (Some (sizes_of (map_of flds key)), False)
      else (None, True))"

definition layout_migrateV1 :: "json js_obj \<Rightarrow> restored" where
  "layout_migrateV1 flds =
     (let vert = read_sizes flds ''vert'' VERTICAL_PANELS
      in Saved
           (withoutFoldedSizes
             \<lparr>ly_open = \<lparr>of_nav = Some True, of_files = flag flds ''left'',
                        of_assistant = flag flds ''assistant'', of_console = flag flds ''console''\<rparr>,
              ly_h = None, ly_w = None, ly_vert = fst vert\<rparr>)
           (if snd vert then [VertKey] else []) True (map_of flds ''h'' \<noteq> None))"

definition layout_of :: "json js_obj \<Rightarrow> restored" where
  "layout_of flds =
     (let h = read_sizes flds ''h'' HORIZONTAL_PANELS;
          w = read_sizes flds ''w'' WORK_PANELS;
          vert = read_sizes flds ''vert'' VERTICAL_PANELS
      in Saved
           (withoutFoldedSizes
             \<lparr>ly_open = \<lparr>of_nav = flag flds ''nav'', of_files = flag flds ''files'',
                        of_assistant = flag flds ''assistant'', of_console = flag flds ''console''\<rparr>,
              ly_h = fst h, ly_w = fst w, ly_vert = fst vert\<rparr>)
           ((if snd h then [HKey] else []) @ (if snd w then [WKey] else []) @ (if snd vert then [VertKey] else []))
           False False)"

datatype get_item = GetThrew | GotNull | Got string

definition readLayout :: "json_parse \<Rightarrow> get_item \<Rightarrow> restored" where
  "readLayout parse item =
     (case item of
        GetThrew \<Rightarrow> FailedStorage
      | GotNull \<Rightarrow> NoneSaved
      | Got raw \<Rightarrow>
          (case parse raw of
             None \<Rightarrow> FailedCorrupt NotJson
           | Some parsed \<Rightarrow>
               (case parsed of
                  JObj flds \<Rightarrow>
                    if isNewerVersion (map_of flds ''v'') then FailedVersion
                    else if isLayoutCoreV1 flds then layout_migrateV1 flds
                    else if \<not> isLayoutCore flds then FailedCorrupt UnexpectedShape
                    else layout_of flds
                | _ \<Rightarrow> FailedCorrupt NotAnObject)))"

text \<open>What \<^verbatim>\<open>JSON.stringify\<close> sees of a layout: fields that are \<^verbatim>\<open>undefined\<close> are left out.\<close>

definition field_of :: "string \<Rightarrow> json option \<Rightarrow> json js_obj" where
  "field_of k v = (case v of None \<Rightarrow> [] | Some x \<Rightarrow> [(k, x)])"

definition layout_json :: "layout_state \<Rightarrow> json" where
  "layout_json st =
     JObj ([(''v'', JNum LAYOUT_VERSION),
            (''open'', JObj (field_of ''nav'' (map_option JBool (of_nav (ly_open st))) @
                             field_of ''files'' (map_option JBool (of_files (ly_open st))) @
                             field_of ''assistant'' (map_option JBool (of_assistant (ly_open st))) @
                             field_of ''console'' (map_option JBool (of_console (ly_open st)))))] @
           field_of ''h'' (map_option sizes_json (ly_h st)) @
           field_of ''w'' (map_option sizes_json (ly_w st)) @
           field_of ''vert'' (map_option sizes_json (ly_vert st)))"

text \<open>The stored text after a write, and whether the write went through.\<close>

definition writeLayout ::
  "json_stringify \<Rightarrow> bool \<Rightarrow> layout_state \<Rightarrow> string option \<Rightarrow> string option \<times> bool" where
  "writeLayout stringify works st item =
     (if works then (Some (stringify (layout_json (withoutFoldedSizes st))), True) else (item, False))"

section \<open>The hook\<close>

datatype layout_panel = NavP | FilesP | AssistantP | ConsoleP

fun get_flag :: "layout_panel \<Rightarrow> open_flags \<Rightarrow> bool option" where
  "get_flag NavP fl = of_nav fl"
| "get_flag FilesP fl = of_files fl"
| "get_flag AssistantP fl = of_assistant fl"
| "get_flag ConsoleP fl = of_console fl"

fun set_flag :: "layout_panel \<Rightarrow> bool \<Rightarrow> open_flags \<Rightarrow> open_flags" where
  "set_flag NavP b fl = fl\<lparr>of_nav := Some b\<rparr>"
| "set_flag FilesP b fl = fl\<lparr>of_files := Some b\<rparr>"
| "set_flag AssistantP b fl = fl\<lparr>of_assistant := Some b\<rparr>"
| "set_flag ConsoleP b fl = fl\<lparr>of_console := Some b\<rparr>"

text \<open>
  One mount of the hook: the layout it holds, whether it must leave what is stored alone, what is
  stored, and the two things it reports only once.
\<close>

record hook =
  hk_state :: layout_state
  hk_keepSaved :: bool
  hk_item :: "string option"
  hk_reportedSave :: bool
  hk_reportedRefused :: bool

definition hook_save :: "json_stringify \<Rightarrow> bool \<Rightarrow> layout_state \<Rightarrow> hook \<Rightarrow> hook" where
  "hook_save stringify works nxt hk =
     (case writeLayout stringify works nxt (hk_item hk) of
        (item, ok) \<Rightarrow> hk\<lparr>hk_item := item, hk_reportedSave := (hk_reportedSave hk \<or> \<not> ok)\<rparr>)"

text \<open>
  The mount reads once; a version 1 value is written back in the new shape. The flag \<open>readable\<close> says
  whether the storage can be read, \<open>works\<close> whether the write goes through.
\<close>

definition hook_mount :: "json_parse \<Rightarrow> json_stringify \<Rightarrow> bool \<Rightarrow> bool \<Rightarrow> string option \<Rightarrow> hook" where
  "hook_mount parse stringify readable works item =
     (let restored = readLayout parse (if \<not> readable then GetThrew
                       else case item of None \<Rightarrow> GotNull | Some raw \<Rightarrow> Got raw);
          hk = \<lparr>hk_state = (case restored of Saved st dropped migrated droppedH \<Rightarrow> st | _ \<Rightarrow> DEFAULT_LAYOUT),
                hk_keepSaved = (restored = FailedVersion), hk_item = item,
                hk_reportedSave = (restored = FailedStorage), hk_reportedRefused = False\<rparr>
      in case restored of
           Saved st dropped migrated droppedH \<Rightarrow> if migrated then hook_save stringify works st hk else hk
         | _ \<Rightarrow> hk)"

definition hook_update :: "json_stringify \<Rightarrow> bool \<Rightarrow> layout_state \<Rightarrow> hook \<Rightarrow> hook" where
  "hook_update stringify works proposed hk =
     (let nxt = withoutFoldedSizes proposed; hk' = hk\<lparr>hk_state := nxt\<rparr>
      in if hk_keepSaved hk then hk' else hook_save stringify works nxt hk')"

datatype hook_call =
    SetOpen layout_panel bool
  | SetHorizontal panel_layout
  | SetWork panel_layout
  | SetVertical panel_layout

fun hook_step :: "json_stringify \<Rightarrow> hook \<Rightarrow> hook_call \<times> bool \<Rightarrow> hook" where
  "hook_step stringify hk (SetOpen panel b, works) =
     (let st = hk_state hk
      in if get_flag panel (ly_open st) = Some b then hk
         else hook_update stringify works (st\<lparr>ly_open := set_flag panel b (ly_open st)\<rparr>) hk)"
| "hook_step stringify hk (SetHorizontal l, works) =
     (case horizontalOf l of
        None \<Rightarrow> hk\<lparr>hk_reportedRefused := True\<rparr>
      | Some h \<Rightarrow> hook_update stringify works ((hk_state hk)\<lparr>ly_h := Some h\<rparr>) hk)"
| "hook_step stringify hk (SetWork l, works) =
     (case workOf l of
        None \<Rightarrow> hk\<lparr>hk_reportedRefused := True\<rparr>
      | Some w \<Rightarrow> hook_update stringify works ((hk_state hk)\<lparr>ly_w := Some w\<rparr>) hk)"
| "hook_step stringify hk (SetVertical l, works) =
     (case verticalOf l of
        None \<Rightarrow> hk\<lparr>hk_reportedRefused := True\<rparr>
      | Some v \<Rightarrow> hook_update stringify works ((hk_state hk)\<lparr>ly_vert := Some v\<rparr>) hk)"

section \<open>The phone pages\<close>

datatype phone_page = MenuPage | WorkPage | PreviewPage

definition stagePageOf :: "stage \<Rightarrow> phone_page" where
  "stagePageOf s = (if s = Write then WorkPage else PreviewPage)"

definition isPreviewAtWrite :: "bool \<Rightarrow> bool" where
  "isPreviewAtWrite hasProg \<longleftrightarrow> \<not> hasProg"

definition pageForStage :: "stage \<Rightarrow> bool \<Rightarrow> phone_page \<Rightarrow> phone_page option" where
  "pageForStage s hasProg page =
     (if stagePageOf s = WorkPage
      then (if page = PreviewPage \<and> \<not> isPreviewAtWrite hasProg then Some WorkPage else None)
      else if page = PreviewPage then None else Some PreviewPage)"

definition stageForPage :: "phone_page \<Rightarrow> stage \<Rightarrow> bool \<Rightarrow> stage \<Rightarrow> stage option" where
  "stageForPage page s hasProg lastPreview =
     (case page of
        WorkPage \<Rightarrow> if s = Write then None else Some Write
      | PreviewPage \<Rightarrow> if s = Write \<and> \<not> isPreviewAtWrite hasProg then Some lastPreview else None
      | MenuPage \<Rightarrow> None)"

section \<open>What covers the screen\<close>

datatype ('h, 'c) screen =
    WorkScreen
  | HomeScreen 'h
  | PageOverWork 'c
  | PageOverHome 'c 'h

definition screenOf :: "'h option \<Rightarrow> 'c option \<Rightarrow> ('h, 'c) screen" where
  "screenOf home cover =
     (case (cover, home) of
        (Some c, Some h) \<Rightarrow> PageOverHome c h
      | (Some c, None) \<Rightarrow> PageOverWork c
      | (None, Some h) \<Rightarrow> HomeScreen h
      | (None, None) \<Rightarrow> WorkScreen)"

fun isCovered :: "('h, 'c) screen \<Rightarrow> bool" where
  "isCovered WorkScreen \<longleftrightarrow> False"
| "isCovered _ \<longleftrightarrow> True"

fun isWorkInFrame :: "('h, 'c) screen \<Rightarrow> bool" where
  "isWorkInFrame WorkScreen \<longleftrightarrow> True"
| "isWorkInFrame (PageOverWork c) \<longleftrightarrow> True"
| "isWorkInFrame _ \<longleftrightarrow> False"

fun homeOf :: "('h, 'c) screen \<Rightarrow> 'h option" where
  "homeOf (HomeScreen h) = Some h"
| "homeOf (PageOverHome c h) = Some h"
| "homeOf _ = None"

end
