(* ===== verification/Layout_State_Correct.thy ===== *)
theory Layout_State_Correct
  imports Layout_State "HOL-Library.Multiset"
begin

text \<open>
  The layout the shell shows is always well typed and never holds the sizes of a folded panel, a
  newer version's layout is never written over, and a reload shows the layout as it was left.
\<close>

section \<open>Keys joined by commas\<close>

lemma join_comma_head:
  assumes "COMMA \<notin> set k"
  shows "takeWhile (\<lambda>c. c \<noteq> COMMA) (join_comma (k # ks)) = k"
    "dropWhile (\<lambda>c. c \<noteq> COMMA) (join_comma (k # ks)) = (if ks = [] then [] else COMMA # join_comma ks)"
  using assms by (cases ks; auto simp: takeWhile_append dropWhile_append takeWhile_eq_all_conv)+

lemma join_comma_inj:
  "join_comma ks = join_comma ls \<Longrightarrow> ks \<noteq> [] \<Longrightarrow> ls \<noteq> [] \<Longrightarrow>
   \<forall>k\<in>set ks. COMMA \<notin> set k \<Longrightarrow> \<forall>l\<in>set ls. COMMA \<notin> set l \<Longrightarrow> ks = ls"
proof (induction ks arbitrary: ls)
  case (Cons k ks)
  obtain l ls' where ls: "ls = l # ls'" using Cons.prems(3) by (cases ls) auto
  have comma: "COMMA \<notin> set k" "COMMA \<notin> set l" using Cons.prems ls by simp_all
  have "k = l" using join_comma_head(1) [OF comma(1), of ks] join_comma_head(1) [OF comma(2), of ls'] Cons.prems(1) ls by simp
  moreover have "(if ks = [] then [] else COMMA # join_comma ks) = (if ls' = [] then [] else COMMA # join_comma ls')"
    using join_comma_head(2) [OF comma(1), of ks] join_comma_head(2) [OF comma(2), of ls'] Cons.prems(1) ls by simp
  ultimately show ?case
    using Cons.IH [of ls'] Cons.prems ls by (auto split: if_splits)
qed simp

definition comma_free :: "json option \<Rightarrow> bool" where
  "comma_free v \<longleftrightarrow>
     (case v of Some (JObj flds) \<Rightarrow> list_all (\<lambda>(k, x). COMMA \<notin> set k) flds | _ \<Rightarrow> True)"

lemma hasExactly_keys:
  assumes "hasExactly (Some (JObj flds)) ids P" "comma_free (Some (JObj flds))" "\<forall>k\<in>set ids. COMMA \<notin> set k \<and> k \<noteq> []" "ids \<noteq> []"
  shows "mset (map fst flds) = mset ids"
proof -
  have eq: "join_comma (sort (map fst flds)) = join_comma (sort ids)" using assms(1) by (simp add: hasExactly_def)
  have "sort ids \<noteq> []" using assms(4) by (metis set_empty set_sort)
  then have "join_comma (sort ids) \<noteq> []"
    using assms(3) by (cases "sort ids" rule: join_comma.cases) (auto, metis list.set_intros(1) set_sort)
  then have "sort (map fst flds) \<noteq> []" using eq by (metis join_comma.simps(1))
  then have "sort (map fst flds) = sort ids"
    using eq \<open>sort ids \<noteq> []\<close> assms(2,3)
    by (intro join_comma_inj) (auto simp: comma_free_def list_all_iff)
  then show ?thesis by (metis mset_sort)
qed

lemmas panel_ids = HORIZONTAL_PANELS_def WORK_PANELS_def VERTICAL_PANELS_def LAYOUT_PANELS_def LAYOUT_PANELS_V1_def COMMA_def

section \<open>Well-typed layouts\<close>

definition sizes_ok :: "string list \<Rightarrow> panel_layout option \<Rightarrow> bool" where
  "sizes_ok ids s \<longleftrightarrow>
     (case s of None \<Rightarrow> True
      | Some l \<Rightarrow> mset (map fst l) = mset ids \<and> (\<forall>(k, n)\<in>set l. 0 \<le> n \<and> n \<le> 100) \<and>
                  \<bar>js_sub (foldl js_add 0 (map snd l)) 100\<bar> \<le> 1)"

definition layout_typed :: "layout_state \<Rightarrow> bool" where
  "layout_typed st \<longleftrightarrow>
     of_nav (ly_open st) \<noteq> None \<and> of_files (ly_open st) \<noteq> None \<and>
     of_assistant (ly_open st) \<noteq> None \<and> of_console (ly_open st) \<noteq> None \<and>
     sizes_ok HORIZONTAL_PANELS (ly_h st) \<and> sizes_ok WORK_PANELS (ly_w st) \<and> sizes_ok VERTICAL_PANELS (ly_vert st)"

text \<open>A folded panel has no sizes.\<close>

definition unfolded :: "layout_state \<Rightarrow> bool" where
  "unfolded st \<longleftrightarrow>
     (of_assistant (ly_open st) \<noteq> Some True \<longrightarrow> ly_h st = None) \<and>
     (of_files (ly_open st) \<noteq> Some True \<longrightarrow> ly_w st = None) \<and>
     (of_console (ly_open st) \<noteq> Some True \<longrightarrow> ly_vert st = None)"

lemma sizes_ok_None [simp]: "sizes_ok ids None"
  by (simp add: sizes_ok_def)

lemma without_typed [simp]: "layout_typed st \<Longrightarrow> layout_typed (withoutFoldedSizes st)"
  by (simp add: layout_typed_def withoutFoldedSizes_def)

lemma without_unfolded [simp]: "unfolded (withoutFoldedSizes st)"
  by (simp add: unfolded_def withoutFoldedSizes_def)

lemma without_same: "unfolded st \<Longrightarrow> withoutFoldedSizes st = st"
  by (simp add: unfolded_def withoutFoldedSizes_def)

lemma default_typed [simp]: "layout_typed DEFAULT_LAYOUT" "unfolded DEFAULT_LAYOUT"
  by (simp_all add: layout_typed_def unfolded_def DEFAULT_LAYOUT_def)

definition group_ids :: "string list \<Rightarrow> bool" where
  "group_ids ids \<longleftrightarrow> ids \<noteq> [] \<and> distinct ids \<and> (\<forall>k\<in>set ids. COMMA \<notin> set k \<and> k \<noteq> [])"

lemma group_ids [simp]:
  "group_ids HORIZONTAL_PANELS" "group_ids WORK_PANELS" "group_ids VERTICAL_PANELS"
  "group_ids LAYOUT_PANELS" "group_ids LAYOUT_PANELS_V1"
  by (simp_all add: group_ids_def panel_ids)

lemma isPanelLayout_ok:
  assumes "isPanelLayout v ids" "comma_free v" "group_ids ids"
  shows "sizes_ok ids (Some (sizes_of v))"
proof -
  obtain flds where v: "v = Some (JObj flds)"
    using assms(1) by (auto simp: isPanelLayout_def hasExactly_def split: option.splits json.splits)
  have "mset (map fst flds) = mset ids"
    using assms by (intro hasExactly_keys [of flds ids isSize]) (auto simp: isPanelLayout_def v group_ids_def)
  moreover have "map fst (sizes_of v) = map fst flds" by (auto simp: v sizes_of_def)
  moreover have "0 \<le> n \<and> n \<le> 100" if kn: "(k, n) \<in> set (sizes_of v)" for k n
  proof -
    obtain x where "(k, x) \<in> set flds" "n = size_of x" using kn by (auto simp: v sizes_of_def)
    moreover from this have "isSize x" using assms(1) by (auto simp: isPanelLayout_def v hasExactly_def list_all_iff)
    ultimately show ?thesis by (cases x) auto
  qed
  ultimately show ?thesis
    using assms(1) by (auto simp: sizes_ok_def isPanelLayout_def SUM_TOLERANCE_def)
qed

lemma read_sizes_ok: "comma_free (map_of flds key) \<Longrightarrow> group_ids ids \<Longrightarrow> sizes_ok ids (fst (read_sizes flds key ids))"
  using isPanelLayout_ok by (auto simp: read_sizes_def)

lemma flag_defined:
  assumes "hasExactly (map_of flds ''open'') ids isBoolean" "comma_free (map_of flds ''open'')" "group_ids ids" "k \<in> set ids"
  shows "flag flds k \<noteq> None"
proof -
  obtain os where os: "map_of flds ''open'' = Some (JObj os)"
    using assms(1) by (auto simp: hasExactly_def split: option.splits json.splits)
  have "mset (map fst os) = mset ids"
    using assms by (intro hasExactly_keys [of os ids isBoolean]) (auto simp: os group_ids_def)
  then have "k \<in> fst ` set os" using assms(4) by (metis set_map set_mset_mset)
  then obtain x where x: "map_of os k = Some x" by (metis map_of_eq_None_iff not_Some_eq)
  then have "isBoolean x" using assms(1) map_of_SomeD [OF x] by (auto simp: os hasExactly_def list_all_iff)
  then show ?thesis using x by (cases x) (auto simp: flag_def os)
qed

text \<open>Stored text whose objects have no key with a comma in it.\<close>

definition clean :: "json_parse \<Rightarrow> string option \<Rightarrow> bool" where
  "clean parse item \<longleftrightarrow>
     (\<forall>raw flds key. item = Some raw \<longrightarrow> parse raw = Some (JObj flds) \<longrightarrow> comma_free (map_of flds key))"

definition got :: "bool \<Rightarrow> string option \<Rightarrow> get_item" where
  "got readable item = (if \<not> readable then GetThrew else case item of None \<Rightarrow> GotNull | Some raw \<Rightarrow> Got raw)"

lemma layout_of_typed:
  assumes "isLayoutCore flds" "\<And>key. comma_free (map_of flds key)" "layout_of flds = Saved st dr mg dh"
  shows "layout_typed st \<and> unfolded st"
proof -
  have "flag flds k \<noteq> None" if "k \<in> set LAYOUT_PANELS" for k
    using assms(1) by (intro flag_defined [OF _ assms(2) _ that]) (simp_all add: isLayoutCore_def)
  then have "layout_typed \<lparr>ly_open = \<lparr>of_nav = flag flds ''nav'', of_files = flag flds ''files'',
      of_assistant = flag flds ''assistant'', of_console = flag flds ''console''\<rparr>,
      ly_h = fst (read_sizes flds ''h'' HORIZONTAL_PANELS), ly_w = fst (read_sizes flds ''w'' WORK_PANELS),
      ly_vert = fst (read_sizes flds ''vert'' VERTICAL_PANELS)\<rparr>"
    by (simp add: layout_typed_def LAYOUT_PANELS_def read_sizes_ok assms(2))
  from without_typed [OF this] show ?thesis using assms(3) by (auto simp: layout_of_def Let_def)
qed

lemma layout_migrate_typed:
  assumes "isLayoutCoreV1 flds" "\<And>key. comma_free (map_of flds key)" "layout_migrateV1 flds = Saved st dr mg dh"
  shows "layout_typed st \<and> unfolded st"
proof -
  have "flag flds k \<noteq> None" if "k \<in> set LAYOUT_PANELS_V1" for k
    using assms(1) by (intro flag_defined [OF _ assms(2) _ that]) (simp_all add: isLayoutCoreV1_def)
  then have "layout_typed \<lparr>ly_open = \<lparr>of_nav = Some True, of_files = flag flds ''left'',
      of_assistant = flag flds ''assistant'', of_console = flag flds ''console''\<rparr>,
      ly_h = None, ly_w = None, ly_vert = fst (read_sizes flds ''vert'' VERTICAL_PANELS)\<rparr>"
    by (simp add: layout_typed_def LAYOUT_PANELS_V1_def read_sizes_ok assms(2))
  from without_typed [OF this] show ?thesis using assms(3) by (auto simp: layout_migrateV1_def Let_def)
qed

lemma readLayout_typed:
  assumes "clean parse item" "readLayout parse (got readable item) = Saved st dr mg dh"
  shows "layout_typed st \<and> unfolded st"
proof -
  obtain raw flds where raw: "item = Some raw" "parse raw = Some (JObj flds)"
    and core: "isLayoutCoreV1 flds \<and> layout_migrateV1 flds = Saved st dr mg dh \<or>
               isLayoutCore flds \<and> layout_of flds = Saved st dr mg dh"
    using assms(2) by (auto simp: readLayout_def got_def split: if_splits option.splits json.splits)
  have "comma_free (map_of flds key)" for key using assms(1) raw by (auto simp: clean_def)
  then show ?thesis using core layout_of_typed layout_migrate_typed by blast
qed

lemma comma_free_sizes_json: "comma_free (Some (sizes_json l)) \<longleftrightarrow> (\<forall>k\<in>fst ` set l. COMMA \<notin> set k)"
  by (auto simp: comma_free_def sizes_json_def list_all_iff)

lemma sizes_of_json [simp]: "sizes_of (Some (sizes_json l)) = l"
  by (induction l) (auto simp: sizes_of_def sizes_json_def)

lemma isPanelLayout_json:
  assumes "sizes_ok ids (Some l)"
  shows "isPanelLayout (Some (sizes_json l)) ids"
proof -
  have "mset (map fst l) = mset ids" using assms by (simp add: sizes_ok_def)
  then have "sort (map fst l) = sort ids" by (intro properties_for_sort) simp_all
  moreover have "map fst (map (\<lambda>(k, n). (k, JNum n)) l) = map fst l" by (induction l) auto
  moreover have "list_all (\<lambda>(k, x). isSize x) (map (\<lambda>(k, n). (k, JNum n)) l)"
    using assms by (auto simp: sizes_ok_def list_all_iff)
  ultimately have "hasExactly (Some (sizes_json l)) ids isSize"
    unfolding hasExactly_def sizes_json_def by (simp only: option.case json.case simp_thms)
  then show ?thesis using assms by (simp add: isPanelLayout_def sizes_ok_def SUM_TOLERANCE_def)
qed

section \<open>Round trip\<close>

lemma map_of_layout_json:
  obtains flds where "layout_json st = JObj flds" "map_of flds ''v'' = Some (JNum 2)"
    "map_of flds ''h'' = map_option sizes_json (ly_h st)" "map_of flds ''w'' = map_option sizes_json (ly_w st)"
    "map_of flds ''vert'' = map_option sizes_json (ly_vert st)"
    "map_of flds ''open'' = Some (JObj (field_of ''nav'' (map_option JBool (of_nav (ly_open st))) @
                             field_of ''files'' (map_option JBool (of_files (ly_open st))) @
                             field_of ''assistant'' (map_option JBool (of_assistant (ly_open st))) @
                             field_of ''console'' (map_option JBool (of_console (ly_open st)))))"
proof (rule that)
  show "layout_json st = JObj (case layout_json st of JObj flds \<Rightarrow> flds | _ \<Rightarrow> [])" by (simp add: layout_json_def)
qed (simp_all add: layout_json_def LAYOUT_VERSION_def field_of_def split: option.splits)

lemma read_sizes_json:
  assumes "map_of flds key = map_option sizes_json s" "sizes_ok ids s"
  shows "read_sizes flds key ids = (s, False)"
  using assms isPanelLayout_json by (cases s) (simp_all add: read_sizes_def)

lemma layout_roundtrip:
  assumes "layout_typed st" "unfolded st" "parse (stringify (layout_json st)) = Some (layout_json st)"
  shows "readLayout parse (Got (stringify (layout_json st))) = Saved st [] False False"
proof -
  obtain flds where j: "layout_json st = JObj flds" and v: "map_of flds ''v'' = Some (JNum 2)"
    and s: "map_of flds ''h'' = map_option sizes_json (ly_h st)" "map_of flds ''w'' = map_option sizes_json (ly_w st)"
      "map_of flds ''vert'' = map_option sizes_json (ly_vert st)"
    and o: "map_of flds ''open'' = Some (JObj (field_of ''nav'' (map_option JBool (of_nav (ly_open st))) @
                             field_of ''files'' (map_option JBool (of_files (ly_open st))) @
                             field_of ''assistant'' (map_option JBool (of_assistant (ly_open st))) @
                             field_of ''console'' (map_option JBool (of_console (ly_open st)))))"
    by (rule map_of_layout_json)
  obtain n f a c where fl: "ly_open st = \<lparr>of_nav = Some n, of_files = Some f, of_assistant = Some a, of_console = Some c\<rparr>"
    using assms(1) by (cases "ly_open st") (auto simp: layout_typed_def)
  have o': "map_of flds ''open'' = Some (JObj [(''nav'', JBool n), (''files'', JBool f), (''assistant'', JBool a), (''console'', JBool c)])"
    using o by (simp add: fl field_of_def)
  have core: "isLayoutCore flds"
    by (simp add: isLayoutCore_def v LAYOUT_VERSION_def o' hasExactly_def LAYOUT_PANELS_def)
  have flags: "flag flds ''nav'' = Some n" "flag flds ''files'' = Some f" "flag flds ''assistant'' = Some a" "flag flds ''console'' = Some c"
    by (simp_all add: flag_def o')
  have sizes: "read_sizes flds ''h'' HORIZONTAL_PANELS = (ly_h st, False)" "read_sizes flds ''w'' WORK_PANELS = (ly_w st, False)"
    "read_sizes flds ''vert'' VERTICAL_PANELS = (ly_vert st, False)"
    using assms(1) read_sizes_json s unfolding layout_typed_def by blast+
  have "layout_of flds = Saved (withoutFoldedSizes st) [] False False"
    by (simp add: layout_of_def sizes flags) (simp add: withoutFoldedSizes_def fl)
  then show ?thesis
    using core assms(3) without_same [OF assms(2)]
    by (simp add: readLayout_def j v isNewerVersion_def isLayoutCoreV1_def LAYOUT_VERSION_def)
qed

section \<open>The hook\<close>

lemma panels_of_ok:
  "panels_of ids l = Some l' \<Longrightarrow> comma_free (Some (sizes_json l)) \<Longrightarrow> group_ids ids \<Longrightarrow> sizes_ok ids (Some l')"
  using isPanelLayout_ok [of "Some (sizes_json l)" ids] by (auto simp: panels_of_def split: if_splits)

fun call_ok :: "hook_call \<Rightarrow> bool" where
  "call_ok (SetOpen p b) \<longleftrightarrow> True"
| "call_ok (SetHorizontal l) \<longleftrightarrow> comma_free (Some (sizes_json l))"
| "call_ok (SetWork l) \<longleftrightarrow> comma_free (Some (sizes_json l))"
| "call_ok (SetVertical l) \<longleftrightarrow> comma_free (Some (sizes_json l))"

lemma hook_save_simps [simp]:
  "hk_state (hook_save stringify works nxt hk) = hk_state hk"
  "hk_keepSaved (hook_save stringify works nxt hk) = hk_keepSaved hk"
  "hk_item (hook_save stringify works nxt hk) =
     (if works then Some (stringify (layout_json (withoutFoldedSizes nxt))) else hk_item hk)"
  by (simp_all add: hook_save_def writeLayout_def)

lemma hook_update_simps [simp]:
  "hk_state (hook_update stringify works nxt hk) = withoutFoldedSizes nxt"
  "hk_keepSaved (hook_update stringify works nxt hk) = hk_keepSaved hk"
  "hk_item (hook_update stringify works nxt hk) =
     (if works \<and> \<not> hk_keepSaved hk then Some (stringify (layout_json (withoutFoldedSizes nxt))) else hk_item hk)"
  by (simp_all add: hook_update_def Let_def without_same)

lemma set_flag_typed: "layout_typed st \<Longrightarrow> layout_typed (st\<lparr>ly_open := set_flag p b (ly_open st)\<rparr>)"
  by (cases p) (simp_all add: layout_typed_def)

lemma hook_step_cases:
  assumes "call_ok c" "layout_typed (hk_state hk)"
  obtains (refused) "hk_state (hook_step stringify hk (c, works)) = hk_state hk"
      "hk_item (hook_step stringify hk (c, works)) = hk_item hk"
      "hk_keepSaved (hook_step stringify hk (c, works)) = hk_keepSaved hk"
  | (updated) nxt where "layout_typed nxt" "hook_step stringify hk (c, works) = hook_update stringify works nxt hk"
proof (cases c)
  case (SetOpen p b)
  show ?thesis
  proof (cases "get_flag p (ly_open (hk_state hk)) = Some b")
    case True
    then show ?thesis using refused SetOpen by simp
  next
    case False
    then show ?thesis using updated [OF set_flag_typed [OF assms(2), of p b]] SetOpen by (simp add: Let_def)
  qed
next
  case (SetHorizontal l)
  show ?thesis
  proof (cases "horizontalOf l")
    case (Some h)
    then have "sizes_ok HORIZONTAL_PANELS (Some h)"
      using panels_of_ok [of HORIZONTAL_PANELS l h] assms(1) SetHorizontal by (simp add: horizontalOf_def)
    then have "layout_typed ((hk_state hk)\<lparr>ly_h := Some h\<rparr>)" using assms(2) by (simp add: layout_typed_def)
    from updated [OF this] show ?thesis using Some SetHorizontal by simp
  qed (use refused SetHorizontal in simp)
next
  case (SetWork l)
  show ?thesis
  proof (cases "workOf l")
    case (Some w)
    then have "sizes_ok WORK_PANELS (Some w)"
      using panels_of_ok [of WORK_PANELS l w] assms(1) SetWork by (simp add: workOf_def)
    then have "layout_typed ((hk_state hk)\<lparr>ly_w := Some w\<rparr>)" using assms(2) by (simp add: layout_typed_def)
    from updated [OF this] show ?thesis using Some SetWork by simp
  qed (use refused SetWork in simp)
next
  case (SetVertical l)
  show ?thesis
  proof (cases "verticalOf l")
    case (Some v)
    then have "sizes_ok VERTICAL_PANELS (Some v)"
      using panels_of_ok [of VERTICAL_PANELS l v] assms(1) SetVertical by (simp add: verticalOf_def)
    then have "layout_typed ((hk_state hk)\<lparr>ly_vert := Some v\<rparr>)" using assms(2) by (simp add: layout_typed_def)
    from updated [OF this] show ?thesis using Some SetVertical by simp
  qed (use refused SetVertical in simp)
qed

text \<open>What holds through a mount and every call on it.\<close>

definition hook_ok :: "hook \<Rightarrow> bool" where
  "hook_ok hk \<longleftrightarrow> layout_typed (hk_state hk) \<and> unfolded (hk_state hk)"

lemma hook_step_ok: "call_ok c \<Longrightarrow> hook_ok hk \<Longrightarrow> hook_ok (hook_step stringify hk (c, works))"
  by (cases rule: hook_step_cases [of c hk stringify works]) (auto simp: hook_ok_def)

lemma mount_cases:
  obtains (saved) st dropped migrated droppedH where "readLayout parse (got readable item) = Saved st dropped migrated droppedH"
      "hook_mount parse stringify readable works item =
         (let hk = \<lparr>hk_state = st, hk_keepSaved = False, hk_item = item, hk_reportedSave = False, hk_reportedRefused = False\<rparr>
          in if migrated then hook_save stringify works st hk else hk)"
  | (defaulted) "hk_state (hook_mount parse stringify readable works item) = DEFAULT_LAYOUT"
      "hk_item (hook_mount parse stringify readable works item) = item"
      "hk_keepSaved (hook_mount parse stringify readable works item) \<longleftrightarrow> readLayout parse (got readable item) = FailedVersion"
      "\<nexists>st dropped migrated droppedH. readLayout parse (got readable item) = Saved st dropped migrated droppedH"
  by (cases "readLayout parse (got readable item)") (auto simp: hook_mount_def Let_def simp flip: got_def)

lemma mount_ok: "clean parse item \<Longrightarrow> hook_ok (hook_mount parse stringify readable works item)"
  using readLayout_typed [of parse item readable]
  by (cases rule: mount_cases [of parse readable item stringify works]) (auto simp: hook_ok_def Let_def)

interpretation hook: machine "hook_mount parse stringify readable works (if clean parse item then item else None)"
    "\<lambda>hk (c, w). if call_ok c then hook_step stringify hk (c, w) else hk" hook_ok
    for parse stringify readable works item
proof unfold_locales
  have "clean parse None" by (simp add: clean_def)
  then show "hook_ok (hook_mount parse stringify readable works (if clean parse item then item else None))"
    by (simp add: mount_ok)
qed (simp add: hook_step_ok split: prod.split)

text \<open>
  Either the last write put the layout shown into the storage, or nothing was written and the layout
  shown is the one the mount read.
\<close>

definition in_sync :: "json_stringify \<Rightarrow> string option \<Rightarrow> layout_state \<Rightarrow> hook \<Rightarrow> bool" where
  "in_sync stringify item st hk \<longleftrightarrow>
     hook_ok hk \<and> \<not> hk_keepSaved hk \<and>
     (hk_item hk = Some (stringify (layout_json (hk_state hk))) \<or> hk_item hk = item \<and> hk_state hk = st)"

lemma in_sync_step:
  assumes "call_ok c" "in_sync stringify item st hk"
  shows "in_sync stringify item st (hook_step stringify hk (c, True))"
proof -
  have hk: "hook_ok hk" "layout_typed (hk_state hk)" using assms(2) by (simp_all add: in_sync_def hook_ok_def)
  show ?thesis
    using hook_step_ok [OF assms(1) hk(1), of stringify True] assms(2)
    by (cases rule: hook_step_cases [OF assms(1) hk(2), of stringify True]) (auto simp: in_sync_def)
qed

section \<open>Properties\<close>

text \<open>
  C37: the layout shown is always well typed. From any stored text whose keys hold no comma, or from
  none, or from a storage that cannot be read, and through any sequence of toggles and of drags whose keys
  hold no comma either: every
  panel has an open flag, every size map names exactly the panels of its group with sizes between 0 and
  100 that add up to the whole within the tolerance, and a folded panel has no sizes. When the stored
  layout is from a newer version, what is stored is never touched.
\<close>

theorem layout_always_typed:
  assumes "clean parse item" and "list_all (\<lambda>(c, w). call_ok c) calls"
  shows "let hk = foldl (hook_step stringify) (hook_mount parse stringify readable works item) calls
    in layout_typed (hk_state hk) \<and> unfolded (hk_state hk) \<and>
       \<not> (readLayout parse (got readable item) = FailedVersion \<and> hk_item hk \<noteq> item)"
proof -
  let ?m = "hook_mount parse stringify readable works item"
  have steps: "foldl (hook_step stringify) hk calls =
      foldl (\<lambda>hk (c, w). if call_ok c then hook_step stringify hk (c, w) else hk) hk calls" for hk
    using assms(2) by (induction calls arbitrary: hk) auto
  have "hook_ok (foldl (hook_step stringify) ?m calls)"
    unfolding steps using hook.inv_run [where parse = parse and item = item and es = calls] assms(1) by simp
  moreover have "hk_item (foldl (hook_step stringify) hk calls) = hk_item hk" if "hk_keepSaved hk" for hk
    using that
  proof (induction calls arbitrary: hk)
    case (Cons cw calls)
    obtain c w where cw: "cw = (c, w)" by force
    have "hk_item (hook_step stringify hk cw) = hk_item hk \<and> hk_keepSaved (hook_step stringify hk cw)"
      unfolding cw using Cons.prems by (cases c) (auto simp: Let_def split: option.splits)
    then show ?case using Cons.IH by simp
  qed simp
  moreover have "hk_keepSaved ?m \<and> hk_item ?m = item" if "readLayout parse (got readable item) = FailedVersion"
    using that by (cases rule: mount_cases [of parse readable item stringify works]) auto
  ultimately show ?thesis by (auto simp: hook_ok_def Let_def)
qed

theorem layout_always_typed_witness:
  "let hk = foldl (hook_step (\<lambda>j. ''{}'')) (hook_mount (\<lambda>s. None) (\<lambda>j. ''{}'') True True (Some ''x''))
       [(SetOpen FilesP True, True), (SetHorizontal [(''assistant'', 30), (''work'', 70)], True), (SetOpen AssistantP False, True)]
   in layout_typed (hk_state hk) \<and> unfolded (hk_state hk) \<and>
      \<not> (readLayout (\<lambda>s. None) (got True (Some ''x'')) = FailedVersion \<and> hk_item hk \<noteq> Some ''x'')"
  by (rule layout_always_typed) (simp_all add: clean_def comma_free_sizes_json COMMA_def)

text \<open>
  A reload shows the layout as it was left. After a mount on a stored text whose keys hold no
  comma and that no newer version wrote, and any sequence of toggles and drags with a storage that
  works, the next mount starts with exactly the layout the last one ended with. The hypothesis about
  the JSON library is that it reads back what it printed for that layout.
\<close>

lemma reload_keeps_layout:
  assumes "clean parse item" and "readLayout parse (got True item) \<noteq> FailedVersion"
    and "list_all (\<lambda>(c, w). call_ok c \<and> w) calls"
    and "hk = foldl (hook_step stringify) (hook_mount parse stringify True True item) calls"
    and "parse (stringify (layout_json (hk_state hk))) = Some (layout_json (hk_state hk))"
  shows "hk_state (hook_mount parse stringify True works (hk_item hk)) = hk_state hk"
proof -
  let ?m = "hook_mount parse stringify True True item"
  have "in_sync stringify item (hk_state ?m) ?m"
    using mount_ok [OF assms(1), of stringify True True] assms(2) readLayout_typed [OF assms(1), of True]
    by (cases rule: mount_cases [of parse True item stringify True]) (auto simp: in_sync_def Let_def without_same)
  then have "in_sync stringify item (hk_state ?m) hk"
    unfolding assms(4) using assms(3)
    by (induction calls rule: rev_induct) (auto simp: in_sync_step)
  then consider (written) "hk_item hk = Some (stringify (layout_json (hk_state hk)))" "hook_ok hk"
    | (same) "hk_item hk = item" "hk_state hk = hk_state ?m"
    by (auto simp: in_sync_def)
  then show ?thesis
  proof cases
    case written
    then have "readLayout parse (got True (hk_item hk)) = Saved (hk_state hk) [] False False"
      using layout_roundtrip [of "hk_state hk" parse stringify] assms(5) by (simp add: hook_ok_def got_def)
    then show ?thesis
      by (cases rule: mount_cases [of parse True "hk_item hk" stringify works]) (auto simp: Let_def)
  next
    case same
    have "hk_state (hook_mount parse stringify True works item) = hk_state ?m"
      by (cases rule: mount_cases [of parse True item stringify works];
          cases rule: mount_cases [of parse True item stringify True]) (auto simp: Let_def)
    then show ?thesis using same by simp
  qed
qed

lemma reload_keeps_layout_example:
  "let parse = (\<lambda>s. if s = ''x'' then None else Some (layout_json
         \<lparr>ly_open = \<lparr>of_nav = Some True, of_files = Some True, of_assistant = Some True, of_console = Some False\<rparr>,
          ly_h = None, ly_w = None, ly_vert = None\<rparr>));
       hk = foldl (hook_step (\<lambda>j. ''y'')) (hook_mount parse (\<lambda>j. ''y'') True True (Some ''x'')) [(SetOpen FilesP True, True)]
   in hk_state (hook_mount parse (\<lambda>j. ''y'') True True (hk_item hk)) = hk_state hk"
  unfolding Let_def
  by (rule reload_keeps_layout [where calls = "[(SetOpen FilesP True, True)]", OF _ _ _ refl])
    (simp_all add: clean_def readLayout_def got_def hook_mount_def DEFAULT_LAYOUT_def hook_update_def Let_def withoutFoldedSizes_def)

section \<open>Pages and screens\<close>

text \<open>
  The page a stage asks for and the stage a page asks for agree after one move, so the pager and the
  flow never chase each other.
\<close>

lemma page_move_settles:
  "pageForStage s hasProg page = Some p \<Longrightarrow> pageForStage s hasProg p = None \<and> stageForPage p s hasProg preview = None"
  by (auto simp: pageForStage_def stageForPage_def stagePageOf_def isPreviewAtWrite_def split: if_splits)

lemma stage_move_settles:
  "stageForPage page s hasProg preview = Some s' \<Longrightarrow> preview \<noteq> Write \<Longrightarrow>
   pageForStage s' hasProg page = None \<and> stageForPage page s' hasProg preview = None"
  by (auto simp: pageForStage_def stageForPage_def stagePageOf_def isPreviewAtWrite_def split: if_splits phone_page.splits)

lemma screen_slots:
  "homeOf (screenOf home cover) = home"
  "isCovered (screenOf home cover) \<longleftrightarrow> home \<noteq> None \<or> cover \<noteq> None"
  "isWorkInFrame (screenOf home cover) \<longleftrightarrow> home = None"
  by (simp_all add: screenOf_def split: option.splits)

section \<open>A key with a comma\<close>

text \<open>
  The guard compares the joined keys, so one key that spells out the whole list passes: the reader then
  returns a layout without any open flag.
\<close>

lemma joined_key_accepted:
  "readLayout (\<lambda>s. Some (JObj [(''v'', JNum 2), (''open'', JObj [(''assistant,console,files,nav'', JBool True)])])) (Got raw) =
     Saved \<lparr>ly_open = \<lparr>of_nav = None, of_files = None, of_assistant = None, of_console = None\<rparr>,
            ly_h = None, ly_w = None, ly_vert = None\<rparr> [] False False"
  by (simp add: readLayout_def isNewerVersion_def isLayoutCoreV1_def isLayoutCore_def hasExactly_def LAYOUT_VERSION_def
      LAYOUT_PANELS_def COMMA_def layout_of_def read_sizes_def withoutFoldedSizes_def flag_def)

end
