(* ===== verification/Sync_Lock.thy ===== *)
theory Sync_Lock
  imports Main
begin

text \<open>
  The lock that keeps two tabs of a browser from deciding or writing at the same time
  (\<^verbatim>\<open>features/persistence/model/sync-lock.ts\<close>). Every tab has the module's three variables; a call of
  \<^verbatim>\<open>withSyncLock\<close> is cut where it awaits: entering, going on once the shared promise has settled, and
  leaving through its \<^verbatim>\<open>finally\<close>. The browser's lock manager queues the requests for the one name and
  holds the lock for one request at a time, until the promise its callback returned is settled; a
  request in the queue may also be rejected. The steps of all tabs interleave freely.
\<close>

section \<open>State\<close>

type_synonym tab = nat
type_synonym caller = nat
type_synonym request = nat

datatype promise = Pending | Acquired | Rejected

record tab_state =
  tb_holders :: nat
  tb_held :: "request option"
  tb_release :: "request option"

text \<open>Where a call stands: a call in a tab without Web Locks runs on no request.\<close>

datatype phase = Idle | Waiting tab request | Running tab "request option"

record world =
  w_tab :: "tab \<Rightarrow> tab_state"
  w_phase :: "caller \<Rightarrow> phase"
  w_promise :: "request \<Rightarrow> promise"
  w_asker :: "request \<Rightarrow> tab"
  w_queue :: "request list"
  w_owner :: "request option"
  w_settled :: "request set"
  w_next :: request

definition start_world :: world where
  "start_world =
     \<lparr>w_tab = (\<lambda>t. \<lparr>tb_holders = 0, tb_held = None, tb_release = None\<rparr>), w_phase = (\<lambda>c. Idle),
      w_promise = (\<lambda>r. Pending), w_asker = (\<lambda>r. 0), w_queue = [], w_owner = None, w_settled = {}, w_next = 0\<rparr>"

section \<open>The pieces of a call\<close>

text \<open>\<^verbatim>\<open>acquire(locks)\<close>: a new request at the end of the queue, and its promise.\<close>

definition acquire :: "tab \<Rightarrow> world \<Rightarrow> world \<times> request" where
  "acquire t w =
     (let r = w_next w
      in (w\<lparr>w_promise := (w_promise w)(r := Pending), w_asker := (w_asker w)(r := t),
            w_queue := w_queue w @ [r], w_next := r + 1\<rparr>, r))"

text \<open>Up to the first \<^verbatim>\<open>await\<close>: count the caller, then take or share the tab's promise.\<close>

definition enter_lock :: "tab \<Rightarrow> caller \<Rightarrow> world \<Rightarrow> world" where
  "enter_lock t c w =
     (let tb = w_tab w t;
          (w', r) = (case tb_held tb of None \<Rightarrow> acquire t w | Some r \<Rightarrow> (w, r))
      in w'\<lparr>w_tab := (w_tab w')(t := tb\<lparr>tb_holders := tb_holders tb + 1, tb_held := Some r\<rparr>),
            w_phase := (w_phase w')(c := Waiting t r)\<rparr>)"

text \<open>The \<^verbatim>\<open>finally\<close>: the last caller of the tab lets the lock go.\<close>

definition leave_lock :: "tab \<Rightarrow> caller \<Rightarrow> world \<Rightarrow> world" where
  "leave_lock t c w =
     (let tb = w_tab w t; n = tb_holders tb - 1
      in if n \<noteq> 0
         then w\<lparr>w_tab := (w_tab w)(t := tb\<lparr>tb_holders := n\<rparr>), w_phase := (w_phase w)(c := Idle)\<rparr>
         else w\<lparr>w_tab := (w_tab w)(t := \<lparr>tb_holders = 0, tb_held = None, tb_release = None\<rparr>),
                w_phase := (w_phase w)(c := Idle),
                w_settled := w_settled w \<union> set_option (tb_release tb)\<rparr>)"

text \<open>
  The steps. \<open>locks t\<close> says whether the tab's browser has Web Locks. A call that runs ends when its
  function returns or throws; one whose promise was rejected leaves through the same \<^verbatim>\<open>finally\<close>.
\<close>

inductive lock_step :: "(tab \<Rightarrow> bool) \<Rightarrow> world \<Rightarrow> world \<Rightarrow> bool" for locks where
  direct: "\<not> locks t \<Longrightarrow> w_phase w c = Idle \<Longrightarrow> lock_step locks w (w\<lparr>w_phase := (w_phase w)(c := Running t None)\<rparr>)"
| direct_end: "w_phase w c = Running t None \<Longrightarrow> lock_step locks w (w\<lparr>w_phase := (w_phase w)(c := Idle)\<rparr>)"
| enter: "locks t \<Longrightarrow> w_phase w c = Idle \<Longrightarrow> lock_step locks w (enter_lock t c w)"
| grant: "w_owner w = None \<Longrightarrow> w_queue w = r # rs \<Longrightarrow> t = w_asker w r \<Longrightarrow>
    lock_step locks w (w\<lparr>w_owner := Some r, w_queue := rs, w_promise := (w_promise w)(r := Acquired),
      w_tab := (w_tab w)(t := (w_tab w t)\<lparr>tb_release := Some r\<rparr>)\<rparr>)"
| reject: "r \<in> set (w_queue w) \<Longrightarrow>
    lock_step locks w (w\<lparr>w_queue := removeAll r (w_queue w), w_promise := (w_promise w)(r := Rejected)\<rparr>)"
| run: "w_phase w c = Waiting t r \<Longrightarrow> w_promise w r = Acquired \<Longrightarrow>
    lock_step locks w (w\<lparr>w_phase := (w_phase w)(c := Running t (Some r))\<rparr>)"
| leave: "w_phase w c = Running t (Some r) \<or> w_phase w c = Waiting t r \<and> w_promise w r = Rejected \<Longrightarrow>
    lock_step locks w (leave_lock t c w)"
| free: "w_owner w = Some r \<Longrightarrow> r \<in> w_settled w \<Longrightarrow> lock_step locks w (w\<lparr>w_owner := None\<rparr>)"

inductive lock_reach :: "(tab \<Rightarrow> bool) \<Rightarrow> world \<Rightarrow> bool" for locks where
  reach_start: "lock_reach locks start_world"
| reach_step: "lock_reach locks w \<Longrightarrow> lock_step locks w w' \<Longrightarrow> lock_reach locks w'"

section \<open>The invariant\<close>

text \<open>The calls of a tab that count as holders, each with the request it relies on.\<close>

definition inside :: "(caller \<Rightarrow> phase) \<Rightarrow> tab \<Rightarrow> caller set" where
  "inside ph t = {c. \<exists>r. ph c = Waiting t r \<or> ph c = Running t (Some r)}"

text \<open>What the tab's variables say of the request the tab shares.\<close>

definition tab_ok :: "world \<Rightarrow> tab \<Rightarrow> bool" where
  "tab_ok w t \<longleftrightarrow>
     (case tb_held (w_tab w t) of
        None \<Rightarrow> tb_holders (w_tab w t) = 0 \<and> tb_release (w_tab w t) = None
      | Some r \<Rightarrow>
          tb_holders (w_tab w t) > 0 \<and> w_asker w r = t \<and> r < w_next w \<and> r \<notin> w_settled w \<and>
          (case w_promise w r of
             Pending \<Rightarrow> r \<in> set (w_queue w) \<and> tb_release (w_tab w t) = None
           | Acquired \<Rightarrow> w_owner w = Some r \<and> tb_release (w_tab w t) = Some r
           | Rejected \<Rightarrow> tb_release (w_tab w t) = None))"

definition phase_ok :: "world \<Rightarrow> caller \<Rightarrow> bool" where
  "phase_ok w c \<longleftrightarrow>
     (case w_phase w c of
        Waiting t r \<Rightarrow> tb_held (w_tab w t) = Some r
      | Running t (Some r) \<Rightarrow> tb_held (w_tab w t) = Some r \<and> w_promise w r = Acquired
      | _ \<Rightarrow> True)"

definition manager_ok :: "world \<Rightarrow> bool" where
  "manager_ok w \<longleftrightarrow>
     distinct (w_queue w) \<and>
     (\<forall>r\<in>set (w_queue w). w_promise w r = Pending \<and> tb_held (w_tab w (w_asker w r)) = Some r) \<and>
     (\<forall>r. w_owner w = Some r \<longrightarrow> r < w_next w \<and> r \<notin> set (w_queue w) \<and>
        (r \<in> w_settled w \<or> tb_held (w_tab w (w_asker w r)) = Some r \<and> w_promise w r = Acquired)) \<and>
     (\<forall>r\<in>w_settled w. r < w_next w)"

definition world_ok :: "world \<Rightarrow> bool" where
  "world_ok w \<longleftrightarrow>
     (\<forall>t. tab_ok w t \<and> finite (inside (w_phase w) t) \<and> tb_holders (w_tab w t) = card (inside (w_phase w) t)) \<and>
     (\<forall>c. phase_ok w c) \<and> manager_ok w"

lemma inside_upd:
  "inside (ph(c := p)) t =
     (if \<exists>r. p = Waiting t r \<or> p = Running t (Some r) then insert c (inside ph t) else inside ph t - {c})"
  by (auto simp: inside_def)

lemma world_ok_start: "world_ok start_world"
  by (simp add: world_ok_def start_world_def tab_ok_def phase_ok_def manager_ok_def inside_def)

lemma world_okD:
  assumes "world_ok w"
  shows "tab_ok w t" "finite (inside (w_phase w) t)" "tb_holders (w_tab w t) = card (inside (w_phase w) t)"
    "phase_ok w c" "manager_ok w"
  using assms by (auto simp: world_ok_def)

lemma world_okI:
  assumes "\<And>t. tab_ok w t" "\<And>t. finite (inside (w_phase w) t)"
    "\<And>t. tb_holders (w_tab w t) = card (inside (w_phase w) t)" "\<And>c. phase_ok w c" "manager_ok w"
  shows "world_ok w"
  using assms by (simp add: world_ok_def)

lemma irrelevant_fields [simp]:
  "tab_ok (w\<lparr>w_phase := ph\<rparr>) t = tab_ok w t" "manager_ok (w\<lparr>w_phase := ph\<rparr>) = manager_ok w"
  "phase_ok (w\<lparr>w_owner := ow\<rparr>) c = phase_ok w c" "phase_ok (w\<lparr>w_queue := q\<rparr>) c = phase_ok w c"
  by (simp_all add: tab_ok_def manager_ok_def phase_ok_def split: option.split promise.split phase.split)

lemma inside_held: "world_ok w \<Longrightarrow> c \<in> inside (w_phase w) t \<Longrightarrow> tb_held (w_tab w t) \<noteq> None"
  using world_okD(4) [of w c] by (auto simp: inside_def phase_ok_def)

lemma direct_ok:
  assumes "world_ok w" "w_phase w c = Idle \<or> (\<exists>t. w_phase w c = Running t None)" "p = Idle \<or> (\<exists>t. p = Running t None)"
  shows "world_ok (w\<lparr>w_phase := (w_phase w)(c := p)\<rparr>)"
proof -
  have "inside ((w_phase w)(c := p)) t = inside (w_phase w) t" for t
    using assms(2,3) by (auto simp: inside_upd) (auto simp: inside_def)
  moreover have "phase_ok (w\<lparr>w_phase := (w_phase w)(c := p)\<rparr>) c'" for c'
    using world_okD(4) [OF assms(1), of c'] assms(3) by (auto simp: phase_ok_def split: phase.splits option.splits)
  ultimately show ?thesis
    using world_okD [OF assms(1)] by (intro world_okI) simp_all
qed

lemma run_ok:
  assumes "world_ok w" "w_phase w c = Waiting t r" "w_promise w r = Acquired"
  shows "world_ok (w\<lparr>w_phase := (w_phase w)(c := Running t (Some r))\<rparr>)"
proof -
  have "inside ((w_phase w)(c := Running t (Some r))) t' = inside (w_phase w) t'" for t'
    using assms(2) by (auto simp: inside_upd) (auto simp: inside_def)
  moreover have "phase_ok (w\<lparr>w_phase := (w_phase w)(c := Running t (Some r))\<rparr>) c'" for c'
    using world_okD(4) [OF assms(1), of c] world_okD(4) [OF assms(1), of c'] assms(2,3)
    by (auto simp: phase_ok_def split: phase.splits option.splits)
  ultimately show ?thesis
    using world_okD [OF assms(1)] by (intro world_okI) simp_all
qed

lemma free_ok:
  assumes "world_ok w" "w_owner w = Some r" "r \<in> w_settled w"
  shows "world_ok (w\<lparr>w_owner := None\<rparr>)"
proof -
  have "tab_ok (w\<lparr>w_owner := None\<rparr>) t" for t
    using world_okD(1) [OF assms(1), of t] assms(2,3) by (auto simp: tab_ok_def split: option.splits promise.splits)
  moreover have "manager_ok (w\<lparr>w_owner := None\<rparr>)"
    using world_okD(5) [OF assms(1)] by (simp add: manager_ok_def)
  ultimately show ?thesis
    using world_okD(2-4) [OF assms(1)] by (intro world_okI) simp_all
qed

lemma reject_ok:
  assumes "world_ok w" "r \<in> set (w_queue w)"
  shows "world_ok (w\<lparr>w_queue := removeAll r (w_queue w), w_promise := (w_promise w)(r := Rejected)\<rparr>)"
proof -
  have pend: "w_promise w r = Pending" using world_okD(5) [OF assms(1)] assms(2) by (auto simp: manager_ok_def)
  let ?w = "w\<lparr>w_queue := removeAll r (w_queue w), w_promise := (w_promise w)(r := Rejected)\<rparr>"
  have "tab_ok ?w t" for t
    using world_okD(1) [OF assms(1), of t] pend by (auto simp: tab_ok_def split: option.splits promise.splits)
  moreover have "phase_ok ?w c" for c
    using world_okD(4) [OF assms(1), of c] pend by (auto simp: phase_ok_def split: phase.splits option.splits)
  moreover have "manager_ok ?w"
    using world_okD(5) [OF assms(1)] pend assms(2) by (auto simp: manager_ok_def distinct_removeAll)
  ultimately show ?thesis
    using world_okD(2,3) [OF assms(1)] by (intro world_okI) simp_all
qed

lemma grant_ok:
  assumes "world_ok w" "w_owner w = None" "w_queue w = r # rs" "t = w_asker w r"
  shows "world_ok (w\<lparr>w_owner := Some r, w_queue := rs, w_promise := (w_promise w)(r := Acquired),
      w_tab := (w_tab w)(t := (w_tab w t)\<lparr>tb_release := Some r\<rparr>)\<rparr>)" (is "world_ok ?w")
proof -
  have m: "r \<notin> set rs" "distinct rs" "w_promise w r = Pending" "tb_held (w_tab w t) = Some r"
    and others: "\<forall>q\<in>set rs. w_promise w q = Pending \<and> tb_held (w_tab w (w_asker w q)) = Some q"
    and set: "\<forall>q\<in>w_settled w. q < w_next w"
    using world_okD(5) [OF assms(1)] assms(3,4) by (auto simp: manager_ok_def)
  have tt: "r < w_next w" "r \<notin> w_settled w" "tb_holders (w_tab w t) > 0"
    using world_okD(1) [OF assms(1), of t] m by (auto simp: tab_ok_def)
  have "tab_ok ?w t'" for t'
    using world_okD(1) [OF assms(1), of t'] world_okD(1) [OF assms(1), of t] m assms
    by (cases "t' = t") (auto simp: tab_ok_def split: option.splits promise.splits)
  moreover have "phase_ok ?w c" for c
    using world_okD(4) [OF assms(1), of c] by (auto simp: phase_ok_def split: phase.splits option.splits)
  moreover have "manager_ok ?w"
    unfolding manager_ok_def
  proof (intro conjI ballI allI impI)
    fix q assume "q \<in> set (w_queue ?w)"
    then have "q \<in> set rs" by simp
    then show "w_promise ?w q = Pending" "tb_held (w_tab ?w (w_asker ?w q)) = Some q"
      using others m(1) by (simp_all, metis+)
  next
    fix q assume "w_owner ?w = Some q"
    then show "q < w_next ?w" "q \<notin> set (w_queue ?w)"
      "q \<in> w_settled ?w \<or> tb_held (w_tab ?w (w_asker ?w q)) = Some q \<and> w_promise ?w q = Acquired"
      using m tt assms(4) by simp_all
  qed (use m set in simp_all)
  moreover have "finite (inside (w_phase ?w) t')" "tb_holders (w_tab ?w t') = card (inside (w_phase ?w) t')" for t'
    using assms(1) by (auto simp: world_ok_def)
  ultimately show ?thesis unfolding world_ok_def by blast
qed

lemma enter_ok:
  assumes "world_ok w" "w_phase w c = Idle"
  shows "world_ok (enter_lock t c w)"
proof -
  have new: "c \<notin> inside (w_phase w) t'" for t' using assms(2) by (simp add: inside_def)
  have ins: "inside ((w_phase w)(c := Waiting t r)) t' = (if t' = t then insert c (inside (w_phase w) t') else inside (w_phase w) t')" for t' r
    using new by (auto simp: inside_upd)
  note fin = world_okD(2,3) [OF assms(1)]
  have "finite (inside (w_phase (enter_lock t c w)) t')"
    "tb_holders (w_tab (enter_lock t c w) t') = card (inside (w_phase (enter_lock t c w)) t')" for t'
    using fin [of t'] new by (auto simp: enter_lock_def acquire_def Let_def ins split: option.splits)
  moreover have "tab_ok (enter_lock t c w) t'" for t'
    using world_okD(1) [OF assms(1), of t'] world_okD(5) [OF assms(1)]
    by (cases "t' = t"; cases "tb_held (w_tab w t)")
      (auto simp: tab_ok_def enter_lock_def acquire_def Let_def manager_ok_def split: option.splits promise.splits)
  moreover have "phase_ok (enter_lock t c w) c'" for c'
  proof (cases "c' = c")
    case False
    have "tb_held (w_tab w t') = Some r \<Longrightarrow> r < w_next w" for t' r
      using world_okD(1) [OF assms(1), of t'] by (simp add: tab_ok_def)
    then show ?thesis
      using world_okD(4) [OF assms(1), of c'] False
      by (cases "tb_held (w_tab w t)")
        (auto simp: phase_ok_def enter_lock_def acquire_def Let_def split: phase.splits option.splits)
  qed (auto simp: phase_ok_def enter_lock_def acquire_def Let_def split: option.splits)
  moreover have "manager_ok (enter_lock t c w)"
  proof (cases "tb_held (w_tab w t)")
    case None
    have lt: "q < w_next w" if "tb_held (w_tab w t') = Some q" for q t'
      using world_okD(1) [OF assms(1), of t'] that by (simp add: tab_ok_def)
    then have "q \<in> set (w_queue w) \<Longrightarrow> q < w_next w" for q
      using world_okD(5) [OF assms(1)] unfolding manager_ok_def by blast
    then show ?thesis
      using world_okD(5) [OF assms(1)] None
      by (fastforce simp: manager_ok_def enter_lock_def acquire_def Let_def)
  next
    case (Some r)
    then show ?thesis
      using world_okD(5) [OF assms(1)] by (auto simp: manager_ok_def enter_lock_def Let_def)
  qed
  ultimately show ?thesis unfolding world_ok_def by blast
qed

lemma leave_ok:
  assumes "world_ok w" "w_phase w c = Running t (Some r) \<or> w_phase w c = Waiting t r \<and> w_promise w r = Rejected"
  shows "world_ok (leave_lock t c w)"
proof -
  have c: "c \<in> inside (w_phase w) t" using assms(2) by (auto simp: inside_def)
  have elsewhere: "c \<notin> inside (w_phase w) t'" if "t' \<noteq> t" for t' using assms(2) that by (auto simp: inside_def)
  have held: "tb_held (w_tab w t) = Some r" "w_promise w r \<noteq> Pending"
    using world_okD(4) [OF assms(1), of c] assms(2) by (auto simp: phase_ok_def)
  note fin = world_okD(2,3) [OF assms(1)]
  have ins: "inside ((w_phase w)(c := Idle)) t' = inside (w_phase w) t' - {c}" for t'
    by (simp add: inside_upd)
  have "finite (inside (w_phase (leave_lock t c w)) t')"
    "tb_holders (w_tab (leave_lock t c w) t') = card (inside (w_phase (leave_lock t c w)) t')" for t'
    using fin [of t'] c elsewhere [of t'] by (auto simp: leave_lock_def Let_def ins card_Diff_singleton)
  moreover have "tab_ok (leave_lock t c w) t' \<and> (\<forall>c'. phase_ok (leave_lock t c w) c') \<and> manager_ok (leave_lock t c w)" for t'
  proof (cases "tb_holders (w_tab w t) - 1 = 0")
    case False
    then have eq: "leave_lock t c w = w\<lparr>w_tab := (w_tab w)(t := (w_tab w t)\<lparr>tb_holders := tb_holders (w_tab w t) - 1\<rparr>),
        w_phase := (w_phase w)(c := Idle)\<rparr>" by (simp add: leave_lock_def Let_def)
    have "tab_ok (leave_lock t c w) t'"
      using world_okD(1) [OF assms(1), of t'] False unfolding eq
      by (auto simp: tab_ok_def split: option.splits promise.splits)
    moreover have "phase_ok (leave_lock t c w) c'" for c'
      using world_okD(4) [OF assms(1), of c'] unfolding eq by (auto simp: phase_ok_def split: phase.splits option.splits)
    moreover have "manager_ok (leave_lock t c w)"
      using world_okD(5) [OF assms(1)] unfolding eq by (auto simp: manager_ok_def)
    ultimately show ?thesis by blast
  next
    case True
    then have one: "inside (w_phase w) t = {c}"
      using fin [of t] c by (metis card_0_eq card_Diff_singleton finite_Diff insert_Diff One_nat_def empty_iff)
    have none: "w_phase w c' \<noteq> Waiting t q" "w_phase w c' \<noteq> Running t (Some q)" if "c' \<noteq> c" for c' q
      using one that by (auto simp: inside_def)
    let ?w = "w\<lparr>w_tab := (w_tab w)(t := \<lparr>tb_holders = 0, tb_held = None, tb_release = None\<rparr>),
        w_phase := (w_phase w)(c := Idle), w_settled := w_settled w \<union> set_option (tb_release (w_tab w t))\<rparr>"
    have eq: "leave_lock t c w = ?w" using True by (simp add: leave_lock_def Let_def)
    have tabt: "w_asker w r = t" "r < w_next w" "set_option (tb_release (w_tab w t)) = (if w_promise w r = Acquired then {r} else {})"
      using world_okD(1) [OF assms(1), of t] held by (auto simp: tab_ok_def split: promise.splits)
    have "tab_ok ?w t'"
      using world_okD(1) [OF assms(1), of t'] tabt by (auto simp: tab_ok_def split: option.splits promise.splits)
    moreover have "phase_ok ?w c'" for c'
      using world_okD(4) [OF assms(1), of c'] none [of c'] by (auto simp: phase_ok_def split: phase.splits option.splits)
    moreover have "manager_ok ?w"
      unfolding manager_ok_def
    proof (intro conjI ballI allI impI)
      note man = world_okD(5) [OF assms(1), unfolded manager_ok_def]
      show "distinct (w_queue ?w)" using man by simp
      fix q
      show "q < w_next ?w" if "q \<in> w_settled ?w" using man tabt that by (auto split: if_splits)
      show "w_promise ?w q = Pending" "tb_held (w_tab ?w (w_asker ?w q)) = Some q" if "q \<in> set (w_queue ?w)"
      proof -
        have q: "w_promise w q = Pending" "tb_held (w_tab w (w_asker w q)) = Some q" using man that by simp_all
        then have "w_asker w q \<noteq> t" using held by auto
        then show "w_promise ?w q = Pending" "tb_held (w_tab ?w (w_asker ?w q)) = Some q" using q by simp_all
      qed
      assume "w_owner ?w = Some q"
      then have q: "q < w_next w" "q \<notin> set (w_queue w)"
        "q \<in> w_settled w \<or> tb_held (w_tab w (w_asker w q)) = Some q \<and> w_promise w q = Acquired" using man by simp_all
      then show "q < w_next ?w" "q \<notin> set (w_queue ?w)" by simp_all
      show "q \<in> w_settled ?w \<or> tb_held (w_tab ?w (w_asker ?w q)) = Some q \<and> w_promise ?w q = Acquired"
        using q(3) tabt(3) held(1) by (cases "w_asker w q = t") auto
    qed
    ultimately show ?thesis unfolding eq by blast
  qed
  ultimately show ?thesis unfolding world_ok_def by blast
qed

lemma lock_step_ok: "lock_step locks w w' \<Longrightarrow> world_ok w \<Longrightarrow> world_ok w'"
  by (induction rule: lock_step.induct)
    (blast intro: direct_ok run_ok free_ok reject_ok grant_ok enter_ok leave_ok)+

lemma lock_reach_ok: "lock_reach locks w \<Longrightarrow> world_ok w"
  by (induction rule: lock_reach.induct) (auto intro: world_ok_start lock_step_ok)

section \<open>Properties\<close>

text \<open>
  C39: the lock does its job. In every reachable state of any number of tabs and calls: two calls that
  run under the lock are in the same tab; a tab none of whose calls is inside has given the lock back,
  its old request at most waiting for the browser to notice; and a call entering a tab in which another
  call runs can go on at once, without waiting for the call it is nested in.
\<close>

theorem lock_excludes_tabs:
  assumes "lock_reach locks w"
  shows "(\<forall>c c' t t' r r'. w_phase w c = Running t (Some r) \<and> w_phase w c' = Running t' (Some r') \<longrightarrow> t = t') \<and>
    (\<forall>t. (\<forall>c r. w_phase w c \<noteq> Waiting t r \<and> w_phase w c \<noteq> Running t (Some r)) \<longrightarrow>
       tb_held (w_tab w t) = None \<and> tb_release (w_tab w t) = None \<and> tb_holders (w_tab w t) = 0 \<and>
       (\<forall>r. w_owner w = Some r \<and> w_asker w r = t \<longrightarrow> lock_step locks w (w\<lparr>w_owner := None\<rparr>))) \<and>
    (\<forall>c t r c'. w_phase w c = Running t (Some r) \<longrightarrow>
       (let w' = enter_lock t c' w in w_phase w' c' = Waiting t r \<and> w_promise w' r = Acquired))"
proof -
  have ok: "world_ok w" by (rule lock_reach_ok [OF assms])
  have running: "tb_held (w_tab w t) = Some r \<and> w_promise w r = Acquired \<and> w_owner w = Some r \<and> w_asker w r = t"
    if "w_phase w c = Running t (Some r)" for c t r
    using world_okD(1) [OF ok, of t] world_okD(4) [OF ok, of c] that by (simp add: phase_ok_def tab_ok_def)
  have "t = t'" if "w_phase w c = Running t (Some r)" "w_phase w c' = Running t' (Some r')" for c c' t t' r r'
    using running [OF that(1)] running [OF that(2)] by auto
  moreover have "tb_held (w_tab w t) = None \<and> tb_release (w_tab w t) = None \<and> tb_holders (w_tab w t) = 0 \<and>
      (\<forall>r. w_owner w = Some r \<and> w_asker w r = t \<longrightarrow> lock_step locks w (w\<lparr>w_owner := None\<rparr>))"
    if "\<forall>c r. w_phase w c \<noteq> Waiting t r \<and> w_phase w c \<noteq> Running t (Some r)" for t
  proof -
    have "inside (w_phase w) t = {}" using that by (auto simp: inside_def)
    then have no: "tb_holders (w_tab w t) = 0" using world_okD(3) [OF ok, of t] by simp
    then have none: "tb_held (w_tab w t) = None \<and> tb_release (w_tab w t) = None"
      using world_okD(1) [OF ok, of t] by (auto simp: tab_ok_def split: option.splits)
    then have "r \<in> w_settled w" if "w_owner w = Some r" "w_asker w r = t" for r
      using world_okD(5) [OF ok] that by (auto simp: manager_ok_def)
    then show ?thesis using no none lock_step.free by blast
  qed
  moreover have "let w' = enter_lock t c' w in w_phase w' c' = Waiting t r \<and> w_promise w' r = Acquired"
    if "w_phase w c = Running t (Some r)" for c t r c'
    using running [OF that] by (simp add: enter_lock_def Let_def)
  ultimately show ?thesis by blast
qed

lemma reach_running: "\<exists>w. lock_reach (\<lambda>t. True) w \<and> w_phase w 0 = Running 0 (Some 0)"
proof -
  let ?w1 = "enter_lock 0 0 start_world"
  have r1: "lock_reach (\<lambda>t. True) ?w1"
    by (rule reach_step [OF reach_start enter]) (simp_all add: start_world_def)
  have q: "w_queue ?w1 = [0]" "w_owner ?w1 = None" "w_asker ?w1 0 = 0" "w_phase ?w1 0 = Waiting 0 0"
    by (simp_all add: enter_lock_def acquire_def start_world_def)
  let ?w2 = "?w1\<lparr>w_owner := Some 0, w_queue := [], w_promise := (w_promise ?w1)(0 := Acquired),
      w_tab := (w_tab ?w1)(0 := (w_tab ?w1 0)\<lparr>tb_release := Some 0\<rparr>)\<rparr>"
  have r2: "lock_reach (\<lambda>t. True) ?w2"
    by (rule reach_step [OF r1 grant [OF q(2,1) q(3) [symmetric]]])
  have "lock_reach (\<lambda>t. True) (?w2\<lparr>w_phase := (w_phase ?w2)(0 := Running 0 (Some 0))\<rparr>)"
    by (rule reach_step [OF r2 run]) (simp_all add: q)
  moreover have "w_phase (?w2\<lparr>w_phase := (w_phase ?w2)(0 := Running 0 (Some 0))\<rparr>) 0 = Running 0 (Some 0)" by simp
  ultimately show ?thesis by blast
qed

theorem lock_excludes_tabs_witness:
  "\<exists>w. lock_reach (\<lambda>t. True) w \<and> w_phase w 0 = Running 0 (Some 0) \<and>
     (let w' = enter_lock 0 1 w in w_phase w' 1 = Waiting 0 0 \<and> w_promise w' 0 = Acquired)"
proof -
  obtain w where w: "lock_reach (\<lambda>t. True) w" "w_phase w 0 = Running 0 (Some 0)" using reach_running by blast
  show ?thesis using lock_excludes_tabs [OF w(1)] w by blast
qed

end
