(* ===== verification/Sync_Base.thy ===== *)
theory Sync_Base
  imports Merge_Plan
begin

text \<open>
  What the files edited on this device held at the last agreement with the server
  (\<^verbatim>\<open>features/persistence/model/sync-base.ts\<close>): one JSON file per account and project, filled from the
  shadow of the open workspace and read by the merge. The volume of \<^verbatim>\<open>PgFs\<close> is a map from paths to
  text in which some paths may fail for another reason than being missing; \<^verbatim>\<open>JSON.parse\<close>,
  \<^verbatim>\<open>JSON.stringify\<close> and the hash are arguments. The failures the code reports are kept in a list, as in
  \<^verbatim>\<open>diagnostics.ts\<close>.
\<close>

section \<open>Paths\<close>

text \<open>\<^verbatim>\<open>encodeURIComponent\<close> on the characters of the string type: the escapes are those of UTF-8.\<close>

definition unreserved :: "char \<Rightarrow> bool" where
  "unreserved c \<longleftrightarrow>
     (let n = of_char c :: nat in 48 \<le> n \<and> n \<le> 57 \<or> 65 \<le> n \<and> n \<le> 90 \<or> 97 \<le> n \<and> n \<le> 122) \<or>
     c \<in> set ''-_.!~*()'' \<or> c = CHR 0x27"

definition hex_digit :: "nat \<Rightarrow> char" where
  "hex_digit d = ''0123456789ABCDEF'' ! d"

definition escape :: "nat \<Rightarrow> string" where
  "escape n = [CHR ''%'', hex_digit (n div 16), hex_digit (n mod 16)]"

definition encode_char :: "char \<Rightarrow> string" where
  "encode_char c =
     (let n = of_char c
      in if unreserved c then [c]
         else if n < 128 then escape n
         else escape (192 + n div 64) @ escape (128 + n mod 64))"

definition encodeURIComponent :: "string \<Rightarrow> string" where
  "encodeURIComponent s = concat (map encode_char s)"

definition BASE_ROOT :: string where
  "BASE_ROOT = ''/.config/sync-base''"

definition pathOf :: "string \<Rightarrow> string \<Rightarrow> string" where
  "pathOf userId projectId =
     BASE_ROOT @ ''/'' @ encodeURIComponent userId @ ''/'' @ encodeURIComponent projectId @ ''.json''"

section \<open>The device\<close>

record device =
  dv_files :: "string js_obj"
  dv_faulty :: "string list"
  dv_user :: "string option"
  dv_shadow :: "(string \<times> files) option"
  dv_reports :: "string list"

datatype fs_error = ENOENT | EOther

definition readToString :: "device \<Rightarrow> string \<Rightarrow> fs_error + string" where
  "readToString d p =
     (if p \<in> set (dv_faulty d) then Inl EOther
      else case map_of (dv_files d) p of None \<Rightarrow> Inl ENOENT | Some s \<Rightarrow> Inr s)"

definition writeFile :: "device \<Rightarrow> string \<Rightarrow> string \<Rightarrow> fs_error + device" where
  "writeFile d p s =
     (if p \<in> set (dv_faulty d) then Inl EOther else Inr (d\<lparr>dv_files := obj_set p s (dv_files d)\<rparr>))"

definition removeFile :: "device \<Rightarrow> string \<Rightarrow> fs_error + device" where
  "removeFile d p =
     (if p \<in> set (dv_faulty d) then Inl EOther
      else case map_of (dv_files d) p of
        None \<Rightarrow> Inl ENOENT
      | Some s \<Rightarrow> Inr (d\<lparr>dv_files := filter (\<lambda>(k, v). k \<noteq> p) (dv_files d)\<rparr>))"

definition MAX_FAILURES :: nat where
  "MAX_FAILURES = 20"

definition report :: "string \<Rightarrow> device \<Rightarrow> device" where
  "report what d =
     (let failures = dv_reports d @ [what]
      in d\<lparr>dv_reports := (if length failures > MAX_FAILURES then tl failures else failures)\<rparr>)"

text \<open>An empty id counts as nobody, as \<^verbatim>\<open>!userId\<close> does.\<close>

definition currentUserId :: "device \<Rightarrow> string option" where
  "currentUserId d = (case dv_user d of Some [] \<Rightarrow> None | u \<Rightarrow> u)"

section \<open>The operations\<close>

definition track :: "string \<Rightarrow> files \<Rightarrow> device \<Rightarrow> device" where
  "track projectId files d = d\<lparr>dv_shadow := Some (projectId, files)\<rparr>"

definition isTracking :: "string \<Rightarrow> device \<Rightarrow> bool" where
  "isTracking projectId d \<longleftrightarrow> (case dv_shadow d of None \<Rightarrow> False | Some (p, fs) \<Rightarrow> p = projectId)"

text \<open>The stored object is handed on as it was parsed: its entries are not looked at.\<close>

definition base_read :: "json_parse \<Rightarrow> string \<Rightarrow> device \<Rightarrow> device \<times> json js_obj" where
  "base_read parse projectId d =
     (case currentUserId d of
        None \<Rightarrow> (d, [])
      | Some u \<Rightarrow>
          (case readToString d (pathOf u projectId) of
             Inl ENOENT \<Rightarrow> (d, [])
           | Inl EOther \<Rightarrow> (report (''read sync base '' @ projectId) d, [])
           | Inr s \<Rightarrow>
               (case parse s of
                  None \<Rightarrow> (report (''read sync base '' @ projectId) d, [])
                | Some (JObj flds) \<Rightarrow> (d, flds)
                | Some _ \<Rightarrow> (report (''sync base '' @ projectId @ '': malformed'') d, []))))"

definition base_clear :: "string \<Rightarrow> device \<Rightarrow> device" where
  "base_clear projectId d =
     (case currentUserId d of
        None \<Rightarrow> d
      | Some u \<Rightarrow>
          (case removeFile d (pathOf u projectId) of
             Inl ENOENT \<Rightarrow> d
           | Inl EOther \<Rightarrow> report (''clear sync base '' @ projectId) d
           | Inr d' \<Rightarrow> d'))"

definition base_replace :: "json_stringify \<Rightarrow> string \<Rightarrow> json js_obj \<Rightarrow> device \<Rightarrow> device" where
  "base_replace stringify projectId contents d =
     (if length (obj_keys contents) = 0 then base_clear projectId d
      else case currentUserId d of
        None \<Rightarrow> d
      | Some u \<Rightarrow>
          (case writeFile d (pathOf u projectId) (stringify (JObj contents)) of
             Inl e \<Rightarrow> report (''write sync base '' @ projectId) d
           | Inr d' \<Rightarrow> d'))"

text \<open>
  \<^verbatim>\<open>path in held\<close> also finds the names every object inherits, so a file of such a name is never kept.
\<close>

definition OBJECT_KEYS :: "string list" where
  "OBJECT_KEYS =
     [''constructor'', ''hasOwnProperty'', ''isPrototypeOf'', ''propertyIsEnumerable'', ''toLocaleString'',
      ''toString'', ''valueOf'', ''__proto__'', ''__defineGetter__'', ''__defineSetter__'',
      ''__lookupGetter__'', ''__lookupSetter__'']"

definition entry_json :: "string \<Rightarrow> string \<Rightarrow> json" where
  "entry_json hash content = JObj [(''hash'', JStr hash), (''content'', JStr content)]"

definition capture_path ::
  "(string \<Rightarrow> string) \<Rightarrow> files \<Rightarrow> file_hashes \<Rightarrow> string \<Rightarrow> json js_obj \<times> bool \<Rightarrow> json js_obj \<times> bool" where
  "capture_path sha256 source base path acc =
     (case acc of (held, added) \<Rightarrow>
        if obj_has held path \<or> path \<in> set OBJECT_KEYS \<or> \<not> isUserFile path then (held, added)
        else case (map_of source path, map_of base path) of
          (Some before, Some hash) \<Rightarrow>
            if sha256 before \<noteq> hash then (held, added)
            else (obj_set path (entry_json hash before) held, True)
        | _ \<Rightarrow> (held, added))"

definition capture_source :: "string \<Rightarrow> files option \<Rightarrow> device \<Rightarrow> files option" where
  "capture_source projectId given d =
     (case given of
        Some fs \<Rightarrow> Some fs
      | None \<Rightarrow>
          (case dv_shadow d of
             Some (p, fs) \<Rightarrow> if p = projectId then Some fs else None
           | None \<Rightarrow> None))"

definition capture ::
  "json_parse \<Rightarrow> json_stringify \<Rightarrow> (string \<Rightarrow> string) \<Rightarrow> string \<Rightarrow> string list \<Rightarrow> file_hashes \<Rightarrow>
     files option \<Rightarrow> device \<Rightarrow> device" where
  "capture parse stringify sha256 projectId paths base given d =
     (case capture_source projectId given d of
        None \<Rightarrow> d
      | Some source \<Rightarrow>
          if length paths = 0 then d
          else case base_read parse projectId d of
            (d', held) \<Rightarrow>
              (case fold (capture_path sha256 source base) paths (held, False) of
                 (held', added) \<Rightarrow> if added then base_replace stringify projectId held' d' else d'))"

definition accepted :: "string \<Rightarrow> snapshot \<Rightarrow> bool \<Rightarrow> device \<Rightarrow> device" where
  "accepted projectId snap isCurrent d =
     (let d' = base_clear projectId d in if isCurrent then track projectId (snap_files snap) d' else d')"

definition base_reset :: "device \<Rightarrow> device" where
  "base_reset d = d\<lparr>dv_shadow := None\<rparr>"

text \<open>The typed reading of the stored object, as the merge takes it.\<close>

fun as_entry :: "json \<Rightarrow> base_content" where
  "as_entry (JObj flds) =
     \<lparr>bc_hash = as_str (map_of flds ''hash''),
      bc_content = (case as_str (map_of flds ''content'') of None \<Rightarrow> [] | Some s \<Rightarrow> s)\<rparr>"
| "as_entry v = \<lparr>bc_hash = None, bc_content = []\<rparr>"

definition base_contents :: "json js_obj \<Rightarrow> base_content js_obj" where
  "base_contents held = map (\<lambda>(p, v). (p, as_entry v)) held"

end
