(* ===== verification/Sync_Mark.thy ===== *)
theory Sync_Mark
  imports Sync_Base
begin

text \<open>
  The agreements of this device with the account's server, one file per project
  (\<^verbatim>\<open>features/persistence/model/sync-mark.ts\<close>), and the claims that say which account made a project that
  has not been uploaded yet (\<^verbatim>\<open>sync-claim.ts\<close>). A change of a mark is a task in its project's queue; it is
  cut where it awaits the volume, and the tasks of different projects interleave freely. A directory of
  the volume is listed from the files under it. The signed-in account does not change meanwhile.
\<close>

section \<open>Paths\<close>

definition MARK_ROOT :: string where
  "MARK_ROOT = ''/.config/sync''"

definition CLAIM_ROOT :: string where
  "CLAIM_ROOT = ''/.config/sync-claims''"

definition SUFFIX :: string where
  "SUFFIX = ''.json''"

definition dirFor :: "string \<Rightarrow> string \<Rightarrow> string" where
  "dirFor r userId = r @ ''/'' @ encodeURIComponent userId"

definition fileOf :: "string \<Rightarrow> string \<Rightarrow> string \<Rightarrow> string" where
  "fileOf r userId projectId = dirFor r userId @ ''/'' @ encodeURIComponent projectId @ SUFFIX"

text \<open>
  \<^verbatim>\<open>decodeURIComponent\<close>, \<open>None\<close> where it throws: the escapes of one byte, and of the two bytes the
  characters above 127 of the string type take.
\<close>

definition hex_value :: "char \<Rightarrow> nat option" where
  "hex_value c =
     (let n = of_char c
      in if 48 \<le> n \<and> n \<le> 57 then Some (n - 48)
         else if 65 \<le> n \<and> n \<le> 70 then Some (n - 55)
         else if 97 \<le> n \<and> n \<le> 102 then Some (n - 87)
         else None)"

fun byte_of :: "string \<Rightarrow> (nat \<times> string) option" where
  "byte_of (p # a # b # cs) =
     (if p \<noteq> CHR ''%'' then None
      else case (hex_value a, hex_value b) of
        (Some x, Some y) \<Rightarrow> Some (16 * x + y, cs)
      | _ \<Rightarrow> None)"
| "byte_of cs = None"

lemma byte_of_length: "byte_of s = Some (n, rest) \<Longrightarrow> length rest < length s"
  by (cases s rule: byte_of.cases) (auto split: if_splits option.splits)

function decodeURIComponent :: "string \<Rightarrow> string option" where
  "decodeURIComponent s =
     (case s of
        [] \<Rightarrow> Some []
      | c # cs \<Rightarrow>
          if c \<noteq> CHR ''%'' then map_option ((#) c) (decodeURIComponent cs)
          else (case byte_of s of
              None \<Rightarrow> None
            | Some (n, rest) \<Rightarrow>
                if n < 128 then map_option ((#) (char_of n)) (decodeURIComponent rest)
                else if n = 194 \<or> n = 195 then
                  (case byte_of rest of
                     None \<Rightarrow> None
                   | Some (m, rest') \<Rightarrow>
                       if 128 \<le> m \<and> m < 192
                       then map_option ((#) (char_of (64 * (n - 192) + (m - 128)))) (decodeURIComponent rest')
                       else None)
                else None))"
  by pat_completeness auto
termination
  by (relation "measure length") (auto dest!: byte_of_length)

declare decodeURIComponent.simps [simp del]

section \<open>The volume\<close>

definition fs_exists :: "device \<Rightarrow> string \<Rightarrow> fs_error + bool" where
  "fs_exists d p =
     (if p \<in> set (dv_faulty d) then Inl EOther else Inr (obj_has (dv_files d) p))"

definition readDir :: "device \<Rightarrow> string \<Rightarrow> fs_error + string list" where
  "readDir d dir =
     (let below = filter (prefix (dir @ ''/'')) (obj_keys (dv_files d));
          names = js_set (map (\<lambda>p. takeWhile (\<lambda>c. c \<noteq> CHR ''/'') (drop (length dir + 1) p)) below)
      in if dir \<in> set (dv_faulty d) then Inl EOther
         else if names = [] then Inl ENOENT else Inr names)"

text \<open>
  The recursive removal of a directory, which stops at the first item it cannot remove: what was removed
  before stays removed. The directories it is called on hold files only.
\<close>

fun remove_each :: "string list \<Rightarrow> device \<Rightarrow> device \<times> fs_error option" where
  "remove_each [] d = (d, None)"
| "remove_each (p # ps) d =
     (case removeFile d p of Inl e \<Rightarrow> (d, Some e) | Inr d' \<Rightarrow> remove_each ps d')"

definition removeDir :: "device \<Rightarrow> string \<Rightarrow> device \<times> fs_error option" where
  "removeDir d dir =
     (case readDir d dir of
        Inl e \<Rightarrow> (d, Some e)
      | Inr names \<Rightarrow> remove_each (map (\<lambda>n. dir @ ''/'' @ n) names) d)"

text \<open>The report of a failure that is not a missing file.\<close>

definition unless_missing :: "fs_error \<Rightarrow> string \<Rightarrow> device \<Rightarrow> device" where
  "unless_missing e what d = (case e of ENOENT \<Rightarrow> d | EOther \<Rightarrow> report what d)"

section \<open>Claims\<close>

definition claim :: "string \<Rightarrow> device \<Rightarrow> device" where
  "claim projectId d =
     (case currentUserId d of
        None \<Rightarrow> d
      | Some u \<Rightarrow>
          (case writeFile d (fileOf CLAIM_ROOT u projectId) ''{}'' of
             Inl e \<Rightarrow> report (''claim '' @ projectId) d | Inr d' \<Rightarrow> d'))"

definition claim_has :: "string \<Rightarrow> device \<Rightarrow> device \<times> bool" where
  "claim_has projectId d =
     (case currentUserId d of
        None \<Rightarrow> (d, False)
      | Some u \<Rightarrow>
          (case fs_exists d (fileOf CLAIM_ROOT u projectId) of
             Inl e \<Rightarrow> (report (''find claim '' @ projectId) d, False) | Inr b \<Rightarrow> (d, b)))"

definition claim_drop :: "string \<Rightarrow> device \<Rightarrow> device" where
  "claim_drop projectId d =
     (case currentUserId d of
        None \<Rightarrow> d
      | Some u \<Rightarrow>
          (case removeFile d (fileOf CLAIM_ROOT u projectId) of
             Inl e \<Rightarrow> unless_missing e (''drop claim '' @ projectId) d | Inr d' \<Rightarrow> d'))"

text \<open>\<^verbatim>\<open>_owners\<close>: an owner directory whose name does not decode makes the call throw.\<close>

definition claim_owners :: "device \<Rightarrow> fs_error + string list" where
  "claim_owners d =
     (case readDir d CLAIM_ROOT of
        Inl e \<Rightarrow> Inl e
      | Inr names \<Rightarrow>
          (case those (map decodeURIComponent names) of None \<Rightarrow> Inl EOther | Some us \<Rightarrow> Inr us))"

definition endsWith :: "string \<Rightarrow> string \<Rightarrow> bool" where
  "endsWith s end' \<longleftrightarrow> suffix end' s"

definition projectIdOf :: "string \<Rightarrow> string option" where
  "projectIdOf fileName = decodeURIComponent (take (length fileName - length SUFFIX) fileName)"

fun owner_claims :: "device \<Rightarrow> string list \<Rightarrow> string list \<Rightarrow> fs_error + string list" where
  "owner_claims d [] ids = Inr ids"
| "owner_claims d (u # us) ids =
     (case readDir d (dirFor CLAIM_ROOT u) of
        Inl e \<Rightarrow> Inl e
      | Inr names \<Rightarrow>
          (case those (map projectIdOf (filter (\<lambda>n. endsWith n SUFFIX) names)) of
             None \<Rightarrow> Inl EOther
           | Some ps \<Rightarrow> owner_claims d us (js_set (ids @ ps))))"

definition claim_projectIds :: "device \<Rightarrow> device \<times> string list" where
  "claim_projectIds d =
     (case claim_owners d of
        Inl e \<Rightarrow> (unless_missing e ''list claims'' d, [])
      | Inr us \<Rightarrow>
          (case owner_claims d us [] of
             Inl e \<Rightarrow> (unless_missing e ''list claims'' d, []) | Inr ids \<Rightarrow> (d, ids)))"

fun forget_loop :: "string \<Rightarrow> string list \<Rightarrow> device \<Rightarrow> device" where
  "forget_loop projectId [] d = d"
| "forget_loop projectId (u # us) d =
     (case removeFile d (fileOf CLAIM_ROOT u projectId) of
        Inr d' \<Rightarrow> forget_loop projectId us d'
      | Inl ENOENT \<Rightarrow> forget_loop projectId us d
      | Inl EOther \<Rightarrow> report (''forget claim '' @ projectId) d)"

definition claim_forget :: "string \<Rightarrow> device \<Rightarrow> device" where
  "claim_forget projectId d =
     (case claim_owners d of
        Inl e \<Rightarrow> unless_missing e (''forget claim '' @ projectId) d
      | Inr us \<Rightarrow> forget_loop projectId us d)"

section \<open>Marks\<close>

record sync_mark =
  sm_files :: file_hashes
  sm_name :: string
  sm_localName :: "string option"
  sm_updatedAt :: string
  sm_dirty :: bool

datatype mark_change = Written | Dirtied | Removed

definition json_field :: "json \<Rightarrow> string \<Rightarrow> json option" where
  "json_field j k = (case j of JObj flds \<Rightarrow> map_of flds k | _ \<Rightarrow> None)"

definition isWholeSnapshotMark :: "json \<Rightarrow> bool" where
  "isWholeSnapshotMark parsed \<longleftrightarrow>
     json_field parsed ''files'' = None \<and>
     as_str (json_field parsed ''hash'') \<noteq> None \<and> as_str (json_field parsed ''updatedAt'') \<noteq> None"

fun is_hash :: "json \<Rightarrow> bool" where
  "is_hash (JStr s) \<longleftrightarrow> True"
| "is_hash v \<longleftrightarrow> False"

definition hashes_of :: "json js_obj \<Rightarrow> file_hashes" where
  "hashes_of flds = map (\<lambda>(p, v). (p, case as_str (Some v) of None \<Rightarrow> [] | Some s \<Rightarrow> s)) flds"

definition as_sync_mark :: "json \<Rightarrow> sync_mark option" where
  "as_sync_mark parsed =
     (case (as_obj (json_field parsed ''files''), as_str (json_field parsed ''name''),
            as_str (json_field parsed ''updatedAt'')) of
        (Some fs, Some name, Some updatedAt) \<Rightarrow>
          if \<not> list_all (\<lambda>(p, v). is_hash v) fs then None
          else Some \<lparr>sm_files = hashes_of fs, sm_name = name,
                     sm_localName = as_str (json_field parsed ''localName''), sm_updatedAt = updatedAt,
                     sm_dirty = (json_field parsed ''dirty'' = Some (JBool True))\<rparr>
      | _ \<Rightarrow> None)"

text \<open>A parsed \<^verbatim>\<open>null\<close> has no fields either: \<^verbatim>\<open>parsed?.files\<close> is then undefined.\<close>

definition mark_read :: "json_parse \<Rightarrow> string \<Rightarrow> device \<Rightarrow> device \<times> sync_mark option" where
  "mark_read parse projectId d =
     (case currentUserId d of
        None \<Rightarrow> (d, None)
      | Some u \<Rightarrow>
          (case readToString d (fileOf MARK_ROOT u projectId) of
             Inl e \<Rightarrow> (unless_missing e (''read sync mark '' @ projectId) d, None)
           | Inr s \<Rightarrow>
               (case parse s of
                  None \<Rightarrow> (report (''read sync mark '' @ projectId) d, None)
                | Some parsed \<Rightarrow>
                    (case as_sync_mark parsed of
                       Some m \<Rightarrow> (d, Some m)
                     | None \<Rightarrow>
                         (if isWholeSnapshotMark parsed then d
                          else report (''sync mark '' @ projectId @ '': malformed'') d, None)))))"

definition readWholeSnapshotMark :: "json_parse \<Rightarrow> string \<Rightarrow> device \<Rightarrow> device \<times> string option" where
  "readWholeSnapshotMark parse projectId d =
     (case currentUserId d of
        None \<Rightarrow> (d, None)
      | Some u \<Rightarrow>
          (case readToString d (fileOf MARK_ROOT u projectId) of
             Inl e \<Rightarrow> (unless_missing e (''read whole-snapshot sync mark '' @ projectId) d, None)
           | Inr s \<Rightarrow>
               (case parse s of
                  None \<Rightarrow> (report (''read whole-snapshot sync mark '' @ projectId) d, None)
                | Some parsed \<Rightarrow>
                    (d, if isWholeSnapshotMark parsed then as_str (json_field parsed ''updatedAt'') else None))))"

definition mark_json :: "sync_mark \<Rightarrow> json" where
  "mark_json m =
     JObj ([(''files'', JObj (map (\<lambda>(p, h). (p, JStr h)) (sm_files m))), (''name'', JStr (sm_name m))] @
           (case sm_localName m of None \<Rightarrow> [] | Some n \<Rightarrow> [(''localName'', JStr n)]) @
           [(''updatedAt'', JStr (sm_updatedAt m)), (''dirty'', JBool (sm_dirty m))])"

definition mark_write :: "json_stringify \<Rightarrow> string \<Rightarrow> sync_mark \<Rightarrow> device \<Rightarrow> device \<times> bool" where
  "mark_write stringify projectId m d =
     (case currentUserId d of
        None \<Rightarrow> (d, False)
      | Some u \<Rightarrow>
          (case writeFile d (fileOf MARK_ROOT u projectId) (stringify (mark_json m)) of
             Inl e \<Rightarrow> (report (''write sync mark '' @ projectId) d, False)
           | Inr d' \<Rightarrow> (d', True)))"

definition mark_existsOrThrow :: "string \<Rightarrow> device \<Rightarrow> fs_error + bool" where
  "mark_existsOrThrow projectId d =
     (case currentUserId d of None \<Rightarrow> Inr False | Some u \<Rightarrow> fs_exists d (fileOf MARK_ROOT u projectId))"

definition mark_exists :: "string \<Rightarrow> device \<Rightarrow> device \<times> bool" where
  "mark_exists projectId d =
     (case mark_existsOrThrow projectId d of
        Inl e \<Rightarrow> (report (''find sync mark '' @ projectId) d, False) | Inr b \<Rightarrow> (d, b))"

definition mark_projectIds :: "device \<Rightarrow> device \<times> string list" where
  "mark_projectIds d =
     (case currentUserId d of
        None \<Rightarrow> (d, [])
      | Some u \<Rightarrow>
          (case readDir d (dirFor MARK_ROOT u) of
             Inl e \<Rightarrow> (unless_missing e ''list sync marks'' d, [])
           | Inr names \<Rightarrow>
               (case those (map projectIdOf (filter (\<lambda>n. endsWith n SUFFIX) names)) of
                  None \<Rightarrow> (report ''list sync marks'' d, []) | Some ids \<Rightarrow> (d, ids))))"

fun owned_loop :: "device \<Rightarrow> string \<Rightarrow> string list \<Rightarrow> fs_error + bool" where
  "owned_loop d projectId [] = Inr False"
| "owned_loop d projectId (owner # owners) =
     (if Some owner = map_option encodeURIComponent (currentUserId d) then owned_loop d projectId owners
      else case decodeURIComponent owner of
        None \<Rightarrow> Inl EOther
      | Some u \<Rightarrow>
          (case fs_exists d (fileOf MARK_ROOT u projectId) of
             Inl e \<Rightarrow> Inl e
           | Inr True \<Rightarrow> Inr True
           | Inr False \<Rightarrow> owned_loop d projectId owners))"

definition ownedByAnother :: "string \<Rightarrow> device \<Rightarrow> device \<times> bool" where
  "ownedByAnother projectId d =
     (case readDir d MARK_ROOT of
        Inl e \<Rightarrow> (unless_missing e (''owners of '' @ projectId) d, False)
      | Inr owners \<Rightarrow>
          (case owned_loop d projectId owners of
             Inl e \<Rightarrow> (unless_missing e (''owners of '' @ projectId) d, False)
           | Inr b \<Rightarrow> (d, b)))"

definition belongsToAnotherAccount :: "string \<Rightarrow> device \<Rightarrow> device \<times> bool" where
  "belongsToAnotherAccount projectId d =
     (case mark_exists projectId d of
        (d1, True) \<Rightarrow> (d1, False)
      | (d1, False) \<Rightarrow>
          (case claim_has projectId d1 of
             (d2, True) \<Rightarrow> (d2, False)
           | (d2, False) \<Rightarrow> ownedByAnother projectId d2))"

definition mark_clear :: "device \<Rightarrow> device" where
  "mark_clear d =
     (case currentUserId d of
        None \<Rightarrow> d
      | Some u \<Rightarrow>
          (case removeDir d (dirFor MARK_ROOT u) of
             (d', None) \<Rightarrow> d' | (d', Some e) \<Rightarrow> unless_missing e ''clear sync marks'' d'))"

section \<open>Queued changes\<close>

text \<open>
  The bodies of \<^verbatim>\<open>write\<close>, \<^verbatim>\<open>markDirty\<close> and \<^verbatim>\<open>remove\<close>, cut at their awaits: \<open>StartK\<close> is a task not yet
  begun, the others are what is left of one.
\<close>

datatype mark_task = TWrite sync_mark | TDirty | TRemove

datatype mark_cont =
    StartK mark_task
  | WriteDropK
  | WriteEmitK
  | DirtyWriteK sync_mark
  | DirtyEmitK
  | RemoveDropK bool
  | RemoveEmitK bool

definition mark_remove :: "string \<Rightarrow> device \<Rightarrow> device \<times> bool option" where
  "mark_remove projectId d =
     (case currentUserId d of
        None \<Rightarrow> (d, None)
      | Some u \<Rightarrow>
          (case removeFile d (fileOf MARK_ROOT u projectId) of
             Inr d' \<Rightarrow> (d', Some True)
           | Inl ENOENT \<Rightarrow> (d, Some True)
           | Inl EOther \<Rightarrow> (report (''remove sync mark '' @ projectId) d, Some False)))"

text \<open>One piece of a task: the device, what is told to the listeners, and what is left.\<close>

fun cont_step ::
  "json_parse \<Rightarrow> json_stringify \<Rightarrow> string \<Rightarrow> mark_cont \<Rightarrow> device \<Rightarrow>
     device \<times> mark_change option \<times> mark_cont option" where
  "cont_step parse stringify p (StartK (TWrite m)) d =
     (case mark_write stringify p m d of (d', ok) \<Rightarrow> (d', None, if ok then Some WriteDropK else None))"
| "cont_step parse stringify p WriteDropK d = (claim_drop p d, None, Some WriteEmitK)"
| "cont_step parse stringify p WriteEmitK d = (d, Some Written, None)"
| "cont_step parse stringify p (StartK TDirty) d =
     (case mark_read parse p d of
        (d', None) \<Rightarrow> (d', None, None)
      | (d', Some m) \<Rightarrow> (d', None, if sm_dirty m then None else Some (DirtyWriteK (m\<lparr>sm_dirty := True\<rparr>))))"
| "cont_step parse stringify p (DirtyWriteK m) d =
     (case mark_write stringify p m d of (d', ok) \<Rightarrow> (d', None, if ok then Some DirtyEmitK else None))"
| "cont_step parse stringify p DirtyEmitK d = (d, Some Dirtied, None)"
| "cont_step parse stringify p (StartK TRemove) d =
     (case mark_remove p d of
        (d', None) \<Rightarrow> (d', None, None) | (d', Some gone) \<Rightarrow> (d', None, Some (RemoveDropK gone)))"
| "cont_step parse stringify p (RemoveDropK gone) d = (claim_drop p d, None, Some (RemoveEmitK gone))"
| "cont_step parse stringify p (RemoveEmitK gone) d = (d, if gone then Some Removed else None, None)"

text \<open>
  The queues of \<^verbatim>\<open>_serial\<close>: per project the task that runs, then those that wait for it. The labels of a
  run are the calls, in the order they were made.
\<close>

record marks_sys =
  ms_device :: device
  ms_queue :: "string \<Rightarrow> mark_cont list"
  ms_told :: "(string \<times> mark_change) list"

inductive marks_run ::
  "json_parse \<Rightarrow> json_stringify \<Rightarrow> device \<Rightarrow> (string \<times> mark_task) list \<Rightarrow> marks_sys \<Rightarrow> bool"
  for parse stringify d0 where
  run_start: "marks_run parse stringify d0 [] \<lparr>ms_device = d0, ms_queue = (\<lambda>p. []), ms_told = []\<rparr>"
| run_call: "marks_run parse stringify d0 calls s \<Longrightarrow>
    marks_run parse stringify d0 (calls @ [(p, t)])
      (s\<lparr>ms_queue := (ms_queue s)(p := ms_queue s p @ [StartK t])\<rparr>)"
| run_piece: "marks_run parse stringify d0 calls s \<Longrightarrow> ms_queue s p = k # ks \<Longrightarrow>
    cont_step parse stringify p k (ms_device s) = (d', told, left) \<Longrightarrow>
    marks_run parse stringify d0 calls
      \<lparr>ms_device = d',
       ms_queue = (ms_queue s)(p := (case left of None \<Rightarrow> ks | Some k' \<Rightarrow> k' # ks)),
       ms_told = ms_told s @ (case told of None \<Rightarrow> [] | Some c \<Rightarrow> [(p, c)])\<rparr>"

end
