(* ===== verification/Sync_Base_Correct.thy ===== *)
theory Sync_Base_Correct
  imports Sync_Base Merge_Plan_Correct
begin

text \<open>
  The stored bases of different accounts and projects never meet, and a capture keeps the agreed
  content of exactly the files it should, so that the next merge has a base for them.
\<close>

section \<open>Paths do not meet\<close>

lemma hex_digit_inj: "a < 16 \<Longrightarrow> b < 16 \<Longrightarrow> hex_digit a = hex_digit b \<longleftrightarrow> a = b"
  unfolding hex_digit_def by (rule nth_eq_iff_index_eq) simp_all

lemma hex_digit_set: "d < 16 \<Longrightarrow> hex_digit d \<in> set ''0123456789ABCDEF''"
  unfolding hex_digit_def by (rule nth_mem) simp

lemma escape_eq:
  assumes "m < 256" "n < 256"
  shows "escape m = escape n \<longleftrightarrow> m = n"
proof -
  have "m div 16 < 16" "n div 16 < 16" using assms by simp_all
  then have "escape m = escape n \<longleftrightarrow> m div 16 = n div 16 \<and> m mod 16 = n mod 16"
    by (simp add: escape_def hex_digit_inj)
  then show ?thesis by (metis div_mult_mod_eq)
qed

lemma percent_reserved: "\<not> unreserved CHR ''%''" "\<not> unreserved CHR ''/''"
  by (simp_all add: unreserved_def)

lemma encode_char_cancel:
  assumes "encode_char c @ xs = encode_char d @ ys"
  shows "c = d \<and> xs = ys"
proof -
  let ?m = "of_char c :: nat" and ?n = "of_char d :: nat"
  have len: "length (escape k) = 3" for k by (simp add: escape_def)
  have low: "escape j @ us \<noteq> escape (192 + k div 64) @ vs" if "j < 128" "k < 256" for j k us vs
  proof
    assume "escape j @ us = escape (192 + k div 64) @ vs"
    then have "escape j = escape (192 + k div 64)" by (simp add: len append_eq_append_conv)
    then have "j = 192 + k div 64" using that escape_eq [of j "192 + k div 64"] by simp
    then show False using that by simp
  qed
  have high: "j = k \<and> us = vs" if "escape (192 + j div 64) @ escape (128 + j mod 64) @ us = escape (192 + k div 64) @ escape (128 + k mod 64) @ vs"
    "j < 256" "k < 256" for j k us vs
  proof -
    have "escape (192 + j div 64) = escape (192 + k div 64)" "escape (128 + j mod 64) = escape (128 + k mod 64)" "us = vs"
      using that(1) by (simp_all add: len append_eq_append_conv)
    then have "j div 64 = k div 64" "j mod 64 = k mod 64"
      using that(2,3) escape_eq [of "192 + j div 64" "192 + k div 64"] escape_eq [of "128 + j mod 64" "128 + k mod 64"]
      by simp_all
    then show ?thesis using \<open>us = vs\<close> by (metis div_mult_mod_eq)
  qed
  have first: "hd (escape k @ us) = CHR ''%''" for k us by (simp add: escape_def)
  have enc: "encode_char e = (if unreserved e then [e] else if (of_char e :: nat) < 128 then escape (of_char e)
      else escape (192 + of_char e div 64) @ escape (128 + of_char e mod 64))" for e by (simp add: encode_char_def Let_def)
  show ?thesis
  proof (cases "unreserved c \<or> unreserved d")
    case True
    then have "unreserved c \<and> unreserved d"
      using assms percent_reserved(1) first unfolding enc by (auto simp: escape_def split: if_splits)
    then show ?thesis using assms by (simp add: enc)
  next
    case False
    consider (lows) "?m < 128" "?n < 128" | (ml) "?m < 128" "\<not> ?n < 128" | (nl) "\<not> ?m < 128" "?n < 128"
      | (highs) "\<not> ?m < 128" "\<not> ?n < 128" by blast
    then show ?thesis
    proof cases
      case lows
      then have "escape ?m = escape ?n \<and> xs = ys" using assms False by (simp add: enc len append_eq_append_conv)
      then have "?m = ?n \<and> xs = ys" using lows escape_eq [of ?m ?n] by simp
      then show ?thesis by simp
    next
      case ml
      then show ?thesis using assms False low [of ?m ?n] by (simp add: enc)
    next
      case nl
      then show ?thesis using assms [symmetric] False low [of ?n ?m] by (simp add: enc)
    next
      case highs
      then show ?thesis using assms False high [of ?m xs ?n ys] by (simp add: enc)
    qed
  qed
qed

lemma encode_char_not_Nil: "encode_char c \<noteq> []"
  by (simp add: encode_char_def escape_def Let_def)

lemma encode_inj: "encodeURIComponent s = encodeURIComponent t \<longleftrightarrow> s = t"
proof (induction s arbitrary: t)
  case Nil
  then show ?case using encode_char_not_Nil by (cases t) (auto simp: encodeURIComponent_def)
next
  case (Cons c s)
  show ?case
  proof (cases t)
    case (Cons d t')
    then show ?thesis
      using Cons.IH [of t'] encode_char_cancel [of c "encodeURIComponent s" d "encodeURIComponent t'"]
      by (auto simp: encodeURIComponent_def)
  qed (simp add: encodeURIComponent_def encode_char_not_Nil)
qed

lemma encode_no_slash: "CHR ''/'' \<notin> set (encodeURIComponent s)"
proof -
  have digit: "CHR ''/'' \<noteq> hex_digit k" if "k < 16" for k using hex_digit_set [OF that] by auto
  have esc: "CHR ''/'' \<notin> set (escape k)" if "k < 256" for k
    using that digit [of "k div 16"] digit [of "k mod 16"] by (simp add: escape_def)
  have bytes: "192 + n div 64 < 256 \<and> 128 + n mod 64 < 256" if "n < 256" for n :: nat
  proof -
    have "n div 64 < 4" "n mod 64 < 64" using that by simp_all
    then show ?thesis by simp
  qed
  have "CHR ''/'' \<notin> set (encode_char c)" for c
    using esc bytes [of "of_char c"] percent_reserved(2) by (auto simp: encode_char_def Let_def)
  then show ?thesis by (auto simp: encodeURIComponent_def)
qed

lemma encoded_pair_eq:
  "encodeURIComponent u @ CHR ''/'' # encodeURIComponent p @ suf = encodeURIComponent u' @ CHR ''/'' # encodeURIComponent p' @ suf \<longleftrightarrow>
   u = u' \<and> p = p'"
proof
  assume eq: "encodeURIComponent u @ CHR ''/'' # encodeURIComponent p @ suf = encodeURIComponent u' @ CHR ''/'' # encodeURIComponent p' @ suf"
  then have "encodeURIComponent u @ CHR ''/'' # encodeURIComponent p = encodeURIComponent u' @ CHR ''/'' # encodeURIComponent p'"
    by (metis append.assoc append_Cons append_same_eq)
  then have "encodeURIComponent u = encodeURIComponent u'"
    using encode_no_slash by (metis append_Cons_eq_iff)
  then show "u = u' \<and> p = p'" using eq by (simp add: encode_inj)
qed simp

lemma pathOf_eq: "pathOf u p = pathOf u' p' \<longleftrightarrow> u = u' \<and> p = p'"
  using encoded_pair_eq [of u p "''.json''"] by (simp add: pathOf_def)

section \<open>What a capture keeps\<close>

text \<open>
  The entry a capture makes for a path: there is one when the path is a user file the source holds, with
  the very content the mark says was agreed, unless every object inherits a property of that name.
\<close>

definition captured :: "(string \<Rightarrow> string) \<Rightarrow> files \<Rightarrow> file_hashes \<Rightarrow> string \<Rightarrow> json option" where
  "captured sha256 source base q =
     (if q \<in> set OBJECT_KEYS \<or> \<not> isUserFile q then None
      else case (map_of source q, map_of base q) of
        (Some c, Some h) \<Rightarrow> if sha256 c = h then Some (entry_json h c) else None
      | _ \<Rightarrow> None)"

lemma capture_path_captured:
  "capture_path sha256 source base path (held, added) =
     (if obj_has held path then (held, added)
      else case captured sha256 source base path of
        None \<Rightarrow> (held, added) | Some e \<Rightarrow> (obj_set path e held, True))"
  by (auto simp: capture_path_def captured_def split: option.splits)

lemma capture_fold:
  "map_of (fst (fold (capture_path sha256 source base) paths (held, b))) q =
     (case map_of held q of Some e \<Rightarrow> Some e | None \<Rightarrow> if q \<in> set paths then captured sha256 source base q else None)"
proof (induction paths arbitrary: held b)
  case (Cons p paths)
  show ?case
  proof (cases "obj_has held p \<or> captured sha256 source base p = None")
    case True
    then show ?thesis using Cons.IH [of held b] by (auto simp: capture_path_captured obj_has_def split: option.splits)
  next
    case False
    then obtain e where "captured sha256 source base p = Some e" "\<not> obj_has held p" by blast
    then show ?thesis
      using Cons.IH [of "obj_set p e held" True] by (auto simp: capture_path_captured obj_has_def split: option.splits)
  qed
qed (simp split: option.splits)

lemma capture_fold_idle:
  "\<not> snd (fold (capture_path sha256 source base) paths (held, b)) \<Longrightarrow> fst (fold (capture_path sha256 source base) paths (held, b)) = held"
proof (induction paths arbitrary: held b)
  case (Cons p paths)
  have set: "snd (fold (capture_path sha256 source base) ps (h, True))" for ps h
    by (induction ps arbitrary: h) (auto simp: capture_path_captured split: option.splits)
  then have "capture_path sha256 source base p (held, b) = (held, b)"
    using Cons.prems by (auto simp: capture_path_captured split: option.splits if_splits)
  then show ?case using Cons by simp
qed simp

lemma capture_fold_added:
  "snd (fold (capture_path sha256 source base) paths (held, False)) \<Longrightarrow>
   fst (fold (capture_path sha256 source base) paths (held, False)) \<noteq> []"
proof (induction paths arbitrary: held)
  case (Cons p paths)
  have keep: "h \<noteq> [] \<Longrightarrow> fst (fold (capture_path sha256 source base) ps (h, b)) \<noteq> []" for ps h b
  proof (induction ps arbitrary: h b)
    case (Cons q ps)
    have "obj_set q e h \<noteq> []" for e by (metis obj_has_def obj_has_obj_set map_of.simps(1))
    then show ?case using Cons by (auto simp: capture_path_captured split: option.splits)
  qed simp
  have "obj_set p e held \<noteq> []" for e by (metis obj_has_def obj_has_obj_set map_of.simps(1))
  then show ?case using Cons keep by (auto simp: capture_path_captured split: option.splits)
qed simp

section \<open>What a read sees\<close>

lemma report_simps [simp]:
  "dv_files (report m d) = dv_files d" "dv_faulty (report m d) = dv_faulty d" "dv_user (report m d) = dv_user d"
  by (simp_all add: report_def Let_def)

lemma currentUserId_report [simp]: "currentUserId (report m d) = currentUserId d"
  by (simp add: currentUserId_def)

lemma base_read_cong:
  assumes "dv_files d' = dv_files d" "dv_faulty d' = dv_faulty d" "dv_user d' = dv_user d"
  shows "snd (base_read parse projectId d') = snd (base_read parse projectId d)"
proof -
  have "currentUserId d' = currentUserId d" "readToString d' = readToString d"
    using assms by (simp_all add: currentUserId_def readToString_def fun_eq_iff)
  then show ?thesis
    by (auto simp: base_read_def split: option.splits sum.splits fs_error.splits json.splits)
qed

lemma base_read_device:
  "dv_files (fst (base_read parse projectId d)) = dv_files d"
  "dv_faulty (fst (base_read parse projectId d)) = dv_faulty d"
  "dv_user (fst (base_read parse projectId d)) = dv_user d"
  by (auto simp: base_read_def split: option.splits sum.splits fs_error.splits json.splits)

lemma base_replace_read:
  assumes "currentUserId d = Some u" "pathOf u projectId \<notin> set (dv_faulty d)" "contents \<noteq> []"
    and "parse (stringify (JObj contents)) = Some (JObj contents)"
  shows "snd (base_read parse projectId (base_replace stringify projectId contents d)) = contents"
    and "q \<noteq> projectId \<Longrightarrow> snd (base_read parse q (base_replace stringify projectId contents d)) = snd (base_read parse q d)"
proof -
  define d' where "d' = d\<lparr>dv_files := obj_set (pathOf u projectId) (stringify (JObj contents)) (dv_files d)\<rparr>"
  have d': "base_replace stringify projectId contents d = d'"
    using assms(1-3) by (simp add: base_replace_def writeFile_def obj_keys_def d'_def)
  have user: "currentUserId d' = Some u" using assms(1) by (simp add: d'_def currentUserId_def)
  show "snd (base_read parse projectId (base_replace stringify projectId contents d)) = contents"
    using assms(2,4) by (simp add: d' base_read_def user) (simp add: d'_def readToString_def)
  have "readToString d' (pathOf u q) = readToString d (pathOf u q)" if "q \<noteq> projectId"
    using that by (simp add: readToString_def d'_def pathOf_eq)
  then show "q \<noteq> projectId \<Longrightarrow> snd (base_read parse q (base_replace stringify projectId contents d)) = snd (base_read parse q d)"
    by (auto simp: d' base_read_def user assms(1) split: option.splits sum.splits fs_error.splits json.splits)
qed

section \<open>Properties\<close>

text \<open>The agreed content of a path: of a user file, where the source holds what the mark has the hash of.\<close>

definition agreed :: "(string \<Rightarrow> string) \<Rightarrow> files \<Rightarrow> file_hashes \<Rightarrow> string \<Rightarrow> json option" where
  "agreed sha256 source base q =
     (if isUserFile q \<and> obj_has source q \<and> map_of base q = Some (sha256 (the (map_of source q)))
      then Some (entry_json (sha256 (the (map_of source q))) (the (map_of source q))) else None)"

lemma captured_agreed: "q \<notin> set OBJECT_KEYS \<Longrightarrow> captured sha256 source base q = agreed sha256 source base q"
  by (auto simp: captured_def agreed_def obj_has_def split: option.splits)

text \<open>
  C40: a capture keeps the agreed content, and nothing else. For the signed-in account, with a volume
  that works and a JSON library that reads back what it printed, and when none of the paths asked for is a name that every object
  inherits, such as \<open>constructor\<close> (the code takes those for kept already): what the project's stored base held
  before stays as it was, a path asked for gets the entry with its content from the source exactly when
  it is a user file whose content there hashes to what the mark says was agreed, and the stored bases
  of all other projects are untouched.
\<close>

theorem capture_keeps_agreement:
  assumes "currentUserId d = Some u" and "pathOf u projectId \<notin> set (dv_faulty d)"
    and "capture_source projectId given d = Some source"
    and "held = snd (base_read parse projectId d)"
    and "contents = fst (fold (capture_path sha256 source base) paths (held, False))"
    and "parse (stringify (JObj contents)) = Some (JObj contents)"
    and "set paths \<inter> set OBJECT_KEYS = {}"
  shows "let d' = capture parse stringify sha256 projectId paths base given d in
    (\<forall>q. map_of (snd (base_read parse projectId d')) q =
       (case map_of held q of Some e \<Rightarrow> Some e | None \<Rightarrow> if q \<in> set paths then agreed sha256 source base q else None)) \<and>
    (\<forall>other. other = projectId \<or> snd (base_read parse other d') = snd (base_read parse other d))"
proof -
  let ?d1 = "fst (base_read parse projectId d)"
  define added where "added = snd (fold (capture_path sha256 source base) paths (held, False))"
  have fold: "fold (capture_path sha256 source base) paths (held, False) = (contents, added)"
    by (simp add: assms(5) added_def)
  have same: "snd (base_read parse q ?d1) = snd (base_read parse q d)" for q
    by (rule base_read_cong) (simp_all add: base_read_device)
  define d' where "d' = capture parse stringify sha256 projectId paths base given d"
  have "snd (base_read parse projectId d') = contents \<and> (\<forall>q. q = projectId \<or> snd (base_read parse q d') = snd (base_read parse q d))"
  proof (cases added)
    case True
    then have "paths \<noteq> []" using fold by auto
    then have d': "d' = base_replace stringify projectId contents ?d1"
      using True assms(3) fold by (simp add: d'_def capture_def split_beta flip: assms(4))
    have user: "currentUserId ?d1 = Some u" using assms(1) base_read_device(3) by (simp add: currentUserId_def)
    have works: "pathOf u projectId \<notin> set (dv_faulty ?d1)" using assms(2) by (simp add: base_read_device)
    have "contents \<noteq> []" using capture_fold_added [of sha256 source base paths held] fold True by simp
    note read = base_replace_read [of ?d1 u projectId contents parse stringify, OF user works this assms(6)]
    have "q = projectId \<or> snd (base_read parse q d') = snd (base_read parse q d)" for q
      using read(2) [of q] same [of q] by (cases "q = projectId") (simp_all add: d')
    then show ?thesis using read(1) by (simp add: d')
  next
    case False
    then have "contents = held" using capture_fold_idle [of sha256 source base paths held False] fold by simp
    moreover have "d' = d \<or> d' = ?d1"
      using False assms(3,4) fold by (auto simp: d'_def capture_def split: prod.splits)
    ultimately show ?thesis using same assms(4) by auto
  qed
  moreover have "map_of contents q =
      (case map_of held q of Some e \<Rightarrow> Some e | None \<Rightarrow> if q \<in> set paths then agreed sha256 source base q else None)" for q
    using capture_fold [of sha256 source base paths held False q] fold captured_agreed [of q] assms(7)
    by (auto split: option.splits)
  ultimately show ?thesis by (simp add: Let_def d'_def)
qed

text \<open>What is kept is what the next merge of a file changed on both sides needs.\<close>

lemma captured_base_merges:
  assumes "map_of stored p = Some (entry_json h b)" and "map_of (mi_base i) p = Some h"
    and "mi_baseContents i = base_contents stored" and "changed_apart i p"
    and "map_of (mi_local i) p = Some x" and "map_of (mi_server i) p = Some y"
  shows "decide parse stringify diff i p =
    (case merge3 diff b x y of
       Clean txt \<Rightarrow> Inl (Some txt)
     | Conflicted chunks \<Rightarrow> Inr
         (if mixesLineBreaks [b, x, y]
          then WholeConflict p (Some x) (Some y) (map_of (mi_localHashes i) p) (map_of (mi_serverHashes i) p)
          else LinesConflict p chunks (map_of (mi_localHashes i) p) (map_of (mi_serverHashes i) p)))"
proof -
  have "map_of (base_contents stored) p = map_option as_entry (map_of stored p)"
    unfolding base_contents_def by (induction stored) auto
  then have "map_of (mi_baseContents i) p = Some \<lparr>bc_hash = Some h, bc_content = b\<rparr>"
    using assms(1,3) by (simp add: entry_json_def as_str_def)
  then show ?thesis
    using assms(2,4-6) by (simp add: decide_def both_changed_def Let_def split: merge3_result.splits)
qed

theorem capture_keeps_agreement_witness:
  "let d = \<lparr>dv_files = [], dv_faulty = [], dv_user = Some ''u'', dv_shadow = Some (''p'', [(''f'', ''a''), (''g'', ''edited'')]), dv_reports = []\<rparr>;
       parse = (\<lambda>s. Some (JObj [(''f'', entry_json ''#a'' ''a'')]));
       d' = capture parse (\<lambda>j. ''x'') (\<lambda>s. CHR ''#'' # s) ''p'' [''f'', ''g''] [(''f'', ''#a''), (''g'', ''#b'')] None d
   in (\<forall>q. map_of (snd (base_read parse ''p'' d')) q =
        (case map_of [] q of Some e \<Rightarrow> Some e | None \<Rightarrow> if q \<in> set [''f'', ''g'']
         then agreed (\<lambda>s. CHR ''#'' # s) [(''f'', ''a''), (''g'', ''edited'')] [(''f'', ''#a''), (''g'', ''#b'')] q else None)) \<and>
      (\<forall>other. other = ''p'' \<or> snd (base_read parse other d') = snd (base_read parse other d))"
  unfolding Let_def
  by (rule capture_keeps_agreement [unfolded Let_def, where u = "''u''"])
    (simp_all add: currentUserId_def capture_source_def base_read_def readToString_def capture_path_def obj_has_def
      OBJECT_KEYS_def isUserFile_def SYNCED_WORKSPACE_FILES_def obj_set_def)

end
