(* ===== verification/Sync_Mark_Correct.thy ===== *)
theory Sync_Mark_Correct
  imports Sync_Mark Sync_Base_Correct
begin

text \<open>
  The queues of the marks make every change of a mark atomic: whatever the interleaving, a project's mark
  and claim end as if the calls had been made one after the other. A mark is read back as it was written,
  and a project this account has a mark or a claim for is never another account's.
\<close>

section \<open>Files of projects do not meet\<close>

lemma fileOf_eq: "fileOf r u p = fileOf r u' p' \<longleftrightarrow> u = u' \<and> p = p'"
  using encoded_pair_eq [of u p SUFFIX] by (simp add: fileOf_def dirFor_def)

lemma roots_apart: "fileOf MARK_ROOT u p \<noteq> fileOf CLAIM_ROOT u' p'" "fileOf CLAIM_ROOT u p \<noteq> fileOf MARK_ROOT u' p'"
  by (simp_all add: fileOf_def dirFor_def MARK_ROOT_def CLAIM_ROOT_def)

lemma map_of_removed [simp]: "map_of (filter (\<lambda>(k, v). k \<noteq> p) xs) q = (if q = p then None else map_of xs q)"
  by (induction xs) auto

section \<open>What a project sees of the device\<close>

text \<open>The contents of a project's two files, for the account signed in.\<close>

definition cell :: "string \<Rightarrow> device \<Rightarrow> string option \<times> string option" where
  "cell p d =
     (case currentUserId d of
        None \<Rightarrow> (None, None)
      | Some u \<Rightarrow> (map_of (dv_files d) (fileOf MARK_ROOT u p), map_of (dv_files d) (fileOf CLAIM_ROOT u p)))"

text \<open>Devices a project cannot tell apart.\<close>

definition same_for :: "string \<Rightarrow> device \<Rightarrow> device \<Rightarrow> bool" where
  "same_for p d d' \<longleftrightarrow> dv_user d = dv_user d' \<and> dv_faulty d = dv_faulty d' \<and> cell p d = cell p d'"

lemma same_for_equiv:
  "same_for p d d" "same_for p d d' \<Longrightarrow> same_for p d' d" "same_for p a b \<Longrightarrow> same_for p b c \<Longrightarrow> same_for p a c"
  by (simp_all add: same_for_def)

lemma same_for_user: "same_for p d d' \<Longrightarrow> currentUserId d = currentUserId d'"
  by (simp add: same_for_def currentUserId_def)

lemma cell_report [simp]: "cell p (report m d) = cell p d"
  by (simp add: cell_def split: option.split)

lemma same_for_report [simp]: "same_for p (report m d) d' = same_for p d d'" "same_for p d (report m d') = same_for p d d'"
  by (simp_all add: same_for_def)

lemma unless_missing_same [simp]:
  "same_for p (unless_missing e m d) d' = same_for p d d'" "same_for p d (unless_missing e m d') = same_for p d d'"
  by (cases e; simp add: unless_missing_def)+

lemma currentUserId_files [simp]: "currentUserId (d\<lparr>dv_files := fs\<rparr>) = currentUserId d"
  by (simp add: currentUserId_def)

subsection \<open>The pieces are local\<close>

lemma set_local:
  assumes "same_for p d d'"
  shows "same_for p (d\<lparr>dv_files := obj_set f s (dv_files d)\<rparr>) (d'\<lparr>dv_files := obj_set f s (dv_files d')\<rparr>)"
  using assms same_for_user [OF assms] by (cases "currentUserId d'") (auto simp: same_for_def cell_def)

lemma removed_local:
  assumes "same_for p d d'"
  shows "same_for p (d\<lparr>dv_files := filter (\<lambda>(k, v). k \<noteq> f) (dv_files d)\<rparr>) (d'\<lparr>dv_files := filter (\<lambda>(k, v). k \<noteq> f) (dv_files d')\<rparr>)"
  using assms same_for_user [OF assms] by (cases "currentUserId d'") (auto simp: same_for_def cell_def)

lemma own_files:
  assumes "same_for p d d'" "currentUserId d = Some u"
  shows "map_of (dv_files d) (fileOf MARK_ROOT u p) = map_of (dv_files d') (fileOf MARK_ROOT u p)"
    "map_of (dv_files d) (fileOf CLAIM_ROOT u p) = map_of (dv_files d') (fileOf CLAIM_ROOT u p)"
    "dv_faulty d = dv_faulty d'" "currentUserId d' = Some u"
  using assms same_for_user [OF assms(1)] by (simp_all add: same_for_def cell_def)

lemma foreign_files:
  assumes "q \<noteq> p" "currentUserId d = Some u" "f = fileOf MARK_ROOT u q \<or> f = fileOf CLAIM_ROOT u q"
  shows "same_for p (d\<lparr>dv_files := obj_set f s (dv_files d)\<rparr>) d"
    "same_for p (d\<lparr>dv_files := filter (\<lambda>(k, v). k \<noteq> f) (dv_files d)\<rparr>) d"
  using assms by (auto simp: same_for_def cell_def fileOf_eq roots_apart)

lemma mark_write_local:
  assumes "same_for p d d'"
  shows "same_for p (fst (mark_write stringify p m d)) (fst (mark_write stringify p m d')) \<and>
    snd (mark_write stringify p m d) = snd (mark_write stringify p m d')"
proof (cases "currentUserId d")
  case (Some u)
  show ?thesis
    using set_local [OF assms] assms own_files(3,4) [OF assms Some] Some by (simp add: mark_write_def writeFile_def)
qed (use assms same_for_user [OF assms] in \<open>simp add: mark_write_def\<close>)

lemma mark_write_foreign: "q \<noteq> p \<Longrightarrow> same_for p (fst (mark_write stringify q m d)) d"
  using foreign_files(1) [of q p d]
  by (cases "currentUserId d") (simp_all add: mark_write_def writeFile_def same_for_equiv(1))

lemma claim_drop_local:
  assumes "same_for p d d'"
  shows "same_for p (claim_drop p d) (claim_drop p d')"
proof (cases "currentUserId d")
  case (Some u)
  show ?thesis
    using removed_local [OF assms] assms own_files(2-4) [OF assms Some] Some
    by (simp add: claim_drop_def removeFile_def split: option.split)
qed (use assms same_for_user [OF assms] in \<open>simp add: claim_drop_def\<close>)

lemma claim_drop_foreign: "q \<noteq> p \<Longrightarrow> same_for p (claim_drop q d) d"
  using foreign_files(2) [of q p d]
  by (cases "currentUserId d") (simp_all add: claim_drop_def removeFile_def same_for_equiv(1) split: option.split)

lemma mark_remove_local:
  assumes "same_for p d d'"
  shows "same_for p (fst (mark_remove p d)) (fst (mark_remove p d')) \<and> snd (mark_remove p d) = snd (mark_remove p d')"
proof (cases "currentUserId d")
  case (Some u)
  show ?thesis
    using removed_local [OF assms] assms own_files(1,3,4) [OF assms Some] Some
    by (simp add: mark_remove_def removeFile_def split: option.split)
qed (use assms same_for_user [OF assms] in \<open>simp add: mark_remove_def\<close>)

lemma mark_remove_foreign: "q \<noteq> p \<Longrightarrow> same_for p (fst (mark_remove q d)) d"
  using foreign_files(2) [of q p d]
  by (cases "currentUserId d") (simp_all add: mark_remove_def removeFile_def same_for_equiv(1) split: option.split)

lemma mark_read_foreign: "same_for p (fst (mark_read parse q d)) d"
  by (simp add: mark_read_def same_for_equiv(1) split: option.split sum.split)

lemma mark_read_local:
  assumes "same_for p d d'"
  shows "same_for p (fst (mark_read parse p d)) (fst (mark_read parse p d'))" "snd (mark_read parse p d) = snd (mark_read parse p d')"
proof -
  show "same_for p (fst (mark_read parse p d)) (fst (mark_read parse p d'))"
    using mark_read_foreign same_for_equiv assms by metis
  show "snd (mark_read parse p d) = snd (mark_read parse p d')"
  proof (cases "currentUserId d")
    case (Some u)
    have "readToString d (fileOf MARK_ROOT u p) = readToString d' (fileOf MARK_ROOT u p)"
      using own_files [OF assms Some] by (simp add: readToString_def)
    then show ?thesis
      using Some same_for_user [OF assms] by (simp add: mark_read_def split: option.split sum.split)
  qed (use same_for_user [OF assms] in \<open>simp add: mark_read_def\<close>)
qed

lemmas piece_local = mark_write_local claim_drop_local mark_remove_local mark_read_local
lemmas piece_foreign = mark_write_foreign claim_drop_foreign mark_remove_foreign mark_read_foreign

lemma cont_step_local:
  assumes "same_for p d d'"
  shows "same_for p (fst (cont_step parse stringify p k d)) (fst (cont_step parse stringify p k d')) \<and>
    snd (cont_step parse stringify p k d) = snd (cont_step parse stringify p k d')"
proof (cases k)
  case (StartK t)
  then show ?thesis
    using piece_local [OF assms] by (cases t) (simp_all add: split_beta split: option.split)
qed (use assms piece_local [OF assms] in \<open>simp_all add: split_beta\<close>)

lemma cont_step_other:
  assumes "q \<noteq> p"
  shows "same_for p (fst (cont_step parse stringify q k d)) d"
proof (cases k)
  case (StartK t)
  then show ?thesis
    using piece_foreign [where p = p and q = q] assms by (cases t) (simp_all add: split_beta split: option.split)
qed (use assms piece_foreign [where p = p and q = q] in \<open>simp_all add: split_beta same_for_equiv(1)\<close>)

section \<open>A task run to its end\<close>

fun rank :: "mark_cont \<Rightarrow> nat" where
  "rank (StartK t) = 3"
| "rank WriteEmitK = 1"
| "rank DirtyEmitK = 1"
| "rank (RemoveEmitK gone) = 1"
| "rank k = 2"

lemma cont_step_rank: "cont_step parse stringify p k d = (d', told, Some k') \<Longrightarrow> rank k' < rank k"
  by (cases "(parse, stringify, p, k, d)" rule: cont_step.cases) (auto split: prod.splits option.splits if_splits)

function finish :: "json_parse \<Rightarrow> json_stringify \<Rightarrow> string \<Rightarrow> mark_cont \<Rightarrow> device \<Rightarrow> device" where
  "finish parse stringify p k d =
     (case cont_step parse stringify p k d of
        (d', told, None) \<Rightarrow> d'
      | (d', told, Some k') \<Rightarrow> finish parse stringify p k' d')"
  by pat_completeness auto
termination
  by (relation "measure (\<lambda>(parse, stringify, p, k, d). rank k)") (auto dest: cont_step_rank [OF sym])

declare finish.simps [simp del]

lemma finish_local:
  "same_for p d d' \<Longrightarrow> same_for p (finish parse stringify p k d) (finish parse stringify p k d')"
proof (induction "rank k" arbitrary: k d d' rule: less_induct)
  case less
  obtain e told left e' where s: "cont_step parse stringify p k d = (e, told, left)" "cont_step parse stringify p k d' = (e', told, left)"
    and same: "same_for p e e'"
    using cont_step_local [OF less.prems, of parse stringify k] by (metis prod.collapse fst_conv snd_conv)
  show ?case
  proof (cases left)
    case None
    then show ?thesis using s same by (simp add: finish.simps [of _ _ _ k])
  next
    case (Some k')
    then show ?thesis
      using s less.hyps [OF _ same, of k'] cont_step_rank [of parse stringify p k d e told k']
      by (simp add: finish.simps [of _ _ _ k])
  qed
qed

lemma finish_env:
  "dv_user (finish parse stringify p k d) = dv_user d \<and> dv_faulty (finish parse stringify p k d) = dv_faulty d"
proof (induction "rank k" arbitrary: k d rule: less_induct)
  case less
  obtain e told left where s: "cont_step parse stringify p k d = (e, told, left)" by (metis prod.collapse)
  have "same_for (CHR ''x'' # p) e d"
    using cont_step_other [of p "CHR ''x'' # p" parse stringify k d] s by simp
  then have e: "dv_user e = dv_user d \<and> dv_faulty e = dv_faulty d" by (simp add: same_for_def)
  show ?case
    using s e less.hyps [of _ e] cont_step_rank [of parse stringify p k d e told]
    by (cases left) (simp_all add: finish.simps [of _ _ _ k])
qed

lemma finish_all_local:
  "same_for p d d' \<Longrightarrow> same_for p (foldl (\<lambda>d k. finish parse stringify p k d) d ks) (foldl (\<lambda>d k. finish parse stringify p k d) d' ks)"
  by (induction ks arbitrary: d d') (simp_all add: finish_local)

text \<open>The calls of one project made one after the other, each run to its end before the next.\<close>

definition one_by_one :: "json_parse \<Rightarrow> json_stringify \<Rightarrow> device \<Rightarrow> string \<Rightarrow> (string \<times> mark_task) list \<Rightarrow> device" where
  "one_by_one parse stringify d0 p calls =
     foldl (\<lambda>d t. finish parse stringify p (StartK t) d) d0 (map snd (filter (\<lambda>(q, t). q = p) calls))"

lemma one_by_one_snoc:
  "one_by_one parse stringify d0 p (calls @ [(q, t)]) =
     (if q = p then finish parse stringify p (StartK t) (one_by_one parse stringify d0 p calls)
      else one_by_one parse stringify d0 p calls)"
  by (simp add: one_by_one_def)

lemma marks_run_pending:
  "marks_run parse stringify d0 calls s \<Longrightarrow>
   same_for p (foldl (\<lambda>d k. finish parse stringify p k d) (ms_device s) (ms_queue s p)) (one_by_one parse stringify d0 p calls)"
proof (induction rule: marks_run.induct)
  case run_start
  then show ?case by (simp add: one_by_one_def same_for_equiv)
next
  case (run_call calls s q t)
  then show ?case by (simp add: one_by_one_snoc finish_local)
next
  case (run_piece calls s q k ks d' told left)
  show ?case
  proof (cases "q = p")
    case True
    have "foldl (\<lambda>d k. finish parse stringify p k d) d' (case left of None \<Rightarrow> ks | Some k' \<Rightarrow> k' # ks) =
        foldl (\<lambda>d k. finish parse stringify p k d) (ms_device s) (k # ks)"
      using run_piece.hyps(3) True by (cases left) (simp_all add: finish.simps [of _ _ _ k])
    then show ?thesis using run_piece.IH run_piece.hyps(2) True by simp
  next
    case False
    then have "same_for p d' (ms_device s)"
      using cont_step_other [of q p parse stringify k "ms_device s"] run_piece.hyps(3) by simp
    from finish_all_local [OF this] show ?thesis using run_piece.IH False same_for_equiv(3) by simp blast
  qed
qed

text \<open>No queue is stuck: the task at its head can always be run to its end.\<close>

lemma queue_drains:
  "marks_run parse stringify d0 calls s \<Longrightarrow> ms_queue s p = k # ks \<Longrightarrow>
   \<exists>s'. marks_run parse stringify d0 calls s' \<and> ms_queue s' p = ks"
proof (induction "rank k" arbitrary: k s rule: less_induct)
  case less
  obtain d' told left where c: "cont_step parse stringify p k (ms_device s) = (d', told, left)" by (metis prod.collapse)
  note nxt = run_piece [OF less.prems c]
  show ?case
  proof (cases left)
    case None
    then show ?thesis using nxt by fastforce
  next
    case (Some k')
    then show ?thesis
      using less.hyps [OF _ nxt, of k'] cont_step_rank [of parse stringify p k "ms_device s" d' told k'] c by simp
  qed
qed

section \<open>Reading back\<close>

lemma hashes_of_json: "hashes_of (map (\<lambda>(p, h). (p, JStr h)) hs) = hs" "list_all (\<lambda>(p, v). is_hash v) (map (\<lambda>(p, h). (p, JStr h)) hs)"
  by (induction hs) (auto simp: hashes_of_def as_str_def)

lemma as_sync_mark_json: "as_sync_mark (mark_json m) = Some m"
proof -
  have "json_field (mark_json m) ''files'' = Some (JObj (map (\<lambda>(p, h). (p, JStr h)) (sm_files m)))"
    "json_field (mark_json m) ''name'' = Some (JStr (sm_name m))"
    "json_field (mark_json m) ''updatedAt'' = Some (JStr (sm_updatedAt m))"
    "json_field (mark_json m) ''localName'' = map_option JStr (sm_localName m)"
    "json_field (mark_json m) ''dirty'' = Some (JBool (sm_dirty m))"
    by (auto simp: json_field_def mark_json_def split: option.split)
  then show ?thesis
    by (cases "sm_localName m") (simp_all add: as_sync_mark_def as_obj_def as_str_def hashes_of_json)
qed

text \<open>A task that writes a mark, on a volume that works, leaves that mark and no claim.\<close>

lemma finish_write:
  assumes "currentUserId d = Some u" "fileOf MARK_ROOT u p \<notin> set (dv_faulty d)" "fileOf CLAIM_ROOT u p \<notin> set (dv_faulty d)"
  shows "cell p (finish parse stringify p (StartK (TWrite m)) d) = (Some (stringify (mark_json m)), None)"
proof -
  let ?d1 = "d\<lparr>dv_files := obj_set (fileOf MARK_ROOT u p) (stringify (mark_json m)) (dv_files d)\<rparr>"
  have "finish parse stringify p (StartK (TWrite m)) d = claim_drop p ?d1"
    using assms
    by (simp add: finish.simps [of _ _ _ "StartK (TWrite m)"] finish.simps [of _ _ _ WriteDropK]
        finish.simps [of _ _ _ WriteEmitK] mark_write_def writeFile_def)
  then show ?thesis
    using assms by (auto simp: claim_drop_def removeFile_def unless_missing_def cell_def roots_apart split: option.splits)
qed

lemma mark_read_cell:
  assumes "currentUserId d = Some u" "fileOf MARK_ROOT u p \<notin> set (dv_faulty d)" "fst (cell p d) = Some (stringify (mark_json m))"
    and "parse (stringify (mark_json m)) = Some (mark_json m)"
  shows "mark_read parse p d = (d, Some m)"
  using assms by (simp add: mark_read_def readToString_def cell_def as_sync_mark_json)

text \<open>A project this account has a mark or a claim for is never taken for another account's.\<close>

lemma own_project_not_foreign:
  assumes "currentUserId d = Some u" "fileOf MARK_ROOT u p \<notin> set (dv_faulty d)" "fileOf CLAIM_ROOT u p \<notin> set (dv_faulty d)"
    and "cell p d \<noteq> (None, None)"
  shows "\<not> snd (belongsToAnotherAccount p d)"
proof (cases "obj_has (dv_files d) (fileOf MARK_ROOT u p)")
  case True
  then show ?thesis
    using assms by (simp add: belongsToAnotherAccount_def mark_exists_def mark_existsOrThrow_def fs_exists_def)
next
  case False
  then have "obj_has (dv_files d) (fileOf CLAIM_ROOT u p)" using assms(1,4) by (simp add: cell_def obj_has_def)
  then show ?thesis
    using False assms
    by (simp add: belongsToAnotherAccount_def mark_exists_def mark_existsOrThrow_def fs_exists_def claim_has_def)
qed

section \<open>Properties\<close>

text \<open>
  C13: changes of marks do not undo each other. However the pieces of all queued writes, flags and
  removals interleave, a project whose queue has emptied has exactly the mark and the claim it would have
  had if the calls made for it had run one after the other in the order they were made; and when the
  last of them wrote a mark, on a volume that works and with a JSON library that reads back what it
  printed, that mark is read back and the claim is gone.
\<close>

theorem marks_serialised:
  assumes "marks_run parse stringify d0 calls s" and "ms_queue s p = []"
  shows "cell p (ms_device s) = cell p (one_by_one parse stringify d0 p calls) \<and>
    (\<forall>before m u. calls = before @ [(p, TWrite m)] \<and> currentUserId d0 = Some u \<and>
       fileOf MARK_ROOT u p \<notin> set (dv_faulty d0) \<and> fileOf CLAIM_ROOT u p \<notin> set (dv_faulty d0) \<and>
       parse (stringify (mark_json m)) = Some (mark_json m) \<longrightarrow>
       mark_read parse p (ms_device s) = (ms_device s, Some m) \<and> snd (cell p (ms_device s)) = None)"
proof -
  have same: "same_for p (ms_device s) (one_by_one parse stringify d0 p calls)"
    using marks_run_pending [OF assms(1), of p] assms(2) by simp
  moreover have "mark_read parse p (ms_device s) = (ms_device s, Some m) \<and> snd (cell p (ms_device s)) = None"
    if calls: "calls = before @ [(p, TWrite m)]" and u: "currentUserId d0 = Some u"
      and works: "fileOf MARK_ROOT u p \<notin> set (dv_faulty d0)" "fileOf CLAIM_ROOT u p \<notin> set (dv_faulty d0)"
      and json: "parse (stringify (mark_json m)) = Some (mark_json m)" for before m u
  proof -
    define d where "d = one_by_one parse stringify d0 p before"
    have env: "dv_user d = dv_user d0 \<and> dv_faulty d = dv_faulty d0"
      unfolding d_def by (induction before rule: rev_induct) (auto simp: one_by_one_snoc finish_env, simp_all add: one_by_one_def)
    then have "currentUserId d = Some u" using u by (simp add: currentUserId_def)
    then have cell: "cell p (ms_device s) = (Some (stringify (mark_json m)), None)"
      using finish_write [of d u p parse stringify m] same env works by (simp add: calls one_by_one_snoc d_def same_for_def)
    have "currentUserId (ms_device s) = Some u" "dv_faulty (ms_device s) = dv_faulty d0"
      using same env finish_env u by (simp_all add: same_for_def calls one_by_one_snoc d_def currentUserId_def)
    then show ?thesis using mark_read_cell [of "ms_device s" u p stringify m parse] works(1) cell json by simp
  qed
  ultimately show ?thesis by (simp add: same_for_def)
qed

theorem marks_serialised_witness:
  "let d0 = \<lparr>dv_files = [], dv_faulty = [], dv_user = Some ''u'', dv_shadow = None, dv_reports = []\<rparr>;
       m = \<lparr>sm_files = [(''f'', ''h'')], sm_name = ''n'', sm_localName = None, sm_updatedAt = ''t'', sm_dirty = False\<rparr>;
       parse = (\<lambda>s. Some (mark_json m))
   in \<exists>s. marks_run parse (\<lambda>j. ''x'') d0 [(''p'', TWrite m)] s \<and> mark_read parse ''p'' (ms_device s) = (ms_device s, Some m)"
proof -
  define d0 where "d0 = \<lparr>dv_files = [], dv_faulty = [], dv_user = Some ''u'', dv_shadow = None, dv_reports = []\<rparr>"
  define m where "m = \<lparr>sm_files = [(''f'', ''h'')], sm_name = ''n'', sm_localName = None, sm_updatedAt = ''t'', sm_dirty = False\<rparr>"
  let ?parse = "\<lambda>s :: string. Some (mark_json m)" and ?calls = "[] @ [(''p'', TWrite m)]"
  let ?s0 = "\<lparr>ms_device = d0, ms_queue = \<lambda>q. [], ms_told = []\<rparr>"
  have called: "marks_run ?parse (\<lambda>j. ''x'') d0 ?calls (?s0\<lparr>ms_queue := (ms_queue ?s0)(''p'' := ms_queue ?s0 ''p'' @ [StartK (TWrite m)])\<rparr>)"
    by (rule run_call [OF run_start])
  obtain s where s: "marks_run ?parse (\<lambda>j. ''x'') d0 ?calls s" "ms_queue s ''p'' = []"
    using queue_drains [OF called, where p = "''p''" and ks = "[]"] by auto
  have "currentUserId d0 = Some ''u''" "dv_faulty d0 = []" by (simp_all add: d0_def currentUserId_def)
  then have "mark_read ?parse ''p'' (ms_device s) = (ms_device s, Some m)"
    using marks_serialised [OF s] by (metis empty_iff list.set(1))
  then show ?thesis using s(1) unfolding Let_def d0_def m_def append_Nil by blast
qed

end
