(* ===== verification/Paths.thy ===== *)
theory Paths
  imports Prelude
begin

text \<open>
  Paths and names of the project files: the path helpers of \<^verbatim>\<open>utils/common.ts\<close> and the static utilities of
  \<^verbatim>\<open>PgExplorer\<close> (\<^verbatim>\<open>utils/explorer/explorer.ts\<close>) that look at a path only. A path is text; a folder is told
  from a file by a dot in its name.
\<close>

abbreviation SLASH :: char where
  "SLASH \<equiv> CHR ''/''"

section \<open>Splitting\<close>

text \<open>\<^verbatim>\<open>path.split("/")\<close>.\<close>

fun split_slash :: "string \<Rightarrow> string list" where
  "split_slash [] = [[]]"
| "split_slash (c # cs) =
     (if c = SLASH then [] # split_slash cs
      else (case split_slash cs of [] \<Rightarrow> [[c]] | l # ls \<Rightarrow> (c # l) # ls))"

text \<open>\<^verbatim>\<open>names.reduce((acc, name) => acc + "/" + name)\<close>, which throws on an empty array.\<close>

fun reduce_slash :: "string list \<Rightarrow> string option" where
  "reduce_slash [] = None"
| "reduce_slash (n # ns) = Some (foldl (\<lambda>acc m. acc @ [SLASH] @ m) n ns)"

section \<open>Joining\<close>

definition appendSlash :: "string \<Rightarrow> string" where
  "appendSlash s = s @ (if suffix ''/'' s then '''' else ''/'')"

fun withoutPreSlash :: "string \<Rightarrow> string" where
  "withoutPreSlash [] = []"
| "withoutPreSlash (c # cs) = (if c = SLASH then cs else c # cs)"

text \<open>\<^verbatim>\<open>joinPaths\<close> of two paths; of more, the left fold of it.\<close>

definition joinPaths :: "string \<Rightarrow> string \<Rightarrow> string" where
  "joinPaths acc cur = appendSlash acc @ withoutPreSlash cur"

definition isPathsEqual :: "string \<Rightarrow> string \<Rightarrow> bool" where
  "isPathsEqual one two \<longleftrightarrow> appendSlash one = appendSlash two"

section \<open>Names and types of items\<close>

definition ROOT_DIR_PATH :: string where
  "ROOT_DIR_PATH = ''/''"

definition SRC_DIRNAME :: string where
  "SRC_DIRNAME = ''src''"

definition getItemNameFromPath :: "string \<Rightarrow> string" where
  "getItemNameFromPath path =
     (let items = split_slash path
      in if suffix ''/'' path then items ! (length items - 2) else last items)"

datatype item_type = IsFile | IsFolder

definition getItemTypeFromName :: "string \<Rightarrow> item_type" where
  "getItemTypeFromName itemName = (if js_includes ''.'' itemName then IsFile else IsFolder)"

definition getItemTypeFromPath :: "string \<Rightarrow> item_type" where
  "getItemTypeFromPath path = getItemTypeFromName (getItemNameFromPath path)"

text \<open>The list without the element at an index: \<^verbatim>\<open>filter((_, i) => i !== k)\<close>.\<close>

definition without_index :: "nat \<Rightarrow> 'a list \<Rightarrow> 'a list" where
  "without_index k xs = take k xs @ drop (Suc k) xs"

definition getParentPathFromPath :: "string \<Rightarrow> string option" where
  "getParentPathFromPath path =
     (let pad = (if getItemTypeFromPath path = IsFolder \<and> suffix ''/'' path then 2 else 1);
          names = split_slash path
      in map_option appendSlash (reduce_slash (without_index (length names - pad) names)))"

text \<open>A word character of a regular expression.\<close>

definition word_char :: "char \<Rightarrow> bool" where
  "word_char c \<longleftrightarrow>
     (let n = of_char c :: nat
      in 48 \<le> n \<and> n \<le> 57 \<or> 65 \<le> n \<and> n \<le> 90 \<or> 97 \<le> n \<and> n \<le> 122 \<or> n = 95)"

text \<open>
  The regular expression of \<^verbatim>\<open>isItemNameValid\<close> is not anchored at the end, and in its class the dot, the dash and
  the slash form a range: it asks only that the first character is a word character or a slash.
\<close>

definition isItemNameValid :: "string \<Rightarrow> bool" where
  "isItemNameValid name \<longleftrightarrow>
     (case name of [] \<Rightarrow> False | c # cs \<Rightarrow> word_char c \<or> c = SLASH) \<and>
     \<not> js_includes ''//'' name \<and> \<not> js_includes ''..'' name \<and>
     \<not> suffix ''/'' name \<and> \<not> suffix ''.'' name"

definition isWorkspaceNameValid :: "string \<Rightarrow> bool" where
  "isWorkspaceNameValid name \<longleftrightarrow>
     name \<noteq> [] \<and> \<not> js_space (hd name) \<and>
     list_all (\<lambda>c. word_char c \<or> js_space c \<or> c = CHR ''-'') name"

text \<open>
  \<^verbatim>\<open>text.replace(pattern, replacement)\<close> for a text that starts with the pattern: the first occurrence goes,
  and in the replacement a dollar sign before another one, an ampersand, a backquote or a quote stands for the
  dollar sign, the pattern, what is before the match (nothing) and what is after it.
\<close>

fun expand_dollars :: "string \<Rightarrow> string \<Rightarrow> string \<Rightarrow> string" where
  "expand_dollars pat rest (c # d # cs) =
     (if c = CHR ''$'' \<and> d = CHR ''$'' then CHR ''$'' # expand_dollars pat rest cs
      else if c = CHR ''$'' \<and> d = CHR ''&'' then pat @ expand_dollars pat rest cs
      else if c = CHR ''$'' \<and> d = CHR 0x60 then expand_dollars pat rest cs
      else if c = CHR ''$'' \<and> d = CHR 0x27 then rest @ expand_dollars pat rest cs
      else c # expand_dollars pat rest (d # cs))"
| "expand_dollars pat rest cs = cs"

definition replace_prefix :: "string \<Rightarrow> string \<Rightarrow> string \<Rightarrow> string" where
  "replace_prefix pat new s =
     (let rest = drop (length pat) s in expand_dollars pat rest new @ rest)"

section \<open>Lemmas on paths\<close>

lemma split_slash_neq_Nil [simp]: "split_slash s \<noteq> []"
  by (cases s) (auto split: list.splits)

lemma suffix_slash_iff: "suffix ''/'' s \<longleftrightarrow> s \<noteq> [] \<and> last s = SLASH"
  by (cases s rule: rev_cases) (auto simp: suffix_def)

lemma suffix_slash_snoc [simp]: "suffix ''/'' (s @ [SLASH])"
  by (simp add: suffix_slash_iff)

lemma appendSlash_simps:
  "suffix ''/'' s \<Longrightarrow> appendSlash s = s"
  "\<not> suffix ''/'' s \<Longrightarrow> appendSlash s = s @ ''/''"
  by (simp_all add: appendSlash_def)

lemma suffix_appendSlash [simp]: "suffix ''/'' (appendSlash s)"
  by (simp add: appendSlash_def suffix_slash_iff)

lemma appendSlash_idem [simp]: "appendSlash (appendSlash s) = appendSlash s"
  by (simp add: appendSlash_simps(1))

lemma appendSlash_neq_Nil [simp]: "appendSlash s \<noteq> []"
  by (cases s) (auto simp: appendSlash_def)

lemma prefix_appendSlash [simp]: "prefix s (appendSlash s)"
  by (simp add: appendSlash_def)

lemma joinPaths_root: "prefix ''/'' (joinPaths ROOT_DIR_PATH p)"
  by (simp add: joinPaths_def ROOT_DIR_PATH_def appendSlash_def suffix_def)

lemma prefix_joinPaths: "prefix (appendSlash r) (joinPaths r p)"
  by (simp add: joinPaths_def)

lemma withoutPreSlash_id: "\<not> prefix ''/'' s \<Longrightarrow> withoutPreSlash s = s"
  by (cases s) auto

lemma expand_dollars_plain: "CHR ''$'' \<notin> set new \<Longrightarrow> expand_dollars pat rest new = new"
  by (induction pat rest new rule: expand_dollars.induct) auto

lemma replace_prefix_plain:
  "CHR ''$'' \<notin> set new \<Longrightarrow> replace_prefix pat new (pat @ rest) = new @ rest"
  by (simp add: replace_prefix_def expand_dollars_plain)

lemma length_split_slash: "length (split_slash s) = Suc (length (filter (\<lambda>c. c = SLASH) s))"
  by (induction s) (auto split: list.splits)

lemma parent_of_full: "prefix ''/'' p \<Longrightarrow> \<exists>q. getParentPathFromPath p = Some q \<and> suffix ''/'' q"
proof -
  assume "prefix ''/'' p"
  then obtain p' where p: "p = SLASH # p'" by (cases p) auto
  define pad where "pad = (if getItemTypeFromPath p = IsFolder \<and> suffix ''/'' p then 2 else 1 :: nat)"
  have len: "length (split_slash p) \<ge> 2" by (simp add: p length_split_slash)
  have "length (without_index (length (split_slash p) - pad) (split_slash p)) = length (split_slash p) - 1"
    using len by (auto simp: without_index_def pad_def)
  then obtain n ns where "without_index (length (split_slash p) - pad) (split_slash p) = n # ns"
    using len by (cases "without_index (length (split_slash p) - pad) (split_slash p)") auto
  then show ?thesis unfolding getParentPathFromPath_def Let_def pad_def [symmetric] by simp
qed

end
