(* ===== verification/Workspace.thy ===== *)
theory Workspace
  imports Paths
begin

text \<open>
  The list of workspaces of a browser (\<^verbatim>\<open>utils/explorer/workspace.ts\<close>): a name and an id per workspace, and the
  id of the current one; with the id a tutorial's project derives from its name
  (\<^verbatim>\<open>features/persistence/model/project-id.ts\<close>). A call that throws returns the error and changes nothing. The id
  minted for a project that is no tutorial comes from a package and is an argument.
\<close>

section \<open>Data\<close>

record workspace_entry =
  we_id :: string
  we_name :: string

record workspaces =
  wk_workspaces :: "workspace_entry list"
  wk_currentId :: "string option"

record legacy_workspaces =
  lw_allNames :: "string list option"
  lw_currentName :: "string option"

text \<open>What the config file holds: either shape.\<close>

datatype stored_workspaces = Migrated workspaces | LegacyShape legacy_workspaces

datatype workspace_error = ALREADY_EXISTS | INVALID_NAME | NOT_FOUND | CURRENT_NOT_FOUND

definition DEFAULT_WORKSPACES :: workspaces where
  "DEFAULT_WORKSPACES = \<lparr>wk_workspaces = [], wk_currentId = None\<rparr>"

section \<open>Ids\<close>

definition TUTORIAL_ID_PREFIX :: string where
  "TUTORIAL_ID_PREFIX = ''tut:''"

text \<open>\<^verbatim>\<open>replaceAll("--", "-")\<close>, in one pass from the left.\<close>

fun squash_dashes :: "string \<Rightarrow> string" where
  "squash_dashes (c # d # cs) =
     (if c = CHR ''-'' \<and> d = CHR ''-'' then CHR ''-'' # squash_dashes cs else c # squash_dashes (d # cs))"
| "squash_dashes cs = cs"

definition toKebabFromTitle :: "string \<Rightarrow> string" where
  "toKebabFromTitle s =
     (let dashed = map (\<lambda>c. if c = CHR '' '' then CHR ''-'' else c) (js_lower s);
          kept = squash_dashes (filter (\<lambda>c. word_char c \<or> c = CHR ''-'') dashed);
          front = (if prefix ''-'' kept then tl kept else kept)
      in if suffix ''-'' front then butlast front else front)"

definition tutorialProjectId :: "string \<Rightarrow> string" where
  "tutorialProjectId name = TUTORIAL_ID_PREFIX @ toKebabFromTitle name"

definition mintId :: "(string \<Rightarrow> bool) \<Rightarrow> string \<Rightarrow> string \<Rightarrow> string" where
  "mintId isTutorialName uuid name = (if isTutorialName name then tutorialProjectId name else uuid)"

section \<open>Reading the list\<close>

definition allNames :: "workspaces \<Rightarrow> string list" where
  "allNames w = map we_name (wk_workspaces w)"

definition nameOf :: "workspaces \<Rightarrow> string \<Rightarrow> string option" where
  "nameOf w i = map_option we_name (find (\<lambda>e. we_id e = i) (wk_workspaces w))"

definition idOf :: "workspaces \<Rightarrow> string \<Rightarrow> string option" where
  "idOf w name = map_option we_id (find (\<lambda>e. we_name e = name) (wk_workspaces w))"

definition currentName :: "workspaces \<Rightarrow> string option" where
  "currentName w = (case wk_currentId w of None \<Rightarrow> None | Some i \<Rightarrow> nameOf w i)"

section \<open>Changing it\<close>

definition setCurrentName :: "string \<Rightarrow> workspaces \<Rightarrow> workspaces" where
  "setCurrentName name w =
     (case find (\<lambda>e. we_name e = name) (wk_workspaces w) of
        None \<Rightarrow> w | Some e \<Rightarrow> w\<lparr>wk_currentId := Some (we_id e)\<rparr>)"

definition create ::
  "(string \<Rightarrow> bool) \<Rightarrow> string \<Rightarrow> string \<Rightarrow> string option \<Rightarrow> workspaces \<Rightarrow> workspace_error + workspaces" where
  "create isTutorialName uuid name given w =
     (if name \<in> set (allNames w) then Inl ALREADY_EXISTS
      else let i = (case given of Some g \<Rightarrow> g | None \<Rightarrow> mintId isTutorialName uuid name)
        in Inr (w\<lparr>wk_workspaces := wk_workspaces w @ [\<lparr>we_id = i, we_name = name\<rparr>], wk_currentId := Some i\<rparr>))"

definition add :: "string \<Rightarrow> string \<Rightarrow> workspaces \<Rightarrow> workspace_error + workspaces" where
  "add name i w =
     (if name \<in> set (allNames w) then Inl ALREADY_EXISTS
      else Inr (w\<lparr>wk_workspaces := wk_workspaces w @ [\<lparr>we_id = i, we_name = name\<rparr>]\<rparr>))"

text \<open>\<^verbatim>\<open>!this.currentName\<close>: an empty name counts as none.\<close>

definition delete_workspace :: "string \<Rightarrow> workspaces \<Rightarrow> workspaces" where
  "delete_workspace name w =
     (let w' = w\<lparr>wk_workspaces := filter (\<lambda>e. we_name e \<noteq> name) (wk_workspaces w)\<rparr>
      in if currentName w' \<in> {None, Some []} then w'\<lparr>wk_currentId := None\<rparr> else w')"

text \<open>The first entry that satisfies a test gets the name; \<open>None\<close> when there is none.\<close>

fun rename_first :: "(workspace_entry \<Rightarrow> bool) \<Rightarrow> string \<Rightarrow> workspace_entry list \<Rightarrow> workspace_entry list option" where
  "rename_first P new [] = None"
| "rename_first P new (e # es) =
     (if P e then Some (e\<lparr>we_name := new\<rparr> # es) else map_option ((#) e) (rename_first P new es))"

definition rename_workspace :: "string \<Rightarrow> string option \<Rightarrow> workspaces \<Rightarrow> workspace_error + workspaces" where
  "rename_workspace newName from' w =
     (if newName \<in> set (allNames w) then Inl ALREADY_EXISTS
      else case rename_first
          (\<lambda>e. case from' of None \<Rightarrow> Some (we_id e) = wk_currentId w | Some n \<Rightarrow> we_name e = n)
          newName (wk_workspaces w) of
        Some es \<Rightarrow> Inr (w\<lparr>wk_workspaces := es\<rparr>)
      | None \<Rightarrow> if from' = None then Inr w else Inl NOT_FOUND)"

section \<open>The config file\<close>

text \<open>The uuids are handed out in the order of the names; \<open>uuid k\<close> is the one the k-th name would take.\<close>

definition migrate :: "(string \<Rightarrow> bool) \<Rightarrow> (nat \<Rightarrow> string) \<Rightarrow> stored_workspaces \<Rightarrow> workspaces" where
  "migrate isTutorialName uuid st =
     (case st of
        Migrated w \<Rightarrow> w
      | LegacyShape l \<Rightarrow>
          (let names = (case lw_allNames l of None \<Rightarrow> [] | Some ns \<Rightarrow> ns);
               es = map (\<lambda>(k, n). \<lparr>we_id = mintId isTutorialName (uuid k) n, we_name = n\<rparr>) (enumerate 0 names)
           in \<lparr>wk_workspaces = es,
               wk_currentId = (case lw_currentName l of
                   None \<Rightarrow> None
                 | Some c \<Rightarrow> map_option we_id (find (\<lambda>e. we_name e = c) es))\<rparr>))"

end
