(* ===== verification/Effects.thy ===== *)
theory Effects
  imports Prelude
begin

text \<open>
  Code that reads and changes state, throws, and may not end: an action takes a state to a result and the state
  left behind. A thrown error keeps the changes made before it, as in the program. A recursion that has used up
  its depth is \<open>Stuck\<close>, which no handler catches. Three judgements on actions carry the proofs: an action
  keeps a predicate on states whatever its result, it leaves a part of the state alone, it never gets stuck.
\<close>

named_theorems keeps_rules \<open>actions that keep a predicate\<close>
named_theorems leaves_rules \<open>actions that leave a part of the state alone\<close>
named_theorems total_rules \<open>actions that do not get stuck\<close>
named_theorems act_defs \<open>unfolding rules for the actions\<close>

datatype ('e, 'a) res = Val 'a | Exn 'e | Stuck

type_synonym ('s, 'e, 'a) act = "'s \<Rightarrow> ('e, 'a) res \<times> 's"

section \<open>Building actions\<close>

definition ret :: "'a \<Rightarrow> ('s, 'e, 'a) act" where
  "ret x s = (Val x, s)"

definition throw :: "'e \<Rightarrow> ('s, 'e, 'a) act" where
  "throw e s = (Exn e, s)"

definition stuck :: "('s, 'e, 'a) act" where
  "stuck s = (Stuck, s)"

definition bnd :: "('s, 'e, 'a) act \<Rightarrow> ('a \<Rightarrow> ('s, 'e, 'b) act) \<Rightarrow> ('s, 'e, 'b) act" where
  "bnd m f s =
     (case m s of (Val x, s') \<Rightarrow> f x s' | (Exn e, s') \<Rightarrow> (Exn e, s') | (Stuck, s') \<Rightarrow> (Stuck, s'))"

definition seq :: "('s, 'e, 'a) act \<Rightarrow> ('s, 'e, 'b) act \<Rightarrow> ('s, 'e, 'b) act" where
  "seq m k = bnd m (\<lambda>x. k)"

text \<open>\<^verbatim>\<open>try { m } catch (e) { h(e) }\<close>.\<close>

definition catch :: "('s, 'e, 'a) act \<Rightarrow> ('e \<Rightarrow> ('s, 'e, 'a) act) \<Rightarrow> ('s, 'e, 'a) act" where
  "catch m h s =
     (case m s of (Val x, s') \<Rightarrow> (Val x, s') | (Exn e, s') \<Rightarrow> h e s' | (Stuck, s') \<Rightarrow> (Stuck, s'))"

definition gets :: "('s \<Rightarrow> 'a) \<Rightarrow> ('s, 'e, 'a) act" where
  "gets f s = (Val (f s), s)"

definition modify :: "('s \<Rightarrow> 's) \<Rightarrow> ('s, 'e, unit) act" where
  "modify f s = (Val (), f s)"

definition lift_sum :: "('s \<Rightarrow> 'e + 'a) \<Rightarrow> ('s, 'e, 'a) act" where
  "lift_sum f s = (case f s of Inl e \<Rightarrow> (Exn e, s) | Inr x \<Rightarrow> (Val x, s))"

definition only_if :: "bool \<Rightarrow> ('s, 'e, unit) act \<Rightarrow> ('s, 'e, unit) act" where
  "only_if b m = (if b then m else ret ())"

text \<open>\<^verbatim>\<open>for (const x of xs) await f(x)\<close>.\<close>

primrec each :: "('a \<Rightarrow> ('s, 'e, unit) act) \<Rightarrow> 'a list \<Rightarrow> ('s, 'e, unit) act" where
  "each f [] = ret ()"
| "each f (x # xs) = seq (f x) (each f xs)"

primrec map_act :: "('a \<Rightarrow> ('s, 'e, 'b) act) \<Rightarrow> 'a list \<Rightarrow> ('s, 'e, 'b list) act" where
  "map_act f [] = ret []"
| "map_act f (x # xs) = bnd (f x) (\<lambda>y. bnd (map_act f xs) (\<lambda>ys. ret (y # ys)))"

lemmas [act_defs] =
  ret_def throw_def stuck_def bnd_def seq_def catch_def gets_def modify_def lift_sum_def only_if_def

section \<open>Actions that keep a predicate\<close>

definition keeps :: "('s \<Rightarrow> bool) \<Rightarrow> ('s, 'e, 'a) act \<Rightarrow> bool" where
  "keeps P m \<longleftrightarrow> (\<forall>s. P s \<longrightarrow> P (snd (m s)))"

lemma keepsD: "keeps P m \<Longrightarrow> P s \<Longrightarrow> P (snd (m s))"
  by (simp add: keeps_def)

lemma keeps_bnd [keeps_rules]:
  assumes "keeps P m" and "\<And>x. keeps P (f x)"
  shows "keeps P (bnd m f)"
  unfolding keeps_def
proof (intro allI impI)
  fix s assume "P s"
  obtain r s' where m: "m s = (r, s')" by fastforce
  with \<open>P s\<close> assms(1) have "P s'" by (metis keepsD snd_conv)
  then show "P (snd (bnd m f s))" using assms(2) by (cases r) (auto simp: bnd_def m keeps_def)
qed

lemma keeps_catch [keeps_rules]:
  assumes "keeps P m" and "\<And>e. keeps P (h e)"
  shows "keeps P (catch m h)"
  unfolding keeps_def
proof (intro allI impI)
  fix s assume "P s"
  obtain r s' where m: "m s = (r, s')" by fastforce
  with \<open>P s\<close> assms(1) have "P s'" by (metis keepsD snd_conv)
  then show "P (snd (catch m h s))" using assms(2) by (cases r) (auto simp: catch_def m keeps_def)
qed

lemma keeps_seq [keeps_rules]: "keeps P m \<Longrightarrow> keeps P k \<Longrightarrow> keeps P (seq m k)"
  unfolding seq_def by (rule keeps_bnd)

lemma keeps_simple [keeps_rules]:
  "keeps P (ret x)" "keeps P (throw e)" "keeps P stuck" "keeps P (gets f)" "keeps P (lift_sum g)"
  by (auto simp: keeps_def act_defs split: sum.split)

lemma keeps_modify: "(\<And>s. P s \<Longrightarrow> P (f s)) \<Longrightarrow> keeps P (modify f)"
  by (simp add: keeps_def modify_def)

lemma keeps_only_if [keeps_rules]: "(b \<Longrightarrow> keeps P m) \<Longrightarrow> keeps P (only_if b m)"
  by (simp add: only_if_def keeps_simple)

lemma keeps_if [keeps_rules]: "(b \<Longrightarrow> keeps P m) \<Longrightarrow> (\<not> b \<Longrightarrow> keeps P k) \<Longrightarrow> keeps P (if b then m else k)"
  by simp

lemma keeps_case_option [keeps_rules]:
  "keeps P m \<Longrightarrow> (\<And>x. keeps P (f x)) \<Longrightarrow> keeps P (case v of None \<Rightarrow> m | Some x \<Rightarrow> f x)"
  by (cases v) auto

lemma keeps_case_sum [keeps_rules]:
  "(\<And>x. keeps P (f x)) \<Longrightarrow> (\<And>x. keeps P (g x)) \<Longrightarrow> keeps P (case v of Inl x \<Rightarrow> f x | Inr x \<Rightarrow> g x)"
  by (cases v) auto

lemma keeps_each [keeps_rules]: "(\<And>x. keeps P (f x)) \<Longrightarrow> keeps P (each f xs)"
  by (induction xs) (auto intro: keeps_rules)

lemma keeps_map_act [keeps_rules]: "(\<And>x. keeps P (f x)) \<Longrightarrow> keeps P (map_act f xs)"
  by (induction xs) (auto intro: keeps_rules)

lemma keeps_Let [keeps_rules]: "keeps P (f x) \<Longrightarrow> keeps P (Let x f)"
  by (simp add: Let_def)

text \<open>What is known of the value an action returns.\<close>

definition gives :: "('s \<Rightarrow> bool) \<Rightarrow> ('s, 'e, 'a) act \<Rightarrow> ('a \<Rightarrow> bool) \<Rightarrow> bool" where
  "gives P m Q \<longleftrightarrow> (\<forall>s x s'. P s \<longrightarrow> m s = (Val x, s') \<longrightarrow> Q x)"

lemma keeps_bnd_gives:
  assumes "keeps P m" and "gives P m Q" and "\<And>x. Q x \<Longrightarrow> keeps P (f x)"
  shows "keeps P (bnd m f)"
  unfolding keeps_def
proof (intro allI impI)
  fix s assume "P s"
  obtain r s' where m: "m s = (r, s')" by fastforce
  with \<open>P s\<close> assms(1) have "P s'" by (metis keepsD snd_conv)
  moreover have "Q x" if "r = Val x" for x using assms(2) \<open>P s\<close> m that by (auto simp: gives_def)
  ultimately show "P (snd (bnd m f s))" using assms(3) by (cases r) (auto simp: bnd_def m keeps_def)
qed

lemma gives_gets: "(\<And>s. P s \<Longrightarrow> Q (f s)) \<Longrightarrow> gives P (gets f) Q"
  by (simp add: gives_def gets_def)

lemma gives_map_act:
  assumes "\<And>x. x \<in> set xs \<Longrightarrow> gives P (f x) Q" and "\<And>x. keeps P (f x)"
  shows "gives P (map_act f xs) (list_all Q)"
  using assms(1)
proof (induction xs)
  case Nil
  then show ?case by (simp add: gives_def ret_def)
next
  case (Cons x xs)
  show ?case
    unfolding gives_def
  proof (intro allI impI)
    fix s ys s' assume "P s" and run: "map_act f (x # xs) s = (Val ys, s')"
    obtain r s1 where f: "f x s = (r, s1)" by fastforce
    then obtain y where y: "r = Val y" using run by (cases r) (auto simp: bnd_def)
    obtain r2 s2 where g: "map_act f xs s1 = (r2, s2)" by fastforce
    then obtain zs where zs: "r2 = Val zs" using run f y by (cases r2) (auto simp: bnd_def)
    have "P s1" using keepsD [OF assms(2) \<open>P s\<close>, of x] f by simp
    then have "list_all Q zs" using Cons g zs by (auto simp: gives_def)
    moreover have "Q y" using Cons.prems [of x] \<open>P s\<close> f y by (auto simp: gives_def)
    ultimately show "list_all Q ys" using run f y g zs by (auto simp: bnd_def ret_def)
  qed
qed

lemma keeps_map_then:
  assumes "\<And>x. gives P (f x) Q" and "\<And>x. keeps P (f x)" and "\<And>ys. list_all Q ys \<Longrightarrow> keeps P (g ys)"
  shows "keeps P (bnd (map_act f xs) g)"
  by (rule keeps_bnd_gives [OF keeps_map_act gives_map_act]) (use assms in auto)

lemma keeps_each_in: "(\<And>x. x \<in> set xs \<Longrightarrow> keeps P (f x)) \<Longrightarrow> keeps P (each f xs)"
  by (induction xs) (auto intro: keeps_rules)

section \<open>Actions that leave a part of the state alone\<close>

definition leaves :: "('s \<Rightarrow> 'v) \<Rightarrow> ('s, 'e, 'a) act \<Rightarrow> bool" where
  "leaves pr m \<longleftrightarrow> (\<forall>s. pr (snd (m s)) = pr s)"

lemma leavesD: "leaves pr m \<Longrightarrow> m s = (r, s') \<Longrightarrow> pr s' = pr s"
  by (metis leaves_def snd_conv)

lemma leaves_iff: "leaves pr m \<longleftrightarrow> (\<forall>v. keeps (\<lambda>s. pr s = v) m)"
  unfolding leaves_def keeps_def by metis

lemma leaves_keeps: "(\<And>s s'. pr s = pr s' \<Longrightarrow> P s = P s') \<Longrightarrow> leaves pr m \<Longrightarrow> keeps P m"
  unfolding leaves_def keeps_def by metis

lemma leaves_bnd [leaves_rules]: "leaves pr m \<Longrightarrow> (\<And>x. leaves pr (f x)) \<Longrightarrow> leaves pr (bnd m f)"
  unfolding leaves_iff by (auto intro: keeps_bnd)

lemma leaves_seq [leaves_rules]: "leaves pr m \<Longrightarrow> leaves pr k \<Longrightarrow> leaves pr (seq m k)"
  unfolding leaves_iff by (auto intro: keeps_seq)

lemma leaves_catch [leaves_rules]: "leaves pr m \<Longrightarrow> (\<And>e. leaves pr (h e)) \<Longrightarrow> leaves pr (catch m h)"
  unfolding leaves_iff by (auto intro: keeps_catch)

lemma leaves_simple [leaves_rules]:
  "leaves pr (ret x)" "leaves pr (throw e)" "leaves pr stuck" "leaves pr (gets f)" "leaves pr (lift_sum g)"
  unfolding leaves_iff by (simp_all add: keeps_simple)

lemma leaves_only_if [leaves_rules]: "(b \<Longrightarrow> leaves pr m) \<Longrightarrow> leaves pr (only_if b m)"
  unfolding leaves_iff by (auto intro: keeps_only_if)

lemma leaves_if [leaves_rules]:
  "(b \<Longrightarrow> leaves pr m) \<Longrightarrow> (\<not> b \<Longrightarrow> leaves pr k) \<Longrightarrow> leaves pr (if b then m else k)"
  by simp

lemma leaves_case_option [leaves_rules]:
  "leaves pr m \<Longrightarrow> (\<And>x. leaves pr (f x)) \<Longrightarrow> leaves pr (case v of None \<Rightarrow> m | Some x \<Rightarrow> f x)"
  by (cases v) auto

lemma leaves_each [leaves_rules]: "(\<And>x. leaves pr (f x)) \<Longrightarrow> leaves pr (each f xs)"
  unfolding leaves_iff by (auto intro: keeps_each)

lemma leaves_map_act [leaves_rules]: "(\<And>x. leaves pr (f x)) \<Longrightarrow> leaves pr (map_act f xs)"
  unfolding leaves_iff by (auto intro: keeps_map_act)

lemma leaves_split [leaves_rules]: "(\<And>a b. leaves pr (f a b)) \<Longrightarrow> leaves pr (case x of (a, b) \<Rightarrow> f a b)"
  by (cases x) simp

lemma leaves_Let [leaves_rules]: "leaves pr (f x) \<Longrightarrow> leaves pr (Let x f)"
  by (simp add: Let_def)

lemma leaves_modify: "(\<And>s. pr (f s) = pr s) \<Longrightarrow> leaves pr (modify f)"
  by (simp add: leaves_def modify_def)

section \<open>Actions that do not get stuck\<close>

definition total :: "('s, 'e, 'a) act \<Rightarrow> bool" where
  "total m \<longleftrightarrow> (\<forall>s. fst (m s) \<noteq> Stuck)"

lemma totalD: "total m \<Longrightarrow> m s = (r, s') \<Longrightarrow> r \<noteq> Stuck"
  by (metis fst_conv total_def)

lemma total_bnd_gives:
  assumes "total m" and "gives (\<lambda>_. True) m Q" and "\<And>x. Q x \<Longrightarrow> total (f x)"
  shows "total (bnd m f)"
  unfolding total_def
proof
  fix s
  obtain r s' where m: "m s = (r, s')" by fastforce
  moreover have "Q x" if "r = Val x" for x using assms(2) m that by (auto simp: gives_def)
  ultimately show "fst (bnd m f s) \<noteq> Stuck"
    using totalD [OF assms(1) m] assms(3) by (cases r) (auto simp: bnd_def total_def)
qed

lemma total_bnd [total_rules]: "total m \<Longrightarrow> (\<And>x. total (f x)) \<Longrightarrow> total (bnd m f)"
  by (rule total_bnd_gives [where Q = "\<lambda>_. True"]) (simp_all add: gives_def)

lemma total_seq [total_rules]: "total m \<Longrightarrow> total k \<Longrightarrow> total (seq m k)"
  unfolding seq_def by (rule total_bnd)

lemma total_catch [total_rules]:
  assumes "total m" and "\<And>e. total (h e)"
  shows "total (catch m h)"
  unfolding total_def
proof
  fix s
  obtain r s' where m: "m s = (r, s')" by fastforce
  then show "fst (catch m h s) \<noteq> Stuck"
    using totalD [OF assms(1) m] assms(2) by (cases r) (auto simp: catch_def total_def)
qed

lemma total_simple [total_rules]:
  "total (ret x)" "total (throw e)" "total (gets f)" "total (lift_sum g)" "total (modify h)"
  by (auto simp: total_def act_defs split: sum.split)

lemma total_only_if [total_rules]: "(b \<Longrightarrow> total m) \<Longrightarrow> total (only_if b m)"
  by (simp add: only_if_def total_simple)

lemma total_if [total_rules]: "(b \<Longrightarrow> total m) \<Longrightarrow> (\<not> b \<Longrightarrow> total k) \<Longrightarrow> total (if b then m else k)"
  by simp

lemma total_case_option [total_rules]:
  "total m \<Longrightarrow> (\<And>x. total (f x)) \<Longrightarrow> total (case v of None \<Rightarrow> m | Some x \<Rightarrow> f x)"
  by (cases v) auto

lemma total_each [total_rules]: "(\<And>x. x \<in> set xs \<Longrightarrow> total (f x)) \<Longrightarrow> total (each f xs)"
  by (induction xs) (auto intro: total_rules)

lemma total_map_act [total_rules]: "(\<And>x. total (f x)) \<Longrightarrow> total (map_act f xs)"
  by (induction xs) (auto intro!: total_rules)

lemma total_split [total_rules]: "(\<And>a b. total (f a b)) \<Longrightarrow> total (case x of (a, b) \<Rightarrow> f a b)"
  by (cases x) simp

end
