(* ===== verification/Explorer.thy ===== *)
theory Explorer
  imports Workspace Effects
begin

text \<open>
  The explorer (\<^verbatim>\<open>utils/explorer/explorer.ts\<close>): the files of the open project in memory, the tabs and the current
  file, and the operations on items, each first on the browser's volume and then on the state; with the volume's
  wrapper (\<^verbatim>\<open>fs.ts\<close>) and the files a workspace keeps beside its code (\<^verbatim>\<open>workspace-file.ts\<close>). The volume itself is a
  package: its calls are arguments that may fail at any time and leave anything behind. So are JSON at the types
  the code reads it at, the uuids and the sort of the metadata, whose comparator is not consistent. An operation is one
  step: calls made while it waits are not interleaved with it. Listeners are the list of the events dispatched.
\<close>

section \<open>State\<close>

record position =
  pos_topLineNumber :: int
  pos_from :: int
  pos_to :: int

text \<open>\<^verbatim>\<open>meta\<close> may be missing, and so may its position.\<close>

record item_info =
  ii_content :: "string option"
  ii_meta :: "position option option"

record item_meta =
  im_path :: string
  im_isTabs :: bool
  im_isCurrent :: bool
  im_position :: "position option"

record old_meta =
  om_current :: bool
  om_tabs :: bool
  om_position :: "position option"

text \<open>The metadata file: the list, or the record by path of an older version.\<close>

datatype stored_meta = MetaList "item_meta list" | OldMeta "(string \<times> old_meta) list"

datatype fs_code = E_NOENT | E_NOTDIR | E_EXIST | E_OTHER

datatype node_kind = FileNode | DirNode | OtherNode

datatype ex_error =
    ItemExists
  | InvalidItemName
  | TypeMismatch
  | SrcDelete
  | SrcRename
  | WorkspaceErr workspace_error
  | FsErr fs_code
  | TypeErr

datatype ex_event =
    DidInit
  | DidCreateItem
  | WillRenameItem string
  | DidRenameItem string
  | DidMoveItem string string
  | DidDeleteItem string
  | DidSaveFile
  | DidOpenFile "(string \<times> item_info) option"
  | DidCloseFile
  | DidSetTabs
  | DidCreateWorkspace "string option" bool
  | DidRenameWorkspace "string option"
  | DidDeleteWorkspace
  | DidSwitchWorkspace
  | DidChangeWorkspaceList
  | DidWriteFile string string
  | Reported string

text \<open>
  A key of \<^verbatim>\<open>files\<close> can hold \<^verbatim>\<open>undefined\<close>: a rename of a file the state does not hold sets it.
\<close>

record 'd explorer =
  ex_files :: "item_info option js_obj"
  ex_tabs :: "string list"
  ex_currentIndex :: int
  ex_isTemporary :: bool
  ex_isInitialized :: bool
  ex_workspace :: "workspaces option"
  ex_initializedName :: "string option"
  ex_savedWorkspaces :: "string option"
  ex_flushed :: "string list"
  ex_minted :: nat
  ex_disk :: 'd
  ex_events :: "ex_event list"

text \<open>What the explorer is given: the calls of the volume, JSON, the sort, the tutorials' names and the uuids.\<close>

record 'd env =
  v_writeFile :: "string \<Rightarrow> string \<Rightarrow> 'd \<Rightarrow> fs_code option \<times> 'd"
  v_readFile :: "string \<Rightarrow> 'd \<Rightarrow> fs_code + string"
  v_rename :: "string \<Rightarrow> string \<Rightarrow> 'd \<Rightarrow> fs_code option \<times> 'd"
  v_unlink :: "string \<Rightarrow> 'd \<Rightarrow> fs_code option \<times> 'd"
  v_mkdir :: "string \<Rightarrow> 'd \<Rightarrow> fs_code option \<times> 'd"
  v_rmdir :: "string \<Rightarrow> 'd \<Rightarrow> fs_code option \<times> 'd"
  v_readdir :: "string \<Rightarrow> 'd \<Rightarrow> fs_code + string list"
  v_stat :: "string \<Rightarrow> 'd \<Rightarrow> fs_code + node_kind"
  v_flush :: "'d \<Rightarrow> fs_code option \<times> 'd"
  e_parseConfig :: "string \<Rightarrow> stored_workspaces option"
  e_printConfig :: "workspaces \<Rightarrow> string"
  e_printList :: "workspace_entry list \<Rightarrow> string"
  e_parseMeta :: "string \<Rightarrow> stored_meta option"
  e_printMeta :: "item_meta list \<Rightarrow> string"
  e_sortMeta :: "(item_meta \<Rightarrow> item_meta \<Rightarrow> int) \<Rightarrow> item_meta list \<Rightarrow> item_meta list"
  e_isTutorialName :: "string \<Rightarrow> bool"
  e_uuid :: "nat \<Rightarrow> string"

type_synonym ('d, 'a) ex_act = "('d explorer, ex_error, 'a) act"

definition emit :: "ex_event \<Rightarrow> ('d, unit) ex_act" where
  "emit ev = modify (\<lambda>s. s\<lparr>ex_events := ex_events s @ [ev]\<rparr>)"

section \<open>Arrays and objects\<close>

text \<open>\<^verbatim>\<open>xs.indexOf(x)\<close>, -1 where it is missing.\<close>

fun index_from :: "int \<Rightarrow> 'a list \<Rightarrow> 'a \<Rightarrow> int" where
  "index_from k [] x = -1"
| "index_from k (y # ys) x = (if y = x then k else index_from (k + 1) ys x)"

definition js_index :: "'a list \<Rightarrow> 'a \<Rightarrow> int" where
  "js_index xs x = index_from 0 xs x"

text \<open>\<^verbatim>\<open>xs[i]\<close>.\<close>

definition js_get :: "'a list \<Rightarrow> int \<Rightarrow> 'a option" where
  "js_get xs i = (if 0 \<le> i \<and> i < int (length xs) then Some (xs ! nat i) else None)"

text \<open>\<^verbatim>\<open>xs.at(i)\<close>: a negative index counts from the end.\<close>

definition js_at :: "'a list \<Rightarrow> int \<Rightarrow> 'a option" where
  "js_at xs i = js_get xs (if i < 0 then int (length xs) + i else i)"

text \<open>\<^verbatim>\<open>xs.splice(i, 1)\<close>: a negative index counts from the end.\<close>

definition splice_one :: "'a list \<Rightarrow> int \<Rightarrow> 'a list" where
  "splice_one xs i = without_index (nat (if i < 0 then max 0 (int (length xs) + i) else i)) xs"

definition obj_del :: "string \<Rightarrow> 'v js_obj \<Rightarrow> 'v js_obj" where
  "obj_del k obj = filter (\<lambda>(k', v). k' \<noteq> k) obj"

text \<open>An absent and an empty string are both falsy.\<close>

definition truthy :: "string option \<Rightarrow> bool" where
  "truthy v \<longleftrightarrow> v \<noteq> None \<and> v \<noteq> Some []"

section \<open>Where things are\<close>

definition file_at :: "'d explorer \<Rightarrow> string \<Rightarrow> item_info option" where
  "file_at s p = (case map_of (ex_files s) p of Some (Some i) \<Rightarrow> Some i | _ \<Rightarrow> None)"

definition currentFilePath :: "'d explorer \<Rightarrow> string option" where
  "currentFilePath s =
     (if ex_currentIndex s = -1 then None else js_get (ex_tabs s) (ex_currentIndex s))"

definition currentWorkspaceName :: "'d explorer \<Rightarrow> string option" where
  "currentWorkspaceName s = (case ex_workspace s of None \<Rightarrow> None | Some w \<Rightarrow> currentName w)"

definition getCurrentWorkspacePath :: "'d explorer \<Rightarrow> string option" where
  "getCurrentWorkspacePath s =
     (if truthy (currentWorkspaceName s)
      then Some (joinPaths ROOT_DIR_PATH (appendSlash (the (currentWorkspaceName s)))) else None)"

definition getRequiredCurrentWorkspacePath :: "'d explorer \<Rightarrow> ex_error + string" where
  "getRequiredCurrentWorkspacePath s =
     (if ex_workspace s = None then Inl (WorkspaceErr NOT_FOUND)
      else case getCurrentWorkspacePath s of
        None \<Rightarrow> Inl (WorkspaceErr CURRENT_NOT_FOUND) | Some p \<Rightarrow> Inr p)"

definition getProjectRootPath :: "'d explorer \<Rightarrow> ex_error + string" where
  "getProjectRootPath s =
     (if ex_isTemporary s then Inr ROOT_DIR_PATH else getRequiredCurrentWorkspacePath s)"

definition convertToFullPath :: "'d explorer \<Rightarrow> string \<Rightarrow> ex_error + string" where
  "convertToFullPath s path =
     (if prefix ROOT_DIR_PATH path then Inr path
      else case getProjectRootPath s of Inl e \<Rightarrow> Inl e | Inr r \<Rightarrow> Inr (joinPaths r path))"

definition getCurrentSrcPath :: "'d explorer \<Rightarrow> ex_error + string" where
  "getCurrentSrcPath s =
     (case getProjectRootPath s of
        Inl e \<Rightarrow> Inl e | Inr r \<Rightarrow> Inr (appendSlash (joinPaths r SRC_DIRNAME)))"

definition getCanonicalPath :: "'d explorer \<Rightarrow> string \<Rightarrow> ex_error + string" where
  "getCanonicalPath s path =
     (case convertToFullPath s path of
        Inl e \<Rightarrow> Inl e
      | Inr p \<Rightarrow> Inr (if getItemTypeFromPath p = IsFile then p else appendSlash p))"

text \<open>\<^verbatim>\<open>text.replace(pattern, "")\<close>: the first occurrence goes.\<close>

fun remove_first :: "string \<Rightarrow> string \<Rightarrow> string" where
  "remove_first pat [] = []"
| "remove_first pat (c # cs) =
     (if prefix pat (c # cs) then drop (length pat) (c # cs) else c # remove_first pat cs)"

definition getRelativePath :: "'d explorer \<Rightarrow> string \<Rightarrow> ex_error + string" where
  "getRelativePath s fullPath =
     (if ex_isTemporary s then Inr (drop 1 fullPath)
      else case getRequiredCurrentWorkspacePath s of
        Inl e \<Rightarrow> Inl e | Inr wp \<Rightarrow> Inr (remove_first wp fullPath))"

definition full :: "string \<Rightarrow> ('d, string) ex_act" where
  "full path = lift_sum (\<lambda>s. convertToFullPath s path)"

definition parent :: "string \<Rightarrow> ('d, string) ex_act" where
  "parent path =
     (case getParentPathFromPath path of None \<Rightarrow> throw TypeErr | Some p \<Rightarrow> ret p)"

definition getFile :: "'d explorer \<Rightarrow> string \<Rightarrow> ex_error + (string \<times> item_info) option" where
  "getFile s path =
     (case convertToFullPath s path of
        Inl e \<Rightarrow> Inl e | Inr p \<Rightarrow> Inr (map_option (Pair p) (file_at s p)))"

definition getFileContent :: "'d explorer \<Rightarrow> string \<Rightarrow> ex_error + string option" where
  "getFileContent s path =
     (case getFile s path of
        Inl e \<Rightarrow> Inl e | Inr None \<Rightarrow> Inr None | Inr (Some (p, i)) \<Rightarrow> Inr (ii_content i))"

definition getCurrentFile :: "'d explorer \<Rightarrow> ex_error + (string \<times> item_info) option" where
  "getCurrentFile s =
     (if truthy (currentFilePath s) then getFile s (the (currentFilePath s)) else Inr None)"

definition announce_open :: "('d, unit) ex_act" where
  "announce_open = bnd (lift_sum getCurrentFile) (\<lambda>f. emit (DidOpenFile f))"

text \<open>
  \<^verbatim>\<open>getFolderContent\<close>: the names directly under a folder, files first told from folders by a dot. Of
  \<^verbatim>\<open>itemPath.split(path)[1].split("/")[0]\<close>, what is left after the folder's path up to the next slash.
\<close>

definition add_name :: "string \<Rightarrow> string list \<times> string list \<Rightarrow> string list \<times> string list" where
  "add_name item acc =
     (case acc of (fs, ds) \<Rightarrow>
        if item \<in> set fs \<or> item \<in> set ds \<or> item = [] then (fs, ds)
        else if js_includes ''.'' item then (fs @ [item], ds) else (fs, ds @ [item]))"

definition folder_names :: "string list \<Rightarrow> string \<Rightarrow> string list \<times> string list" where
  "folder_names paths folder =
     fold (\<lambda>p. if prefix folder p
               then add_name (takeWhile (\<lambda>c. c \<noteq> SLASH) (drop (length folder) p)) else id) paths ([], [])"

definition getFolderContent :: "'d explorer \<Rightarrow> string \<Rightarrow> ex_error + string list \<times> string list" where
  "getFolderContent s path =
     (case convertToFullPath s path of
        Inl e \<Rightarrow> Inl e | Inr p \<Rightarrow> Inr (folder_names (obj_keys (ex_files s)) (appendSlash p)))"

section \<open>Tabs\<close>

definition openFile :: "string \<Rightarrow> ('d, unit) ex_act" where
  "openFile path =
     bnd (full path) (\<lambda>p. bnd (gets currentFilePath) (\<lambda>cur.
       if cur = Some p then ret ()
       else seq (modify (\<lambda>s. if p \<in> set (ex_tabs s) then s else s\<lparr>ex_tabs := ex_tabs s @ [p]\<rparr>))
         (seq (modify (\<lambda>s. s\<lparr>ex_currentIndex := js_index (ex_tabs s) p\<rparr>)) announce_open)))"

definition next_tab :: "'d explorer \<Rightarrow> string option" where
  "next_tab s =
     (case js_at (ex_tabs s) (ex_currentIndex s + 1) of Some t \<Rightarrow> Some t | None \<Rightarrow> js_at (ex_tabs s) (-2))"

definition drop_tab :: "string \<Rightarrow> 'd explorer \<Rightarrow> 'd explorer" where
  "drop_tab p s =
     (let cur = currentFilePath s; tabs = splice_one (ex_tabs s) (js_index (ex_tabs s) p)
      in if truthy cur then s\<lparr>ex_tabs := tabs, ex_currentIndex := js_index tabs (the cur)\<rparr> else s)"

definition closeFile :: "string \<Rightarrow> ('d, unit) ex_act" where
  "closeFile path =
     bnd (full path) (\<lambda>p.
       seq (bnd (gets (\<lambda>s. (currentFilePath s, next_tab s))) (\<lambda>(cur, nxt).
              only_if (cur = Some p \<and> truthy nxt) (openFile (the nxt))))
         (seq (modify (drop_tab p)) (emit DidCloseFile)))"

definition put_tabs :: "string list \<Rightarrow> 'd explorer \<Rightarrow> 'd explorer" where
  "put_tabs tabs s =
     (let cur = currentFilePath s; s' = s\<lparr>ex_tabs := js_set tabs\<rparr>
      in if truthy cur then s'\<lparr>ex_currentIndex := js_index (js_set tabs) (the cur)\<rparr> else s')"

definition setTabs :: "string list \<Rightarrow> ('d, unit) ex_act" where
  "setTabs tabs = seq (modify (put_tabs tabs)) (emit DidSetTabs)"

section \<open>Contents and positions\<close>

definition put_file :: "string \<Rightarrow> item_info option \<Rightarrow> 'd explorer \<Rightarrow> 'd explorer" where
  "put_file p i s = s\<lparr>ex_files := obj_set p i (ex_files s)\<rparr>"

definition EMPTY_ITEM :: item_info where
  "EMPTY_ITEM = \<lparr>ii_content = None, ii_meta = None\<rparr>"

definition saveFileToState :: "string \<Rightarrow> string \<Rightarrow> ('d, unit) ex_act" where
  "saveFileToState path content =
     bnd (full path) (\<lambda>p. bnd (gets (\<lambda>s. file_at s p)) (\<lambda>i. case i of
         None \<Rightarrow> ret ()
       | Some it \<Rightarrow> seq (modify (put_file p (Some (it\<lparr>ii_content := Some content\<rparr>)))) (emit DidSaveFile)))"

definition saveEditorPosition :: "string \<Rightarrow> position \<Rightarrow> ('d, unit) ex_act" where
  "saveEditorPosition path pos =
     bnd (full path) (\<lambda>p. bnd (gets (\<lambda>s. file_at s p)) (\<lambda>i. case i of
         None \<Rightarrow> throw TypeErr
       | Some it \<Rightarrow> modify (put_file p (Some (it\<lparr>ii_meta := Some (Some pos)\<rparr>)))))"

definition getEditorPosition :: "'d explorer \<Rightarrow> string \<Rightarrow> ex_error + position" where
  "getEditorPosition s path =
     (case getFile s path of
        Inl e \<Rightarrow> Inl e
      | Inr found \<Rightarrow>
          (case Option.bind found (\<lambda>(p, i). Option.bind (ii_meta i) id) of
             Some pos \<Rightarrow> Inr pos
           | None \<Rightarrow> Inr \<lparr>pos_topLineNumber = 1, pos_from = 0, pos_to = 0\<rparr>))"

text \<open>\<^verbatim>\<open>undefined\<close> among the files makes the conversion throw.\<close>

fun convertToTupleFiles :: "item_info option js_obj \<Rightarrow> ex_error + (string \<times> string) list" where
  "convertToTupleFiles [] = Inr []"
| "convertToTupleFiles ((p, None) # fs) = Inl TypeErr"
| "convertToTupleFiles ((p, Some i) # fs) =
     (case convertToTupleFiles fs of
        Inl e \<Rightarrow> Inl e
      | Inr tuples \<Rightarrow> Inr (case ii_content i of Some c \<Rightarrow> (p, c) # tuples | None \<Rightarrow> tuples))"

definition getAllFiles :: "'d explorer \<Rightarrow> ex_error + (string \<times> string) list" where
  "getAllFiles s = convertToTupleFiles (ex_files s)"

definition convertToExplorerFiles :: "(string \<times> string) list \<Rightarrow> item_info option js_obj" where
  "convertToExplorerFiles tuples =
     fold (\<lambda>(p, c). obj_set (joinPaths ROOT_DIR_PATH p) (Some \<lparr>ii_content = Some c, ii_meta = None\<rparr>)) tuples []"

definition getDefaultOpenFile :: "(string \<times> string) list \<Rightarrow> string option" where
  "getDefaultOpenFile files =
     (case find (\<lambda>(p, c). suffix ''lib.rs'' p) files of
        Some (p, c) \<Rightarrow> Some p
      | None \<Rightarrow> (case files of [] \<Rightarrow> None | (p, c) # rest \<Rightarrow> Some p))"

section \<open>The volume\<close>

definition disk :: "('d \<Rightarrow> fs_code option \<times> 'd) \<Rightarrow> ('d, unit) ex_act" where
  "disk f s =
     (case f (ex_disk s) of
        (None, d) \<Rightarrow> (Val (), s\<lparr>ex_disk := d\<rparr>) | (Some e, d) \<Rightarrow> (Exn (FsErr e), s\<lparr>ex_disk := d\<rparr>))"

definition peek :: "('d \<Rightarrow> fs_code + 'a) \<Rightarrow> ('d, 'a) ex_act" where
  "peek f = lift_sum (\<lambda>s. case f (ex_disk s) of Inl e \<Rightarrow> Inl (FsErr e) | Inr x \<Rightarrow> Inr x)"

definition pgfs_getMetadata :: "'d env \<Rightarrow> string \<Rightarrow> ('d, node_kind) ex_act" where
  "pgfs_getMetadata E path = bnd (full path) (\<lambda>p. peek (v_stat E p))"

definition pgfs_exists :: "'d env \<Rightarrow> string \<Rightarrow> ('d, bool) ex_act" where
  "pgfs_exists E path =
     bnd (full path) (\<lambda>p. catch (bnd (pgfs_getMetadata E p) (\<lambda>k. ret True))
       (\<lambda>e. if e = FsErr E_NOENT \<or> e = FsErr E_NOTDIR then ret False else throw e))"

primrec make_dirs :: "'d env \<Rightarrow> string \<Rightarrow> string list \<Rightarrow> ('d, unit) ex_act" where
  "make_dirs E cur [] = ret ()"
| "make_dirs E cur (f # fs) =
     bnd (pgfs_exists E (cur @ ''/'' @ f)) (\<lambda>there.
       seq (only_if (\<not> there) (disk (v_mkdir E (cur @ ''/'' @ f)))) (make_dirs E (cur @ ''/'' @ f) fs))"

definition pgfs_createDir :: "'d env \<Rightarrow> bool \<Rightarrow> string \<Rightarrow> ('d, unit) ex_act" where
  "pgfs_createDir E createParents path =
     bnd (full path) (\<lambda>p.
       if createParents then make_dirs E [] (butlast (tl (split_slash p))) else disk (v_mkdir E p))"

definition pgfs_writeFile :: "'d env \<Rightarrow> bool \<Rightarrow> string \<Rightarrow> string \<Rightarrow> ('d, unit) ex_act" where
  "pgfs_writeFile E createParents path contents =
     bnd (full path) (\<lambda>p.
       seq (only_if createParents (bnd (parent p) (pgfs_createDir E True)))
         (seq (disk (v_writeFile E p contents)) (emit (DidWriteFile p contents))))"

definition pgfs_readToString :: "'d env \<Rightarrow> string \<Rightarrow> ('d, string) ex_act" where
  "pgfs_readToString E path = bnd (full path) (\<lambda>p. peek (v_readFile E p))"

text \<open>\<^verbatim>\<open>readToJSON\<close>: text that does not parse throws, as a file that cannot be read does.\<close>

definition pgfs_readToJSON :: "'d env \<Rightarrow> (string \<Rightarrow> 'a option) \<Rightarrow> string \<Rightarrow> ('d, 'a) ex_act" where
  "pgfs_readToJSON E parse path =
     bnd (pgfs_readToString E path) (\<lambda>t. case parse t of None \<Rightarrow> throw TypeErr | Some x \<Rightarrow> ret x)"

definition pgfs_readToJSONOrDefault :: "'d env \<Rightarrow> (string \<Rightarrow> 'a option) \<Rightarrow> string \<Rightarrow> 'a \<Rightarrow> ('d, 'a) ex_act" where
  "pgfs_readToJSONOrDefault E parse path x = catch (pgfs_readToJSON E parse path) (\<lambda>e. ret x)"

definition pgfs_rename :: "'d env \<Rightarrow> string \<Rightarrow> string \<Rightarrow> ('d, unit) ex_act" where
  "pgfs_rename E oldPath newPath =
     bnd (full oldPath) (\<lambda>p. bnd (full newPath) (\<lambda>q. disk (v_rename E p q)))"

definition pgfs_removeFile :: "'d env \<Rightarrow> string \<Rightarrow> ('d, unit) ex_act" where
  "pgfs_removeFile E path = bnd (full path) (\<lambda>p. disk (v_unlink E p))"

definition pgfs_readDir :: "'d env \<Rightarrow> string \<Rightarrow> ('d, string list) ex_act" where
  "pgfs_readDir E path = bnd (full path) (\<lambda>p. peek (v_readdir E p))"

definition pgfs_flush :: "'d env \<Rightarrow> ('d, unit) ex_act" where
  "pgfs_flush E = disk (v_flush E)"

text \<open>
  The recursive removal of a folder, as deep as the number allows: \<open>Stuck\<close> when the folders nest deeper.
\<close>

primrec rmdir_rec :: "nat \<Rightarrow> 'd env \<Rightarrow> string list \<Rightarrow> string \<Rightarrow> ('d, unit) ex_act" where
  "rmdir_rec 0 E dir currentPath = stuck"
| "rmdir_rec (Suc n) E dir currentPath =
     (let base = appendSlash currentPath; self = (if 1 < length base then butlast base else base)
      in if dir = [] then disk (v_rmdir E self)
         else seq
           (each (\<lambda>childName.
              bnd (pgfs_getMetadata E (base @ childName)) (\<lambda>k.
                if k = DirNode then
                  bnd (pgfs_readDir E (base @ childName)) (\<lambda>childDir.
                    if childDir \<noteq> [] then rmdir_rec n E childDir (base @ childName)
                    else disk (v_rmdir E (base @ childName)))
                else pgfs_removeFile E (base @ childName))) dir)
           (bnd (pgfs_readDir E self) (\<lambda>left. only_if (left = []) (disk (v_rmdir E self)))))"

definition pgfs_removeDir :: "nat \<Rightarrow> 'd env \<Rightarrow> bool \<Rightarrow> string \<Rightarrow> ('d, unit) ex_act" where
  "pgfs_removeDir depth E recursive path =
     bnd (full path) (\<lambda>p.
       if recursive then bnd (pgfs_readDir E p) (\<lambda>dir. rmdir_rec depth E dir p) else disk (v_rmdir E p))"

section \<open>Files a workspace keeps\<close>

definition WORKSPACE_PATH :: string where
  "WORKSPACE_PATH = ''.workspace''"

definition METADATA_PATH :: string where
  "METADATA_PATH = joinPaths WORKSPACE_PATH ''metadata.json''"

definition forgetFlushed :: "string \<Rightarrow> ('d, unit) ex_act" where
  "forgetFlushed dir = modify (\<lambda>s. s\<lparr>ex_flushed := filter (\<lambda>p. \<not> prefix dir p) (ex_flushed s)\<rparr>)"

definition workspace_write :: "'d env \<Rightarrow> string \<Rightarrow> string \<Rightarrow> ('d, unit) ex_act" where
  "workspace_write E fullPath contents =
     catch (pgfs_writeFile E False fullPath contents) (\<lambda>e.
       if e \<noteq> FsErr E_NOENT then throw e
       else bnd (parent fullPath) (\<lambda>folder. bnd (parent folder) (\<lambda>above.
         if above = ROOT_DIR_PATH then throw e
         else seq (catch (pgfs_createDir E False folder) (\<lambda>mkdirError.
                 if mkdirError = FsErr E_EXIST then ret () else throw mkdirError))
           (pgfs_writeFile E False fullPath contents))))"

definition writeWorkspaceFile :: "'d env \<Rightarrow> string \<Rightarrow> string \<Rightarrow> ('d, unit) ex_act" where
  "writeWorkspaceFile E path contents =
     bnd (full path) (\<lambda>fullPath.
       seq (workspace_write E fullPath contents)
         (bnd (gets (\<lambda>s. fullPath \<in> set (ex_flushed s))) (\<lambda>was.
           only_if (\<not> was) (catch
             (seq (pgfs_flush E) (modify (\<lambda>s. s\<lparr>ex_flushed := ex_flushed s @ [fullPath]\<rparr>)))
             (\<lambda>e. emit (Reported ''flush''))))))"

text \<open>The workspace events also empty the record of what was flushed, as \<^verbatim>\<open>writeWorkspaceFile\<close> arranges.\<close>

definition emit_workspace :: "ex_event \<Rightarrow> ('d, unit) ex_act" where
  "emit_workspace ev = seq (emit ev) (modify (\<lambda>s. s\<lparr>ex_flushed := []\<rparr>))"

section \<open>Metadata\<close>

text \<open>The comparator of the metadata: of two entries that are no tabs each comes after the other.\<close>

definition tab_order :: "string list \<Rightarrow> item_meta \<Rightarrow> item_meta \<Rightarrow> int" where
  "tab_order tabs a b =
     (if \<not> im_isTabs a then 1 else if \<not> im_isTabs b then -1
      else js_index tabs (im_path a) - js_index tabs (im_path b))"

fun meta_of :: "'d explorer \<Rightarrow> string \<times> item_info option \<Rightarrow> ex_error + item_meta" where
  "meta_of s (p, None) = Inl TypeErr"
| "meta_of s (p, Some i) =
     Inr \<lparr>im_path = p, im_isTabs = (p \<in> set (ex_tabs s)), im_isCurrent = (currentFilePath s = Some p),
          im_position = Option.bind (ii_meta i) id\<rparr>"

definition relative_meta :: "item_meta \<Rightarrow> ('d, item_meta) ex_act" where
  "relative_meta m =
     bnd (lift_sum (\<lambda>s. getRelativePath s (im_path m))) (\<lambda>p. ret (m\<lparr>im_path := p\<rparr>))"

definition saveMeta :: "'d env \<Rightarrow> ('d, unit) ex_act" where
  "saveMeta E =
     bnd (gets (\<lambda>s. (ex_isTemporary s, ex_files s, getCurrentWorkspacePath s))) (\<lambda>(temporary, files, wp).
       if temporary \<or> files = [] \<or> wp = None \<or> list_ex (\<lambda>p. \<not> prefix (the wp) p) (obj_keys files) then ret ()
       else bnd (map_act (\<lambda>f. lift_sum (\<lambda>s. meta_of s f)) files) (\<lambda>metas.
         bnd (gets ex_tabs) (\<lambda>tabs.
           bnd (map_act relative_meta (e_sortMeta E (tab_order tabs) metas)) (\<lambda>metaFile.
             catch (writeWorkspaceFile E METADATA_PATH (e_printMeta E metaFile))
               (\<lambda>e. if e = FsErr E_NOENT then ret () else throw e)))))"

definition saveTree :: "'d env \<Rightarrow> string \<Rightarrow> ('d, unit) ex_act" where
  "saveTree E what =
     catch (pgfs_flush E) (\<lambda>e. emit (Reported (''save the folder tree after '' @ what)))"

end
