(* ===== verification/Explorer_Items.thy ===== *)
theory Explorer_Items
  imports Explorer
begin

text \<open>
  Creating, renaming and deleting the items of a project (\<^verbatim>\<open>createItem\<close>, \<^verbatim>\<open>renameItem\<close>, \<^verbatim>\<open>deleteItem\<close> of
  \<^verbatim>\<open>utils/explorer/explorer.ts\<close>): the checks, the volume, then the state. A loop over the keys of the files runs over
  the keys as they were when it began.
\<close>

section \<open>Creating\<close>

record open_options =
  oo_dontOpen :: bool
  oo_onlyRefreshIfAlreadyOpen :: bool

record create_options =
  co_skipNameValidation :: bool
  co_override :: bool
  co_openOptions :: "open_options option"

definition NO_OPTIONS :: create_options where
  "NO_OPTIONS = \<lparr>co_skipNameValidation = False, co_override = False, co_openOptions = None\<rparr>"

definition refresh_open :: "create_options \<Rightarrow> string \<Rightarrow> ('d, unit) ex_act" where
  "refresh_open opts p =
     (if co_openOptions opts = None \<or> oo_onlyRefreshIfAlreadyOpen (the (co_openOptions opts))
      then bnd (gets (\<lambda>s. currentFilePath s = Some p)) (\<lambda>isCurrentFile.
        seq (only_if (co_override opts \<and> isCurrentFile) (closeFile p))
          (only_if (co_openOptions opts = None \<or> isCurrentFile) (openFile p)))
      else ret ())"

definition new_file :: "string \<Rightarrow> item_info option \<Rightarrow> item_info" where
  "new_file content old =
     \<lparr>ii_content = Some content,
      ii_meta = Some (case Option.bind old ii_meta of Some m \<Rightarrow> m | None \<Rightarrow> None)\<rparr>"

definition create_on_disk :: "'d env \<Rightarrow> string \<Rightarrow> string \<Rightarrow> bool \<Rightarrow> ('d, unit) ex_act" where
  "create_on_disk E p content known =
     (if getItemTypeFromPath p = IsFile
      then seq (pgfs_writeFile E True p content) (only_if (\<not> known) (saveTree E ''a create''))
      else seq (pgfs_createDir E False p) (saveTree E ''a create''))"

definition create_in_state :: "string \<Rightarrow> string \<Rightarrow> create_options \<Rightarrow> item_info option \<Rightarrow> ('d, unit) ex_act" where
  "create_in_state p content opts old =
     (if getItemTypeFromPath p = IsFile
      then seq (modify (put_file p (Some (new_file content old)))) (refresh_open opts p)
      else modify (put_file p (Some EMPTY_ITEM)))"

definition createItem :: "'d env \<Rightarrow> string \<Rightarrow> string \<Rightarrow> create_options \<Rightarrow> ('d, unit) ex_act" where
  "createItem E path content opts =
     bnd (full path) (\<lambda>p.
       if \<not> co_skipNameValidation opts \<and> \<not> isItemNameValid (getItemNameFromPath p) then throw InvalidItemName
       else bnd (gets (\<lambda>s. (file_at s p, ex_isTemporary s))) (\<lambda>(old, temporary).
         if old \<noteq> None \<and> \<not> co_override opts then throw ItemExists
         else seq (only_if (\<not> temporary) (create_on_disk E p content (old \<noteq> None)))
           (seq (create_in_state p content opts old)
             (seq (emit DidCreateItem) (saveMeta E)))))"

section \<open>Renaming\<close>

definition rename_path :: "string \<Rightarrow> string \<Rightarrow> 'd explorer \<Rightarrow> 'd explorer" where
  "rename_path fromPath toPath s =
     (let item = (case map_of (ex_files s) fromPath of Some v \<Rightarrow> v | None \<Rightarrow> None);
          s' = s\<lparr>ex_files := obj_set toPath item (obj_del fromPath (ex_files s))\<rparr>;
          tabIndex = js_index (ex_tabs s) fromPath
      in if getItemTypeFromPath toPath = IsFile \<and> tabIndex \<noteq> -1
         then s'\<lparr>ex_tabs := (ex_tabs s)[nat tabIndex := toPath]\<rparr> else s')"

definition child_path :: "string \<Rightarrow> string \<Rightarrow> string \<Rightarrow> string" where
  "child_path oldPath newPath path =
     replace_prefix oldPath (if suffix ''/'' oldPath then appendSlash newPath else newPath) path"

definition rename_folder :: "string \<Rightarrow> string \<Rightarrow> 'd explorer \<Rightarrow> 'd explorer" where
  "rename_folder oldPath newPath s =
     fold (\<lambda>path. if prefix oldPath path then rename_path path (child_path oldPath newPath path) else id)
       (obj_keys (ex_files s)) s"

definition rename_in_state :: "string \<Rightarrow> string \<Rightarrow> ('d, unit) ex_act" where
  "rename_in_state oldPath newPath =
     (if getItemTypeFromPath oldPath = IsFile
      then seq (modify (rename_path oldPath newPath))
        (bnd (parent oldPath) (\<lambda>folder. modify (put_file folder (Some EMPTY_ITEM))))
      else modify (rename_folder oldPath newPath))"

definition newPathExists :: "'d explorer \<Rightarrow> item_type \<Rightarrow> string \<Rightarrow> ex_error + bool" where
  "newPathExists s itemType newPath =
     (if itemType = IsFile
      then (case getFile s newPath of Inl e \<Rightarrow> Inl e | Inr f \<Rightarrow> Inr (f \<noteq> None))
      else (case getFolderContent s newPath of
          Inl e \<Rightarrow> Inl e | Inr (files, folders) \<Rightarrow> Inr (files \<noteq> [] \<or> folders \<noteq> [])))"

definition rename_checks :: "bool \<Rightarrow> bool \<Rightarrow> string \<Rightarrow> string \<Rightarrow> ('d, unit) ex_act" where
  "rename_checks skipNameValidation override oldPath newPath =
     (if \<not> skipNameValidation \<and> \<not> isItemNameValid newPath then throw InvalidItemName
      else bnd (lift_sum getCurrentSrcPath) (\<lambda>src.
        if isPathsEqual oldPath src then throw SrcRename
        else if getItemTypeFromPath oldPath \<noteq> getItemTypeFromPath newPath then throw TypeMismatch
        else only_if (\<not> override)
          (bnd (lift_sum (\<lambda>s. newPathExists s (getItemTypeFromPath oldPath) newPath)) (\<lambda>there.
             if there then throw ItemExists else ret ()))))"

definition rename_done :: "'d env \<Rightarrow> bool \<Rightarrow> string \<Rightarrow> string \<Rightarrow> ('d, unit) ex_act" where
  "rename_done E override oldPath newPath =
     seq (only_if override (bnd (gets ex_tabs) setTabs))
       (seq announce_open (seq (emit (DidRenameItem oldPath)) (seq (emit (DidMoveItem oldPath newPath)) (saveMeta E))))"

definition renameItem :: "'d env \<Rightarrow> bool \<Rightarrow> bool \<Rightarrow> string \<Rightarrow> string \<Rightarrow> ('d, unit) ex_act" where
  "renameItem E skipNameValidation override old new =
     bnd (full old) (\<lambda>oldPath. bnd (full new) (\<lambda>newPath.
       if isPathsEqual newPath oldPath then ret ()
       else seq (rename_checks skipNameValidation override oldPath newPath)
         (seq (emit (WillRenameItem oldPath))
           (bnd (gets ex_isTemporary) (\<lambda>temporary.
             seq (only_if (\<not> temporary) (seq (pgfs_rename E oldPath newPath) (saveTree E ''a rename'')))
               (seq (rename_in_state oldPath newPath) (rename_done E override oldPath newPath)))))))"

section \<open>Deleting\<close>

definition delete_on_disk :: "nat \<Rightarrow> 'd env \<Rightarrow> string \<Rightarrow> ('d, unit) ex_act" where
  "delete_on_disk depth E p =
     seq (bnd (pgfs_getMetadata E p) (\<lambda>k.
           if k = FileNode then pgfs_removeFile E p else pgfs_removeDir depth E True p))
       (saveTree E ''a delete'')"

definition delete_paths :: "string \<Rightarrow> ('d, unit) ex_act" where
  "delete_paths p =
     bnd (gets (\<lambda>s. obj_keys (ex_files s))) (\<lambda>paths.
       each (\<lambda>filePath. only_if (prefix p filePath)
           (seq (modify (\<lambda>s. s\<lparr>ex_files := obj_del filePath (ex_files s)\<rparr>)) (closeFile filePath))) paths)"

definition delete_in_state :: "string \<Rightarrow> ('d, unit) ex_act" where
  "delete_in_state p =
     bnd (gets (\<lambda>s. case currentFilePath s of None \<Rightarrow> False | Some c \<Rightarrow> prefix p c)) (\<lambda>isCurrent.
       seq (delete_paths p)
         (seq (bnd (parent p) (\<lambda>folder. modify (put_file folder (Some EMPTY_ITEM))))
           (only_if isCurrent (bnd (gets (\<lambda>s. js_at (ex_tabs s) (-1))) (\<lambda>lastTab.
             only_if (truthy lastTab) (openFile (the lastTab)))))))"

definition deleteItem :: "nat \<Rightarrow> 'd env \<Rightarrow> string \<Rightarrow> ('d, unit) ex_act" where
  "deleteItem depth E path =
     bnd (full path) (\<lambda>p. bnd (lift_sum getCurrentSrcPath) (\<lambda>src.
       if isPathsEqual p src then throw SrcDelete
       else bnd (gets ex_isTemporary) (\<lambda>temporary.
         seq (only_if (\<not> temporary) (delete_on_disk depth E p))
           (seq (delete_in_state p) (seq (emit (DidDeleteItem p)) (saveMeta E))))))"

end
