(* ===== verification/Explorer_Spaces.thy ===== *)
theory Explorer_Spaces
  imports Explorer_Items
begin

text \<open>
  Opening, creating, importing, replacing, renaming and deleting the workspaces of a browser (the workspace methods of
  \<^verbatim>\<open>utils/explorer/explorer.ts\<close>): the list in memory, the config file that holds it, and the folder of each workspace
  on the volume. The start of a browser that kept its project in the local storage, the last part of
  \<^verbatim>\<open>_initCurrentWorkspace\<close>, is left out: it asks for an empty list of workspaces in a place reached only with a
  current one, so it cannot run.
\<close>

section \<open>The list and its config file\<close>

definition WORKSPACES_CONFIG_PATH :: string where
  "WORKSPACES_CONFIG_PATH = ''/.config/workspaces.json''"

text \<open>A change of the list, on a list that is there.\<close>

definition on_list :: "(workspaces \<Rightarrow> workspace_error + workspaces) \<Rightarrow> ('d, unit) ex_act" where
  "on_list f s =
     (case ex_workspace s of
        None \<Rightarrow> (Exn TypeErr, s)
      | Some w \<Rightarrow> (case f w of
          Inl e \<Rightarrow> (Exn (WorkspaceErr e), s) | Inr w' \<Rightarrow> (Val (), s\<lparr>ex_workspace := Some w'\<rparr>)))"

definition list_create :: "'d env \<Rightarrow> string \<Rightarrow> string option \<Rightarrow> ('d, unit) ex_act" where
  "list_create E name given =
     bnd (gets ex_minted) (\<lambda>k.
       seq (modify (\<lambda>s. s\<lparr>ex_minted := Suc k\<rparr>)) (on_list (create (e_isTutorialName E) (e_uuid E k) name given)))"

definition names_of :: "'d explorer \<Rightarrow> string list" where
  "names_of s = (case ex_workspace s of None \<Rightarrow> [] | Some w \<Rightarrow> allNames w)"

definition saveWorkspaces :: "'d env \<Rightarrow> ('d, unit) ex_act" where
  "saveWorkspaces E =
     bnd (gets ex_workspace) (\<lambda>w0. case w0 of
         None \<Rightarrow> ret ()
       | Some w \<Rightarrow>
           seq (pgfs_writeFile E True WORKSPACES_CONFIG_PATH (e_printConfig E w))
             (seq (pgfs_flush E) (modify (\<lambda>s.
               if map_option (\<lambda>w'. e_printList E (wk_workspaces w')) (ex_workspace s) = Some (e_printList E (wk_workspaces w))
               then s\<lparr>ex_savedWorkspaces := Some (e_printList E (wk_workspaces w))\<rparr> else s))))"

definition migrate_config :: "'d env \<Rightarrow> stored_workspaces \<Rightarrow> ('d, workspaces) ex_act" where
  "migrate_config E st =
     bnd (gets ex_minted) (\<lambda>k.
       let w = migrate (e_isTutorialName E) (\<lambda>i. e_uuid E (k + i)) st
       in seq (modify (\<lambda>s. s\<lparr>ex_minted := k + length (wk_workspaces w)\<rparr>)) (ret w))"

definition getWorkspaces :: "'d env \<Rightarrow> ('d, workspaces) ex_act" where
  "getWorkspaces E =
     bnd (pgfs_readToJSONOrDefault E (e_parseConfig E) WORKSPACES_CONFIG_PATH (Migrated DEFAULT_WORKSPACES))
       (migrate_config E)"

definition initWorkspaces :: "'d env \<Rightarrow> ('d, unit) ex_act" where
  "initWorkspaces E =
     bnd (getWorkspaces E) (\<lambda>w. seq (modify (\<lambda>s. s\<lparr>ex_workspace := Some w\<rparr>)) (saveWorkspaces E))"

text \<open>
  What happens in the tab while the config is read is an argument. It may change the list but does not put another
  list object in its place.
\<close>

definition take_list :: "'d env \<Rightarrow> string option \<Rightarrow> workspaces \<Rightarrow> ('d, bool) ex_act" where
  "take_list E saved stored s =
     (case ex_workspace s of
        None \<Rightarrow> (Exn TypeErr, s)
      | Some w \<Rightarrow>
          if Some (e_printList E (wk_workspaces w)) \<noteq> saved \<or> ex_savedWorkspaces s \<noteq> saved then (Val False, s)
          else let new = Some (e_printList E (wk_workspaces stored));
                   s' = s\<lparr>ex_workspace := Some (w\<lparr>wk_workspaces := wk_workspaces stored\<rparr>), ex_savedWorkspaces := new\<rparr>
            in seq (only_if (new \<noteq> saved) (emit DidChangeWorkspaceList)) (ret True) s')"

definition refreshWorkspaces :: "'d env \<Rightarrow> ('d explorer \<Rightarrow> 'd explorer) \<Rightarrow> ('d, bool) ex_act" where
  "refreshWorkspaces E meanwhile =
     bnd (gets (\<lambda>s. (ex_workspace s, ex_savedWorkspaces s))) (\<lambda>(w0, saved).
       if w0 = None then ret True
       else bnd (catch
           (bnd (pgfs_readToJSON E (e_parseConfig E) WORKSPACES_CONFIG_PATH) (\<lambda>st.
              bnd (migrate_config E st) (\<lambda>w. ret (Some (Some w)))))
           (\<lambda>e. if e = FsErr E_NOENT then ret (Some None)
                else seq (emit (Reported ''refresh workspaces'')) (ret None)))
         (\<lambda>r. case r of
             None \<Rightarrow> ret False
           | Some None \<Rightarrow> ret True
           | Some (Some stored) \<Rightarrow> seq (modify meanwhile) (take_list E saved stored)))"

section \<open>Opening the current workspace\<close>

definition default_state :: "'d explorer \<Rightarrow> 'd explorer" where
  "default_state s = s\<lparr>ex_files := [], ex_tabs := [], ex_currentIndex := -1\<rparr>"

text \<open>The files of a folder, as deep as the number allows.\<close>

primrec setupFiles :: "nat \<Rightarrow> 'd env \<Rightarrow> string \<Rightarrow> ('d, unit) ex_act" where
  "setupFiles 0 E path = stuck"
| "setupFiles (Suc n) E path =
     bnd (pgfs_readDir E path) (\<lambda>itemNames.
       if itemNames = [] then modify (put_file path (Some EMPTY_ITEM))
       else bnd (map_act (\<lambda>itemName. lift_sum (\<lambda>s. getCanonicalPath s (joinPaths path itemName)))
           (filter isItemNameValid itemNames)) (\<lambda>subItemPaths.
         each (\<lambda>p. bnd (pgfs_getMetadata E p) (\<lambda>k.
             if k = FileNode
             then catch (bnd (pgfs_readToString E p) (\<lambda>c. modify (put_file p (Some \<lparr>ii_content = Some c, ii_meta = None\<rparr>))))
                 (\<lambda>e. ret ())
             else setupFiles n E p)) subItemPaths))"

text \<open>The config names a workspace whose folder cannot be read: another one is made current, or none.\<close>

definition drop_unreadable :: "string list \<Rightarrow> 'd explorer \<Rightarrow> 'd explorer" where
  "drop_unreadable workspaceDirs s =
     (if workspaceDirs = [] then s\<lparr>ex_workspace := Some DEFAULT_WORKSPACES\<rparr>
      else s\<lparr>ex_workspace := map_option (\<lambda>w.
          setCurrentName (last workspaceDirs)
            (if truthy (currentName w) then delete_workspace (the (currentName w)) w else w)) (ex_workspace s)\<rparr>)"

definition recover :: "'d env \<Rightarrow> ('d, unit) ex_act" where
  "recover E =
     bnd (pgfs_readDir E ROOT_DIR_PATH) (\<lambda>rootDirs.
       seq (modify (drop_unreadable (filter isItemNameValid rootDirs))) (saveWorkspaces E))"

fun meta_list :: "stored_meta \<Rightarrow> item_meta list" where
  "meta_list (MetaList ms) = ms"
| "meta_list (OldMeta ms) =
     map (\<lambda>(p, m). \<lparr>im_path = p, im_isTabs = om_tabs m, im_isCurrent = om_current m, im_position = om_position m\<rparr>) ms"

definition full_meta :: "item_meta \<Rightarrow> ('d, item_meta) ex_act" where
  "full_meta m = bnd (full (im_path m)) (\<lambda>p. ret (m\<lparr>im_path := p\<rparr>))"

definition put_meta :: "item_meta \<Rightarrow> 'd explorer \<Rightarrow> 'd explorer" where
  "put_meta m s =
     (case file_at s (im_path m) of
        Some i \<Rightarrow> (if ii_content i \<noteq> None then put_file (im_path m) (Some (i\<lparr>ii_meta := Some (im_position m)\<rparr>)) s else s)
      | None \<Rightarrow> s)"

definition open_default :: "('d, unit) ex_act" where
  "open_default =
     bnd (lift_sum getAllFiles) (\<lambda>files. case getDefaultOpenFile files of
         None \<Rightarrow> ret () | Some p \<Rightarrow> only_if (p \<noteq> []) (openFile p))"

definition load_meta :: "'d env \<Rightarrow> ('d, unit) ex_act" where
  "load_meta E =
     bnd (pgfs_readToJSONOrDefault E (e_parseMeta E) METADATA_PATH (MetaList [])) (\<lambda>stored.
       bnd (map_act full_meta (meta_list stored)) (\<lambda>metas.
         seq (setTabs (map im_path (filter im_isTabs metas)))
           (seq (modify (\<lambda>s. s\<lparr>ex_currentIndex := (case find im_isCurrent metas of
                   Some m \<Rightarrow> js_index (ex_tabs s) (im_path m) | None \<Rightarrow> -1)\<rparr>))
             (seq (bnd (gets ex_currentIndex) (\<lambda>i. only_if (i = -1) open_default))
               (modify (fold put_meta metas))))))"

text \<open>
  \<^verbatim>\<open>_initCurrentWorkspace\<close> calls itself after each recovery. The first number bounds the nesting of the folders, the
  second the calls; \<open>initCurrentWorkspace\<close> allows one call more than there are workspaces.
\<close>

primrec init_rounds :: "nat \<Rightarrow> nat \<Rightarrow> 'd env \<Rightarrow> ('d, unit) ex_act" where
  "init_rounds 0 depth E = stuck"
| "init_rounds (Suc n) depth E =
     bnd (gets getCurrentWorkspacePath) (\<lambda>wp. case wp of
         None \<Rightarrow> modify default_state
       | Some workspacePath \<Rightarrow>
           seq (modify (\<lambda>s. s\<lparr>ex_files := []\<rparr>))
             (bnd (catch (seq (setupFiles depth E workspacePath) (ret True)) (\<lambda>e. ret False)) (\<lambda>ok.
               if ok then load_meta E else seq (recover E) (init_rounds n depth E))))"

definition initCurrentWorkspace :: "nat \<Rightarrow> 'd env \<Rightarrow> ('d, unit) ex_act" where
  "initCurrentWorkspace depth E =
     bnd (gets (\<lambda>s. Suc (length (names_of s)))) (\<lambda>n. init_rounds n depth E)"

section \<open>Switching\<close>

definition switchWorkspace :: "nat \<Rightarrow> 'd env \<Rightarrow> string option \<Rightarrow> string \<Rightarrow> ('d, unit) ex_act" where
  "switchWorkspace depth E defaultOpenFile name =
     seq (saveMeta E)
       (seq (modify (\<lambda>s. s\<lparr>ex_isTemporary := False\<rparr>))
         (seq (on_list (\<lambda>w. Inr (setCurrentName name w)))
           (seq (saveWorkspaces E)
             (seq (initCurrentWorkspace depth E)
               (seq (if truthy defaultOpenFile then seq (openFile (the defaultOpenFile)) (saveMeta E) else announce_open)
                 (seq (modify (\<lambda>s. s\<lparr>ex_initializedName := Some name\<rparr>)) (emit DidSwitchWorkspace)))))))"

section \<open>Creating and importing\<close>

definition writeAllFromState :: "'d env \<Rightarrow> ('d, unit) ex_act" where
  "writeAllFromState E =
     bnd (gets ex_files) (each (\<lambda>(p, i).
       if getItemTypeFromPath p = IsFile
       then (case i of
           None \<Rightarrow> throw TypeErr
         | Some it \<Rightarrow> pgfs_writeFile E True p (case ii_content it of None \<Rightarrow> [] | Some c \<Rightarrow> c))
       else pgfs_createDir E True p))"

definition workspace_file :: "string \<Rightarrow> string \<Rightarrow> string" where
  "workspace_file name path = joinPaths (joinPaths ROOT_DIR_PATH name) path"

definition move_under :: "string \<Rightarrow> 'd explorer \<Rightarrow> 'd explorer" where
  "move_under name s =
     fold (\<lambda>(path, v) t. t\<lparr>ex_files := obj_set (workspace_file name path) v (obj_del path (ex_files t))\<rparr>) (ex_files s) s"

definition keep_temporary :: "nat \<Rightarrow> 'd env \<Rightarrow> string \<Rightarrow> ('d, unit) ex_act" where
  "keep_temporary depth E name =
     seq (initWorkspaces E)
       (seq (list_create E name None)
         (seq (modify (\<lambda>s. move_under name (s\<lparr>ex_isTemporary := False\<rparr>)))
           (seq (bnd (gets ex_tabs) (\<lambda>tabs. setTabs (map (workspace_file name) tabs)))
             (seq (writeAllFromState E) (switchWorkspace depth E None name)))))"

record workspace_options =
  wo_files :: "(string \<times> string) list option"
  wo_defaultOpenFile :: "string option"
  wo_fromTemporary :: bool
  wo_skipNameValidation :: bool
  wo_id :: "string option"

definition add_workspace :: "nat \<Rightarrow> 'd env \<Rightarrow> workspace_options \<Rightarrow> string \<Rightarrow> ('d, unit) ex_act" where
  "add_workspace depth E opts name =
     seq (list_create E name (wo_id opts))
       (seq (modify (\<lambda>s. s\<lparr>ex_isTemporary := False\<rparr>))
         (seq (case wo_files opts of None \<Rightarrow> ret () | Some fs \<Rightarrow> each (\<lambda>(p, c). pgfs_writeFile E True p c) fs)
           (seq (switchWorkspace depth E
                  (case wo_defaultOpenFile opts of
                     Some f \<Rightarrow> Some f
                   | None \<Rightarrow> (case wo_files opts of None \<Rightarrow> None | Some fs \<Rightarrow> getDefaultOpenFile fs)) name)
             (bnd (gets (\<lambda>s. Option.bind (ex_workspace s) (\<lambda>w. idOf w name))) (\<lambda>i.
               emit_workspace (DidCreateWorkspace i False))))))"

definition createWorkspace :: "nat \<Rightarrow> 'd env \<Rightarrow> workspace_options \<Rightarrow> string \<Rightarrow> ('d, unit) ex_act" where
  "createWorkspace depth E opts given =
     (let name = js_trim given
      in if \<not> wo_skipNameValidation opts \<and> \<not> isWorkspaceNameValid name then throw (WorkspaceErr INVALID_NAME)
         else bnd (gets (\<lambda>s. (ex_isTemporary s, ex_workspace s = None))) (\<lambda>(temporary, none).
           if wo_fromTemporary opts \<and> temporary then keep_temporary depth E name
           else seq (only_if (none \<and> temporary) (initWorkspaces E))
             (bnd (gets (\<lambda>s. ex_workspace s = None)) (\<lambda>still.
               if still then throw (WorkspaceErr NOT_FOUND) else add_workspace depth E opts name))))"

definition importWorkspace :: "'d env \<Rightarrow> string \<Rightarrow> string \<Rightarrow> string js_obj \<Rightarrow> ('d, unit) ex_act" where
  "importWorkspace E name i files =
     bnd (gets ex_workspace) (\<lambda>w0. case w0 of
         None \<Rightarrow> throw (WorkspaceErr NOT_FOUND)
       | Some w \<Rightarrow>
           if name \<in> set (allNames w) then throw (WorkspaceErr ALREADY_EXISTS)
           else seq (each (\<lambda>(p, c). pgfs_writeFile E True (workspace_file name p) c) files)
             (seq (on_list (add name i))
               (seq (saveWorkspaces E) (emit_workspace (DidCreateWorkspace (Some i) True)))))"

definition replaceWorkspaceFiles :: "nat \<Rightarrow> 'd env \<Rightarrow> string \<Rightarrow> string js_obj \<Rightarrow> ('d, unit) ex_act" where
  "replaceWorkspaceFiles depth E name files =
     (let dir = joinPaths ROOT_DIR_PATH name; metadataPath = joinPaths dir METADATA_PATH
      in bnd (pgfs_readToJSONOrDefault E (e_parseMeta E) metadataPath (MetaList [])) (\<lambda>stored. case stored of
             OldMeta ms \<Rightarrow> seq (catch (pgfs_removeDir depth E True dir) (\<lambda>e. ret ()))
               (seq (forgetFlushed (appendSlash dir))
                 (seq (each (\<lambda>(p, c). pgfs_writeFile E True (joinPaths dir p) c) files) (throw TypeErr)))
           | MetaList metadata \<Rightarrow>
               seq (catch (pgfs_removeDir depth E True dir) (\<lambda>e. ret ()))
                 (seq (forgetFlushed (appendSlash dir))
                   (seq (each (\<lambda>(p, c). pgfs_writeFile E True (joinPaths dir p) c) files)
                     (let kept = filter (\<lambda>m. obj_has files (im_path m)) metadata
                      in seq (only_if (kept \<noteq> []) (pgfs_writeFile E True metadataPath (e_printMeta E kept)))
                           (pgfs_flush E))))))"

section \<open>Renaming and deleting\<close>

text \<open>\<^verbatim>\<open>text.replace(pattern, replacement)\<close> for a replacement without dollar signs.\<close>

fun replace_first :: "string \<Rightarrow> string \<Rightarrow> string \<Rightarrow> string" where
  "replace_first pat new [] = (if pat = [] then new else [])"
| "replace_first pat new (c # cs) =
     (if prefix pat (c # cs) then new @ drop (length pat) (c # cs) else c # replace_first pat new cs)"

definition rename_other :: "'d env \<Rightarrow> bool \<Rightarrow> string \<Rightarrow> string \<Rightarrow> ('d, unit) ex_act" where
  "rename_other E announce newName from' =
     bnd (gets names_of) (\<lambda>names.
       if from' \<notin> set names then throw (WorkspaceErr NOT_FOUND)
       else if newName \<in> set names then throw (WorkspaceErr ALREADY_EXISTS)
       else let fromPath = joinPaths ROOT_DIR_PATH from'; newPath = joinPaths ROOT_DIR_PATH newName
         in seq (pgfs_rename E fromPath newPath)
           (seq (catch (seq (on_list (rename_workspace newName (Some from'))) (saveWorkspaces E))
               (\<lambda>e. bnd (gets names_of) (\<lambda>now.
                  seq (only_if (newName \<in> set now) (on_list (rename_workspace from' (Some newName))))
                    (seq (pgfs_rename E newPath fromPath)
                      (seq (catch (saveWorkspaces E)
                             (\<lambda>saveError. emit (Reported ''save workspaces after a failed rename''))) (throw e))))))
             (seq (emit DidChangeWorkspaceList)
               (only_if announce (bnd (gets (\<lambda>s. Option.bind (ex_workspace s) (\<lambda>w. idOf w newName))) (\<lambda>i.
                 emit_workspace (DidRenameWorkspace i)))))))"

definition renameWorkspace :: "nat \<Rightarrow> 'd env \<Rightarrow> bool \<Rightarrow> string option \<Rightarrow> string \<Rightarrow> ('d, unit) ex_act" where
  "renameWorkspace depth E announce from' given =
     (let newName = js_trim given
      in if \<not> isWorkspaceNameValid newName then throw (WorkspaceErr INVALID_NAME)
         else bnd (gets currentWorkspaceName) (\<lambda>cur.
           if from' \<noteq> None \<and> from' \<noteq> cur then rename_other E announce newName (the from')
           else bnd (lift_sum getRequiredCurrentWorkspacePath) (\<lambda>workspacePath.
             bnd (gets names_of) (\<lambda>names.
               if newName \<in> set names then throw (WorkspaceErr ALREADY_EXISTS)
               else seq (renameItem E True False workspacePath (replace_first (the cur) newName workspacePath))
                 (seq (on_list (rename_workspace newName None))
                   (seq (switchWorkspace depth E None newName) (emit_workspace (DidRenameWorkspace None))))))))"

definition deleteWorkspace :: "nat \<Rightarrow> 'd env \<Rightarrow> string option \<Rightarrow> ('d, unit) ex_act" where
  "deleteWorkspace depth E given =
     bnd (gets (\<lambda>s. (ex_workspace s, currentWorkspaceName s))) (\<lambda>(w0, cur).
       if w0 = None then throw (WorkspaceErr NOT_FOUND)
       else let name = (case given of Some n \<Rightarrow> Some n | None \<Rightarrow> cur)
         in if \<not> truthy name then throw (WorkspaceErr CURRENT_NOT_FOUND)
            else if the name \<notin> set (allNames (the w0)) then throw (WorkspaceErr NOT_FOUND)
            else seq (deleteItem depth E (joinPaths ROOT_DIR_PATH (appendSlash (the name))))
              (seq (on_list (\<lambda>w. Inr (delete_workspace (the name) w)))
                (seq (bnd (gets names_of) (\<lambda>names.
                       if name \<noteq> cur then saveWorkspaces E
                       else if names \<noteq> [] then switchWorkspace depth E None (last names)
                       else seq (on_list (\<lambda>w. Inr DEFAULT_WORKSPACES))
                         (seq (saveWorkspaces E) (emit DidSwitchWorkspace))))
                  (emit_workspace DidDeleteWorkspace))))"

section \<open>Starting\<close>

datatype init_files = TupleFiles "(string \<times> string) list" | ExplorerFiles "item_info option js_obj"

fun as_explorer_files :: "init_files \<Rightarrow> item_info option js_obj" where
  "as_explorer_files (TupleFiles fs) = convertToExplorerFiles fs"
| "as_explorer_files (ExplorerFiles fs) = fs"

definition init_done :: "('d, unit) ex_act" where
  "init_done =
     seq (bnd (gets (\<lambda>s. (ex_tabs s, currentFilePath s))) (\<lambda>(tabs, cur).
           only_if (tabs \<noteq> [] \<and> \<not> truthy cur) (openFile (hd tabs))))
       (seq (modify (\<lambda>s. s\<lparr>ex_isInitialized := True\<rparr>)) (emit DidInit))"

definition init_temporary :: "init_files \<Rightarrow> ('d, unit) ex_act" where
  "init_temporary files =
     seq (modify (\<lambda>s. (default_state (s\<lparr>ex_isTemporary := True, ex_workspace := None\<rparr>))\<lparr>ex_files := as_explorer_files files\<rparr>))
       (seq open_default init_done)"

definition init_stored :: "nat \<Rightarrow> 'd env \<Rightarrow> string option \<Rightarrow> ('d, unit) ex_act" where
  "init_stored depth E name =
     bnd (gets (\<lambda>s. ex_initializedName s \<noteq> None \<and>
         ex_initializedName s = (case name of Some n \<Rightarrow> Some n | None \<Rightarrow> currentWorkspaceName s))) (\<lambda>same.
       if same then ret ()
       else seq (modify (\<lambda>s. s\<lparr>ex_isTemporary := False\<rparr>))
         (seq (bnd (gets (\<lambda>s. ex_workspace s = None)) (\<lambda>none. only_if none (initWorkspaces E)))
           (bnd (gets (\<lambda>s. (case name of Some n \<Rightarrow> Some n | None \<Rightarrow> currentWorkspaceName s, names_of s))) (\<lambda>(wanted, names).
             seq (if truthy wanted \<and> the wanted \<in> set names then switchWorkspace depth E None (the wanted)
                  else only_if (names = []) (modify default_state))
               init_done))))"

definition init_explorer :: "nat \<Rightarrow> 'd env \<Rightarrow> init_files option \<Rightarrow> string option \<Rightarrow> ('d, unit) ex_act" where
  "init_explorer depth E files name =
     (case files of Some fs \<Rightarrow> init_temporary fs | None \<Rightarrow> init_stored depth E name)"

end
