(* ===== verification/Workspace_Correct.thy ===== *)
theory Workspace_Correct
  imports Workspace
begin

text \<open>
  The list of workspaces through any sequence of calls: no name is held twice, the current id names a
  workspace that is there, and an id follows its workspace through a rename. Ids are another matter: a uuid and the id of a
  project this browser does not hold are new, but a tutorial's id is made from its name and may be in the list
  already, under another name. Ids stay apart as long as the calls that add an entry take one no other entry has.
\<close>

section \<open>The invariant\<close>

definition ws_ok :: "workspaces \<Rightarrow> bool" where
  "ws_ok w \<longleftrightarrow>
     distinct (map we_name (wk_workspaces w)) \<and> distinct (map we_id (wk_workspaces w)) \<and>
     (\<forall>i. wk_currentId w = Some i \<longrightarrow> i \<in> we_id ` set (wk_workspaces w))"

datatype ws_call =
    Create string "string option" string
  | Add string string
  | Delete string
  | Rename string "string option"
  | SetCurrentName string

definition settle_call :: "workspaces \<Rightarrow> workspace_error + workspaces \<Rightarrow> workspaces" where
  "settle_call w r = (case r of Inl e \<Rightarrow> w | Inr w' \<Rightarrow> w')"

fun ws_step :: "(string \<Rightarrow> bool) \<Rightarrow> workspaces \<Rightarrow> ws_call \<Rightarrow> workspaces" where
  "ws_step isT w (Create name given uuid) = settle_call w (create isT uuid name given w)"
| "ws_step isT w (Add name i) = settle_call w (add name i w)"
| "ws_step isT w (Delete name) = delete_workspace name w"
| "ws_step isT w (Rename new from') = settle_call w (rename_workspace new from' w)"
| "ws_step isT w (SetCurrentName name) = setCurrentName name w"

fun call_fresh :: "(string \<Rightarrow> bool) \<Rightarrow> workspaces \<Rightarrow> ws_call \<Rightarrow> bool" where
  "call_fresh isT w (Create name given uuid) \<longleftrightarrow>
     (case given of Some g \<Rightarrow> g | None \<Rightarrow> mintId isT uuid name) \<notin> we_id ` set (wk_workspaces w)"
| "call_fresh isT w (Add name i) \<longleftrightarrow> i \<notin> we_id ` set (wk_workspaces w)"
| "call_fresh isT w c \<longleftrightarrow> True"

fun calls_fresh :: "(string \<Rightarrow> bool) \<Rightarrow> workspaces \<Rightarrow> ws_call list \<Rightarrow> bool" where
  "calls_fresh isT w [] \<longleftrightarrow> True"
| "calls_fresh isT w (c # cs) \<longleftrightarrow> call_fresh isT w c \<and> calls_fresh isT (ws_step isT w c) cs"

section \<open>Looking entries up\<close>

lemma entry_eta: "we_id e = i \<Longrightarrow> we_name e = n \<Longrightarrow> \<lparr>we_id = i, we_name = n\<rparr> = (e :: workspace_entry)"
  by simp

lemma find_unique:
  assumes "distinct (map f xs)" and "x \<in> set xs" and "f x = k"
  shows "find (\<lambda>y. f y = k) xs = Some x"
  using assms by (induction xs) (auto simp: image_iff)

lemma find_SomeD: "find P xs = Some x \<Longrightarrow> x \<in> set xs \<and> P x"
  by (induction xs) (auto split: if_splits)

lemma nameOf_iff:
  assumes "ws_ok w"
  shows "nameOf w i = Some n \<longleftrightarrow> \<lparr>we_id = i, we_name = n\<rparr> \<in> set (wk_workspaces w)"
proof
  assume "nameOf w i = Some n"
  then obtain e where "e \<in> set (wk_workspaces w)" "we_id e = i" "we_name e = n"
    by (auto simp: nameOf_def dest: find_SomeD)
  then show "\<lparr>we_id = i, we_name = n\<rparr> \<in> set (wk_workspaces w)" by (metis entry_eta)
next
  assume "\<lparr>we_id = i, we_name = n\<rparr> \<in> set (wk_workspaces w)"
  from find_unique [OF _ this, of we_id i] assms show "nameOf w i = Some n"
    by (simp add: nameOf_def ws_ok_def)
qed

lemma idOf_iff:
  assumes "ws_ok w"
  shows "idOf w n = Some i \<longleftrightarrow> \<lparr>we_id = i, we_name = n\<rparr> \<in> set (wk_workspaces w)"
proof
  assume "idOf w n = Some i"
  then obtain e where "e \<in> set (wk_workspaces w)" "we_id e = i" "we_name e = n"
    by (auto simp: idOf_def dest: find_SomeD)
  then show "\<lparr>we_id = i, we_name = n\<rparr> \<in> set (wk_workspaces w)" by (metis entry_eta)
next
  assume "\<lparr>we_id = i, we_name = n\<rparr> \<in> set (wk_workspaces w)"
  from find_unique [OF _ this, of we_name n] assms show "idOf w n = Some i"
    by (simp add: idOf_def ws_ok_def)
qed

lemma id_name_inverse: "ws_ok w \<Longrightarrow> idOf w n = Some i \<longleftrightarrow> nameOf w i = Some n"
  by (simp add: idOf_iff nameOf_iff)

lemma current_resolves:
  assumes "ws_ok w" and "wk_currentId w = Some i"
  shows "\<exists>n. currentName w = Some n \<and> idOf w n = Some i"
proof -
  from assms obtain e where "e \<in> set (wk_workspaces w)" "we_id e = i" by (auto simp: ws_ok_def)
  then have "\<lparr>we_id = i, we_name = we_name e\<rparr> \<in> set (wk_workspaces w)" by (metis entry_eta)
  then have "nameOf w i = Some (we_name e)" "idOf w (we_name e) = Some i"
    using assms by (simp_all add: nameOf_iff idOf_iff)
  then show ?thesis using assms by (simp add: currentName_def)
qed

section \<open>The calls keep it\<close>

lemma currentName_None_or: "currentName w = Some n \<Longrightarrow> \<exists>i. wk_currentId w = Some i \<and> i \<in> we_id ` set (wk_workspaces w)"
  by (auto simp: currentName_def nameOf_def split: option.splits dest: find_SomeD)

lemma ws_ok_delete: "ws_ok w \<Longrightarrow> ws_ok (delete_workspace name w)"
proof -
  assume ok: "ws_ok w"
  define w' where "w' = w\<lparr>wk_workspaces := filter (\<lambda>e. we_name e \<noteq> name) (wk_workspaces w)\<rparr>"
  have d: "distinct (map we_name (wk_workspaces w'))" "distinct (map we_id (wk_workspaces w'))"
    using ok by (auto simp: w'_def ws_ok_def distinct_map_filter)
  show ?thesis
  proof (cases "currentName w' \<in> {None, Some []}")
    case True
    then show ?thesis using d by (simp add: delete_workspace_def w'_def [symmetric] ws_ok_def)
  next
    case False
    then obtain n where "currentName w' = Some n" by auto
    from currentName_None_or [OF this] False d show ?thesis
      by (auto simp: delete_workspace_def w'_def [symmetric] ws_ok_def)
  qed
qed

lemma rename_first_ids: "rename_first P new es = Some es' \<Longrightarrow> map we_id es' = map we_id es"
  by (induction es arbitrary: es') (auto split: if_splits)

lemma rename_first_names:
  "rename_first P new es = Some es' \<Longrightarrow> distinct (map we_name es) \<Longrightarrow> new \<notin> we_name ` set es \<Longrightarrow>
     distinct (map we_name es') \<and> we_name ` set es' \<subseteq> insert new (we_name ` set es)"
proof (induction es arbitrary: es')
  case (Cons x es)
  show ?case
  proof (cases "P x")
    case True
    then show ?thesis using Cons.prems by auto
  next
    case False
    then obtain es'' where "rename_first P new es = Some es''" "es' = x # es''" using Cons.prems by auto
    then show ?thesis using Cons.IH [of es''] Cons.prems by auto
  qed
qed simp

lemma rename_first_target:
  "rename_first P new es = Some es' \<Longrightarrow> distinct (map we_id es) \<Longrightarrow>
     \<exists>e. find P es = Some e \<and> e\<lparr>we_name := new\<rparr> \<in> set es' \<and>
       (\<forall>f. we_id f \<noteq> we_id e \<longrightarrow> (f \<in> set es' \<longleftrightarrow> f \<in> set es))"
proof (induction es arbitrary: es')
  case (Cons x es)
  show ?case
  proof (cases "P x")
    case True
    then show ?thesis using Cons.prems by (auto intro!: exI [of _ x])
  next
    case False
    then obtain es'' where es'': "rename_first P new es = Some es''" "es' = x # es''"
      using Cons.prems by auto
    from Cons.IH [OF es''(1)] Cons.prems obtain e where e: "find P es = Some e" "e\<lparr>we_name := new\<rparr> \<in> set es''"
      "\<forall>f. we_id f \<noteq> we_id e \<longrightarrow> (f \<in> set es'' \<longleftrightarrow> f \<in> set es)" by auto
    then show ?thesis using False es'' by (auto intro!: exI [of _ e])
  qed
qed simp

lemma image_ids: "map we_id es' = map we_id es \<Longrightarrow> we_id ` set es' = we_id ` set es"
  by (metis list.set_map)

lemma ws_ok_rename:
  assumes "ws_ok w" and "rename_workspace new from' w = Inr w'"
  shows "ws_ok w'"
proof -
  have new: "new \<notin> we_name ` set (wk_workspaces w)"
    using assms by (auto simp: rename_workspace_def allNames_def split: if_splits)
  define P where "P = (\<lambda>e :: workspace_entry. case from' of None \<Rightarrow> Some (we_id e) = wk_currentId w | Some n \<Rightarrow> we_name e = n)"
  show ?thesis
  proof (cases "rename_first P new (wk_workspaces w)")
    case None
    then have "w' = w" using assms(2) by (simp add: rename_workspace_def P_def split: if_splits)
    then show ?thesis using assms by simp
  next
    case (Some es)
    then have "w' = w\<lparr>wk_workspaces := es\<rparr>"
      using assms(2) by (simp add: rename_workspace_def P_def split: if_splits)
    then show ?thesis
      using assms(1) rename_first_ids [OF Some] rename_first_names [OF Some] new
        image_ids [OF rename_first_ids [OF Some]]
      by (simp add: ws_ok_def)
  qed
qed

lemma ws_ok_step: "ws_ok w \<Longrightarrow> call_fresh isT w c \<Longrightarrow> ws_ok (ws_step isT w c)"
proof (cases c)
  case (Rename new from')
  then show ?thesis if "ws_ok w"
    using that ws_ok_rename by (auto simp: settle_call_def split: sum.splits)
next
  case (SetCurrentName name)
  then show ?thesis if "ws_ok w"
    using that by (auto simp: setCurrentName_def ws_ok_def split: option.splits dest: find_SomeD)
next
  case (Delete name)
  then show ?thesis if "ws_ok w" using that by (simp add: ws_ok_delete)
qed (auto simp: settle_call_def create_def add_def Let_def ws_ok_def allNames_def split: sum.splits if_splits)

text \<open>A machine that skips a call which would take an id already in the list; on the others it is the calls.\<close>

definition guarded_step :: "(string \<Rightarrow> bool) \<Rightarrow> workspaces \<Rightarrow> ws_call \<Rightarrow> workspaces" where
  "guarded_step isT w c = (if call_fresh isT w c then ws_step isT w c else w)"

interpretation spaces: machine DEFAULT_WORKSPACES "guarded_step isT" ws_ok for isT
proof unfold_locales
  show "ws_ok DEFAULT_WORKSPACES" by (simp add: ws_ok_def DEFAULT_WORKSPACES_def)
qed (simp add: guarded_step_def ws_ok_step)

lemma guarded_run: "calls_fresh isT w cs \<Longrightarrow> foldl (guarded_step isT) w cs = foldl (ws_step isT) w cs"
  by (induction cs arbitrary: w) (auto simp: guarded_step_def)

section \<open>What the list promises\<close>

lemma rename_follows:
  assumes "ws_ok w" and "idOf w n = Some i" and "rename_workspace new (Some n) w = Inr w'"
  shows "nameOf w' i = Some new" "\<And>j. j \<noteq> i \<Longrightarrow> nameOf w' j = nameOf w j" "wk_currentId w' = wk_currentId w"
proof -
  obtain es where es: "rename_first (\<lambda>e. we_name e = n) new (wk_workspaces w) = Some es" "w' = w\<lparr>wk_workspaces := es\<rparr>"
    using assms(3) by (auto simp: rename_workspace_def split: if_splits option.splits)
  have ok': "ws_ok w'" by (rule ws_ok_rename [OF assms(1,3)])
  from rename_first_target [OF es(1)] assms(1) obtain e where
    e: "find (\<lambda>e. we_name e = n) (wk_workspaces w) = Some e" "e\<lparr>we_name := new\<rparr> \<in> set es"
      "\<forall>f. we_id f \<noteq> we_id e \<longrightarrow> (f \<in> set es \<longleftrightarrow> f \<in> set (wk_workspaces w))"
    by (auto simp: ws_ok_def)
  have i: "we_id e = i" using assms(2) e(1) by (simp add: idOf_def)
  have "e\<lparr>we_name := new\<rparr> = \<lparr>we_id = i, we_name = new\<rparr>" using i by (cases e) simp
  then have "\<lparr>we_id = i, we_name = new\<rparr> \<in> set (wk_workspaces w')" using e(2) es(2) by simp
  then show "nameOf w' i = Some new" by (simp add: nameOf_iff [OF ok'])
  show "nameOf w' j = nameOf w j" if "j \<noteq> i" for j
  proof -
    have "nameOf w' j = Some m \<longleftrightarrow> nameOf w j = Some m" for m
      unfolding nameOf_iff [OF ok'] nameOf_iff [OF assms(1)] using e(3) i that es(2) by simp
    then show ?thesis by (metis not_Some_eq)
  qed
  show "wk_currentId w' = wk_currentId w" by (simp add: es(2))
qed

lemma migrated_names:
  "map we_name (wk_workspaces (migrate isT uuid (LegacyShape l))) =
     (case lw_allNames l of None \<Rightarrow> [] | Some ns \<Rightarrow> ns)"
proof -
  have "map we_name (map (\<lambda>(k, n). \<lparr>we_id = mintId isT (uuid k) n, we_name = n\<rparr>) (enumerate m ns)) = ns" for m ns
    by (induction ns arbitrary: m) simp_all
  then show ?thesis by (simp add: migrate_def Let_def split: option.split)
qed

text \<open>The current workspace keeps its name through the migration of the config.\<close>

lemma migrated_current:
  assumes "lw_allNames l = Some ns" and "lw_currentName l = Some c" and "c \<in> set ns"
    and "distinct (map we_id (wk_workspaces (migrate isT uuid (LegacyShape l))))"
  shows "currentName (migrate isT uuid (LegacyShape l)) = Some c"
proof -
  let ?w = "migrate isT uuid (LegacyShape l)"
  have "c \<in> set (map we_name (wk_workspaces ?w))" using assms by (simp add: migrated_names)
  then have "find (\<lambda>e. we_name e = c) (wk_workspaces ?w) \<noteq> None" by (auto simp: find_None_iff)
  then obtain e where e: "find (\<lambda>e. we_name e = c) (wk_workspaces ?w) = Some e" by blast
  then have "wk_currentId ?w = Some (we_id e)" using assms by (simp add: migrate_def Let_def)
  moreover have "find (\<lambda>x. we_id x = we_id e) (wk_workspaces ?w) = Some e"
    using find_unique [OF assms(4)] find_SomeD [OF e] by simp
  ultimately show ?thesis using find_SomeD [OF e] by (simp add: currentName_def nameOf_def)
qed

section \<open>Whatever ids are taken\<close>

definition names_ok :: "workspaces \<Rightarrow> bool" where
  "names_ok w \<longleftrightarrow>
     distinct (allNames w) \<and> (\<forall>i. wk_currentId w = Some i \<longrightarrow> i \<in> we_id ` set (wk_workspaces w))"

lemma names_ok_rename:
  assumes "names_ok w" and "rename_workspace new from' w = Inr w'"
  shows "names_ok w'"
proof -
  define P where "P = (\<lambda>e :: workspace_entry. case from' of None \<Rightarrow> Some (we_id e) = wk_currentId w | Some n \<Rightarrow> we_name e = n)"
  have new: "new \<notin> we_name ` set (wk_workspaces w)"
    using assms(2) by (auto simp: rename_workspace_def allNames_def split: if_splits)
  show ?thesis
  proof (cases "rename_first P new (wk_workspaces w)")
    case None
    then show ?thesis using assms by (auto simp: rename_workspace_def P_def split: if_splits)
  next
    case (Some es)
    then have "w' = w\<lparr>wk_workspaces := es\<rparr>" using assms(2) by (simp add: rename_workspace_def P_def split: if_splits)
    then show ?thesis
      using assms(1) rename_first_names [OF Some _ new] image_ids [OF rename_first_ids [OF Some]]
      by (simp add: names_ok_def allNames_def)
  qed
qed

lemma names_ok_delete: "names_ok w \<Longrightarrow> names_ok (delete_workspace name w)"
proof -
  assume ok: "names_ok w"
  define w' where "w' = w\<lparr>wk_workspaces := filter (\<lambda>e. we_name e \<noteq> name) (wk_workspaces w)\<rparr>"
  have d: "distinct (allNames w')" using ok by (auto simp: w'_def names_ok_def allNames_def distinct_map_filter)
  show ?thesis
  proof (cases "currentName w' \<in> {None, Some []}")
    case True
    then show ?thesis using d by (simp add: delete_workspace_def w'_def [symmetric] names_ok_def allNames_def)
  next
    case False
    then obtain n where "currentName w' = Some n" by auto
    from currentName_None_or [OF this] False d show ?thesis
      by (auto simp: delete_workspace_def w'_def [symmetric] names_ok_def)
  qed
qed

lemma names_ok_step: "names_ok w \<Longrightarrow> names_ok (ws_step isT w c)"
proof (cases c)
  case (Rename new from')
  then show ?thesis if "names_ok w" using that names_ok_rename by (auto simp: settle_call_def split: sum.splits)
next
  case (SetCurrentName name)
  then show ?thesis if "names_ok w"
    using that by (auto simp: setCurrentName_def names_ok_def allNames_def split: option.splits dest: find_SomeD)
next
  case (Delete name)
  then show ?thesis if "names_ok w" using that by (simp add: names_ok_delete)
qed (auto simp: settle_call_def create_def add_def Let_def names_ok_def allNames_def split: sum.splits if_splits)

interpretation lists: machine DEFAULT_WORKSPACES "ws_step isT" names_ok for isT
proof unfold_locales
  show "names_ok DEFAULT_WORKSPACES" by (simp add: names_ok_def DEFAULT_WORKSPACES_def allNames_def)
qed (rule names_ok_step)

lemma idOf_entry:
  assumes "names_ok w"
  shows "idOf w n = Some i \<longleftrightarrow> \<lparr>we_id = i, we_name = n\<rparr> \<in> set (wk_workspaces w)"
proof
  assume "idOf w n = Some i"
  then show "\<lparr>we_id = i, we_name = n\<rparr> \<in> set (wk_workspaces w)"
    by (auto simp: idOf_def dest!: find_SomeD) (metis entry_eta)
next
  assume "\<lparr>we_id = i, we_name = n\<rparr> \<in> set (wk_workspaces w)"
  from find_unique [OF _ this, of we_name n] assms show "idOf w n = Some i"
    by (simp add: idOf_def names_ok_def allNames_def)
qed

lemma nameOf_has_id:
  assumes "names_ok w" and "nameOf w i = Some n"
  shows "idOf w n = Some i"
proof -
  obtain e where "e \<in> set (wk_workspaces w)" "we_id e = i" "we_name e = n"
    using assms(2) by (auto simp: nameOf_def dest: find_SomeD)
  then show ?thesis unfolding idOf_entry [OF assms(1)] by (metis entry_eta)
qed

lemma rename_first_entries:
  "rename_first (\<lambda>e. we_name e = n) new es = Some es' \<Longrightarrow> distinct (map we_name es) \<Longrightarrow>
     \<exists>e\<in>set es. we_name e = n \<and> set es' = insert (e\<lparr>we_name := new\<rparr>) (set es - {e})"
proof (induction es arbitrary: es')
  case (Cons x es)
  show ?case
  proof (cases "we_name x = n")
    case True
    then have "x \<notin> set es" using Cons.prems(2) by auto
    then show ?thesis using Cons.prems True by auto
  next
    case False
    then obtain es'' where "rename_first (\<lambda>e. we_name e = n) new es = Some es''" "es' = x # es''" using Cons.prems by auto
    then show ?thesis using Cons.IH [of es''] Cons.prems(2) False by auto
  qed
qed simp

lemma rename_moves_id:
  assumes "names_ok w" and "idOf w n = Some i" and "rename_workspace new (Some n) w = Inr w'"
  shows "idOf w' = (idOf w)(n := None, new \<mapsto> i)" "wk_currentId w' = wk_currentId w"
proof -
  have new: "new \<notin> set (allNames w)" using assms(3) by (simp add: rename_workspace_def split: if_splits)
  obtain es where es: "rename_first (\<lambda>e. we_name e = n) new (wk_workspaces w) = Some es" "w' = w\<lparr>wk_workspaces := es\<rparr>"
    using assms(3) by (auto simp: rename_workspace_def split: if_splits option.splits)
  then show "wk_currentId w' = wk_currentId w" by simp
  obtain e where e: "e \<in> set (wk_workspaces w)" "we_name e = n" "set es = insert (e\<lparr>we_name := new\<rparr>) (set (wk_workspaces w) - {e})"
    using rename_first_entries [OF es(1)] assms(1) by (auto simp: names_ok_def allNames_def)
  have only: "f = e" if "f \<in> set (wk_workspaces w)" "we_name f = n" for f
    using assms(1) that e(1,2) by (auto simp: names_ok_def allNames_def distinct_map inj_on_def)
  have "e = \<lparr>we_id = i, we_name = n\<rparr>" using only assms(2) unfolding idOf_entry [OF assms(1)] by force
  then have set_es: "set es = insert \<lparr>we_id = i, we_name = new\<rparr> (set (wk_workspaces w) - {\<lparr>we_id = i, we_name = n\<rparr>})"
    using e(3) by simp
  have ok': "names_ok w'" by (rule names_ok_rename [OF assms(1,3)])
  have entry: "idOf w' m = Some j \<longleftrightarrow> j = i \<and> m = new \<or>
      \<lparr>we_id = j, we_name = m\<rparr> \<in> set (wk_workspaces w) \<and> \<lparr>we_id = j, we_name = m\<rparr> \<noteq> \<lparr>we_id = i, we_name = n\<rparr>" for m j
    unfolding idOf_entry [OF ok'] by (simp add: es(2) set_es)
  have "idOf w' new = Some i" by (simp add: entry)
  moreover have "idOf w' n = None" if "n \<noteq> new"
  proof -
    have "idOf w' n \<noteq> Some j" for j
      unfolding entry using that only [of "\<lparr>we_id = j, we_name = n\<rparr>"] \<open>e = _\<close> by auto
    then show ?thesis by (cases "idOf w' n") auto
  qed
  moreover have "idOf w' m = idOf w m" if "m \<noteq> new" "m \<noteq> n" for m
  proof -
    have "idOf w' m = Some j \<longleftrightarrow> idOf w m = Some j" for j
      unfolding entry idOf_entry [OF assms(1)] using that by simp
    then show ?thesis by (metis not_Some_eq)
  qed
  ultimately show "idOf w' = (idOf w)(n := None, new \<mapsto> i)" by (auto simp: fun_eq_iff)
qed

text \<open>
  C27: through every sequence of creates, imports, deletes, renames and switches, whatever ids they take: no two workspaces have one
  name, the name found for an id has that id, and the current id, if there is one, belongs to a workspace that is there
  and is found by the current name. From the state reached, a rename of a workspace that is accepted moves its id to the new name,
  leaves every other name with its id, and does not change which id is current. If moreover every entry that was added took an
  id no entry had, then a name leads to an id exactly when the id leads back to the name. (Ids made
  from a tutorial's name need not be new, see \<open>tutorial_id_twice\<close>.)
\<close>

theorem workspace_ids_follow:
  fixes isT :: "string \<Rightarrow> bool" and cs :: "ws_call list"
  defines "w \<equiv> foldl (ws_step isT) DEFAULT_WORKSPACES cs"
  shows "distinct (allNames w) \<and> (\<forall>n i. nameOf w i = Some n \<longrightarrow> idOf w n = Some i) \<and>
    (wk_currentId w = None \<or> (\<exists>n. currentName w = Some n \<and> idOf w n = wk_currentId w)) \<and>
    (\<forall>n i new w'. idOf w n = Some i \<and> rename_workspace new (Some n) w = Inr w' \<longrightarrow>
       idOf w' = (idOf w)(n := None, new \<mapsto> i) \<and> wk_currentId w' = wk_currentId w) \<and>
    (calls_fresh isT DEFAULT_WORKSPACES cs \<longrightarrow> (\<forall>n i. idOf w n = Some i \<longleftrightarrow> nameOf w i = Some n))"
proof (intro conjI allI impI)
  have ok: "names_ok w" unfolding w_def by (rule lists.inv_run)
  then show "distinct (allNames w)" by (simp add: names_ok_def)
  show "idOf w n = Some i" if "nameOf w i = Some n" for n i by (rule nameOf_has_id [OF ok that])
  show "wk_currentId w = None \<or> (\<exists>n. currentName w = Some n \<and> idOf w n = wk_currentId w)"
  proof (cases "wk_currentId w")
    case (Some i)
    then have "i \<in> we_id ` set (wk_workspaces w)" using ok by (simp add: names_ok_def)
    then have "find (\<lambda>e. we_id e = i) (wk_workspaces w) \<noteq> None" by (auto simp: find_None_iff)
    then obtain n where "nameOf w i = Some n" by (auto simp: nameOf_def)
    then show ?thesis using nameOf_has_id [OF ok] Some by (auto simp: currentName_def)
  qed simp
  show "idOf w' = (idOf w)(n := None, new \<mapsto> i)" "wk_currentId w' = wk_currentId w"
    if "idOf w n = Some i \<and> rename_workspace new (Some n) w = Inr w'" for n i new w'
    using rename_moves_id [OF ok] that by blast+
  show "idOf w n = Some i \<longleftrightarrow> nameOf w i = Some n" if "calls_fresh isT DEFAULT_WORKSPACES cs" for n i
    using id_name_inverse [of w n i] spaces.inv_run [of isT cs] guarded_run [OF that] by (simp add: w_def)
qed

text \<open>A tutorial is started, its workspace renamed, and the tutorial started again.\<close>

theorem workspace_ids_follow_witness:
  "nameOf (foldl (ws_step (\<lambda>n. n = ''Hello Anchor'')) DEFAULT_WORKSPACES
     [Create ''Hello Anchor'' None ''u1'', Create ''app'' None ''u2'', Rename ''dapp'' None]) ''u2'' = Some ''dapp'' \<and>
   idOf (foldl (ws_step (\<lambda>n. n = ''Hello Anchor'')) DEFAULT_WORKSPACES
     [Create ''Hello Anchor'' None ''u1'', Rename ''foo'' None, Create ''Hello Anchor'' None ''u2'']) ''foo'' = Some ''tut:hello-anchor''"
proof
  let ?cs = "[Create ''Hello Anchor'' None ''u1'', Create ''app'' None ''u2'', Rename ''dapp'' None]"
  let ?ds = "[Create ''Hello Anchor'' None ''u1'', Rename ''foo'' None, Create ''Hello Anchor'' None ''u2'']"
  have fresh: "calls_fresh (\<lambda>n. n = ''Hello Anchor'') DEFAULT_WORKSPACES ?cs" by code_simp
  have "idOf (foldl (ws_step (\<lambda>n. n = ''Hello Anchor'')) DEFAULT_WORKSPACES ?cs) ''dapp'' = Some ''u2''" by code_simp
  then show "nameOf (foldl (ws_step (\<lambda>n. n = ''Hello Anchor'')) DEFAULT_WORKSPACES ?cs) ''u2'' = Some ''dapp''"
    using workspace_ids_follow [of "\<lambda>n. n = ''Hello Anchor''" ?cs] fresh by blast
  have "nameOf (foldl (ws_step (\<lambda>n. n = ''Hello Anchor'')) DEFAULT_WORKSPACES ?ds) ''tut:hello-anchor'' = Some ''foo''" by code_simp
  then show "idOf (foldl (ws_step (\<lambda>n. n = ''Hello Anchor'')) DEFAULT_WORKSPACES ?ds) ''foo'' = Some ''tut:hello-anchor''"
    using workspace_ids_follow [of "\<lambda>n. n = ''Hello Anchor''" ?ds] by blast
qed

lemma tutorial_id_twice:
  "map we_id (wk_workspaces (foldl (ws_step (\<lambda>n. n = ''Hello Anchor'')) DEFAULT_WORKSPACES
     [Create ''Hello Anchor'' None ''u1'', Rename ''foo'' None, Create ''Hello Anchor'' None ''u2''])) =
   [''tut:hello-anchor'', ''tut:hello-anchor'']"
  by code_simp

end
