(* ===== verification/Explorer_Correct.thy ===== *)
theory Explorer_Correct
  imports Explorer_Spaces Workspace_Correct
begin

text \<open>
  The explorer through any calls, on a volume that may fail at any of them.
\<close>

section \<open>Arrays\<close>

lemma index_from_bounds: "index_from k xs x = -1 \<or> (k \<le> index_from k xs x \<and> index_from k xs x < k + int (length xs))"
proof (induction xs arbitrary: k)
  case (Cons a xs)
  show ?case using Cons.IH [of "k + 1"] by auto
qed simp

lemma index_from_iff: "0 \<le> k \<Longrightarrow> index_from k xs x = -1 \<longleftrightarrow> x \<notin> set xs"
  by (induction xs arbitrary: k) auto

lemma index_from_nth:
  "x \<in> set xs \<Longrightarrow> \<exists>i < length xs. index_from k xs x = k + int i \<and> xs ! i = x \<and> x \<notin> set (take i xs)"
proof (induction xs arbitrary: k)
  case (Cons y ys)
  show ?case
  proof (cases "y = x")
    case False
    then obtain i where "i < length ys" "index_from (k + 1) ys x = k + 1 + int i" "ys ! i = x" "x \<notin> set (take i ys)"
      using Cons by fastforce
    then show ?thesis using False by (intro exI [of _ "Suc i"]) simp
  qed auto
qed simp

lemma js_index_bounds: "-1 \<le> js_index xs x" "js_index xs x < int (length xs)"
  using index_from_bounds [of 0 xs x] by (auto simp: js_index_def)

lemma js_index_missing [simp]: "js_index xs x = -1 \<longleftrightarrow> x \<notin> set xs"
  by (simp add: js_index_def index_from_iff)

lemma js_index_nth:
  assumes "x \<in> set xs"
  obtains i where "i < length xs" "js_index xs x = int i" "xs ! i = x" "x \<notin> set (take i xs)"
  using index_from_nth [OF assms, of 0] by (auto simp: js_index_def)

lemma js_get_index [simp]: "x \<in> set xs \<Longrightarrow> js_get xs (js_index xs x) = Some x"
  by (erule js_index_nth) (simp add: js_get_def)

lemma js_get_SomeD: "js_get xs i = Some x \<Longrightarrow> x \<in> set xs \<and> 0 \<le> i \<and> i < int (length xs) \<and> xs ! nat i = x"
  by (auto simp: js_get_def split: if_splits)

lemma js_at_SomeD: "js_at xs i = Some x \<Longrightarrow> x \<in> set xs"
  by (auto simp: js_at_def dest: js_get_SomeD)

lemma set_without_index: "set (without_index k xs) \<subseteq> set xs"
  by (auto simp: without_index_def dest: in_set_takeD in_set_dropD)

lemma set_splice_one: "set (splice_one xs i) \<subseteq> set xs"
  by (simp add: splice_one_def set_without_index)

section \<open>Full paths\<close>

abbreviation is_full :: "string \<Rightarrow> bool" where
  "is_full p \<equiv> prefix ''/'' p"

lemma currentPath_full: "getCurrentWorkspacePath s = Some p \<Longrightarrow> is_full p"
  by (auto simp: getCurrentWorkspacePath_def joinPaths_root split: if_splits)

lemma same_list_path: "ex_workspace t = ex_workspace s \<Longrightarrow> getCurrentWorkspacePath t = getCurrentWorkspacePath s"
  by (simp only: getCurrentWorkspacePath_def currentWorkspaceName_def)

lemma is_full_appendSlash: "is_full p \<Longrightarrow> is_full (appendSlash p)"
  by (auto simp: appendSlash_def)

lemma is_full_joinPaths: "is_full r \<Longrightarrow> is_full (joinPaths r p)"
  using is_full_appendSlash [of r] by (simp add: joinPaths_def prefix_def) (metis append.assoc append_Cons)

lemma convertToFullPath_full: "convertToFullPath s path = Inr p \<Longrightarrow> is_full p"
  by (auto simp: convertToFullPath_def getProjectRootPath_def getRequiredCurrentWorkspacePath_def ROOT_DIR_PATH_def
      is_full_joinPaths split: if_splits option.splits sum.splits dest: currentPath_full)

lemma convertToFullPath_id [simp]: "is_full p \<Longrightarrow> convertToFullPath s p = Inr p"
  by (simp add: convertToFullPath_def ROOT_DIR_PATH_def)

lemma getCanonicalPath_full: "getCanonicalPath s path = Inr p \<Longrightarrow> is_full p"
  by (auto simp: getCanonicalPath_def is_full_appendSlash dest: convertToFullPath_full split: sum.splits if_splits)

lemma foldl_slash_prefix: "\<exists>r. foldl (\<lambda>acc m. acc @ [SLASH] @ m) n ns = n @ r \<and> (ns \<noteq> [] \<longrightarrow> is_full r)"
proof (induction ns arbitrary: n)
  case (Cons m ns)
  obtain r where "foldl (\<lambda>acc m. acc @ [SLASH] @ m) (n @ [SLASH] @ m) ns = (n @ [SLASH] @ m) @ r"
    using Cons.IH [of "n @ [SLASH] @ m"] by blast
  then show ?case by (intro exI [of _ "[SLASH] @ m @ r"]) simp
qed simp

lemma getParentPath_full:
  assumes "is_full p" and "getParentPathFromPath p = Some q"
  shows "is_full q"
proof -
  obtain p' where p: "p = SLASH # p'" using assms(1) by (cases p) auto
  define pad where "pad = (if getItemTypeFromPath p = IsFolder \<and> suffix ''/'' p then 2 else 1 :: nat)"
  let ?ns = "without_index (length (split_slash p) - pad) (split_slash p)"
  have q: "map_option appendSlash (reduce_slash ?ns) = Some q"
    using assms(2) by (simp add: getParentPathFromPath_def Let_def pad_def)
  show ?thesis
  proof (cases "length (split_slash p) - pad")
    case 0
    then have "suffix ''/'' p" "length (split_slash p) = 2"
      using p by (auto simp: pad_def length_split_slash split: if_splits)
    then have "SLASH \<notin> set p'" "last p = SLASH"
      using p by (auto simp: length_split_slash suffix_slash_iff filter_empty_conv)
    then have "p = ''/''" using p by (cases p' rule: rev_cases) auto
    then show ?thesis using assms(2) by (simp add: getParentPathFromPath_def Let_def without_index_def getItemTypeFromPath_def
          getItemTypeFromName_def getItemNameFromPath_def appendSlash_def suffix_slash_iff)
  next
    case (Suc k)
    then obtain rest where "?ns = [] # rest" by (simp add: p without_index_def)
    then obtain r where "q = appendSlash r" "rest \<noteq> [] \<longrightarrow> is_full r" "rest = [] \<longrightarrow> r = []"
      using q foldl_slash_prefix [of "[]" rest] by (cases rest) auto
    then show ?thesis by (cases rest) (auto simp: is_full_appendSlash appendSlash_def suffix_slash_iff)
  qed
qed

section \<open>What leaves the view alone\<close>

text \<open>
  The view is what the person sees: the files, the tabs and the current file. A predicate on it is kept by everything
  that works on the volume, the list of workspaces and the listeners only.
\<close>

definition view :: "'d explorer \<Rightarrow> item_info option js_obj \<times> string list \<times> int" where
  "view s = (ex_files s, ex_tabs s, ex_currentIndex s)"

abbreviation still :: "('d, 'a) ex_act \<Rightarrow> bool" where
  "still m \<equiv> leaves view m"

text \<open>A part of the state that the volume's calls and the listeners do not touch.\<close>

definition aside :: "('d explorer \<Rightarrow> 'v) \<Rightarrow> bool" where
  "aside pr \<longleftrightarrow>
     (\<forall>s d. pr (s\<lparr>ex_disk := d\<rparr>) = pr s) \<and> (\<forall>s es. pr (s\<lparr>ex_events := es\<rparr>) = pr s) \<and>
     (\<forall>s fs. pr (s\<lparr>ex_flushed := fs\<rparr>) = pr s) \<and> (\<forall>s l. pr (s\<lparr>ex_savedWorkspaces := l\<rparr>) = pr s)"

lemma aside_view [leaves_rules]: "aside view"
  and aside_list [leaves_rules]: "aside ex_workspace"
  by (simp_all add: aside_def view_def)

lemma leaves_disk [leaves_rules]: "aside pr \<Longrightarrow> leaves pr (disk f)" "aside pr \<Longrightarrow> leaves pr (peek g)" "aside pr \<Longrightarrow> leaves pr (emit ev)" "aside pr \<Longrightarrow> leaves pr (emit_workspace ev)"
  by (auto simp: leaves_def disk_def peek_def emit_def emit_workspace_def act_defs aside_def
      split: prod.splits option.splits sum.splits)

lemma leaves_full [leaves_rules]: "aside pr \<Longrightarrow> leaves pr (full p)" "aside pr \<Longrightarrow> leaves pr (parent q)"
  by (auto simp: full_def parent_def intro!: leaves_rules)

lemma leaves_pgfs_read [leaves_rules]:
  "aside pr \<Longrightarrow> leaves pr (pgfs_getMetadata E p)" "aside pr \<Longrightarrow> leaves pr (pgfs_exists E p)" "aside pr \<Longrightarrow> leaves pr (pgfs_readToString E p)"
  "aside pr \<Longrightarrow> leaves pr (pgfs_readToJSON E parse p)" "aside pr \<Longrightarrow> leaves pr (pgfs_readToJSONOrDefault E parse p x)" "aside pr \<Longrightarrow> leaves pr (pgfs_readDir E p)"
  by (auto simp: pgfs_getMetadata_def pgfs_exists_def pgfs_readToString_def pgfs_readToJSON_def
      pgfs_readToJSONOrDefault_def pgfs_readDir_def intro!: leaves_rules)

lemma leaves_make_dirs [leaves_rules]: "aside pr \<Longrightarrow> leaves pr (make_dirs E cur fs)"
  by (induction fs arbitrary: cur) (auto intro!: leaves_rules)

lemma leaves_pgfs_dir [leaves_rules]: "aside pr \<Longrightarrow> leaves pr (pgfs_createDir E b p)" "aside pr \<Longrightarrow> leaves pr (pgfs_rename E p q)"
  "aside pr \<Longrightarrow> leaves pr (pgfs_removeFile E p)" "aside pr \<Longrightarrow> leaves pr (pgfs_flush E)"
  by (auto simp: pgfs_createDir_def pgfs_rename_def pgfs_removeFile_def pgfs_flush_def intro!: leaves_rules)

lemma leaves_pgfs_writeFile [leaves_rules]: "aside pr \<Longrightarrow> leaves pr (pgfs_writeFile E b p c)"
  by (auto simp: pgfs_writeFile_def intro!: leaves_rules)

lemma leaves_rmdir_rec [leaves_rules]: "aside pr \<Longrightarrow> leaves pr (rmdir_rec n E dir p)"
  by (induction n arbitrary: dir p) (auto simp: Let_def intro!: leaves_rules)

lemma leaves_removeDir [leaves_rules]: "aside pr \<Longrightarrow> leaves pr (pgfs_removeDir n E b p)"
  by (auto simp: pgfs_removeDir_def intro!: leaves_rules)

lemma leaves_workspace_file [leaves_rules]: "aside pr \<Longrightarrow> leaves pr (writeWorkspaceFile E p c)" "aside pr \<Longrightarrow> leaves pr (forgetFlushed d)"
  by (auto simp: writeWorkspaceFile_def workspace_write_def forgetFlushed_def intro!: leaves_rules leaves_modify)
    (simp_all add: aside_def)

lemma leaves_saveMeta [leaves_rules]: "aside pr \<Longrightarrow> leaves pr (saveMeta E)"
  by (auto simp: saveMeta_def relative_meta_def intro!: leaves_rules)

lemma leaves_saveTree [leaves_rules]: "aside pr \<Longrightarrow> leaves pr (saveTree E what)"
  by (auto simp: saveTree_def intro!: leaves_rules)

lemma leaves_saveWorkspaces [leaves_rules]: "aside pr \<Longrightarrow> leaves pr (saveWorkspaces E)"
  by (auto simp: saveWorkspaces_def aside_def intro!: leaves_rules leaves_modify)

lemma leaves_announce_open [leaves_rules]: "aside pr \<Longrightarrow> leaves pr announce_open"
  by (auto simp: announce_open_def intro!: leaves_rules)

lemma leaves_create_on_disk [leaves_rules]: "aside pr \<Longrightarrow> leaves pr (create_on_disk E p c b)"
  by (auto simp: create_on_disk_def intro!: leaves_rules)

lemma leaves_delete_on_disk [leaves_rules]: "aside pr \<Longrightarrow> leaves pr (delete_on_disk n E p)"
  by (auto simp: delete_on_disk_def intro!: leaves_rules)

lemma leaves_rename_checks [leaves_rules]: "aside pr \<Longrightarrow> leaves pr (rename_checks a b p q)"
  by (auto simp: rename_checks_def intro!: leaves_rules)

lemma leaves_writeAllFromState [leaves_rules]: "aside pr \<Longrightarrow> leaves pr (writeAllFromState E)"
  by (auto simp: writeAllFromState_def intro!: leaves_rules)

lemma leaves_replaceWorkspaceFiles [leaves_rules]: "aside pr \<Longrightarrow> leaves pr (replaceWorkspaceFiles n E name files)"
  by (auto simp: replaceWorkspaceFiles_def Let_def intro!: leaves_rules split: stored_meta.split)

text \<open>Those that change the list of workspaces still leave the view alone.\<close>

lemma still_on_list [leaves_rules]: "still (on_list f)"
  by (auto simp: leaves_def on_list_def view_def split: option.splits sum.splits)

lemma still_list_create [leaves_rules]: "still (list_create E name g)"
  by (auto simp: list_create_def view_def intro!: leaves_rules leaves_modify)

lemma still_migrate_config [leaves_rules]: "still (migrate_config E st)"
  by (auto simp: migrate_config_def Let_def view_def intro!: leaves_rules leaves_modify)

lemma still_initWorkspaces [leaves_rules]: "still (initWorkspaces E)"
  by (auto simp: initWorkspaces_def getWorkspaces_def view_def intro!: leaves_rules leaves_modify)

lemma still_recover [leaves_rules]: "still (recover E)"
  by (auto simp: recover_def drop_unreadable_def view_def intro!: leaves_rules leaves_modify)

lemma still_importWorkspace: "still (importWorkspace E name i files)"
  by (auto simp: importWorkspace_def intro!: leaves_rules)

lemma still_rename_other: "still (rename_other E b new from')"
  by (auto simp: rename_other_def Let_def intro!: leaves_rules)

lemmas still_disk = leaves_disk [OF aside_view]
  and still_pgfs_read = leaves_pgfs_read [OF aside_view]
  and still_pgfs_dir = leaves_pgfs_dir [OF aside_view]
  and still_pgfs_writeFile = leaves_pgfs_writeFile [OF aside_view]
  and still_saveMeta = leaves_saveMeta [OF aside_view]
  and still_saveTree = leaves_saveTree [OF aside_view]
  and still_saveWorkspaces = leaves_saveWorkspaces [OF aside_view]
  and still_announce_open = leaves_announce_open [OF aside_view]
  and still_create_on_disk = leaves_create_on_disk [OF aside_view]
  and still_delete_on_disk = leaves_delete_on_disk [OF aside_view]
  and still_rename_checks = leaves_rename_checks [OF aside_view]
  and still_writeAllFromState = leaves_writeAllFromState [OF aside_view]

section \<open>The current file is a tab\<close>

definition ex_ok :: "'d explorer \<Rightarrow> bool" where
  "ex_ok s \<longleftrightarrow>
     -1 \<le> ex_currentIndex s \<and> ex_currentIndex s < int (length (ex_tabs s)) \<and>
     list_all is_full (ex_tabs s) \<and> list_all is_full (obj_keys (ex_files s)) \<and> obj_ok (ex_files s)"

lemma still_ok: "still m \<Longrightarrow> keeps ex_ok m"
  by (rule leaves_keeps) (auto simp: ex_ok_def view_def)

lemma keeps_full: "(\<And>p. is_full p \<Longrightarrow> keeps P (f p)) \<Longrightarrow> keeps P (bnd (full path) f)"
  by (rule keeps_bnd_gives [where Q = is_full])
    (auto simp: full_def keeps_simple gives_def lift_sum_def convertToFullPath_full split: sum.splits)

lemma keeps_parent:
  "is_full p \<Longrightarrow> (\<And>q. is_full q \<Longrightarrow> keeps P (f q)) \<Longrightarrow> keeps P (bnd (parent p) f)"
  by (rule keeps_bnd_gives [where Q = is_full])
    (auto simp: parent_def keeps_simple gives_def act_defs getParentPath_full split: option.split)

lemma obj_keys_del: "obj_keys (obj_del k obj) = filter (\<lambda>k'. k' \<noteq> k) (obj_keys obj)"
  by (induction obj) (auto simp: obj_del_def obj_keys_def)

lemma obj_ok_del: "obj_ok obj \<Longrightarrow> obj_ok (obj_del k obj)"
  by (simp add: obj_del_def distinct_map_filter)

lemma set_keys_obj_set: "set (obj_keys (obj_set k v obj)) = insert k (set (obj_keys obj))"
  by (auto simp: set_obj_keys)

lemma map_of_obj_del: "map_of (obj_del k obj) = (map_of obj)(k := None)"
  by (induction obj) (auto simp: obj_del_def fun_eq_iff)

lemma ok_put_file: "ex_ok s \<Longrightarrow> is_full p \<Longrightarrow> ex_ok (put_file p i s)"
  by (auto simp: ex_ok_def put_file_def list_all_iff set_keys_obj_set)

lemma ok_del_file: "ex_ok s \<Longrightarrow> ex_ok (s\<lparr>ex_files := obj_del p (ex_files s)\<rparr>)"
  by (auto simp: ex_ok_def list_all_iff obj_keys_del obj_ok_del)

lemma ok_push_tab: "ex_ok s \<Longrightarrow> is_full p \<Longrightarrow> ex_ok (if p \<in> set (ex_tabs s) then s else s\<lparr>ex_tabs := ex_tabs s @ [p]\<rparr>)"
  by (auto simp: ex_ok_def)

lemma ok_point: "ex_ok s \<Longrightarrow> ex_ok (s\<lparr>ex_currentIndex := js_index (ex_tabs s) p\<rparr>)"
  by (simp add: ex_ok_def js_index_bounds)

lemma ok_drop_tab: "ex_ok s \<Longrightarrow> ex_ok (drop_tab p s)"
  using set_splice_one [of "ex_tabs s" "js_index (ex_tabs s) p"]
  by (auto simp: ex_ok_def drop_tab_def Let_def js_index_bounds list_all_iff)

lemma current_None: "ex_ok s \<Longrightarrow> currentFilePath s = None \<longleftrightarrow> ex_currentIndex s = -1"
  by (auto simp: currentFilePath_def js_get_def ex_ok_def)

lemma current_full: "ex_ok s \<Longrightarrow> currentFilePath s = Some p \<Longrightarrow> is_full p \<and> truthy (Some p) \<and> p \<in> set (ex_tabs s)"
  by (auto simp: currentFilePath_def ex_ok_def list_all_iff truthy_def dest!: js_get_SomeD split: if_splits)

lemma ok_setTabs: "ex_ok s \<Longrightarrow> list_all is_full tabs \<Longrightarrow> ex_ok (put_tabs tabs s)"
proof (cases "currentFilePath s")
  case None
  then show ?thesis if "ex_ok s" "list_all is_full tabs"
    using that current_None [of s] by (auto simp: put_tabs_def truthy_def ex_ok_def list_all_iff)
next
  case (Some c)
  then show ?thesis if "ex_ok s" "list_all is_full tabs"
    using that current_full [of s c] by (simp add: put_tabs_def Let_def ex_ok_def js_index_bounds list_all_iff)
qed

lemma keeps_openFile [keeps_rules]: "keeps ex_ok (openFile path)"
  unfolding openFile_def
  by (intro keeps_full keeps_bnd keeps_if keeps_seq keeps_simple keeps_modify ok_push_tab ok_point still_ok leaves_rules)

lemma keeps_closeFile [keeps_rules]: "keeps ex_ok (closeFile path)"
  unfolding closeFile_def
  by (auto intro!: keeps_full keeps_rules keeps_modify ok_drop_tab still_ok [OF still_disk(3)])

lemma keeps_setTabs: "list_all is_full tabs \<Longrightarrow> keeps ex_ok (setTabs tabs)"
  unfolding setTabs_def by (intro keeps_seq keeps_modify ok_setTabs still_ok [OF still_disk(3)])

lemma keeps_reset_tabs: "(\<And>t. is_full t \<Longrightarrow> is_full (f t)) \<Longrightarrow> keeps ex_ok (bnd (gets ex_tabs) (\<lambda>tabs. setTabs (map f tabs)))"
  by (rule keeps_bnd_gives [where Q = "list_all is_full"])
    (auto intro!: keeps_simple gives_gets keeps_setTabs simp: ex_ok_def list_all_iff)

lemma keeps_saveFileToState: "keeps ex_ok (saveFileToState path c)" "keeps ex_ok (saveEditorPosition path pos)"
  unfolding saveFileToState_def saveEditorPosition_def
  by (auto intro!: keeps_full keeps_rules keeps_modify ok_put_file still_ok [OF still_disk(3)])

section \<open>The operations on items\<close>

lemma keeps_refresh_open [keeps_rules]: "keeps ex_ok (refresh_open opts p)"
  unfolding refresh_open_def by (intro keeps_rules)

lemma keeps_createItem: "keeps ex_ok (createItem E path c opts)"
  unfolding createItem_def create_in_state_def
  by (auto intro!: keeps_full keeps_rules keeps_modify ok_put_file still_ok [OF still_create_on_disk]
      still_ok [OF still_saveMeta] still_ok [OF still_disk(3)])

lemma is_full_expand: "is_full new \<Longrightarrow> is_full (expand_dollars pat rest new)"
  by (induction pat rest new rule: expand_dollars.induct) auto

lemma is_full_child_path: "is_full new \<Longrightarrow> is_full (child_path old new path)"
proof -
  assume "is_full new"
  then have "is_full (expand_dollars old rest (if suffix ''/'' old then appendSlash new else new))" for rest
    by (auto intro!: is_full_expand is_full_appendSlash)
  then show ?thesis by (auto simp: child_path_def replace_prefix_def Let_def intro: prefix_prefix)
qed

lemma ok_rename_path: "ex_ok s \<Longrightarrow> is_full q \<Longrightarrow> ex_ok (rename_path p q s)"
  by (auto simp: ex_ok_def rename_path_def Let_def list_all_iff set_keys_obj_set obj_keys_del obj_ok_del
      dest!: set_update_subset_insert [THEN subsetD])

lemma ok_fold: "(\<And>x s. P s \<Longrightarrow> P (f x s)) \<Longrightarrow> P s \<Longrightarrow> P (fold f xs s)"
  by (induction xs arbitrary: s) auto

lemma ok_rename_folder: "ex_ok s \<Longrightarrow> is_full q \<Longrightarrow> ex_ok (rename_folder p q s)"
  unfolding rename_folder_def by (rule ok_fold [where P = ex_ok]) (auto intro: ok_rename_path is_full_child_path)

lemma keeps_rename_in_state: "is_full p \<Longrightarrow> is_full q \<Longrightarrow> keeps ex_ok (rename_in_state p q)"
  unfolding rename_in_state_def
  by (intro keeps_if keeps_seq keeps_modify keeps_parent ok_rename_path ok_rename_folder ok_put_file)

lemma keeps_renameItem: "keeps ex_ok (renameItem E b o' old new)"
  unfolding renameItem_def rename_done_def
  by (auto intro!: keeps_full keeps_rules keeps_rename_in_state still_ok [OF still_rename_checks]
      still_ok [OF still_disk(3)] still_ok [OF still_saveMeta] still_ok [OF still_saveTree] still_ok [OF still_announce_open]
      still_ok [OF still_pgfs_dir(2)] keeps_reset_tabs [where f = "\<lambda>t. t", simplified])

lemma keeps_delete_in_state: "is_full p \<Longrightarrow> keeps ex_ok (delete_in_state p)"
  unfolding delete_in_state_def delete_paths_def
  by (auto intro!: keeps_rules keeps_parent keeps_modify ok_put_file ok_del_file)

lemma keeps_deleteItem: "keeps ex_ok (deleteItem n E path)"
  unfolding deleteItem_def
  by (auto intro!: keeps_full keeps_rules keeps_delete_in_state still_ok [OF still_delete_on_disk]
      still_ok [OF still_disk(3)] still_ok [OF still_saveMeta])

section \<open>The operations on workspaces\<close>

lemma keeps_default_state: "keeps ex_ok (modify default_state)"
  by (rule keeps_modify) (simp add: ex_ok_def default_state_def obj_keys_def)

lemma keeps_setupFiles: "is_full path \<Longrightarrow> keeps ex_ok (setupFiles n E path)"
proof (induction n arbitrary: path)
  case (Suc n)
  let ?sub = "\<lambda>itemName. lift_sum (\<lambda>s. getCanonicalPath s (joinPaths path itemName))"
  have step: "keeps ex_ok (bnd (pgfs_getMetadata E p) (\<lambda>k.
             if k = FileNode
             then catch (bnd (pgfs_readToString E p) (\<lambda>c. modify (put_file p (Some \<lparr>ii_content = Some c, ii_meta = None\<rparr>))))
                 (\<lambda>e. ret ())
             else setupFiles n E p))" if "is_full p" for p
    using that by (auto intro!: keeps_rules keeps_modify ok_put_file Suc.IH still_ok [OF still_pgfs_read(1)]
        still_ok [OF still_pgfs_read(3)])
  have sub: "gives ex_ok (?sub x) is_full" "keeps ex_ok (?sub x)" for x
    by (auto simp: gives_def lift_sum_def getCanonicalPath_full keeps_simple split: sum.splits)
  have "keeps ex_ok (bnd (map_act ?sub xs) (each (\<lambda>p. bnd (pgfs_getMetadata E p) (\<lambda>k.
             if k = FileNode
             then catch (bnd (pgfs_readToString E p) (\<lambda>c. modify (put_file p (Some \<lparr>ii_content = Some c, ii_meta = None\<rparr>))))
                 (\<lambda>e. ret ())
             else setupFiles n E p))))" for xs
    by (rule keeps_map_then [OF sub]) (auto simp: list_all_iff intro!: keeps_each_in step)
  then show ?case using Suc.prems
    by (auto intro!: keeps_if keeps_modify ok_put_file keeps_bnd [OF still_ok [OF still_pgfs_read(6)]])
qed (simp add: keeps_rules)

lemma ok_put_meta: "ex_ok s \<Longrightarrow> ex_ok (put_meta m s)"
proof (cases "file_at s (im_path m)")
  case (Some i)
  then have "im_path m \<in> set (obj_keys (ex_files s))" by (auto simp: file_at_def set_obj_keys split: option.splits)
  then show ?thesis if "ex_ok s" using that Some by (auto simp: put_meta_def ex_ok_def [of s] list_all_iff intro: ok_put_file)
qed (simp add: put_meta_def)

lemma keeps_open_default [keeps_rules]: "keeps ex_ok open_default"
  unfolding open_default_def by (auto intro!: keeps_rules)

lemma keeps_load_meta [keeps_rules]: "keeps ex_ok (load_meta E)"
proof -
  have full: "gives ex_ok (full_meta m) (\<lambda>m. is_full (im_path m))" "keeps ex_ok (full_meta m)" for m
    by (auto simp: gives_def full_meta_def full_def act_defs convertToFullPath_full keeps_def split: sum.splits)
  have point: "ex_ok (s\<lparr>ex_currentIndex := (case find P metas of Some m \<Rightarrow> js_index (ex_tabs s) (f m) | None \<Rightarrow> -1)\<rparr>)"
    if "ex_ok s" for s :: "'a explorer" and P f and metas :: "'b list"
    using that by (auto simp: ex_ok_def js_index_bounds split: option.split)
  show ?thesis
    unfolding load_meta_def
    by (intro keeps_bnd [OF still_ok [OF still_pgfs_read(5)]] keeps_map_then [OF full] keeps_seq keeps_modify
        keeps_setTabs point ok_fold [where P = ex_ok] ok_put_meta keeps_rules) (auto simp: list_all_iff)
qed

lemma keeps_init_rounds: "keeps ex_ok (init_rounds n depth E)"
proof (induction n)
  case (Suc n)
  have "keeps ex_ok (case wp of
         None \<Rightarrow> modify default_state
       | Some workspacePath \<Rightarrow>
           seq (modify (\<lambda>s. s\<lparr>ex_files := []\<rparr>))
             (bnd (catch (seq (setupFiles depth E workspacePath) (ret True)) (\<lambda>e. ret False)) (\<lambda>ok.
               if ok then load_meta E else seq (recover E) (init_rounds n depth E))))"
    if "\<forall>p. wp = Some p \<longrightarrow> is_full p" for wp
    using that by (cases wp) (auto intro!: keeps_default_state keeps_rules keeps_modify keeps_setupFiles Suc.IH
        still_ok [OF still_recover] simp: ex_ok_def obj_keys_def)
  then show ?case
    by (auto intro!: keeps_bnd_gives [where Q = "\<lambda>wp. \<forall>p. wp = Some p \<longrightarrow> is_full p"] keeps_simple gives_gets
        dest: currentPath_full)
qed (simp add: keeps_rules)

lemma keeps_initCurrentWorkspace [keeps_rules]: "keeps ex_ok (initCurrentWorkspace depth E)"
  unfolding initCurrentWorkspace_def by (intro keeps_bnd keeps_simple keeps_init_rounds)

lemma keeps_switchWorkspace [keeps_rules]: "keeps ex_ok (switchWorkspace depth E f name)"
  unfolding switchWorkspace_def
  by (auto intro!: keeps_rules still_ok [OF still_saveMeta] still_ok [OF still_on_list] still_ok [OF leaves_modify]
      still_ok [OF still_saveWorkspaces] still_ok [OF still_announce_open] still_ok [OF still_disk(3)] simp: view_def)

lemma is_full_workspace_file: "is_full (workspace_file name p)"
  by (simp add: workspace_file_def is_full_joinPaths joinPaths_root)

lemma ok_move_under: "ex_ok s \<Longrightarrow> ex_ok (move_under name s)"
  unfolding move_under_def
  by (rule ok_fold [where P = ex_ok])
    (auto simp: ex_ok_def list_all_iff set_keys_obj_set obj_keys_del obj_ok_del is_full_workspace_file)

lemma keeps_keep_temporary [keeps_rules]: "keeps ex_ok (keep_temporary depth E name)"
proof -
  have "ex_ok (move_under name (s\<lparr>ex_isTemporary := False\<rparr>))" if "ex_ok s" for s :: "'a explorer"
    using that by (intro ok_move_under) (simp add: ex_ok_def)
  then show ?thesis
    unfolding keep_temporary_def
    by (intro keeps_seq keeps_modify keeps_reset_tabs is_full_workspace_file keeps_switchWorkspace still_ok
        still_initWorkspaces still_list_create still_writeAllFromState)
qed

lemma keeps_createWorkspace: "keeps ex_ok (createWorkspace depth E opts name)"
  unfolding createWorkspace_def add_workspace_def Let_def
  by (auto intro!: keeps_rules still_ok [OF still_initWorkspaces] still_ok [OF still_list_create]
      still_ok [OF leaves_modify] still_ok [OF still_pgfs_writeFile] still_ok [OF still_disk(4)] simp: view_def)

lemma keeps_renameWorkspace: "keeps ex_ok (renameWorkspace depth E b from' name)"
  unfolding renameWorkspace_def Let_def
  by (auto intro!: keeps_rules keeps_renameItem still_ok [OF still_rename_other] still_ok [OF still_on_list]
      still_ok [OF still_disk(4)])

lemma keeps_deleteWorkspace: "keeps ex_ok (deleteWorkspace depth E name)"
  unfolding deleteWorkspace_def Let_def
  by (auto intro!: keeps_rules keeps_deleteItem still_ok [OF still_saveWorkspaces] still_ok [OF still_on_list]
      still_ok [OF still_disk(4)] still_ok [OF still_disk(3)])

lemma keeps_init_done [keeps_rules]: "keeps ex_ok init_done"
  unfolding init_done_def
  by (auto intro!: keeps_rules still_ok [OF leaves_modify] still_ok [OF still_disk(3)] simp: view_def)

lemma convertToExplorerFiles_ok:
  "list_all is_full (obj_keys (convertToExplorerFiles fs))" "obj_ok (convertToExplorerFiles fs)"
proof -
  have "(\<lambda>m. list_all is_full (obj_keys m) \<and> obj_ok m) (convertToExplorerFiles fs)"
    unfolding convertToExplorerFiles_def
  proof (rule ok_fold)
    show "list_all is_full (obj_keys []) \<and> obj_ok []" by (simp add: obj_keys_def)
  qed (auto simp: list_all_iff set_keys_obj_set joinPaths_root split: prod.split)
  then show "list_all is_full (obj_keys (convertToExplorerFiles fs))" "obj_ok (convertToExplorerFiles fs)"
    by simp_all
qed

fun init_files_ok :: "init_files \<Rightarrow> bool" where
  "init_files_ok (TupleFiles fs) \<longleftrightarrow> True"
| "init_files_ok (ExplorerFiles fs) \<longleftrightarrow> list_all is_full (obj_keys fs) \<and> obj_ok fs"

lemma keeps_init_temporary: "init_files_ok fs \<Longrightarrow> keeps ex_ok (init_temporary fs)"
  unfolding init_temporary_def
  by (intro keeps_seq keeps_modify keeps_rules; cases fs)
    (simp_all add: ex_ok_def default_state_def convertToExplorerFiles_ok)

lemma keeps_init_stored: "keeps ex_ok (init_stored depth E name)"
  unfolding init_stored_def
  by (auto intro!: keeps_rules keeps_default_state still_ok [OF leaves_modify] still_ok [OF still_initWorkspaces] simp: view_def)

end
