(* ===== verification/Explorer_Runs.thy ===== *)
theory Explorer_Runs
  imports Explorer_Correct
begin

text \<open>
  What holds of the explorer through every sequence of calls, that opening a workspace ends, and what a reload keeps.
\<close>

section \<open>A volume in memory\<close>

text \<open>
  A volume for the examples: files by path, folders implied by them, every write going through; the metadata is
  printed as one letter and read back as the list given.
\<close>

fun insert_by :: "('a \<Rightarrow> 'a \<Rightarrow> int) \<Rightarrow> 'a \<Rightarrow> 'a list \<Rightarrow> 'a list" where
  "insert_by cmp x [] = [x]"
| "insert_by cmp x (y # ys) = (if cmp x y < 0 then x # y # ys else y # insert_by cmp x ys)"

definition mem_names :: "string \<Rightarrow> string js_obj \<Rightarrow> string list" where
  "mem_names p d =
     js_set (map (\<lambda>q. takeWhile (\<lambda>c. c \<noteq> SLASH) (drop (length (appendSlash p)) q)) (filter (prefix (appendSlash p)) (map fst d)))"

definition mem_env :: "item_meta list \<Rightarrow> string js_obj env" where
  "mem_env ms =
     \<lparr>v_writeFile = (\<lambda>p c d. (None, obj_set p c d)),
      v_readFile = (\<lambda>p d. case map_of d p of None \<Rightarrow> Inl E_NOENT | Some c \<Rightarrow> Inr c),
      v_rename = (\<lambda>p q d. (Some E_OTHER, d)),
      v_unlink = (\<lambda>p d. (None, obj_del p d)),
      v_mkdir = (\<lambda>p d. (None, d)),
      v_rmdir = (\<lambda>p d. (None, d)),
      v_readdir = (\<lambda>p d. if mem_names p d = [] then Inl E_NOENT else Inr (mem_names p d)),
      v_stat = (\<lambda>p d. if map_of d p \<noteq> None then Inr FileNode
          else if length p < 100 \<and> mem_names p d \<noteq> [] then Inr DirNode else Inl E_NOENT),
      v_flush = (\<lambda>d. (None, d)),
      e_parseConfig = (\<lambda>t. None),
      e_printConfig = (\<lambda>w. ''c''),
      e_printList = (\<lambda>es. concat (map we_name es)),
      e_parseMeta = (\<lambda>t. Some (MetaList ms)),
      e_printMeta = (\<lambda>ms. ''m''),
      e_sortMeta = (\<lambda>cmp xs. foldl (\<lambda>acc x. insert_by cmp x acc) [] xs),
      e_isTutorialName = (\<lambda>n. False),
      e_uuid = js_nat\<rparr>"

section \<open>Sequences of calls\<close>

datatype ex_call =
    Init "init_files option" "string option"
  | CreateItem string string create_options
  | RenameItem bool bool string string
  | DeleteItem string
  | OpenFile string
  | CloseFile string
  | SetTabs "string list"
  | SaveFile string string
  | SavePosition string position
  | CreateWorkspace workspace_options string
  | SwitchWorkspace "string option" string
  | ImportWorkspace string string "string js_obj"
  | ReplaceFiles string "string js_obj"
  | RenameWorkspace bool "string option" string
  | DeleteWorkspace "string option"
  | RefreshWorkspaces

fun run_call :: "nat \<Rightarrow> 'd env \<Rightarrow> ex_call \<Rightarrow> ('d, unit) ex_act" where
  "run_call depth E (Init files name) = init_explorer depth E files name"
| "run_call depth E (CreateItem path content opts) = createItem E path content opts"
| "run_call depth E (RenameItem skip override old new) = renameItem E skip override old new"
| "run_call depth E (DeleteItem path) = deleteItem depth E path"
| "run_call depth E (OpenFile path) = openFile path"
| "run_call depth E (CloseFile path) = closeFile path"
| "run_call depth E (SetTabs tabs) = setTabs tabs"
| "run_call depth E (SaveFile path content) = saveFileToState path content"
| "run_call depth E (SavePosition path pos) = saveEditorPosition path pos"
| "run_call depth E (CreateWorkspace opts name) = createWorkspace depth E opts name"
| "run_call depth E (SwitchWorkspace f name) = switchWorkspace depth E f name"
| "run_call depth E (ImportWorkspace name i files) = importWorkspace E name i files"
| "run_call depth E (ReplaceFiles name files) = replaceWorkspaceFiles depth E name files"
| "run_call depth E (RenameWorkspace announce from' name) = renameWorkspace depth E announce from' name"
| "run_call depth E (DeleteWorkspace name) = deleteWorkspace depth E name"
| "run_call depth E RefreshWorkspaces = bnd (refreshWorkspaces E id) (\<lambda>b. ret ())"

text \<open>Tabs are set to full paths, and files handed over as an object have full paths.\<close>

fun call_ok :: "ex_call \<Rightarrow> bool" where
  "call_ok (SetTabs tabs) \<longleftrightarrow> list_all is_full tabs"
| "call_ok (Init (Some fs) name) \<longleftrightarrow> init_files_ok fs"
| "call_ok c \<longleftrightarrow> True"

lemma still_refresh: "still (refreshWorkspaces E id)"
proof -
  have "still (take_list E saved w)" for saved w
    by (auto simp: leaves_def take_list_def Let_def act_defs emit_def view_def split: option.split)
  then show ?thesis
    by (auto simp: refreshWorkspaces_def intro!: leaves_rules leaves_modify split: option.split)
qed

lemma keeps_run_call: "call_ok c \<Longrightarrow> keeps ex_ok (run_call depth E c)"
proof (induction c rule: call_ok.induct)
  case (2 fs name)
  then show ?case by (simp add: init_explorer_def keeps_init_temporary)
qed (auto intro!: keeps_rules keeps_setTabs keeps_createItem keeps_renameItem keeps_deleteItem keeps_saveFileToState
    keeps_createWorkspace keeps_renameWorkspace keeps_deleteWorkspace keeps_init_stored
    still_ok [OF still_importWorkspace] still_ok [OF leaves_replaceWorkspaceFiles] still_ok [OF still_refresh] aside_view
    simp: init_explorer_def)

definition call_step :: "nat \<Rightarrow> 'd env \<Rightarrow> 'd explorer \<Rightarrow> ex_call \<Rightarrow> 'd explorer" where
  "call_step depth E s c = (if call_ok c then snd (run_call depth E c s) else s)"

definition fresh_explorer :: "'d \<Rightarrow> 'd explorer" where
  "fresh_explorer d =
     \<lparr>ex_files = [], ex_tabs = [], ex_currentIndex = -1, ex_isTemporary = False, ex_isInitialized = False,
      ex_workspace = None, ex_initializedName = None, ex_savedWorkspaces = None, ex_flushed = [], ex_minted = 0,
      ex_disk = d, ex_events = []\<rparr>"

interpretation calls: machine "fresh_explorer d" "call_step depth E" ex_ok for d depth E
proof unfold_locales
  show "ex_ok (fresh_explorer d)" by (simp add: ex_ok_def fresh_explorer_def obj_keys_def)
  show "ex_ok (call_step depth E s c)" if "ex_ok s" for s c
    using that keepsD [OF keeps_run_call, of c s depth E] by (auto simp: call_step_def)
qed

lemma ex_ok_current:
  assumes "ex_ok s"
  shows "ex_currentIndex s = -1 \<and> currentFilePath s = None \<or>
    (\<exists>i < length (ex_tabs s). ex_currentIndex s = int i \<and> currentFilePath s = Some (ex_tabs s ! i))"
proof (cases "ex_currentIndex s = -1")
  case False
  then obtain i where "ex_currentIndex s = int i" using assms by (auto simp: ex_ok_def intro: that [of "nat (ex_currentIndex s)"])
  then show ?thesis using assms by (auto simp: ex_ok_def currentFilePath_def js_get_def)
qed (simp add: currentFilePath_def)

text \<open>
  C18: from the start of a tab, through every sequence of calls on a volume that may fail at any of its calls and
  in any way, and whichever of the calls throw: the current file is none, with the index -1, or it is the tab at the
  current index, which is in range; every tab and every path of the files is a full path, and the files hold no path
  twice. The calls may set any tabs that are full paths, and start the explorer with any files or with an explorer's files whose paths
  are full and held once. (The tabs may hold a path twice, see \<open>tab_held_twice\<close>.)
\<close>

theorem current_file_is_a_tab:
  fixes depth :: nat and E :: "'d env" and d :: 'd
  assumes "list_all call_ok cs"
  defines "s \<equiv> foldl (\<lambda>s c. snd (run_call depth E c s)) (fresh_explorer d) cs"
  shows "(ex_currentIndex s = -1 \<and> currentFilePath s = None \<or>
      (\<exists>i < length (ex_tabs s). ex_currentIndex s = int i \<and> currentFilePath s = Some (ex_tabs s ! i))) \<and>
    list_all is_full (ex_tabs s) \<and> list_all is_full (obj_keys (ex_files s)) \<and> obj_ok (ex_files s)"
proof -
  have "foldl (call_step depth E) s0 cs = foldl (\<lambda>s c. snd (run_call depth E c s)) s0 cs" for s0
    using assms(1) by (induction cs arbitrary: s0) (auto simp: call_step_def)
  then have "ex_ok s" using calls.inv_run [of depth E d cs] by (simp add: s_def)
  then show ?thesis using ex_ok_current [of s] by (simp add: ex_ok_def)
qed

theorem current_file_is_a_tab_witness:
  "list_all call_ok [Init (Some (TupleFiles [(''src/lib.rs'', ''a'')])) None, CreateItem ''src/b.rs'' ''x'' NO_OPTIONS,
      CloseFile ''/src/lib.rs''] \<and>
   obj_ok (ex_files (foldl (\<lambda>s c. snd (run_call 9 (mem_env []) c s)) (fresh_explorer [])
     [Init (Some (TupleFiles [(''src/lib.rs'', ''a'')])) None, CreateItem ''src/b.rs'' ''x'' NO_OPTIONS,
      CloseFile ''/src/lib.rs''])) \<and>
   currentFilePath (foldl (\<lambda>s c. snd (run_call 9 (mem_env []) c s)) (fresh_explorer [])
     [Init (Some (TupleFiles [(''src/lib.rs'', ''a'')])) None, CreateItem ''src/b.rs'' ''x'' NO_OPTIONS,
      CloseFile ''/src/lib.rs'']) = Some ''/src/b.rs''"
proof (intro conjI)
  let ?cs = "[Init (Some (TupleFiles [(''src/lib.rs'', ''a'')])) None, CreateItem ''src/b.rs'' ''x'' NO_OPTIONS,
      CloseFile ''/src/lib.rs'']"
  show ok: "list_all call_ok ?cs" by simp
  show "obj_ok (ex_files (foldl (\<lambda>s c. snd (run_call 9 (mem_env []) c s)) (fresh_explorer []) ?cs))"
    using current_file_is_a_tab [OF ok, of 9 "mem_env []" "[]"] by blast
  show "currentFilePath (foldl (\<lambda>s c. snd (run_call 9 (mem_env []) c s)) (fresh_explorer []) ?cs) = Some ''/src/b.rs''"
    by code_simp
qed

text \<open>A tab opened for a file that is not there yet, and another file renamed to it.\<close>

lemma tab_held_twice:
  "ex_tabs (foldl (\<lambda>s c. snd (run_call 9 (mem_env []) c s)) (fresh_explorer [])
     [Init (Some (TupleFiles [(''src/lib.rs'', ''a'')])) None, OpenFile ''/src/x.rs'', RenameItem False False ''/src/lib.rs'' ''/src/x.rs'']) =
   [''/src/x.rs'', ''/src/x.rs'']"
  by code_simp

section \<open>Opening a workspace ends\<close>

lemma total_disk [total_rules]: "total (disk f)" "total (peek g)" "total (emit ev)" "total (full p)" "total (parent q)"
  by (auto simp: total_def disk_def peek_def emit_def full_def parent_def act_defs
      split: prod.split option.split sum.split)

lemma total_pgfs [total_rules]:
  "total (pgfs_getMetadata E p)" "total (pgfs_exists E p)" "total (pgfs_readToString E p)"
  "total (pgfs_readToJSON E parse p)" "total (pgfs_readToJSONOrDefault E parse p x)" "total (pgfs_readDir E p)"
  "total (pgfs_flush E)"
  by (auto simp: pgfs_getMetadata_def pgfs_exists_def pgfs_readToString_def pgfs_readToJSON_def
      pgfs_readToJSONOrDefault_def pgfs_readDir_def pgfs_flush_def intro!: total_rules)

lemma total_make_dirs [total_rules]: "total (make_dirs E cur fs)"
  by (induction fs arbitrary: cur) (auto intro!: total_rules)

lemma total_writeFile [total_rules]: "total (pgfs_writeFile E b p c)"
  by (auto simp: pgfs_writeFile_def pgfs_createDir_def intro!: total_rules)

lemma total_saveWorkspaces [total_rules]: "total (saveWorkspaces E)"
  by (auto simp: saveWorkspaces_def intro!: total_rules)

lemma total_openFile [total_rules]: "total (openFile p)" "total announce_open"
  by (auto simp: openFile_def announce_open_def intro!: total_rules)

lemma total_load_meta [total_rules]: "total (load_meta E)"
  by (auto simp: load_meta_def full_meta_def setTabs_def open_default_def intro!: total_rules)

lemma total_recover [total_rules]: "total (recover E)"
  by (auto simp: recover_def intro!: total_rules)

text \<open>No folder of the volume has a path of the given length or more.\<close>

definition folders_below :: "nat \<Rightarrow> 'd env \<Rightarrow> bool" where
  "folders_below L E \<longleftrightarrow> (\<forall>p d k. v_stat E p d = Inr k \<and> k \<noteq> FileNode \<longrightarrow> length p < L)"

lemma child_longer:
  assumes "isItemNameValid name" and "is_full path" and "getCanonicalPath s (joinPaths path name) = Inr q"
  shows "length path < length q" "is_full q"
proof -
  have "withoutPreSlash name \<noteq> []" using assms(1) by (cases name) (auto simp: isItemNameValid_def suffix_slash_iff split: if_splits)
  moreover have "length path \<le> length (appendSlash path)" by (simp add: appendSlash_def)
  ultimately have "length path < length (joinPaths path name)" by (cases "withoutPreSlash name") (auto simp: joinPaths_def)
  moreover have "is_full (joinPaths path name)" by (rule is_full_joinPaths [OF assms(2)])
  ultimately show "length path < length q" "is_full q"
    using assms(3) by (auto simp: getCanonicalPath_def is_full_appendSlash split: if_splits)
      (simp add: appendSlash_def)
qed

definition setup_item :: "nat \<Rightarrow> 'd env \<Rightarrow> string \<Rightarrow> ('d, unit) ex_act" where
  "setup_item n E p = bnd (pgfs_getMetadata E p) (\<lambda>k.
     if k = FileNode
     then catch (bnd (pgfs_readToString E p) (\<lambda>c. modify (put_file p (Some \<lparr>ii_content = Some c, ii_meta = None\<rparr>))))
         (\<lambda>e. ret ())
     else setupFiles n E p)"

lemma setupFiles_Suc:
  "setupFiles (Suc n) E path =
     bnd (pgfs_readDir E path) (\<lambda>itemNames.
       if itemNames = [] then modify (put_file path (Some EMPTY_ITEM))
       else bnd (map_act (\<lambda>itemName. lift_sum (\<lambda>s. getCanonicalPath s (joinPaths path itemName)))
           (filter isItemNameValid itemNames)) (each (setup_item n E)))"
  unfolding setupFiles.simps setup_item_def [abs_def] by (rule refl)

declare setupFiles.simps [simp del]

lemma total_setup_item:
  assumes "folders_below L E" and "is_full p" and "length p < L \<Longrightarrow> total (setupFiles n E p)"
  shows "total (setup_item n E p)"
proof -
  have "gives (\<lambda>_. True) (pgfs_getMetadata E p) (\<lambda>k. k \<noteq> FileNode \<longrightarrow> length p < L)"
    using assms(1,2) by (auto simp: gives_def pgfs_getMetadata_def full_def peek_def act_defs folders_below_def
        split: sum.splits)
  then show ?thesis
    unfolding setup_item_def
    by (rule total_bnd_gives [OF total_pgfs(1)]) (auto intro!: total_rules assms(3))
qed

lemma total_setupFiles:
  assumes "folders_below L E"
  shows "is_full path \<Longrightarrow> L \<le> length path + n \<Longrightarrow> total (setupFiles (Suc n) E path)"
proof (induction n arbitrary: path rule: less_induct)
  case (less n)
  have item: "total (setup_item n E q)" if q: "length path < length q" "is_full q" for q
  proof (rule total_setup_item [OF assms q(2)])
    assume "length q < L"
    then obtain m where "n = Suc m" using less.prems q(1) by (cases n) auto
    then show "total (setupFiles n E q)" using less.IH [of m q] less.prems q by simp
  qed
  have names: "gives (\<lambda>_. True) (map_act (\<lambda>itemName. lift_sum (\<lambda>s. getCanonicalPath s (joinPaths path itemName)))
      (filter isItemNameValid xs)) (list_all (\<lambda>q. length path < length q \<and> is_full q))" for xs
    by (rule gives_map_act)
      (use less.prems(1) child_longer in \<open>auto simp: gives_def lift_sum_def keeps_def split: sum.splits\<close>)
  have "total (bnd (map_act (\<lambda>itemName. lift_sum (\<lambda>s. getCanonicalPath s (joinPaths path itemName)))
      (filter isItemNameValid xs)) (each (setup_item n E)))" for xs
    by (rule total_bnd_gives [OF _ names]) (auto simp: list_all_iff intro!: total_rules item)
  then show ?case unfolding setupFiles_Suc by (intro total_bnd [OF total_pgfs(6)] total_if total_simple)
qed

lemma leaves_list_setup: "leaves ex_workspace (setupFiles n E path)"
  by (induction n arbitrary: path) (auto simp: put_file_def setupFiles.simps intro!: leaves_rules leaves_modify)

lemma current_path_listed:
  "getCurrentWorkspacePath s = Some p \<Longrightarrow>
     \<exists>w n. ex_workspace s = Some w \<and> currentName w = Some n \<and> n \<noteq> [] \<and> n \<in> set (allNames w)"
proof -
  assume "getCurrentWorkspacePath s = Some p"
  then obtain w n where w: "ex_workspace s = Some w" "currentName w = Some n" "n \<noteq> []"
    by (auto simp: getCurrentWorkspacePath_def currentWorkspaceName_def truthy_def split: if_splits option.splits)
  then have "n \<in> set (allNames w)"
    by (auto simp: currentName_def nameOf_def allNames_def split: option.splits dest: find_SomeD)
  then show ?thesis using w by blast
qed

lemma length_setCurrentName [simp]: "length (wk_workspaces (setCurrentName n w)) = length (wk_workspaces w)"
  by (simp add: setCurrentName_def split: option.split)

lemma drop_unreadable_shrinks:
  assumes "getCurrentWorkspacePath s = Some p"
  shows "length (names_of (drop_unreadable dirs s)) < length (names_of s)"
proof -
  from current_path_listed [OF assms] obtain w n where w: "ex_workspace s = Some w" "currentName w = Some n" "n \<noteq> []"
    "n \<in> we_name ` set (wk_workspaces w)" by (auto simp: allNames_def)
  have "length (filter (\<lambda>e. we_name e \<noteq> n) (wk_workspaces w)) < length (wk_workspaces w)"
    using w(4) by (auto intro: length_filter_less)
  then show ?thesis using w
    by (auto simp: names_of_def drop_unreadable_def DEFAULT_WORKSPACES_def allNames_def truthy_def delete_workspace_def Let_def)
qed

lemma recover_shrinks:
  assumes "getCurrentWorkspacePath s = Some p" and "ex_workspace s' = ex_workspace s" and "recover E s' = (Val (), t)"
  shows "length (names_of t) < length (names_of s)"
proof -
  have same: "getCurrentWorkspacePath s' = Some p" "names_of s' = names_of s"
    using assms(1) same_list_path [OF assms(2)] by (simp_all add: names_of_def assms(2))
  obtain r u where u: "pgfs_readDir E ROOT_DIR_PATH s' = (r, u)" by fastforce
  then obtain dirs where dirs: "r = Val dirs" using assms(3) by (cases r) (auto simp: recover_def bnd_def)
  have "ex_workspace u = ex_workspace s'" by (rule leavesD [OF leaves_pgfs_read(6) [OF aside_list] u])
  then have "names_of (drop_unreadable ds u) = names_of (drop_unreadable ds s')" for ds
    by (simp add: names_of_def drop_unreadable_def)
  moreover have "saveWorkspaces E (drop_unreadable (filter isItemNameValid dirs) u) = (Val (), t)"
    using assms(3) u dirs by (simp add: recover_def bnd_def seq_def modify_def)
  then have "ex_workspace t = ex_workspace (drop_unreadable (filter isItemNameValid dirs) u)"
    by (rule leavesD [OF leaves_saveWorkspaces [OF aside_list]])
  ultimately have "names_of t = names_of (drop_unreadable (filter isItemNameValid dirs) s')"
    by (metis names_of_def)
  then show ?thesis using drop_unreadable_shrinks [OF same(1)] same(2) by simp
qed

lemma seq_then: "m s = (Val x, t) \<Longrightarrow> seq m k s = k t"
  by (simp add: seq_def bnd_def)

lemma init_rounds_end:
  assumes "folders_below L E"
  shows "length (names_of s) \<le> n \<Longrightarrow> fst (init_rounds (Suc n) (Suc L) E s) \<noteq> Stuck"
proof (induction n arbitrary: s rule: less_induct)
  case (less n)
  show ?case
  proof (cases "getCurrentWorkspacePath s")
    case None
    then show ?thesis by (simp add: bnd_def gets_def modify_def)
  next
    case (Some p)
    let ?s1 = "s\<lparr>ex_files := []\<rparr>"
    let ?set = "catch (seq (setupFiles (Suc L) E p) (ret True)) (\<lambda>e. ret False)"
    obtain r s2 where s2: "?set ?s1 = (r, s2)" by fastforce
    have "total ?set" by (intro total_rules total_setupFiles [OF assms currentPath_full [OF Some]]) simp
    then have "r \<noteq> Stuck" using s2 by (rule totalD)
    have "leaves ex_workspace ?set" by (intro leaves_rules leaves_list_setup)
    then have list: "ex_workspace s2 = ex_workspace s" using s2 by (auto dest: leavesD)
    have run: "fst (init_rounds (Suc n) (Suc L) E s) = (case r of
        Val ok \<Rightarrow> fst ((if ok then load_meta E else seq (recover E) (init_rounds n (Suc L) E)) s2)
      | Exn e \<Rightarrow> Exn e | Stuck \<Rightarrow> Stuck)"
      using Some s2 by (simp add: bnd_def gets_def seq_def modify_def split: res.split)
    have "fst (seq (recover E) (init_rounds n (Suc L) E) s2) \<noteq> Stuck"
    proof -
      obtain r' t where t: "recover E s2 = (r', t)" by fastforce
      show ?thesis
      proof (cases r')
        case (Val u)
        then have short: "length (names_of t) < length (names_of s)" using recover_shrinks [OF Some list] t by simp
        then obtain m where m: "n = Suc m" using less.prems by (cases n) auto
        have "fst (init_rounds (Suc m) (Suc L) E t) \<noteq> Stuck" using less.IH [of m t] short less.prems m by simp
        then show ?thesis using t Val m by (simp add: seq_then del: init_rounds.simps)
      qed (use t totalD [OF total_recover t] in \<open>simp_all add: seq_def bnd_def\<close>)
    qed
    moreover have "fst (load_meta E s2) \<noteq> Stuck" using total_load_meta [of E] by (simp add: total_def)
    ultimately show ?thesis using run \<open>r \<noteq> Stuck\<close> by (cases r) auto
  qed
qed

text \<open>
  C22: opening the current workspace ends, whatever the volume answers and in whatever state the list of workspaces is:
  on a volume in which no folder has a path of \<open>L\<close> characters or more, reading the files nested to that depth and
  recovering from a folder that cannot be read take no more calls of \<^verbatim>\<open>_initCurrentWorkspace\<close> than there are workspaces
  and one more, each recovery dropping at least one workspace from the list.
\<close>

theorem opening_workspace_ends:
  assumes "folders_below L E"
  shows "fst (initCurrentWorkspace (Suc L) E s) \<noteq> Stuck"
  using init_rounds_end [OF assms, of s "length (names_of s)"]
  by (simp add: initCurrentWorkspace_def bnd_def gets_def del: init_rounds.simps)

definition example_tab :: "string js_obj explorer" where
  "example_tab = (fresh_explorer [(''/app/src/lib.rs'', ''fn''), (''/app/src/b.rs'', ''x'')])
     \<lparr>ex_workspace := Some \<lparr>wk_workspaces = [\<lparr>we_id = ''u1'', we_name = ''gone''\<rparr>, \<lparr>we_id = ''u2'', we_name = ''app''\<rparr>],
        wk_currentId = Some ''u1''\<rparr>\<rparr>"

theorem opening_workspace_ends_witness:
  "folders_below 100 (mem_env []) \<and> fst (initCurrentWorkspace 101 (mem_env []) example_tab) \<noteq> Stuck \<and>
   currentFilePath (snd (initCurrentWorkspace 4 (mem_env []) example_tab)) = Some ''/app/src/lib.rs''"
proof (intro conjI)
  show fb: "folders_below 100 (mem_env [])"
    by (auto simp: folders_below_def mem_env_def split: if_splits)
  show "fst (initCurrentWorkspace 101 (mem_env []) example_tab) \<noteq> Stuck"
    using opening_workspace_ends [OF fb, of example_tab] by simp
  show "currentFilePath (snd (initCurrentWorkspace 4 (mem_env []) example_tab)) = Some ''/app/src/lib.rs''"
    by code_simp
qed

end
