(* ===== verification/Explorer_Reload.thy ===== *)
theory Explorer_Reload
  imports Explorer_Runs "HOL-Library.Multiset"
begin

text \<open>
  What a reload keeps: the metadata a workspace saves brings its tabs, the current file and the caret positions back.
\<close>

section \<open>Saving\<close>

fun meta_val :: "'d explorer \<Rightarrow> string \<times> item_info option \<Rightarrow> item_meta" where
  "meta_val s (p, i) =
     \<lparr>im_path = p, im_isTabs = (p \<in> set (ex_tabs s)), im_isCurrent = (currentFilePath s = Some p),
      im_position = Option.bind (Option.bind i ii_meta) id\<rparr>"

definition sorted_meta :: "'d env \<Rightarrow> 'd explorer \<Rightarrow> item_meta list" where
  "sorted_meta E s = e_sortMeta E (tab_order (ex_tabs s)) (map (meta_val s) (ex_files s))"

definition saved_meta :: "'d env \<Rightarrow> 'd explorer \<Rightarrow> item_meta list" where
  "saved_meta E s =
     map (\<lambda>m. m\<lparr>im_path := drop (length (the (getCurrentWorkspacePath s))) (im_path m)\<rparr>) (sorted_meta E s)"

text \<open>
  The open project: every path lies in the folder of the current workspace, no file is \<^verbatim>\<open>undefined\<close>, the tabs are
  files, each once.
\<close>

definition project_open :: "'d explorer \<Rightarrow> string \<Rightarrow> bool" where
  "project_open s wp \<longleftrightarrow>
     \<not> ex_isTemporary s \<and> getCurrentWorkspacePath s = Some wp \<and> ex_files s \<noteq> [] \<and> obj_ok (ex_files s) \<and>
     (\<forall>(p, i) \<in> set (ex_files s). i \<noteq> None \<and> prefix wp p \<and> \<not> is_full (drop (length wp) p)) \<and>
     distinct (ex_tabs s) \<and> set (ex_tabs s) \<subseteq> set (obj_keys (ex_files s))"

text \<open>
  A comparator that is consistent on a set of values. The language promises an order only for such a one; for any other it
  promises that the sort returns the same elements.
\<close>

definition consistent_on :: "('a \<Rightarrow> 'a \<Rightarrow> int) \<Rightarrow> 'a set \<Rightarrow> bool" where
  "consistent_on cmp S \<longleftrightarrow>
     (\<forall>a\<in>S. cmp a a = 0) \<and> (\<forall>a\<in>S. \<forall>b\<in>S. cmp a b < 0 \<longleftrightarrow> 0 < cmp b a) \<and>
     (\<forall>a\<in>S. \<forall>b\<in>S. \<forall>c\<in>S. cmp a b \<le> 0 \<longrightarrow> cmp b c \<le> 0 \<longrightarrow> cmp a c \<le> 0)"

text \<open>
  What is asked of the runtime for this state: the sort returns a permutation, in the order of a consistent comparator, JSON
  reads back what it printed, and the volume takes a write, reads it back, and keeps it through a flush.
\<close>

definition runtime_ok :: "'d env \<Rightarrow> 'd explorer \<Rightarrow> bool" where
  "runtime_ok E s \<longleftrightarrow>
     mset (sorted_meta E s) = mset (map (meta_val s) (ex_files s)) \<and>
     (consistent_on (tab_order (ex_tabs s)) (set (map (meta_val s) (ex_files s))) \<longrightarrow>
        sorted_wrt (\<lambda>a b. tab_order (ex_tabs s) a b \<le> 0) (sorted_meta E s)) \<and>
     e_parseMeta E (e_printMeta E (saved_meta E s)) = Some (MetaList (saved_meta E s)) \<and>
     (\<forall>p c d. fst (v_writeFile E p c d) = None \<and> v_readFile E p (snd (v_writeFile E p c d)) = Inr c) \<and>
     (\<forall>p d. v_readFile E p (snd (v_flush E d)) = v_readFile E p d)"

lemma map_act_pure: "(\<And>x. x \<in> set xs \<Longrightarrow> f x s = (Val (g x), s)) \<Longrightarrow> map_act f xs s = (Val (map g xs), s)"
  by (induction xs) (auto simp: bnd_def ret_def)

lemma join_root_slash: "suffix ''/'' a \<Longrightarrow> suffix ''/'' (joinPaths ROOT_DIR_PATH a)"
proof (cases a)
  case (Cons c cs)
  assume "suffix ''/'' a"
  moreover have "joinPaths ROOT_DIR_PATH a = (if c = SLASH then a else ''/'' @ a)"
    by (simp add: Cons joinPaths_def ROOT_DIR_PATH_def appendSlash_def suffix_slash_iff)
  ultimately show ?thesis by (auto simp: suffix_slash_iff)
qed simp

lemma currentPath_slash: "getCurrentWorkspacePath s = Some wp \<Longrightarrow> suffix ''/'' wp"
  by (auto simp: getCurrentWorkspacePath_def join_root_slash split: if_splits)

lemma convert_relative:
  assumes "getCurrentWorkspacePath s = Some wp" and "\<not> ex_isTemporary s" and "\<not> is_full r"
  shows "convertToFullPath s r = Inr (wp @ r)"
  using assms currentPath_slash [OF assms(1)]
  by (auto simp: convertToFullPath_def ROOT_DIR_PATH_def getProjectRootPath_def getRequiredCurrentWorkspacePath_def
      joinPaths_def appendSlash_simps withoutPreSlash_id getCurrentWorkspacePath_def currentWorkspaceName_def
      truthy_def split: option.splits if_splits)

lemma remove_first_prefix: "pat \<noteq> [] \<Longrightarrow> prefix pat p \<Longrightarrow> remove_first pat p = drop (length pat) p"
  by (cases p) auto

lemma getRelativePath_under:
  assumes "getCurrentWorkspacePath s = Some wp" and "\<not> ex_isTemporary s" and "prefix wp p"
  shows "getRelativePath s p = Inr (drop (length wp) p)"
proof -
  have "ex_workspace s \<noteq> None" using current_path_listed [OF assms(1)] by auto
  moreover have "wp \<noteq> []" using currentPath_slash [OF assms(1)] by auto
  ultimately show ?thesis
    using assms by (simp add: getRelativePath_def getRequiredCurrentWorkspacePath_def remove_first_prefix)
qed

lemma meta_paths:
  assumes "project_open s wp" and "mset (sorted_meta E s) = mset (map (meta_val s) (ex_files s))"
    and "m \<in> set (sorted_meta E s)"
  shows "prefix wp (im_path m)" "\<not> is_full (drop (length wp) (im_path m))" "im_path m \<in> set (obj_keys (ex_files s))"
proof -
  have "m \<in> set (map (meta_val s) (ex_files s))" using assms(2,3) by (metis set_mset_mset)
  then obtain p i where "(p, i) \<in> set (ex_files s)" "im_path m = p" by auto
  then show "prefix wp (im_path m)" "\<not> is_full (drop (length wp) (im_path m))" "im_path m \<in> set (obj_keys (ex_files s))"
    using assms(1) by (auto simp: project_open_def obj_keys_def intro: rev_image_eqI)
qed

lemma saveMeta_writes:
  assumes opn: "project_open s wp" and rt: "runtime_ok E s" and save: "saveMeta E s = (Val (), s')"
  shows "v_readFile E (wp @ METADATA_PATH) (ex_disk s') = Inr (e_printMeta E (saved_meta E s))"
    and "ex_workspace s' = ex_workspace s"
proof -
  have wp: "getCurrentWorkspacePath s = Some wp" "\<not> ex_isTemporary s" "ex_files s \<noteq> []"
    using opn by (auto simp: project_open_def)
  have inside: "\<not> list_ex (\<lambda>p. \<not> prefix wp p) (obj_keys (ex_files s))"
    using opn by (auto simp: project_open_def list_ex_iff obj_keys_def)
  have metas: "map_act (\<lambda>f. lift_sum (\<lambda>s. meta_of s f)) (ex_files s) s = (Val (map (meta_val s) (ex_files s)), s)"
    by (rule map_act_pure) (use opn in \<open>auto simp: lift_sum_def project_open_def\<close>)
  have relm: "map_act relative_meta (sorted_meta E s) s = (Val (saved_meta E s), s)"
    unfolding saved_meta_def
  proof (rule map_act_pure)
    fix m assume "m \<in> set (sorted_meta E s)"
    then have "prefix wp (im_path m)" using meta_paths [OF opn] rt by (auto simp: runtime_ok_def)
    then show "relative_meta m s =
        (Val (m\<lparr>im_path := drop (length (the (getCurrentWorkspacePath s))) (im_path m)\<rparr>), s)"
      using getRelativePath_under [OF wp(1,2)] wp(1) by (simp add: relative_meta_def bnd_def lift_sum_def ret_def)
  qed
  have full: "convertToFullPath s METADATA_PATH = Inr (wp @ METADATA_PATH)"
    by (rule convert_relative [OF wp(1,2)]) (simp add: METADATA_PATH_def WORKSPACE_PATH_def joinPaths_def appendSlash_def)
  have isf: "is_full (wp @ METADATA_PATH)" using currentPath_full [OF wp(1)] by (auto intro: prefix_prefix)
  have body: "saveMeta E s = catch (writeWorkspaceFile E METADATA_PATH (e_printMeta E (saved_meta E s)))
      (\<lambda>e. if e = FsErr E_NOENT then ret () else throw e) s"
    using wp inside metas relm
    by (simp add: saveMeta_def bnd_def gets_def sorted_meta_def)
  obtain d where d: "v_writeFile E (wp @ METADATA_PATH) (e_printMeta E (saved_meta E s)) (ex_disk s) = (None, d)"
    using rt unfolding runtime_ok_def by (metis prod.collapse)
  have readback: "v_readFile E (wp @ METADATA_PATH) d = Inr (e_printMeta E (saved_meta E s))"
    using rt d unfolding runtime_ok_def by (metis snd_conv)
  have fl: "v_readFile E (wp @ METADATA_PATH) (snd (v_flush E d)) = Inr (e_printMeta E (saved_meta E s))"
    using rt readback unfolding runtime_ok_def by simp
  have "v_readFile E (wp @ METADATA_PATH) (ex_disk (snd (saveMeta E s))) = Inr (e_printMeta E (saved_meta E s))"
    unfolding body using full isf d readback fl
    by (cases "v_flush E d"; cases "fst (v_flush E d)")
      (auto simp: writeWorkspaceFile_def workspace_write_def pgfs_writeFile_def full_def disk_def emit_def pgfs_flush_def
        act_defs split: prod.split option.split)
  then show "v_readFile E (wp @ METADATA_PATH) (ex_disk s') = Inr (e_printMeta E (saved_meta E s))" by (simp add: save)
  show "ex_workspace s' = ex_workspace s" by (rule leavesD [OF leaves_saveMeta [OF aside_list] save])
qed

section \<open>Loading\<close>

lemma index_tabs:
  "distinct xs \<Longrightarrow> map (index_from k xs) xs = map (\<lambda>i. k + int i) [0..<length xs]"
proof (induction xs arbitrary: k)
  case (Cons x xs)
  have "map (index_from k (x # xs)) xs = map (index_from (k + 1) xs) xs" using Cons.prems by auto
  also have "\<dots> = map (\<lambda>i. k + int i) [Suc 0..<Suc (length xs)]"
    using Cons by (auto simp: map_Suc_upt [symmetric] simp del: upt_Suc)
  finally have "map (index_from k (x # xs)) (x # xs) = k # map (\<lambda>i. k + int i) [Suc 0..<Suc (length xs)]" by simp
  also have "\<dots> = map (\<lambda>i. k + int i) [0..<Suc (length xs)]" by (simp add: upt_conv_Cons del: upt_Suc)
  finally show ?case by (simp only: list.size add_Suc_right add_0_right)
qed simp

lemma tabs_by_index:
  assumes "distinct tabs" and "distinct xs" and "set xs = set tabs"
    and "sorted_wrt (\<lambda>a b. js_index tabs a \<le> js_index tabs b) xs"
  shows "xs = tabs"
proof -
  have inj: "inj_on (js_index tabs) (set tabs)"
    by (rule inj_onI) (metis js_get_index option.inject)
  have "map (js_index tabs) tabs = map int [0..<length tabs]"
    using index_tabs [OF assms(1), of 0] by (simp add: js_index_def [abs_def])
  then have st: "sorted (map (js_index tabs) tabs)" by (simp add: sorted_map sorted_wrt_map [symmetric])
  have "map (js_index tabs) xs = map (js_index tabs) tabs"
  proof (rule sorted_distinct_set_unique)
    show "sorted (map (js_index tabs) xs)" using assms(4) by (simp add: sorted_wrt_map)
    show "distinct (map (js_index tabs) xs)" "distinct (map (js_index tabs) tabs)"
      using assms inj by (simp_all add: distinct_map)
    show "set (map (js_index tabs) xs) = set (map (js_index tabs) tabs)" using assms(3) by simp
  qed (rule st)
  then show ?thesis using inj assms(3) by (metis map_inj_on Un_absorb)
qed

lemma map_im_path_mset:
  assumes "mset ms = mset (map (meta_val s) fs)"
  shows "mset (map im_path ms) = mset (map fst fs)"
proof -
  have "mset (map im_path ms) = image_mset im_path (mset (map (meta_val s) fs))"
    unfolding assms [symmetric] by simp
  also have "\<dots> = mset (map fst fs)" by (induction fs) auto
  finally show ?thesis .
qed

text \<open>The tabs as they are saved.\<close>

definition saved_tabs :: "'d env \<Rightarrow> 'd explorer \<Rightarrow> string list" where
  "saved_tabs E s = map im_path (filter im_isTabs (sorted_meta E s))"

lemma saved_tabs_perm:
  assumes "project_open s wp" and "runtime_ok E s"
  shows "distinct (saved_tabs E s)" "set (saved_tabs E s) = set (ex_tabs s)"
proof -
  have ms: "mset (sorted_meta E s) = mset (map (meta_val s) (ex_files s))" using assms(2) by (simp add: runtime_ok_def)
  have isT: "im_isTabs m \<longleftrightarrow> im_path m \<in> set (ex_tabs s)" if "m \<in> set (sorted_meta E s)" for m
    using that mset_eq_setD [OF ms] by auto
  have "distinct (map im_path (sorted_meta E s))"
    using map_im_path_mset [OF ms] assms(1) by (metis mset_eq_imp_distinct_iff project_open_def)
  then show "distinct (saved_tabs E s)" unfolding saved_tabs_def by (rule distinct_map_filter)
  have "set (map im_path (sorted_meta E s)) = set (obj_keys (ex_files s))"
    using mset_eq_setD [OF map_im_path_mset [OF ms]] by (simp add: obj_keys_def)
  then have "im_path ` set (sorted_meta E s) = set (obj_keys (ex_files s))" by simp
  moreover have "set (ex_tabs s) \<subseteq> set (obj_keys (ex_files s))" using assms(1) by (simp add: project_open_def)
  ultimately show "set (saved_tabs E s) = set (ex_tabs s)"
    unfolding saved_tabs_def using isT by (auto simp: image_iff) (metis (no_types, lifting) imageE subsetD)
qed

lemma tab_order_consistent:
  assumes "\<And>m. m \<in> S \<Longrightarrow> im_isTabs m"
  shows "consistent_on (tab_order tabs) S"
  using assms by (auto simp: consistent_on_def tab_order_def)

lemma saved_tabs_order:
  assumes opn: "project_open s wp" and rt: "runtime_ok E s" and all: "set (obj_keys (ex_files s)) \<subseteq> set (ex_tabs s)"
  shows "saved_tabs E s = ex_tabs s"
proof (rule tabs_by_index)
  show "distinct (ex_tabs s)" using opn by (simp add: project_open_def)
  show "distinct (saved_tabs E s)" "set (saved_tabs E s) = set (ex_tabs s)" using saved_tabs_perm [OF opn rt] by blast+
  have "consistent_on (tab_order (ex_tabs s)) (set (map (meta_val s) (ex_files s)))"
    by (rule tab_order_consistent) (use all in \<open>force simp: obj_keys_def\<close>)
  then have "sorted_wrt (\<lambda>a b. tab_order (ex_tabs s) a b \<le> 0) (sorted_meta E s)" using rt by (simp add: runtime_ok_def)
  then have "sorted_wrt (\<lambda>a b. tab_order (ex_tabs s) a b \<le> 0) (filter im_isTabs (sorted_meta E s))"
    by (rule sorted_wrt_filter)
  then have "sorted_wrt (\<lambda>a b. js_index (ex_tabs s) (im_path a) \<le> js_index (ex_tabs s) (im_path b))
      (filter im_isTabs (sorted_meta E s))"
    by (rule sorted_wrt_mono_rel [rotated]) (auto simp: tab_order_def)
  then show "sorted_wrt (\<lambda>a b. js_index (ex_tabs s) a \<le> js_index (ex_tabs s) b) (saved_tabs E s)"
    by (simp add: saved_tabs_def sorted_wrt_map)
qed

lemma current_meta:
  assumes "project_open s wp" and "runtime_ok E s" and "currentFilePath s = Some c" and "c \<in> set (obj_keys (ex_files s))"
  shows "\<exists>m. find im_isCurrent (sorted_meta E s) = Some m \<and> im_path m = c"
proof -
  have ms: "mset (sorted_meta E s) = mset (map (meta_val s) (ex_files s))" using assms(2) by (simp add: runtime_ok_def)
  have isC: "im_isCurrent m \<longleftrightarrow> im_path m = c" if "m \<in> set (sorted_meta E s)" for m
    using that mset_eq_setD [OF ms] assms(3) by auto
  obtain i where "(c, i) \<in> set (ex_files s)" using assms(4) by (auto simp: obj_keys_def)
  then have "meta_val s (c, i) \<in> set (sorted_meta E s)"
    unfolding mset_eq_setD [OF ms] set_map by (rule imageI)
  then have "find im_isCurrent (sorted_meta E s) \<noteq> None" using isC by (auto simp: find_None_iff)
  then show ?thesis using isC find_SomeD by (metis option.exhaust)
qed

lemma file_at_put_file: "file_at (put_file p i s) q = (if q = p then i else file_at s q)"
  by (simp add: file_at_def put_file_def split: option.split)

lemma view_put_meta: "ex_tabs (put_meta m s) = ex_tabs s" "ex_currentIndex (put_meta m s) = ex_currentIndex s"
  by (simp_all add: put_meta_def put_file_def split: option.split)

lemma view_fold_put_meta:
  "ex_tabs (fold put_meta ms s) = ex_tabs s" "ex_currentIndex (fold put_meta ms s) = ex_currentIndex s"
  by (induction ms arbitrary: s) (simp_all add: view_put_meta)

lemma file_at_put_meta:
  "file_at (put_meta m s) q =
     (if q = im_path m then map_option (\<lambda>i. if ii_content i = None then i else i\<lparr>ii_meta := Some (im_position m)\<rparr>) (file_at s q)
      else file_at s q)"
  by (auto simp: put_meta_def file_at_put_file split: option.split)

lemma file_at_fold_other: "q \<notin> im_path ` set ms \<Longrightarrow> file_at (fold put_meta ms s) q = file_at s q"
  by (induction ms arbitrary: s) (auto simp: file_at_put_meta)

lemma file_at_fold:
  "distinct (map im_path ms) \<Longrightarrow> m \<in> set ms \<Longrightarrow> file_at s (im_path m) = Some i \<Longrightarrow> ii_content i \<noteq> None \<Longrightarrow>
     file_at (fold put_meta ms s) (im_path m) = Some (i\<lparr>ii_meta := Some (im_position m)\<rparr>)"
proof (induction ms arbitrary: s)
  case (Cons x ms)
  show ?case
  proof (cases "m = x")
    case True
    then have "im_path m \<notin> im_path ` set ms" using Cons.prems(1) by simp
    then show ?thesis using Cons.prems True by (auto simp: file_at_fold_other file_at_put_meta)
  next
    case False
    then have "m \<in> set ms" using Cons.prems by simp
    then have "im_path m \<noteq> im_path x" using Cons.prems(1) by (auto intro: rev_image_eqI)
    note this \<open>m \<in> set ms\<close>
    then show ?thesis using Cons by (simp add: file_at_put_meta)
  qed
qed simp

lemma fold_put_meta_back:
  assumes "file_at (fold put_meta ms s) p = Some j" and "ii_content j \<noteq> None"
  obtains i where "file_at s p = Some i" "ii_content i \<noteq> None"
  using assms
proof (induction ms arbitrary: s thesis)
  case (Cons m ms)
  obtain i where "file_at (put_meta m s) p = Some i" "ii_content i \<noteq> None"
    using Cons.IH [of "put_meta m s"] Cons.prems(2,3) by auto
  then show ?case using Cons.prems(1) by (auto simp: file_at_put_meta split: if_splits)
qed auto

lemma load_meta_reads:
  assumes opn: "project_open s wp" and rt: "runtime_ok E s" and cur: "currentFilePath s = Some c" and ok: "ex_ok s"
    and t: "v_readFile E (wp @ METADATA_PATH) (ex_disk t) = Inr (e_printMeta E (saved_meta E s))"
      "ex_workspace t = ex_workspace s" "\<not> ex_isTemporary t"
  shows "\<exists>es. load_meta E t =
    (Val (), fold put_meta (sorted_meta E s)
       (t\<lparr>ex_tabs := saved_tabs E s, ex_events := es, ex_currentIndex := js_index (saved_tabs E s) c\<rparr>))"
proof -
  have ms: "mset (sorted_meta E s) = mset (map (meta_val s) (ex_files s))" using rt by (simp add: runtime_ok_def)
  have wp: "getCurrentWorkspacePath t = Some wp"
    using opn same_list_path [OF t(2)] by (simp add: project_open_def)
  have conv: "convertToFullPath t r = Inr (wp @ r)" if "\<not> is_full r" for r
    by (rule convert_relative [OF wp t(3) that])
  have parse: "e_parseMeta E (e_printMeta E (saved_meta E s)) = Some (MetaList (saved_meta E s))"
    using rt by (simp add: runtime_ok_def)
  have rd: "pgfs_readToJSONOrDefault E (e_parseMeta E) METADATA_PATH (MetaList []) t = (Val (MetaList (saved_meta E s)), t)"
    using conv [of METADATA_PATH] t(1) parse
    by (simp add: pgfs_readToJSONOrDefault_def pgfs_readToJSON_def pgfs_readToString_def full_def peek_def act_defs
        METADATA_PATH_def WORKSPACE_PATH_def joinPaths_def appendSlash_def)
  have "map_act full_meta (saved_meta E s) t =
      (Val (map (\<lambda>m. m\<lparr>im_path := wp @ im_path m\<rparr>) (saved_meta E s)), t)"
  proof (rule map_act_pure)
    fix m assume "m \<in> set (saved_meta E s)"
    then have "\<not> is_full (im_path m)"
      using meta_paths(2) [OF opn ms] opn by (auto simp: saved_meta_def project_open_def)
    then show "full_meta m t = (Val (m\<lparr>im_path := wp @ im_path m\<rparr>), t)"
      by (simp add: full_meta_def full_def bnd_def lift_sum_def ret_def conv)
  qed
  moreover have "map (\<lambda>m. m\<lparr>im_path := wp @ im_path m\<rparr>) (saved_meta E s) = sorted_meta E s"
  proof -
    have "wp @ drop (length wp) (im_path m) = im_path m" if "m \<in> set (sorted_meta E s)" for m
      using meta_paths(1) [OF opn ms that] by (auto simp: prefix_def)
    then show ?thesis using opn by (auto simp: saved_meta_def project_open_def intro!: map_idI)
  qed
  ultimately have full: "map_act full_meta (saved_meta E s) t = (Val (sorted_meta E s), t)" by simp
  note perm = saved_tabs_perm [OF opn rt]
  have tabs: "js_set (saved_tabs E s) = saved_tabs E s" using perm(1) by (simp add: js_set_def distinct_remdups_id)
  have cmem: "c \<in> set (ex_tabs s)" using current_full [OF ok cur] by simp
  then have ckey: "c \<in> set (obj_keys (ex_files s))" using opn by (auto simp: project_open_def)
  obtain m where m: "find im_isCurrent (sorted_meta E s) = Some m" "im_path m = c"
    using current_meta [OF opn rt cur ckey] by blast
  have "js_index (saved_tabs E s) c \<noteq> -1" using cmem perm(2) by (metis js_index_missing)
  then have "load_meta E t = (Val (), fold put_meta (sorted_meta E s)
       (t\<lparr>ex_tabs := saved_tabs E s, ex_events := ex_events t @ [DidSetTabs], ex_currentIndex := js_index (saved_tabs E s) c\<rparr>))"
    using rd full m tabs cmem
    by (simp add: load_meta_def setTabs_def put_tabs_def emit_def act_defs Let_def flip: saved_tabs_def)
  then show ?thesis by blast
qed

lemma reads_leave:
  "leaves pr (full p)" "leaves pr (peek f)" "leaves pr (pgfs_readDir E p)" "leaves pr (pgfs_getMetadata E p)"
  "leaves pr (pgfs_readToString E p)"
  by (auto simp: full_def peek_def pgfs_readDir_def pgfs_getMetadata_def pgfs_readToString_def intro!: leaves_rules)

lemma setup_leaves:
  assumes "\<And>s fs. pr (s\<lparr>ex_files := fs\<rparr>) = pr s"
  shows "leaves pr (setupFiles n E path)"
  by (induction n arbitrary: path)
    (auto simp: setupFiles.simps put_file_def assms intro!: leaves_rules reads_leave leaves_modify)

text \<open>
  C9: a reload brings a project back as it was left. The metadata of an open project (its files lie in its folder, its tabs are
  files, each once, and one is current) has been saved, and the workspace is opened again from the volume, in this tab or another one
  and whatever tabs it showed before, its folder being readable. Then the tabs are the same ones, the same file is current, and every
  file that was read again has the caret position and the scroll position it had. The tabs are in the same order if
  every file of the project is a tab: of two files that are none, the comparator of the sort puts each after the other, and the
  language then promises no order. The writes of the volume succeed and are read back, through a flush; JSON reads
  back what it printed; the sort returns the same entries, in order where its comparator is consistent.
\<close>

theorem reload_keeps_tabs:
  assumes "project_open s wp" and "runtime_ok E s" and "ex_ok s" and "currentFilePath s = Some c"
    and "saveMeta E s = (Val (), s')"
    and "ex_disk t = ex_disk s'" and "ex_workspace t = ex_workspace s" and "\<not> ex_isTemporary t"
    and "fst (setupFiles depth E wp (t\<lparr>ex_files := []\<rparr>)) = Val ()"
  shows "\<exists>t'. initCurrentWorkspace depth E t = (Val (), t') \<and> mset (ex_tabs t') = mset (ex_tabs s) \<and>
    currentFilePath t' = Some c \<and> (set (obj_keys (ex_files s)) \<subseteq> set (ex_tabs s) \<longrightarrow> ex_tabs t' = ex_tabs s) \<and>
    (\<forall>p i j. file_at s p = Some i \<and> file_at t' p = Some j \<and> ii_content j \<noteq> None \<longrightarrow>
      ii_meta j = Some (Option.bind (ii_meta i) id))"
proof -
  obtain u where u: "setupFiles depth E wp (t\<lparr>ex_files := []\<rparr>) = (Val (), u)"
    using assms(9) by (metis prod.collapse)
  have "leaves (\<lambda>s. (ex_disk s, ex_workspace s, ex_isTemporary s)) (setupFiles depth E wp)"
    by (rule setup_leaves) simp
  from leavesD [OF this u] have u': "ex_disk u = ex_disk s'" "ex_workspace u = ex_workspace s" "\<not> ex_isTemporary u"
    using assms(6-8) by auto
  obtain es where load: "load_meta E u = (Val (), fold put_meta (sorted_meta E s)
       (u\<lparr>ex_tabs := saved_tabs E s, ex_events := es, ex_currentIndex := js_index (saved_tabs E s) c\<rparr>))"
    using load_meta_reads [OF assms(1,2,4,3), of u] saveMeta_writes(1) [OF assms(1,2,5)] u' by auto
  define u2 where "u2 = u\<lparr>ex_tabs := saved_tabs E s, ex_events := es, ex_currentIndex := js_index (saved_tabs E s) c\<rparr>"
  have path: "getCurrentWorkspacePath t = Some wp"
    using same_list_path [OF assms(7)] assms(1) by (simp add: project_open_def)
  have run: "initCurrentWorkspace depth E t = (Val (), fold put_meta (sorted_meta E s) u2)"
    using path u load by (simp add: initCurrentWorkspace_def act_defs u2_def)
  have ms: "mset (sorted_meta E s) = mset (map (meta_val s) (ex_files s))" using assms(2) by (simp add: runtime_ok_def)
  have dist: "distinct (map im_path (sorted_meta E s))"
    using map_im_path_mset [OF ms] assms(1) by (metis mset_eq_imp_distinct_iff project_open_def)
  have pos: "ii_meta j = Some (Option.bind (ii_meta i) id)"
    if pij: "file_at s p = Some i" "file_at (fold put_meta (sorted_meta E s) u2) p = Some j" "ii_content j \<noteq> None" for p i j
  proof -
    have "(p, Some i) \<in> set (ex_files s)"
      using pij(1) by (auto simp: file_at_def split: option.splits dest: map_of_SomeD)
    then have "meta_val s (p, Some i) \<in> set (sorted_meta E s)"
      unfolding mset_eq_setD [OF ms] set_map by (rule imageI)
    moreover obtain i0 where i0: "file_at u2 p = Some i0" "ii_content i0 \<noteq> None"
      using pij(2,3) by (rule fold_put_meta_back)
    ultimately have "file_at (fold put_meta (sorted_meta E s) u2) p =
        Some (i0\<lparr>ii_meta := Some (im_position (meta_val s (p, Some i)))\<rparr>)"
      using file_at_fold [OF dist, of "meta_val s (p, Some i)" u2 i0] by simp
    then show ?thesis using pij(2) by auto
  qed
  note perm = saved_tabs_perm [OF assms(1,2)]
  have "distinct (ex_tabs s)" using assms(1) by (simp add: project_open_def)
  then have same: "mset (saved_tabs E s) = mset (ex_tabs s)" using perm by (metis set_eq_iff_mset_eq_distinct)
  have "c \<in> set (saved_tabs E s)" using current_full [OF assms(3,4)] perm(2) by simp
  then have "js_get (saved_tabs E s) (js_index (saved_tabs E s) c) = Some c" "js_index (saved_tabs E s) c \<noteq> -1"
    by (simp, metis js_index_missing)
  then have current: "currentFilePath (fold put_meta (sorted_meta E s) u2) = Some c"
    by (simp only: currentFilePath_def view_fold_put_meta u2_def) simp
  show ?thesis
  proof (intro exI conjI allI impI)
    show "initCurrentWorkspace depth E t = (Val (), fold put_meta (sorted_meta E s) u2)" by (rule run)
  qed (auto simp: view_fold_put_meta same current saved_tabs_order [OF assms(1,2)] pos [unfolded u2_def] u2_def [symmetric],
      auto simp: u2_def same saved_tabs_order [OF assms(1,2)] pos [unfolded u2_def])
qed

text \<open>A project with two tabs and two files that are none.\<close>

definition example_project :: "string js_obj explorer" where
  "example_project = example_tab
     \<lparr>ex_workspace := Some \<lparr>wk_workspaces = [\<lparr>we_id = ''u2'', we_name = ''app''\<rparr>], wk_currentId = Some ''u2''\<rparr>,
      ex_files := [(''/app/src/lib.rs'', Some \<lparr>ii_content = Some ''fn'', ii_meta = Some None\<rparr>),
                   (''/app/src/b.rs'', Some \<lparr>ii_content = Some ''x'', ii_meta = Some (Some
                      \<lparr>pos_topLineNumber = 4, pos_from = 7, pos_to = 9\<rparr>)\<rparr>),
                   (''/app/src/c.rs'', Some \<lparr>ii_content = Some ''y'', ii_meta = Some None\<rparr>),
                   (''/app/src/d.rs'', Some \<lparr>ii_content = Some ''z'', ii_meta = Some None\<rparr>)],
      ex_tabs := [''/app/src/b.rs'', ''/app/src/lib.rs''], ex_currentIndex := 1\<rparr>"

definition example_meta :: "item_meta list" where
  "example_meta =
     [\<lparr>im_path = ''src/b.rs'', im_isTabs = True, im_isCurrent = False,
       im_position = Some \<lparr>pos_topLineNumber = 4, pos_from = 7, pos_to = 9\<rparr>\<rparr>,
      \<lparr>im_path = ''src/lib.rs'', im_isTabs = True, im_isCurrent = True, im_position = None\<rparr>,
      \<lparr>im_path = ''src/c.rs'', im_isTabs = False, im_isCurrent = False, im_position = None\<rparr>,
      \<lparr>im_path = ''src/d.rs'', im_isTabs = False, im_isCurrent = False, im_position = None\<rparr>]"

lemma example_runtime: "runtime_ok (mem_env example_meta) example_project"
proof -
  let ?all = "map (meta_val example_project) (ex_files example_project)"
  have saved: "saved_meta (mem_env example_meta) example_project = example_meta" by code_simp
  have "sorted_meta (mem_env example_meta) example_project = [?all ! 1, ?all ! 0, ?all ! 2, ?all ! 3]" by code_simp
  moreover have swap: "mset [b, a, c, d] = mset xs" if "xs = [a, b, c, d]" for a b c d :: item_meta and xs
    using that by (simp add: add_mset_commute)
  have "mset [?all ! 1, ?all ! 0, ?all ! 2, ?all ! 3] = mset ?all" by (rule swap) code_simp
  ultimately have perm: "mset (sorted_meta (mem_env example_meta) example_project) = mset ?all" by (simp only:)
  have "\<not> im_isTabs (?all ! 2)" "?all ! 2 \<in> set ?all" by code_simp+
  then have "\<not> consistent_on (tab_order (ex_tabs example_project)) (set ?all)"
    unfolding consistent_on_def tab_order_def by force
  moreover have "\<forall>p c d. fst (v_writeFile (mem_env example_meta) p c d) = None \<and>
      v_readFile (mem_env example_meta) p (snd (v_writeFile (mem_env example_meta) p c d)) = Inr c"
    "\<forall>p d. v_readFile (mem_env example_meta) p (snd (v_flush (mem_env example_meta) d)) = v_readFile (mem_env example_meta) p d"
    "e_parseMeta (mem_env example_meta) (e_printMeta (mem_env example_meta) example_meta) = Some (MetaList example_meta)"
    by (simp_all add: mem_env_def)
  ultimately show ?thesis using perm unfolding runtime_ok_def saved by blast
qed

theorem reload_keeps_tabs_witness:
  "\<exists>t'. initCurrentWorkspace 4 (mem_env example_meta)
       (example_tab\<lparr>ex_workspace := ex_workspace example_project,
          ex_disk := ex_disk (snd (saveMeta (mem_env example_meta) example_project))\<rparr>) = (Val (), t') \<and>
     mset (ex_tabs t') = mset [''/app/src/b.rs'', ''/app/src/lib.rs''] \<and> currentFilePath t' = Some ''/app/src/lib.rs''"
proof -
  let ?E = "mem_env example_meta" and ?s = example_project
  let ?t = "example_tab\<lparr>ex_workspace := ex_workspace ?s, ex_disk := ex_disk (snd (saveMeta ?E ?s))\<rparr>"
  have opn: "project_open ?s ''/app/''" by code_simp
  have ok: "ex_ok ?s" by code_simp
  have cur: "currentFilePath ?s = Some ''/app/src/lib.rs''" by code_simp
  have "fst (saveMeta ?E ?s) = Val ()" by code_simp
  then have save: "saveMeta ?E ?s = (Val (), snd (saveMeta ?E ?s))" by (metis prod.collapse)
  have temp: "\<not> ex_isTemporary ?t" by code_simp
  have rd: "fst (setupFiles 4 ?E ''/app/'' (?t\<lparr>ex_files := []\<rparr>)) = Val ()" by code_simp
  have shown: "ex_tabs ?s = [''/app/src/b.rs'', ''/app/src/lib.rs'']" by (simp add: example_project_def)
  show ?thesis
    using reload_keeps_tabs [OF opn example_runtime ok cur save, of ?t 4] temp rd unfolding shown by auto
qed

end
