(* ===== verification/Explorer_Effects.thy ===== *)
theory Explorer_Effects
  imports Explorer_Reload
begin

text \<open>
  What single operations of the explorer do: closing a file, creating an item, taking the list of workspaces another tab
  has written; and the runs on a volume in memory that show the theorems at work.
\<close>

section \<open>Opening and closing\<close>

lemma getCurrentFile_total: "ex_ok s \<Longrightarrow> \<exists>f. getCurrentFile s = Inr f"
  by (cases "currentFilePath s") (auto simp: getCurrentFile_def getFile_def truthy_def dest: current_full)

lemma announce_open_total: "ex_ok s \<Longrightarrow> \<exists>es. announce_open s = (Val (), s\<lparr>ex_events := es\<rparr>)"
  using getCurrentFile_total [of s] by (auto simp: announce_open_def emit_def act_defs)

lemma openFile_effect:
  assumes "ex_ok s" and "is_full q" and "currentFilePath s \<noteq> Some q"
  shows "\<exists>es. openFile q s =
    (Val (), (if q \<in> set (ex_tabs s) then s else s\<lparr>ex_tabs := ex_tabs s @ [q]\<rparr>)
       \<lparr>ex_currentIndex := js_index (if q \<in> set (ex_tabs s) then ex_tabs s else ex_tabs s @ [q]) q, ex_events := es\<rparr>)"
proof -
  let ?s1 = "if q \<in> set (ex_tabs s) then s else s\<lparr>ex_tabs := ex_tabs s @ [q]\<rparr>"
  let ?s2 = "?s1\<lparr>ex_currentIndex := js_index (ex_tabs ?s1) q\<rparr>"
  have "ex_ok ?s2" by (intro ok_point ok_push_tab assms)
  then obtain es where es: "announce_open ?s2 = (Val (), ?s2\<lparr>ex_events := es\<rparr>)" using announce_open_total by blast
  have "openFile q s = announce_open ?s2"
    using assms(2,3) by (simp add: openFile_def full_def act_defs)
  then show ?thesis using es by (intro exI [of _ es]) simp
qed

lemma js_at_neg2: "js_at xs (-2) = (if 2 \<le> length xs then Some (xs ! (length xs - 2)) else None)"
  by (auto simp: js_at_def js_get_def nat_diff_distrib')

lemma splice_missing: "x \<notin> set xs \<Longrightarrow> splice_one xs (js_index xs x) = butlast xs"
  by (cases xs rule: rev_cases) (auto simp: splice_one_def without_index_def js_index_missing [THEN iffD2])

lemma splice_present: "x \<in> set xs \<Longrightarrow> splice_one xs (js_index xs x) = remove1 x xs"
proof -
  assume "x \<in> set xs"
  then obtain i where i: "i < length xs" "js_index xs x = int i" "xs ! i = x" "x \<notin> set (take i xs)"
    by (rule js_index_nth)
  have "xs = take i xs @ x # drop (Suc i) xs" using i id_take_nth_drop by metis
  then have "remove1 x xs = take i xs @ drop (Suc i) xs" using i(4) by (metis remove1.simps(2) remove1_append)
  then show ?thesis by (simp add: splice_one_def without_index_def i)
qed

definition tabs_without :: "string \<Rightarrow> string list \<Rightarrow> string list" where
  "tabs_without p tabs = (if p \<in> set tabs then remove1 p tabs else butlast tabs)"

lemma drop_tab_effect:
  "ex_ok s \<Longrightarrow> currentFilePath s = Some c \<Longrightarrow>
     drop_tab p s = s\<lparr>ex_tabs := tabs_without p (ex_tabs s), ex_currentIndex := js_index (tabs_without p (ex_tabs s)) c\<rparr>"
  using current_full [of s c] by (simp add: drop_tab_def Let_def tabs_without_def splice_missing splice_present)

lemma closeFile_drop:
  assumes "is_full p" and "\<not> (currentFilePath s = Some p \<and> truthy (next_tab s))"
  shows "closeFile p s = (Val (), (drop_tab p s)\<lparr>ex_events := ex_events (drop_tab p s) @ [DidCloseFile]\<rparr>)"
  using assms by (auto simp: closeFile_def full_def emit_def act_defs)

text \<open>The tab that takes over when the current one is closed: the one after it, or else the one before it.\<close>

definition neighbour :: "string list \<Rightarrow> nat \<Rightarrow> string option" where
  "neighbour tabs i =
     (if Suc i < length tabs then Some (tabs ! Suc i) else if i = 0 then None else Some (tabs ! (i - 1)))"

lemma next_tab_neighbour:
  assumes "ex_currentIndex s = int i" and "i < length (ex_tabs s)"
  shows "next_tab s = neighbour (ex_tabs s) i"
proof (cases "Suc i < length (ex_tabs s)")
  case True
  then have "js_at (ex_tabs s) (int i + 1) = Some (ex_tabs s ! Suc i)"
    by (simp add: js_at_def js_get_def) (metis Suc_as_int nat_int)
  then show ?thesis using True assms by (simp add: next_tab_def neighbour_def)
next
  case False
  then have l: "length (ex_tabs s) = Suc i" using assms(2) by simp
  then have "js_at (ex_tabs s) (int i + 1) = None" by (simp add: js_at_def js_get_def)
  then show ?thesis using assms l by (cases i) (simp_all add: next_tab_def neighbour_def js_at_neg2)
qed

lemma current_at_index: "c \<in> set tabs \<Longrightarrow> currentFilePath (s\<lparr>ex_tabs := tabs, ex_currentIndex := js_index tabs c, ex_events := es\<rparr>) = Some c"
  by (simp add: currentFilePath_def)

text \<open>
  Closing a file while a file is current, the tabs being distinct. A file that has a tab loses it, and only it: if it
  was not the current file, that stays; if it was, the tab after it takes over, or the one before it at the end, or none
  is left. A file that has no tab makes the last tab go instead, whichever that is.
\<close>

lemma close_file_effect:
  assumes "ex_ok s" and "distinct (ex_tabs s)" and "is_full p" and "ex_currentIndex s = int i"
    and "i < length (ex_tabs s)"
  shows "\<exists>s'. closeFile p s = (Val (), s') \<and>
    ex_tabs s' = (if p \<in> set (ex_tabs s) then remove1 p (ex_tabs s) else butlast (ex_tabs s)) \<and>
    (p \<in> set (ex_tabs s) \<longrightarrow>
       currentFilePath s' = (if p \<noteq> ex_tabs s ! i then Some (ex_tabs s ! i) else neighbour (ex_tabs s) i))"
proof -
  define c where "c = ex_tabs s ! i"
  have cur: "currentFilePath s = Some c" using assms(4,5) by (simp add: currentFilePath_def js_get_def c_def)
  have cin: "c \<in> set (ex_tabs s)" using assms(5) by (simp add: c_def)
  note nt = next_tab_neighbour [OF assms(4,5)]
  show ?thesis
  proof (cases "p = c \<and> truthy (next_tab s)")
    case False
    then have run: "closeFile p s = (Val (), (drop_tab p s)\<lparr>ex_events := ex_events (drop_tab p s) @ [DidCloseFile]\<rparr>)"
      using closeFile_drop [OF assms(3), of s] cur by auto
    have "currentFilePath ((drop_tab p s)\<lparr>ex_events := es\<rparr>) = (if p \<noteq> c then Some c else neighbour (ex_tabs s) i)"
      if "p \<in> set (ex_tabs s)" for es
    proof (cases "p = c")
      case True
      then have "\<not> truthy (neighbour (ex_tabs s) i)" using False nt by simp
      moreover have "x \<in> set (ex_tabs s) \<Longrightarrow> x \<noteq> []" for x using assms(1) by (auto simp: ex_ok_def list_all_iff)
      ultimately have none: "neighbour (ex_tabs s) i = None"
        using assms(5) by (auto simp: neighbour_def truthy_def split: if_splits)
      then have "i = 0" "\<not> Suc 0 < length (ex_tabs s)" by (auto simp: neighbour_def split: if_splits)
      then have "length (ex_tabs s) = 1" using assms(5) by linarith
      then have "ex_tabs s = [c]" using assms(5) by (cases "ex_tabs s") (auto simp: c_def)
      then show ?thesis
        using True none drop_tab_effect [OF assms(1) cur, of p]
        by (simp add: tabs_without_def currentFilePath_def js_index_def)
    next
      case False
      then have "c \<in> set (remove1 p (ex_tabs s))" using cin by simp
      then show ?thesis
        using False that drop_tab_effect [OF assms(1) cur, of p] by (simp add: tabs_without_def currentFilePath_def)
    qed
    then show ?thesis using run drop_tab_effect [OF assms(1) cur, of p]
      by (simp add: tabs_without_def c_def)
  next
    case True
    then obtain n where n: "neighbour (ex_tabs s) i = Some n" using nt by (auto simp: truthy_def)
    then have nin: "n \<in> set (ex_tabs s)" and nc: "n \<noteq> c"
      using assms(2,5) by (auto simp: neighbour_def c_def nth_eq_iff_index_eq split: if_splits)
    have nfull: "is_full n" using assms(1) nin by (auto simp: ex_ok_def list_all_iff)
    obtain es where op: "openFile n s = (Val (), s\<lparr>ex_currentIndex := js_index (ex_tabs s) n, ex_events := es\<rparr>)"
      using openFile_effect [OF assms(1) nfull] nc cur nin by auto
    define s1 where "s1 = s\<lparr>ex_currentIndex := js_index (ex_tabs s) n, ex_events := es\<rparr>"
    have ok1: "ex_ok s1" using ok_point [OF assms(1), of n] by (simp add: s1_def ex_ok_def)
    have cur1: "currentFilePath s1 = Some n" using nin by (simp add: s1_def currentFilePath_def)
    have "closeFile p s = (Val (), (drop_tab p s1)\<lparr>ex_events := ex_events (drop_tab p s1) @ [DidCloseFile]\<rparr>)"
      using True assms(3) cur nt n op by (simp add: closeFile_def full_def emit_def act_defs s1_def)
    moreover have "n \<in> set (remove1 c (ex_tabs s))" using nin nc by simp
    ultimately show ?thesis
      using drop_tab_effect [OF ok1 cur1, of p] True n cin
      by (simp add: tabs_without_def currentFilePath_def s1_def c_def)
  qed
qed

lemma close_file_effect_example:
  "\<exists>s'. closeFile ''/app/src/lib.rs'' example_project = (Val (), s') \<and> ex_tabs s' = [''/app/src/b.rs''] \<and>
     currentFilePath s' = Some ''/app/src/b.rs''"
proof -
  have "ex_ok example_project" by code_simp
  then show ?thesis
    using close_file_effect [of example_project "''/app/src/lib.rs''" 1]
    by (simp add: example_project_def neighbour_def)
qed

section \<open>Creating an item\<close>

lemma files_refresh_open:
  "leaves ex_files (openFile p)" "leaves ex_files (closeFile p)" "leaves ex_files (refresh_open opts p)"
proof -
  have e: "leaves ex_files (emit ev)" "leaves ex_files announce_open" for ev
    by (auto simp: emit_def announce_open_def intro!: leaves_rules leaves_modify)
  show o: "leaves ex_files (openFile q)" for q
    unfolding openFile_def by (intro leaves_rules leaves_modify reads_leave e) simp_all
  show c: "leaves ex_files (closeFile p)"
    unfolding closeFile_def by (intro leaves_rules leaves_modify reads_leave e o) (auto simp: drop_tab_def Let_def)
  show "leaves ex_files (refresh_open opts p)"
    unfolding refresh_open_def by (intro leaves_rules o c)
qed

text \<open>What an action ends with, its value dropped: the error, the lack of depth, or nothing.\<close>

definition failed :: "('e, 'a) res \<Rightarrow> bool" where
  "failed r \<longleftrightarrow> (\<forall>x. r \<noteq> Val x)"

definition created :: "string \<Rightarrow> string \<Rightarrow> item_info option \<Rightarrow> item_info" where
  "created p content old = (if getItemTypeFromPath p = IsFile then new_file content old else EMPTY_ITEM)"

lemma create_in_state_files:
  "map_of (ex_files (snd (seq (create_in_state p content opts old) (seq (emit DidCreateItem) (saveMeta E)) s))) =
     (map_of (ex_files s))(p \<mapsto> Some (created p content old))"
proof -
  have put: "map_of (ex_files (put_file p i s)) = (map_of (ex_files s))(p \<mapsto> i)" for i by (simp add: put_file_def)
  have rest: "leaves ex_files (seq (emit DidCreateItem) (saveMeta E))"
    by (intro leaves_rules) (simp_all add: aside_def)
  have "\<exists>k. leaves ex_files k \<and> seq (create_in_state p content opts old) (seq (emit DidCreateItem) (saveMeta E)) s =
      k (put_file p (Some (created p content old)) s)"
  proof (cases "getItemTypeFromPath p = IsFile")
    case True
    have "leaves ex_files (seq (refresh_open opts p) (seq (emit DidCreateItem) (saveMeta E)))"
      by (intro leaves_seq files_refresh_open rest)
    moreover have "seq (create_in_state p content opts old) (seq (emit DidCreateItem) (saveMeta E)) s =
        seq (refresh_open opts p) (seq (emit DidCreateItem) (saveMeta E)) (put_file p (Some (created p content old)) s)"
      using True by (simp add: create_in_state_def created_def seq_def bnd_def modify_def split: prod.split res.split)
    ultimately show ?thesis by blast
  next
    case False
    then have "seq (create_in_state p content opts old) (seq (emit DidCreateItem) (saveMeta E)) s =
        seq (emit DidCreateItem) (saveMeta E) (put_file p (Some (created p content old)) s)"
      by (simp add: create_in_state_def created_def seq_def [of "modify f" for f] bnd_def [of "modify f" for f] modify_def)
    then show ?thesis using rest by blast
  qed
  then obtain k where k: "leaves ex_files k"
    "seq (create_in_state p content opts old) (seq (emit DidCreateItem) (saveMeta E)) s =
      k (put_file p (Some (created p content old)) s)" by blast
  then show ?thesis using put by (simp add: leaves_def)
qed

text \<open>
  C7: creating an item, on every branch. A name that is not valid and a path that is taken are refused with nothing changed.
  A failure of the volume is passed on and leaves files, tabs and current file as they were. Otherwise the files
  are those before with the item at its path, and the others are untouched, even when saving the metadata fails afterwards.
\<close>

theorem create_follows_volume:
  assumes "convertToFullPath s path = Inr p"
  shows "let old = file_at s p; (r, s') = createItem E path content opts s;
      (dr, ds) = only_if (\<not> ex_isTemporary s) (create_on_disk E p content (old \<noteq> None)) s
    in if \<not> co_skipNameValidation opts \<and> \<not> isItemNameValid (getItemNameFromPath p)
       then (r, s') = (Exn InvalidItemName, s)
       else if old \<noteq> None \<and> \<not> co_override opts then (r, s') = (Exn ItemExists, s)
       else if failed dr then r = dr \<and> view s' = view s
       else map_of (ex_files s') = (map_of (ex_files s))(p \<mapsto> Some (created p content old))"
proof -
  define old where "old = file_at s p"
  let ?disk = "only_if (\<not> ex_isTemporary s) (create_on_disk E p content (old \<noteq> None))"
  let ?rest = "seq (create_in_state p content opts old) (seq (emit DidCreateItem) (saveMeta E))"
  obtain r s' where r: "createItem E path content opts s = (r, s')" by fastforce
  obtain dr ds where ds: "?disk s = (dr, ds)" by fastforce
  have still': "still ?disk" by (intro leaves_rules)
  have view: "view ds = view s" by (rule leavesD [OF still' ds])
  have run: "createItem E path content opts s =
      (if \<not> co_skipNameValidation opts \<and> \<not> isItemNameValid (getItemNameFromPath p) then (Exn InvalidItemName, s)
       else if old \<noteq> None \<and> \<not> co_override opts then (Exn ItemExists, s) else seq ?disk ?rest s)"
    using assms unfolding old_def
    by (simp add: createItem_def full_def bnd_def lift_sum_def gets_def throw_def)
  have disk_ok: "map_of (ex_files (snd (seq ?disk ?rest s))) = (map_of (ex_files s))(p \<mapsto> Some (created p content old))"
    if "\<not> failed dr"
    using that ds view create_in_state_files [of p content opts old E ds]
    by (auto simp: failed_def seq_then view_def)
  have disk_failed: "fst (seq ?disk ?rest s) = dr \<and> snd (seq ?disk ?rest s) = ds" if "failed dr"
    using that ds by (cases dr) (auto simp: failed_def seq_def bnd_def)
  have "if \<not> co_skipNameValidation opts \<and> \<not> isItemNameValid (getItemNameFromPath p)
       then (r, s') = (Exn InvalidItemName, s)
       else if old \<noteq> None \<and> \<not> co_override opts then (r, s') = (Exn ItemExists, s)
       else if failed dr then r = dr \<and> view s' = view s
       else map_of (ex_files s') = (map_of (ex_files s))(p \<mapsto> Some (created p content old))"
  proof -
    define out where "out = seq ?disk ?rest s"
    have "(r, s') = (if \<not> co_skipNameValidation opts \<and> \<not> isItemNameValid (getItemNameFromPath p) then (Exn InvalidItemName, s)
       else if old \<noteq> None \<and> \<not> co_override opts then (Exn ItemExists, s) else out)"
      using run r by (simp add: out_def)
    then show ?thesis
      using disk_ok [folded out_def] disk_failed [folded out_def] view by (cases out) (simp split: if_splits)
  qed
  then show ?thesis unfolding r old_def [symmetric] using ds by (simp add: Let_def)
qed

theorem create_follows_volume_witness:
  "fst (createItem (mem_env []) ''src/b.rs'' ''y'' NO_OPTIONS example_project) = Exn ItemExists \<and>
   map_of (ex_files (snd (createItem (mem_env []) ''src/e.rs'' ''y'' NO_OPTIONS example_project))) ''/app/src/e.rs'' =
     Some (Some (new_file ''y'' None))"
proof -
  have b: "convertToFullPath example_project ''src/b.rs'' = Inr ''/app/src/b.rs''" by code_simp
  have c: "convertToFullPath example_project ''src/e.rs'' = Inr ''/app/src/e.rs''" by code_simp
  have names: "isItemNameValid (getItemNameFromPath ''/app/src/b.rs'')" "isItemNameValid (getItemNameFromPath ''/app/src/e.rs'')"
    by code_simp+
  have old: "file_at example_project ''/app/src/b.rs'' \<noteq> None" "file_at example_project ''/app/src/e.rs'' = None" by code_simp+
  have opts: "\<not> co_override NO_OPTIONS" by (simp add: NO_OPTIONS_def)
  have isfile: "getItemTypeFromPath ''/app/src/e.rs'' = IsFile" by code_simp
  have disk: "\<not> failed (fst (only_if (\<not> ex_isTemporary example_project)
      (create_on_disk (mem_env []) ''/app/src/e.rs'' ''y'' False) example_project))"
  proof -
    have "fst (only_if (\<not> ex_isTemporary example_project)
      (create_on_disk (mem_env []) ''/app/src/e.rs'' ''y'' False) example_project) = Val ()" by code_simp
    then show ?thesis by (simp add: failed_def)
  qed
  show ?thesis
    using create_follows_volume [OF b, of "mem_env []" "''y''" NO_OPTIONS]
      create_follows_volume [OF c, of "mem_env []" "''y''" NO_OPTIONS] names old opts disk
    by (auto simp: Let_def split_beta created_def isfile)
qed

text \<open>
  Deleting a workspace that is not the current one marks its parent folder, the root, in the files of the open project.
  No path outside the project's folder may be there, so from then on the metadata is not saved.
\<close>

lemma parent_of_workspace: "getParentPathFromPath ''/other/'' = Some ''/''"
  by code_simp

lemma root_blocks_metadata:
  assumes "getCurrentWorkspacePath s = Some wp" and "wp \<noteq> ''/''" and "obj_has (ex_files s) ''/''"
  shows "saveMeta E s = (Val (), s)"
proof -
  have "wp \<noteq> []" using currentPath_slash [OF assms(1)] by auto
  then have "\<not> prefix wp ''/''" using assms(2) by (cases wp) auto
  then have "list_ex (\<lambda>p. \<not> prefix wp p) (obj_keys (ex_files s))"
    using assms(3) by (auto simp: obj_has_keys list_ex_iff)
  then show ?thesis using assms(1) by (simp add: saveMeta_def act_defs)
qed

section \<open>Taking the list another tab has written\<close>

text \<open>
  A refresh replaces the list only where memory holds what this tab last saved or read, before and after the read: a
  create, rename or delete of this tab that was made or saved meanwhile is never undone. The current workspace stays.
\<close>

lemma refresh_never_undoes:
  assumes "ex_workspace s = Some w" and "take_list E saved stored s = (Val b, t)" and "ex_workspace t = Some w'"
  shows "wk_currentId w' = wk_currentId w"
    "wk_workspaces w' \<noteq> wk_workspaces w \<Longrightarrow>
       b \<and> Some (e_printList E (wk_workspaces w)) = saved \<and> ex_savedWorkspaces s = saved \<and> wk_workspaces w' = wk_workspaces stored"
  using assms by (auto simp: take_list_def Let_def act_defs emit_def split: if_splits)

end
