(* ===== verification/Project_Server.thy ===== *)
theory Project_Server
  imports Sync_Base Workspace
begin

text \<open>
  The account's side of project sync: the writes and reads of the project table
  (\<^verbatim>\<open>features/persistence/model/projects.mjs\<close>), what both sides agree on (\<^verbatim>\<open>project-write.mjs\<close>, \<^verbatim>\<open>deleted.mjs\<close>) and the
  endpoint in front of it (\<^verbatim>\<open>api/projects.mjs\<close>). The SQL statements are functions on the tables; a transaction runs
  alone, and one that throws leaves the tables as they were. The files of a project are kept with its row. Times are
  milliseconds, the resolution of the column; their text and its reading are arguments, as is \<^verbatim>\<open>JSON.parse\<close>. Who is
  signed in, the check of the origin and the logging are not modelled.
\<close>

section \<open>What both sides agree on\<close>

definition MAX_PROJECT_BODY_BYTES :: nat where
  "MAX_PROJECT_BODY_BYTES = 4000000"

definition NO_FILES_REASON :: string where
  "NO_FILES_REASON = ''no-files''"

definition DELETED_REASON :: string where
  "DELETED_REASON = ''deleted''"

definition projectKindOf :: "string \<Rightarrow> string" where
  "projectKindOf i = (if prefix TUTORIAL_ID_PREFIX i then ''tutorial'' else ''project'')"

text \<open>The bytes of a text in UTF-8, for the characters of the string type.\<close>

definition utf8_length :: "string \<Rightarrow> nat" where
  "utf8_length s = sum_list (map (\<lambda>c. if (of_char c :: nat) < 128 then 1 else 2) s)"

section \<open>The tables\<close>

record project_row =
  pr_name :: string
  pr_kind :: string
  pr_updatedAt :: nat
  pr_deleted :: bool
  pr_files :: files

type_synonym tables = "((string \<times> string) \<times> project_row) list"

definition row_of :: "tables \<Rightarrow> string \<Rightarrow> string \<Rightarrow> project_row option" where
  "row_of db user i = map_of db (user, i)"

definition put_row :: "string \<Rightarrow> string \<Rightarrow> project_row \<Rightarrow> tables \<Rightarrow> tables" where
  "put_row user i r db = AList.update (user, i) r db"

text \<open>\<^verbatim>\<open>projects_user_name_idx\<close>: a name is held by one live project of an account.\<close>

definition name_held :: "tables \<Rightarrow> string \<Rightarrow> string \<Rightarrow> string \<Rightarrow> bool" where
  "name_held db user i name \<longleftrightarrow>
     list_ex (\<lambda>((u, j), r). u = user \<and> j \<noteq> i \<and> row_of db u j = Some r \<and> \<not> pr_deleted r \<and> pr_name r = name) db"

section \<open>Reading\<close>

record listed_project =
  lp_id :: string
  lp_name :: string
  lp_kind :: string
  lp_updatedAt :: nat

definition listProjects :: "tables \<Rightarrow> string \<Rightarrow> listed_project list" where
  "listProjects db user =
     sort_key (\<lambda>p. - int (lp_updatedAt p))
       (map (\<lambda>((u, i), r). \<lparr>lp_id = i, lp_name = pr_name r, lp_kind = pr_kind r, lp_updatedAt = pr_updatedAt r\<rparr>)
         (filter (\<lambda>((u, i), r). u = user \<and> \<not> pr_deleted r) db))"

text \<open>A live row; its files are \<open>None\<close> when there are none, as the aggregate over no rows is null.\<close>

definition getProject :: "tables \<Rightarrow> string \<Rightarrow> string \<Rightarrow> (project_row \<times> files option) option" where
  "getProject db user i =
     (case row_of db user i of
        Some r \<Rightarrow> if pr_deleted r then None else Some (r, if pr_files r = [] then None else Some (pr_files r))
      | None \<Rightarrow> None)"

section \<open>Writing\<close>

record write_input =
  wi_id :: string
  wi_name :: string
  wi_kind :: string
  wi_base :: "nat option"

datatype file_write = WholeSet files | Patch files "string list"

datatype saved = SavedAt nat | SaveConflict "nat option" bool | SaveRefused string

text \<open>What ends a transaction early: an outcome thrown to roll back, or the unique index.\<close>

datatype write_error = WriteRefused saved | UniqueViolation

record statement_row =
  st_written :: "nat option"
  st_adopted :: bool
  st_current :: "nat option"
  st_deleted :: bool

definition live_stamp :: "project_row option \<Rightarrow> nat option" where
  "live_stamp r0 = (case r0 of Some r \<Rightarrow> if pr_deleted r then None else Some (pr_updatedAt r) | None \<Rightarrow> None)"

definition tombstoned :: "project_row option \<Rightarrow> bool" where
  "tombstoned r0 = (case r0 of Some r \<Rightarrow> pr_deleted r | None \<Rightarrow> False)"

definition settle_row :: "statement_row \<Rightarrow> saved" where
  "settle_row s =
     (case st_written s of Some t \<Rightarrow> SavedAt t | None \<Rightarrow> SaveConflict (st_current s) (st_deleted s))"

definition SWAP :: "nat \<Rightarrow> string \<Rightarrow> write_input \<Rightarrow> nat \<Rightarrow> tables \<Rightarrow> write_error + statement_row \<times> tables" where
  "SWAP now user w base db =
     (let r0 = row_of db user (wi_id w)
      in case r0 of
           Some r \<Rightarrow>
             if \<not> pr_deleted r \<and> pr_updatedAt r = base then
               (if name_held db user (wi_id w) (wi_name w) then Inl UniqueViolation
                else Inr (\<lparr>st_written = Some now, st_adopted = False, st_current = live_stamp r0, st_deleted = tombstoned r0\<rparr>,
                     put_row user (wi_id w) (r\<lparr>pr_name := wi_name w, pr_kind := wi_kind w, pr_updatedAt := now\<rparr>) db))
             else Inr (\<lparr>st_written = None, st_adopted = False, st_current = live_stamp r0, st_deleted = tombstoned r0\<rparr>, db)
         | None \<Rightarrow> Inr (\<lparr>st_written = None, st_adopted = False, st_current = None, st_deleted = False\<rparr>, db))"

definition CREATE :: "nat \<Rightarrow> string \<Rightarrow> write_input \<Rightarrow> tables \<Rightarrow> write_error + statement_row \<times> tables" where
  "CREATE now user w db =
     (let r0 = row_of db user (wi_id w);
          held = name_held db user (wi_id w) (wi_name w);
          missed = \<lparr>st_written = None, st_adopted = False, st_current = live_stamp r0, st_deleted = tombstoned r0\<rparr>
      in case r0 of
           None \<Rightarrow>
             if held then Inl UniqueViolation
             else Inr (missed\<lparr>st_written := Some now\<rparr>,
                  put_row user (wi_id w) \<lparr>pr_name = wi_name w, pr_kind = wi_kind w, pr_updatedAt = now,
                    pr_deleted = False, pr_files = []\<rparr> db)
         | Some r \<Rightarrow>
             if \<not> pr_deleted r \<and> pr_files r = [] \<or>
                pr_deleted r \<and> pr_kind r = ''tutorial'' \<and> wi_kind w = ''tutorial'' then
               (if held then Inl UniqueViolation
                else Inr (missed\<lparr>st_written := Some now, st_adopted := True\<rparr>,
                     put_row user (wi_id w) (r\<lparr>pr_name := wi_name w, pr_kind := wi_kind w, pr_updatedAt := now,
                       pr_deleted := False\<rparr>) db))
             else Inr (missed, db))"

definition files_at :: "string \<Rightarrow> string \<Rightarrow> tables \<Rightarrow> files" where
  "files_at user i db = (case row_of db user i of None \<Rightarrow> [] | Some r \<Rightarrow> pr_files r)"

definition on_files :: "(files \<Rightarrow> files) \<Rightarrow> string \<Rightarrow> string \<Rightarrow> tables \<Rightarrow> tables" where
  "on_files f user i db =
     (case row_of db user i of None \<Rightarrow> db | Some r \<Rightarrow> put_row user i (r\<lparr>pr_files := f (pr_files r)\<rparr>) db)"

definition UPSERT_FILES :: "files \<Rightarrow> files \<Rightarrow> files" where
  "UPSERT_FILES new fs = fold (\<lambda>(p, c). obj_set p c) new fs"

definition DELETE_NAMED :: "string list \<Rightarrow> files \<Rightarrow> files" where
  "DELETE_NAMED ps fs = filter (\<lambda>(p, c). p \<notin> set ps) fs"

definition DELETE_OTHERS :: "string list \<Rightarrow> files \<Rightarrow> files" where
  "DELETE_OTHERS ps fs = filter (\<lambda>(p, c). p \<in> set ps) fs"

definition HAS_FILES :: "string \<Rightarrow> string \<Rightarrow> tables \<Rightarrow> bool" where
  "HAS_FILES user i db \<longleftrightarrow> files_at user i db \<noteq> []"

text \<open>The file statements of \<^verbatim>\<open>writeProject\<close>.\<close>

definition write_files ::
  "bool \<Rightarrow> string \<Rightarrow> string \<Rightarrow> file_write \<Rightarrow> tables \<Rightarrow> write_error + tables" where
  "write_files creating user i fw db =
     (case fw of
        WholeSet fs \<Rightarrow>
          Inr (on_files (UPSERT_FILES fs) user i
            (if creating then db else on_files (DELETE_OTHERS (obj_keys fs)) user i db))
      | Patch ch rm \<Rightarrow>
          (let db1 = (if rm = [] then db else on_files (DELETE_NAMED rm) user i db)
           in if ch \<noteq> [] then Inr (on_files (UPSERT_FILES ch) user i db1)
              else if HAS_FILES user i db1 then Inr db1
              else Inl (WriteRefused (SaveRefused NO_FILES_REASON))))"

definition writeProject ::
  "nat \<Rightarrow> string \<Rightarrow> write_input \<Rightarrow> file_write \<Rightarrow> tables \<Rightarrow> write_error + saved \<times> tables" where
  "writeProject now user w fw db =
     (case (case wi_base w of Some b \<Rightarrow> SWAP now user w b db | None \<Rightarrow> CREATE now user w db) of
        Inl e \<Rightarrow> Inl e
      | Inr (s, db1) \<Rightarrow>
          (case settle_row s of
             SavedAt t \<Rightarrow>
               if st_adopted s \<and> HAS_FILES user (wi_id w) db1 then Inl (WriteRefused (SaveConflict None False))
               else (case write_files (wi_base w = None) user (wi_id w) fw db1 of
                       Inl e \<Rightarrow> Inl e | Inr db2 \<Rightarrow> Inr (SavedAt t, db2))
           | outcome \<Rightarrow> Inr (outcome, db1)))"

text \<open>The transaction: \<open>None\<close> where the driver's error goes on.\<close>

definition saveProject ::
  "nat \<Rightarrow> string \<Rightarrow> write_input \<Rightarrow> file_write \<Rightarrow> tables \<Rightarrow> saved option \<times> tables" where
  "saveProject now user w fw db =
     (case writeProject now user w fw db of
        Inr (outcome, db') \<Rightarrow> (Some outcome, db')
      | Inl (WriteRefused outcome) \<Rightarrow> (Some outcome, db)
      | Inl UniqueViolation \<Rightarrow> (None, db))"

definition deleteProject :: "string \<Rightarrow> string \<Rightarrow> tables \<Rightarrow> tables" where
  "deleteProject user i db =
     (case row_of db user i of
        None \<Rightarrow> db | Some r \<Rightarrow> put_row user i (r\<lparr>pr_deleted := True, pr_files := []\<rparr>) db)"

section \<open>The endpoint\<close>

definition isFileMap :: "json option \<Rightarrow> bool" where
  "isFileMap v = (case as_obj v of None \<Rightarrow> False | Some flds \<Rightarrow> list_all (\<lambda>(p, c). p \<noteq> [] \<and> as_str (Some c) \<noteq> None) flds)"

definition file_map :: "json option \<Rightarrow> files" where
  "file_map v = (case as_obj v of None \<Rightarrow> [] | Some flds \<Rightarrow> map (\<lambda>(p, c). (p, case as_str (Some c) of None \<Rightarrow> [] | Some s \<Rightarrow> s)) flds)"

definition describeProject :: "json js_obj \<Rightarrow> string + string \<times> string \<times> string" where
  "describeProject body =
     (case (as_str (map_of body ''id''), as_str (map_of body ''name'')) of
        (Some i, Some name) \<Rightarrow>
          if i = [] then Inl ''id and name required''
          else (case as_str (map_of body ''kind'') of
              Some kind \<Rightarrow>
                if kind \<notin> {''project'', ''tutorial''} then Inl ''kind must be one of project, tutorial''
                else if js_trim name = [] then Inl ''name must not be empty''
                else if kind \<noteq> projectKindOf i then Inl (''kind must be '' @ projectKindOf i @ '' for this id'')
                else Inr (i, name, kind)
            | None \<Rightarrow> Inl ''kind must be one of project, tutorial'')
      | _ \<Rightarrow> Inl ''id and name required'')"

text \<open>\<^verbatim>\<open>v ?? other\<close>: \<open>None\<close> for what is missing or null.\<close>

definition nullish :: "json option \<Rightarrow> json option" where
  "nullish v = (if v = Some JNull then None else v)"

definition truthy_json :: "json option \<Rightarrow> bool" where
  "truthy_json v \<longleftrightarrow>
     (case v of
        None \<Rightarrow> False | Some JNull \<Rightarrow> False | Some (JBool b) \<Rightarrow> b | Some (JNum n) \<Rightarrow> n \<noteq> 0 | Some (JStr s) \<Rightarrow> s \<noteq> []
      | Some (JArr xs) \<Rightarrow> True | Some (JObj flds) \<Rightarrow> True)"

definition path_strings :: "json list \<Rightarrow> string list option" where
  "path_strings vs = those (map (\<lambda>v. case as_str (Some v) of Some p \<Rightarrow> if p = [] then None else Some p | None \<Rightarrow> None) vs)"

text \<open>
  \<^verbatim>\<open>path in changed\<close> also finds the names every object inherits.
\<close>

definition describe_patch :: "json js_obj \<Rightarrow> string + file_write" where
  "describe_patch body =
     (if \<not> truthy_json (map_of body ''baseUpdatedAt'') then Inl ''A patch needs baseUpdatedAt''
      else let ch = (case nullish (map_of body ''changed'') of None \<Rightarrow> Some (JObj []) | v \<Rightarrow> v);
               rm = (case nullish (map_of body ''removed'') of None \<Rightarrow> Some [] | Some (JArr vs) \<Rightarrow> path_strings vs | _ \<Rightarrow> None)
        in if \<not> isFileMap ch then Inl ''changed must be a map of paths to strings''
           else case rm of
             None \<Rightarrow> Inl ''removed must be a list of paths''
           | Some ps \<Rightarrow>
               if list_ex (\<lambda>p. obj_has (file_map ch) p \<or> p \<in> set OBJECT_KEYS) ps
               then Inl ''A path cannot be both changed and removed''
               else Inr (Patch (file_map ch) ps))"

definition describeWrite :: "json js_obj \<Rightarrow> (nat \<times> string) + file_write" where
  "describeWrite body =
     (let force = map_of body ''force'';
          old = map_of body ''snapshot'' \<noteq> None;
          full = map_of body ''files'' \<noteq> None;
          patch = map_of body ''changed'' \<noteq> None \<or> map_of body ''removed'' \<noteq> None
      in if force = Some (JBool True) then Inl (409, ''force is not supported; reload the page to sync'')
         else if force \<noteq> None \<and> force \<noteq> Some (JBool False) then Inl (400, ''force is not supported'')
         else if of_bool old + of_bool full + of_bool patch \<noteq> (1 :: nat)
         then Inl (400, ''Send either files, or changed and removed'')
         else if old \<or> full then
           (let fs = (if old then map_of (case as_obj (map_of body ''snapshot'') of None \<Rightarrow> [] | Some flds \<Rightarrow> flds) ''files''
                      else map_of body ''files'')
            in if isFileMap fs \<and> file_map fs \<noteq> [] then Inr (WholeSet (file_map fs))
               else Inl (400, ''files must be a non-empty map of paths to strings''))
         else (case describe_patch body of Inl e \<Rightarrow> Inl (400, e) | Inr w \<Rightarrow> Inr w))"

text \<open>A response, and what \<^verbatim>\<open>response.json()\<close> makes of its body.\<close>

datatype reply_body = JsonBody json | NotJson | CutOff

record response =
  rs_status :: nat
  rs_body :: reply_body

definition reply :: "nat \<Rightarrow> json js_obj \<Rightarrow> response" where
  "reply status flds = \<lparr>rs_status = status, rs_body = JsonBody (JObj flds)\<rparr>"

definition error_reply :: "nat \<Rightarrow> string \<Rightarrow> response" where
  "error_reply status e = reply status [(''error'', JStr e)]"

definition describeSaved :: "(nat \<Rightarrow> string) \<Rightarrow> saved \<Rightarrow> response" where
  "describeSaved toIso outcome =
     (case outcome of
        SavedAt t \<Rightarrow> reply 200 [(''updatedAt'', JStr (toIso t))]
      | SaveConflict current deleted \<Rightarrow>
          reply 409 ([(''conflict'', JBool True),
                      (''updatedAt'', case current of None \<Rightarrow> JNull | Some t \<Rightarrow> JStr (toIso t))] @
                     (if deleted then [(''reason'', JStr DELETED_REASON)] else []))
      | SaveRefused reason \<Rightarrow>
          if reason = NO_FILES_REASON
          then reply 400 [(''error'', JStr ''A write must leave the project at least one file''), (''reason'', JStr NO_FILES_REASON)]
          else reply 200 [(''refused'', JStr reason)])"

definition name_taken_reply :: response where
  "name_taken_reply =
     reply 409 [(''error'', JStr ''A project with this name already exists in your account''), (''reason'', JStr ''name-taken'')]"

definition too_large_reply :: response where
  "too_large_reply =
     reply 413 [(''error'', JStr (''A workspace upload must be under '' @ js_nat MAX_PROJECT_BODY_BYTES @ '' bytes'')),
                (''reason'', JStr ''too-large'')]"

text \<open>
  What the endpoint is given: whether sync is on, \<^verbatim>\<open>JSON.parse\<close>, the text of a time and the time a text names.
\<close>

record server_env =
  sv_enabled :: bool
  sv_parse :: json_parse
  sv_iso :: "nat \<Rightarrow> string"
  sv_ms :: "string \<Rightarrow> nat option"

datatype http_method = GET | PUT | DELETE | OtherMethod

record request =
  rq_method :: http_method
  rq_origin :: bool
  rq_user :: "string option"
  rq_id :: "string option"
  rq_body :: string
  rq_now :: nat

definition listed_json :: "(nat \<Rightarrow> string) \<Rightarrow> listed_project \<Rightarrow> json" where
  "listed_json toIso p =
     JObj [(''id'', JStr (lp_id p)), (''name'', JStr (lp_name p)), (''kind'', JStr (lp_kind p)),
           (''updatedAt'', JStr (toIso (lp_updatedAt p)))]"

definition files_json :: "files \<Rightarrow> json" where
  "files_json fs = JObj (map (\<lambda>(p, c). (p, JStr c)) fs)"

definition project_json :: "(nat \<Rightarrow> string) \<Rightarrow> string \<Rightarrow> project_row \<times> files option \<Rightarrow> json" where
  "project_json toIso i rf =
     (case rf of (r, fs) \<Rightarrow>
        JObj [(''id'', JStr i), (''name'', JStr (pr_name r)), (''kind'', JStr (pr_kind r)),
              (''snapshot'', case fs of None \<Rightarrow> JNull | Some f \<Rightarrow> JObj [(''files'', files_json f)]),
              (''updatedAt'', JStr (toIso (pr_updatedAt r)))])"

definition handle_get :: "server_env \<Rightarrow> string \<Rightarrow> string option \<Rightarrow> tables \<Rightarrow> response" where
  "handle_get V user i0 db =
     (case i0 of
        None \<Rightarrow> reply 200 [(''projects'', JArr (map (listed_json (sv_iso V)) (listProjects db user)))]
      | Some i \<Rightarrow>
          (case getProject db user i of
             None \<Rightarrow> error_reply 404 ''Not found''
           | Some p \<Rightarrow> reply 200 [(''project'', project_json (sv_iso V) i p)]))"

text \<open>The base of a write: \<open>None\<close> for one that is no time, \<open>Some None\<close> for none.\<close>

definition read_base :: "server_env \<Rightarrow> json js_obj \<Rightarrow> nat option option" where
  "read_base V body =
     (case map_of body ''baseUpdatedAt'' of
        None \<Rightarrow> Some None
      | Some (JStr s) \<Rightarrow> map_option Some (sv_ms V s)
      | Some _ \<Rightarrow> None)"

definition handle_write :: "server_env \<Rightarrow> nat \<Rightarrow> string \<Rightarrow> json js_obj \<Rightarrow> tables \<Rightarrow> response \<times> tables" where
  "handle_write V now user body db =
     (case describeProject body of
        Inl e \<Rightarrow> (error_reply 400 e, db)
      | Inr (i, name, kind) \<Rightarrow>
          (case describeWrite body of
             Inl (status, e) \<Rightarrow> (error_reply status e, db)
           | Inr fw \<Rightarrow>
               (case read_base V body of
                  None \<Rightarrow> (error_reply 400 ''baseUpdatedAt must be a timestamp'', db)
                | Some base \<Rightarrow>
                    (case saveProject now user \<lparr>wi_id = i, wi_name = name, wi_kind = kind, wi_base = base\<rparr> fw db of
                       (None, db') \<Rightarrow> (name_taken_reply, db')
                     | (Some outcome, db') \<Rightarrow> (describeSaved (sv_iso V) outcome, db')))))"

text \<open>A body of \<^verbatim>\<open>null\<close> has no fields to take apart: the driver's catch answers for it. No other value has the fields.\<close>

definition handle_put :: "server_env \<Rightarrow> nat \<Rightarrow> string \<Rightarrow> string \<Rightarrow> tables \<Rightarrow> response \<times> tables" where
  "handle_put V now user txt db =
     (if utf8_length txt > MAX_PROJECT_BODY_BYTES then (too_large_reply, db)
      else case sv_parse V (if txt = [] then ''{}'' else txt) of
        None \<Rightarrow> (error_reply 400 ''Body must be JSON'', db)
      | Some JNull \<Rightarrow> (error_reply 500 ''Sync failed'', db)
      | Some (JObj body) \<Rightarrow> handle_write V now user body db
      | Some _ \<Rightarrow> handle_write V now user [] db)"

definition handler :: "server_env \<Rightarrow> request \<Rightarrow> tables \<Rightarrow> response \<times> tables" where
  "handler V rq db =
     (if \<not> sv_enabled V then (error_reply 503 ''Sync is disabled'', db)
      else if rq_method rq \<noteq> GET \<and> \<not> rq_origin rq then (error_reply 403 ''Cross-origin request refused'', db)
      else case rq_user rq of
        None \<Rightarrow> (error_reply 401 ''Not signed in'', db)
      | Some user \<Rightarrow>
          let i = (if rq_id rq = Some [] then None else rq_id rq)
          in case rq_method rq of
               GET \<Rightarrow> (handle_get V user i db, db)
             | PUT \<Rightarrow> handle_put V (rq_now rq) user (rq_body rq) db
             | DELETE \<Rightarrow>
                 (case i of
                    None \<Rightarrow> (error_reply 400 ''id required'', db)
                  | Some j \<Rightarrow> (reply 200 [(''deleted'', JBool True)], deleteProject user j db))
             | OtherMethod \<Rightarrow> (error_reply 405 ''Method not allowed'', db))"

end
