(* ===== verification/Project_Sync.thy ===== *)
theory Project_Sync
  imports Project_Server Sync_Mark Effects
begin

text \<open>
  The driver of project sync (\<^verbatim>\<open>features/persistence/model/project-sync.ts\<close>, \<^verbatim>\<open>sync-client.ts\<close>): uploading a project,
  reading the account's copy, adopting it, merging it with the local one, and acting on the user's answers. An
  operation is an action of \<open>Effects\<close> on a world: the explorer and editor of the tab, the network, the device with
  the marks and bases of \<open>Sync_Mark\<close> and \<open>Sync_Base\<close>, the driver's own state, and the calls made so far. The explorer
  and the network are arguments whose calls may fail and may find anything changed since the last one: other
  devices, other tabs and the user act in between. What other tasks of the tab do to the driver's state while a push
  waits is an argument too. Operations run under the lock of \<open>Sync_Lock\<close>, so the marks do not change in between.
\<close>

section \<open>Data\<close>

datatype push_result = PushOk | PushConflict | PushSkipped

datatype merge_outcome = DidMerge | MergeConflict | MergeFailed

datatype disowned = NotUploaded | HidingAccountCopy

datatype conflict_kind = Divergent | DeletedElsewhere | NameTaken | TooLarge

record sync_conflict =
  cf_projectId :: string
  cf_kind :: conflict_kind
  cf_paths :: "string list option"
  cf_files :: "file_conflict list option"

datatype resolution = KeepLocal | TakeServer | DeleteLocal | KeepAsNew | Retry | ResolvedWith "resolved_file js_obj"

record push_options =
  po_immediate :: bool
  po_merging :: bool
  po_generation :: "nat option"
  po_whole :: bool

definition PLAIN_PUSH :: push_options where
  "PLAIN_PUSH = \<lparr>po_immediate = False, po_merging = False, po_generation = None, po_whole = False\<rparr>"

text \<open>A project as the server sends it, with its name trimmed; the snapshot is looked at by \<open>isUsableSnapshot\<close>.\<close>

record server_project =
  sp_id :: string
  sp_name :: string
  sp_updatedAt :: string
  sp_snapshot :: "json option"

definition text_field :: "json \<Rightarrow> string \<Rightarrow> string" where
  "text_field j k = (case as_str (json_field j k) of None \<Rightarrow> [] | Some s \<Rightarrow> s)"

definition trimmedName :: "json \<Rightarrow> server_project" where
  "trimmedName j =
     \<lparr>sp_id = text_field j ''id'', sp_name = js_trim (text_field j ''name''), sp_updatedAt = text_field j ''updatedAt'',
      sp_snapshot = json_field j ''snapshot''\<rparr>"

datatype read_result = ReadGone | ReadFailed | ReadProject server_project

definition isUsableSnapshot :: "json option \<Rightarrow> bool" where
  "isUsableSnapshot snap \<longleftrightarrow>
     (case snap of
        None \<Rightarrow> False
      | Some j \<Rightarrow>
          (case as_obj (json_field j ''files'') of
             None \<Rightarrow> False | Some flds \<Rightarrow> flds \<noteq> [] \<and> list_all (\<lambda>(p, c). as_str (Some c) \<noteq> None) flds))"

definition snapshot_files :: "json option \<Rightarrow> files" where
  "snapshot_files snap = (case snap of None \<Rightarrow> [] | Some j \<Rightarrow> file_map (json_field j ''files''))"

section \<open>Questions and answers\<close>

definition bare_conflict :: "string \<Rightarrow> conflict_kind \<Rightarrow> sync_conflict" where
  "bare_conflict pid k = \<lparr>cf_projectId = pid, cf_kind = k, cf_paths = None, cf_files = None\<rparr>"

definition divergentOf :: "string \<Rightarrow> merge_plan \<Rightarrow> sync_conflict" where
  "divergentOf pid plan =
     \<lparr>cf_projectId = pid, cf_kind = Divergent, cf_paths = Some (map fc_path (mp_conflicts plan)),
      cf_files = Some (mp_conflicts plan)\<rparr>"

definition refusedOf ::
  "string \<Rightarrow> merge_plan \<Rightarrow> resolved_file js_obj \<Rightarrow> file_hashes \<Rightarrow> file_hashes \<Rightarrow> sync_conflict" where
  "refusedOf pid plan answer lh sh =
     (let settled = map (\<lambda>p. SettledConflict p (map_of (mp_files plan) p) (map_of lh p) (map_of sh p))
            (filter (\<lambda>p. p \<notin> fc_path ` set (mp_conflicts plan)) (obj_keys answer));
          all = sort_key fc_path (mp_conflicts plan @ settled)
      in \<lparr>cf_projectId = pid, cf_kind = Divergent, cf_paths = Some (map fc_path all), cf_files = Some all\<rparr>)"

definition pinsHold :: "resolved_file js_obj \<Rightarrow> file_hashes \<Rightarrow> file_hashes \<Rightarrow> bool" where
  "pinsHold answer lh sh \<longleftrightarrow>
     list_all (\<lambda>(p, e). rf_localHash e = map_of lh p \<and> rf_serverHash e = map_of sh p) answer"

definition answers :: "merge_plan \<Rightarrow> preference option \<Rightarrow> string list option \<Rightarrow> bool" where
  "answers plan prefer asked \<longleftrightarrow>
     mp_conflicts plan = [] \<or>
     (case prefer of
        None \<Rightarrow> False
      | Some pr \<Rightarrow>
          (case asked of None \<Rightarrow> True | Some ps \<Rightarrow> list_all (\<lambda>c. fc_path c \<in> set ps) (mp_conflicts plan)) \<and>
          (case pr of Resolved answer \<Rightarrow> list_all (\<lambda>c. obj_has answer (fc_path c)) (mp_conflicts plan) | _ \<Rightarrow> True))"

datatype name_side = LocalName | ServerName

definition mergeName :: "string option \<Rightarrow> string \<Rightarrow> string \<Rightarrow> name_side option \<Rightarrow> name_side" where
  "mergeName base local server prefer =
     (if server = local then LocalName
      else if base \<noteq> None \<and> Some local = base then ServerName
      else if prefer = Some ServerName then ServerName else LocalName)"

section \<open>Free names\<close>

text \<open>\<^verbatim>\<open>replace(/\s+/g, " ")\<close>.\<close>

fun squash_spaces :: "string \<Rightarrow> string" where
  "squash_spaces [] = []"
| "squash_spaces (c # cs) =
     (if js_space c then (case cs of [] \<Rightarrow> '' '' | d # ds \<Rightarrow> if js_space d then squash_spaces cs else CHR '' '' # squash_spaces cs)
      else c # squash_spaces cs)"

definition name_stem :: "string \<Rightarrow> string" where
  "name_stem base =
     (if isWorkspaceNameValid base then base
      else let kept = js_trim (squash_spaces (filter (\<lambda>c. word_char c \<or> js_space c \<or> c = CHR ''-'') base))
        in if kept = [] then ''Project'' else kept)"

definition imported_name :: "string \<Rightarrow> nat \<Rightarrow> string" where
  "imported_name stem n = stem @ '' imported'' @ (if n > 1 then CHR '' '' # js_nat n else [])"

text \<open>The loop over the numbers, for as many rounds as the first number says.\<close>

primrec free_from :: "nat \<Rightarrow> string list \<Rightarrow> string \<Rightarrow> nat \<Rightarrow> string option" where
  "free_from 0 taken stem n = None"
| "free_from (Suc k) taken stem n =
     (let name = imported_name stem n in if name \<notin> set taken then Some name else free_from k taken stem (Suc n))"

definition freeName :: "string list \<Rightarrow> string \<Rightarrow> string option \<Rightarrow> string option" where
  "freeName names base own =
     (let taken = filter (\<lambda>n. Some n \<noteq> own) names
      in if base \<notin> set taken then Some base
         else free_from (Suc (length taken)) taken (name_stem base) 1)"

section \<open>The world\<close>

record driver =
  dr_names :: "string js_obj"
  dr_conflicts :: "sync_conflict js_obj"
  dr_emitted :: nat
  dr_merging :: "nat js_obj"
  dr_generations :: "nat js_obj"
  dr_disowned :: "string list"
  dr_holds :: nat
  dr_gateOpen :: bool
  dr_signingOut :: nat

text \<open>The locals of the merge that runs, which its \<^verbatim>\<open>finally\<close> still reads.\<close>

record merge_locals =
  ml_name :: string
  ml_first :: "files option"
  ml_written :: "files option"
  ml_carried :: "files option"

text \<open>What one reconcile pass did.\<close>

record sync_result =
  su_imported :: "string list"
  su_replaced :: "string list"
  su_removed :: "string list"
  su_pushed :: "string list"
  su_conflicts :: "sync_conflict list"
  su_latest :: "string option"

text \<open>Whether the account's list has been read, and held anything (\<^verbatim>\<open>account-list.ts\<close>).\<close>

datatype account_list = UnknownList | EmptyList | HoldsProjects

definition list_state :: "nat \<Rightarrow> account_list" where
  "list_state n = (if n = 0 then EmptyList else HoldsProjects)"

datatype sync_call =
    SentPut string
  | WroteFiles string files
  | WroteMark string sync_mark
  | WroteBase string

record ('x, 'n) world =
  wd_host :: 'x
  wd_net :: 'n
  wd_device :: device
  wd_driver :: driver
  wd_available :: "bool option"
  wd_merge :: merge_locals
  wd_result :: sync_result
  wd_listed :: account_list
  wd_calls :: "sync_call list"

text \<open>
  What the driver is given. Calls of the explorer, the editor's buffers and the chats return \<open>None\<close> where they throw; a
  request returns \<open>None\<close> where \<^verbatim>\<open>fetch\<close> rejects.
\<close>

record ('x, 'n) sync_env =
  hs_nameOf :: "'x \<Rightarrow> string \<Rightarrow> string option"
  hs_idOf :: "'x \<Rightarrow> string \<Rightarrow> string option"
  hs_names :: "'x \<Rightarrow> string list"
  hs_currentId :: "'x \<Rightarrow> string option"
  hs_currentName :: "'x \<Rightarrow> string option"
  hs_snapshot :: "string \<Rightarrow> 'x \<Rightarrow> files option \<times> 'x"
  hs_replace :: "string \<Rightarrow> files \<Rightarrow> 'x \<Rightarrow> unit option \<times> 'x"
  hs_rename :: "string \<Rightarrow> string \<Rightarrow> 'x \<Rightarrow> unit option \<times> 'x"
  hs_import :: "string \<Rightarrow> string \<Rightarrow> files \<Rightarrow> 'x \<Rightarrow> unit option \<times> 'x"
  hs_delete :: "string \<Rightarrow> 'x \<Rightarrow> unit option \<times> 'x"
  hs_switch :: "string \<Rightarrow> 'x \<Rightarrow> unit option \<times> 'x"
  hs_reload :: "'x \<Rightarrow> unit option \<times> 'x"
  hs_registered :: "string \<Rightarrow> string \<Rightarrow> 'x \<Rightarrow> bool \<times> 'x"
  hs_hasBuffers :: "'x \<Rightarrow> bool"
  hs_readBuffer :: "string \<Rightarrow> 'x \<Rightarrow> string option option \<times> 'x"
  hs_writeBuffer :: "string \<Rightarrow> string \<Rightarrow> 'x \<Rightarrow> unit option \<times> 'x"
  hs_discardBuffer :: "string \<Rightarrow> 'x \<Rightarrow> unit option \<times> 'x"
  hs_writeFile :: "string \<Rightarrow> string \<Rightarrow> 'x \<Rightarrow> unit option \<times> 'x"
  hs_saveToState :: "string \<Rightarrow> string \<Rightarrow> 'x \<Rightarrow> unit option \<times> 'x"
  hs_forgetThreads :: "string \<Rightarrow> 'x \<Rightarrow> unit option \<times> 'x"
  hs_carryThreads :: "string \<Rightarrow> string \<Rightarrow> 'x \<Rightarrow> bool option \<times> 'x"
  hs_uuid :: "'x \<Rightarrow> string option \<times> 'x"
  nt_session :: "'n \<Rightarrow> bool"
  nt_probe :: "'n \<Rightarrow> response option \<times> 'n"
  nt_put :: "string \<Rightarrow> 'n \<Rightarrow> response option \<times> 'n"
  nt_get :: "string \<Rightarrow> 'n \<Rightarrow> response option \<times> 'n"
  nt_list :: "'n \<Rightarrow> response option \<times> 'n"
  nt_delete :: "string \<Rightarrow> 'n \<Rightarrow> response option \<times> 'n"
  se_parse :: json_parse
  se_stringify :: json_stringify
  se_sha :: "string \<Rightarrow> string"
  se_diff :: diff_fn
  se_meanwhile :: "driver \<Rightarrow> driver"

datatype sync_error = Thrown

type_synonym ('x, 'n, 'a) sync_act = "(('x, 'n) world, sync_error, 'a) act"

text \<open>\<^verbatim>\<open>try { m } finally { k }\<close>.\<close>

definition lastly :: "('s, 'e, 'a) act \<Rightarrow> ('s, 'e, unit) act \<Rightarrow> ('s, 'e, 'a) act" where
  "lastly m k s =
     (case m s of (r, s') \<Rightarrow>
        (case k s' of (Val u, t) \<Rightarrow> (r, t) | (Exn e, t) \<Rightarrow> (Exn e, t) | (Stuck, t) \<Rightarrow> (Stuck, t)))"

definition on_host :: "('x \<Rightarrow> 'a option \<times> 'x) \<Rightarrow> ('x, 'n, 'a) sync_act" where
  "on_host f w =
     (case f (wd_host w) of (r, x) \<Rightarrow>
        (case r of None \<Rightarrow> Exn Thrown | Some v \<Rightarrow> Val v, w\<lparr>wd_host := x\<rparr>))"

definition asks_host :: "('x \<Rightarrow> 'a \<times> 'x) \<Rightarrow> ('x, 'n, 'a) sync_act" where
  "asks_host f w = (case f (wd_host w) of (v, x) \<Rightarrow> (Val v, w\<lparr>wd_host := x\<rparr>))"

definition on_net :: "('n \<Rightarrow> response option \<times> 'n) \<Rightarrow> ('x, 'n, response) sync_act" where
  "on_net f w =
     (case f (wd_net w) of (r, n) \<Rightarrow>
        (case r of None \<Rightarrow> Exn Thrown | Some v \<Rightarrow> Val v, w\<lparr>wd_net := n\<rparr>))"

definition on_device :: "(device \<Rightarrow> device \<times> 'a) \<Rightarrow> ('x, 'n, 'a) sync_act" where
  "on_device f w = (case f (wd_device w) of (d, v) \<Rightarrow> (Val v, w\<lparr>wd_device := d\<rparr>))"

definition device_do :: "(device \<Rightarrow> device) \<Rightarrow> ('x, 'n, unit) sync_act" where
  "device_do f = modify (\<lambda>w. w\<lparr>wd_device := f (wd_device w)\<rparr>)"

definition driver_do :: "(driver \<Rightarrow> driver) \<Rightarrow> ('x, 'n, unit) sync_act" where
  "driver_do f = modify (\<lambda>w. w\<lparr>wd_driver := f (wd_driver w)\<rparr>)"

definition locals_do :: "(merge_locals \<Rightarrow> merge_locals) \<Rightarrow> ('x, 'n, unit) sync_act" where
  "locals_do f = modify (\<lambda>w. w\<lparr>wd_merge := f (wd_merge w)\<rparr>)"

definition note_call :: "sync_call \<Rightarrow> ('x, 'n, unit) sync_act" where
  "note_call c = modify (\<lambda>w. w\<lparr>wd_calls := wd_calls w @ [c]\<rparr>)"

definition tell :: "string \<Rightarrow> ('x, 'n, unit) sync_act" where
  "tell what = device_do (report what)"

section \<open>The driver's state\<close>

definition emit_conflicts :: "driver \<Rightarrow> driver" where
  "emit_conflicts d = d\<lparr>dr_emitted := Suc (dr_emitted d)\<rparr>"

text \<open>The constructor of a conflict on a file, as its \<^verbatim>\<open>kind\<close>.\<close>

fun fc_kind :: "file_conflict \<Rightarrow> string" where
  "fc_kind (LinesConflict path chunks lh sh) = ''lines''"
| "fc_kind (WholeConflict path l s lh sh) = ''whole''"
| "fc_kind (SettledConflict path c lh sh) = ''settled''"

definition conflict_key :: "sync_conflict \<Rightarrow> string list option \<times> (string \<times> string \<times> string option \<times> string option) list option" where
  "conflict_key c =
     (cf_paths c, map_option (map (\<lambda>f. (fc_kind f, fc_path f, fc_localHash f, fc_serverHash f))) (cf_files c))"

definition raise_conflict :: "sync_conflict \<Rightarrow> driver \<Rightarrow> driver" where
  "raise_conflict c d =
     (case map_of (dr_conflicts d) (cf_projectId c) of
        Some old \<Rightarrow>
          if cf_kind old = cf_kind c \<and> conflict_key old = conflict_key c then d
          else emit_conflicts (d\<lparr>dr_conflicts := obj_set (cf_projectId c) c (dr_conflicts d)\<rparr>)
      | None \<Rightarrow> emit_conflicts (d\<lparr>dr_conflicts := obj_set (cf_projectId c) c (dr_conflicts d)\<rparr>))"

definition clear_conflict :: "string \<Rightarrow> driver \<Rightarrow> driver" where
  "clear_conflict pid d =
     (if obj_has (dr_conflicts d) pid
      then emit_conflicts (d\<lparr>dr_conflicts := filter (\<lambda>(k, v). k \<noteq> pid) (dr_conflicts d)\<rparr>) else d)"

definition generationOf :: "driver \<Rightarrow> string \<Rightarrow> nat" where
  "generationOf d pid = (case map_of (dr_generations d) pid of None \<Rightarrow> 0 | Some n \<Rightarrow> n)"

definition bump :: "string \<Rightarrow> driver \<Rightarrow> driver" where
  "bump pid d = d\<lparr>dr_generations := obj_set pid (generationOf d pid + 1) (dr_generations d)\<rparr>"

definition openGate :: "driver \<Rightarrow> driver" where
  "openGate d = d\<lparr>dr_gateOpen := True\<rparr>"

definition holdPushes :: "driver \<Rightarrow> driver" where
  "holdPushes d =
     (if dr_holds d > 0 then d\<lparr>dr_holds := dr_holds d + 1\<rparr>
      else d\<lparr>dr_holds := dr_holds d + 1, dr_gateOpen := False\<rparr>)"

definition releasePushes :: "driver \<Rightarrow> driver" where
  "releasePushes d =
     (if dr_holds d = 0 then d
      else if dr_holds d - 1 > 0 then d\<lparr>dr_holds := dr_holds d - 1\<rparr>
      else openGate (d\<lparr>dr_holds := 0\<rparr>))"

definition isMerging :: "driver \<Rightarrow> string \<Rightarrow> bool" where
  "isMerging d pid \<longleftrightarrow> obj_has (dr_merging d) pid"

definition enter_merging :: "string \<Rightarrow> driver \<Rightarrow> driver" where
  "enter_merging pid d =
     d\<lparr>dr_merging := obj_set pid ((case map_of (dr_merging d) pid of None \<Rightarrow> 0 | Some n \<Rightarrow> n) + 1) (dr_merging d)\<rparr>"

definition leave_merging :: "string \<Rightarrow> driver \<Rightarrow> driver" where
  "leave_merging pid d =
     (let left = (case map_of (dr_merging d) pid of None \<Rightarrow> 1 | Some n \<Rightarrow> n) - 1
      in if left \<noteq> 0 then d\<lparr>dr_merging := obj_set pid left (dr_merging d)\<rparr>
         else d\<lparr>dr_merging := filter (\<lambda>(k, v). k \<noteq> pid) (dr_merging d)\<rparr>)"

definition driver_reset :: "driver \<Rightarrow> driver" where
  "driver_reset d =
     openGate (d\<lparr>dr_names := [], dr_conflicts := [], dr_signingOut := 0, dr_merging := [], dr_generations := [],
       dr_disowned := [], dr_holds := 0\<rparr>)"

definition forgetAccount :: "driver \<Rightarrow> driver" where
  "forgetAccount d =
     (let had = dr_conflicts d \<noteq> []; d' = d\<lparr>dr_names := [], dr_disowned := [], dr_conflicts := []\<rparr>
      in if had then emit_conflicts d' else d')"

definition rememberName :: "string \<Rightarrow> string \<Rightarrow> driver \<Rightarrow> driver" where
  "rememberName pid name d = d\<lparr>dr_names := obj_set pid name (dr_names d)\<rparr>"

fun disowned_key :: "disowned \<Rightarrow> string" where
  "disowned_key NotUploaded = ''not-uploaded''"
| "disowned_key HidingAccountCopy = ''hiding-account-copy''"

fun disowned_text :: "disowned \<Rightarrow> string" where
  "disowned_text NotUploaded = ''another account's project on this browser, not uploaded''"
| "disowned_text HidingAccountCopy = ''another account's leftover hides this account's copy (known gap, issue #98)''"

definition reportDisowned :: "string \<Rightarrow> disowned \<Rightarrow> ('x, 'n, unit) sync_act" where
  "reportDisowned pid why =
     (let key = disowned_key why @ '':'' @ pid
      in bnd (gets (\<lambda>w. key \<in> set (dr_disowned (wd_driver w)))) (\<lambda>known.
           if known then ret ()
           else seq (driver_do (\<lambda>d. d\<lparr>dr_disowned := dr_disowned d @ [key]\<rparr>))
             (tell (''sync '' @ pid @ '': '' @ disowned_text why))))"

definition whileSigningOut :: "('x, 'n, 'a) sync_act \<Rightarrow> ('x, 'n, 'a) sync_act" where
  "whileSigningOut m =
     seq (driver_do (\<lambda>d. d\<lparr>dr_signingOut := dr_signingOut d + 1\<rparr>))
       (lastly m (driver_do (\<lambda>d. d\<lparr>dr_signingOut := dr_signingOut d - 1\<rparr>)))"

section \<open>Whether there is a server\<close>

definition is_ok :: "response \<Rightarrow> bool" where
  "is_ok rs \<longleftrightarrow> 200 \<le> rs_status rs \<and> rs_status rs < 300"

text \<open>The answer of \<^verbatim>\<open>_probe\<close>; \<open>None\<close> when there is none to remember.\<close>

definition probe_answer :: "response option \<Rightarrow> bool option" where
  "probe_answer r0 =
     (case r0 of
        None \<Rightarrow> None
      | Some rs \<Rightarrow>
          if rs_status rs = 404 then Some False
          else if \<not> is_ok rs then None
          else (case rs_body rs of
              JsonBody j \<Rightarrow> Some (json_field j ''enabled'' = Some (JBool True))
            | NotJson \<Rightarrow> Some False
            | CutOff \<Rightarrow> None))"

definition available :: "('x, 'n) sync_env \<Rightarrow> ('x, 'n, bool) sync_act" where
  "available E w =
     (case wd_available w of
        Some b \<Rightarrow> (Val b, w)
      | None \<Rightarrow>
          (case nt_probe E (wd_net w) of (r, n) \<Rightarrow>
             (Val (probe_answer r = Some True), w\<lparr>wd_net := n, wd_available := probe_answer r\<rparr>)))"

definition ready :: "('x, 'n) sync_env \<Rightarrow> ('x, 'n, bool) sync_act" where
  "ready E = bnd (gets (\<lambda>w. nt_session E (wd_net w))) (\<lambda>s. if s then available E else ret False)"

section \<open>Marks\<close>

text \<open>The task of \<^verbatim>\<open>PgSyncMark.write\<close> from start to end: the mark, then the claim goes.\<close>

definition write_mark :: "('x, 'n) sync_env \<Rightarrow> string \<Rightarrow> sync_mark \<Rightarrow> ('x, 'n, bool) sync_act" where
  "write_mark E pid m =
     bnd (on_device (mark_write (se_stringify E) pid m)) (\<lambda>ok.
       seq (note_call (WroteMark pid m)) (seq (only_if ok (device_do (claim_drop pid))) (ret ok)))"

definition mark_dirty :: "('x, 'n) sync_env \<Rightarrow> string \<Rightarrow> ('x, 'n, unit) sync_act" where
  "mark_dirty E pid =
     bnd (on_device (mark_read (se_parse E) pid)) (\<lambda>m0. case m0 of
         None \<Rightarrow> ret ()
       | Some m \<Rightarrow>
           if sm_dirty m then ret ()
           else seq (on_device (mark_write (se_stringify E) pid (m\<lparr>sm_dirty := True\<rparr>))) (ret ()))"

definition remove_mark :: "string \<Rightarrow> ('x, 'n, unit) sync_act" where
  "remove_mark pid =
     bnd (on_device (mark_remove pid)) (\<lambda>r. case r of None \<Rightarrow> ret () | Some gone \<Rightarrow> device_do (claim_drop pid))"

definition capture_base ::
  "('x, 'n) sync_env \<Rightarrow> string \<Rightarrow> string list \<Rightarrow> file_hashes \<Rightarrow> files option \<Rightarrow> ('x, 'n, unit) sync_act" where
  "capture_base E pid paths base given =
     device_do (capture (se_parse E) (se_stringify E) (se_sha E) pid paths base given)"

end
