(* ===== verification/Project_Driver.thy ===== *)
theory Project_Driver
  imports Project_Sync
begin

text \<open>
  The operations of \<^verbatim>\<open>PgProjectSync\<close> (\<^verbatim>\<open>features/persistence/model/project-sync.ts\<close>). A push may end in a merge, and a merge
  ends in a push that does not merge again: \<open>push_once\<close> takes the merge as an argument, and \<open>stuck\<close> stands where the
  code cannot come, and for a wait that nothing ends. An accepted upload whose answer has no time to record, and a row whose name or time is no text,
  do not come from the server of \<open>Project_Server\<close> and are read as failed or empty.
\<close>

section \<open>Reading the account\<close>

definition body_of :: "response \<Rightarrow> ('x, 'n, json) sync_act" where
  "body_of rs = (case rs_body rs of JsonBody j \<Rightarrow> ret j | _ \<Rightarrow> throw Thrown)"

text \<open>A property of a value that may be null: taking it of null throws.\<close>

definition field_of :: "json \<Rightarrow> string \<Rightarrow> ('x, 'n, json option) sync_act" where
  "field_of j k = (if j = JNull then throw Thrown else ret (json_field j k))"

definition sync_list :: "('x, 'n) sync_env \<Rightarrow> ('x, 'n, server_project list option) sync_act" where
  "sync_list E =
     bnd (ready E) (\<lambda>r.
       if \<not> r then ret None
       else catch
         (bnd (on_net (nt_list E)) (\<lambda>rs.
            if \<not> is_ok rs then seq (tell (''list projects: HTTP '' @ js_nat (rs_status rs))) (ret None)
            else bnd (body_of rs) (\<lambda>j. case json_field j ''projects'' of
                Some (JArr ps) \<Rightarrow> ret (Some (map trimmedName ps))
              | _ \<Rightarrow> seq (tell ''list projects: malformed'') (ret None))))
         (\<lambda>e. seq (tell ''list projects'') (ret None)))"

definition sync_read :: "('x, 'n) sync_env \<Rightarrow> string \<Rightarrow> ('x, 'n, read_result) sync_act" where
  "sync_read E pid =
     bnd (ready E) (\<lambda>r.
       if \<not> r then ret ReadFailed
       else catch
         (bnd (on_net (nt_get E pid)) (\<lambda>rs.
            if rs_status rs = 404 then ret ReadGone
            else if \<not> is_ok rs
            then seq (tell (''fetch project '' @ pid @ '': HTTP '' @ js_nat (rs_status rs))) (ret ReadFailed)
            else bnd (body_of rs) (\<lambda>j. bnd (field_of j ''project'') (\<lambda>p.
              if \<not> truthy_json p then ret ReadFailed
              else let project = trimmedName (the p)
                in seq (driver_do (rememberName (sp_id project) (sp_name project))) (ret (ReadProject project))))))
         (\<lambda>e. seq (tell (''fetch project '' @ pid)) (ret ReadFailed)))"

definition sync_fetch :: "('x, 'n) sync_env \<Rightarrow> string \<Rightarrow> ('x, 'n, server_project option) sync_act" where
  "sync_fetch E pid =
     bnd (sync_read E pid) (\<lambda>found. case found of
         ReadGone \<Rightarrow> seq (tell (''fetch project '' @ pid @ '': HTTP 404'')) (ret None)
       | ReadFailed \<Rightarrow> ret None
       | ReadProject p \<Rightarrow> ret (Some p))"

definition sync_remove :: "('x, 'n) sync_env \<Rightarrow> string \<Rightarrow> ('x, 'n, bool) sync_act" where
  "sync_remove E pid =
     bnd (ready E) (\<lambda>r.
       if \<not> r then ret False
       else catch
         (bnd (on_net (nt_delete E pid)) (\<lambda>rs.
            if \<not> is_ok rs
            then seq (tell (''delete project '' @ pid @ '': HTTP '' @ js_nat (rs_status rs))) (ret False) else ret True))
         (\<lambda>e. seq (tell (''delete project '' @ pid)) (ret False)))"

section \<open>Pushing\<close>

definition refusalKind :: "response \<Rightarrow> ('x, 'n, conflict_kind) sync_act" where
  "refusalKind rs =
     (let told = (case rs_body rs of JsonBody j \<Rightarrow> json_field j ''reason'' | _ \<Rightarrow> None)
      in seq (only_if (case rs_body rs of JsonBody j \<Rightarrow> False | _ \<Rightarrow> True) (tell ''read refusal body''))
        (ret (if told = Some (JStr ''name-taken'') then NameTaken
              else if told = Some (JStr DELETED_REASON) then DeletedElsewhere
              else if told = Some (JStr ''too-large'') \<or> rs_status rs = 413 then TooLarge
              else Divergent)))"

text \<open>What a push works out before it decides: the hashes, the name to store, and the difference to the agreement.\<close>

record push_view =
  pv_mark :: "sync_mark option"
  pv_hashes :: file_hashes
  pv_localName :: string
  pv_pinned :: bool
  pv_storedName :: string
  pv_patch :: "file_diff option"

definition view_push ::
  "(string \<Rightarrow> string) \<Rightarrow> bool \<Rightarrow> string \<Rightarrow> snapshot \<Rightarrow> string option \<Rightarrow> string js_obj \<Rightarrow> sync_mark option \<Rightarrow> push_view" where
  "view_push sha256 whole pid snap name names mark =
     (let hashes = hashFiles sha256 snap;
          localName = (case name of Some n \<Rightarrow> n | None \<Rightarrow> (case map_of names pid of Some n \<Rightarrow> n | None \<Rightarrow> pid));
          pinned = (case mark of None \<Rightarrow> False | Some m \<Rightarrow> sm_localName m = Some localName)
      in \<lparr>pv_mark = mark, pv_hashes = hashes, pv_localName = localName, pv_pinned = pinned,
          pv_storedName = (if pinned then sm_name (the mark) else localName),
          pv_patch = (case mark of None \<Rightarrow> None | Some m \<Rightarrow> if whole then None else Some (diffFiles (sm_files m) hashes))\<rparr>)"

definition nothing_to_send :: "push_view \<Rightarrow> bool" where
  "nothing_to_send v \<longleftrightarrow>
     (case pv_patch v of
        None \<Rightarrow> False
      | Some p \<Rightarrow> fd_changed p = [] \<and> fd_removed p = [] \<and> map_option sm_name (pv_mark v) = Some (pv_storedName v))"

definition push_json :: "string \<Rightarrow> snapshot \<Rightarrow> push_view \<Rightarrow> json" where
  "push_json pid snap v =
     JObj ([(''id'', JStr pid), (''name'', JStr (pv_storedName v)), (''kind'', JStr (projectKindOf pid))] @
           (case pv_patch v of
              Some p \<Rightarrow>
                [(''changed'', JObj (map (\<lambda>path. (path, JStr (the (map_of (snap_files snap) path)))) (fd_changed p))),
                 (''removed'', JArr (map JStr (fd_removed p)))]
            | None \<Rightarrow> [(''files'', files_json (snap_files snap))]) @
           (case pv_mark v of None \<Rightarrow> [] | Some m \<Rightarrow> [(''baseUpdatedAt'', JStr (sm_updatedAt m))]))"

definition accepted_mark :: "push_view \<Rightarrow> string \<Rightarrow> sync_mark" where
  "accepted_mark v updatedAt =
     \<lparr>sm_files = pv_hashes v, sm_name = pv_storedName v,
      sm_localName = (if pv_pinned v then Some (pv_localName v) else None), sm_updatedAt = updatedAt, sm_dirty = False\<rparr>"

definition push_accepted ::
  "('x, 'n) sync_env \<Rightarrow> string \<Rightarrow> snapshot \<Rightarrow> push_view \<Rightarrow> response \<Rightarrow> ('x, 'n, push_result) sync_act" where
  "push_accepted E pid snap v rs =
     bnd (body_of rs) (\<lambda>j. bnd (field_of j ''updatedAt'') (\<lambda>t. case as_str t of
         None \<Rightarrow> throw Thrown
       | Some updatedAt \<Rightarrow>
           seq (write_mark E pid (accepted_mark v updatedAt))
             (bnd (gets (\<lambda>w. hs_currentId E (wd_host w) = Some pid)) (\<lambda>isCurrent.
               seq (device_do (accepted pid snap isCurrent))
                 (seq (driver_do (clear_conflict pid)) (ret PushOk))))))"

type_synonym ('x, 'n) merge_fn = "string \<Rightarrow> string \<Rightarrow> ('x, 'n, merge_outcome) sync_act"

definition push_refused ::
  "('x, 'n) sync_env \<Rightarrow> ('x, 'n) merge_fn \<Rightarrow> push_options \<Rightarrow> string \<Rightarrow> response \<Rightarrow> ('x, 'n, push_result) sync_act" where
  "push_refused E merge opts pid rs =
     bnd (refusalKind rs) (\<lambda>kind. bnd (gets (\<lambda>w. hs_nameOf E (wd_host w) pid)) (\<lambda>local.
       bnd (if kind = Divergent \<and> \<not> po_merging opts \<and> local \<noteq> None \<and> local \<noteq> Some []
            then bnd (merge pid (the local)) (\<lambda>outcome. ret (Some outcome)) else ret None)
         (\<lambda>outcome. case outcome of
             Some DidMerge \<Rightarrow> ret PushOk
           | Some MergeConflict \<Rightarrow> ret PushConflict
           | _ \<Rightarrow> seq (driver_do (raise_conflict (bare_conflict pid kind))) (ret PushConflict))))"

definition push_failed ::
  "('x, 'n, push_result) sync_act \<Rightarrow> string \<Rightarrow> push_view \<Rightarrow> response \<Rightarrow> ('x, 'n, push_result) sync_act" where
  "push_failed again pid v rs =
     (let refusal = (case rs_body rs of JsonBody j \<Rightarrow> Some j | _ \<Rightarrow> None)
      in if pv_patch v \<noteq> None \<and> Option.bind refusal (\<lambda>j. json_field j ''reason'') = Some (JStr NO_FILES_REASON)
         then seq (tell (''push project '' @ pid @ '': account copy was empty'')) again
         else seq (tell (''push project '' @ pid @ '': HTTP '' @ js_nat (rs_status rs) @
                (case as_str (Option.bind refusal (\<lambda>j. json_field j ''error'')) of None \<Rightarrow> [] | Some said \<Rightarrow> '' ('' @ said @ '')'')))
           (ret PushSkipped))"

definition push_send ::
  "('x, 'n) sync_env \<Rightarrow> ('x, 'n) merge_fn \<Rightarrow> ('x, 'n, push_result) sync_act \<Rightarrow> push_options \<Rightarrow> string \<Rightarrow> snapshot \<Rightarrow>
     push_view \<Rightarrow> string \<Rightarrow> ('x, 'n, push_result) sync_act" where
  "push_send E merge again opts pid snap v body =
     catch
       (seq (note_call (SentPut body))
         (bnd (on_net (nt_put E body)) (\<lambda>rs.
            if rs_status rs = 409 \<or> rs_status rs = 413 then push_refused E merge opts pid rs
            else if \<not> is_ok rs then push_failed again pid v rs
            else push_accepted E pid snap v rs)))
       (\<lambda>e. seq (tell (''push project '' @ pid)) (ret PushSkipped))"

definition push_decide ::
  "('x, 'n) sync_env \<Rightarrow> ('x, 'n) merge_fn \<Rightarrow> ('x, 'n, push_result) sync_act \<Rightarrow> push_options \<Rightarrow> string \<Rightarrow> snapshot \<Rightarrow>
     push_view \<Rightarrow> ('x, 'n, push_result) sync_act" where
  "push_decide E merge again opts pid snap v =
     bnd (gets wd_driver) (\<lambda>d.
       if obj_has (dr_conflicts d) pid then ret PushSkipped
       else if po_generation opts \<noteq> None \<and> po_generation opts \<noteq> Some (generationOf d pid) then ret PushSkipped
       else if nothing_to_send v then ret PushSkipped
       else let body = se_stringify E (push_json pid snap v); bytes = utf8_length body
         in if bytes > MAX_PROJECT_BODY_BYTES
            then seq (tell (''push project '' @ pid @ '': '' @ js_nat bytes @ '' bytes, over the limit''))
              (seq (driver_do (raise_conflict (bare_conflict pid TooLarge))) (ret PushConflict))
            else push_send E merge again opts pid snap v body)"

text \<open>
  A wait is where the other tasks of the tab may change the driver's state. A push of the editor or of the user waits at
  the gate: it goes on if the gate stands open after what the others did, and otherwise waits for good, which is \<open>Stuck\<close>.
\<close>

definition await_gate :: "('x, 'n) sync_env \<Rightarrow> ('x, 'n, unit) sync_act" where
  "await_gate E =
     seq (driver_do (se_meanwhile E))
       (bnd (gets (\<lambda>w. dr_gateOpen (wd_driver w))) (\<lambda>gate. if gate then ret () else stuck))"

text \<open>The other waits of a push, before the decision.\<close>

definition push_viewed ::
  "('x, 'n) sync_env \<Rightarrow> ('x, 'n) merge_fn \<Rightarrow> ('x, 'n, push_result) sync_act \<Rightarrow> push_options \<Rightarrow> string \<Rightarrow> snapshot \<Rightarrow>
     string option \<Rightarrow> sync_mark option \<Rightarrow> ('x, 'n, push_result) sync_act" where
  "push_viewed E merge again opts pid snap name mark =
     bnd (gets (\<lambda>w. view_push (se_sha E) (po_whole opts) pid snap name (dr_names (wd_driver w)) mark)) (\<lambda>v.
       seq (case pv_patch v of
              None \<Rightarrow> ret ()
            | Some p \<Rightarrow> capture_base E pid (fd_changed p) (sm_files (the mark)) None)
         (seq (driver_do (se_meanwhile E)) (push_decide E merge again opts pid snap v)))"

definition push_once ::
  "('x, 'n) sync_env \<Rightarrow> ('x, 'n) merge_fn \<Rightarrow> ('x, 'n, push_result) sync_act \<Rightarrow> push_options \<Rightarrow> string \<Rightarrow> snapshot \<Rightarrow>
     string option \<Rightarrow> ('x, 'n, push_result) sync_act" where
  "push_once E merge again opts pid snap name =
     bnd (ready E) (\<lambda>r.
       if \<not> r then ret PushSkipped
       else if snap_files snap = [] then seq (tell (''push project '' @ pid @ '': refused an empty snapshot'')) (ret PushSkipped)
       else seq (only_if (\<not> po_immediate opts) (await_gate E))
         (bnd (on_device (mark_read (se_parse E) pid)) (\<lambda>mark.
           bnd (if mark = None then on_device (belongsToAnotherAccount pid) else ret False) (\<lambda>foreign.
             if foreign then seq (reportDisowned pid NotUploaded) (ret PushSkipped)
             else push_viewed E merge again opts pid snap name mark))))"

definition whole_options :: "push_options \<Rightarrow> push_options" where
  "whole_options opts = opts\<lparr>po_immediate := True, po_whole := True\<rparr>"

definition push_with ::
  "('x, 'n) sync_env \<Rightarrow> ('x, 'n) merge_fn \<Rightarrow> push_options \<Rightarrow> string \<Rightarrow> snapshot \<Rightarrow> string option \<Rightarrow> ('x, 'n, push_result) sync_act" where
  "push_with E merge opts pid snap name =
     push_once E merge (push_once E merge stuck (whole_options opts) pid snap name) opts pid snap name"

text \<open>The upload a merge makes itself.\<close>

definition push_merged :: "('x, 'n) sync_env \<Rightarrow> string \<Rightarrow> files \<Rightarrow> string \<Rightarrow> ('x, 'n, push_result) sync_act" where
  "push_merged E pid merged name =
     push_with E (\<lambda>p l. stuck) \<lparr>po_immediate = True, po_merging = True, po_generation = None, po_whole = False\<rparr>
       pid \<lparr>snap_files = merged\<rparr> (Some name)"

section \<open>Names\<close>

definition free_name :: "('x, 'n) sync_env \<Rightarrow> string \<Rightarrow> string option \<Rightarrow> ('x, 'n, string) sync_act" where
  "free_name E base own =
     bnd (gets (\<lambda>w. freeName (hs_names E (wd_host w)) base own)) (\<lambda>n. case n of None \<Rightarrow> stuck | Some name \<Rightarrow> ret name)"

definition renameToServer :: "('x, 'n) sync_env \<Rightarrow> string \<Rightarrow> string \<Rightarrow> string \<Rightarrow> ('x, 'n, string) sync_act" where
  "renameToServer E pid local serverName =
     (if local = serverName \<or> \<not> isWorkspaceNameValid serverName then ret local
      else bnd (free_name E serverName (Some local)) (\<lambda>name.
        if name = local then ret local
        else catch (seq (on_host (hs_rename E name local)) (ret name))
          (\<lambda>e. seq (tell (''rename '' @ local @ '' to '' @ name))
             (gets (\<lambda>w. case hs_nameOf E (wd_host w) pid of None \<Rightarrow> local | Some n \<Rightarrow> n)))))"

section \<open>Catching up\<close>

definition catchUpWithDisk :: "('x, 'n) sync_env \<Rightarrow> string \<Rightarrow> ('x, 'n, unit) sync_act" where
  "catchUpWithDisk E pid =
     bnd (gets (\<lambda>w. hs_currentId E (wd_host w) = Some pid)) (\<lambda>current.
       only_if current (catch (on_host (hs_reload E)) (\<lambda>e. tell (''reload before sync '' @ pid))))"

datatype reopen = BeforeReopen | AfterReopen

fun reopen_text :: "reopen \<Rightarrow> string" where
  "reopen_text BeforeReopen = ''before re-open''"
| "reopen_text AfterReopen = ''after re-open''"

text \<open>What one buffer came to: left alone, dropped, or brought to a text, which may still have to be stored.\<close>

datatype buffer_result = LeftAlone | Dropped | Brought string bool

definition folded_text :: "diff_fn \<Rightarrow> string option \<Rightarrow> string \<Rightarrow> string \<Rightarrow> string option" where
  "folded_text diff read buffer synced =
     (case read of
        Some r \<Rightarrow>
          if buffer \<noteq> r \<and> buffer \<noteq> synced
          then (case merge3 diff r buffer synced of Clean txt \<Rightarrow> Some txt | Conflicted chunks \<Rightarrow> None)
          else Some synced
      | None \<Rightarrow> Some synced)"

definition bring_buffer ::
  "('x, 'n) sync_env \<Rightarrow> string \<Rightarrow> string option \<Rightarrow> string option \<Rightarrow> string \<Rightarrow> ('x, 'n, buffer_result) sync_act" where
  "bring_buffer E localName read synced path =
     (let fullPath = ''/'' @ localName @ ''/'' @ path
      in bnd (on_host (hs_readBuffer E fullPath)) (\<lambda>b. case b of
           None \<Rightarrow> ret LeftAlone
         | Some buffer \<Rightarrow>
             (case synced of
                None \<Rightarrow>
                  seq (only_if (Some buffer \<noteq> read) (tell (''catch up '' @ localName @ '': '' @ path @
                         '' was edited here while sync removed it; the edit was discarded'')))
                    (seq (on_host (hs_discardBuffer E fullPath)) (ret Dropped))
              | Some after \<Rightarrow>
                  (let merged = folded_text (se_diff E) read buffer after;
                       content = (case merged of None \<Rightarrow> after | Some c \<Rightarrow> c)
                   in seq (only_if (merged = None) (tell (''catch up '' @ localName @ '': what was typed in '' @ path @
                           '' during sync overlaps what sync wrote; the synced copy was kept'')))
                     (seq (only_if (buffer \<noteq> content) (on_host (hs_writeBuffer E fullPath content)))
                       (ret (Brought content (\<not> (content = after \<and> (Some buffer = read \<or> buffer = content))))))))))"

definition catch_up_path ::
  "('x, 'n) sync_env \<Rightarrow> reopen \<Rightarrow> string \<Rightarrow> files \<Rightarrow> files \<Rightarrow> string \<Rightarrow> string list \<times> string list \<Rightarrow>
     ('x, 'n, string list \<times> string list) sync_act" where
  "catch_up_path E phase localName before after path acc =
     (case acc of (folded, caught) \<Rightarrow>
        if path \<in> set caught then ret acc
        else bnd (catch (bring_buffer E localName (map_of before path) (map_of after path) path)
               (\<lambda>e. seq (tell (''catch up '' @ localName @ '': editor buffer '' @ path @ '' ('' @ reopen_text phase @ '')''))
                  (ret LeftAlone)))
          (\<lambda>r. case r of
              LeftAlone \<Rightarrow> ret acc
            | Dropped \<Rightarrow> ret (folded, caught @ [path])
            | Brought content store \<Rightarrow>
                (let folded' = (if Some content \<noteq> map_of after path then folded @ [path] else folded);
                     fullPath = ''/'' @ localName @ ''/'' @ path
                 in if \<not> store then ret (folded', caught @ [path])
                    else catch
                      (seq (on_host (hs_writeFile E fullPath content))
                        (seq (only_if (phase = AfterReopen) (on_host (hs_saveToState E fullPath content)))
                          (ret (folded', caught @ [path]))))
                      (\<lambda>e. seq (tell (''catch up '' @ localName @ '': write '' @ path @ '' ('' @ reopen_text phase @ '')''))
                         (ret (remove1 path folded', caught))))))"

primrec catch_up_paths ::
  "('x, 'n) sync_env \<Rightarrow> reopen \<Rightarrow> string \<Rightarrow> files \<Rightarrow> files \<Rightarrow> string list \<Rightarrow> string list \<times> string list \<Rightarrow>
     ('x, 'n, string list \<times> string list) sync_act" where
  "catch_up_paths E phase localName before after [] acc = ret acc"
| "catch_up_paths E phase localName before after (p # ps) acc =
     bnd (catch_up_path E phase localName before after p acc) (catch_up_paths E phase localName before after ps)"

definition catchUpBuffers ::
  "('x, 'n) sync_env \<Rightarrow> reopen \<Rightarrow> string \<Rightarrow> files \<Rightarrow> files \<Rightarrow> string list \<times> string list \<Rightarrow>
     ('x, 'n, string list \<times> string list) sync_act" where
  "catchUpBuffers E phase localName before after acc =
     bnd (gets (\<lambda>w. hs_hasBuffers E (wd_host w))) (\<lambda>there.
       if \<not> there then ret acc
       else catch_up_paths E phase localName before after (sort (js_set (obj_keys before @ obj_keys after))) acc)"

definition catchUp :: "('x, 'n) sync_env \<Rightarrow> string \<Rightarrow> files \<Rightarrow> files \<Rightarrow> ('x, 'n, string list) sync_act" where
  "catchUp E localName before after =
     bnd (catchUpBuffers E BeforeReopen localName before after ([], [])) (\<lambda>acc.
       bnd (gets (\<lambda>w. hs_currentName E (wd_host w) = Some localName)) (\<lambda>current.
         if \<not> current then ret (fst acc)
         else seq (catch (on_host (hs_switch E localName)) (\<lambda>e. tell (''catch up '' @ localName @ '': re-open'')))
           (bnd (catchUpBuffers E AfterReopen localName before after acc) (\<lambda>acc'. ret (fst acc')))))"

end
