(* ===== verification/Project_Exchange.thy ===== *)
theory Project_Exchange
  imports Project_Driver
begin

text \<open>
  Merging with the account's copy, adopting it, pushing the open project and acting on the user's answers
  (the rest of \<^verbatim>\<open>features/persistence/model/project-sync.ts\<close>). \<open>exclusive\<close> counts the merges and adoptions of a project and
  makes a later one wait for the earlier ones. A project has a tail in the code exactly while it is counted.
\<close>

section \<open>Merging\<close>

definition MERGE_ATTEMPTS :: nat where
  "MERGE_ATTEMPTS = 3"

fun info_text :: "info_report \<Rightarrow> string" where
  "info_text (UnreadableInfo LocalCopy) = ''program info: unreadable local copy''"
| "info_text (UnreadableInfo AccountCopy) = ''program info: unreadable account copy''"
| "info_text (MalformedInfo LocalCopy) = ''program info: malformed local copy''"
| "info_text (MalformedInfo AccountCopy) = ''program info: malformed account copy''"

definition tell_infos :: "info_report list \<Rightarrow> ('x, 'n, unit) sync_act" where
  "tell_infos rs = each (\<lambda>r. tell (info_text r)) rs"

text \<open>The JSON of the base entries, as they are stored.\<close>

definition base_json :: "base_content js_obj \<Rightarrow> json js_obj" where
  "base_json bs = map (\<lambda>(p, b). (p, JObj ((case bc_hash b of None \<Rightarrow> [] | Some h \<Rightarrow> [(''hash'', JStr h)]) @
       [(''content'', JStr (bc_content b))]))) bs"

definition replace_base :: "('x, 'n) sync_env \<Rightarrow> string \<Rightarrow> base_content js_obj \<Rightarrow> ('x, 'n, unit) sync_act" where
  "replace_base E pid bs =
     seq (note_call (WroteBase pid)) (device_do (base_replace (se_stringify E) pid (base_json bs)))"

definition replace_files :: "('x, 'n) sync_env \<Rightarrow> string \<Rightarrow> files \<Rightarrow> ('x, 'n, unit) sync_act" where
  "replace_files E name fs = seq (note_call (WroteFiles name fs)) (on_host (hs_replace E name fs))"

text \<open>An empty name counts as no stand-in.\<close>

definition stand_in :: "bool \<Rightarrow> string \<Rightarrow> string \<Rightarrow> string option" where
  "stand_in taken localName serverName =
     (if taken \<and> localName \<noteq> serverName \<and> localName \<noteq> [] then Some localName else None)"

fun name_preference :: "preference option \<Rightarrow> name_side option" where
  "name_preference None = None"
| "name_preference (Some PreferServer) = Some ServerName"
| "name_preference (Some _) = Some LocalName"

definition takes_server_name :: "sync_mark option \<Rightarrow> string \<Rightarrow> string \<Rightarrow> preference option \<Rightarrow> bool" where
  "takes_server_name mark localName serverName answer \<longleftrightarrow>
     mergeName (map_option sm_name mark)
       (case mark of Some m \<Rightarrow> if sm_localName m = Some localName then sm_name m else localName | None \<Rightarrow> localName)
       serverName (name_preference answer) = ServerName"

definition was_stand_in :: "sync_mark option \<Rightarrow> string \<Rightarrow> bool" where
  "was_stand_in mark localName \<longleftrightarrow> (case mark of None \<Rightarrow> False | Some m \<Rightarrow> sm_localName m = Some localName)"

definition merged_mark ::
  "server_project \<Rightarrow> file_hashes \<Rightarrow> files \<Rightarrow> files \<Rightarrow> string \<Rightarrow> string option \<Rightarrow> sync_mark" where
  "merged_mark p serverHashes merged server localName standIn =
     \<lparr>sm_files = serverHashes, sm_name = sp_name p, sm_localName = standIn, sm_updatedAt = sp_updatedAt p,
      sm_dirty = (\<not> sameFiles merged server \<or> localName \<noteq> sp_name p \<and> standIn = None)\<rparr>"

text \<open>After the upload: \<open>None\<close> goes round again.\<close>

definition after_upload :: "string \<Rightarrow> files \<Rightarrow> push_result \<Rightarrow> ('x, 'n, merge_outcome option) sync_act" where
  "after_upload pid merged result =
     (if result \<noteq> PushConflict then ret (Some DidMerge)
      else bnd (gets (\<lambda>w. map_option cf_kind (map_of (dr_conflicts (wd_driver w)) pid))) (\<lambda>k.
        if k \<noteq> Some Divergent then ret (Some MergeConflict)
        else seq (driver_do (clear_conflict pid))
          (seq (locals_do (\<lambda>l. l\<lparr>ml_carried := Some merged\<rparr>)) (ret None))))"

definition merge_apply ::
  "('x, 'n) sync_env \<Rightarrow> string \<Rightarrow> preference option \<Rightarrow> server_project \<Rightarrow> sync_mark option \<Rightarrow> files \<Rightarrow> files \<Rightarrow> files \<Rightarrow>
     ('x, 'n, merge_outcome option) sync_act" where
  "merge_apply E pid answer p mark local server merged =
     bnd (gets (\<lambda>w. ml_name (wd_merge w))) (\<lambda>localName.
       let taken = takes_server_name mark localName (sp_name p) answer
       in bnd (if taken \<and> localName \<noteq> sp_name p then renameToServer E pid localName (sp_name p) else ret localName) (\<lambda>name.
         let standIn = stand_in (taken \<or> was_stand_in mark localName) name (sp_name p);
             serverHashes = hashFiles (se_sha E) \<lparr>snap_files = server\<rparr>
         in seq (locals_do (\<lambda>l. l\<lparr>ml_name := name\<rparr>))
           (seq (only_if (\<not> sameFiles merged local)
                  (seq (replace_files E name merged) (locals_do (\<lambda>l. l\<lparr>ml_written := Some merged\<rparr>))))
             (seq (write_mark E pid (merged_mark p serverHashes merged server name standIn))
               (seq (replace_base E pid (baseAfterMerge merged server serverHashes))
                 (seq (driver_do (clear_conflict pid))
                   (bnd (push_merged E pid merged name) (after_upload pid merged))))))))"

definition merge_input_of ::
  "('x, 'n) sync_env \<Rightarrow> sync_mark option \<Rightarrow> json js_obj \<Rightarrow> files \<Rightarrow> files \<Rightarrow> merge_input" where
  "merge_input_of E mark held local server =
     \<lparr>mi_base = (case mark of None \<Rightarrow> [] | Some m \<Rightarrow> sm_files m), mi_baseContents = base_contents held,
      mi_local = local, mi_localHashes = hashFiles (se_sha E) \<lparr>snap_files = local\<rparr>,
      mi_server = server, mi_serverHashes = hashFiles (se_sha E) \<lparr>snap_files = server\<rparr>\<rparr>"

text \<open>Content is pinned to the copies it was written against until it has been applied once.\<close>

definition pins_miss :: "preference option \<Rightarrow> bool \<Rightarrow> file_hashes \<Rightarrow> file_hashes \<Rightarrow> bool" where
  "pins_miss prefer carried lh sh \<longleftrightarrow>
     (case prefer of Some (Resolved answer) \<Rightarrow> \<not> carried \<and> \<not> pinsHold answer lh sh | _ \<Rightarrow> False)"

definition answer_now :: "preference option \<Rightarrow> bool \<Rightarrow> preference option" where
  "answer_now prefer carried = (case prefer of Some (Resolved answer) \<Rightarrow> if carried then None else prefer | _ \<Rightarrow> prefer)"

definition merge_decide ::
  "('x, 'n) sync_env \<Rightarrow> string \<Rightarrow> preference option \<Rightarrow> string list option \<Rightarrow> server_project \<Rightarrow> sync_mark option \<Rightarrow> bool \<Rightarrow>
     merge_plan \<Rightarrow> files \<Rightarrow> files \<Rightarrow> ('x, 'n, merge_outcome option) sync_act" where
  "merge_decide E pid prefer asked p mark carried plan local server =
     (let lh = hashFiles (se_sha E) \<lparr>snap_files = local\<rparr>; sh = hashFiles (se_sha E) \<lparr>snap_files = server\<rparr>;
          answer = answer_now prefer carried
      in if pins_miss prefer carried lh sh
         then seq (driver_do (raise_conflict (refusedOf pid plan
                (case prefer of Some (Resolved given) \<Rightarrow> given | _ \<Rightarrow> []) lh sh))) (ret (Some MergeConflict))
         else if \<not> answers plan answer asked
         then seq (driver_do (raise_conflict (divergentOf pid plan))) (ret (Some MergeConflict))
         else (case settleConflicts plan (case answer of None \<Rightarrow> PreferServer | Some pr \<Rightarrow> pr) local server of
             Inl e \<Rightarrow> throw Thrown
           | Inr merged \<Rightarrow>
               if merged = [] then seq (tell (''merge project '' @ pid @ '': refused an empty result'')) (ret (Some MergeFailed))
               else merge_apply E pid answer p mark local server merged))"

definition merge_plan_of ::
  "('x, 'n) sync_env \<Rightarrow> string \<Rightarrow> preference option \<Rightarrow> string list option \<Rightarrow> server_project \<Rightarrow> files option \<Rightarrow> files \<Rightarrow> files \<Rightarrow>
     ('x, 'n, merge_outcome option) sync_act" where
  "merge_plan_of E pid prefer asked p carried local server =
     bnd (on_device (mark_read (se_parse E) pid)) (\<lambda>mark.
       seq (case (mark, carried) of
              (Some m, None) \<Rightarrow> capture_base E pid
                (fd_changed (diffFiles (sm_files m) (hashFiles (se_sha E) \<lparr>snap_files = local\<rparr>))) (sm_files m) None
            | _ \<Rightarrow> ret ())
         (bnd (on_device (base_read (se_parse E) pid)) (\<lambda>held.
           let plan = planMerge (se_parse E) (se_stringify E) (se_diff E) (merge_input_of E mark held local server)
           in seq (tell_infos (mp_log plan))
             (merge_decide E pid prefer asked p mark (carried \<noteq> None) plan local server))))"

definition merge_attempt ::
  "('x, 'n) sync_env \<Rightarrow> string \<Rightarrow> preference option \<Rightarrow> string list option \<Rightarrow> ('x, 'n, merge_outcome option) sync_act" where
  "merge_attempt E pid prefer asked =
     bnd (sync_read E pid) (\<lambda>found. case found of
         ReadGone \<Rightarrow> seq (driver_do (raise_conflict (bare_conflict pid DeletedElsewhere))) (ret (Some MergeConflict))
       | ReadFailed \<Rightarrow> ret (Some MergeFailed)
       | ReadProject p \<Rightarrow>
           if \<not> isUsableSnapshot (sp_snapshot p)
           then seq (only_if (truthy_json (sp_snapshot p)) (tell (''merge project '' @ pid @ '': unusable snapshot'')))
             (ret (Some MergeFailed))
           else bnd (gets wd_merge) (\<lambda>l.
             bnd (case ml_carried l of Some fs \<Rightarrow> ret fs | None \<Rightarrow> on_host (hs_snapshot E (ml_name l))) (\<lambda>local.
               seq (locals_do (\<lambda>l. l\<lparr>ml_first := (case ml_first l of None \<Rightarrow> Some local | Some f \<Rightarrow> Some f)\<rparr>))
                 (if local = [] then seq (tell (''merge project '' @ pid @ '': refused an empty local copy'')) (ret (Some MergeFailed))
                  else merge_plan_of E pid prefer asked p (ml_carried l) local (snapshot_files (sp_snapshot p))))))"

primrec merge_attempts ::
  "nat \<Rightarrow> ('x, 'n) sync_env \<Rightarrow> string \<Rightarrow> preference option \<Rightarrow> string list option \<Rightarrow> ('x, 'n, merge_outcome) sync_act" where
  "merge_attempts 0 E pid prefer asked =
     seq (driver_do (raise_conflict (bare_conflict pid Divergent))) (ret MergeConflict)"
| "merge_attempts (Suc n) E pid prefer asked =
     bnd (merge_attempt E pid prefer asked) (\<lambda>o1. case o1 of Some outcome \<Rightarrow> ret outcome | None \<Rightarrow> merge_attempts n E pid prefer asked)"

definition merge_catch_up :: "('x, 'n) sync_env \<Rightarrow> string \<Rightarrow> ('x, 'n, unit) sync_act" where
  "merge_catch_up E pid =
     bnd (gets wd_merge) (\<lambda>l. case ml_written l of
         None \<Rightarrow> ret ()
       | Some written \<Rightarrow>
           bnd (catchUp E (ml_name l) (case ml_first l of None \<Rightarrow> [] | Some f \<Rightarrow> f) written) (\<lambda>folded.
             only_if (folded \<noteq> [])
               (bnd (on_device (mark_read (se_parse E) pid)) (\<lambda>mark.
                 seq (case mark of None \<Rightarrow> ret () | Some m \<Rightarrow> capture_base E pid folded (sm_files m) (Some written))
                   (mark_dirty E pid)))))"

definition merge_locked ::
  "('x, 'n) sync_env \<Rightarrow> string \<Rightarrow> string \<Rightarrow> preference option \<Rightarrow> string list option \<Rightarrow> ('x, 'n, merge_outcome) sync_act" where
  "merge_locked E pid localName prefer asked =
     seq (catchUpWithDisk E pid)
       (seq (driver_do holdPushes)
         (seq (driver_do (bump pid))
           (seq (locals_do (\<lambda>l. \<lparr>ml_name = localName, ml_first = None, ml_written = None, ml_carried = None\<rparr>))
             (lastly (merge_attempts MERGE_ATTEMPTS E pid prefer asked)
               (lastly (merge_catch_up E pid)
                 (seq (driver_do (bump pid)) (driver_do releasePushes)))))))"

text \<open>
  A task on a project runs once the earlier ones on it have ended. One that finds another under way waits for it: it goes
  on if, after what the other tasks did, it is the only one left, and otherwise waits for good. (The code lets it go on
  when the ones before it have ended; the model also makes it wait for any that came behind it.)
\<close>

definition await_turn :: "('x, 'n) sync_env \<Rightarrow> string \<Rightarrow> ('x, 'n, unit) sync_act" where
  "await_turn E pid =
     seq (driver_do (se_meanwhile E))
       (bnd (gets (\<lambda>w. map_of (dr_merging (wd_driver w)) pid)) (\<lambda>n. if n = Some 1 then ret () else stuck))"

definition exclusive :: "('x, 'n) sync_env \<Rightarrow> string \<Rightarrow> ('x, 'n, 'a) sync_act \<Rightarrow> ('x, 'n, 'a) sync_act" where
  "exclusive E pid task =
     bnd (gets (\<lambda>w. isMerging (wd_driver w) pid)) (\<lambda>previous.
       seq (driver_do (enter_merging pid))
         (lastly (seq (only_if previous (await_turn E pid)) task) (driver_do (leave_merging pid))))"

definition mergeWithServer ::
  "('x, 'n) sync_env \<Rightarrow> string \<Rightarrow> string \<Rightarrow> preference option \<Rightarrow> string list option \<Rightarrow> ('x, 'n, merge_outcome) sync_act" where
  "mergeWithServer E pid localName prefer asked = exclusive E pid (merge_locked E pid localName prefer asked)"

section \<open>Pushes of the user\<close>

definition sync_push ::
  "('x, 'n) sync_env \<Rightarrow> push_options \<Rightarrow> string \<Rightarrow> snapshot \<Rightarrow> string option \<Rightarrow> ('x, 'n, push_result) sync_act" where
  "sync_push E opts pid snap name = push_with E (\<lambda>p l. mergeWithServer E p l None None) opts pid snap name"

definition pushCurrent :: "('x, 'n) sync_env \<Rightarrow> ('x, 'n, push_result) sync_act" where
  "pushCurrent E =
     bnd (gets (\<lambda>w. hs_currentId E (wd_host w))) (\<lambda>first.
       if first = None \<or> first = Some [] then ret PushSkipped
       else bnd (ready E) (\<lambda>r.
         if \<not> r then ret PushSkipped
         else seq (await_gate E) (bnd (gets (\<lambda>w. (hs_currentId E (wd_host w), hs_currentName E (wd_host w)))) (\<lambda>(i, n).
           if i = None \<or> i = Some [] \<or> n = None \<or> n = Some [] then ret PushSkipped
           else bnd (asks_host (hs_registered E (the n) (the i))) (\<lambda>there.
             if \<not> there
             then seq (tell (''push project '' @ the i @ '': workspace no longer registered on disk'')) (ret PushSkipped)
             else bnd (gets (\<lambda>w. generationOf (wd_driver w) (the i))) (\<lambda>generation.
               bnd (on_host (hs_snapshot E (the n))) (\<lambda>fs.
                 sync_push E (PLAIN_PUSH\<lparr>po_generation := Some generation\<rparr>) (the i) \<lparr>snap_files = fs\<rparr> n)))))))"

section \<open>Adopting\<close>

definition isCleanAgainst :: "(string \<Rightarrow> string) \<Rightarrow> sync_mark option \<Rightarrow> string \<Rightarrow> files \<Rightarrow> bool" where
  "isCleanAgainst sha256 mark localName fs \<longleftrightarrow>
     (case mark of
        None \<Rightarrow> False
      | Some m \<Rightarrow>
          (case sm_localName m of Some n \<Rightarrow> n | None \<Rightarrow> sm_name m) = localName \<and>
          sameUserFiles (sm_files m) (hashFiles sha256 \<lparr>snap_files = fs\<rparr>))"

definition adopted_mark :: "(string \<Rightarrow> string) \<Rightarrow> server_project \<Rightarrow> files \<Rightarrow> string \<Rightarrow> sync_mark" where
  "adopted_mark sha256 p server local =
     \<lparr>sm_files = hashFiles sha256 \<lparr>snap_files = server\<rparr>, sm_name = sp_name p,
      sm_localName = (if local \<noteq> sp_name p then Some local else None), sm_updatedAt = sp_updatedAt p, sm_dirty = False\<rparr>"

definition adopt_take ::
  "('x, 'n) sync_env \<Rightarrow> string \<Rightarrow> server_project \<Rightarrow> sync_mark \<Rightarrow> string \<Rightarrow> files \<Rightarrow> ('x, 'n, string option) sync_act" where
  "adopt_take E pid p mark local before =
     (let server = snapshot_files (sp_snapshot p)
      in case withLocalKeypair (se_parse E) (se_stringify E) server before of (infos, fs) \<Rightarrow>
        seq (tell_infos infos)
          (seq (replace_files E local fs)
            (bnd (if mergeName (Some (sm_name mark)) (if sm_localName mark = Some local then sm_name mark else local)
                       (sp_name p) None = ServerName
                  then renameToServer E pid local (sp_name p) else ret local) (\<lambda>name.
              seq (write_mark E pid (adopted_mark (se_sha E) p server name))
                (seq (device_do (base_clear pid))
                  (bnd (catchUp E name before fs) (\<lambda>owed.
                    seq (capture_base E pid owed (hashFiles (se_sha E) \<lparr>snap_files = server\<rparr>) (Some fs))
                      (seq (only_if (owed \<noteq> [] \<or> fs \<noteq> server) (mark_dirty E pid)) (ret (Some name))))))))))"

definition adopt_held ::
  "('x, 'n) sync_env \<Rightarrow> string \<Rightarrow> server_project \<Rightarrow> string \<Rightarrow> ('x, 'n, string option) sync_act" where
  "adopt_held E pid p local =
     bnd (on_host (hs_snapshot E local)) (\<lambda>before.
       bnd (on_device (mark_read (se_parse E) pid)) (\<lambda>mark.
         if \<not> isCleanAgainst (se_sha E) mark local before then ret None
         else seq (driver_do (bump pid))
           (lastly (adopt_take E pid p (the mark) local before) (driver_do (bump pid)))))"

text \<open>Pushes are held while a task runs.\<close>

definition holding :: "('x, 'n, 'a) sync_act \<Rightarrow> ('x, 'n, 'a) sync_act" where
  "holding task = seq (driver_do holdPushes) (lastly task (driver_do releasePushes))"

definition adopt_locked :: "('x, 'n) sync_env \<Rightarrow> string \<Rightarrow> ('x, 'n, string option) sync_act" where
  "adopt_locked E pid =
     seq (catchUpWithDisk E pid)
       (bnd (sync_fetch E pid) (\<lambda>p0. case p0 of
           None \<Rightarrow> ret None
         | Some p \<Rightarrow>
             if \<not> isUsableSnapshot (sp_snapshot p)
             then seq (tell (''adopt '' @ pid @ '': unusable snapshot'')) (ret None)
             else bnd (gets (\<lambda>w. hs_nameOf E (wd_host w) pid)) (\<lambda>local.
               if local = None \<or> local = Some [] then ret None
               else holding (adopt_held E pid p (the local)))))"

definition adopt :: "('x, 'n) sync_env \<Rightarrow> string \<Rightarrow> ('x, 'n, string option) sync_act" where
  "adopt E pid = exclusive E pid (adopt_locked E pid)"

definition settleStandIn :: "('x, 'n) sync_env \<Rightarrow> string \<Rightarrow> string \<Rightarrow> ('x, 'n, bool) sync_act" where
  "settleStandIn E pid serverName =
     bnd (gets (\<lambda>w. isMerging (wd_driver w) pid)) (\<lambda>busy.
       if busy then ret False
       else exclusive E pid
         (bnd (gets (\<lambda>w. hs_nameOf E (wd_host w) pid)) (\<lambda>local.
           bnd (on_device (mark_read (se_parse E) pid)) (\<lambda>mark.
             bnd (gets (\<lambda>w. hs_names E (wd_host w))) (\<lambda>names.
               if local = None \<or> local = Some [] \<or> mark = None \<or> sm_localName (the mark) \<noteq> local \<or>
                  sm_name (the mark) \<noteq> serverName \<or> \<not> isWorkspaceNameValid serverName \<or> serverName \<in> set names
               then ret False
               else bnd (catch (seq (on_host (hs_rename E serverName (the local))) (ret True))
                   (\<lambda>e. seq (tell (''rename '' @ the local @ '' back to '' @ serverName)) (ret False)))
                 (\<lambda>moved.
                   if \<not> moved then ret False
                   else seq (write_mark E pid ((the mark)\<lparr>sm_localName := None\<rparr>)) (ret True)))))))"

section \<open>Answers\<close>

fun describeResolution :: "resolution \<Rightarrow> string" where
  "describeResolution KeepLocal = ''keep-local''"
| "describeResolution TakeServer = ''take-server''"
| "describeResolution DeleteLocal = ''delete-local''"
| "describeResolution KeepAsNew = ''keep-as-new''"
| "describeResolution Retry = ''retry''"
| "describeResolution (ResolvedWith fs) = ''resolved''"

definition resolve_merging ::
  "('x, 'n) sync_env \<Rightarrow> string \<Rightarrow> string option \<Rightarrow> preference \<Rightarrow> ('x, 'n, bool) sync_act" where
  "resolve_merging E pid name prefer =
     (if name = None \<or> name = Some [] then ret False
      else bnd (gets (\<lambda>w. Option.bind (map_of (dr_conflicts (wd_driver w)) pid) cf_paths)) (\<lambda>asked.
        bnd (mergeWithServer E pid (the name) (Some prefer) asked) (\<lambda>outcome. ret (outcome = DidMerge))))"

definition resolve_delete :: "('x, 'n) sync_env \<Rightarrow> string \<Rightarrow> string option \<Rightarrow> ('x, 'n, bool) sync_act" where
  "resolve_delete E pid name =
     seq (if name = None \<or> name = Some [] then ret () else on_host (hs_delete E (the name)))
       (seq (remove_mark pid)
         (seq (device_do (base_clear pid))
           (seq (on_host (hs_forgetThreads E pid)) (seq (driver_do (clear_conflict pid)) (ret True)))))"

definition resolve_keep :: "('x, 'n) sync_env \<Rightarrow> string \<Rightarrow> string option \<Rightarrow> ('x, 'n, bool) sync_act" where
  "resolve_keep E pid name =
     (if name = None \<or> name = Some [] then ret False
      else bnd (on_host (hs_snapshot E (the name))) (\<lambda>fs.
        if fs = [] then seq (tell (''resolve '' @ pid @ '' as keep-as-new: nothing to keep'')) (ret False)
        else let fresh = the name @ '' (kept)''
          in bnd (on_host (hs_uuid E)) (\<lambda>freshId.
            seq (on_host (hs_import E fresh freshId fs))
              (bnd (on_host (hs_carryThreads E pid freshId)) (\<lambda>moved.
                if \<not> moved then seq (on_host (hs_delete E fresh)) (ret False)
                else seq (remove_mark pid)
                  (seq (device_do (base_clear pid))
                    (seq (on_host (hs_delete E (the name)))
                      (seq (driver_do (clear_conflict pid))
                        (seq (on_host (hs_switch E fresh)) (ret True))))))))))"

definition resolve_retry :: "('x, 'n) sync_env \<Rightarrow> string \<Rightarrow> string option \<Rightarrow> ('x, 'n, bool) sync_act" where
  "resolve_retry E pid name =
     (if name = None \<or> name = Some [] then ret False
      else bnd (gets (\<lambda>w. map_of (dr_conflicts (wd_driver w)) pid)) (\<lambda>previous.
        seq (driver_do (clear_conflict pid))
          (bnd (on_host (hs_snapshot E (the name))) (\<lambda>fs.
            bnd (sync_push E PLAIN_PUSH pid \<lparr>snap_files = fs\<rparr> name) (\<lambda>result.
              if result = PushOk then ret True
              else bnd (gets (\<lambda>w. obj_has (dr_conflicts (wd_driver w)) pid)) (\<lambda>up.
                seq (case previous of
                       None \<Rightarrow> ret () | Some c \<Rightarrow> only_if (\<not> up) (driver_do (raise_conflict c)))
                  (ret False)))))))"

definition resolve :: "('x, 'n) sync_env \<Rightarrow> string \<Rightarrow> resolution \<Rightarrow> ('x, 'n, bool) sync_act" where
  "resolve E pid resolution =
     bnd (gets (\<lambda>w. hs_nameOf E (wd_host w) pid)) (\<lambda>name.
       catch
         (bnd (if name \<noteq> None \<and> name \<noteq> Some [] \<and> resolution \<noteq> DeleteLocal
               then asks_host (hs_registered E (the name) pid) else ret True) (\<lambda>there.
           if \<not> there
           then seq (tell (''resolve '' @ pid @ '' as '' @ describeResolution resolution @ '': workspace no longer registered on disk''))
             (ret False)
           else (case resolution of
               ResolvedWith fs \<Rightarrow> resolve_merging E pid name (Resolved fs)
             | KeepLocal \<Rightarrow> resolve_merging E pid name PreferLocal
             | TakeServer \<Rightarrow> resolve_merging E pid name PreferServer
             | DeleteLocal \<Rightarrow> resolve_delete E pid name
             | KeepAsNew \<Rightarrow> resolve_keep E pid name
             | Retry \<Rightarrow> resolve_retry E pid name)))
         (\<lambda>e. seq (tell (''resolve '' @ pid @ '' as '' @ describeResolution resolution)) (ret False)))"

definition conflictFor :: "driver \<Rightarrow> string option \<Rightarrow> sync_conflict option" where
  "conflictFor d pid = (case pid of None \<Rightarrow> None | Some [] \<Rightarrow> None | Some i \<Rightarrow> map_of (dr_conflicts d) i)"

end
