(* ===== verification/Project_Restore.thy ===== *)
theory Project_Restore
  imports Project_Exchange
begin

text \<open>
  Making this browser and the account agree (\<^verbatim>\<open>features/persistence/model/project-restore.ts\<close>): one pass over the projects
  the account lists, the deletes made elsewhere, the names sync stepped around and the projects the account has never seen; what
  sign-out removes; and how calls for a pass are gathered while one runs. The result of a pass is kept in the world,
  as a pass that fails part-way keeps what it recorded. The times a list is ordered by have one format, so they order
  as texts.
\<close>

section \<open>The result of a pass\<close>

definition EMPTY_RESULT :: sync_result where
  "EMPTY_RESULT =
     \<lparr>su_imported = [], su_replaced = [], su_removed = [], su_pushed = [], su_conflicts = [], su_latest = None\<rparr>"

definition result_do :: "(sync_result \<Rightarrow> sync_result) \<Rightarrow> ('x, 'n, unit) sync_act" where
  "result_do f = modify (\<lambda>w. w\<lparr>wd_result := f (wd_result w)\<rparr>)"

definition set_latest :: "string \<Rightarrow> sync_result \<Rightarrow> sync_result" where
  "set_latest name r = r\<lparr>su_latest := (case su_latest r of None \<Rightarrow> Some name | Some n \<Rightarrow> Some n)\<rparr>"

definition add_pushed :: "string \<Rightarrow> sync_result \<Rightarrow> sync_result" where
  "add_pushed name r = r\<lparr>su_pushed := su_pushed r @ [name]\<rparr>"

definition add_replaced :: "string \<Rightarrow> sync_result \<Rightarrow> sync_result" where
  "add_replaced name r = r\<lparr>su_replaced := su_replaced r @ [name]\<rparr>"

definition add_imported :: "string \<Rightarrow> sync_result \<Rightarrow> sync_result" where
  "add_imported name r = r\<lparr>su_imported := su_imported r @ [name]\<rparr>"

definition add_conflicts :: "sync_conflict \<Rightarrow> sync_result \<Rightarrow> sync_result" where
  "add_conflicts c r = r\<lparr>su_conflicts := su_conflicts r @ [c]\<rparr>"

definition add_removed :: "string \<Rightarrow> sync_result \<Rightarrow> sync_result" where
  "add_removed name r =
     r\<lparr>su_removed := su_removed r @ [name], su_latest := (if su_latest r = Some name then None else su_latest r)\<rparr>"

section \<open>The cells of the table\<close>

definition isClean :: "('x, 'n) sync_env \<Rightarrow> string \<Rightarrow> string \<Rightarrow> ('x, 'n, bool) sync_act" where
  "isClean E pid localName =
     bnd (on_device (mark_read (se_parse E) pid)) (\<lambda>mark.
       bnd (on_host (hs_snapshot E localName)) (\<lambda>fs. ret (isCleanAgainst (se_sha E) mark localName fs)))"

definition importFresh :: "('x, 'n) sync_env \<Rightarrow> string \<Rightarrow> string \<Rightarrow> ('x, 'n, string option) sync_act" where
  "importFresh E pid serverName =
     bnd (sync_fetch E pid) (\<lambda>p0. case p0 of
         None \<Rightarrow> ret None
       | Some p \<Rightarrow>
           if \<not> isUsableSnapshot (sp_snapshot p)
           then seq (only_if (truthy_json (sp_snapshot p)) (tell (''import '' @ pid @ '': unusable snapshot''))) (ret None)
           else let fs = snapshot_files (sp_snapshot p)
             in bnd (free_name E serverName None) (\<lambda>name.
               seq (on_host (hs_import E name pid fs))
                 (seq (write_mark E pid
                        \<lparr>sm_files = hashFiles (se_sha E) \<lparr>snap_files = fs\<rparr>, sm_name = serverName,
                         sm_localName = (if name \<noteq> serverName then Some name else None),
                         sm_updatedAt = sp_updatedAt p, sm_dirty = False\<rparr>)
                   (seq (device_do (base_clear pid)) (ret (Some name))))))"

datatype rebased = NoRebase | RebaseRetry | Rebased sync_mark

definition rebaseWholeSnapshotMark ::
  "('x, 'n) sync_env \<Rightarrow> server_project \<Rightarrow> string \<Rightarrow> ('x, 'n, rebased) sync_act" where
  "rebaseWholeSnapshotMark E project local =
     bnd (on_device (readWholeSnapshotMark (se_parse E) (sp_id project))) (\<lambda>old.
       if old \<noteq> Some (sp_updatedAt project) then ret NoRebase
       else bnd (sync_fetch E (sp_id project)) (\<lambda>p0. case p0 of
           None \<Rightarrow> seq (tell (''rebase whole-snapshot mark '' @ sp_id project @ '': row unreadable'')) (ret RebaseRetry)
         | Some p \<Rightarrow>
             if Some (sp_updatedAt p) \<noteq> old then ret NoRebase
             else if \<not> isUsableSnapshot (sp_snapshot p)
             then seq (only_if (truthy_json (sp_snapshot p))
                    (tell (''rebase whole-snapshot mark '' @ sp_id project @ '': unusable snapshot''))) (ret NoRebase)
             else let fs = snapshot_files (sp_snapshot p); agreed = hashFiles (se_sha E) \<lparr>snap_files = fs\<rparr>;
                      mark = \<lparr>sm_files = agreed, sm_name = sp_name p, sm_localName = None, sm_updatedAt = sp_updatedAt p,
                              sm_dirty = True\<rparr>
               in bnd (on_host (hs_snapshot E local)) (\<lambda>here.
                 seq (capture_base E (sp_id project)
                        (fd_changed (diffFiles agreed (hashFiles (se_sha E) \<lparr>snap_files = here\<rparr>))) agreed (Some fs))
                   (bnd (write_mark E (sp_id project) mark) (\<lambda>ok. ret (if ok then Rebased mark else RebaseRetry))))))"

definition settleDivergence :: "('x, 'n) sync_env \<Rightarrow> string \<Rightarrow> string \<Rightarrow> ('x, 'n, sync_conflict option) sync_act" where
  "settleDivergence E pid local =
     bnd (on_device (belongsToAnotherAccount pid)) (\<lambda>foreign.
       if foreign then seq (reportDisowned pid HidingAccountCopy) (ret None)
       else bnd (sync_fetch E pid) (\<lambda>p0.
         let snap = Option.bind p0 sp_snapshot
         in if \<not> isUsableSnapshot snap
            then seq (only_if (truthy_json snap) (tell (''reconcile '' @ pid @ '': unusable snapshot'')))
              (bnd (on_host (hs_snapshot E local)) (\<lambda>fs.
                bnd (sync_push E (PLAIN_PUSH\<lparr>po_immediate := True\<rparr>) pid \<lparr>snap_files = fs\<rparr> (Some local)) (\<lambda>r.
                  seq (only_if (r = PushOk) (result_do (add_pushed local))) (ret None))))
            else bnd (mergeWithServer E pid local None None) (\<lambda>outcome.
              if outcome = DidMerge then seq (result_do (add_replaced local)) (ret None)
              else gets (\<lambda>w. conflictFor (wd_driver w) (Some pid)))))"

text \<open>A project with a copy here: the four cells of the table.\<close>

definition reconcile_cell ::
  "('x, 'n) sync_env \<Rightarrow> server_project \<Rightarrow> string \<Rightarrow> sync_mark option \<Rightarrow> ('x, 'n, unit) sync_act" where
  "reconcile_cell E project local mark =
     bnd (isClean E (sp_id project) local) (\<lambda>clean.
       let moved = (case mark of None \<Rightarrow> True | Some m \<Rightarrow> sm_updatedAt m \<noteq> sp_updatedAt project)
       in if clean \<and> moved
          then bnd (adopt E (sp_id project)) (\<lambda>adopted. case adopted of
              None \<Rightarrow> ret ()
            | Some name \<Rightarrow> only_if (name \<noteq> []) (result_do (add_replaced name)))
          else if \<not> moved \<and> \<not> clean
          then bnd (gets (\<lambda>w. generationOf (wd_driver w) (sp_id project))) (\<lambda>generation.
            bnd (on_host (hs_snapshot E local)) (\<lambda>fs.
              bnd (sync_push E (PLAIN_PUSH\<lparr>po_immediate := True, po_generation := Some generation\<rparr>) (sp_id project)
                     \<lparr>snap_files = fs\<rparr> (Some local)) (\<lambda>r.
                only_if (r = PushOk) (result_do (add_pushed local)))))
          else if moved \<and> \<not> clean
          then bnd (settleDivergence E (sp_id project) local) (\<lambda>settled. case settled of
              None \<Rightarrow> ret () | Some c \<Rightarrow> result_do (add_conflicts c))
          else ret ())"

definition reconcile_local :: "('x, 'n) sync_env \<Rightarrow> server_project \<Rightarrow> string \<Rightarrow> ('x, 'n, unit) sync_act" where
  "reconcile_local E project local =
     seq (result_do (set_latest local))
       (bnd (on_device (mark_read (se_parse E) (sp_id project))) (\<lambda>known.
         bnd (case known of Some m \<Rightarrow> ret (Rebased m) | None \<Rightarrow> rebaseWholeSnapshotMark E project local) (\<lambda>reb.
           case reb of
             RebaseRetry \<Rightarrow> ret ()
           | NoRebase \<Rightarrow> reconcile_cell E project local None
           | Rebased m \<Rightarrow>
               if \<not> sm_dirty m \<and> sm_updatedAt m = sp_updatedAt project then ret ()
               else reconcile_cell E project local (Some m))))"

definition reconcile_project :: "('x, 'n) sync_env \<Rightarrow> server_project \<Rightarrow> ('x, 'n, unit) sync_act" where
  "reconcile_project E project =
     seq (driver_do (rememberName (sp_id project) (sp_name project)))
       (bnd (gets (\<lambda>w. (hs_nameOf E (wd_host w) (sp_id project), isMerging (wd_driver w) (sp_id project)))) (\<lambda>(found, busy).
         let local = (if found = Some [] then None else found)
         in if busy then (case local of None \<Rightarrow> ret () | Some l \<Rightarrow> result_do (set_latest l))
            else catch
              (case local of
                 None \<Rightarrow>
                   bnd (importFresh E (sp_id project) (sp_name project)) (\<lambda>name. case name of
                       None \<Rightarrow> ret ()
                     | Some n \<Rightarrow> only_if (n \<noteq> []) (result_do (\<lambda>r. set_latest n (add_imported n r))))
               | Some l \<Rightarrow> reconcile_local E project l)
              (\<lambda>e. tell (''reconcile project '' @ sp_id project))))"

section \<open>Deletes, names and new projects\<close>

definition settle_delete :: "('x, 'n) sync_env \<Rightarrow> string \<Rightarrow> ('x, 'n, unit) sync_act" where
  "settle_delete E pid =
     bnd (gets (\<lambda>w. hs_nameOf E (wd_host w) pid)) (\<lambda>local.
       if local = None \<or> local = Some [] then seq (remove_mark pid) (on_host (hs_forgetThreads E pid))
       else bnd (isClean E pid (the local)) (\<lambda>clean.
         if clean
         then seq (on_host (hs_delete E (the local)))
           (seq (remove_mark pid)
             (seq (on_host (hs_forgetThreads E pid)) (result_do (add_removed (the local)))))
         else seq (driver_do (raise_conflict (bare_conflict pid DeletedElsewhere)))
           (result_do (add_conflicts (bare_conflict pid DeletedElsewhere)))))"

definition settleDeletes :: "('x, 'n) sync_env \<Rightarrow> string list \<Rightarrow> ('x, 'n, unit) sync_act" where
  "settleDeletes E serverIds =
     bnd (on_device mark_projectIds) (each (\<lambda>pid.
       only_if (pid \<notin> set serverIds) (catch (settle_delete E pid) (\<lambda>e. tell (''settle delete '' @ pid)))))"

definition settleSteppedNames :: "('x, 'n) sync_env \<Rightarrow> server_project list \<Rightarrow> ('x, 'n, unit) sync_act" where
  "settleSteppedNames E server =
     each (\<lambda>project.
       bnd (gets (\<lambda>w. hs_nameOf E (wd_host w) (sp_id project))) (\<lambda>local.
         if local = None \<or> local = Some [] \<or> local = Some (sp_name project) then ret ()
         else catch (seq (settleStandIn E (sp_id project) (sp_name project)) (ret ()))
           (\<lambda>e. tell (''rename '' @ the local @ '' back to '' @ sp_name project)))) server"

definition push_never_synced :: "('x, 'n) sync_env \<Rightarrow> string list \<Rightarrow> string \<Rightarrow> ('x, 'n, unit) sync_act" where
  "push_never_synced E serverIds name =
     bnd (gets (\<lambda>w. hs_idOf E (wd_host w) name)) (\<lambda>i.
       if i = None \<or> i = Some [] \<or> the i \<in> set serverIds then ret ()
       else bnd (on_device (mark_exists (the i))) (\<lambda>marked.
         if marked then ret ()
         else bnd (on_device (belongsToAnotherAccount (the i))) (\<lambda>foreign.
           if foreign then ret ()
           else bnd (asks_host (hs_registered E name (the i))) (\<lambda>there.
             if \<not> there then ret ()
             else catch
               (bnd (on_host (hs_snapshot E name)) (\<lambda>fs.
                 bnd (sync_push E (PLAIN_PUSH\<lparr>po_immediate := True\<rparr>) (the i) \<lparr>snap_files = fs\<rparr> (Some name)) (\<lambda>r.
                   only_if (r = PushOk) (result_do (add_pushed name)))))
               (\<lambda>e. tell (''push new project '' @ the i))))))"

definition pushNeverSynced :: "('x, 'n) sync_env \<Rightarrow> string list \<Rightarrow> ('x, 'n, unit) sync_act" where
  "pushNeverSynced E serverIds =
     bnd (gets (\<lambda>w. hs_names E (wd_host w))) (each (push_never_synced E serverIds))"

section \<open>The pass\<close>

definition newest_first :: "server_project list \<Rightarrow> server_project list" where
  "newest_first ps = rev (sort_key sp_updatedAt (rev ps))"

definition passUnlocked :: "('x, 'n) sync_env \<Rightarrow> ('x, 'n, sync_result) sync_act" where
  "passUnlocked E =
     seq (result_do (\<lambda>r. EMPTY_RESULT))
       (seq (catch (on_host (hs_reload E)) (\<lambda>e. tell ''reload before reconcile''))
         (seq (bnd (ready E) (\<lambda>r.
             if \<not> r then ret ()
             else bnd (sync_list E) (\<lambda>server. case server of
                 None \<Rightarrow> ret ()
               | Some ps \<Rightarrow>
                   (let serverIds = map sp_id ps
                    in seq (modify (\<lambda>w. w\<lparr>wd_listed := list_state (length ps)\<rparr>))
                      (seq (each (reconcile_project E) (newest_first ps))
                        (seq (settleDeletes E serverIds)
                          (seq (settleSteppedNames E ps) (pushNeverSynced E serverIds)))))))) 
           (gets wd_result)))"

section \<open>Sign-out\<close>

definition release_project :: "('x, 'n) sync_env \<Rightarrow> string \<Rightarrow> ('x, 'n, bool) sync_act" where
  "release_project E name =
     catch
       (bnd (gets (\<lambda>w. hs_idOf E (wd_host w) name)) (\<lambda>i.
         if i = None \<or> i = Some [] then ret False
         else bnd (isClean E (the i) name) (\<lambda>clean.
           if \<not> clean then ret False else seq (on_host (hs_delete E name)) (ret True))))
       (\<lambda>e. seq (tell (''release '' @ name)) (ret False))"

definition releaseLocalProjects :: "('x, 'n) sync_env \<Rightarrow> ('x, 'n, string list) sync_act" where
  "releaseLocalProjects E =
     whileSigningOut
       (bnd (gets (\<lambda>w. hs_names E (wd_host w))) (\<lambda>names.
         bnd (map_act (\<lambda>name. bnd (release_project E name) (\<lambda>gone. ret (name, gone))) names) (\<lambda>gone.
           ret (map fst (filter snd gone)))))"

section \<open>One pass at a time\<close>

text \<open>
  The calls of \<^verbatim>\<open>reconcile\<close> as they come: the pass that runs with the callers it answers, the callers that share the
  next one, and who was answered by which pass. Passes are numbered in the order they start.
\<close>

record coalesce =
  co_running :: "(nat \<times> nat list) option"
  co_queued :: "nat list option"
  co_started :: nat
  co_answers :: "(nat \<times> nat) list"

definition co_idle :: coalesce where
  "co_idle = \<lparr>co_running = None, co_queued = None, co_started = 0, co_answers = []\<rparr>"

definition co_start :: "nat list \<Rightarrow> coalesce \<Rightarrow> coalesce" where
  "co_start callers s = s\<lparr>co_running := Some (co_started s, callers), co_started := Suc (co_started s)\<rparr>"

definition co_reconcile :: "nat \<Rightarrow> coalesce \<Rightarrow> coalesce" where
  "co_reconcile caller s =
     (case co_running s of
        None \<Rightarrow> co_start [caller] s
      | Some p \<Rightarrow> s\<lparr>co_queued := Some ((case co_queued s of None \<Rightarrow> [] | Some cs \<Rightarrow> cs) @ [caller])\<rparr>)"

definition co_settle :: "coalesce \<Rightarrow> coalesce" where
  "co_settle s =
     (case co_running s of
        None \<Rightarrow> s
      | Some (n, callers) \<Rightarrow>
          (let s' = s\<lparr>co_running := None, co_answers := co_answers s @ map (\<lambda>c. (c, n)) callers\<rparr>
           in case co_queued s' of
                None \<Rightarrow> s' | Some cs \<Rightarrow> co_start cs (s'\<lparr>co_queued := None\<rparr>)))"

end
