(* ===== verification/Project_Server_Correct.thy ===== *)
theory Project_Server_Correct
  imports Project_Server
begin

text \<open>
  What the endpoint promises a client: a write either changes nothing or replaces exactly the version its sender read,
  a live project never loses its last file to a write, a name is never held by two live projects of an account, and a
  deleted project comes back only as a tutorial started again.
\<close>

section \<open>Rows\<close>

lemma row_of_put_row [simp]:
  "row_of (put_row u i r db) v j = (if v = u \<and> j = i then Some r else row_of db v j)"
  by (auto simp: row_of_def put_row_def update_conv')

lemma row_of_on_files [simp]:
  "row_of (on_files f u i db) v j =
     (if v = u \<and> j = i then map_option (\<lambda>r. r\<lparr>pr_files := f (pr_files r)\<rparr>) (row_of db u i) else row_of db v j)"
  by (auto simp: on_files_def split: option.split)

lemma files_at_row [simp]: "row_of db u i = Some r \<Longrightarrow> files_at u i db = pr_files r"
  by (simp add: files_at_def)

text \<open>The files a write leaves, given those that were there.\<close>

definition apply_write :: "file_write \<Rightarrow> files \<Rightarrow> files" where
  "apply_write fw fs =
     (case fw of
        WholeSet new \<Rightarrow> UPSERT_FILES new (DELETE_OTHERS (obj_keys new) fs)
      | Patch ch rm \<Rightarrow> UPSERT_FILES ch (DELETE_NAMED rm fs))"

lemma DELETE_NAMED_Nil [simp]: "DELETE_NAMED [] fs = fs"
  by (simp add: DELETE_NAMED_def)

lemma UPSERT_FILES_Nil [simp]: "UPSERT_FILES [] fs = fs"
  by (simp add: UPSERT_FILES_def)

lemma DELETE_OTHERS_empty [simp]: "DELETE_OTHERS ps [] = []"
  by (simp add: DELETE_OTHERS_def)

lemma UPSERT_FILES_neq_Nil: "new \<noteq> [] \<or> fs \<noteq> [] \<Longrightarrow> UPSERT_FILES new fs \<noteq> []"
proof (induction new arbitrary: fs)
  case (Cons pc new)
  have "obj_set p c fs \<noteq> []" for p c by (cases fs) (auto simp: obj_set_def)
  then show ?case using Cons.IH [of "obj_set (fst pc) (snd pc) fs"]
    by (simp add: UPSERT_FILES_def case_prod_beta)
qed simp

lemma map_of_UPSERT_FILES: "map_of (UPSERT_FILES new fs) = map_of (rev new @ fs)"
  by (induction new arbitrary: fs) (auto simp: UPSERT_FILES_def fun_eq_iff map_add_def split: option.splits)

lemma map_of_DELETE_NAMED: "map_of (DELETE_NAMED ps fs) p = (if p \<in> set ps then None else map_of fs p)"
  by (induction fs) (auto simp: DELETE_NAMED_def)

lemma map_of_DELETE_OTHERS: "map_of (DELETE_OTHERS ps fs) p = (if p \<in> set ps then map_of fs p else None)"
  by (induction fs) (auto simp: DELETE_OTHERS_def)

lemma write_files_row:
  assumes "write_files creating u i fw db = Inr db'" and "row_of db u i = Some r" and "creating \<Longrightarrow> pr_files r = []"
    and "\<And>fs. fw = WholeSet fs \<Longrightarrow> fs \<noteq> []"
  shows "row_of db' v j = (if v = u \<and> j = i then Some (r\<lparr>pr_files := apply_write fw (pr_files r)\<rparr>) else row_of db v j) \<and>
    apply_write fw (pr_files r) \<noteq> []"
proof (cases fw)
  case (WholeSet fs)
  then have "fs \<noteq> []" using assms(4) by simp
  then show ?thesis using assms(1-3) WholeSet
    by (auto simp: write_files_def apply_write_def UPSERT_FILES_neq_Nil split: if_splits)
next
  case (Patch ch rm)
  show ?thesis
  proof (cases "ch = []")
    case True
    then have "HAS_FILES u i (if rm = [] then db else on_files (DELETE_NAMED rm) u i db)"
      "db' = (if rm = [] then db else on_files (DELETE_NAMED rm) u i db)"
      using assms(1) Patch by (auto simp: write_files_def Let_def split: if_splits)
    then show ?thesis using assms(2) Patch True
      by (auto simp: apply_write_def HAS_FILES_def files_at_def split: if_splits)
  next
    case False
    then have "db' = on_files (UPSERT_FILES ch) u i (if rm = [] then db else on_files (DELETE_NAMED rm) u i db)"
      using assms(1) Patch by (auto simp: write_files_def Let_def)
    then show ?thesis using assms(2) Patch False
      by (auto simp: apply_write_def UPSERT_FILES_neq_Nil)
  qed
qed

section \<open>A write is a swap or a creation\<close>

text \<open>When a write may land: its token is the live row's, or it has none and the row holds no one's work.\<close>

definition may_land :: "write_input \<Rightarrow> project_row option \<Rightarrow> bool" where
  "may_land w r0 \<longleftrightarrow>
     (case (wi_base w, r0) of
        (Some b, Some r) \<Rightarrow> \<not> pr_deleted r \<and> pr_updatedAt r = b
      | (Some b, None) \<Rightarrow> False
      | (None, None) \<Rightarrow> True
      | (None, Some r) \<Rightarrow> pr_files r = [] \<and> (\<not> pr_deleted r \<or> pr_kind r = ''tutorial'' \<and> wi_kind w = ''tutorial''))"

definition old_files :: "project_row option \<Rightarrow> files" where
  "old_files r0 = (case r0 of None \<Rightarrow> [] | Some r \<Rightarrow> pr_files r)"

definition landed :: "nat \<Rightarrow> write_input \<Rightarrow> file_write \<Rightarrow> project_row option \<Rightarrow> project_row" where
  "landed now w fw r0 =
     \<lparr>pr_name = wi_name w, pr_kind = wi_kind w, pr_updatedAt = now, pr_deleted = False,
      pr_files = apply_write fw (old_files r0)\<rparr>"

lemma statement_lands:
  assumes "(case wi_base w of Some b \<Rightarrow> SWAP now u w b db | None \<Rightarrow> CREATE now u w db) = Inr (s, db1)"
    and "settle_row s = SavedAt t" and "\<not> (st_adopted s \<and> HAS_FILES u (wi_id w) db1)"
  shows "t = now \<and> may_land w (row_of db u (wi_id w)) \<and> \<not> name_held db u (wi_id w) (wi_name w) \<and>
    row_of db1 v j = (if v = u \<and> j = wi_id w
      then Some ((landed now w (Patch [] []) (row_of db u (wi_id w)))) else row_of db v j) \<and>
    (wi_base w = None \<longrightarrow> old_files (row_of db u (wi_id w)) = [])"
proof (cases "wi_base w")
  case None
  then show ?thesis using assms
    by (cases "row_of db u (wi_id w)")
      (auto simp: CREATE_def Let_def settle_row_def may_land_def landed_def old_files_def apply_write_def HAS_FILES_def
        files_at_def split: if_splits)
next
  case (Some b)
  then show ?thesis using assms
    by (cases "row_of db u (wi_id w)")
      (auto simp: SWAP_def Let_def settle_row_def may_land_def landed_def old_files_def apply_write_def split: if_splits)
qed

lemma statement_misses:
  assumes "(case wi_base w of Some b \<Rightarrow> SWAP now u w b db | None \<Rightarrow> CREATE now u w db) = Inr (s, db1)"
    and "st_written s = None"
  shows "db1 = db"
  using assms
  by (cases "wi_base w"; cases "row_of db u (wi_id w)")
    (auto simp: SWAP_def CREATE_def Let_def settle_row_def split: if_splits option.splits)

lemma save_unless_saved:
  assumes "saveProject now u w fw db = (o1, db')" and "\<And>t. o1 \<noteq> Some (SavedAt t)"
  shows "db' = db"
proof -
  obtain r where r: "(case wi_base w of Some b \<Rightarrow> SWAP now u w b db | None \<Rightarrow> CREATE now u w db) = r" by blast
  show ?thesis
  proof (cases r)
    case (Inl e)
    then show ?thesis using assms r by (cases e) (auto simp: saveProject_def writeProject_def)
  next
    case (Inr sd)
    obtain s db1 where sd: "sd = (s, db1)" by fastforce
    show ?thesis
    proof (cases "settle_row s")
      case (SavedAt t)
      then show ?thesis using assms r Inr sd
        by (auto simp: saveProject_def writeProject_def split: sum.splits write_error.splits if_splits)
    next
      case (SaveConflict c del)
      then have "st_written s = None" by (auto simp: settle_row_def split: option.splits)
      then have "db1 = db" using statement_misses [OF r [unfolded Inr sd]] by simp
      then show ?thesis using assms(1) r Inr sd SaveConflict by (simp add: saveProject_def writeProject_def)
    next
      case (SaveRefused why)
      then show ?thesis by (auto simp: settle_row_def split: option.splits)
    qed
  qed
qed

lemma save_saved:
  assumes "saveProject now u w fw db = (Some (SavedAt t), db')" and "\<And>fs. fw = WholeSet fs \<Longrightarrow> fs \<noteq> []"
  shows "t = now \<and> may_land w (row_of db u (wi_id w)) \<and> \<not> name_held db u (wi_id w) (wi_name w) \<and>
    row_of db' v j = (if v = u \<and> j = wi_id w then Some (landed now w fw (row_of db u (wi_id w))) else row_of db v j) \<and>
    apply_write fw (old_files (row_of db u (wi_id w))) \<noteq> []"
proof -
  let ?r0 = "row_of db u (wi_id w)"
  have "writeProject now u w fw db = Inr (SavedAt t, db') \<or>
      writeProject now u w fw db = Inl (WriteRefused (SavedAt t))"
    using assms(1) by (auto simp: saveProject_def split: sum.splits write_error.splits prod.splits)
  moreover have "writeProject now u w fw db \<noteq> Inl (WriteRefused (SavedAt t))"
    by (auto simp: writeProject_def SWAP_def CREATE_def write_files_def Let_def
        split: sum.splits saved.splits if_splits option.splits file_write.splits)
  ultimately have "writeProject now u w fw db = Inr (SavedAt t, db')" by blast
  then obtain s db1 where s: "(case wi_base w of Some b \<Rightarrow> SWAP now u w b db | None \<Rightarrow> CREATE now u w db) = Inr (s, db1)"
      "settle_row s = SavedAt t" "\<not> (st_adopted s \<and> HAS_FILES u (wi_id w) db1)"
      "write_files (wi_base w = None) u (wi_id w) fw db1 = Inr db'"
    by (auto simp: writeProject_def split: sum.splits saved.splits if_splits)
  note l = statement_lands [OF s(1-3)]
  let ?r1 = "landed now w (Patch [] []) ?r0"
  have r1: "row_of db1 u (wi_id w) = Some ?r1" "pr_files ?r1 = old_files ?r0"
    using l [of u "wi_id w"] by (simp_all add: landed_def apply_write_def)
  have "wi_base w = None \<Longrightarrow> pr_files ?r1 = []" using l r1(2) by simp
  note f = write_files_row [OF s(4) r1(1) this assms(2)]
  have "?r1\<lparr>pr_files := apply_write fw (pr_files ?r1)\<rparr> = landed now w fw ?r0"
    by (simp add: landed_def apply_write_def)
  then show ?thesis using l f r1(2) by (auto simp: landed_def apply_write_def)
qed

lemma save_outcomes: "saveProject now u w fw db = (Some (SaveRefused why), db') \<Longrightarrow> why = NO_FILES_REASON"
  by (auto simp: saveProject_def writeProject_def SWAP_def CREATE_def write_files_def settle_row_def Let_def
      split: sum.splits saved.splits if_splits option.splits file_write.splits write_error.splits)

section \<open>The endpoint\<close>

lemma describeWrite_whole: "describeWrite body = Inr (WholeSet fs) \<Longrightarrow> fs \<noteq> []"
  by (auto simp: describeWrite_def describe_patch_def Let_def split: if_splits sum.splits option.splits)

lemma handle_write_cases:
  assumes "handle_write V now user body db = (rs, db')"
  shows "rs_status rs \<noteq> 200 \<and> db' = db \<or>
    (\<exists>i name kind fw base w. describeProject body = Inr (i, name, kind) \<and> describeWrite body = Inr fw \<and>
       read_base V body = Some base \<and> w = \<lparr>wi_id = i, wi_name = name, wi_kind = kind, wi_base = base\<rparr> \<and>
       may_land w (row_of db user i) \<and> \<not> name_held db user i name \<and>
       rs = reply 200 [(''updatedAt'', JStr (sv_iso V now))] \<and>
       (\<forall>v j. row_of db' v j = (if v = user \<and> j = i then Some (landed now w fw (row_of db user i)) else row_of db v j)) \<and>
       apply_write fw (old_files (row_of db user i)) \<noteq> [])"
proof (cases "describeProject body")
  case (Inl e)
  then show ?thesis using assms by (auto simp: handle_write_def error_reply_def reply_def)
next
  case (Inr d)
  obtain i name kind where d: "d = (i, name, kind)" by (cases d)
  show ?thesis
  proof (cases "describeWrite body")
    case (Inl e)
    moreover have "fst e \<noteq> 200"
      using Inl by (auto simp: describeWrite_def Let_def split: if_splits sum.splits)
    ultimately show ?thesis using assms Inr d
      by (auto simp: handle_write_def error_reply_def reply_def split: prod.splits)
  next
    case (Inr fw)
    note fw = this
    show ?thesis
    proof (cases "read_base V body")
      case None
      then show ?thesis using assms \<open>describeProject body = Inr d\<close> d fw
        by (auto simp: handle_write_def error_reply_def reply_def)
    next
      case (Some base)
      let ?w = "\<lparr>wi_id = i, wi_name = name, wi_kind = kind, wi_base = base\<rparr>"
      obtain o1 db1 where sv: "saveProject now user ?w fw db = (o1, db1)" by fastforce
      have run: "(rs, db') = (case o1 of None \<Rightarrow> name_taken_reply | Some oc \<Rightarrow> describeSaved (sv_iso V) oc, db1)"
        using assms \<open>describeProject body = Inr d\<close> d fw Some sv by (auto simp: handle_write_def split: option.splits)
      show ?thesis
      proof (cases "\<exists>t. o1 = Some (SavedAt t)")
        case True
        then obtain t where t: "o1 = Some (SavedAt t)" by blast
        have "fs \<noteq> []" if "fw = WholeSet fs" for fs using describeWrite_whole fw that by blast
        note s = save_saved [OF sv [unfolded t] this]
        have "rs = reply 200 [(''updatedAt'', JStr (sv_iso V now))]" "db' = db1"
          using run t s by (simp_all add: describeSaved_def)
        then show ?thesis using s \<open>describeProject body = Inr d\<close> d fw Some
          by (intro disjI2 exI [of _ i] exI [of _ name] exI [of _ kind] exI [of _ fw] exI [of _ base] exI [of _ ?w]) simp
      next
        case False
        then have "db1 = db" using save_unless_saved [OF sv] by blast
        moreover have "rs_status rs \<noteq> 200"
          using run False sv save_outcomes [of now user ?w fw db _ db1]
          by (auto simp: name_taken_reply_def describeSaved_def reply_def split: option.splits saved.splits)
        ultimately show ?thesis using run by auto
      qed
    qed
  qed
qed

lemma name_held_iff:
  "name_held db u i name \<longleftrightarrow>
     (\<exists>j r. j \<noteq> i \<and> row_of db u j = Some r \<and> \<not> pr_deleted r \<and> pr_name r = name)"
  unfolding name_held_def list_ex_iff row_of_def
  by (auto dest: map_of_SomeD intro!: bexI)

text \<open>A step of the account: one request, whoever sent it.\<close>

definition account_step :: "server_env \<Rightarrow> tables \<Rightarrow> request \<Rightarrow> tables" where
  "account_step V db rq = snd (handler V rq db)"

text \<open>A live name is held once, and what is deleted holds no files.\<close>

definition account_ok :: "tables \<Rightarrow> bool" where
  "account_ok db \<longleftrightarrow>
     (\<forall>u i j r s. row_of db u i = Some r \<and> row_of db u j = Some s \<and> \<not> pr_deleted r \<and> \<not> pr_deleted s \<and>
        pr_name r = pr_name s \<longrightarrow> i = j) \<and>
     (\<forall>u i r. row_of db u i = Some r \<and> pr_deleted r \<longrightarrow> pr_files r = [])"

text \<open>What a request can do to the tables.\<close>

lemma handler_effect:
  "account_step V db rq = db \<or>
   (\<exists>u i w fw. rq_method rq = PUT \<and> rq_user rq = Some u \<and> wi_id w = i \<and> may_land w (row_of db u i) \<and>
      \<not> name_held db u i (wi_name w) \<and> apply_write fw (old_files (row_of db u i)) \<noteq> [] \<and>
      (\<forall>v j. row_of (account_step V db rq) v j =
         (if v = u \<and> j = i then Some (landed (rq_now rq) w fw (row_of db u i)) else row_of db v j))) \<or>
   (\<exists>u i. rq_method rq = DELETE \<and> rq_user rq = Some u \<and> rq_id rq = Some i \<and>
      account_step V db rq = deleteProject u i db)"
proof (cases "rq_method rq = PUT \<and> sv_enabled V \<and> rq_origin rq \<and> rq_user rq \<noteq> None")
  case True
  then obtain u where u: "rq_user rq = Some u" by blast
  then have step: "account_step V db rq = snd (handle_put V (rq_now rq) u (rq_body rq) db)"
    using True by (simp add: account_step_def handler_def Let_def)
  have wr: "snd (handle_write V (rq_now rq) u body db) = db \<or>
      (\<exists>i w fw. wi_id w = i \<and> may_land w (row_of db u i) \<and> \<not> name_held db u i (wi_name w) \<and>
        apply_write fw (old_files (row_of db u i)) \<noteq> [] \<and>
        (\<forall>v j. row_of (snd (handle_write V (rq_now rq) u body db)) v j =
         (if v = u \<and> j = i then Some (landed (rq_now rq) w fw (row_of db u i)) else row_of db v j)))" for body
    using handle_write_cases [of V "rq_now rq" u body db, OF prod.collapse [symmetric]]
  proof (elim disjE exE conjE)
    fix i name kind fw base w
    assume "w = \<lparr>wi_id = i, wi_name = name, wi_kind = kind, wi_base = base\<rparr>" "may_land w (row_of db u i)"
      "\<not> name_held db u i name" "apply_write fw (old_files (row_of db u i)) \<noteq> []"
      "\<forall>v j. row_of (snd (handle_write V (rq_now rq) u body db)) v j =
        (if v = u \<and> j = i then Some (landed (rq_now rq) w fw (row_of db u i)) else row_of db v j)"
    then show ?thesis by (intro disjI2 exI [of _ i] exI [of _ w] exI [of _ fw]) simp
  qed simp
  have "account_step V db rq = db \<or> (\<exists>body. account_step V db rq = snd (handle_write V (rq_now rq) u body db))"
    unfolding step by (auto simp: handle_put_def split: option.splits json.splits)
  then show ?thesis using wr True u by metis
next
  case False
  then show ?thesis
    by (cases "rq_method rq") (auto simp: account_step_def handler_def Let_def split: option.splits)
qed

lemma row_of_deleteProject:
  "row_of (deleteProject u i db) v j =
     (if v = u \<and> j = i then map_option (\<lambda>r. r\<lparr>pr_deleted := True, pr_files := []\<rparr>) (row_of db u i) else row_of db v j)"
  by (auto simp: deleteProject_def split: option.split)

lemma account_ok_landed:
  assumes "account_ok db" and "\<not> name_held db u i (wi_name w)"
    and "\<And>v j. row_of db' v j = (if v = u \<and> j = i then Some (landed now w fw (row_of db u i)) else row_of db v j)"
  shows "account_ok db'"
  using assms(1,2) unfolding account_ok_def assms(3) name_held_iff
  by (auto simp: landed_def split: if_splits)

interpretation account: machine "[]" "account_step V" account_ok for V
proof unfold_locales
  show "account_ok []" by (simp add: account_ok_def row_of_def)
next
  fix db rq assume ok: "account_ok db"
  consider "account_step V db rq = db"
    | u w fw where "\<not> name_held db u (wi_id w) (wi_name w)"
        "\<And>v j. row_of (account_step V db rq) v j =
          (if v = u \<and> j = wi_id w then Some (landed (rq_now rq) w fw (row_of db u (wi_id w))) else row_of db v j)"
    | u i where "account_step V db rq = deleteProject u i db"
    using handler_effect [of V db rq] by blast
  then show "account_ok (account_step V db rq)"
  proof cases
    case 2
    then show ?thesis using account_ok_landed [OF ok] by blast
  next
    case 3
    then show ?thesis using ok unfolding account_ok_def 3 row_of_deleteProject by (auto split: if_splits)
  qed (use ok in simp)
qed

text \<open>
  A write is a compare-and-swap. The endpoint answers 200 exactly when it changes the tables, and then the row is the
  write applied to the version the sender had read: its token is the live row's, or it has none and the row is new, empty or
  a deleted tutorial. The new version has the time of the write and at least one file; no other project changes.
\<close>

lemma handle_put_cases:
  assumes "handle_put V now user text db = (rs, db')"
  shows "rs_status rs \<noteq> 200 \<and> db' = db \<or>
    (\<exists>body i name kind fw base w.
       sv_parse V (if text = [] then ''{}'' else text) = Some (JObj body) \<and> describeProject body = Inr (i, name, kind) \<and>
       describeWrite body = Inr fw \<and> read_base V body = Some base \<and>
       w = \<lparr>wi_id = i, wi_name = name, wi_kind = kind, wi_base = base\<rparr> \<and> may_land w (row_of db user i) \<and>
       rs = reply 200 [(''updatedAt'', JStr (sv_iso V now))] \<and> apply_write fw (old_files (row_of db user i)) \<noteq> [] \<and>
       (\<forall>v j. row_of db' v j = (if v = user \<and> j = i then Some (landed now w fw (row_of db user i)) else row_of db v j)))"
proof -
  have none: "handle_write V now user [] db = (error_reply 400 ''id and name required'', db)"
    by (simp add: handle_write_def describeProject_def as_str_def)
  show ?thesis
  proof (cases "\<exists>body. sv_parse V (if text = [] then ''{}'' else text) = Some (JObj body) \<and>
      handle_write V now user body db = (rs, db')")
    case True
    then obtain body where b: "sv_parse V (if text = [] then ''{}'' else text) = Some (JObj body)"
        "handle_write V now user body db = (rs, db')" by blast
    from handle_write_cases [OF b(2)] show ?thesis using b(1) by blast
  next
    case False
    then show ?thesis using assms none
      by (auto simp: handle_put_def too_large_reply_def error_reply_def reply_def
          split: if_splits option.splits json.splits)
  qed
qed

section \<open>Properties\<close>

text \<open>
  C8: work in the account stays until it is deleted. Whatever requests come, from any device and in any order, a live project
  that holds files stays live and keeps at least one file, unless one of them deletes it.
\<close>

theorem project_kept_until_deleted:
  assumes "row_of db u i = Some r" and "\<not> pr_deleted r" and "pr_files r \<noteq> []"
    and "list_all (\<lambda>rq. \<not> (rq_method rq = DELETE \<and> rq_user rq = Some u \<and> rq_id rq = Some i)) rqs"
  shows "\<exists>r'. row_of (foldl (account_step V) db rqs) u i = Some r' \<and> \<not> pr_deleted r' \<and> pr_files r' \<noteq> []"
  using assms
proof (induction rqs arbitrary: db r)
  case (Cons rq rqs)
  have "\<exists>r1. row_of (account_step V db rq) u i = Some r1 \<and> \<not> pr_deleted r1 \<and> pr_files r1 \<noteq> []"
    using handler_effect [of V db rq] Cons.prems by (auto simp: row_of_deleteProject landed_def)
  then show ?case using Cons.IH Cons.prems(4) by auto
qed simp

theorem project_kept_until_deleted_witness:
  "\<exists>r'. row_of (foldl (account_step \<lparr>sv_enabled = True, sv_parse = (\<lambda>s. None), sv_iso = js_nat, sv_ms = (\<lambda>s. None)\<rparr>)
        [((''u'', ''p''), \<lparr>pr_name = ''n'', pr_kind = ''project'', pr_updatedAt = 1, pr_deleted = False, pr_files = [(''a'', ''x'')]\<rparr>)]
        [\<lparr>rq_method = DELETE, rq_origin = True, rq_user = Some ''v'', rq_id = Some ''p'', rq_body = [], rq_now = 2\<rparr>]) ''u'' ''p'' = Some r' \<and>
     \<not> pr_deleted r' \<and> pr_files r' \<noteq> []"
  by (rule project_kept_until_deleted [where r = "\<lparr>pr_name = ''n'', pr_kind = ''project'', pr_updatedAt = 1, pr_deleted = False, pr_files = [(''a'', ''x'')]\<rparr>"])
    (simp_all add: row_of_def)

end
