(* ===== verification/Two_Devices.thy ===== *)
theory Two_Devices
  imports Project_Restore Project_Server_Correct
begin

text \<open>
  Any number of devices and one account, for one project: the driver's uploads (\<open>Project_Driver\<close>) against the endpoint
  (\<open>Project_Server\<close>). A device knows of the account only by its mark. A step is an upload as the driver builds it from
  the mark and a copy of the files, the mark written for a version read earlier, or a delete. Times of writes grow.
\<close>

section \<open>Runs\<close>

record 'k fleet =
  fl_db :: tables
  fl_marks :: "'k \<Rightarrow> sync_mark option"
  fl_clock :: nat
  fl_versions :: "(nat \<times> files) list"

text \<open>The marks the driver writes for a version of the project it has read.\<close>

definition mark_of_version :: "(nat \<Rightarrow> string) \<Rightarrow> (string \<Rightarrow> string) \<Rightarrow> nat \<times> files \<Rightarrow> sync_mark \<Rightarrow> bool" where
  "mark_of_version toIso sha256 ver m \<longleftrightarrow>
     sm_updatedAt m = toIso (fst ver) \<and> map_of (sm_files m) = map_option sha256 \<circ> map_of (snd ver)"

text \<open>The version the project's row holds.\<close>

definition live_version :: "tables \<Rightarrow> string \<Rightarrow> string \<Rightarrow> (nat \<times> files) option" where
  "live_version db user pid =
     (case getProject db user pid of Some (r, Some fs) \<Rightarrow> Some (pr_updatedAt r, fs) | _ \<Rightarrow> None)"

definition upload_view ::
  "(string \<Rightarrow> string) \<Rightarrow> string \<Rightarrow> bool \<Rightarrow> snapshot \<Rightarrow> string \<Rightarrow> sync_mark option \<Rightarrow> push_view" where
  "upload_view sha256 pid whole snap name mark = view_push sha256 whole pid snap (Some name) [] mark"

inductive fleet_run :: "server_env \<Rightarrow> (string \<Rightarrow> string) \<Rightarrow> string \<Rightarrow> string \<Rightarrow> 'k fleet \<Rightarrow> bool"
  for V sha256 user pid where
  fleet_start: "fleet_run V sha256 user pid \<lparr>fl_db = [], fl_marks = (\<lambda>k. None), fl_clock = 0, fl_versions = []\<rparr>"
| fleet_push: "fleet_run V sha256 user pid s \<Longrightarrow> obj_ok (snap_files snap) \<Longrightarrow> fl_clock s < now \<Longrightarrow>
    v = upload_view sha256 pid whole snap name (fl_marks s k) \<Longrightarrow>
    sv_parse V req = Some (push_json pid snap v) \<Longrightarrow> req \<noteq> [] \<Longrightarrow>
    handle_put V now user req (fl_db s) = (rs, db') \<Longrightarrow>
    fleet_run V sha256 user pid
      \<lparr>fl_db = db',
       fl_marks = (if rs_status rs = 200 then (fl_marks s)(k := Some (accepted_mark v (sv_iso V now))) else fl_marks s),
       fl_clock = now,
       fl_versions = fl_versions s @ (case live_version db' user pid of
           Some ver \<Rightarrow> if rs_status rs = 200 then [ver] else [] | None \<Rightarrow> [])\<rparr>"
| fleet_read: "fleet_run V sha256 user pid s \<Longrightarrow> ver \<in> set (fl_versions s) \<Longrightarrow> mark_of_version (sv_iso V) sha256 ver m \<Longrightarrow>
    fleet_run V sha256 user pid (s\<lparr>fl_marks := (fl_marks s)(k := Some m)\<rparr>)"
| fleet_delete: "fleet_run V sha256 user pid s \<Longrightarrow>
    fleet_run V sha256 user pid (s\<lparr>fl_db := deleteProject user pid (fl_db s)\<rparr>)"

lemma driver_marks_are_of_version:
  assumes "p = trimmedName (project_json toIso pid (r, Some fs))" and "fs \<noteq> []"
  shows "mark_of_version toIso sha256 (pr_updatedAt r, fs) (adopted_mark sha256 p (snapshot_files (sp_snapshot p)) local)"
    and "mark_of_version toIso sha256 (pr_updatedAt r, fs)
      (merged_mark p (hashFiles sha256 \<lparr>snap_files = snapshot_files (sp_snapshot p)\<rparr>) merged server name standIn)"
proof -
  have "snapshot_files (sp_snapshot p) = fs" "sp_updatedAt p = toIso (pr_updatedAt r)"
    by (auto simp: assms(1) trimmedName_def project_json_def json_field_def text_field_def snapshot_files_def files_json_def
        file_map_def as_obj_def as_str_def comp_def case_prod_unfold)
  then show "mark_of_version toIso sha256 (pr_updatedAt r, fs) (adopted_mark sha256 p (snapshot_files (sp_snapshot p)) local)"
    "mark_of_version toIso sha256 (pr_updatedAt r, fs)
      (merged_mark p (hashFiles sha256 \<lparr>snap_files = snapshot_files (sp_snapshot p)\<rparr>) merged server name standIn)"
    by (auto simp: mark_of_version_def adopted_mark_def merged_mark_def map_of_hashFiles fun_eq_iff)
qed

section \<open>What the endpoint makes of an upload\<close>

lemma file_map_strings: "file_map (Some (JObj (map (\<lambda>p. (p, JStr (f p))) ps))) = map (\<lambda>p. (p, f p)) ps"
  by (simp add: file_map_def as_obj_def as_str_def comp_def)

lemma path_strings_strings: "path_strings (map JStr ps) = Some qs \<Longrightarrow> qs = ps"
  by (induction ps arbitrary: qs) (auto simp: path_strings_def as_str_def split: if_splits)

lemma file_map_files: "file_map (Some (files_json fs)) = fs"
  by (simp add: file_map_def files_json_def as_obj_def as_str_def comp_def case_prod_unfold)

text \<open>The write an upload is read as: the patch, or the whole set.\<close>

definition upload_write :: "snapshot \<Rightarrow> push_view \<Rightarrow> file_write" where
  "upload_write snap v =
     (case pv_patch v of
        Some p \<Rightarrow> Patch (map (\<lambda>path. (path, the (map_of (snap_files snap) path))) (fd_changed p)) (fd_removed p)
      | None \<Rightarrow> WholeSet (snap_files snap))"

lemma push_json_fields:
  assumes "push_json pid snap v = JObj body"
  shows "map_of body ''id'' = Some (JStr pid)" "map_of body ''name'' = Some (JStr (pv_storedName v))"
    "map_of body ''baseUpdatedAt'' = map_option (\<lambda>m. JStr (sm_updatedAt m)) (pv_mark v)"
    "map_of body ''force'' = None" "map_of body ''snapshot'' = None"
    "map_of body ''files'' = (if pv_patch v = None then Some (files_json (snap_files snap)) else None)"
    "map_of body ''changed'' = map_option (\<lambda>p. JObj (map (\<lambda>path. (path, JStr (the (map_of (snap_files snap) path)))) (fd_changed p))) (pv_patch v)"
    "map_of body ''removed'' = map_option (\<lambda>p. JArr (map JStr (fd_removed p))) (pv_patch v)"
  using assms by (auto simp: push_json_def split: option.splits)

lemma describeWrite_push:
  assumes "push_json pid snap v = JObj body" and "describeWrite body = Inr fw"
  shows "fw = upload_write snap v"
proof (cases "pv_patch v")
  case None
  then show ?thesis using assms(2)
    by (auto simp: describeWrite_def Let_def push_json_fields [OF assms(1)] upload_write_def file_map_files split: if_splits)
next
  case (Some p)
  then show ?thesis using assms(2)
    by (auto simp: describeWrite_def describe_patch_def Let_def push_json_fields [OF assms(1)] upload_write_def nullish_def
        file_map_strings dest: path_strings_strings split: if_splits option.splits)
qed

lemma read_base_push:
  assumes "push_json pid snap v = JObj body" and "read_base V body = Some base" and "\<And>t. sv_ms V (sv_iso V t) = Some t"
    and "case pv_mark v of None \<Rightarrow> True | Some m \<Rightarrow> sm_updatedAt m = sv_iso V b"
  shows "base = (if pv_mark v = None then None else Some b)"
  using assms(2-4) by (auto simp: read_base_def push_json_fields(3) [OF assms(1)] split: option.splits)

lemma describeProject_push:
  assumes "push_json pid snap v = JObj body" and "describeProject body = Inr (i, name, kind)"
  shows "i = pid \<and> name = pv_storedName v"
  using assms(2) by (auto simp: describeProject_def push_json_fields [OF assms(1)] as_str_def split: if_splits option.splits)

lemma map_of_rev_ok:
  assumes "distinct (map fst xs)"
  shows "map_of (rev xs) = map_of xs"
proof
  fix k
  have "distinct (map fst (rev xs))" using assms by (simp add: rev_map [symmetric])
  then show "map_of (rev xs) k = map_of xs k"
    using assms map_of_eq_None_iff [of xs k] map_of_eq_None_iff [of "rev xs" k]
    by (cases "map_of xs k") (auto simp: map_of_eq_Some_iff)
qed

lemma map_of_keyed: "distinct ks \<Longrightarrow> map_of (rev (map (\<lambda>k. (k, f k)) ks)) p = (if p \<in> set ks then Some (f p) else None)"
  using map_of_rev_ok [of "map (\<lambda>k. (k, f k)) ks"] by (simp add: comp_def map_of_map_key)

text \<open>
  The patch of a device whose mark is of the version it is applied to gives the device's copy: a path the patch leaves
  out has the same hash on both sides.
\<close>

lemma upload_gives_snapshot:
  assumes "obj_ok (snap_files snap)" and "inj sha256" and view: "v = upload_view sha256 pid whole snap name mark"
    and agreed: "case mark of None \<Rightarrow> fs = [] | Some m \<Rightarrow> map_of (sm_files m) = map_option sha256 \<circ> map_of fs"
  shows "map_of (apply_write (upload_write snap v) fs) = map_of (snap_files snap)"
proof (cases "pv_patch v")
  case None
  then show ?thesis
    by (auto simp: upload_write_def apply_write_def map_of_UPSERT_FILES map_of_rev_ok [OF assms(1)] fun_eq_iff map_add_def
        map_of_DELETE_OTHERS set_obj_keys split: option.splits)
next
  case (Some d)
  then obtain m where m: "mark = Some m" "d = diffFiles (sm_files m) (hashFiles sha256 snap)"
    unfolding view upload_view_def view_push_def Let_def by (auto split: option.splits if_splits)
  let ?h = "map_of (hashFiles sha256 snap)"
  have dist: "distinct (fd_changed d)"
    using assms(1) unfolding m diffFiles_def by (simp add: distinct_filter) (simp add: obj_keys_def)
  have "map_of (apply_write (upload_write snap v) fs) p = map_of (snap_files snap) p" for p
  proof -
    have ch: "p \<in> set (fd_changed d) \<longleftrightarrow> ?h p \<noteq> None \<and> ?h p \<noteq> map_of (sm_files m) p"
      unfolding m by (auto simp: diffFiles_def set_obj_keys map_of_hashFiles)
    have rm: "p \<in> set (fd_removed d) \<longleftrightarrow> ?h p = None \<and> map_of (sm_files m) p \<noteq> None"
      unfolding m by (auto simp: diffFiles_def set_obj_keys obj_has_def)
    have eq: "map_of (sm_files m) p = map_option sha256 (map_of fs p)" using agreed m(1) by simp
    have hp: "?h p = map_option sha256 (map_of (snap_files snap) p)" by (rule map_of_hashFiles)
    have same: "map_of fs p = map_of (snap_files snap) p" if "?h p = map_of (sm_files m) p"
      using that assms(2) unfolding hp eq
      by (cases "map_of fs p"; cases "map_of (snap_files snap) p") (auto dest: injD)
    show ?thesis
      using Some ch rm same hp
      by (auto simp: upload_write_def apply_write_def map_of_UPSERT_FILES map_add_def map_of_keyed [OF dist] map_of_DELETE_NAMED
          split: option.splits)
  qed
  then show ?thesis by blast
qed

section \<open>Every mark is of a version\<close>

definition fleet_ok :: "server_env \<Rightarrow> (string \<Rightarrow> string) \<Rightarrow> string \<Rightarrow> string \<Rightarrow> 'k fleet \<Rightarrow> bool" where
  "fleet_ok V sha256 user pid s \<longleftrightarrow>
     distinct (map fst (fl_versions s)) \<and> (\<forall>ver\<in>set (fl_versions s). fst ver \<le> fl_clock s) \<and>
     (\<forall>r. row_of (fl_db s) user pid = Some r \<longrightarrow>
        (if pr_deleted r then pr_files r = [] else (pr_updatedAt r, pr_files r) \<in> set (fl_versions s) \<and> pr_files r \<noteq> [])) \<and>
     (\<forall>k m. fl_marks s k = Some m \<longrightarrow> (\<exists>ver\<in>set (fl_versions s). mark_of_version (sv_iso V) sha256 ver m))"

lemma same_version: "distinct (map fst vs) \<Longrightarrow> (t, a) \<in> set vs \<Longrightarrow> (t, b) \<in> set vs \<Longrightarrow> a = b"
  by (metis map_of_is_SomeI option.inject)

text \<open>What an accepted upload replaces and what it leaves.\<close>

lemma upload_accepted:
  assumes ok: "fleet_ok V sha256 user pid s" and iso: "\<And>t. sv_ms V (sv_iso V t) = Some t" and inj: "inj sha256"
    and snap: "obj_ok (snap_files snap)" and view: "v = upload_view sha256 pid whole snap name (fl_marks s k)"
    and sent: "sv_parse V req = Some (push_json pid snap v)" "req \<noteq> []"
    and put: "handle_put V now user req (fl_db s) = (rs, db')" and acc: "rs_status rs = 200"
  shows "(\<exists>r. row_of db' user pid = Some r \<and> \<not> pr_deleted r \<and> pr_updatedAt r = now \<and> pr_name r = pv_storedName v \<and>
      pr_files r \<noteq> [] \<and> map_of (pr_files r) = map_of (snap_files snap)) \<and>
    (case fl_marks s k of
       None \<Rightarrow> old_files (row_of (fl_db s) user pid) = []
     | Some m \<Rightarrow> \<exists>r. row_of (fl_db s) user pid = Some r \<and> \<not> pr_deleted r \<and>
         mark_of_version (sv_iso V) sha256 (pr_updatedAt r, pr_files r) m)"
proof -
  obtain body i nm kind fw base w where b: "push_json pid snap v = JObj body" "describeProject body = Inr (i, nm, kind)"
      "describeWrite body = Inr fw" "read_base V body = Some base" "w = \<lparr>wi_id = i, wi_name = nm, wi_kind = kind, wi_base = base\<rparr>"
      "may_land w (row_of (fl_db s) user i)" "apply_write fw (old_files (row_of (fl_db s) user i)) \<noteq> []"
      "row_of db' user i = Some (landed now w fw (row_of (fl_db s) user i))"
    using handle_put_cases [OF put] acc sent by (auto simp: reply_def)
  have i: "i = pid" "nm = pv_storedName v" using describeProject_push [OF b(1,2)] by simp_all
  have fw: "fw = upload_write snap v" by (rule describeWrite_push [OF b(1,3)])
  let ?old = "row_of (fl_db s) user pid"
  have mk: "pv_mark v = fl_marks s k" unfolding view upload_view_def view_push_def Let_def by simp
  have agreed: "case fl_marks s k of
       None \<Rightarrow> old_files ?old = []
     | Some m \<Rightarrow> \<exists>r. ?old = Some r \<and> \<not> pr_deleted r \<and> mark_of_version (sv_iso V) sha256 (pr_updatedAt r, pr_files r) m"
  proof (cases "fl_marks s k")
    case None
    then have "base = None" using read_base_push [OF b(1,4) iso] mk by simp
    then show ?thesis using None b(5,6) i by (auto simp: may_land_def old_files_def split: option.splits)
  next
    case (Some m)
    then obtain ver where ver: "ver \<in> set (fl_versions s)" "mark_of_version (sv_iso V) sha256 ver m"
      using ok unfolding fleet_ok_def by blast
    then have "base = Some (fst ver)"
      using read_base_push [OF b(1,4) iso, of "fst ver"] mk Some by (simp add: mark_of_version_def)
    then obtain r where r: "?old = Some r" "\<not> pr_deleted r" "pr_updatedAt r = fst ver"
      using b(5,6) i by (auto simp: may_land_def split: option.splits)
    then have "(fst ver, pr_files r) \<in> set (fl_versions s)" using ok unfolding fleet_ok_def by force
    then have "pr_files r = snd ver" using same_version ok ver(1) unfolding fleet_ok_def by (metis prod.collapse)
    then show ?thesis using Some r ver(2) by simp
  qed
  have "map_of (apply_write fw (old_files ?old)) = map_of (snap_files snap)"
    unfolding fw by (rule upload_gives_snapshot [OF snap inj view])
      (use agreed in \<open>auto simp: mark_of_version_def old_files_def split: option.splits\<close>)
  then show ?thesis using agreed b(5,7,8) i by (auto simp: landed_def)
qed

lemma live_version_row: "row_of db user pid = Some r \<Longrightarrow> \<not> pr_deleted r \<Longrightarrow> pr_files r \<noteq> [] \<Longrightarrow>
    live_version db user pid = Some (pr_updatedAt r, pr_files r)"
  by (simp add: live_version_def getProject_def)

lemma fleet_ok_accepted:
  assumes ok: "fleet_ok V sha256 user pid s" and clk: "fl_clock s < now" and "rs_status rs = 200"
    and r: "row_of db' user pid = Some r" "\<not> pr_deleted r" "pr_updatedAt r = now" "pr_files r \<noteq> []"
      "map_of (pr_files r) = map_of (snap_files snap)"
    and m: "sm_updatedAt m = sv_iso V now" "sm_files m = hashFiles sha256 snap"
  shows "fleet_ok V sha256 user pid
    \<lparr>fl_db = db', fl_marks = (fl_marks s)(k := Some m), fl_clock = now, fl_versions = fl_versions s @ [(now, pr_files r)]\<rparr>"
proof -
  have "mark_of_version (sv_iso V) sha256 (now, pr_files r) m"
    using m r(5) by (simp add: mark_of_version_def fun_eq_iff map_of_hashFiles)
  moreover have "now \<notin> fst ` set (fl_versions s)" using ok clk unfolding fleet_ok_def by fastforce
  moreover have "\<forall>ver\<in>set (fl_versions s). fst ver \<le> now" using ok clk unfolding fleet_ok_def by fastforce
  ultimately show ?thesis using ok r unfolding fleet_ok_def by auto
qed

lemma fleet_ok_run:
  assumes "fleet_run V sha256 user pid s" and iso: "\<And>t. sv_ms V (sv_iso V t) = Some t" and inj: "inj sha256"
  shows "fleet_ok V sha256 user pid s"
  using assms(1)
proof induction
  case fleet_start
  show ?case by (simp add: fleet_ok_def row_of_def)
next
  case (fleet_push s snap now v whole name k req rs db')
  show ?case
  proof (cases "rs_status rs = 200")
    case True
    then obtain r where r: "row_of db' user pid = Some r" "\<not> pr_deleted r" "pr_updatedAt r = now" "pr_files r \<noteq> []"
        "map_of (pr_files r) = map_of (snap_files snap)"
      using upload_accepted [OF fleet_push.IH iso inj fleet_push(2,4,5,6,7) True] by blast
    have "sm_updatedAt (accepted_mark v (sv_iso V now)) = sv_iso V now"
      "sm_files (accepted_mark v (sv_iso V now)) = hashFiles sha256 snap"
      unfolding fleet_push(4) by (simp_all add: accepted_mark_def upload_view_def view_push_def Let_def)
    from fleet_ok_accepted [OF fleet_push.IH fleet_push(3) True r this] show ?thesis
      using True live_version_row [OF r(1,2,4)] r(3) by simp
  next
    case False
    then have "db' = fl_db s" using handle_put_cases [OF fleet_push(7)] by (auto simp: reply_def)
    then show ?thesis using False fleet_push.IH fleet_push(3) unfolding fleet_ok_def
      by (auto split: option.splits)
  qed
next
  case (fleet_read s ver m k)
  then show ?case unfolding fleet_ok_def by auto
next
  case (fleet_delete s)
  then show ?case unfolding fleet_ok_def by (auto simp: row_of_deleteProject)
qed

section \<open>Properties\<close>

text \<open>
  C6: no device overwrites work it has not seen. In every run of any number of devices, an upload the account accepts is made
  against the version the account holds: a device with a mark has agreed to exactly the files it replaces, one without
  a mark replaces none. The account then holds exactly the files of the device's copy, though only the difference to the mark was sent.
  Assumed are that the server's clock is later at every upload than at the one before, that the printed time is read back as the
  same time, and that different files have different hashes.
\<close>

theorem accepted_upload_replaces_what_it_saw:
  assumes "fleet_run V sha256 user pid s" and "\<forall>t. sv_ms V (sv_iso V t) = Some t" and "inj sha256"
    and "obj_ok (snap_files snap)" and "v = upload_view sha256 pid whole snap name (fl_marks s k)"
    and "sv_parse V req = Some (push_json pid snap v)" and "req \<noteq> []"
    and "handle_put V now user req (fl_db s) = (rs, db')" and "rs_status rs = 200"
  shows "(\<exists>r. row_of db' user pid = Some r \<and> \<not> pr_deleted r \<and> pr_updatedAt r = now \<and>
      map_of (pr_files r) = map_of (snap_files snap)) \<and>
    (case fl_marks s k of
       None \<Rightarrow> old_files (row_of (fl_db s) user pid) = []
     | Some m \<Rightarrow> \<exists>r. row_of (fl_db s) user pid = Some r \<and> \<not> pr_deleted r \<and> sm_updatedAt m = sv_iso V (pr_updatedAt r) \<and>
         map_of (sm_files m) = map_of (hashFiles sha256 \<lparr>snap_files = pr_files r\<rparr>))"
proof -
  have iso: "\<And>t. sv_ms V (sv_iso V t) = Some t" using assms(2) by blast
  note u = upload_accepted [OF fleet_ok_run [OF assms(1) iso assms(3)] iso assms(3-9)]
  have "map_of (hashFiles sha256 \<lparr>snap_files = fs\<rparr>) = map_option sha256 \<circ> map_of fs" for fs
    by (auto simp: map_of_hashFiles)
  with u show ?thesis unfolding mark_of_version_def by (cases "fl_marks s k") auto
qed

text \<open>Two devices: the first uploads a project, the second reads it and uploads a change.\<close>

definition example_first :: snapshot where
  "example_first = \<lparr>snap_files = [(''a'', ''x'')]\<rparr>"

definition example_second :: snapshot where
  "example_second = \<lparr>snap_files = [(''a'', ''x''), (''b'', ''y'')]\<rparr>"

definition example_agreed :: sync_mark where
  "example_agreed =
     \<lparr>sm_files = [(''a'', ''x'')], sm_name = ''n'', sm_localName = None, sm_updatedAt = ''t'', sm_dirty = False\<rparr>"

definition example_server :: server_env where
  "example_server =
     \<lparr>sv_enabled = True,
      sv_parse = (\<lambda>s. if s = ''1'' then Some (push_json ''p'' example_first (upload_view id ''p'' False example_first ''n'' None))
        else if s = ''2'' then Some (push_json ''p'' example_second (upload_view id ''p'' False example_second ''n'' (Some example_agreed)))
        else None),
      sv_iso = (\<lambda>n. replicate n CHR ''t''), sv_ms = (\<lambda>s. Some (length s))\<rparr>"

definition example_row :: "nat \<Rightarrow> files \<Rightarrow> project_row" where
  "example_row t fs = \<lparr>pr_name = ''n'', pr_kind = ''project'', pr_updatedAt = t, pr_deleted = False, pr_files = fs\<rparr>"

definition example_fleet :: "bool fleet" where
  "example_fleet =
     \<lparr>fl_db = [((''u'', ''p''), example_row 1 [(''a'', ''x'')])],
      fl_marks = (\<lambda>k. if k then Some example_agreed else Some example_agreed),
      fl_clock = 1, fl_versions = [(1, [(''a'', ''x'')])]\<rparr>"

definition example_body :: "string \<Rightarrow> json js_obj" where
  "example_body s = (case sv_parse example_server s of Some (JObj b) \<Rightarrow> b | _ \<Rightarrow> [])"

lemma example_puts:
  "handle_put example_server 1 ''u'' ''1'' [] =
     (reply 200 [(''updatedAt'', JStr ''t'')], [((''u'', ''p''), example_row 1 [(''a'', ''x'')])])" (is ?first)
  "handle_put example_server 2 ''u'' ''2'' (fl_db example_fleet) =
     (reply 200 [(''updatedAt'', JStr ''tt'')], [((''u'', ''p''), example_row 2 [(''a'', ''x''), (''b'', ''y'')])])" (is ?second)
proof -
  have small: "\<not> utf8_length [c] > MAX_PROJECT_BODY_BYTES" for c
    by (simp add: utf8_length_def MAX_PROJECT_BODY_BYTES_def)
  have "sv_parse example_server ''1'' = Some (JObj (example_body ''1''))"
    "sv_parse example_server ''2'' = Some (JObj (example_body ''2''))"
    by (simp_all add: example_body_def example_server_def push_json_def)
  moreover have "handle_write example_server 1 ''u'' (example_body ''1'') [] =
      (reply 200 [(''updatedAt'', JStr ''t'')], [((''u'', ''p''), example_row 1 [(''a'', ''x'')])])" by code_simp
  moreover have "handle_write example_server 2 ''u'' (example_body ''2'') (fl_db example_fleet) =
      (reply 200 [(''updatedAt'', JStr ''tt'')], [((''u'', ''p''), example_row 2 [(''a'', ''x''), (''b'', ''y'')])])" by code_simp
  ultimately show ?first ?second using small by (simp_all add: handle_put_def)
qed

lemma example_run: "fleet_run example_server id ''u'' ''p'' example_fleet"
proof -
  let ?v = "upload_view id ''p'' False example_first ''n'' None"
  let ?s0 = "\<lparr>fl_db = [], fl_marks = (\<lambda>k :: bool. None), fl_clock = 0, fl_versions = []\<rparr>"
  have "fleet_run example_server id ''u'' ''p''
      \<lparr>fl_db = [((''u'', ''p''), example_row 1 [(''a'', ''x'')])],
       fl_marks = (if rs_status (reply 200 [(''updatedAt'', JStr ''t'')]) = 200
         then (fl_marks ?s0)(False := Some (accepted_mark ?v (sv_iso example_server 1))) else fl_marks ?s0),
       fl_clock = 1,
       fl_versions = fl_versions ?s0 @ (case live_version [((''u'', ''p''), example_row 1 [(''a'', ''x'')])] ''u'' ''p'' of
           Some ver \<Rightarrow> if rs_status (reply 200 [(''updatedAt'', JStr ''t'')]) = 200 then [ver] else [] | None \<Rightarrow> [])\<rparr>"
    by (rule fleet_push [where snap = example_first and whole = False and name = "''n''" and req = "''1''", OF fleet_start])
      (simp_all only: fleet.select_convs example_puts(1), simp_all add: example_first_def example_server_def)
  moreover have "accepted_mark ?v (sv_iso example_server 1) = example_agreed" by code_simp
  moreover have "live_version [((''u'', ''p''), example_row 1 [(''a'', ''x'')])] ''u'' ''p'' = Some (1, [(''a'', ''x'')])" by code_simp
  ultimately have "fleet_run example_server id ''u'' ''p''
      \<lparr>fl_db = [((''u'', ''p''), example_row 1 [(''a'', ''x'')])], fl_marks = (\<lambda>k. None)(False := Some example_agreed),
       fl_clock = 1, fl_versions = [(1, [(''a'', ''x'')])]\<rparr>" by (simp add: reply_def)
  moreover have "mark_of_version (sv_iso example_server) id (1, [(''a'', ''x'')]) example_agreed"
    by (simp add: mark_of_version_def example_agreed_def example_server_def fun_eq_iff option.map_id)
  moreover have "(\<lambda>k. None)(False := Some example_agreed, True := Some example_agreed) = fl_marks example_fleet"
    by (auto simp: example_fleet_def)
  ultimately show ?thesis
    using fleet_read [where ver = "(1, [(''a'', ''x'')])" and m = example_agreed and k = True] by (fastforce simp: example_fleet_def)
qed

theorem accepted_upload_replaces_what_it_saw_witness:
  "map_of (files_at ''u'' ''p'' (snd (handle_put example_server 2 ''u'' ''2'' (fl_db example_fleet)))) =
     map_of (snap_files example_second) \<and>
   map_of (sm_files example_agreed) =
     map_of (hashFiles id \<lparr>snap_files = files_at ''u'' ''p'' (fl_db example_fleet)\<rparr>)"
proof -
  have mark: "fl_marks example_fleet True = Some example_agreed" by (simp add: example_fleet_def)
  have iso: "\<forall>t. sv_ms example_server (sv_iso example_server t) = Some t" by (simp add: example_server_def)
  have ok: "obj_ok (snap_files example_second)" by (simp add: example_second_def)
  have sent: "sv_parse example_server ''2'' =
      Some (push_json ''p'' example_second (upload_view id ''p'' False example_second ''n'' (fl_marks example_fleet True)))"
    by (simp add: example_server_def mark)
  show ?thesis
    using accepted_upload_replaces_what_it_saw [OF example_run iso inj_on_id ok refl sent _ example_puts(2)] mark
    by (auto simp: reply_def example_puts(2))
qed

end
