(* ===== verification/Project_Sync_Correct.thy ===== *)
theory Project_Sync_Correct
  imports Project_Sync
begin

text \<open>
  The pure parts of the driver: a free name is always found and can be given, the question raised again after a refused
  answer names every file concerned, and the gate is open exactly when no one holds it.
\<close>

section \<open>Free names\<close>

lemma imported_name_inj: "imported_name stem m = imported_name stem n \<Longrightarrow> 1 \<le> m \<Longrightarrow> 1 \<le> n \<Longrightarrow> m = n"
  by (auto simp: imported_name_def split: if_splits)

lemma free_from_None: "free_from k taken stem n = None \<Longrightarrow> m < k \<Longrightarrow> imported_name stem (n + m) \<in> set taken"
proof (induction k arbitrary: n m)
  case (Suc k)
  have "imported_name stem n \<in> set taken" "free_from k taken stem (Suc n) = None"
    using Suc.prems(1) by (auto simp: Let_def split: if_splits)
  then show ?case using Suc.IH [of "Suc n" "m - 1"] Suc.prems(2) by (cases m) auto
qed simp

lemma free_from_Some: "free_from k taken stem n = Some name \<Longrightarrow> name \<notin> set taken \<and> (\<exists>m\<ge>n. name = imported_name stem m)"
proof (induction k arbitrary: n)
  case (Suc k)
  then show ?case by (cases "imported_name stem n \<in> set taken") (auto simp: Let_def, meson Suc_leD)
qed simp

text \<open>Among one more names than are taken, one is free.\<close>

lemma free_from_found: "free_from (Suc (length taken)) taken stem 1 \<noteq> None"
proof
  assume "free_from (Suc (length taken)) taken stem 1 = None"
  then have "imported_name stem (1 + m) \<in> set taken" if "m < Suc (length taken)" for m
    using free_from_None that by blast
  then have "(\<lambda>m. imported_name stem (1 + m)) ` {..< Suc (length taken)} \<subseteq> set taken" by auto
  moreover have "inj_on (\<lambda>m. imported_name stem (1 + m)) {..< Suc (length taken)}"
    by (auto intro!: inj_onI dest: imported_name_inj)
  ultimately have "Suc (length taken) \<le> card (set taken)"
    using card_mono [of "set taken" "(\<lambda>m. imported_name stem (1 + m)) ` {..< Suc (length taken)}"]
    by (simp add: card_image)
  then show False using card_length [of taken] by simp
qed

lemma set_squash_spaces: "set (squash_spaces s) \<subseteq> set s \<union> {CHR '' ''}"
proof (induction s)
  case (Cons c cs)
  then show ?case by (cases cs) auto
qed simp

lemma js_trim_front: "js_trim s \<noteq> [] \<Longrightarrow> \<not> js_space (hd (js_trim s))"
proof -
  assume ne: "js_trim s \<noteq> []"
  let ?d = "dropWhile js_space s"
  have "?d \<noteq> []"
  proof
    assume "?d = []"
    then have "js_trim s = []" by (simp only: js_trim_def) simp
    with ne show False by simp
  qed
  then obtain c cs where d: "?d = c # cs" by (cases ?d) auto
  then have c: "\<not> js_space c" by (metis dropWhile_eq_Cons_conv)
  have "\<exists>ys. js_trim s = c # ys"
  proof -
    have "dropWhile js_space (rev cs @ [c]) = dropWhile js_space (rev cs) @ [c]"
      using c by (cases "\<forall>x\<in>set cs. js_space x") (auto simp: dropWhile_append3 dropWhile_append1)
    then show ?thesis by (simp add: js_trim_def d)
  qed
  then show ?thesis using c by auto
qed

lemma set_js_trim: "set (js_trim s) \<subseteq> set s"
  unfolding js_trim_def by (auto dest!: set_dropWhileD)

lemma name_stem_valid: "isWorkspaceNameValid (name_stem base)"
proof (cases "isWorkspaceNameValid base")
  case False
  let ?ok = "\<lambda>c. word_char c \<or> js_space c \<or> c = CHR ''-''"
  let ?kept = "js_trim (squash_spaces (filter ?ok base))"
  have "isWorkspaceNameValid ''Project''" by (simp add: isWorkspaceNameValid_def word_char_def js_space_def)
  moreover have "isWorkspaceNameValid ?kept" if "?kept \<noteq> []"
  proof -
    have "?ok (CHR '' '')" by (simp add: js_space_def)
    moreover have "set ?kept \<subseteq> set (filter ?ok base) \<union> {CHR '' ''}"
      using set_js_trim set_squash_spaces by (rule subset_trans)
    ultimately have "\<forall>c\<in>set ?kept. ?ok c" unfolding set_filter by blast
    then show ?thesis unfolding isWorkspaceNameValid_def list_all_iff using js_trim_front [OF that] that by blast
  qed
  ultimately show ?thesis using False by (auto simp: name_stem_def Let_def)
qed (simp add: name_stem_def)

lemma digits_ok: "c \<in> set (js_nat n) \<Longrightarrow> word_char c \<and> \<not> js_space c"
proof -
  assume "c \<in> set (js_nat n)"
  then have "c \<in> set ''0123456789''" using set_js_nat by blast
  moreover have "list_all (\<lambda>c. word_char c \<and> \<not> js_space c) ''0123456789''"
    by (simp add: word_char_def js_space_def)
  ultimately show ?thesis unfolding list_all_iff by blast
qed

lemma js_trim_id: "s \<noteq> [] \<Longrightarrow> \<not> js_space (hd s) \<Longrightarrow> \<not> js_space (last s) \<Longrightarrow> js_trim s = s"
proof -
  have front: "dropWhile P xs = xs" if "xs \<noteq> []" "\<not> P (hd xs)" for P and xs :: string
    using that by (cases xs) auto
  assume "s \<noteq> []" "\<not> js_space (hd s)" "\<not> js_space (last s)"
  then show ?thesis using front [of s js_space] front [of "rev s" js_space] by (simp add: js_trim_def hd_rev)
qed

lemma imported_name_valid:
  assumes "isWorkspaceNameValid stem"
  shows "isWorkspaceNameValid (imported_name stem n)" "js_trim (imported_name stem n) = imported_name stem n"
proof -
  have imp: "list_all (\<lambda>c. word_char c \<or> js_space c \<or> c = CHR ''-'') '' imported''" "word_char (CHR '' '') \<or> js_space (CHR '' '')"
    by (simp_all add: word_char_def js_space_def)
  have front: "stem \<noteq> []" "\<not> js_space (hd stem)" using assms by (auto simp: isWorkspaceNameValid_def)
  have "list_all (\<lambda>c. word_char c \<or> js_space c \<or> c = CHR ''-'') (js_nat n)"
    using digits_ok [of _ n] unfolding list_all_iff by blast
  moreover have "list_all (\<lambda>c. word_char c \<or> js_space c \<or> c = CHR ''-'') stem"
    using assms by (simp add: isWorkspaceNameValid_def)
  ultimately have "list_all (\<lambda>c. word_char c \<or> js_space c \<or> c = CHR ''-'') (imported_name stem n)"
    using imp unfolding imported_name_def list_all_append by (cases "n > 1") (simp_all del: of_char_Char)
  then show "isWorkspaceNameValid (imported_name stem n)"
    using front by (simp add: isWorkspaceNameValid_def imported_name_def del: list_all_append)
  have "\<not> js_space (last (imported_name stem n))"
  proof (cases "n > 1")
    case True
    then have "last (imported_name stem n) = last (js_nat n)" by (simp add: imported_name_def)
    then show ?thesis using digits_ok [of "last (js_nat n)" n] by simp
  next
    case False
    then have "last (imported_name stem n) = CHR ''d''" by (simp add: imported_name_def)
    then show ?thesis by (simp add: js_space_def)
  qed
  then show "js_trim (imported_name stem n) = imported_name stem n"
    using front by (intro js_trim_id) (auto simp: imported_name_def)
qed

lemma freeName_found: "\<exists>name. freeName names base own = Some name"
  using free_from_found [of "filter (\<lambda>n. Some n \<noteq> own) names" "name_stem base"] by (auto simp: freeName_def Let_def)

text \<open>
  A name for a workspace is always found. It is the one wanted, unless another workspace holds that; then it is one no
  other workspace holds, which the explorer's rule accepts and does not trim, so a rename to it is not refused for its name.
\<close>

theorem free_name_can_be_given:
  "\<exists>name. freeName names base own = Some name \<and> name \<notin> set (filter (\<lambda>n. Some n \<noteq> own) names) \<and>
     (if base \<in> set (filter (\<lambda>n. Some n \<noteq> own) names) then isWorkspaceNameValid name \<and> js_trim name = name else name = base)"
proof (cases "base \<in> set (filter (\<lambda>n. Some n \<noteq> own) names)")
  case True
  obtain name where n: "free_from (Suc (length (filter (\<lambda>n. Some n \<noteq> own) names)))
      (filter (\<lambda>n. Some n \<noteq> own) names) (name_stem base) 1 = Some name"
    using free_from_found by blast
  then have "freeName names base own = Some name" using True by (simp only: freeName_def Let_def) simp
  with True show ?thesis using free_from_Some [OF n] imported_name_valid [OF name_stem_valid] by auto
next
  case False
  then show ?thesis by (simp only: freeName_def Let_def) auto
qed

section \<open>The gate\<close>

definition gate_ok :: "driver \<Rightarrow> bool" where
  "gate_ok d \<longleftrightarrow> dr_gateOpen d = (dr_holds d = 0)"

datatype gate_call = Hold | Release | ResetAll | Forget

fun gate_step :: "driver \<Rightarrow> gate_call \<Rightarrow> driver" where
  "gate_step d Hold = holdPushes d"
| "gate_step d Release = releasePushes d"
| "gate_step d ResetAll = driver_reset d"
| "gate_step d Forget = forgetAccount d"

definition fresh_driver :: driver where
  "fresh_driver =
     \<lparr>dr_names = [], dr_conflicts = [], dr_emitted = 0, dr_merging = [], dr_generations = [], dr_disowned = [], dr_holds = 0,
      dr_gateOpen = True, dr_signingOut = 0\<rparr>"

interpretation gate: machine fresh_driver gate_step gate_ok
proof unfold_locales
  show "gate_ok fresh_driver" by (simp add: gate_ok_def fresh_driver_def)
next
  fix d c assume "gate_ok d"
  then show "gate_ok (gate_step d c)"
    by (cases c) (auto simp: gate_ok_def holdPushes_def releasePushes_def openGate_def driver_reset_def forgetAccount_def
        emit_conflicts_def Let_def)
qed

section \<open>Questions\<close>

lemma raise_conflict_up:
  "\<exists>c'. map_of (dr_conflicts (raise_conflict c d)) (cf_projectId c) = Some c' \<and> cf_kind c' = cf_kind c \<and> cf_paths c' = cf_paths c"
  by (auto simp: raise_conflict_def emit_conflicts_def conflict_key_def split: option.splits)

lemma set_refused_paths:
  "\<exists>ps. cf_paths (refusedOf pid plan answer lh sh) = Some ps \<and>
     set ps = fc_path ` set (mp_conflicts plan) \<union> set (obj_keys answer) \<and> sorted ps"
proof -
  let ?all = "mp_conflicts plan @ map (\<lambda>p. SettledConflict p (map_of (mp_files plan) p) (map_of lh p) (map_of sh p))
      (filter (\<lambda>p. p \<notin> fc_path ` set (mp_conflicts plan)) (obj_keys answer))"
  have "set (map fc_path (sort_key fc_path ?all)) = fc_path ` set ?all" by (simp only: set_map set_sort)
  also have "\<dots> = fc_path ` set (mp_conflicts plan) \<union> set (obj_keys answer)" by (force simp: image_Un image_image)
  finally show ?thesis by (simp only: refusedOf_def Let_def) (simp del: set_append)
qed

end
