(* ===== verification/Project_Runs.thy ===== *)
theory Project_Runs
  imports Project_Restore Project_Sync_Correct
begin

text \<open>
  Every operation of the sync driver ends, and however it ends, with a result or an error, it gives back what it took: the holds on
  the gate and the mark that a project is being merged. An operation waits at the gate and for its turn on a project, so
  that it ends is a statement about the state it starts in: \<open>ends\<close> is \<open>total\<close> from the states of a predicate.
\<close>

section \<open>Rules\<close>

lemma total_lastly [total_rules]: "total m \<Longrightarrow> total k \<Longrightarrow> total (lastly m k)"
  unfolding total_def lastly_def by (auto split: prod.split res.split) (metis fst_conv)+

lemma keeps_lastly [keeps_rules]: "keeps P m \<Longrightarrow> keeps P k \<Longrightarrow> keeps P (lastly m k)"
  unfolding keeps_def lastly_def by (simp split: prod.split res.split) (metis snd_conv)

lemma total_case_sum [total_rules]:
  "(\<And>x. total (f x)) \<Longrightarrow> (\<And>x. total (g x)) \<Longrightarrow> total (case v of Inl x \<Rightarrow> f x | Inr x \<Rightarrow> g x)"
  by (cases v) auto

lemma total_basic [total_rules]:
  "total (on_host f)" "total (asks_host g)" "total (on_net h)" "total (on_device i)" "total (device_do j)" "total (driver_do k)"
  "total (locals_do l)" "total (note_call c)" "total (tell what)" "total (available E)" "total (result_do r)"
  by (auto simp: total_def on_host_def asks_host_def on_net_def on_device_def device_do_def driver_do_def locals_do_def
      note_call_def tell_def available_def result_do_def modify_def split: prod.split option.split)

lemma total_ready [total_rules]: "total (ready E)"
  unfolding ready_def by (intro total_rules)

lemma total_let [total_rules]: "total (f x) \<Longrightarrow> total (Let x f)"
  by (simp add: Let_def)

lemma total_case_read [total_rules]:
  "total a \<Longrightarrow> total b \<Longrightarrow> (\<And>p. total (f p)) \<Longrightarrow> total (case r of ReadGone \<Rightarrow> a | ReadFailed \<Rightarrow> b | ReadProject p \<Rightarrow> f p)"
  by (cases r) auto

lemma total_case_rebased [total_rules]:
  "total a \<Longrightarrow> total b \<Longrightarrow> (\<And>m. total (f m)) \<Longrightarrow> total (case r of NoRebase \<Rightarrow> a | RebaseRetry \<Rightarrow> b | Rebased m \<Rightarrow> f m)"
  by (cases r) auto

section \<open>Every operation ends\<close>

lemma total_marks [total_rules]:
  "total (write_mark E pid m)" "total (mark_dirty E pid)" "total (remove_mark pid)" "total (capture_base E pid ps base given)"
  "total (reportDisowned pid why)" "total (replace_base E pid bs)" "total (replace_files E name fs)" "total (tell_infos infos)"
  unfolding write_mark_def mark_dirty_def remove_mark_def capture_base_def reportDisowned_def replace_base_def replace_files_def
    tell_infos_def by (intro total_rules)+

lemma total_body [total_rules]: "total (body_of rs)" "total (field_of j k)" "total (refusalKind rs)"
  unfolding body_of_def field_of_def refusalKind_def by (auto intro!: total_rules split: reply_body.split)

lemma total_read [total_rules]: "total (sync_list E)" "total (sync_read E pid)" "total (sync_remove E pid)"
  unfolding sync_list_def sync_read_def sync_remove_def by (auto intro!: total_rules split: option.split json.split)

lemma total_fetch [total_rules]: "total (sync_fetch E pid)"
  unfolding sync_fetch_def by (intro total_rules)

lemma total_accepted [total_rules]: "total (push_accepted E pid snap v rs)"
  unfolding push_accepted_def by (intro total_rules)

lemma total_refused [total_rules]:
  "(\<And>p l. \<not> po_merging opts \<Longrightarrow> total (merge p l)) \<Longrightarrow> total (push_refused E merge opts pid rs)"
  unfolding push_refused_def by (auto intro!: total_rules split: option.split merge_outcome.split)

lemma total_failed: "(pv_patch v \<noteq> None \<Longrightarrow> total again) \<Longrightarrow> total (push_failed again pid v rs)"
  unfolding push_failed_def by (auto intro!: total_rules)

lemma total_decide:
  "(\<And>p l. \<not> po_merging opts \<Longrightarrow> total (merge p l)) \<Longrightarrow> (pv_patch v \<noteq> None \<Longrightarrow> total again) \<Longrightarrow>
   total (push_decide E merge again opts pid snap v)"
  unfolding push_decide_def push_send_def by (auto intro!: total_rules total_failed)

lemma view_push_whole: "pv_patch (view_push sha256 True pid snap name names mark) = None"
  by (simp add: view_push_def Let_def split: option.split)

lemma total_once:
  assumes "po_immediate opts" and "\<And>p l. \<not> po_merging opts \<Longrightarrow> total (merge p l)" and "\<not> po_whole opts \<Longrightarrow> total again"
  shows "total (push_once E merge again opts pid snap name)"
proof -
  have "total (push_viewed E merge again opts pid snap name mark)" for mark
    unfolding push_viewed_def
    by (rule total_bnd_gives [where Q = "\<lambda>v. po_whole opts \<longrightarrow> pv_patch v = None"])
      (use assms in \<open>auto intro!: total_rules total_decide simp: gives_def gets_def view_push_whole\<close>)
  then show ?thesis using assms(1) unfolding push_once_def by (auto intro!: total_rules)
qed

lemma total_push_with:
  assumes "po_immediate opts" and "\<And>p l. \<not> po_merging opts \<Longrightarrow> total (merge p l)"
  shows "total (push_with E merge opts pid snap name)"
proof -
  have "total (push_once E merge stuck (whole_options opts) pid snap name)"
    by (rule total_once) (use assms in \<open>simp_all add: whole_options_def\<close>)
  then show ?thesis unfolding push_with_def by (auto intro!: total_once assms)
qed

lemma total_push_merged [total_rules]: "total (push_merged E pid merged name)"
  unfolding push_merged_def by (rule total_push_with) simp_all

lemma total_names [total_rules]: "total (free_name E base own)" "total (renameToServer E pid local serverName)"
proof -
  show free: "total (free_name E base own)" for base own
    unfolding free_name_def
  proof (rule total_bnd_gives [where Q = "\<lambda>n. n \<noteq> None"])
    show "total (case n of None \<Rightarrow> stuck | Some name \<Rightarrow> ret name)" if "n \<noteq> None" for n
      using that by (cases n) (auto intro: total_rules)
  qed (use freeName_found in \<open>auto intro!: total_rules simp: gives_def gets_def\<close>)
  show "total (renameToServer E pid local serverName)"
    unfolding renameToServer_def by (auto intro!: total_rules free)
qed

lemma total_catch_up [total_rules]:
  "total (catchUpWithDisk E pid)" "total (catchUp E localName before after)"
proof -
  show "total (catchUpWithDisk E pid)" unfolding catchUpWithDisk_def by (intro total_rules)
  have "total (bring_buffer E localName read synced path)" for read synced path
    unfolding bring_buffer_def by (intro total_rules)
  then have path: "total (catch_up_path E phase localName before after path acc)" for phase path acc
    unfolding catch_up_path_def by (cases acc) (auto intro!: total_rules split: buffer_result.split)
  have "total (catch_up_paths E phase localName before after ps acc)" for phase ps acc
    by (induction ps arbitrary: acc) (auto intro!: total_rules path)
  then show "total (catchUp E localName before after)"
    unfolding catchUp_def catchUpBuffers_def by (intro total_rules)
qed

lemma total_merge_apply [total_rules]: "total (merge_apply E pid answer p mark local server merged)"
proof -
  have "total (after_upload pid merged result)" for result unfolding after_upload_def by (intro total_rules)
  then show ?thesis unfolding merge_apply_def by (intro total_rules)
qed

lemma total_merge_decide [total_rules]: "total (merge_decide E pid prefer asked p mark carried plan local server)"
  unfolding merge_decide_def by (intro total_rules)

lemma total_merge_attempt [total_rules]: "total (merge_attempt E pid prefer asked)"
proof -
  have "total (merge_plan_of E pid prefer asked p carried local server)" for p carried local server
    unfolding merge_plan_of_def by (auto intro!: total_rules split: option.split)
  then show ?thesis unfolding merge_attempt_def by (intro total_rules)
qed

lemma total_merge_locked [total_rules]: "total (merge_locked E pid localName prefer asked)"
proof -
  have "total (merge_attempts n E pid prefer asked)" for n by (induction n) (auto intro!: total_rules)
  moreover have "total (merge_catch_up E pid)" unfolding merge_catch_up_def by (intro total_rules)
  ultimately show ?thesis unfolding merge_locked_def by (intro total_rules)
qed

lemma total_adopt_locked [total_rules]: "total (adopt_locked E pid)"
  unfolding adopt_locked_def holding_def adopt_held_def adopt_take_def by (intro total_rules)

lemma total_clean [total_rules]:
  "total (isClean E pid localName)" "total (importFresh E pid serverName)" "total (rebaseWholeSnapshotMark E project local)"
  unfolding isClean_def importFresh_def rebaseWholeSnapshotMark_def by (intro total_rules)+

lemma total_settle_delete [total_rules]: "total (settle_delete E pid)"
  unfolding settle_delete_def by (intro total_rules)

lemma total_release: "total (releaseLocalProjects E)"
proof -
  have "total (release_project E name)" for name unfolding release_project_def by (intro total_rules)
  then show ?thesis unfolding releaseLocalProjects_def whileSigningOut_def by (intro total_rules)
qed

section \<open>Operations that end from where they start\<close>

named_theorems ends_rules \<open>actions that do not get stuck from some states\<close>

definition ends :: "('s \<Rightarrow> bool) \<Rightarrow> ('s, 'e, 'a) act \<Rightarrow> bool" where
  "ends P m \<longleftrightarrow> (\<forall>s. P s \<longrightarrow> fst (m s) \<noteq> Stuck)"

lemma endsD: "ends P m \<Longrightarrow> P s \<Longrightarrow> fst (m s) \<noteq> Stuck"
  by (simp add: ends_def)

lemma ends_total: "total m \<Longrightarrow> ends P m"
  by (simp add: ends_def total_def)

lemma ends_bnd_gives:
  assumes "ends P m" and "keeps P m" and "gives P m Q" and "\<And>x. Q x \<Longrightarrow> ends P (f x)"
  shows "ends P (bnd m f)"
  unfolding ends_def
proof (intro allI impI)
  fix s assume s: "P s"
  obtain r s' where m: "m s = (r, s')" by fastforce
  have "r \<noteq> Stuck" using endsD [OF assms(1) s] m by simp
  moreover have "P s'" using keepsD [OF assms(2) s] m by simp
  moreover have "Q x" if "r = Val x" for x using assms(3) s m that unfolding gives_def by blast
  ultimately show "fst (bnd m f s) \<noteq> Stuck" using endsD [OF assms(4)] m by (cases r) (auto simp: bnd_def)
qed

lemma ends_bnd [ends_rules]: "ends P m \<Longrightarrow> keeps P m \<Longrightarrow> (\<And>x. ends P (f x)) \<Longrightarrow> ends P (bnd m f)"
  by (rule ends_bnd_gives [where Q = "\<lambda>_. True"]) (simp_all add: gives_def)

lemma ends_seq [ends_rules]: "ends P m \<Longrightarrow> keeps P m \<Longrightarrow> ends P k \<Longrightarrow> ends P (seq m k)"
  unfolding seq_def by (rule ends_bnd)

lemma ends_catch [ends_rules]:
  assumes "ends P m" and "keeps P m" and "\<And>e. ends P (h e)"
  shows "ends P (catch m h)"
  unfolding ends_def
proof (intro allI impI)
  fix s assume s: "P s"
  obtain r s' where m: "m s = (r, s')" by fastforce
  have "r \<noteq> Stuck" using endsD [OF assms(1) s] m by simp
  moreover have "P s'" using keepsD [OF assms(2) s] m by simp
  ultimately show "fst (catch m h s) \<noteq> Stuck" using endsD [OF assms(3)] m by (cases r) (auto simp: catch_def)
qed

lemma ends_if [ends_rules]: "(b \<Longrightarrow> ends P m) \<Longrightarrow> (\<not> b \<Longrightarrow> ends P k) \<Longrightarrow> ends P (if b then m else k)"
  by simp

lemma ends_only_if [ends_rules]: "(b \<Longrightarrow> ends P m) \<Longrightarrow> ends P (only_if b m)"
  by (simp add: only_if_def ends_total total_simple)

lemma ends_option [ends_rules]: "ends P m \<Longrightarrow> (\<And>x. ends P (f x)) \<Longrightarrow> ends P (case v of None \<Rightarrow> m | Some x \<Rightarrow> f x)"
  by (cases v) auto

lemma ends_rebased [ends_rules]:
  "ends P a \<Longrightarrow> ends P b \<Longrightarrow> (\<And>m. ends P (f m)) \<Longrightarrow> ends P (case r of NoRebase \<Rightarrow> a | RebaseRetry \<Rightarrow> b | Rebased m \<Rightarrow> f m)"
  by (cases r) auto

lemma ends_prod [ends_rules]: "(\<And>a b. ends P (f a b)) \<Longrightarrow> ends P (case x of (a, b) \<Rightarrow> f a b)"
  by (cases x) simp

lemma ends_Let [ends_rules]: "ends P (f x) \<Longrightarrow> ends P (Let x f)"
  by (simp add: Let_def)

lemma ends_each [ends_rules]: "(\<And>x. ends P (f x)) \<Longrightarrow> (\<And>x. keeps P (f x)) \<Longrightarrow> ends P (each f xs)"
  by (induction xs) (simp_all add: ends_seq ends_total total_simple)

section \<open>What an operation gives back\<close>

text \<open>The gate with so many holds on it, and so many merges of each project.\<close>

definition gated :: "nat \<Rightarrow> (string \<Rightarrow> nat option) \<Rightarrow> ('x, 'n) world \<Rightarrow> bool" where
  "gated h m w \<longleftrightarrow>
     dr_holds (wd_driver w) = h \<and> dr_gateOpen (wd_driver w) = (h = 0) \<and> map_of (dr_merging (wd_driver w)) = m \<and>
     0 \<notin> ran m"

text \<open>What the other tasks do meanwhile leaves as many holds and merges as there were.\<close>

definition meanwhile_fair :: "('x, 'n) sync_env \<Rightarrow> bool" where
  "meanwhile_fair E \<longleftrightarrow>
     (\<forall>d. dr_holds (se_meanwhile E d) = dr_holds d \<and> dr_gateOpen (se_meanwhile E d) = dr_gateOpen d \<and>
        dr_merging (se_meanwhile E d) = dr_merging d)"

definition takes :: "('s \<Rightarrow> bool) \<Rightarrow> ('s, 'e, 'a) act \<Rightarrow> ('s \<Rightarrow> bool) \<Rightarrow> bool" where
  "takes P m Q \<longleftrightarrow> (\<forall>s. P s \<longrightarrow> Q (snd (m s)))"

lemma keeps_takes: "keeps P m \<longleftrightarrow> takes P m P"
  by (simp add: keeps_def takes_def)

lemma takes_lastly: "takes P m Q \<Longrightarrow> takes Q k R \<Longrightarrow> takes P (lastly m k) R"
  unfolding takes_def lastly_def by (simp split: prod.split res.split) (metis snd_conv)

lemma takes_driver: "(\<And>w. P w \<Longrightarrow> Q (w\<lparr>wd_driver := f (wd_driver w)\<rparr>)) \<Longrightarrow> takes Q k R \<Longrightarrow> takes P (seq (driver_do f) k) R"
  by (simp add: takes_def seq_def bnd_def driver_do_def modify_def)

lemma takes_driver_last: "(\<And>w. P w \<Longrightarrow> Q (w\<lparr>wd_driver := f (wd_driver w)\<rparr>)) \<Longrightarrow> takes P (driver_do f) Q"
  by (simp add: takes_def driver_do_def modify_def)

lemma takes_locals: "(\<And>w l. P w \<Longrightarrow> P (w\<lparr>wd_merge := l\<rparr>)) \<Longrightarrow> takes P k R \<Longrightarrow> takes P (seq (locals_do f) k) R"
  by (simp add: takes_def seq_def bnd_def locals_do_def modify_def)

lemma gated_bump: "gated h m w \<Longrightarrow> gated h m (w\<lparr>wd_driver := bump pid (wd_driver w)\<rparr>)"
  by (simp add: gated_def bump_def)

lemma gated_holds:
  "gated h m w \<Longrightarrow> gated (Suc h) m (w\<lparr>wd_driver := holdPushes (wd_driver w)\<rparr>)"
  "gated (Suc h) m w \<Longrightarrow> gated h m (w\<lparr>wd_driver := releasePushes (wd_driver w)\<rparr>)"
  by (auto simp: gated_def holdPushes_def releasePushes_def openGate_def)

lemma takes_gate:
  "takes (gated (Suc h) m) k R \<Longrightarrow> takes (gated h m) (seq (driver_do holdPushes) k) R"
  "takes (gated h m) k R \<Longrightarrow> takes (gated h m) (seq (driver_do (bump pid)) k) R"
  "takes (gated (Suc h) m) (driver_do releasePushes) (gated h m)"
proof -
  show "takes (gated (Suc h) m) k R \<Longrightarrow> takes (gated h m) (seq (driver_do holdPushes) k) R"
    by (rule takes_driver, rule gated_holds(1))
  show "takes (gated h m) k R \<Longrightarrow> takes (gated h m) (seq (driver_do (bump pid)) k) R"
    by (rule takes_driver, rule gated_bump)
  show "takes (gated (Suc h) m) (driver_do releasePushes) (gated h m)"
    by (rule takes_driver_last, rule gated_holds(2))
qed

lemma gated_merging:
  "gated h m w \<Longrightarrow> gated h (m(pid \<mapsto> (case m pid of None \<Rightarrow> 0 | Some n \<Rightarrow> n) + 1)) (w\<lparr>wd_driver := enter_merging pid (wd_driver w)\<rparr>)"
  "gated h m' w \<Longrightarrow> m' = m(pid \<mapsto> (case m pid of None \<Rightarrow> 0 | Some n \<Rightarrow> n) + 1) \<Longrightarrow> 0 \<notin> ran m \<Longrightarrow>
   gated h m (w\<lparr>wd_driver := leave_merging pid (wd_driver w)\<rparr>)"
proof -
  have out: "map_of (filter (\<lambda>(k, v). k \<noteq> pid) xs) q = (if q = pid then None else map_of xs q)" for xs :: "nat js_obj" and q
    by (induction xs) auto
  show "gated h m w \<Longrightarrow>
      gated h (m(pid \<mapsto> (case m pid of None \<Rightarrow> 0 | Some n \<Rightarrow> n) + 1)) (w\<lparr>wd_driver := enter_merging pid (wd_driver w)\<rparr>)"
    by (auto simp: gated_def enter_merging_def ran_def split: option.splits if_splits)
  assume g: "gated h m' w" and m': "m' = m(pid \<mapsto> (case m pid of None \<Rightarrow> 0 | Some n \<Rightarrow> n) + 1)" and z: "0 \<notin> ran m"
  show "gated h m (w\<lparr>wd_driver := leave_merging pid (wd_driver w)\<rparr>)"
  proof (cases "m pid")
    case None
    then have "map_of (filter (\<lambda>(k, v). k \<noteq> pid) (dr_merging (wd_driver w))) = m"
      using g by (auto simp: gated_def m' out fun_eq_iff)
    then show ?thesis using g z None by (auto simp: gated_def leave_merging_def m')
  next
    case (Some n)
    then have "n \<noteq> 0" using z ranI by metis
    moreover have "m(pid \<mapsto> n) = m" using Some by auto
    ultimately show ?thesis using g z Some by (auto simp: gated_def leave_merging_def m')
  qed
qed

lemma keeps_exclusive:
  fixes E :: "('x, 'n) sync_env" and task :: "('x, 'n, 'a) sync_act"
  assumes "\<And>m'. keeps (gated h m' :: ('x, 'n) world \<Rightarrow> bool) (driver_do (se_meanwhile E))" and "\<And>m'. keeps (gated h m') task"
  shows "keeps (gated h m) (exclusive E pid task)"
proof (cases "0 \<in> ran m")
  case True
  then show ?thesis by (simp add: keeps_def gated_def)
next
  case False
  let ?m = "m(pid \<mapsto> (case m pid of None \<Rightarrow> 0 | Some n \<Rightarrow> n) + 1)"
  have "keeps (gated h ?m) (seq (only_if previous (await_turn E pid)) task)" for previous
    unfolding await_turn_def by (intro keeps_rules assms)
  then have "takes (gated h ?m) (lastly (seq (only_if previous (await_turn E pid)) task) (driver_do (leave_merging pid))) (gated h m)"
    for previous
    by (intro takes_lastly [where Q = "gated h ?m"])
      (use gated_merging(2) [OF _ refl False] in \<open>auto simp: keeps_takes intro!: takes_driver_last\<close>)
  then have "keeps (gated h m) (seq (driver_do (enter_merging pid))
      (lastly (seq (only_if previous (await_turn E pid)) task) (driver_do (leave_merging pid))))" for previous
    unfolding keeps_takes by (rule takes_driver [rotated]) (rule gated_merging(1))
  then show ?thesis unfolding exclusive_def by (intro keeps_bnd [OF keeps_simple(4)])
qed

lemma gated_parts [simp]:
  "gated h m (w\<lparr>wd_host := x\<rparr>) = gated h m w" "gated h m (w\<lparr>wd_net := n\<rparr>) = gated h m w"
  "gated h m (w\<lparr>wd_device := d\<rparr>) = gated h m w" "gated h m (w\<lparr>wd_merge := l\<rparr>) = gated h m w"
  "gated h m (w\<lparr>wd_calls := cs\<rparr>) = gated h m w" "gated h m (w\<lparr>wd_available := a\<rparr>) = gated h m w"
  "gated h m (w\<lparr>wd_result := r\<rparr>) = gated h m w" "gated h m (w\<lparr>wd_listed := li\<rparr>) = gated h m w"
  by (simp_all add: gated_def)

lemma keeps_basic [keeps_rules]:
  "keeps (gated h m) (on_host f)" "keeps (gated h m) (asks_host g)" "keeps (gated h m) (on_net i)"
  "keeps (gated h m) (on_device j)" "keeps (gated h m) (device_do k)" "keeps (gated h m) (locals_do l)"
  "keeps (gated h m) (note_call c)" "keeps (gated h m) (tell what)" "keeps (gated h m) (available E)"
  "keeps (gated h m) (result_do r)"
  by (auto simp: keeps_def on_host_def asks_host_def on_net_def on_device_def device_do_def locals_do_def
      note_call_def tell_def available_def result_do_def modify_def split: prod.split option.split)

lemma keeps_driver_do:
  "(\<And>d. dr_holds (f d) = dr_holds d \<and> dr_gateOpen (f d) = dr_gateOpen d \<and> dr_merging (f d) = dr_merging d) \<Longrightarrow>
   keeps (gated h m) (driver_do f)"
  by (simp add: keeps_def driver_do_def modify_def gated_def)

lemma keeps_driver_calls [keeps_rules]:
  "keeps (gated h m) (driver_do (raise_conflict c))" "keeps (gated h m) (driver_do (clear_conflict pid))"
  "keeps (gated h m) (driver_do (rememberName pid name))" "keeps (gated h m) (driver_do (bump pid))"
  "keeps (gated h m) (driver_do (\<lambda>d. d\<lparr>dr_disowned := g d\<rparr>))" "keeps (gated h m) (driver_do (\<lambda>d. d\<lparr>dr_signingOut := i d\<rparr>))"
  by (rule keeps_driver_do; simp add: raise_conflict_def clear_conflict_def rememberName_def bump_def emit_conflicts_def
      split: option.split)+

lemma keeps_prod [keeps_rules]: "(\<And>a b. keeps P (f a b)) \<Longrightarrow> keeps P (case x of (a, b) \<Rightarrow> f a b)"
  by (cases x) simp

lemma keeps_case_read [keeps_rules]:
  "keeps P a \<Longrightarrow> keeps P b \<Longrightarrow> (\<And>p. keeps P (f p)) \<Longrightarrow> keeps P (case r of ReadGone \<Rightarrow> a | ReadFailed \<Rightarrow> b | ReadProject p \<Rightarrow> f p)"
  by (cases r) auto

lemma keeps_case_rebased [keeps_rules]:
  "keeps P a \<Longrightarrow> keeps P b \<Longrightarrow> (\<And>m. keeps P (f m)) \<Longrightarrow> keeps P (case r of NoRebase \<Rightarrow> a | RebaseRetry \<Rightarrow> b | Rebased m \<Rightarrow> f m)"
  by (cases r) auto

lemma keeps_calls [keeps_rules]:
  "keeps (gated h m) (ready E)" "keeps (gated h m) (write_mark E pid k)" "keeps (gated h m) (mark_dirty E pid)"
  "keeps (gated h m) (remove_mark pid)" "keeps (gated h m) (capture_base E pid ps base given)"
  "keeps (gated h m) (reportDisowned pid why)" "keeps (gated h m) (replace_base E pid bs)"
  "keeps (gated h m) (replace_files E name fs)" "keeps (gated h m) (tell_infos infos)"
  unfolding ready_def write_mark_def mark_dirty_def remove_mark_def capture_base_def reportDisowned_def replace_base_def
    replace_files_def tell_infos_def by (intro keeps_rules)+

lemma keeps_body [keeps_rules]:
  "keeps (gated h m) (body_of rs)" "keeps (gated h m) (field_of j k)" "keeps (gated h m) (refusalKind rs)"
  unfolding body_of_def field_of_def refusalKind_def by (auto intro!: keeps_rules split: reply_body.split)

lemma keeps_reads [keeps_rules]:
  "keeps (gated h m) (sync_list E)" "keeps (gated h m) (sync_read E pid)" "keeps (gated h m) (sync_remove E pid)"
  unfolding sync_list_def sync_read_def sync_remove_def by (auto intro!: keeps_rules split: option.split json.split)

lemma keeps_fetch [keeps_rules]: "keeps (gated h m) (sync_fetch E pid)"
  unfolding sync_fetch_def by (intro keeps_rules)

lemma keeps_names [keeps_rules]:
  "keeps (gated h m) (free_name E base own)" "keeps (gated h m) (renameToServer E pid local serverName)"
  unfolding renameToServer_def free_name_def by (intro keeps_rules)+

lemma keeps_catch_up [keeps_rules]:
  "keeps (gated h m) (catchUpWithDisk E pid)" "keeps (gated h m) (catchUp E localName before after)"
proof -
  show "keeps (gated h m) (catchUpWithDisk E pid)" unfolding catchUpWithDisk_def by (intro keeps_rules)
  have "keeps (gated h m) (bring_buffer E localName read synced path)" for read synced path
    unfolding bring_buffer_def by (intro keeps_rules)
  then have path: "keeps (gated h m) (catch_up_path E phase localName before after path acc)" for phase path acc
    unfolding catch_up_path_def by (cases acc) (auto intro!: keeps_rules split: buffer_result.split)
  have "keeps (gated h m) (catch_up_paths E phase localName before after ps acc)" for phase ps acc
    by (induction ps arbitrary: acc) (auto intro!: keeps_rules path)
  then show "keeps (gated h m) (catchUp E localName before after)"
    unfolding catchUp_def catchUpBuffers_def by (intro keeps_rules)
qed

subsection \<open>In a tab whose other tasks are fair\<close>

locale fair_tab =
  fixes E :: "('x, 'n) sync_env"
  assumes fair: "meanwhile_fair E"
begin

lemma keeps_meanwhile [keeps_rules]: "keeps (gated h m) (driver_do (se_meanwhile E))"
  by (rule keeps_driver_do) (use fair in \<open>simp add: meanwhile_fair_def\<close>)

lemma keeps_await_gate [keeps_rules]: "keeps (gated h m) (await_gate E)"
  unfolding await_gate_def by (intro keeps_rules)

lemmas keeps_turn = keeps_exclusive [where E = E, OF keeps_meanwhile]

lemma keeps_push_once:
  assumes "\<And>p l. keeps (gated h m) (merge p l)" and "keeps (gated h m) again"
  shows "keeps (gated h m) (push_once E merge again opts pid snap name)"
proof -
  have "keeps (gated h m) (push_accepted E pid snap v rs)" "keeps (gated h m) (push_failed again pid v rs)" for v rs
    unfolding push_accepted_def push_failed_def by (intro keeps_rules assms)+
  moreover have "keeps (gated h m) (push_refused E merge opts pid rs)" for rs
    unfolding push_refused_def by (auto intro!: keeps_rules assms split: option.split merge_outcome.split)
  ultimately have "keeps (gated h m) (push_decide E merge again opts pid snap v)" for v
    unfolding push_decide_def push_send_def by (intro keeps_rules)
  then show ?thesis unfolding push_once_def push_viewed_def by (intro keeps_rules)
qed

lemma keeps_push_merged [keeps_rules]: "keeps (gated h m) (push_merged E pid merged name)"
  unfolding push_merged_def push_with_def by (intro keeps_push_once keeps_rules)

lemma keeps_merge_attempts [keeps_rules]: "keeps (gated h m) (merge_attempts n E pid pr asked)"
proof -
  have "keeps (gated h m) (after_upload pid merged result)" for merged result
    unfolding after_upload_def by (intro keeps_rules)
  then have "keeps (gated h m) (merge_apply E pid answer p mark local server merged)" for answer p mark local server merged
    unfolding merge_apply_def by (intro keeps_rules)
  then have "keeps (gated h m) (merge_decide E pid pr asked p mark carried plan local server)" for p mark carried plan local server
    unfolding merge_decide_def by (intro keeps_rules)
  then have "keeps (gated h m) (merge_plan_of E pid pr asked p carried local server)" for p carried local server
    unfolding merge_plan_of_def by (auto intro!: keeps_rules split: option.split)
  then have "keeps (gated h m) (merge_attempt E pid pr asked)" unfolding merge_attempt_def by (intro keeps_rules)
  then show ?thesis by (induction n) (auto intro!: keeps_rules)
qed

lemma keeps_merge [keeps_rules]: "keeps (gated h m) (mergeWithServer E pid localName pr asked)"
  unfolding mergeWithServer_def
proof (rule keeps_turn)
  fix m'
  have cu: "keeps (gated (Suc h) m') (merge_catch_up E pid)" unfolding merge_catch_up_def by (intro keeps_rules)
  have rel: "takes (gated (Suc h) m') (seq (driver_do (bump pid)) (driver_do releasePushes)) (gated h m')"
    by (intro takes_gate)
  have run: "takes (gated (Suc h) m') (lastly (merge_attempts MERGE_ATTEMPTS E pid pr asked)
      (lastly (merge_catch_up E pid) (seq (driver_do (bump pid)) (driver_do releasePushes)))) (gated h m')"
    by (intro takes_lastly [where Q = "gated (Suc h) m'"] rel) (use cu in \<open>auto simp: keeps_takes [symmetric] intro!: keeps_rules\<close>)
  show "keeps (gated h m') (merge_locked E pid localName pr asked)"
    unfolding merge_locked_def
    by (rule keeps_seq [OF keeps_catch_up(1)]) (use run in \<open>auto simp: keeps_takes intro!: takes_gate takes_locals\<close>)
qed

lemma keeps_push [keeps_rules]:
  "keeps (gated h m) (sync_push E opts pid snap name)" "keeps (gated h m) (pushCurrent E)"
proof -
  show p: "keeps (gated h m) (sync_push E opts pid snap name)" for opts pid snap name
    unfolding sync_push_def push_with_def by (intro keeps_push_once keeps_rules)
  show "keeps (gated h m) (pushCurrent E)" unfolding pushCurrent_def by (intro keeps_rules p)
qed

lemma keeps_adopt [keeps_rules]: "keeps (gated h m) (adopt E pid)"
  unfolding adopt_def
proof (rule keeps_turn)
  fix m'
  have "keeps (gated (Suc h) m') (adopt_held E pid p local)" for p local
    unfolding adopt_held_def adopt_take_def by (intro keeps_rules)
  then have "keeps (gated h m') (holding (adopt_held E pid p local))" for p local
    unfolding keeps_takes holding_def
    by (intro takes_gate takes_lastly [where Q = "gated (Suc h) m'"])
  then show "keeps (gated h m') (adopt_locked E pid)" unfolding adopt_locked_def by (intro keeps_rules)
qed

lemma keeps_stand_in [keeps_rules]: "keeps (gated h m) (settleStandIn E pid serverName)"
  unfolding settleStandIn_def by (intro keeps_rules keeps_turn)

lemma keeps_resolve [keeps_rules]: "keeps (gated h m) (resolve E pid resolution)"
proof -
  have "keeps (gated h m) (resolve_merging E pid name pr)" "keeps (gated h m) (resolve_delete E pid name)"
    "keeps (gated h m) (resolve_keep E pid name)" "keeps (gated h m) (resolve_retry E pid name)" for name pr
    unfolding resolve_merging_def resolve_delete_def resolve_keep_def resolve_retry_def by (intro keeps_rules)+
  then show ?thesis unfolding resolve_def by (cases resolution) (auto intro!: keeps_rules)
qed

lemma keeps_pass [keeps_rules]: "keeps (gated h m) (passUnlocked E)"
proof -
  have [keeps_rules]: "keeps (gated h m) (isClean E pid local)" "keeps (gated h m) (importFresh E pid serverName)"
    "keeps (gated h m) (rebaseWholeSnapshotMark E project local)" for pid local serverName project
    unfolding isClean_def importFresh_def rebaseWholeSnapshotMark_def by (intro keeps_rules)+
  have [keeps_rules]: "keeps (gated h m) (settleDivergence E pid local)" for pid local
    unfolding settleDivergence_def by (intro keeps_rules)
  have [keeps_rules]: "keeps (gated h m) (reconcile_cell E project local mark)" for project local mark
    unfolding reconcile_cell_def by (intro keeps_rules)
  have [keeps_rules]: "keeps (gated h m) (reconcile_local E project local)" for project local
    unfolding reconcile_local_def by (intro keeps_rules)
  have [keeps_rules]: "keeps (gated h m) (reconcile_project E project)" for project
    unfolding reconcile_project_def by (intro keeps_rules)
  have [keeps_rules]: "keeps (gated h m) (settle_delete E pid)" "keeps (gated h m) (push_never_synced E serverIds name)"
    for pid serverIds name unfolding settle_delete_def push_never_synced_def by (intro keeps_rules)+
  have [keeps_rules]: "keeps (gated h m) (modify (\<lambda>w. w\<lparr>wd_listed := li\<rparr>))" for li :: account_list
    by (rule keeps_modify) simp
  show ?thesis
    unfolding passUnlocked_def settleDeletes_def settleSteppedNames_def pushNeverSynced_def by (intro keeps_rules)
qed

text \<open>
  From a state in which no project is being merged, a merge or an adoption has its turn at once; a push that does not wait
  at the gate ends whoever holds it, and one that waits ends if nobody does.
\<close>

lemma ends_exclusive:
  assumes "total task"
  shows "ends (gated h Map.empty) (exclusive E pid task)"
proof -
  have "total (lastly (seq (only_if False (await_turn E pid)) task) (driver_do (leave_merging pid)))"
    using assms by (auto simp: only_if_def intro!: total_rules)
  then have "total (seq (driver_do (enter_merging pid)) (lastly (seq (only_if False (await_turn E pid)) task) (driver_do (leave_merging pid))))"
    by (rule total_seq [OF total_basic(6)])
  moreover have "\<not> isMerging (wd_driver w) pid" if "gated h Map.empty w" for w :: "('x, 'n) world"
    using that by (simp add: gated_def isMerging_def obj_has_def map_of_eq_None_iff)
  ultimately show ?thesis unfolding ends_def total_def exclusive_def by (simp add: bnd_def gets_def)
qed

lemma ends_turns [ends_rules]:
  "ends (gated h Map.empty) (mergeWithServer E pid localName pr asked)" "ends (gated h Map.empty) (adopt E pid)"
  unfolding mergeWithServer_def adopt_def by (intro ends_exclusive total_rules)+

lemma ends_gate [ends_rules]: "ends (gated 0 m) (await_gate E)"
  using fair by (simp add: ends_def gated_def await_gate_def seq_def bnd_def driver_do_def modify_def gets_def ret_def meanwhile_fair_def)

lemma ends_push_once:
  assumes "po_immediate opts \<or> h = 0" and "\<not> po_whole opts \<Longrightarrow> ends (gated h Map.empty) again"
    and "keeps (gated h Map.empty) again"
  shows "ends (gated h Map.empty) (push_once E (\<lambda>p l. mergeWithServer E p l None None) again opts pid snap name)"
    (is "ends ?P (push_once E ?merge again opts pid snap name)")
proof -
  have refused: "ends ?P (push_refused E ?merge opts pid rs)" for rs
    unfolding push_refused_def
    by (intro ends_rules keeps_rules ends_total total_rules) (auto intro!: total_rules split: option.split merge_outcome.split)
  have failed: "ends ?P (push_failed again pid v rs)" if "pv_patch v \<noteq> None \<Longrightarrow> ends ?P again" for v rs
    unfolding push_failed_def by (intro ends_rules keeps_rules that ends_total total_rules) auto
  have keeps: "keeps ?P (push_accepted E pid snap v rs)" "keeps ?P (push_failed again pid v rs)"
      "keeps ?P (push_refused E ?merge opts pid rs)" for v rs
    unfolding push_accepted_def push_failed_def push_refused_def
    by (auto intro!: keeps_rules assms(3) split: option.split merge_outcome.split)
  have decide: "ends ?P (push_decide E ?merge again opts pid snap v)" if "pv_patch v \<noteq> None \<Longrightarrow> ends ?P again" for v
    unfolding push_decide_def push_send_def
    by (intro ends_rules keeps_rules keeps refused failed that ends_total total_rules)
  have viewed: "ends ?P (seq (case pv_patch v of None \<Rightarrow> ret () | Some p \<Rightarrow> capture_base E pid (fd_changed p) (sm_files (the mark)) None)
      (seq (driver_do (se_meanwhile E)) (push_decide E ?merge again opts pid snap v)))"
    if "po_whole opts \<longrightarrow> pv_patch v = None" for v mark
  proof -
    have "pv_patch v \<noteq> None \<Longrightarrow> ends ?P again" by (rule assms(2)) (use that in auto)
    then have "ends ?P (push_decide E ?merge again opts pid snap v)" by (rule decide)
    then show ?thesis by (intro ends_seq keeps_rules) (auto intro!: ends_total total_rules)
  qed
  have view: "ends ?P (push_viewed E ?merge again opts pid snap name mark)" for mark
    unfolding push_viewed_def
    by (rule ends_bnd_gives [where Q = "\<lambda>v. po_whole opts \<longrightarrow> pv_patch v = None"])
      (auto intro!: ends_total total_rules keeps_rules viewed simp: gives_def gets_def view_push_whole)
  have gate: "ends ?P (await_gate E)" if "\<not> po_immediate opts"
    using assms(1) that by (auto intro: ends_rules)
  show ?thesis unfolding push_once_def by (intro ends_rules keeps_rules gate view ends_total total_rules)
qed

lemma ends_push:
  assumes "po_immediate opts \<or> h = 0"
  shows "ends (gated h Map.empty) (sync_push E opts pid snap name)"
proof -
  have w: "po_immediate (whole_options opts)" "po_whole (whole_options opts)" by (simp_all add: whole_options_def)
  have "ends (gated h Map.empty) (push_once E (\<lambda>p l. mergeWithServer E p l None None) stuck (whole_options opts) pid snap name)"
    by (rule ends_push_once) (use w in \<open>auto intro: keeps_rules\<close>)
  then show ?thesis
    unfolding sync_push_def push_with_def by (intro ends_push_once [OF assms] keeps_push_once keeps_rules)
qed

lemma ends_push_current: "ends (gated 0 Map.empty) (pushCurrent E)"
  unfolding pushCurrent_def by (intro ends_rules keeps_rules ends_push disjI2 refl ends_total total_rules)

lemma ends_resolve: "ends (gated 0 Map.empty) (resolve E pid answer)"
proof -
  have [ends_rules]: "ends (gated 0 Map.empty) (resolve_merging E pid name pr)" for name pr
    unfolding resolve_merging_def by (intro ends_rules keeps_rules ends_total total_rules)
  have [ends_rules]: "ends (gated 0 Map.empty) (resolve_retry E pid name)" for name
    unfolding resolve_retry_def by (intro ends_rules keeps_rules ends_push disjI2 refl ends_total total_rules)
  have [ends_rules]: "ends (gated 0 Map.empty) (resolve_delete E pid name)" "ends (gated 0 Map.empty) (resolve_keep E pid name)" for name
    unfolding resolve_delete_def resolve_keep_def by (intro ends_total total_rules)+
  have "keeps (gated 0 Map.empty) (resolve_merging E pid name pr)" "keeps (gated 0 Map.empty) (resolve_delete E pid name)"
    "keeps (gated 0 Map.empty) (resolve_keep E pid name)" "keeps (gated 0 Map.empty) (resolve_retry E pid name)" for name pr
    unfolding resolve_merging_def resolve_delete_def resolve_keep_def resolve_retry_def by (intro keeps_rules)+
  then show ?thesis
    unfolding resolve_def by (cases answer) (auto intro!: ends_rules keeps_rules intro: ends_total total_rules)
qed

lemma ends_pass: "ends (gated h Map.empty) (passUnlocked E)"
proof -
  have imm: "po_immediate (PLAIN_PUSH\<lparr>po_immediate := True\<rparr>) \<or> h = 0"
    "po_immediate (PLAIN_PUSH\<lparr>po_immediate := True, po_generation := g\<rparr>) \<or> h = 0" for g
    by (simp_all add: PLAIN_PUSH_def)
  have [keeps_rules]: "keeps (gated h Map.empty) (isClean E pid local)" "keeps (gated h Map.empty) (importFresh E pid serverName)"
    "keeps (gated h Map.empty) (rebaseWholeSnapshotMark E project local)" for pid local serverName project
    unfolding isClean_def importFresh_def rebaseWholeSnapshotMark_def by (intro keeps_rules)+
  have [ends_rules]: "ends (gated h Map.empty) (settleDivergence E pid local)" for pid local
    unfolding settleDivergence_def by (intro ends_rules keeps_rules ends_push imm ends_total total_rules)
  have [keeps_rules]: "keeps (gated h Map.empty) (settleDivergence E pid local)" for pid local
    unfolding settleDivergence_def by (intro keeps_rules)
  have [ends_rules]: "ends (gated h Map.empty) (reconcile_cell E project local mark)" for project local mark
    unfolding reconcile_cell_def by (intro ends_rules keeps_rules ends_push imm ends_total total_rules)
  have [keeps_rules]: "keeps (gated h Map.empty) (reconcile_cell E project local mark)" for project local mark
    unfolding reconcile_cell_def by (intro keeps_rules)
  have [ends_rules]: "ends (gated h Map.empty) (reconcile_local E project local)" for project local
    unfolding reconcile_local_def by (intro ends_rules keeps_rules ends_total total_rules)
  have [keeps_rules]: "keeps (gated h Map.empty) (reconcile_local E project local)" for project local
    unfolding reconcile_local_def by (intro keeps_rules)
  have [ends_rules]: "ends (gated h Map.empty) (reconcile_project E project)" for project
    unfolding reconcile_project_def by (intro ends_rules keeps_rules ends_total total_rules)
  have [keeps_rules]: "keeps (gated h Map.empty) (reconcile_project E project)" for project
    unfolding reconcile_project_def by (intro keeps_rules)
  have [keeps_rules]: "keeps (gated h Map.empty) (settle_delete E pid)" "keeps (gated h Map.empty) (push_never_synced E serverIds name)"
    for pid serverIds name unfolding settle_delete_def push_never_synced_def by (intro keeps_rules)+
  have [ends_rules]: "ends (gated h Map.empty) (push_never_synced E serverIds name)" for serverIds name
    unfolding push_never_synced_def by (intro ends_rules keeps_rules ends_push imm ends_total total_rules)
  have [ends_rules]: "ends (gated h Map.empty) (settleStandIn E pid serverName)" for pid serverName
    unfolding settleStandIn_def by (intro ends_rules keeps_rules ends_exclusive ends_total total_rules)
  have [keeps_rules]: "keeps (gated h Map.empty) (modify (\<lambda>w. w\<lparr>wd_listed := li\<rparr>))" for li :: account_list
    by (rule keeps_modify) simp
  show ?thesis
    unfolding passUnlocked_def settleDeletes_def settleSteppedNames_def pushNeverSynced_def
    by (intro ends_rules keeps_rules ends_total total_rules)
qed

end

text \<open>A tab in which nothing else runs meanwhile.\<close>

interpretation alone: fair_tab "E\<lparr>se_meanwhile := \<lambda>d. d\<rparr>" for E :: "('x, 'n) sync_env"
  by unfold_locales (simp add: meanwhile_fair_def)

section \<open>Properties\<close>

text \<open>
  C36: sync never waits for itself. In a tab whose other tasks give back the holds and merges they take, started while no project
  is being merged: a pass, a merge, an adoption, a sign-out and a push that does not wait at the gate each return a
  result or an error even if the gate is held, as it is during a pass and inside a merge; a push of the editor or the user, which waits at the
  gate, and an answer do so when nobody holds it. Whatever the server, the explorer and the volume answer, the push
  a merge makes neither waits at the gate the merge holds nor merges again, no project waits for its own turn, the
  whole set is sent at most once, and a free name is found.
\<close>

theorem sync_always_ends:
  fixes E :: "('x, 'n) sync_env"
  assumes "meanwhile_fair E" and "gated h (\<lambda>p. None) w"
  shows "fst (passUnlocked E w) \<noteq> Stuck \<and> fst (mergeWithServer E pid local pr asked w) \<noteq> Stuck \<and>
    fst (adopt E pid w) \<noteq> Stuck \<and> fst (releaseLocalProjects E w) \<noteq> Stuck \<and>
    (po_immediate opts \<or> h = 0 \<longrightarrow> fst (sync_push E opts pid snap name w) \<noteq> Stuck) \<and>
    (h = 0 \<longrightarrow> fst (pushCurrent E w) \<noteq> Stuck \<and> fst (resolve E pid answer w) \<noteq> Stuck)"
proof -
  have f: "fair_tab E" by unfold_locales (rule assms(1))
  have "fst (passUnlocked E w) \<noteq> Stuck" "fst (mergeWithServer E pid local pr asked w) \<noteq> Stuck" "fst (adopt E pid w) \<noteq> Stuck"
    using endsD [OF fair_tab.ends_pass [OF f] assms(2)] endsD [OF fair_tab.ends_turns(1) [OF f] assms(2)]
      endsD [OF fair_tab.ends_turns(2) [OF f] assms(2)] by blast+
  moreover have "fst (releaseLocalProjects E w) \<noteq> Stuck" using total_release [of E] by (simp add: total_def)
  moreover have "fst (sync_push E opts pid snap name w) \<noteq> Stuck" if "po_immediate opts \<or> h = 0"
    using endsD [OF fair_tab.ends_push [OF f that] assms(2)] .
  moreover have "fst (pushCurrent E w) \<noteq> Stuck \<and> fst (resolve E pid answer w) \<noteq> Stuck" if "h = 0"
    using endsD [OF fair_tab.ends_push_current [OF f]] endsD [OF fair_tab.ends_resolve [OF f]] assms(2) that by blast
  ultimately show ?thesis by blast
qed

text \<open>
  C19: sync gives back what it took. However a pass, a push, a merge, an adoption or an answer ends, with a result or with an error,
  the gate has as many holds as before, it is open exactly if there are none, and no project is left as being merged.
\<close>

theorem sync_gives_back_gate:
  fixes E :: "('x, 'n) sync_env"
  assumes "meanwhile_fair E" and "gated h m w"
  shows "gated h m (snd (passUnlocked E w)) \<and> gated h m (snd (sync_push E opts pid snap name w)) \<and>
    gated h m (snd (mergeWithServer E pid local pr asked w)) \<and> gated h m (snd (adopt E pid w)) \<and>
    gated h m (snd (resolve E pid answer w))"
proof -
  have f: "fair_tab E" by unfold_locales (rule assms(1))
  show ?thesis
    using keepsD [OF fair_tab.keeps_pass [OF f] assms(2)] keepsD [OF fair_tab.keeps_push(1) [OF f] assms(2)]
      keepsD [OF fair_tab.keeps_merge [OF f] assms(2)] keepsD [OF fair_tab.keeps_adopt [OF f] assms(2)]
      keepsD [OF fair_tab.keeps_resolve [OF f] assms(2)] by blast
qed

text \<open>A tab with one workspace, of the given files, against a network that gives the listed responses in turn.\<close>

definition scripted :: "response list \<Rightarrow> response option \<times> response list" where
  "scripted rs = (case rs of [] \<Rightarrow> (None, []) | r # rest \<Rightarrow> (Some r, rest))"

definition example_tab :: "(files, response list) sync_env" where
  "example_tab =
     \<lparr>hs_nameOf = (\<lambda>x i. if i = ''p'' then Some ''n'' else None), hs_idOf = (\<lambda>x n. if n = ''n'' then Some ''p'' else None),
      hs_names = (\<lambda>x. [''n'']), hs_currentId = (\<lambda>x. Some ''p''), hs_currentName = (\<lambda>x. Some ''n''),
      hs_snapshot = (\<lambda>n x. (Some x, x)), hs_replace = (\<lambda>n fs x. (Some (), fs)), hs_rename = (\<lambda>n old x. (Some (), x)),
      hs_import = (\<lambda>n i fs x. (Some (), x)), hs_delete = (\<lambda>n x. (Some (), [])), hs_switch = (\<lambda>n x. (Some (), x)),
      hs_reload = (\<lambda>x. (Some (), x)), hs_registered = (\<lambda>n i x. (True, x)), hs_hasBuffers = (\<lambda>x. False),
      hs_readBuffer = (\<lambda>p x. (Some None, x)), hs_writeBuffer = (\<lambda>p c x. (Some (), x)), hs_discardBuffer = (\<lambda>p x. (Some (), x)),
      hs_writeFile = (\<lambda>p c x. (Some (), x)), hs_saveToState = (\<lambda>p c x. (Some (), x)), hs_forgetThreads = (\<lambda>i x. (Some (), x)),
      hs_carryThreads = (\<lambda>i j x. (Some True, x)), hs_uuid = (\<lambda>x. (Some ''q'', x)), nt_session = (\<lambda>n. True),
      nt_probe = scripted, nt_put = (\<lambda>body. scripted), nt_get = (\<lambda>i. scripted), nt_list = scripted, nt_delete = (\<lambda>i. scripted),
      se_parse = (\<lambda>s. None), se_stringify = (\<lambda>j. ''{}''), se_sha = id, se_diff = (\<lambda>a b. []), se_meanwhile = (\<lambda>d. d)\<rparr>"

definition example_world :: "files \<Rightarrow> response list \<Rightarrow> (files, response list) world" where
  "example_world fs rs =
     \<lparr>wd_host = fs, wd_net = rs,
      wd_device = \<lparr>dv_files = [], dv_faulty = [], dv_user = Some ''u'', dv_shadow = None, dv_reports = []\<rparr>,
      wd_driver = fresh_driver, wd_available = Some True,
      wd_merge = \<lparr>ml_name = [], ml_first = None, ml_written = None, ml_carried = None\<rparr>, wd_result = EMPTY_RESULT,
      wd_listed = UnknownList, wd_calls = []\<rparr>"

lemma example_fair: "meanwhile_fair example_tab"
  by (simp add: meanwhile_fair_def example_tab_def)

lemma example_gated: "gated 0 (\<lambda>p. None) (example_world fs rs)"
  by (simp add: gated_def example_world_def fresh_driver_def fun_eq_iff)

lemma example_held: "gated (Suc 0) (\<lambda>p. None) ((example_world fs rs)\<lparr>wd_driver := holdPushes fresh_driver\<rparr>)"
  by (simp add: gated_def example_world_def fresh_driver_def holdPushes_def fun_eq_iff)

theorem sync_always_ends_witness:
  "fst (passUnlocked example_tab ((example_world [(''a'', ''x'')] [])\<lparr>wd_driver := holdPushes fresh_driver\<rparr>)) \<noteq> Stuck \<and>
   fst (sync_push example_tab PLAIN_PUSH ''p'' \<lparr>snap_files = [(''a'', ''x'')]\<rparr> None (example_world [(''a'', ''x'')] [])) \<noteq> Stuck"
  using sync_always_ends [OF example_fair example_held, of "[(''a'', ''x'')]" "[]" "''p''" "''n''" None None PLAIN_PUSH "\<lparr>snap_files = []\<rparr>"
      None Retry]
    sync_always_ends [OF example_fair example_gated, of "[(''a'', ''x'')]" "[]" "''p''" "''n''" None None PLAIN_PUSH
      "\<lparr>snap_files = [(''a'', ''x'')]\<rparr>" None Retry] by blast

text \<open>The same push at a held gate waits for good: nothing in the tab lets it through.\<close>

lemma held_push_waits:
  "fst (sync_push example_tab PLAIN_PUSH ''p'' \<lparr>snap_files = [(''a'', ''x'')]\<rparr> None
     ((example_world [(''a'', ''x'')] [])\<lparr>wd_driver := holdPushes fresh_driver\<rparr>)) = Stuck"
  by code_simp

theorem sync_gives_back_gate_witness:
  "gated 0 (\<lambda>p. None) (snd (mergeWithServer example_tab ''p'' ''n'' None None (example_world [(''a'', ''x'')] []))) \<and>
   gated 0 (\<lambda>p. None) (snd (passUnlocked example_tab (example_world [(''a'', ''x'')] [])))"
  using sync_gives_back_gate [OF example_fair example_gated, of "[(''a'', ''x'')]" "[]" PLAIN_PUSH "''p''" "\<lparr>snap_files = []\<rparr>" None
      "''n''" None None Retry] by blast

end
