(* ===== verification/Project_Exchange_Correct.thy ===== *)
theory Project_Exchange_Correct
  imports Project_Runs
begin

text \<open>
  What a push, a merge and an answer do to the account and to the files: when a push sends nothing, in which order a merge
  writes, and when the user's own content is refused.
\<close>

section \<open>Actions that do not throw\<close>

named_theorems nothrow_rules \<open>actions that do not throw\<close>

definition nothrow :: "('s, 'e, 'a) act \<Rightarrow> bool" where
  "nothrow m \<longleftrightarrow> (\<forall>s e. fst (m s) \<noteq> Exn e)"

lemma nothrowE:
  assumes "nothrow m" and "total m"
  obtains x s' where "m s = (Val x, s')"
proof (cases "fst (m s)")
  case (Val x)
  then show thesis using that [of x "snd (m s)"] by (metis prod.collapse)
qed (use assms in \<open>auto simp: nothrow_def total_def\<close>)

lemma nothrow_bnd [nothrow_rules]:
  assumes "nothrow m" and "\<And>x. nothrow (f x)"
  shows "nothrow (bnd m f)"
  unfolding nothrow_def
proof (intro allI)
  fix s e
  obtain r s' where m: "m s = (r, s')" by fastforce
  then have "r \<noteq> Exn e" using assms(1) unfolding nothrow_def by (metis fst_conv)
  then show "fst (bnd m f s) \<noteq> Exn e" using m assms(2) by (cases r) (auto simp: bnd_def nothrow_def)
qed

lemma nothrow_seq [nothrow_rules]: "nothrow m \<Longrightarrow> nothrow k \<Longrightarrow> nothrow (seq m k)"
  unfolding seq_def by (rule nothrow_bnd)

lemma nothrow_catch [nothrow_rules]:
  assumes "\<And>e. nothrow (h e)"
  shows "nothrow (catch m h)"
  unfolding nothrow_def
proof (intro allI)
  fix s e
  obtain r s' where "m s = (r, s')" by fastforce
  then show "fst (catch m h s) \<noteq> Exn e" using assms by (cases r) (auto simp: catch_def nothrow_def)
qed

lemma nothrow_simple [nothrow_rules]:
  "nothrow (ret x)" "nothrow stuck" "nothrow (gets f)" "nothrow (on_device g)" "nothrow (device_do h)" "nothrow (driver_do i)"
  "nothrow (tell what)" "nothrow (locals_do j)" "nothrow (note_call c)" "nothrow (asks_host k)" "nothrow (available E)"
  by (auto simp: nothrow_def ret_def stuck_def gets_def on_device_def device_do_def driver_do_def tell_def locals_do_def
      note_call_def asks_host_def available_def modify_def split: prod.split option.split)

lemma nothrow_if [nothrow_rules]: "(b \<Longrightarrow> nothrow m) \<Longrightarrow> (\<not> b \<Longrightarrow> nothrow k) \<Longrightarrow> nothrow (if b then m else k)"
  by simp

lemma nothrow_only_if [nothrow_rules]: "(b \<Longrightarrow> nothrow m) \<Longrightarrow> nothrow (only_if b m)"
  by (simp add: only_if_def nothrow_simple)

lemma nothrow_option [nothrow_rules]: "nothrow m \<Longrightarrow> (\<And>x. nothrow (f x)) \<Longrightarrow> nothrow (case v of None \<Rightarrow> m | Some x \<Rightarrow> f x)"
  by (cases v) auto

lemma nothrow_Let [nothrow_rules]: "nothrow (f x) \<Longrightarrow> nothrow (Let x f)"
  by (simp add: Let_def)

lemma nothrow_each [nothrow_rules]: "(\<And>x. nothrow (f x)) \<Longrightarrow> nothrow (each f xs)"
  by (induction xs) (auto intro: nothrow_rules)

lemma nothrow_calls [nothrow_rules]:
  "nothrow (ready E)" "nothrow (capture_base E pid ps base given)" "nothrow (reportDisowned pid why)" "nothrow (tell_infos infos)"
  "nothrow (write_mark E pid k)" "nothrow (replace_base E pid bs)"
  unfolding ready_def capture_base_def reportDisowned_def tell_infos_def write_mark_def replace_base_def by (intro nothrow_rules)+

lemma nothrow_push [nothrow_rules]: "nothrow (push_once E merge again opts pid snap name)"
  unfolding push_once_def await_gate_def push_viewed_def push_decide_def push_send_def by (intro nothrow_rules)

lemma nothrow_sync_push [nothrow_rules]: "nothrow (sync_push E opts pid snap name)"
  unfolding sync_push_def push_with_def by (rule nothrow_push)

section \<open>A push that stands down\<close>

lemma seq_val: "m w = (Val x, w1) \<Longrightarrow> seq m k w = k w1"
  by (simp add: seq_def bnd_def)

lemma bnd_val: "m w = (Val x, w1) \<Longrightarrow> bnd m f w = f x w1"
  by (simp add: bnd_def)

lemma seq_thrown: "m w = (Exn e, w1) \<Longrightarrow> seq m k w = (Exn e, w1)"
  by (simp add: seq_def bnd_def)

lemma bnd_gets: "bnd (gets g) f w = f (g w) w"
  by (simp add: gets_def bnd_def)

lemma seq_locals: "seq (locals_do f) k w = k (w\<lparr>wd_merge := f (wd_merge w)\<rparr>)"
  by (simp add: locals_do_def modify_def seq_def bnd_def)

lemma ready_val: "\<exists>r w1. ready E w = (Val r, w1) \<and> wd_host w1 = wd_host w \<and> wd_calls w1 = wd_calls w \<and> wd_driver w1 = wd_driver w"
  by (auto simp: ready_def bnd_def gets_def available_def ret_def split: option.split prod.split)

text \<open>The driver's state a push decides in: after the wait at the gate, if it waits there, and after its other waits.\<close>

definition decided_in :: "('x, 'n) sync_env \<Rightarrow> push_options \<Rightarrow> driver \<Rightarrow> driver" where
  "decided_in E opts d = se_meanwhile E (if po_immediate opts then d else se_meanwhile E d)"

lemma gate_passed:
  fixes E :: "('x, 'n) sync_env" and w :: "('x, 'n) world"
  assumes "po_immediate opts \<or> dr_gateOpen (se_meanwhile E (wd_driver w))"
  shows "only_if (\<not> po_immediate opts) (await_gate E) w =
    (Val (), w\<lparr>wd_driver := if po_immediate opts then wd_driver w else se_meanwhile E (wd_driver w)\<rparr>)"
  using assms by (auto simp: only_if_def await_gate_def seq_def bnd_def driver_do_def modify_def gets_def ret_def)


text \<open>A push of the editor while a question about its project is up.\<close>

definition asked_world :: "files \<Rightarrow> response list \<Rightarrow> (files, response list) world" where
  "asked_world fs rs =
     (example_world fs rs)\<lparr>wd_driver := fresh_driver\<lparr>dr_conflicts := [(''p'', bare_conflict ''p'' NameTaken)]\<rparr>\<rparr>"


section \<open>The user's own content\<close>

lemma tell_infos_run: "\<exists>d. tell_infos infos w = (Val (), w\<lparr>wd_device := d\<rparr>)"
proof (induction infos arbitrary: w)
  case Nil
  show ?case by (rule exI [of _ "wd_device w"]) (simp add: tell_infos_def ret_def)
next
  case (Cons i infos)
  obtain d where "tell_infos infos (w\<lparr>wd_device := report (info_text i) (wd_device w)\<rparr>) =
      (Val (), w\<lparr>wd_device := report (info_text i) (wd_device w)\<rparr>\<lparr>wd_device := d\<rparr>)" using Cons.IH by blast
  then show ?case by (auto simp: tell_infos_def seq_def bnd_def tell_def device_do_def modify_def)
qed

lemma merge_plan_runs:
  "\<exists>mark plan d. merge_plan_of E pid pr asked p carried local server w =
     merge_decide E pid pr asked p mark (carried \<noteq> None) plan local server (w\<lparr>wd_device := d\<rparr>)"
proof -
  obtain d1 mark where m: "mark_read (se_parse E) pid (wd_device w) = (d1, mark)" by fastforce
  obtain d2 where c: "(case (mark, carried) of
      (Some m, None) \<Rightarrow> capture_base E pid
        (fd_changed (diffFiles (sm_files m) (hashFiles (se_sha E) \<lparr>snap_files = local\<rparr>))) (sm_files m) None
    | _ \<Rightarrow> ret ()) (w\<lparr>wd_device := d1\<rparr>) = (Val (), w\<lparr>wd_device := d2\<rparr>)"
    by (cases mark; cases carried) (auto simp: capture_base_def device_do_def modify_def ret_def)
  obtain d3 held where h: "base_read (se_parse E) pid d2 = (d3, held)" by fastforce
  let ?plan = "planMerge (se_parse E) (se_stringify E) (se_diff E) (merge_input_of E mark held local server)"
  obtain d4 where "tell_infos (mp_log ?plan) (w\<lparr>wd_device := d3\<rparr>) = (Val (), w\<lparr>wd_device := d4\<rparr>)"
    using tell_infos_run [of "mp_log ?plan" "w\<lparr>wd_device := d3\<rparr>"] by auto
  then have "merge_plan_of E pid pr asked p carried local server w =
      merge_decide E pid pr asked p mark (carried \<noteq> None) ?plan local server (w\<lparr>wd_device := d4\<rparr>)"
    using m c h by (simp add: merge_plan_of_def bnd_def seq_def on_device_def Let_def)
  then show ?thesis by blast
qed

lemma missed_pin_refuses:
  fixes E :: "('x, 'n) sync_env"
  assumes "\<not> pinsHold answer (hashFiles (se_sha E) \<lparr>snap_files = local\<rparr>) (hashFiles (se_sha E) \<lparr>snap_files = server\<rparr>)"
  shows "\<exists>w' c ps. merge_plan_of E pid (Some (Resolved answer)) asked p None local server w = (Val (Some MergeConflict), w') \<and>
    wd_calls w' = wd_calls w \<and> wd_host w' = wd_host w \<and> wd_net w' = wd_net w \<and>
    map_of (dr_conflicts (wd_driver w')) pid = Some c \<and> cf_kind c = Divergent \<and> cf_paths c = Some ps \<and>
    set (obj_keys answer) \<subseteq> set ps \<and> sorted ps"
proof -
  let ?lh = "hashFiles (se_sha E) \<lparr>snap_files = local\<rparr>" and ?sh = "hashFiles (se_sha E) \<lparr>snap_files = server\<rparr>"
  obtain mark plan d where run: "merge_plan_of E pid (Some (Resolved answer)) asked p None local server w =
      merge_decide E pid (Some (Resolved answer)) asked p mark False plan local server (w\<lparr>wd_device := d\<rparr>)"
    using merge_plan_runs [of E pid "Some (Resolved answer)" asked p None local server w] by auto
  let ?c = "refusedOf pid plan answer ?lh ?sh"
  let ?w' = "w\<lparr>wd_device := d, wd_driver := raise_conflict ?c (wd_driver w)\<rparr>"
  have done': "merge_plan_of E pid (Some (Resolved answer)) asked p None local server w = (Val (Some MergeConflict), ?w')"
    using assms by (simp add: run merge_decide_def Let_def pins_miss_def seq_def bnd_def driver_do_def modify_def ret_def)
  have id: "cf_projectId ?c = pid" "cf_kind ?c = Divergent" by (simp_all add: refusedOf_def Let_def)
  obtain c where c: "map_of (dr_conflicts (raise_conflict ?c (wd_driver w))) pid = Some c" "cf_kind c = Divergent"
      "cf_paths c = cf_paths ?c"
    using raise_conflict_up [of ?c "wd_driver w"] id by auto
  obtain ps where "cf_paths ?c = Some ps" "set (obj_keys answer) \<subseteq> set ps" "sorted ps"
    using set_refused_paths [of pid plan answer ?lh ?sh] by blast
  then show ?thesis using done' c by (intro exI [of _ ?w'] exI [of _ c] exI [of _ ps]) simp
qed

section \<open>The order of a merge's writes\<close>

named_theorems calls_rules \<open>what calls an action makes\<close>

definition calls_only :: "(sync_call \<Rightarrow> bool) \<Rightarrow> ('x, 'n, 'a) sync_act \<Rightarrow> bool" where
  "calls_only P m \<longleftrightarrow> (\<forall>w. \<exists>cs. wd_calls (snd (m w)) = wd_calls w @ cs \<and> list_all P cs)"

lemma calls_onlyE:
  assumes "calls_only P m" and "m w = (r, w')"
  obtains cs where "wd_calls w' = wd_calls w @ cs" "list_all P cs"
  using assms unfolding calls_only_def by (metis snd_conv)

lemma calls_bnd [calls_rules]:
  assumes "calls_only P m" and "\<And>x. calls_only P (f x)"
  shows "calls_only P (bnd m f)"
  unfolding calls_only_def
proof
  fix w
  obtain r w1 where m: "m w = (r, w1)" by fastforce
  obtain cs where cs: "wd_calls w1 = wd_calls w @ cs" "list_all P cs" using assms(1) m by (rule calls_onlyE)
  show "\<exists>cs. wd_calls (snd (bnd m f w)) = wd_calls w @ cs \<and> list_all P cs"
  proof (cases r)
    case (Val x)
    obtain r2 w2 where f: "f x w1 = (r2, w2)" by fastforce
    obtain ds where "wd_calls w2 = wd_calls w1 @ ds" "list_all P ds" using assms(2) f by (rule calls_onlyE)
    then show ?thesis using cs m Val f by (intro exI [of _ "cs @ ds"]) (simp add: bnd_def)
  qed (use cs m in \<open>auto simp: bnd_def\<close>)
qed

lemma calls_seq [calls_rules]: "calls_only P m \<Longrightarrow> calls_only P k \<Longrightarrow> calls_only P (seq m k)"
  unfolding seq_def by (rule calls_bnd)

lemma calls_catch [calls_rules]:
  assumes "calls_only P m" and "\<And>e. calls_only P (h e)"
  shows "calls_only P (catch m h)"
  unfolding calls_only_def
proof
  fix w
  obtain r w1 where m: "m w = (r, w1)" by fastforce
  obtain cs where cs: "wd_calls w1 = wd_calls w @ cs" "list_all P cs" using assms(1) m by (rule calls_onlyE)
  show "\<exists>cs. wd_calls (snd (catch m h w)) = wd_calls w @ cs \<and> list_all P cs"
  proof (cases r)
    case (Exn e)
    obtain r2 w2 where f: "h e w1 = (r2, w2)" by fastforce
    obtain ds where "wd_calls w2 = wd_calls w1 @ ds" "list_all P ds" using assms(2) f by (rule calls_onlyE)
    then show ?thesis using cs m Exn f by (intro exI [of _ "cs @ ds"]) (simp add: catch_def)
  qed (use cs m in \<open>auto simp: catch_def\<close>)
qed

lemma calls_simple [calls_rules]:
  "calls_only P (ret x)" "calls_only P (throw e)" "calls_only P stuck" "calls_only P (gets f)" "calls_only P (on_host g)"
  "calls_only P (asks_host h)" "calls_only P (on_net i)" "calls_only P (on_device j)" "calls_only P (device_do k)"
  "calls_only P (driver_do l)" "calls_only P (locals_do m)" "calls_only P (tell what)" "calls_only P (available E)"
  by (auto simp: calls_only_def ret_def throw_def stuck_def gets_def on_host_def asks_host_def on_net_def on_device_def device_do_def
      driver_do_def locals_do_def tell_def available_def modify_def split: prod.split option.split)

lemma calls_note [calls_rules]: "P c \<Longrightarrow> calls_only P (note_call c)"
  by (simp add: calls_only_def note_call_def modify_def)

lemma calls_if [calls_rules]: "(b \<Longrightarrow> calls_only P m) \<Longrightarrow> (\<not> b \<Longrightarrow> calls_only P k) \<Longrightarrow> calls_only P (if b then m else k)"
  by simp

lemma calls_only_if [calls_rules]: "(b \<Longrightarrow> calls_only P m) \<Longrightarrow> calls_only P (only_if b m)"
  by (simp add: only_if_def calls_simple)

lemma calls_option [calls_rules]:
  "calls_only P m \<Longrightarrow> (\<And>x. calls_only P (f x)) \<Longrightarrow> calls_only P (case v of None \<Rightarrow> m | Some x \<Rightarrow> f x)"
  by (cases v) auto

lemma calls_Let [calls_rules]: "calls_only P (f x) \<Longrightarrow> calls_only P (Let x f)"
  by (simp add: Let_def)

lemma calls_ready [calls_rules]: "calls_only P (ready E)" "calls_only P (capture_base E pid ps base given)"
    "calls_only P (reportDisowned pid why)" "calls_only P (renameToServer E pid local serverName)"
    "calls_only P (body_of rs)" "calls_only P (field_of j k)" "calls_only P (refusalKind rs)"
  unfolding ready_def capture_base_def reportDisowned_def renameToServer_def free_name_def body_of_def field_of_def refusalKind_def
  by (auto intro!: calls_rules split: reply_body.split)

text \<open>The calls an upload of these files may make: requests with them, and marks that say they were taken.\<close>

definition upload_call :: "('x, 'n) sync_env \<Rightarrow> string \<Rightarrow> files \<Rightarrow> sync_call \<Rightarrow> bool" where
  "upload_call E pid fs c \<longleftrightarrow>
     (case c of
        SentPut body \<Rightarrow> (\<exists>v. body = se_stringify E (push_json pid \<lparr>snap_files = fs\<rparr> v))
      | WroteMark i m \<Rightarrow> i = pid \<and> sm_files m = hashFiles (se_sha E) \<lparr>snap_files = fs\<rparr>
      | _ \<Rightarrow> False)"

lemma calls_write_mark [calls_rules]: "P (WroteMark pid m) \<Longrightarrow> calls_only P (write_mark E pid m)"
  unfolding write_mark_def by (intro calls_rules)

lemma calls_gets: "(\<And>w. calls_only P (f (g w))) \<Longrightarrow> calls_only P (bnd (gets g) f)"
  by (simp add: calls_only_def bnd_def gets_def)

lemma snapshot_eta [simp]: "\<lparr>snap_files = snap_files snap\<rparr> = snap"
  by simp

lemma calls_push_once:
  assumes "\<And>p l. calls_only (upload_call E pid (snap_files snap)) (merge p l)" and "calls_only (upload_call E pid (snap_files snap)) again"
  shows "calls_only (upload_call E pid (snap_files snap)) (push_once E merge again opts pid snap name)"
proof -
  let ?P = "upload_call E pid (snap_files snap)"
  have accepted: "calls_only ?P (push_accepted E pid snap v rs)" if "pv_hashes v = hashFiles (se_sha E) snap" for v rs
    unfolding push_accepted_def by (intro calls_rules) (simp add: upload_call_def accepted_mark_def that)
  have refused: "calls_only ?P (push_refused E merge opts pid rs)" for rs
    unfolding push_refused_def by (auto intro!: calls_rules assms split: option.split merge_outcome.split)
  have failed: "calls_only ?P (push_failed again pid v rs)" for v rs
    unfolding push_failed_def by (intro calls_rules assms)
  have "calls_only ?P (push_decide E merge again opts pid snap v)" if "pv_hashes v = hashFiles (se_sha E) snap" for v
    unfolding push_decide_def push_send_def
    by (intro calls_rules refused failed accepted [OF that]) (auto simp: upload_call_def)
  then have "calls_only ?P (push_viewed E merge again opts pid snap name mark)" for mark
    unfolding push_viewed_def by (intro calls_gets calls_rules) (simp add: view_push_def Let_def)
  then show ?thesis unfolding push_once_def await_gate_def by (intro calls_rules)
qed

lemma calls_push_merged: "calls_only (upload_call E pid merged) (push_merged E pid merged name)"
  using calls_push_once [of E pid "\<lparr>snap_files = merged\<rparr>" "\<lambda>p l. stuck"]
  unfolding push_merged_def push_with_def by (simp add: calls_simple)

lemma nothrow_rename [nothrow_rules]: "nothrow (renameToServer E pid local serverName)"
  unfolding renameToServer_def free_name_def by (intro nothrow_rules)

lemma silent_step:
  assumes "nothrow m" and "total m" and "calls_only (\<lambda>c. False) m"
  obtains x w1 where "m w = (Val x, w1)" and "wd_calls w1 = wd_calls w"
proof -
  obtain x w1 where m: "m w = (Val x, w1)" using assms(1,2) by (rule nothrowE)
  obtain cs where "wd_calls (snd (m w)) = wd_calls w @ cs" "list_all (\<lambda>c. False) cs"
    using assms(3) unfolding calls_only_def by blast
  then show thesis using m that by (cases cs) auto
qed

text \<open>The part of a merge after the local files: the mark, the base, the upload.\<close>

lemma merge_upload_calls:
  fixes E :: "('x, 'n) sync_env"
  shows "\<exists>up. wd_calls (snd (seq (write_mark E pid mk) (seq (replace_base E pid bs) (seq (driver_do (clear_conflict pid))
      (bnd (push_merged E pid merged name) (after_upload pid merged)))) w)) =
    wd_calls w @ [WroteMark pid mk, WroteBase pid] @ up \<and> list_all (upload_call E pid merged) up"
proof -
  obtain d ok where mk: "mark_write (se_stringify E) pid mk (wd_device w) = (d, ok)" by fastforce
  obtain d' where wm: "write_mark E pid mk w = (Val ok, w\<lparr>wd_calls := wd_calls w @ [WroteMark pid mk], wd_device := d'\<rparr>)"
    using mk that [of d] that [of "claim_drop pid d"]
    by (cases ok) (simp_all add: write_mark_def bnd_def seq_def on_device_def note_call_def only_if_def device_do_def modify_def ret_def)
  let ?w2 = "w\<lparr>wd_calls := wd_calls w @ [WroteMark pid mk, WroteBase pid],
      wd_device := base_replace (se_stringify E) pid (base_json bs) d', wd_driver := clear_conflict pid (wd_driver w)\<rparr>"
  have run: "seq (write_mark E pid mk) (seq (replace_base E pid bs) (seq (driver_do (clear_conflict pid))
      (bnd (push_merged E pid merged name) (after_upload pid merged)))) w =
      bnd (push_merged E pid merged name) (after_upload pid merged) ?w2"
    by (simp add: seq_def [of "write_mark E pid mk"] bnd_def [of "write_mark E pid mk"] wm replace_base_def seq_def bnd_def note_call_def
        device_do_def driver_do_def modify_def)
  have "calls_only (upload_call E pid merged) (after_upload pid merged r)" for r :: push_result
    unfolding after_upload_def by (intro calls_rules)
  then have "calls_only (upload_call E pid merged) (bnd (push_merged E pid merged name) (after_upload pid merged) :: ('x, 'n, _) sync_act)"
    by (intro calls_bnd calls_push_merged)
  then obtain up where "wd_calls (snd (bnd (push_merged E pid merged name) (after_upload pid merged) ?w2)) = wd_calls ?w2 @ up"
      "list_all (upload_call E pid merged) up" unfolding calls_only_def by blast
  then show ?thesis unfolding run by auto
qed


section \<open>An attempt with the user's own content\<close>

lemma calls_read: "calls_only P (sync_read E pid)"
  unfolding sync_read_def by (auto intro!: calls_rules split: option.split json.split)

lemma reads_keep_merge: "keeps (\<lambda>w. wd_merge w = l) (sync_read E pid)"
proof -
  have [keeps_rules]: "keeps (\<lambda>w. wd_merge w = l) (available E)" "keeps (\<lambda>w. wd_merge w = l) (on_net f)"
    "keeps (\<lambda>w. wd_merge w = l) (tell what)" "keeps (\<lambda>w. wd_merge w = l) (driver_do g)" for f g what
    by (auto simp: keeps_def available_def on_net_def tell_def device_do_def driver_do_def modify_def split: prod.split option.split)
  show ?thesis
    unfolding sync_read_def ready_def body_of_def field_of_def
    by (intro keeps_rules) (auto intro!: keeps_rules split: reply_body.split option.split)
qed

text \<open>
  C29: content the user wrote is applied only to the two copies it was written against. An attempt of a merge reads the account's
  copy and this device's files; when, for one of the files the content answers for, the hash it carries for either side is
  not that of the copy read (an absent file has no hash), the attempt writes and sends nothing, ends the merge unsettled, and asks
  again about every file of the answer. This holds until the content has been applied once; a later attempt of the
  same merge carries it as this device's files.
\<close>

theorem missed_pin_refuses_answer:
  fixes E :: "('x, 'n) sync_env"
  assumes read: "sync_read E pid w = (Val (ReadProject p), w1)" "isUsableSnapshot (sp_snapshot p)"
    and first: "ml_carried (wd_merge w) = None"
    and here: "hs_snapshot E (ml_name (wd_merge w)) (wd_host w1) = (Some local, x)" "local \<noteq> []"
    and entry: "(path, e) \<in> set answer"
    and moved: "rf_localHash e \<noteq> map_option (se_sha E) (map_of local path) \<or>
      rf_serverHash e \<noteq> map_option (se_sha E) (map_of (snapshot_files (sp_snapshot p)) path)"
  shows "\<exists>w' c ps. merge_attempt E pid (Some (Resolved answer)) asked w = (Val (Some MergeConflict), w') \<and>
    wd_calls w' = wd_calls w \<and> wd_host w' = x \<and>
    map_of (dr_conflicts (wd_driver w')) pid = Some c \<and> cf_kind c = Divergent \<and> cf_paths c = Some ps \<and>
    set (obj_keys answer) \<subseteq> set ps \<and> sorted ps"
proof -
  let ?server = "snapshot_files (sp_snapshot p)"
  have "\<not> pinsHold answer (hashFiles (se_sha E) \<lparr>snap_files = local\<rparr>) (hashFiles (se_sha E) \<lparr>snap_files = ?server\<rparr>)"
    using entry moved by (force simp: pinsHold_def list_all_iff map_of_hashFiles)
  moreover have m: "wd_merge w1 = wd_merge w"
    using reads_keep_merge [of "wd_merge w" E pid] read(1) unfolding keeps_def by (metis snd_conv)
  moreover obtain cs where "wd_calls w1 = wd_calls w @ cs" "list_all (\<lambda>c. False) cs"
    using calls_read read(1) by (rule calls_onlyE)
  then have "wd_calls w1 = wd_calls w" by (cases cs) auto
  moreover have "merge_attempt E pid (Some (Resolved answer)) asked w =
      merge_plan_of E pid (Some (Resolved answer)) asked p None local ?server
        (w1\<lparr>wd_host := x, wd_merge := (wd_merge w)\<lparr>ml_first := (case ml_first (wd_merge w) of None \<Rightarrow> Some local | Some f \<Rightarrow> Some f)\<rparr>\<rparr>)"
    unfolding merge_attempt_def bnd_val [of "sync_read E pid" w "ReadProject p" w1, OF read(1)]
    using read(2) first here m
    by (simp add: bnd_gets bnd_val [of "on_host (hs_snapshot E (ml_name (wd_merge w)))" w1 local "w1\<lparr>wd_host := x\<rparr>"] on_host_def seq_locals)
  ultimately show ?thesis
    using missed_pin_refuses [of answer E local ?server pid asked p
        "w1\<lparr>wd_host := x, wd_merge := (wd_merge w)\<lparr>ml_first := (case ml_first (wd_merge w) of None \<Rightarrow> Some local | Some f \<Rightarrow> Some f)\<rparr>\<rparr>"]
    by auto
qed

text \<open>Content written against the account's \<open>s\<close>, which has become \<open>t\<close>.\<close>

definition example_answer :: "resolved_file js_obj" where
  "example_answer = [(''a'', \<lparr>rf_content = Some ''z'', rf_localHash = Some ''x'', rf_serverHash = Some ''s''\<rparr>)]"

definition example_row :: response where
  "example_row = \<lparr>rs_status = 200, rs_body = JsonBody (JObj [(''project'', JObj [(''id'', JStr ''p''), (''name'', JStr ''n''),
     (''updatedAt'', JStr ''1''), (''snapshot'', JObj [(''files'', JObj [(''a'', JStr ''t'')])])])])\<rparr>"

theorem missed_pin_refuses_answer_witness:
  "\<exists>w' c ps. merge_attempt example_tab ''p'' (Some (Resolved example_answer)) None ((example_world [(''a'', ''x'')] [example_row])
        \<lparr>wd_merge := \<lparr>ml_name = ''n'', ml_first = None, ml_written = None, ml_carried = None\<rparr>\<rparr>) = (Val (Some MergeConflict), w') \<and>
     wd_calls w' = [] \<and> map_of (dr_conflicts (wd_driver w')) ''p'' = Some c \<and> cf_paths c = Some ps \<and> ''a'' \<in> set ps"
proof -
  let ?w = "(example_world [(''a'', ''x'')] [example_row])\<lparr>wd_merge := \<lparr>ml_name = ''n'', ml_first = None, ml_written = None, ml_carried = None\<rparr>\<rparr>"
  let ?p = "\<lparr>sp_id = ''p'', sp_name = ''n'', sp_updatedAt = ''1'', sp_snapshot = Some (JObj [(''files'', JObj [(''a'', JStr ''t'')])])\<rparr>"
  have r: "fst (sync_read example_tab ''p'' ?w) = Val (ReadProject ?p)" "wd_host (snd (sync_read example_tab ''p'' ?w)) = [(''a'', ''x'')]"
    by code_simp+
  then have read: "sync_read example_tab ''p'' ?w = (Val (ReadProject ?p), snd (sync_read example_tab ''p'' ?w))"
    by (simp add: prod_eq_iff)
  have usable: "isUsableSnapshot (sp_snapshot ?p)" by code_simp
  have first: "ml_carried (wd_merge ?w) = None" by simp
  have here: "hs_snapshot example_tab (ml_name (wd_merge ?w)) (wd_host (snd (sync_read example_tab ''p'' ?w))) = (Some [(''a'', ''x'')], [(''a'', ''x'')])"
    by (simp only: r(2)) (simp add: example_tab_def)
  have entry: "(''a'', \<lparr>rf_content = Some ''z'', rf_localHash = Some ''x'', rf_serverHash = Some ''s''\<rparr>) \<in> set example_answer"
    by (simp add: example_answer_def)
  have files: "snapshot_files (sp_snapshot ?p) = [(''a'', ''t'')]" by code_simp
  have moved: "Some ''s'' \<noteq> map_option (se_sha example_tab) (map_of (snapshot_files (sp_snapshot ?p)) ''a'')"
    unfolding files by (simp add: example_tab_def)
  have "''a'' \<in> set (obj_keys example_answer)" "wd_calls ?w = []"
    by (simp_all add: example_answer_def obj_keys_def example_world_def)
  moreover note missed_pin_refuses_answer [of example_tab "''p''" ?w ?p, OF read usable first here _ entry, where asked = None]
  ultimately show ?thesis using moved by fastforce
qed

end
