(* ===== verification/Project_Restore_Correct.thy ===== *)
theory Project_Restore_Correct
  imports Project_Exchange_Correct
begin

text \<open>
  Passes and sign-out: every call of \<^verbatim>\<open>reconcile\<close> is answered by exactly the next pass to start, a pass that cannot read the
  account's list decides nothing, and signing out removes only workspaces whose files are the ones this device and the account
  last agreed on.
\<close>

section \<open>One pass at a time\<close>

datatype co_event = Call nat | PassEnd

fun co_step :: "coalesce \<Rightarrow> co_event \<Rightarrow> coalesce" where
  "co_step s (Call c) = co_reconcile c s"
| "co_step s PassEnd = co_settle s"

definition co_ok :: "coalesce \<Rightarrow> bool" where
  "co_ok s \<longleftrightarrow>
     (case co_running s of None \<Rightarrow> co_queued s = None | Some (n, cs) \<Rightarrow> co_started s = Suc n)"

lemmas co_defs = co_reconcile_def co_settle_def co_start_def Let_def

interpretation passes: machine co_idle co_step co_ok
proof unfold_locales
  show "co_ok co_idle" by (simp add: co_ok_def co_idle_def)
next
  fix s e assume "co_ok s"
  then show "co_ok (co_step s e)" by (cases e) (auto simp: co_ok_def co_defs split: option.splits)
qed

definition ends_in :: "co_event list \<Rightarrow> nat" where
  "ends_in es = length (filter (\<lambda>e. e = PassEnd) es)"

definition answers_of :: "nat \<Rightarrow> coalesce \<Rightarrow> nat list" where
  "answers_of c s = map snd (filter (\<lambda>a. fst a = c) (co_answers s))"

text \<open>The life of a call: waiting for the next pass, waiting for the one that runs, answered.\<close>

definition co_waits :: "nat \<Rightarrow> nat \<Rightarrow> coalesce \<Rightarrow> bool" where
  "co_waits c n s \<longleftrightarrow>
     answers_of c s = [] \<and> (\<exists>cs qs. co_running s = Some (n, cs) \<and> filter ((=) c) cs = [] \<and> co_started s = Suc n \<and>
       co_queued s = Some qs \<and> filter ((=) c) qs = [c])"

definition co_runs :: "nat \<Rightarrow> nat \<Rightarrow> coalesce \<Rightarrow> bool" where
  "co_runs c n s \<longleftrightarrow>
     answers_of c s = [] \<and> (\<exists>cs. co_running s = Some (n, cs) \<and> filter ((=) c) cs = [c]) \<and>
     (case co_queued s of None \<Rightarrow> True | Some qs \<Rightarrow> filter ((=) c) qs = [])"

definition co_absent :: "nat \<Rightarrow> coalesce \<Rightarrow> bool" where
  "co_absent c s \<longleftrightarrow>
     (case co_running s of None \<Rightarrow> True | Some (n, cs) \<Rightarrow> filter ((=) c) cs = []) \<and>
     (case co_queued s of None \<Rightarrow> True | Some qs \<Rightarrow> filter ((=) c) qs = [])"

lemma answered_pairs:
  "filter (\<lambda>a. fst a = c) (map (\<lambda>d. (d, n)) cs) = map (\<lambda>d. (d, n)) (filter ((=) c) cs)"
  by (induction cs) auto

lemma absent_step:
  assumes "co_absent c s" and "e \<noteq> Call c"
  shows "co_absent c (co_step s e) \<and> answers_of c (co_step s e) = answers_of c s"
  using assms by (cases e) (auto simp: co_absent_def co_defs answers_of_def answered_pairs split: option.splits)

lemma runs_step:
  assumes "co_runs c n s" and "e \<noteq> Call c"
  shows "if e = PassEnd then co_absent c (co_step s e) \<and> answers_of c (co_step s e) = [n] else co_runs c n (co_step s e)"
  using assms
  by (cases e) (auto simp: co_absent_def co_runs_def co_defs answers_of_def answered_pairs split: option.splits)

lemma waits_step:
  assumes "co_waits c n s" and "e \<noteq> Call c"
  shows "if e = PassEnd then co_runs c (Suc n) (co_step s e) else co_waits c n (co_step s e)"
  using assms by (cases e) (auto simp: co_waits_def co_runs_def co_defs answers_of_def answered_pairs)

lemma ends_in_simps [simp]: "ends_in [] = 0" "ends_in (e # es) = (if e = PassEnd then Suc (ends_in es) else ends_in es)"
  by (simp_all add: ends_in_def)

lemma absent_run: "co_absent c s \<Longrightarrow> Call c \<notin> set es \<Longrightarrow> answers_of c (foldl co_step s es) = answers_of c s \<and> co_absent c (foldl co_step s es)"
proof (induction es arbitrary: s)
  case (Cons e es)
  then show ?case using absent_step [OF Cons.prems(1), of e] by auto
qed simp

lemma runs_run:
  "co_runs c n s \<Longrightarrow> Call c \<notin> set es \<Longrightarrow> answers_of c (foldl co_step s es) = (if 1 \<le> ends_in es then [n] else [])"
proof (induction es arbitrary: s)
  case Nil
  then show ?case by (simp add: co_runs_def)
next
  case (Cons e es)
  then show ?case using runs_step [OF Cons.prems(1), of e] absent_run [of c "co_step s e" es] by (auto split: if_splits)
qed

lemma waits_run:
  "co_waits c n s \<Longrightarrow> Call c \<notin> set es \<Longrightarrow> answers_of c (foldl co_step s es) = (if 2 \<le> ends_in es then [Suc n] else [])"
proof (induction es arbitrary: s)
  case Nil
  then show ?case by (simp add: co_waits_def)
next
  case (Cons e es)
  then show ?case using waits_step [OF Cons.prems(1), of e] runs_run [of c "Suc n" "co_step s e" es] by (auto split: if_splits)
qed

text \<open>
  C28: a call of \<open>reconcile\<close> is answered once, by exactly the first pass that starts no earlier than the call: never by the pass already
  running, which may have begun before what the caller asks about. It is answered as soon as that pass ends, which is the next
  end if nothing ran when it was made and the second one otherwise, whatever other calls come before or after.
\<close>

theorem reconcile_call_gets_next_pass:
  assumes "Call c \<notin> set earlier" and "Call c \<notin> set later"
  defines "s \<equiv> foldl co_step co_idle earlier"
  shows "answers_of c (foldl co_step co_idle (earlier @ Call c # later)) =
    (if (if co_running s = None then 1 else 2) \<le> ends_in later then [co_started s] else [])"
proof -
  have ok: "co_ok s" unfolding s_def by (rule passes.inv_run)
  have "co_absent c co_idle" by (simp add: co_absent_def co_idle_def)
  then have s: "answers_of c s = []" "co_absent c s"
    using absent_run [of c co_idle earlier] assms(1) by (simp_all add: s_def answers_of_def co_idle_def)
  show ?thesis
  proof (cases "co_running s")
    case None
    then have "co_runs c (co_started s) (co_step s (Call c))"
      using s ok by (simp add: co_runs_def co_defs answers_of_def co_ok_def)
    then show ?thesis using runs_run [OF _ assms(2)] None by (simp add: s_def)
  next
    case (Some p)
    obtain n cs where p: "p = (n, cs)" by (cases p)
    then have "co_waits c n (co_step s (Call c))"
      using s ok Some by (auto simp: co_waits_def co_defs answers_of_def co_ok_def co_absent_def split: option.splits)
    moreover have "co_started s = Suc n" using ok Some p by (simp add: co_ok_def)
    ultimately show ?thesis using waits_run [OF _ assms(2)] Some by (simp add: s_def)
  qed
qed

theorem reconcile_call_gets_next_pass_witness:
  "answers_of 7 (foldl co_step co_idle [Call 1, Call 7, Call 2, PassEnd, Call 3, PassEnd]) = [1] \<and>
   answers_of 7 (foldl co_step co_idle [Call 1, Call 7, PassEnd]) = []"
  using reconcile_call_gets_next_pass [of 7 "[Call 1]" "[Call 2, PassEnd, Call 3, PassEnd]"]
    reconcile_call_gets_next_pass [of 7 "[Call 1]" "[PassEnd]"]
  by (simp add: co_reconcile_def co_start_def co_idle_def)

section \<open>A list that cannot be read\<close>

text \<open>A device but for its failure reports.\<close>

definition unreported :: "device \<Rightarrow> device" where
  "unreported d = d\<lparr>dv_reports := []\<rparr>"

lemma unreported_report [simp]: "unreported (report what d) = unreported d"
  by (simp add: unreported_def report_def Let_def)

lemma unreported_unless_missing [simp]: "unreported (unless_missing e what d) = unreported d"
  by (cases e) (simp_all add: unless_missing_def)

definition readable_list :: "response option \<Rightarrow> bool" where
  "readable_list r \<longleftrightarrow>
     (case r of
        None \<Rightarrow> False
      | Some rs \<Rightarrow> is_ok rs \<and>
          (case rs_body rs of JsonBody j \<Rightarrow> (\<exists>ps. json_field j ''projects'' = Some (JArr ps)) | _ \<Rightarrow> False))"

definition untouched :: "('x, 'n) world \<Rightarrow> ('x, 'n) world \<Rightarrow> bool" where
  "untouched v w \<longleftrightarrow>
     wd_host w = wd_host v \<and> unreported (wd_device w) = unreported (wd_device v) \<and> wd_driver w = wd_driver v \<and>
     wd_calls w = wd_calls v \<and> wd_listed w = wd_listed v \<and> wd_result w = wd_result v"

lemma untouched_simple [keeps_rules]:
  "keeps (untouched v) (tell what)" "keeps (untouched v) (available E)" "keeps (untouched v) (on_net h)"
  by (auto simp: keeps_def untouched_def tell_def available_def on_net_def device_do_def modify_def split: prod.split option.split)

lemma untouched_ready [keeps_rules]: "keeps (untouched v) (ready E)"
  unfolding ready_def by (intro keeps_rules)

lemma untouched_list: "keeps (untouched v) (sync_list E)"
  unfolding sync_list_def body_of_def
  by (intro keeps_rules) (auto intro!: keeps_rules split: reply_body.split option.split json.split)

lemma gives_unreadable:
  assumes "\<And>n. \<not> readable_list (fst (nt_list E n))"
  shows "gives (untouched v) (sync_list E) (\<lambda>ps. ps = None)"
proof -
  let ?get = "\<lambda>rs. if \<not> is_ok rs then seq (tell (''list projects: HTTP '' @ js_nat (rs_status rs))) (ret None)
      else bnd (body_of rs) (\<lambda>j. case json_field j ''projects'' of
          Some (JArr ps) \<Rightarrow> ret (Some (map trimmedName ps))
        | _ \<Rightarrow> seq (tell ''list projects: malformed'') (ret None))"
  have get: "ps = None" if "\<not> readable_list (Some rs)" "?get rs w = (Val ps, w')" for rs ps w w'
    using that by (cases "rs_body rs")
      (auto simp: readable_list_def body_of_def tell_def device_do_def act_defs split: if_splits option.splits json.splits)
  have "ps = None" if "bnd (on_net (nt_list E)) ?get w = (Val ps, w')" for ps w w'
  proof -
    obtain r n where r: "nt_list E (wd_net w) = (r, n)" by fastforce
    then show ?thesis using assms [of "wd_net w"] that get by (cases r) (auto simp: on_net_def bnd_def)
  qed
  then show ?thesis
    unfolding gives_def sync_list_def
    by (auto simp: bnd_def [of "ready E"] catch_def seq_def tell_def device_do_def modify_def ret_def bnd_def [of "modify _"]
        split: prod.splits res.splits if_splits)
qed

lemma nothrow_sync_list: "nothrow (sync_list E)"
  unfolding sync_list_def by (intro nothrow_rules)

lemma seq_assoc: "seq (seq a b) c = seq a (seq b c)"
  by (rule ext) (simp add: seq_def bnd_def split: prod.split res.split)

text \<open>
  C24: not knowing what the account holds is not the same as it holding nothing. While the list of projects cannot be read (the request
  is rejected, answered with an error, or malformed), a pass changes nothing: beyond re-reading the open workspace it leaves every
  workspace, file, mark and question as it was, uploads nothing, and reports that it did nothing.
\<close>

theorem unreadable_list_decides_nothing:
  fixes E :: "('x, 'n) sync_env"
  assumes "\<And>n. \<not> readable_list (fst (nt_list E n))"
  shows "\<exists>w'. passUnlocked E w = (Val EMPTY_RESULT, w') \<and>
    untouched (w\<lparr>wd_host := snd (hs_reload E (wd_host w)), wd_result := EMPTY_RESULT\<rparr>) w'"
proof -
  let ?v = "w\<lparr>wd_host := snd (hs_reload E (wd_host w)), wd_result := EMPTY_RESULT\<rparr>"
  let ?body = "\<lambda>server. case server of None \<Rightarrow> ret ()
      | Some ps \<Rightarrow>
          (let serverIds = map sp_id ps
           in seq (modify (\<lambda>w. w\<lparr>wd_listed := list_state (length ps)\<rparr>))
             (seq (each (reconcile_project E) (newest_first ps))
               (seq (settleDeletes E serverIds) (seq (settleSteppedNames E ps) (pushNeverSynced E serverIds)))))"
  let ?rest = "bnd (ready E) (\<lambda>r. if \<not> r then ret () else bnd (sync_list E) ?body)"
  obtain u w1 where start: "seq (result_do (\<lambda>r. EMPTY_RESULT)) (catch (on_host (hs_reload E)) (\<lambda>e. tell ''reload before reconcile'')) w
      = (Val u, w1)" and v: "untouched ?v w1"
    by (cases "hs_reload E (wd_host w)"; cases "fst (hs_reload E (wd_host w))")
      (auto simp: seq_def bnd_def catch_def result_do_def on_host_def tell_def device_do_def modify_def untouched_def)
  have listed: "keeps (untouched ?v) (bnd (sync_list E) ?body)"
    by (rule keeps_bnd_gives [OF untouched_list gives_unreadable [OF assms]]) (simp add: keeps_simple)
  have "keeps (untouched ?v) ?rest" by (intro keeps_rules listed)
  then have kept: "untouched ?v (snd (?rest w1))" using v by (rule keepsD)
  have "fst (?rest w1) = Val ()"
  proof -
    obtain r w2 where r: "ready E w1 = (Val r, w2)"
      by (rule nothrowE [OF nothrow_calls(1) total_ready])
    show ?thesis
    proof (cases r)
      case True
      obtain ps w3 where l: "sync_list E w2 = (Val ps, w3)"
        using nothrowE [OF nothrow_sync_list total_read(1)] by blast
      have "untouched ?v w2" using keepsD [OF untouched_ready v, of E] r by simp
      then have "ps = None" using gives_unreadable [OF assms, of ?v] l unfolding gives_def by blast
      then show ?thesis using r l True by (simp add: bnd_def ret_def)
    qed (use r in \<open>simp add: bnd_def ret_def\<close>)
  qed
  then have "?rest w1 = (Val (), snd (?rest w1))" by (simp add: prod_eq_iff)
  moreover have "passUnlocked E w = seq ?rest (gets wd_result) w1"
    unfolding passUnlocked_def seq_assoc [symmetric, of "result_do _" "catch _ _"] by (rule seq_val) (rule start)
  ultimately show ?thesis using kept by (simp add: seq_val gets_def untouched_def)
qed

theorem unreadable_list_decides_nothing_witness:
  "\<exists>w'. passUnlocked (example_tab\<lparr>nt_list := \<lambda>n. (Some \<lparr>rs_status = 500, rs_body = NotJson\<rparr>, n)\<rparr>)
      (example_world [(''a'', ''x'')] []) = (Val EMPTY_RESULT, w')"
  using unreadable_list_decides_nothing [of "example_tab\<lparr>nt_list := \<lambda>n. (Some \<lparr>rs_status = 500, rs_body = NotJson\<rparr>, n)\<rparr>"
      "example_world [(''a'', ''x'')] []"]
  by (auto simp: readable_list_def is_ok_def)

section \<open>Signing out\<close>

lemma mark_read_unreported: "unreported d = unreported d' \<Longrightarrow> snd (mark_read parse pid d) = snd (mark_read parse pid d')"
proof -
  assume "unreported d = unreported d'"
  then have "dv_user d = dv_user d'" "dv_files d = dv_files d'" "dv_faulty d = dv_faulty d'"
    by (cases d; cases d'; simp add: unreported_def)+
  then show ?thesis
    by (simp add: mark_read_def currentUserId_def readToString_def split: option.split sum.split)
qed

lemma mark_read_reports [simp]: "unreported (fst (mark_read parse pid d)) = unreported d"
  by (simp add: mark_read_def split: option.split sum.split)

text \<open>
  A workspace that signing out may remove: this device holds a mark for its project, the mark calls it by its present name, and
  at every path of a user file the workspace holds exactly what the mark says was agreed, or nothing if nothing was.
\<close>

definition removable :: "('x, 'n) sync_env \<Rightarrow> device \<Rightarrow> string \<Rightarrow> 'x \<Rightarrow> bool" where
  "removable E d name x \<longleftrightarrow>
     (\<exists>pid fs. hs_idOf E x name = Some pid \<and> pid \<noteq> [] \<and> fst (hs_snapshot E name x) = Some fs \<and>
        (\<exists>m. snd (mark_read (se_parse E) pid d) = Some m \<and>
           (sm_localName m = Some name \<or> sm_localName m = None \<and> sm_name m = name) \<and>
           (\<forall>p. isUserFile p \<longrightarrow> map_of (sm_files m) p = map_option (se_sha E) (map_of fs p))))"

text \<open>The marks and the copies of workspaces are objects, which hold no path twice.\<close>

definition objects_here :: "('x, 'n) sync_env \<Rightarrow> device \<Rightarrow> bool" where
  "objects_here E d \<longleftrightarrow>
     (\<forall>name x fs. fst (hs_snapshot E name x) = Some fs \<longrightarrow> obj_ok fs) \<and>
     (\<forall>pid m. snd (mark_read (se_parse E) pid d) = Some m \<longrightarrow> obj_ok (sm_files m))"

lemma clean_removable:
  assumes "objects_here E d" and "hs_idOf E x name = Some pid" and "pid \<noteq> []" and "fst (hs_snapshot E name x) = Some fs"
    and "isCleanAgainst (se_sha E) (snd (mark_read (se_parse E) pid d)) name fs"
  shows "removable E d name x"
proof -
  obtain m where m: "snd (mark_read (se_parse E) pid d) = Some m"
      "(case sm_localName m of Some n \<Rightarrow> n | None \<Rightarrow> sm_name m) = name"
      "sameUserFiles (sm_files m) (hashFiles (se_sha E) \<lparr>snap_files = fs\<rparr>)"
    using assms(5) by (auto simp: isCleanAgainst_def split: option.splits)
  have ok: "obj_ok (sm_files m)" "obj_ok (hashFiles (se_sha E) \<lparr>snap_files = fs\<rparr>)"
    using assms(1,4) m(1) obj_keys_hashFiles [of "se_sha E" "\<lparr>snap_files = fs\<rparr>"]
    unfolding objects_here_def obj_keys_def by auto
  show ?thesis
    using assms(2-4) m(1,2) sameUserFiles_iff [OF ok] m(3) unfolding removable_def
    by (auto simp: map_of_hashFiles split: option.splits)
qed

definition released :: "('x \<Rightarrow> bool) \<Rightarrow> device \<Rightarrow> ('x, 'n) world \<Rightarrow> bool" where
  "released Q d w \<longleftrightarrow> Q (wd_host w) \<and> unreported (wd_device w) = unreported d"

lemma released_project:
  fixes E :: "('x, 'n) sync_env"
  assumes objects: "objects_here E d" and "\<And>x. Q x \<Longrightarrow> Q (snd (hs_snapshot E name x))"
    and "\<And>x. Q x \<Longrightarrow> removable E d name x \<Longrightarrow> Q (snd (hs_delete E name (snd (hs_snapshot E name x))))"
  shows "keeps (released Q d) (release_project E name)"
proof -
  have told: "keeps (released Q d) (tell what :: ('x, 'n, unit) sync_act)" for what
    by (simp add: keeps_def released_def tell_def device_do_def modify_def)
  have "keeps (released Q d) (bnd (gets (\<lambda>w. hs_idOf E (wd_host w) name)) (\<lambda>i.
         if i = None \<or> i = Some [] then ret False
         else bnd (isClean E (the i) name) (\<lambda>clean.
           if \<not> clean then ret False else seq (on_host (hs_delete E name)) (ret True))))" (is "keeps _ ?m")
    unfolding keeps_def
  proof (intro allI impI)
    fix w :: "('x, 'n) world"
    assume rel: "released Q d w"
    show "released Q d (snd (?m w))"
    proof (cases "hs_idOf E (wd_host w) name")
      case None
      then show ?thesis using rel by (simp add: bnd_gets ret_def)
    next
      case (Some pid)
      obtain d1 mark where mark: "mark_read (se_parse E) pid (wd_device w) = (d1, mark)" by fastforce
      obtain r x where snap: "hs_snapshot E name (wd_host w) = (r, x)" by fastforce
      have d1: "unreported d1 = unreported d" using mark_read_reports [of "se_parse E" pid "wd_device w"] mark rel by (simp add: released_def)
      have x: "Q x" using assms(2) [of "wd_host w"] snap rel by (simp add: released_def)
      have "Q (snd (hs_delete E name x))" if "r = Some fs" "isCleanAgainst (se_sha E) mark name fs" "pid \<noteq> []" for fs
      proof -
        have "snd (mark_read (se_parse E) pid d) = mark"
          using mark_read_unreported [of d "wd_device w" "se_parse E" pid] mark rel by (simp add: released_def)
        then have "removable E d name (wd_host w)"
          using that Some snap by (intro clean_removable [OF objects]) auto
        then show ?thesis using assms(3) [of "wd_host w"] snap rel by (simp add: released_def)
      qed
      moreover obtain y z where "hs_delete E name x = (y, z)" by fastforce
      ultimately show ?thesis
        using rel Some d1 x mark snap
        by (cases r; cases y)
          (auto simp: gets_def isClean_def bnd_def seq_def on_device_def on_host_def ret_def released_def)
    qed
  qed
  then show ?thesis unfolding release_project_def by (rule keeps_catch) (intro keeps_rules told)
qed

lemma signing_out_simple:
  "keeps (\<lambda>w. dr_signingOut (wd_driver w) = n) (on_host f)" "keeps (\<lambda>w. dr_signingOut (wd_driver w) = n) (on_device g)"
  "keeps (\<lambda>w. dr_signingOut (wd_driver w) = n) (tell what)"
  by (auto simp: keeps_def on_host_def on_device_def tell_def device_do_def modify_def split: prod.split)

lemma keeps_signing_out: "keeps (\<lambda>w. dr_signingOut (wd_driver w) = n) (release_project E name)"
  unfolding release_project_def isClean_def by (intro keeps_rules signing_out_simple)

text \<open>
  C21: signing out gives the browser back without losing what the user wrote. A workspace is deleted only when the mark this device
  holds for its project, under its present name, has at every path of a user file exactly the hash of the file the workspace
  holds there at that moment, and no hash where it holds none; so any fact about the workspaces that survives reading them and deleting such
  ones still holds afterwards. Generated files, the program keypair among them, are not compared. The marks
  stay, no matter what fails, and so does the count of sign-outs in progress. Marks and copies hold no path twice.
\<close>

theorem sign_out_deletes_only_agreed:
  fixes E :: "('x, 'n) sync_env"
  assumes objects: "objects_here E (wd_device w)" and "Q (wd_host w)" and "\<And>name x. Q x \<Longrightarrow> Q (snd (hs_snapshot E name x))"
    and "\<And>name x. Q x \<Longrightarrow> removable E (wd_device w) name x \<Longrightarrow> Q (snd (hs_delete E name (snd (hs_snapshot E name x))))"
  shows "Q (wd_host (snd (releaseLocalProjects E w))) \<and>
    unreported (wd_device (snd (releaseLocalProjects E w))) = unreported (wd_device w) \<and>
    dr_signingOut (wd_driver (snd (releaseLocalProjects E w))) = dr_signingOut (wd_driver w)"
proof -
  let ?P = "\<lambda>n w'. released Q (wd_device w) w' \<and> dr_signingOut (wd_driver w') = n"
  have one: "keeps (?P n) (release_project E name)" for n name
    using released_project [OF objects, of Q name] assms(3,4) keeps_signing_out [where E = E and name = name and n = n]
    unfolding keeps_def by blast
  have "takes (?P (dr_signingOut (wd_driver w))) (releaseLocalProjects E) (?P (dr_signingOut (wd_driver w)))"
    unfolding releaseLocalProjects_def whileSigningOut_def
    by (intro takes_driver [where Q = "?P (Suc (dr_signingOut (wd_driver w)))"] takes_lastly [where Q = "?P (Suc (dr_signingOut (wd_driver w)))"]
        takes_driver_last keeps_takes [THEN iffD1] keeps_rules one) (auto simp: released_def)
  then show ?thesis using assms(2) unfolding takes_def by (simp add: released_def)
qed

text \<open>A workspace whose mark has another hash for one of its files is still there after signing out.\<close>

definition marked_tab :: "(files, response list) sync_env" where
  "marked_tab = example_tab\<lparr>se_parse := \<lambda>s. Some (JObj [(''files'', JObj [(''a'', JStr ''y'')]), (''name'', JStr ''n''),
     (''updatedAt'', JStr ''1''), (''dirty'', JBool False)]), hs_snapshot := \<lambda>n x. (Some [(''a'', ''x'')], x)\<rparr>"

definition marked_world :: "(files, response list) world" where
  "marked_world = (example_world [(''a'', ''x'')] [])
     \<lparr>wd_device := \<lparr>dv_files = [(fileOf MARK_ROOT ''u'' ''p'', ''{}'')], dv_faulty = [], dv_user = Some ''u'', dv_shadow = None,
        dv_reports = []\<rparr>\<rparr>"

lemma marked_reads:
  "snd (mark_read (se_parse marked_tab) ''p'' (wd_device marked_world)) =
     Some \<lparr>sm_files = [(''a'', ''y'')], sm_name = ''n'', sm_localName = None, sm_updatedAt = ''1'', sm_dirty = False\<rparr>"
  by code_simp

lemma marked_objects: "objects_here marked_tab (wd_device marked_world)"
proof -
  have "obj_ok (sm_files m)" if "snd (mark_read (se_parse marked_tab) pid d) = Some m" for pid d m
    using that
    by (auto simp: mark_read_def marked_tab_def as_sync_mark_def as_obj_def as_str_def json_field_def hashes_of_def
        split: option.splits sum.splits if_splits)
  then show ?thesis by (auto simp: objects_here_def marked_tab_def)
qed

lemma marked_not_removable: "\<not> removable marked_tab (wd_device marked_world) name x"
proof
  assume "removable marked_tab (wd_device marked_world) name x"
  then obtain pid fs m where r: "hs_idOf marked_tab x name = Some pid" "fst (hs_snapshot marked_tab name x) = Some fs"
      "snd (mark_read (se_parse marked_tab) pid (wd_device marked_world)) = Some m"
      "\<forall>p. isUserFile p \<longrightarrow> map_of (sm_files m) p = map_option (se_sha marked_tab) (map_of fs p)"
    unfolding removable_def by blast
  have "pid = ''p''" "fs = [(''a'', ''x'')]" using r(1,2) by (auto simp: marked_tab_def example_tab_def split: if_splits)
  then have "sm_files m = [(''a'', ''y'')]" using r(3) marked_reads by auto
  moreover have "isUserFile ''a''" by code_simp
  ultimately show False using r(4) \<open>fs = _\<close> by (auto simp: marked_tab_def example_tab_def)
qed

theorem sign_out_deletes_only_agreed_witness:
  "wd_host (snd (releaseLocalProjects marked_tab marked_world)) = [(''a'', ''x'')]"
  using sign_out_deletes_only_agreed [OF marked_objects, of "\<lambda>x. x = [(''a'', ''x'')]"] marked_not_removable
  by (auto simp: marked_world_def example_world_def marked_tab_def)

end
