(* ===== verification/Chat_Thread.thy ===== *)
theory Chat_Thread
  imports Sync_Mark
begin

text \<open>
  The conversations of the assistant as they are stored and sent again: what one item looks like on disk and how it is
  read back (\<^verbatim>\<open>features/persistence/model/chat-codec.ts\<close>), the cap on a thread and its file on the device
  (\<^verbatim>\<open>chat-storage.ts\<close>), and the history a model is shown when a thread is reopened (\<^verbatim>\<open>replay.ts\<close>). An item is the
  object the code handles, its fields in order; reading a field of something that has none throws. \<^verbatim>\<open>Date.parse\<close> and
  \<^verbatim>\<open>localeCompare\<close> are arguments: the second depends on the locale of the device and may hold different strings to be
  equal, so what \<open>byTime\<close> needs of it is a named law of the theorems that use it.
\<close>

type_synonym chat_item = "json js_obj"

datatype chat_error = TypeError

definition item_text :: "string \<Rightarrow> chat_item \<Rightarrow> string" where
  "item_text k it = (case map_of it k of Some (JStr s) \<Rightarrow> s | _ \<Rightarrow> [])"

definition item_is :: "string \<Rightarrow> string \<Rightarrow> chat_item \<Rightarrow> bool" where
  "item_is k v it \<longleftrightarrow> map_of it k = Some (JStr v)"

definition without_key :: "string \<Rightarrow> chat_item \<Rightarrow> chat_item" where
  "without_key k it = filter (\<lambda>(k', v). k' \<noteq> k) it"

text \<open>\<^verbatim>\<open>value.key\<close> of a value that may be missing: undefined and null throw.\<close>

definition member_of :: "json option \<Rightarrow> string \<Rightarrow> chat_error + json option" where
  "member_of v k = (case v of None \<Rightarrow> Inl TypeError | Some JNull \<Rightarrow> Inl TypeError | Some j \<Rightarrow> Inr (json_field j k))"

section \<open>Storing an item\<close>

definition CONTEXT_LINES :: nat where
  "CONTEXT_LINES = 3"

fun agreed :: "string list \<Rightarrow> string list \<Rightarrow> nat" where
  "agreed (x # xs) (y # ys) = (if x = y then Suc (agreed xs ys) else 0)"
| "agreed _ _ = 0"

definition trim_lines :: "string list \<Rightarrow> string list \<Rightarrow> string list \<times> string list" where
  "trim_lines oldLines newLines =
     (let start = agreed oldLines newLines;
          fromEnd = agreed (rev (drop start oldLines)) (rev (drop start newLines));
          lo = start - CONTEXT_LINES;
          oldTo = min (length oldLines) (length oldLines - fromEnd + CONTEXT_LINES);
          newTo = min (length newLines) (length newLines - fromEnd + CONTEXT_LINES)
      in (js_slice oldLines lo oldTo, js_slice newLines lo newTo))"

definition trimPatch :: "string option \<Rightarrow> string \<Rightarrow> string option \<times> string" where
  "trimPatch before after =
     (case before of
        None \<Rightarrow> (None, after)
      | Some b \<Rightarrow>
          if b = after then (Some b, after)
          else case trim_lines (js_split b) (js_split after) of (b', a') \<Rightarrow> (Some (js_join b'), js_join a'))"

text \<open>A side of a patch is null, or has to be a text that can be split; sides that are the same value are left alone.\<close>

definition encodeRequest :: "json option \<Rightarrow> chat_error + json option" where
  "encodeRequest r =
     (case member_of r ''type'' of
        Inl e \<Rightarrow> Inl e
      | Inr t \<Rightarrow>
          (if t \<noteq> Some (JStr ''patch'') then Inr r
           else case r of
             Some (JObj flds) \<Rightarrow>
               (case (map_of flds ''before'', map_of flds ''after'') of
                  (Some JNull, _) \<Rightarrow> Inr r
                | (Some (JStr b), Some (JStr a)) \<Rightarrow>
                    (case trimPatch (Some b) a of (b', a') \<Rightarrow>
                       Inr (Some (JObj (obj_set ''after'' (JStr a')
                         (obj_set ''before'' (case b' of None \<Rightarrow> JNull | Some s \<Rightarrow> JStr s) flds)))))
                | (None, None) \<Rightarrow> Inr r
                | (Some (JBool p), Some (JBool q)) \<Rightarrow> if p = q then Inr r else Inl TypeError
                | (Some (JNum p), Some (JNum q)) \<Rightarrow> if p = q then Inr r else Inl TypeError
                | _ \<Rightarrow> Inl TypeError)
           | _ \<Rightarrow> Inl TypeError))"

definition encodeItem :: "chat_item \<Rightarrow> chat_error + chat_item" where
  "encodeItem it =
     (if \<not> item_is ''kind'' ''approval'' it then Inr it
      else case encodeRequest (map_of it ''request'') of
        Inl e \<Rightarrow> Inl e
      | Inr None \<Rightarrow> Inl TypeError
      | Inr (Some r) \<Rightarrow>
          Inr (obj_set ''request'' r (if item_is ''status'' ''pending'' it then obj_set ''status'' (JStr ''unanswered'') it else it)))"

fun each_item :: "('a \<Rightarrow> chat_error + 'b) \<Rightarrow> 'a list \<Rightarrow> chat_error + 'b list" where
  "each_item f [] = Inr []"
| "each_item f (x # xs) =
     (case f x of Inl e \<Rightarrow> Inl e | Inr y \<Rightarrow> (case each_item f xs of Inl e \<Rightarrow> Inl e | Inr ys \<Rightarrow> Inr (y # ys)))"

definition encodeThread :: "chat_item list \<Rightarrow> chat_error + chat_item list" where
  "encodeThread items = each_item encodeItem items"

section \<open>Merging two copies of a thread\<close>

definition versionOf :: "(string \<Rightarrow> rat option) \<Rightarrow> chat_item \<Rightarrow> rat option" where
  "versionOf date it = date (case map_of it ''updatedAt'' of Some (JStr s) \<Rightarrow> s | _ \<Rightarrow> item_text ''createdAt'' it)"

text \<open>A version that does not parse is not later than anything.\<close>

definition later :: "rat option \<Rightarrow> rat option \<Rightarrow> bool" where
  "later a b \<longleftrightarrow> (case (a, b) of (Some x, Some y) \<Rightarrow> x > y | _ \<Rightarrow> False)"

definition byTime :: "(string \<Rightarrow> string \<Rightarrow> int) \<Rightarrow> chat_item \<Rightarrow> chat_item \<Rightarrow> int" where
  "byTime cmp a b =
     (if item_text ''createdAt'' a = item_text ''createdAt'' b then cmp (item_text ''id'' a) (item_text ''id'' b)
      else cmp (item_text ''createdAt'' a) (item_text ''createdAt'' b))"

text \<open>\<^verbatim>\<open>sort\<close> keeps the order of items that compare as equal.\<close>

fun insert_item :: "('a \<Rightarrow> 'a \<Rightarrow> int) \<Rightarrow> 'a \<Rightarrow> 'a list \<Rightarrow> 'a list" where
  "insert_item cmp x [] = [x]"
| "insert_item cmp x (y # ys) = (if cmp x y \<le> 0 then x # y # ys else y # insert_item cmp x ys)"

definition js_sort :: "('a \<Rightarrow> 'a \<Rightarrow> int) \<Rightarrow> 'a list \<Rightarrow> 'a list" where
  "js_sort cmp xs = foldr (insert_item cmp) xs []"

definition keep_newer :: "(string \<Rightarrow> rat option) \<Rightarrow> chat_item js_obj \<Rightarrow> chat_item \<Rightarrow> chat_item js_obj" where
  "keep_newer date byId it =
     (case map_of byId (item_text ''id'' it) of
        None \<Rightarrow> obj_set (item_text ''id'' it) it byId
      | Some other \<Rightarrow>
          if \<not> later (versionOf date other) (versionOf date it) then obj_set (item_text ''id'' it) it byId else byId)"

definition mergeThreads ::
  "(string \<Rightarrow> rat option) \<Rightarrow> (string \<Rightarrow> string \<Rightarrow> int) \<Rightarrow> chat_item list \<Rightarrow> chat_item list \<Rightarrow> chat_item list" where
  "mergeThreads date cmp theirs local =
     (let byId = foldl (\<lambda>m it. obj_set (item_text ''id'' it) it m) [] theirs
      in js_sort (byTime cmp) (map snd (foldl (keep_newer date) byId local)))"

section \<open>Reading an item back\<close>

definition KINDS :: "string list" where
  "KINDS = [''user'', ''assistant'', ''tool'', ''approval'', ''error'', ''notice'']"

definition isStoredItem :: "json \<Rightarrow> bool" where
  "isStoredItem j \<longleftrightarrow>
     (case j of
        JObj it \<Rightarrow>
          as_str (map_of it ''id'') \<noteq> None \<and> as_str (map_of it ''createdAt'') \<noteq> None \<and>
          (case map_of it ''kind'' of Some (JStr k) \<Rightarrow> k \<in> set KINDS | _ \<Rightarrow> False)
      | _ \<Rightarrow> False)"

definition name_start :: "char \<Rightarrow> bool" where
  "name_start c \<longleftrightarrow> (let n = of_char c :: nat in 97 \<le> n \<and> n \<le> 122 \<or> 65 \<le> n \<and> n \<le> 90 \<or> n = 95)"

definition TOOL_NAME :: "string \<Rightarrow> bool" where
  "TOOL_NAME s \<longleftrightarrow>
     (case s of
        [] \<Rightarrow> False
      | c # cs \<Rightarrow> name_start c \<and> length cs \<le> 63 \<and>
          list_all (\<lambda>c. name_start c \<or> (let n = of_char c :: nat in 48 \<le> n \<and> n \<le> 57 \<or> n = 45)) cs)"

definition isReplayableCall :: "json \<Rightarrow> bool" where
  "isReplayableCall j \<longleftrightarrow>
     (case as_str (json_field j ''name'') of None \<Rightarrow> False | Some n \<Rightarrow> TOOL_NAME n) \<and>
     (case as_str (json_field j ''output'') of None \<Rightarrow> False | Some s \<Rightarrow> js_trim s \<noteq> []) \<and>
     as_obj (json_field j ''input'') \<noteq> None \<and>
     (json_field j ''failed'' = None \<or> json_field j ''failed'' = Some (JBool True))"

definition withValidVersion :: "(string \<Rightarrow> rat option) \<Rightarrow> chat_item \<Rightarrow> chat_item" where
  "withValidVersion date it =
     (case map_of it ''updatedAt'' of
        None \<Rightarrow> it
      | Some (JStr s) \<Rightarrow> if date s \<noteq> None then it else without_key ''updatedAt'' it
      | _ \<Rightarrow> without_key ''updatedAt'' it)"

definition withValidUndo :: "chat_item \<Rightarrow> chat_error + chat_item" where
  "withValidUndo it =
     (if \<not> item_is ''kind'' ''approval'' it \<or> map_of it ''undo'' = None then Inr it
      else if \<not> item_is ''status'' ''allowed'' it then Inr (without_key ''undo'' it)
      else case member_of (map_of it ''request'') ''type'' of
        Inl e \<Rightarrow> Inl e
      | Inr t \<Rightarrow>
          if t = Some (JStr ''patch'') \<and> (item_is ''undo'' ''done'' it \<or> item_is ''undo'' ''stranded'' it) then Inr it
          else Inr (without_key ''undo'' it))"

definition decodeItem :: "(string \<Rightarrow> rat option) \<Rightarrow> json \<Rightarrow> chat_error + chat_item option" where
  "decodeItem date stored =
     (if \<not> isStoredItem stored then Inr None
      else case stored of
        JObj it \<Rightarrow>
          (if item_is ''kind'' ''tool'' it \<and> (case map_of it ''call'' of None \<Rightarrow> False | Some call \<Rightarrow> \<not> isReplayableCall call)
           then Inr None
           else case withValidUndo (withValidVersion date it) of Inl e \<Rightarrow> Inl e | Inr it' \<Rightarrow> Inr (Some it'))
      | _ \<Rightarrow> Inr None)"

definition decodeThread :: "(string \<Rightarrow> rat option) \<Rightarrow> json \<Rightarrow> chat_error + chat_item list" where
  "decodeThread date stored =
     (case stored of
        JArr js \<Rightarrow> (case each_item (decodeItem date) js of Inl e \<Rightarrow> Inl e | Inr its \<Rightarrow> Inr (List.map_filter id its))
      | _ \<Rightarrow> Inr [])"

section \<open>The cap of a thread and its file\<close>

definition MAX_MESSAGES_PER_THREAD :: nat where
  "MAX_MESSAGES_PER_THREAD = 200"

definition truncationNoticeId :: "string \<Rightarrow> string" where
  "truncationNoticeId threadId = ''truncated:'' @ threadId"

definition withoutTruncationNotice :: "chat_item list \<Rightarrow> chat_item list" where
  "withoutTruncationNotice items = filter (\<lambda>it. \<not> prefix ''truncated:'' (item_text ''id'' it)) items"

definition truncationNotice :: "string \<Rightarrow> chat_item" where
  "truncationNotice threadId =
     [(''kind'', JStr ''notice''), (''id'', JStr (truncationNoticeId threadId)), (''createdAt'', JStr ''1970-01-01T00:00:00.000Z''),
      (''text'', JStr ''Earlier messages in this conversation are not kept on this device.'')]"

text \<open>\<^verbatim>\<open>xs.slice(-n)\<close>: the last \<open>n\<close>, and all of them for 0.\<close>

definition slice_last :: "nat \<Rightarrow> 'a list \<Rightarrow> 'a list" where
  "slice_last n xs = (if n = 0 then xs else drop (length xs - n) xs)"

definition capThread :: "string \<Rightarrow> chat_item list \<Rightarrow> nat \<Rightarrow> chat_item list" where
  "capThread threadId items limit =
     (let real = withoutTruncationNotice items
      in if \<not> (length real > limit \<or> length real < length items) then real
         else (case find (\<lambda>it. item_text ''id'' it = truncationNoticeId threadId) items of
                 Some it \<Rightarrow> it | None \<Rightarrow> truncationNotice threadId) # slice_last (limit - 1) real)"

definition thread_path :: "string \<Rightarrow> string" where
  "thread_path threadId = ''/.config/chats/'' @ encodeURIComponent threadId @ SUFFIX"

definition chat_read ::
  "json_parse \<Rightarrow> (string \<Rightarrow> rat option) \<Rightarrow> string \<Rightarrow> device \<Rightarrow> device \<times> chat_item list option" where
  "chat_read parse date threadId d =
     (let what = ''read '' @ threadId
      in case readToString d (thread_path threadId) of
           Inl ENOENT \<Rightarrow> (d, Some [])
         | Inl EOther \<Rightarrow> (report what d, None)
         | Inr s \<Rightarrow>
             (case parse s of
                None \<Rightarrow> (report what d, None)
              | Some stored \<Rightarrow>
                  (case decodeThread date stored of
                     Inl e \<Rightarrow> (report what d, None)
                   | Inr items \<Rightarrow>
                       (let offered = (case stored of JArr js \<Rightarrow> length js | _ \<Rightarrow> 0)
                        in (if length items < offered
                            then report (what @ '': dropped '' @ js_nat (offered - length items) @ '' unreadable item(s)'') d else d,
                            Some items)))))"

definition chat_write :: "(json \<Rightarrow> string) \<Rightarrow> string \<Rightarrow> chat_item list \<Rightarrow> device \<Rightarrow> device" where
  "chat_write stringify threadId items d =
     (case encodeThread (capThread threadId items MAX_MESSAGES_PER_THREAD) of
        Inl e \<Rightarrow> report (''write '' @ threadId) d
      | Inr its \<Rightarrow>
          (case writeFile d (thread_path threadId) (stringify (JArr (map JObj its))) of
             Inl e \<Rightarrow> report (''write '' @ threadId) d | Inr d' \<Rightarrow> d'))"

definition chat_remove :: "string \<Rightarrow> device \<Rightarrow> device \<times> bool" where
  "chat_remove threadId d =
     (case removeFile d (thread_path threadId) of
        Inr d' \<Rightarrow> (d', True)
      | Inl ENOENT \<Rightarrow> (d, True)
      | Inl EOther \<Rightarrow> (report (''remove '' @ threadId) d, False))"

section \<open>Showing a thread to a model again\<close>

definition REPLAY_CALL_BUDGET :: int where
  "REPLAY_CALL_BUDGET = 64000"

record tool_call =
  tc_name :: string
  tc_input :: "json js_obj"
  tc_output :: string
  tc_failed :: bool

datatype replay_message =
    Said string string
  | CallMessage string string "json js_obj"
  | ResultMessage string string bool string

text \<open>The call of an item that has one; what is not a call of this shape does not come out of \<open>decodeItem\<close>.\<close>

definition call_of :: "chat_item \<Rightarrow> (chat_error + tool_call) option" where
  "call_of it =
     (if \<not> item_is ''kind'' ''tool'' it then None
      else case map_of it ''call'' of
        None \<Rightarrow> None
      | Some j \<Rightarrow>
          (case (as_str (json_field j ''name''), as_obj (json_field j ''input''), as_str (json_field j ''output'')) of
             (Some n, Some i, Some out) \<Rightarrow>
               Some (Inr \<lparr>tc_name = n, tc_input = i, tc_output = out, tc_failed = (json_field j ''failed'' = Some (JBool True))\<rparr>)
           | _ \<Rightarrow> Some (Inl TypeError)))"

definition sizeOf :: "(json \<Rightarrow> string) \<Rightarrow> tool_call \<Rightarrow> nat" where
  "sizeOf stringify c = length (tc_name c) + length (stringify (JObj (tc_input c))) + length (stringify (JStr (tc_output c)))"

fun budget_loop :: "(json \<Rightarrow> string) \<Rightarrow> int \<Rightarrow> (string \<times> tool_call) list \<Rightarrow> tool_call js_obj \<Rightarrow> tool_call js_obj" where
  "budget_loop stringify left [] kept = kept"
| "budget_loop stringify left ((i, c) # newer) kept =
     (if left - int (sizeOf stringify c) < 0 then kept
      else budget_loop stringify (left - int (sizeOf stringify c)) newer (obj_set i c kept))"

definition recordsInBudget :: "(json \<Rightarrow> string) \<Rightarrow> (string \<times> tool_call) list \<Rightarrow> tool_call js_obj" where
  "recordsInBudget stringify records = budget_loop stringify REPLAY_CALL_BUDGET (rev records) []"

definition outOfContext :: "string \<Rightarrow> string" where
  "outOfContext path = ''['' @ path @ '' was taken out of the context; its content is not sent again]''"

definition shownWith :: "(string \<Rightarrow> bool) \<Rightarrow> tool_call \<Rightarrow> tool_call" where
  "shownWith isInContext c =
     (case map_of (tc_input c) ''path'' of
        Some (JStr path) \<Rightarrow>
          (if isInContext path then c
           else if tc_name c = ''read_file'' \<and> \<not> tc_failed c
           then \<lparr>tc_name = tc_name c, tc_input = tc_input c, tc_output = outOfContext path, tc_failed = False\<rparr>
           else if tc_name c = ''write_file'' \<and> obj_has (tc_input c) ''content''
           then \<lparr>tc_name = tc_name c, tc_input = [(''path'', JStr path), (''content'', JStr (outOfContext path))],
                 tc_output = tc_output c, tc_failed = False\<rparr>
           else c)
      | _ \<Rightarrow> c)"

fun records_of :: "(string \<Rightarrow> bool) \<Rightarrow> chat_item list \<Rightarrow> chat_error + (string \<times> tool_call) list" where
  "records_of ctx [] = Inr []"
| "records_of ctx (it # its) =
     (case call_of it of
        None \<Rightarrow> records_of ctx its
      | Some (Inl e) \<Rightarrow> Inl e
      | Some (Inr c) \<Rightarrow>
          (case records_of ctx its of Inl e \<Rightarrow> Inl e | Inr rs \<Rightarrow> Inr ((item_text ''id'' it, shownWith ctx c) # rs)))"

definition said :: "chat_item \<Rightarrow> chat_error + replay_message list" where
  "said it =
     (if item_is ''kind'' ''user'' it \<or> item_is ''kind'' ''assistant'' it
      then case map_of it ''text'' of
        Some (JStr t) \<Rightarrow> Inr (if js_trim t \<noteq> [] then [Said (item_text ''kind'' it) t] else [])
      | _ \<Rightarrow> Inl TypeError
      else Inr [])"

fun replay_items :: "tool_call js_obj \<Rightarrow> nat \<Rightarrow> chat_item list \<Rightarrow> chat_error + replay_message list" where
  "replay_items replayed count [] = Inr []"
| "replay_items replayed count (it # its) =
     (if call_of it \<noteq> None
      then case map_of replayed (item_text ''id'' it) of
        None \<Rightarrow> replay_items replayed count its
      | Some c \<Rightarrow>
          (let i = ''call_'' @ js_nat (Suc count)
           in case replay_items replayed (Suc count) its of
                Inl e \<Rightarrow> Inl e
              | Inr ms \<Rightarrow>
                  Inr (CallMessage i (tc_name c) (tc_input c) # ResultMessage i (tc_name c) (tc_failed c) (tc_output c) # ms))
      else case said it of
        Inl e \<Rightarrow> Inl e
      | Inr ms \<Rightarrow> (case replay_items replayed count its of Inl e \<Rightarrow> Inl e | Inr ms' \<Rightarrow> Inr (ms @ ms')))"

fun from_user :: "replay_message \<Rightarrow> bool" where
  "from_user (Said r t) = (r = ''user'')"
| "from_user _ = False"

definition toReplayMessagesWith ::
  "(json \<Rightarrow> string) \<Rightarrow> (string \<Rightarrow> bool) \<Rightarrow> chat_item list \<Rightarrow> chat_error + replay_message list" where
  "toReplayMessagesWith stringify isInContext items =
     (case records_of isInContext items of
        Inl e \<Rightarrow> Inl e
      | Inr records \<Rightarrow>
          (case replay_items (recordsInBudget stringify records) 0 items of
             Inl e \<Rightarrow> Inl e
           | Inr ms \<Rightarrow> Inr (dropWhile (\<lambda>m. \<not> from_user m) ms)))"

end
