(* ===== verification/Chat_Thread_Correct.thy ===== *)
theory Chat_Thread_Correct
  imports Chat_Thread
begin

text \<open>
  What is stored of a conversation is read back, two copies of it merge the same way on every device, and a model is only ever shown
  a well-formed history.
\<close>

section \<open>Trimming a patch\<close>

lemma agreed_append: "agreed (ps @ xs) (ps @ ys) = length ps + agreed xs ys"
  by (induction ps) auto

lemma agreed_zero: "agreed xs ys = 0 \<longleftrightarrow> xs = [] \<or> ys = [] \<or> hd xs \<noteq> hd ys"
  by (cases xs; cases ys) auto

lemma agreed_split:
  obtains ps xs' ys' where "xs = ps @ xs'" "ys = ps @ ys'" "length ps = agreed xs ys" "agreed xs' ys' = 0"
proof -
  have "\<exists>ps xs' ys'. xs = ps @ xs' \<and> ys = ps @ ys' \<and> length ps = agreed xs ys \<and> agreed xs' ys' = 0"
  proof (induction xs ys rule: agreed.induct)
    case (1 x xs y ys)
    then show ?case
    proof (cases "x = y")
      case True
      with 1 obtain ps xs' ys' where "xs = ps @ xs' \<and> ys = ps @ ys' \<and> length ps = agreed xs ys \<and> agreed xs' ys' = 0" by auto
      then show ?thesis using True by (intro exI [of _ "x # ps"] exI [of _ xs'] exI [of _ ys']) simp
    next
      case False
      then show ?thesis by (intro exI [of _ "[]"] exI [of _ "x # xs"] exI [of _ "y # ys"]) simp
    qed
  qed auto
  then show thesis using that by blast
qed

lemma slice_context:
  "js_slice (P @ A @ S) (length P - 3) (min (length (P @ A @ S)) (length (P @ A @ S) - length S + 3)) =
     drop (length P - 3) P @ A @ take 3 S"
proof -
  have "min (length (P @ A @ S)) (length (P @ A @ S) - length S + 3) - (length P - 3) =
      length (drop (length P - 3) P) + (length A + min (length S) 3)" by simp
  then show ?thesis unfolding js_slice_def by (simp add: min_def)
qed

lemma drop_last_Nil [simp]: "drop (length P - 3) P = [] \<longleftrightarrow> P = []"
  by (cases P) auto

text \<open>Both sides are a common head and a common tail, as long as can be, around what differs.\<close>

lemma trim_lines_parts:
  obtains P A B S where "xs = P @ A @ S" "ys = P @ B @ S" "agreed (A @ S) (B @ S) = 0" "agreed (rev A) (rev B) = 0"
    "trim_lines xs ys = (drop (length P - 3) P @ A @ take 3 S, drop (length P - 3) P @ B @ take 3 S)"
proof -
  obtain P xs1 ys1 where P: "xs = P @ xs1" "ys = P @ ys1" "length P = agreed xs ys" "agreed xs1 ys1 = 0" by (rule agreed_split)
  obtain S A' B' where S: "rev xs1 = S @ A'" "rev ys1 = S @ B'" "length S = agreed (rev xs1) (rev ys1)" "agreed A' B' = 0"
    by (rule agreed_split)
  have xs1: "xs1 = rev A' @ rev S" "ys1 = rev B' @ rev S" using S(1,2) by (metis rev_append rev_rev_ident)+
  have st: "agreed xs ys = length P" using P(3) by simp
  have fe: "agreed (rev (drop (length P) xs)) (rev (drop (length P) ys)) = length S" using S(3) by (simp add: P(1,2))
  have cut: "trim_lines xs ys = (js_slice xs (length P - 3) (min (length xs) (length xs - length S + 3)),
      js_slice ys (length P - 3) (min (length ys) (length ys - length S + 3)))"
    unfolding trim_lines_def Let_def st fe CONTEXT_LINES_def ..
  have "trim_lines xs ys = (drop (length P - 3) P @ rev A' @ take 3 (rev S), drop (length P - 3) P @ rev B' @ take 3 (rev S))"
    unfolding cut using slice_context [of P "rev A'" "rev S"] slice_context [of P "rev B'" "rev S"]
    by (simp only: P(1,2) xs1 length_rev prod.inject simp_thms)
  then show thesis using that [of P "rev A'" "rev S" "rev B'"] P xs1 S(4) by simp
qed

lemma trim_lines_whole:
  assumes "agreed (A @ S) (B @ S) = 0" and "agreed (rev A) (rev B) = 0" and "length P \<le> 3" and "length S \<le> 3"
  shows "trim_lines (P @ A @ S) (P @ B @ S) = (P @ A @ S, P @ B @ S)"
  using assms unfolding trim_lines_def Let_def
  by (simp add: agreed_append js_slice_def CONTEXT_LINES_def)

lemma trim_lines_again: "trim_lines xs ys = (xs', ys') \<Longrightarrow> trim_lines xs' ys' = (xs', ys')"
proof -
  assume t: "trim_lines xs ys = (xs', ys')"
  obtain P A B S where p: "xs = P @ A @ S" "ys = P @ B @ S" "agreed (A @ S) (B @ S) = 0" "agreed (rev A) (rev B) = 0"
    "trim_lines xs ys = (drop (length P - 3) P @ A @ take 3 S, drop (length P - 3) P @ B @ take 3 S)" by (rule trim_lines_parts)
  have "agreed (A @ take 3 S) (B @ take 3 S) = 0" using p(3) by (cases S; cases A; cases B) (auto simp: agreed_zero)
  then show ?thesis using t p(4,5) trim_lines_whole [of A "take 3 S" B "drop (length P - 3) P"] by auto
qed

lemma trimPatch_again: "trimPatch (Some b) a = (Some b', a') \<Longrightarrow> trimPatch (Some b') a' = (Some b', a')"
proof (cases "b = a")
  case False
  assume t: "trimPatch (Some b) a = (Some b', a')"
  obtain xs ys where xy: "trim_lines (js_split b) (js_split a) = (xs, ys)" by fastforce
  obtain P A B S where p: "js_split b = P @ A @ S" "js_split a = P @ B @ S"
    "trim_lines (js_split b) (js_split a) = (drop (length P - 3) P @ A @ take 3 S, drop (length P - 3) P @ B @ take 3 S)"
    by (rule trim_lines_parts)
  have sub: "set xs \<subseteq> set (js_split b)" "set ys \<subseteq> set (js_split a)"
    using p xy by (auto dest: in_set_dropD in_set_takeD)
  have ne: "xs \<noteq> []" "ys \<noteq> []"
    using p xy js_split_neq_Nil [of b] js_split_neq_Nil [of a] by (auto simp del: js_split_neq_Nil drop_eq_Nil)
  have "js_split (js_join xs) = xs" "js_split (js_join ys) = ys"
    using sub ne js_split_no_LF by (auto intro!: js_split_join)
  moreover have "b' = js_join xs" "a' = js_join ys" using t False xy by (simp_all add: trimPatch_def)
  ultimately show ?thesis using trim_lines_again [OF xy] by (simp add: trimPatch_def)
qed (auto simp: trimPatch_def)

section \<open>Storing an item\<close>

lemma obj_set_same: "map_of flds k = Some v \<Longrightarrow> obj_set k v flds = flds"
  unfolding obj_set_def by (induction flds) (auto split: if_splits)

lemma encodeRequest_cases:
  assumes "encodeRequest r = Inr r'"
  obtains (same) "r' = r"
  | (patch) flds b a b' a' where "r = Some (JObj flds)" "map_of flds ''type'' = Some (JStr ''patch'')"
      "trimPatch (Some b) a = (Some b', a')"
      "r' = Some (JObj (obj_set ''after'' (JStr a') (obj_set ''before'' (JStr b') flds)))"
proof (cases "r' = r")
  case False
  then obtain flds b a where f: "r = Some (JObj flds)" "map_of flds ''type'' = Some (JStr ''patch'')"
      "map_of flds ''before'' = Some (JStr b)" "map_of flds ''after'' = Some (JStr a)"
    using assms by (auto simp: encodeRequest_def member_of_def json_field_def split: option.splits json.splits if_splits)
  obtain b' a' where t: "trimPatch (Some b) a = (Some b', a')"
    by (cases "b = a"; cases "trim_lines (js_split b) (js_split a)") (auto simp: trimPatch_def)
  then show thesis using patch [OF f(1,2) t] assms f by (simp add: encodeRequest_def member_of_def json_field_def)
qed (rule same)

lemma encodeRequest_again: "encodeRequest r = Inr r' \<Longrightarrow> encodeRequest r' = Inr r'"
proof -
  assume e: "encodeRequest r = Inr r'"
  then show ?thesis
  proof (cases rule: encodeRequest_cases)
    case same
    then show ?thesis using e by simp
  next
    case (patch flds b a b' a')
    have "obj_set ''after'' (JStr a') (obj_set ''before'' (JStr b') (obj_set ''after'' (JStr a') (obj_set ''before'' (JStr b') flds)))
        = obj_set ''after'' (JStr a') (obj_set ''before'' (JStr b') flds)" by (simp add: obj_set_same)
    then show ?thesis using patch trimPatch_again [OF patch(3)] by (simp add: encodeRequest_def member_of_def json_field_def)
  qed
qed

lemma encodeRequest_type:
  "encodeRequest r = Inr r' \<Longrightarrow> member_of r' ''type'' = member_of r ''type''"
  by (erule encodeRequest_cases) (auto simp: member_of_def json_field_def)

lemma encodeItem_cases:
  assumes "encodeItem it = Inr it'"
  obtains (same) "\<not> item_is ''kind'' ''approval'' it" "it' = it"
  | (card) r where "item_is ''kind'' ''approval'' it" "encodeRequest (map_of it ''request'') = Inr (Some r)"
      "it' = obj_set ''request'' r (if item_is ''status'' ''pending'' it then obj_set ''status'' (JStr ''unanswered'') it else it)"
  using assms by (auto simp: encodeItem_def split: if_splits sum.splits option.splits)

lemma encodeItem_keeps:
  assumes "encodeItem it = Inr it'" and "k \<noteq> ''request''" and "k \<noteq> ''status''"
  shows "map_of it' k = map_of it k"
  using assms(1) by (cases rule: encodeItem_cases) (use assms(2,3) in auto)

lemma encodeItem_status:
  assumes "encodeItem it = Inr it'"
  shows "map_of it' ''status'' = (if item_is ''kind'' ''approval'' it \<and> item_is ''status'' ''pending'' it
    then Some (JStr ''unanswered'') else map_of it ''status'')"
  using assms by (cases rule: encodeItem_cases) auto

lemma encodeItem_again: "encodeItem it = Inr it' \<Longrightarrow> encodeItem it' = Inr it'"
proof -
  assume e: "encodeItem it = Inr it'"
  then show ?thesis
  proof (cases rule: encodeItem_cases)
    case same
    then show ?thesis using e by simp
  next
    case (card r)
    have "encodeRequest (Some r) = Inr (Some r)" using encodeRequest_again [OF card(2)] .
    moreover have "map_of it' ''request'' = Some r" "item_is ''kind'' ''approval'' it'" "\<not> item_is ''status'' ''pending'' it'"
      using card by (auto simp: item_is_def)
    ultimately show ?thesis by (simp add: encodeItem_def obj_set_same)
  qed
qed

text \<open>An item that reads back as itself does so after it was prepared for storage.\<close>

definition item_ok :: "(string \<Rightarrow> rat option) \<Rightarrow> chat_item \<Rightarrow> bool" where
  "item_ok date it \<longleftrightarrow> decodeItem date (JObj it) = Inr (Some it) \<and> (\<exists>it'. encodeItem it = Inr it')"

lemma without_key_same: "without_key k it = it \<longleftrightarrow> map_of it k = None"
  by (force simp: without_key_def filter_id_conv map_of_eq_None_iff)

lemma map_of_without: "map_of (without_key k it) k' = (if k' = k then None else map_of it k')"
  by (induction it) (auto simp: without_key_def)

lemma valid_version_iff:
  "withValidVersion date it = it \<longleftrightarrow>
     (case map_of it ''updatedAt'' of None \<Rightarrow> True | Some (JStr s) \<Rightarrow> date s \<noteq> None | _ \<Rightarrow> False)"
  by (auto simp: withValidVersion_def without_key_same split: option.splits json.splits)

lemma valid_undo_iff:
  "withValidUndo it = Inr it \<longleftrightarrow>
     \<not> item_is ''kind'' ''approval'' it \<or> map_of it ''undo'' = None \<or>
     item_is ''status'' ''allowed'' it \<and> member_of (map_of it ''request'') ''type'' = Inr (Some (JStr ''patch'')) \<and>
     (item_is ''undo'' ''done'' it \<or> item_is ''undo'' ''stranded'' it)"
  by (auto simp: withValidUndo_def without_key_same split: sum.splits)

lemma undo_keeps: "withValidUndo it = Inr it' \<Longrightarrow> k \<noteq> ''undo'' \<Longrightarrow> map_of it' k = map_of it k"
  by (auto simp: withValidUndo_def map_of_without split: if_splits sum.splits)

lemma decode_same_iff:
  "decodeItem date (JObj it) = Inr (Some it) \<longleftrightarrow>
     isStoredItem (JObj it) \<and>
     \<not> (item_is ''kind'' ''tool'' it \<and> (case map_of it ''call'' of None \<Rightarrow> False | Some call \<Rightarrow> \<not> isReplayableCall call)) \<and>
     withValidVersion date it = it \<and> withValidUndo it = Inr it"
proof -
  have "withValidVersion date it = it \<and> withValidUndo it = Inr it" if "withValidUndo (withValidVersion date it) = Inr it"
  proof -
    have "map_of it ''updatedAt'' = map_of (withValidVersion date it) ''updatedAt''"
      using undo_keeps [OF that] by simp
    then have "withValidVersion date it = it"
      by (auto simp: withValidVersion_def map_of_without without_key_same split: option.splits json.splits if_splits)
    then show ?thesis using that by simp
  qed
  then show ?thesis by (auto simp: decodeItem_def split: sum.splits)
qed

lemma stored_reads_back:
  assumes "item_ok date it" and "encodeItem it = Inr it'"
  shows "decodeItem date (JObj it') = Inr (Some it')"
proof -
  have d: "decodeItem date (JObj it) = Inr (Some it)" using assms(1) by (simp add: item_ok_def)
  have k: "map_of it' k = map_of it k" if "k \<noteq> ''request''" "k \<noteq> ''status''" for k
    using encodeItem_keeps [OF assms(2) that] .
  have "withValidUndo it' = Inr it'"
  proof (cases "item_is ''kind'' ''approval'' it \<and> map_of it ''undo'' \<noteq> None")
    case True
    then have u: "item_is ''status'' ''allowed'' it" "member_of (map_of it ''request'') ''type'' = Inr (Some (JStr ''patch''))"
        "item_is ''undo'' ''done'' it \<or> item_is ''undo'' ''stranded'' it"
      using d by (auto simp: decode_same_iff valid_undo_iff)
    obtain r where "encodeRequest (map_of it ''request'') = Inr (Some r)" "map_of it' ''request'' = Some r"
      using assms(2) True by (auto elim!: encodeItem_cases)
    then have "member_of (map_of it' ''request'') ''type'' = Inr (Some (JStr ''patch''))"
      using u(2) encodeRequest_type by metis
    moreover have "item_is ''status'' ''allowed'' it'"
      using u(1) encodeItem_status [OF assms(2)] by (auto simp: item_is_def)
    ultimately show ?thesis using u(3) k by (simp add: valid_undo_iff item_is_def)
  next
    case False
    then show ?thesis using k by (auto simp: valid_undo_iff item_is_def)
  qed
  then show ?thesis using d k
    by (simp add: decode_same_iff valid_version_iff item_is_def isStoredItem_def)
qed

section \<open>The cap\<close>

definition item_id :: "chat_item \<Rightarrow> string" where
  "item_id it = item_text ''id'' it"

text \<open>What a capped thread looks like: messages within the cap, or the notice and one fewer.\<close>

definition is_message :: "chat_item \<Rightarrow> bool" where
  "is_message it \<longleftrightarrow> \<not> prefix ''truncated:'' (item_id it)"

definition capped :: "string \<Rightarrow> nat \<Rightarrow> chat_item list \<Rightarrow> bool" where
  "capped t n xs \<longleftrightarrow>
     list_all is_message xs \<and> length xs \<le> n \<or>
     xs \<noteq> [] \<and> item_id (hd xs) = truncationNoticeId t \<and> list_all is_message (tl xs) \<and> length xs \<le> n"

lemma withoutTruncationNotice_filter: "withoutTruncationNotice = filter is_message"
  by (rule ext) (simp add: withoutTruncationNotice_def is_message_def [abs_def] item_id_def)

lemma notice_id: "item_id (truncationNotice t) = truncationNoticeId t"
  by (simp add: item_id_def item_text_def truncationNotice_def)

lemma notice_not_message: "item_id x = truncationNoticeId t \<Longrightarrow> \<not> is_message x"
  by (simp add: is_message_def truncationNoticeId_def)

lemma capped_length: "capped t n xs \<Longrightarrow> length xs \<le> n"
  by (auto simp: capped_def)

lemma capThread_capped:
  assumes "2 \<le> n"
  shows "capped t n (capThread t xs n)"
proof -
  let ?real = "filter is_message xs"
  have "list_all is_message (slice_last k ?real)" for k
    by (auto simp: slice_last_def list_all_iff dest: in_set_dropD)
  moreover have "item_id (case find (\<lambda>it. item_text ''id'' it = truncationNoticeId t) xs of
      Some it \<Rightarrow> it | None \<Rightarrow> truncationNotice t) = truncationNoticeId t"
    using notice_id by (auto simp: find_Some_iff item_id_def split: option.split)
  moreover have "Suc (length (slice_last (n - 1) ?real)) \<le> n" using assms by (auto simp: slice_last_def)
  moreover have "list_all is_message ?real" by (simp add: list_all_iff)
  ultimately show ?thesis
    using assms unfolding capThread_def Let_def withoutTruncationNotice_filter capped_def
    by (cases "length ?real > n \<or> length ?real < length xs") simp_all
qed

lemma capped_capThread:
  assumes "2 \<le> n" and "capped t n xs"
  shows "capThread t xs n = xs"
proof (cases "list_all is_message xs \<and> length xs \<le> n")
  case True
  then have "filter is_message xs = xs" by (simp add: list_all_iff)
  then show ?thesis using True by (simp add: capThread_def Let_def withoutTruncationNotice_filter)
next
  case False
  then obtain x ys where xs: "xs = x # ys" "item_id x = truncationNoticeId t" "list_all is_message ys" "Suc (length ys) \<le> n"
    using assms(2) by (cases xs) (auto simp: capped_def)
  have "filter is_message ys = ys" using xs(3) by (simp add: list_all_iff)
  then have "filter is_message xs = ys" using notice_not_message [OF xs(2)] by (simp add: xs(1))
  then show ?thesis
    using xs assms(1) by (auto simp: capThread_def Let_def withoutTruncationNotice_filter item_id_def slice_last_def)
qed

lemma capThread_members: "set (capThread t xs n) \<subseteq> set xs \<union> {truncationNotice t}"
  by (auto simp: capThread_def Let_def withoutTruncationNotice_def slice_last_def find_Some_iff dest: in_set_dropD split: option.splits if_splits)

section \<open>A stored thread is read back\<close>

lemma notice_ok: "item_ok date (truncationNotice t)"
  by (simp add: item_ok_def decodeItem_def isStoredItem_def truncationNotice_def as_str_def KINDS_def item_is_def withValidVersion_def
      withValidUndo_def encodeItem_def)

lemma each_item_maps:
  assumes "each_item f xs = Inr ys"
  shows "list_all2 (\<lambda>x y. f x = Inr y) xs ys"
  using assms by (induction xs arbitrary: ys) (auto split: sum.splits)

lemma each_item_all2: "list_all2 (\<lambda>x y. f x = Inr y) xs ys \<Longrightarrow> each_item f xs = Inr ys"
  by (induction rule: list_all2_induct) auto

lemma encode_all: "list_all (item_ok date) xs \<Longrightarrow> \<exists>ys. encodeThread xs = Inr ys"
  unfolding encodeThread_def by (induction xs) (auto simp: item_ok_def)

lemma encodeThread_id: "encodeThread xs = Inr ys \<Longrightarrow> map item_id ys = map item_id xs"
proof -
  assume "encodeThread xs = Inr ys"
  then have "list_all2 (\<lambda>x y. encodeItem x = Inr y) xs ys" unfolding encodeThread_def by (rule each_item_maps)
  then show ?thesis
  proof (induction rule: list_all2_induct)
    case (Cons x xs y ys)
    then show ?case using encodeItem_keeps [of x y "''id''"] by (simp add: item_id_def item_text_def)
  qed simp
qed

lemma capped_ids:
  assumes "map item_id xs = map item_id ys"
  shows "capped t n xs \<longleftrightarrow> capped t n ys"
proof -
  have all: "list_all is_message us = list_all (\<lambda>i. \<not> prefix ''truncated:'' i) (map item_id us)" for us
    by (simp add: list_all_iff is_message_def)
  have "length xs = length ys" using assms by (rule map_eq_imp_length_eq)
  moreover have "xs \<noteq> [] \<Longrightarrow> item_id (hd xs) = item_id (hd ys)" using assms by (cases xs; cases ys) auto
  moreover have "list_all is_message (tl xs) = list_all is_message (tl ys)" using assms by (simp only: all map_tl)
  moreover have "list_all is_message xs = list_all is_message ys" using assms by (simp only: all)
  ultimately show ?thesis unfolding capped_def by (metis length_0_conv)
qed

lemma encodeThread_again: "encodeThread xs = Inr ys \<Longrightarrow> encodeThread ys = Inr ys"
  unfolding encodeThread_def
  by (drule each_item_maps, rule each_item_all2, erule list_all2_induct) (auto simp: encodeItem_again)

lemma decode_encoded:
  assumes "list_all (item_ok date) xs" and "encodeThread xs = Inr ys"
  shows "decodeThread date (JArr (map JObj ys)) = Inr ys"
proof -
  have "list_all2 (\<lambda>x y. encodeItem x = Inr y) xs ys" using assms(2) unfolding encodeThread_def by (rule each_item_maps)
  then have "each_item (decodeItem date) (map JObj ys) = Inr (map Some ys)"
    using assms(1) by (induction rule: list_all2_induct) (auto simp: stored_reads_back)
  moreover have "List.map_filter id (map Some ys) = ys" by (induction ys) (simp_all add: map_filter_simps)
  ultimately show ?thesis by (simp add: decodeThread_def)
qed

subsection \<open>The items of a conversation\<close>

text \<open>
  An item as its type has it (\<^verbatim>\<open>ChatItem\<close> and \<^verbatim>\<open>ToolCallRecord\<close>), stated of its fields: the texts every item carries, a version
  that is a date, the text or label of its kind, a finished tool call, or an approval with its request, its answer and
  where an undo left it. The name of a tool is what a provider accepts, and what it returned is not blank.
\<close>

definition has_text :: "string \<Rightarrow> json js_obj \<Rightarrow> bool" where
  "has_text k it \<longleftrightarrow> (\<exists>t. map_of it k = Some (JStr t))"

definition LETTERS :: string where
  "LETTERS = ''abcdefghijklmnopqrstuvwxyzABCDEFGHIJKLMNOPQRSTUVWXYZ_''"

definition typed_call :: "json js_obj \<Rightarrow> bool" where
  "typed_call call \<longleftrightarrow>
     (\<exists>c cs out input. map_of call ''name'' = Some (JStr (c # cs)) \<and> length cs < 64 \<and> c \<in> set LETTERS \<and>
        set cs \<subseteq> set (LETTERS @ ''0123456789-'') \<and>
        map_of call ''output'' = Some (JStr out) \<and> \<not> list_all js_space out \<and> map_of call ''input'' = Some (JObj input)) \<and>
     map_of call ''failed'' \<in> {None, Some (JBool True)}"

definition typed_request :: "json js_obj \<Rightarrow> bool" where
  "typed_request req \<longleftrightarrow>
     has_text ''type'' req \<and>
     (map_of req ''type'' = Some (JStr ''patch'') \<longrightarrow>
        has_text ''after'' req \<and> (has_text ''before'' req \<or> map_of req ''before'' = Some JNull))"

definition typed_message :: "chat_item \<Rightarrow> bool" where
  "typed_message it \<longleftrightarrow>
     has_text ''text'' it \<and> (\<exists>k. map_of it ''kind'' = Some (JStr k) \<and> k \<in> {''user'', ''assistant'', ''error'', ''notice''})"

definition typed_tool :: "chat_item \<Rightarrow> bool" where
  "typed_tool it \<longleftrightarrow>
     has_text ''label'' it \<and> map_of it ''kind'' = Some (JStr ''tool'') \<and>
     (map_of it ''call'' = None \<or> (\<exists>call. map_of it ''call'' = Some (JObj call) \<and> typed_call call))"

definition typed_card :: "chat_item \<Rightarrow> bool" where
  "typed_card it \<longleftrightarrow>
     map_of it ''kind'' = Some (JStr ''approval'') \<and>
     (\<exists>a. map_of it ''status'' = Some (JStr a) \<and> a \<in> {''pending'', ''allowed'', ''denied'', ''unanswered''}) \<and>
     (\<exists>req. map_of it ''request'' = Some (JObj req) \<and> typed_request req \<and>
       (map_of it ''undo'' = None \<or>
        map_of it ''status'' = Some (JStr ''allowed'') \<and> map_of req ''type'' = Some (JStr ''patch'') \<and>
          map_of it ''undo'' \<in> {Some (JStr ''done''), Some (JStr ''stranded'')}))"

definition typed_item :: "(string \<Rightarrow> rat option) \<Rightarrow> chat_item \<Rightarrow> bool" where
  "typed_item date it \<longleftrightarrow>
     has_text ''id'' it \<and> has_text ''createdAt'' it \<and>
     (map_of it ''updatedAt'' = None \<or> (\<exists>u. map_of it ''updatedAt'' = Some (JStr u) \<and> date u \<noteq> None)) \<and>
     (typed_message it \<or> typed_tool it \<or> typed_card it)"

lemma letters_start: "c \<in> set LETTERS \<Longrightarrow> name_start c"
proof -
  have "list_all name_start LETTERS" by code_simp
  then show "c \<in> set LETTERS \<Longrightarrow> name_start c" by (simp add: list_all_iff)
qed

lemma letters_name: "c \<in> set (LETTERS @ ''0123456789-'') \<Longrightarrow> name_start c \<or> (let n = of_char c :: nat in 48 \<le> n \<and> n \<le> 57 \<or> n = 45)"
proof -
  have "list_all (\<lambda>c. name_start c \<or> (let n = of_char c :: nat in 48 \<le> n \<and> n \<le> 57 \<or> n = 45)) (LETTERS @ ''0123456789-'')"
    by code_simp
  then show "c \<in> set (LETTERS @ ''0123456789-'') \<Longrightarrow> name_start c \<or> (let n = of_char c :: nat in 48 \<le> n \<and> n \<le> 57 \<or> n = 45)"
    unfolding list_all_iff by blast
qed

lemma trim_not_blank: "\<not> list_all js_space t \<Longrightarrow> js_trim t \<noteq> []"
  by (auto simp: js_trim_def list_all_iff dropWhile_eq_Nil_conv dest: set_dropWhileD)
    (metis dropWhile_eq_Nil_conv hd_dropWhile hd_in_set)

lemma typed_call_replays:
  assumes "typed_call call"
  shows "isReplayableCall (JObj call)"
proof -
  obtain c cs out input where call: "map_of call ''name'' = Some (JStr (c # cs))" "length cs < 64" "c \<in> set LETTERS"
      "set cs \<subseteq> set (LETTERS @ ''0123456789-'')" "map_of call ''output'' = Some (JStr out)" "\<not> list_all js_space out"
      "map_of call ''input'' = Some (JObj input)"
    using assms unfolding typed_call_def by (elim conjE exE)
  have "list_all (\<lambda>c. name_start c \<or> (let n = of_char c :: nat in 48 \<le> n \<and> n \<le> 57 \<or> n = 45)) cs"
    unfolding list_all_iff using letters_name call(4) by blast
  then have "TOOL_NAME (c # cs)" using call(2) letters_start [OF call(3)] by (simp add: TOOL_NAME_def)
  then show ?thesis
    using call(1,5,7) trim_not_blank [OF call(6)] assms
    by (simp add: isReplayableCall_def json_field_def as_str_def as_obj_def typed_call_def)
qed

lemma typed_request_encodes:
  assumes "typed_request req"
  shows "\<exists>r. encodeRequest (Some (JObj req)) = Inr (Some r)"
proof (cases "map_of req ''type'' = Some (JStr ''patch'')")
  case True
  then obtain after where "map_of req ''after'' = Some (JStr after)"
      "(\<exists>b. map_of req ''before'' = Some (JStr b)) \<or> map_of req ''before'' = Some JNull"
    using assms unfolding typed_request_def has_text_def by blast
  then show ?thesis using True by (auto simp: encodeRequest_def member_of_def json_field_def split: prod.split)
qed (simp add: encodeRequest_def member_of_def json_field_def)

lemma typed_item_ok:
  assumes "typed_item date it"
  shows "item_ok date it"
proof -
  have v: "withValidVersion date it = it" using assms unfolding typed_item_def withValidVersion_def by auto
  have base: "as_str (map_of it ''id'') \<noteq> None" "as_str (map_of it ''createdAt'') \<noteq> None"
    using assms by (auto simp: typed_item_def has_text_def as_str_def)
  from assms consider "typed_message it" | "typed_tool it" | "typed_card it" unfolding typed_item_def by blast
  then show ?thesis
  proof cases
    case 1
    then obtain k where k: "map_of it ''kind'' = Some (JStr k)" "k \<in> {''user'', ''assistant'', ''error'', ''notice''}"
      unfolding typed_message_def by blast
    then have "isStoredItem (JObj it)" "\<not> item_is ''kind'' ''tool'' it" "\<not> item_is ''kind'' ''approval'' it"
      using base by (auto simp: isStoredItem_def KINDS_def item_is_def)
    then show ?thesis using v by (simp add: item_ok_def decodeItem_def withValidUndo_def encodeItem_def)
  next
    case 2
    then have "isStoredItem (JObj it)" "\<not> item_is ''kind'' ''approval'' it"
      using base by (auto simp: typed_tool_def isStoredItem_def KINDS_def item_is_def)
    moreover have "case map_of it ''call'' of None \<Rightarrow> True | Some call \<Rightarrow> isReplayableCall call"
      using 2 typed_call_replays by (auto simp: typed_tool_def)
    ultimately show ?thesis
      using v by (simp add: item_ok_def decodeItem_def withValidUndo_def encodeItem_def split: option.splits)
  next
    case 3
    then obtain req where req: "map_of it ''request'' = Some (JObj req)" "typed_request req"
        "map_of it ''undo'' = None \<or> map_of it ''status'' = Some (JStr ''allowed'') \<and> map_of req ''type'' = Some (JStr ''patch'') \<and>
          map_of it ''undo'' \<in> {Some (JStr ''done''), Some (JStr ''stranded'')}" and kind: "map_of it ''kind'' = Some (JStr ''approval'')"
      unfolding typed_card_def by blast
    have "isStoredItem (JObj it)" using base kind by (simp add: isStoredItem_def KINDS_def)
    moreover have "withValidUndo it = Inr it"
      using req(1,3) kind by (auto simp: withValidUndo_def item_is_def member_of_def json_field_def)
    moreover have "\<not> item_is ''kind'' ''tool'' it" "item_is ''kind'' ''approval'' it" using kind by (simp_all add: item_is_def)
    moreover obtain r where "encodeRequest (Some (JObj req)) = Inr (Some r)" using typed_request_encodes [OF req(2)] by blast
    ultimately show ?thesis using v req(1) by (simp add: item_ok_def decodeItem_def encodeItem_def)
  qed
qed

text \<open>What storing makes of an item: a pending question is unanswered, the request may be cut, nothing else changes.\<close>

definition stored_as :: "chat_item \<Rightarrow> chat_item \<Rightarrow> bool" where
  "stored_as it it' \<longleftrightarrow>
     (if map_of it ''kind'' = Some (JStr ''approval'')
      then map_of it' ''status'' = (if map_of it ''status'' = Some (JStr ''pending'') then Some (JStr ''unanswered'') else map_of it ''status'') \<and>
        (\<forall>k. k \<noteq> ''status'' \<and> k \<noteq> ''request'' \<longrightarrow> map_of it' k = map_of it k)
      else it' = it)"

lemma encode_stored_as:
  assumes "encodeItem it = Inr it'"
  shows "stored_as it it'"
  using assms encodeItem_keeps [OF assms] encodeItem_status [OF assms]
  by (cases rule: encodeItem_cases) (auto simp: stored_as_def item_is_def)


definition example_date :: "string \<Rightarrow> rat option" where
  "example_date s = (if s = [] then None else Some (of_nat (length s)))"

definition example_card :: chat_item where
  "example_card =
     [(''id'', JStr ''b''), (''createdAt'', JStr ''2''), (''kind'', JStr ''approval''), (''status'', JStr ''pending''),
      (''request'', JObj [(''type'', JStr ''patch''), (''before'', JNull), (''after'', JStr ''x'')])]"

definition example_question :: chat_item where
  "example_question = [(''id'', JStr ''a''), (''createdAt'', JStr ''1''), (''kind'', JStr ''user''), (''text'', JStr ''hi'')]"

definition example_call :: chat_item where
  "example_call = [(''id'', JStr ''c''), (''createdAt'', JStr ''3''), (''kind'', JStr ''tool''), (''label'', JStr ''Read''),
     (''call'', JObj [(''name'', JStr ''read_file''), (''input'', JObj []), (''output'', JStr ''fn'')])]"

lemma example_items_ok: "list_all (typed_item example_date) [example_question, example_card, example_call]"
proof -
  have "typed_call [(''name'', JStr ''read_file''), (''input'', JObj []), (''output'', JStr ''fn'')]"
  proof -
    have "CHR ''r'' \<in> set LETTERS" "set ''ead_file'' \<subseteq> set (LETTERS @ ''0123456789-'')" "\<not> list_all js_space ''fn''" by code_simp+
    then show ?thesis unfolding typed_call_def by force
  qed
  then show ?thesis
    by (simp add: typed_item_def typed_message_def typed_tool_def typed_card_def typed_request_def has_text_def example_question_def example_card_def example_call_def)
qed

definition example_stored :: "chat_item list" where
  "example_stored = [example_question, obj_set ''status'' (JStr ''unanswered'') example_card, example_call]"

lemma example_encoded: "encodeThread (capThread ''t'' [example_question, example_card, example_call] 200) = Inr example_stored"
  by (simp add: example_stored_def example_question_def example_card_def example_call_def capThread_def withoutTruncationNotice_def item_text_def
      encodeThread_def encodeItem_def encodeRequest_def member_of_def json_field_def item_is_def obj_set_def)


section \<open>Merging two copies of a thread\<close>

definition collates :: "(string \<Rightarrow> string \<Rightarrow> int) \<Rightarrow> bool" where
  "collates cmp \<longleftrightarrow>
     (\<forall>x y. cmp x y \<le> 0 \<or> cmp y x \<le> 0) \<and> (\<forall>x y. cmp x y \<le> 0 \<and> cmp y x \<le> 0 \<longrightarrow> x = y) \<and>
     (\<forall>x y z. cmp x y \<le> 0 \<and> cmp y z \<le> 0 \<longrightarrow> cmp x z \<le> 0)"

definition in_order :: "(string \<Rightarrow> string \<Rightarrow> int) \<Rightarrow> chat_item \<Rightarrow> chat_item \<Rightarrow> bool" where
  "in_order cmp a b \<longleftrightarrow> byTime cmp a b \<le> 0"

lemma in_order_iff:
  "in_order cmp a b \<longleftrightarrow>
     (if item_text ''createdAt'' a = item_text ''createdAt'' b then cmp (item_id a) (item_id b) \<le> 0
      else cmp (item_text ''createdAt'' a) (item_text ''createdAt'' b) \<le> 0)"
  by (simp add: in_order_def byTime_def item_id_def)

lemma collates_total: "collates cmp \<Longrightarrow> \<not> cmp x y \<le> 0 \<Longrightarrow> cmp y x \<le> 0"
  unfolding collates_def by blast

lemma collates_antisym: "collates cmp \<Longrightarrow> cmp x y \<le> 0 \<Longrightarrow> cmp y x \<le> 0 \<Longrightarrow> x = y"
  unfolding collates_def by blast

lemma collates_trans: "collates cmp \<Longrightarrow> cmp x y \<le> 0 \<Longrightarrow> cmp y z \<le> 0 \<Longrightarrow> cmp x z \<le> 0"
  unfolding collates_def by blast

lemma in_order_total:
  assumes "collates cmp"
  shows "in_order cmp a b \<or> in_order cmp b a"
  using collates_total [OF assms, of "item_id a" "item_id b"]
    collates_total [OF assms, of "item_text ''createdAt'' a" "item_text ''createdAt'' b"]
  by (auto simp: in_order_iff)

lemma in_order_trans:
  assumes "collates cmp" and "in_order cmp a b" and "in_order cmp b c"
  shows "in_order cmp a c"
  using assms(2,3) collates_trans [OF assms(1), of "item_id a" "item_id b" "item_id c"]
    collates_trans [OF assms(1), of "item_text ''createdAt'' a" "item_text ''createdAt'' b" "item_text ''createdAt'' c"]
    collates_antisym [OF assms(1), of "item_text ''createdAt'' a" "item_text ''createdAt'' b"]
  by (cases "item_text ''createdAt'' a = item_text ''createdAt'' b"; cases "item_text ''createdAt'' b = item_text ''createdAt'' c")
    (auto simp: in_order_iff)

lemma in_order_antisym:
  assumes "collates cmp" and "in_order cmp a b" and "in_order cmp b a"
  shows "item_id a = item_id b"
  using assms(2,3) collates_antisym [OF assms(1), of "item_id a" "item_id b"]
    collates_antisym [OF assms(1), of "item_text ''createdAt'' a" "item_text ''createdAt'' b"]
  by (cases "item_text ''createdAt'' a = item_text ''createdAt'' b") (simp_all add: in_order_iff)

lemma set_insert_item [simp]: "set (insert_item cmp x ys) = insert x (set ys)"
  by (induction ys) auto

lemma distinct_insert_item: "distinct (map f (insert_item cmp x ys)) \<longleftrightarrow> distinct (f x # map f ys)"
  by (induction ys) (auto simp: image_iff)

lemma set_js_sort [simp]: "set (js_sort cmp xs) = set xs"
  by (induction xs) (auto simp: js_sort_def)

lemma distinct_js_sort: "distinct (map f (js_sort cmp xs)) \<longleftrightarrow> distinct (map f xs)"
proof (induction xs)
  case (Cons x xs)
  have "js_sort cmp (x # xs) = insert_item cmp x (js_sort cmp xs)" by (simp add: js_sort_def)
  then show ?case using Cons by (simp add: distinct_insert_item)
qed (simp add: js_sort_def)

lemma sorted_insert_item:
  assumes "collates cmp" and "sorted_wrt (in_order cmp) ys"
  shows "sorted_wrt (in_order cmp) (insert_item (byTime cmp) x ys)"
  using assms(2)
proof (induction ys)
  case (Cons y ys)
  show ?case
  proof (cases "in_order cmp x y")
    case True
    then show ?thesis using Cons.prems in_order_trans [OF assms(1) True] by (auto simp: in_order_def [symmetric])
  next
    case False
    then have "in_order cmp y x" using in_order_total [OF assms(1)] by blast
    then show ?thesis using Cons False by (auto simp: in_order_def [symmetric])
  qed
qed simp

lemma sorted_js_sort: "collates cmp \<Longrightarrow> sorted_wrt (in_order cmp) (js_sort (byTime cmp) xs)"
  by (induction xs) (auto simp: js_sort_def sorted_insert_item)

lemma sorted_unique:
  assumes "\<And>a b. a \<in> set xs \<Longrightarrow> b \<in> set xs \<Longrightarrow> R a b \<Longrightarrow> R b a \<Longrightarrow> a = b"
    and "sorted_wrt R xs" and "sorted_wrt R ys" and "set xs = set ys" and "distinct xs" and "distinct ys"
  shows "xs = ys"
  using assms
proof (induction xs arbitrary: ys)
  case (Cons x xs)
  then obtain y ys' where ys: "ys = y # ys'" by (cases ys) auto
  have "x = y"
  proof (rule ccontr)
    assume "x \<noteq> y"
    then have "y \<in> set xs" "x \<in> set ys'" using Cons.prems(4) ys by auto
    then have "R x y" "R y x" using Cons.prems(2,3) ys by auto
    then show False using Cons.prems(1,4) ys \<open>x \<noteq> y\<close> by auto
  qed
  moreover have "set xs = set ys'" using Cons.prems(4-6) ys \<open>x = y\<close> by auto
  then have "xs = ys'" using Cons.prems ys by (intro Cons.IH) simp_all
  ultimately show ?case using ys by simp
qed simp

text \<open>The copy a merge keeps of an item that is in one thread or in both.\<close>

definition indexed :: "chat_item list \<Rightarrow> chat_item js_obj" where
  "indexed xs = map (\<lambda>it. (item_id it, it)) xs"

definition newer_copy :: "(string \<Rightarrow> rat option) \<Rightarrow> chat_item option \<Rightarrow> chat_item option \<Rightarrow> chat_item option" where
  "newer_copy date t l =
     (case (t, l) of
        (None, _) \<Rightarrow> l
      | (Some a, None) \<Rightarrow> Some a
      | (Some a, Some b) \<Rightarrow> if later (versionOf date a) (versionOf date b) then Some a else Some b)"

lemma keys_indexed [simp]: "map fst (indexed xs) = map item_id xs"
  by (simp add: indexed_def comp_def)

lemma indexed_Cons: "indexed (x # xs) = (item_id x, x) # indexed xs"
  by (simp add: indexed_def)

lemma map_of_indexed_None: "map_of (indexed xs) i = None \<longleftrightarrow> i \<notin> set (map item_id xs)"
  by (simp add: map_of_eq_None_iff indexed_def image_image)

lemma fold_theirs:
  "distinct (map item_id xs) \<Longrightarrow>
     map_of (foldl (\<lambda>m it. obj_set (item_text ''id'' it) it m) m xs) = map_of m ++ map_of (indexed xs)"
proof (induction xs arbitrary: m)
  case (Cons x xs)
  then show ?case
    using map_of_indexed_None [of xs "item_id x"]
    by (auto simp: item_id_def [symmetric] indexed_Cons map_add_def fun_eq_iff split: option.split)
qed (simp add: indexed_def)

lemma keep_newer_at:
  "map_of (keep_newer date m x) i = (if i = item_id x then newer_copy date (map_of m i) (Some x) else map_of m i)"
  by (auto simp: keep_newer_def newer_copy_def item_id_def split: option.split)

lemma fold_local:
  "distinct (map item_id xs) \<Longrightarrow>
     map_of (foldl (keep_newer date) m xs) i = newer_copy date (map_of m i) (map_of (indexed xs) i)"
proof (induction xs arbitrary: m)
  case (Cons x xs)
  have step: "map_of (foldl (keep_newer date) m (x # xs)) i =
      newer_copy date (if i = item_id x then newer_copy date (map_of m i) (Some x) else map_of m i) (map_of (indexed xs) i)"
    using Cons by (simp add: keep_newer_at)
  show ?case
  proof (cases "i = item_id x")
    case True
    then have "map_of (indexed xs) i = None" using Cons.prems by (simp add: map_of_indexed_None)
    then show ?thesis using step True by (simp add: indexed_Cons newer_copy_def split: option.split)
  next
    case False
    then show ?thesis using step by (simp add: indexed_Cons)
  qed
qed (simp add: indexed_def newer_copy_def split: option.split)

text \<open>The map both loops fill: every item under its own id, each id once.\<close>

definition by_id :: "chat_item js_obj \<Rightarrow> bool" where
  "by_id m \<longleftrightarrow> distinct (map fst m) \<and> (\<forall>(k, v)\<in>set m. k = item_id v)"

lemma by_id_set: "by_id m \<Longrightarrow> by_id (obj_set (item_id x) x m)"
proof -
  have "\<forall>(k, v)\<in>set (AList.update (item_id x) x m). k = item_id v" if "\<forall>(k, v)\<in>set m. k = item_id v"
    using that by (induction m) (auto split: if_splits)
  then show "by_id m \<Longrightarrow> ?thesis" by (simp add: by_id_def obj_set_def distinct_update)
qed

lemma by_id_filled:
  "by_id (foldl (keep_newer date) (foldl (\<lambda>m it. obj_set (item_text ''id'' it) it m) [] theirs) local)"
proof -
  have "by_id (foldl (\<lambda>m it. obj_set (item_text ''id'' it) it m) m theirs)" if "by_id m" for m
    using that by (induction theirs arbitrary: m) (auto simp: by_id_set item_id_def [symmetric])
  moreover have "by_id (keep_newer date m x)" if "by_id m" for m x
    using that by (simp add: keep_newer_def by_id_set item_id_def [symmetric] split: option.split)
  then have "by_id (foldl (keep_newer date) m local)" if "by_id m" for m
    using that by (induction local arbitrary: m) auto
  moreover have "by_id []" by (simp add: by_id_def)
  ultimately show ?thesis by blast
qed

lemma indexed_values: "by_id m \<Longrightarrow> indexed (map snd m) = m"
  by (induction m) (auto simp: indexed_def by_id_def)

lemma mergeThreads_spec:
  assumes "collates cmp" and "distinct (map item_id theirs)" and "distinct (map item_id local)"
  shows "distinct (map item_id (mergeThreads date cmp theirs local))"
    and "sorted_wrt (in_order cmp) (mergeThreads date cmp theirs local)"
    and "map_of (indexed (mergeThreads date cmp theirs local)) i =
      newer_copy date (map_of (indexed theirs) i) (map_of (indexed local) i)"
proof -
  define m where "m = foldl (keep_newer date) (foldl (\<lambda>m it. obj_set (item_text ''id'' it) it m) [] theirs) local"
  have ok: "by_id m" unfolding m_def by (rule by_id_filled)
  have merged: "mergeThreads date cmp theirs local = js_sort (byTime cmp) (map snd m)"
    by (simp add: mergeThreads_def m_def)
  have ids: "distinct (map item_id (map snd m))"
    using ok indexed_values [OF ok] keys_indexed [of "map snd m"] by (simp only: by_id_def)
  show d: "distinct (map item_id (mergeThreads date cmp theirs local))" unfolding merged using ids by (simp only: distinct_js_sort)
  show "sorted_wrt (in_order cmp) (mergeThreads date cmp theirs local)" unfolding merged by (rule sorted_js_sort [OF assms(1)])
  have "set (indexed (mergeThreads date cmp theirs local)) = set (indexed (map snd m))"
    unfolding merged by (simp add: indexed_def image_image)
  then have "map_of (indexed (mergeThreads date cmp theirs local)) = map_of (indexed (map snd m))"
    using d ids by (subst map_of_inject_set) simp_all
  also have "\<dots> = map_of m" using indexed_values [OF ok] by simp
  finally show "map_of (indexed (mergeThreads date cmp theirs local)) i =
      newer_copy date (map_of (indexed theirs) i) (map_of (indexed local) i)"
    using fold_local [OF assms(3)] fold_theirs [OF assms(2), of "[]"] by (simp add: m_def)
qed

lemma same_thread:
  assumes "collates cmp" and "sorted_wrt (in_order cmp) xs" and "sorted_wrt (in_order cmp) ys"
    and "distinct (map item_id xs)" and "distinct (map item_id ys)" and "map_of (indexed xs) = map_of (indexed ys)"
  shows "xs = ys"
proof (rule sorted_unique [OF _ assms(2,3)])
  have "set (indexed xs) = set (indexed ys)" using assms(4-6) map_of_inject_set [of "indexed xs" "indexed ys"] by simp
  then have "snd ` set (indexed xs) = snd ` set (indexed ys)" by simp
  then show "set xs = set ys" by (simp add: indexed_def image_image)
  show "a = b" if "a \<in> set xs" "b \<in> set xs" "in_order cmp a b" "in_order cmp b a" for a b
    using in_order_antisym [OF assms(1) that(3,4)] that(1,2) assms(4) by (auto simp: distinct_map dest: inj_onD)
qed (use assms(4,5) in \<open>auto simp: distinct_map\<close>)

text \<open>
  C32: two devices make the same thread of the same copies. A merge holds every item of either copy once, oldest first, each in its newer
  version, and in this device's where neither is newer; merging with the same copy again changes nothing; and where
  copies of an item that differ have versions that differ, it does not matter which device merges. Assumed are different ids within
  each copy, and that \<^verbatim>\<open>localeCompare\<close> is one total order of the times and ids, the same on both devices.
\<close>

theorem threads_merge_alike:
  assumes "collates cmp" and "distinct (map item_id theirs)" and "distinct (map item_id local)"
  shows "(\<forall>i. map_of (indexed (mergeThreads date cmp theirs local)) i =
      newer_copy date (map_of (indexed theirs) i) (map_of (indexed local) i)) \<and>
    distinct (map item_id (mergeThreads date cmp theirs local)) \<and>
    sorted_wrt (in_order cmp) (mergeThreads date cmp theirs local) \<and>
    mergeThreads date cmp theirs (mergeThreads date cmp theirs local) = mergeThreads date cmp theirs local \<and>
    ((\<forall>a \<in> set theirs. \<forall>b \<in> set local. item_id a = item_id b \<longrightarrow>
        a = b \<or> later (versionOf date a) (versionOf date b) \<or> later (versionOf date b) (versionOf date a)) \<longrightarrow>
      mergeThreads date cmp local theirs = mergeThreads date cmp theirs local)"
proof -
  let ?m = "mergeThreads date cmp theirs local"
  note m = mergeThreads_spec [OF assms, of date]
  have asym: "later x y \<Longrightarrow> \<not> later y x" for x y by (auto simp: later_def split: option.splits)
  have "mergeThreads date cmp theirs ?m = ?m"
  proof (rule same_thread [OF assms(1)])
    note again = mergeThreads_spec [OF assms(1,2) m(1), of date]
    show "sorted_wrt (in_order cmp) (mergeThreads date cmp theirs ?m)" "distinct (map item_id (mergeThreads date cmp theirs ?m))"
      by (rule again(2), rule again(1))
    show "map_of (indexed (mergeThreads date cmp theirs ?m)) = map_of (indexed ?m)"
      using asym by (auto simp: fun_eq_iff again(3) m(3) newer_copy_def split: option.split)
  qed (rule m)+
  moreover have "mergeThreads date cmp local theirs = ?m"
    if settled: "\<forall>a \<in> set theirs. \<forall>b \<in> set local. item_id a = item_id b \<longrightarrow>
        a = b \<or> later (versionOf date a) (versionOf date b) \<or> later (versionOf date b) (versionOf date a)"
  proof (rule same_thread [OF assms(1)])
    note other = mergeThreads_spec [OF assms(1,3,2), of date]
    show "sorted_wrt (in_order cmp) (mergeThreads date cmp local theirs)" "distinct (map item_id (mergeThreads date cmp local theirs))"
      by (rule other(2), rule other(1))
    have "a = b \<or> later (versionOf date a) (versionOf date b) \<or> later (versionOf date b) (versionOf date a)"
      if "map_of (indexed theirs) i = Some a" "map_of (indexed local) i = Some b" for i a b
    proof -
      have "a \<in> set theirs" "b \<in> set local" "item_id a = item_id b"
        using that by (auto simp: indexed_def dest!: map_of_SomeD)
      then show ?thesis using settled by blast
    qed
    then show "map_of (indexed (mergeThreads date cmp local theirs)) = map_of (indexed ?m)"
      using asym by (auto simp: fun_eq_iff other(3) m(3) newer_copy_def split: option.split)
  qed (rule m)+
  ultimately show ?thesis using m by blast
qed

definition example_cmp :: "string \<Rightarrow> string \<Rightarrow> int" where
  "example_cmp x y = (if x < y then - 1 else if x = y then 0 else 1)"

lemma example_collates: "collates example_cmp"
  unfolding collates_def example_cmp_def by (auto split: if_splits)

theorem threads_merge_alike_witness:
  "mergeThreads example_date example_cmp [example_question, example_card] [obj_set ''updatedAt'' (JStr ''33'') example_card] =
   mergeThreads example_date example_cmp [obj_set ''updatedAt'' (JStr ''33'') example_card] [example_question, example_card]"
proof -
  let ?new = "obj_set ''updatedAt'' (JStr ''33'') example_card"
  have ids: "item_id example_question = ''a''" "item_id example_card = ''b''" "item_id ?new = ''b''"
    by (simp_all add: item_id_def item_text_def example_question_def example_card_def obj_set_def)
  have "later (versionOf example_date ?new) (versionOf example_date example_card)"
    by (simp add: later_def versionOf_def example_date_def example_card_def item_text_def obj_set_def)
  then show ?thesis
    using threads_merge_alike [OF example_collates, of "[example_question, example_card]" "[?new]" example_date] ids by simp
qed

section \<open>Showing a thread to a model again\<close>

text \<open>A history in which every call is directly followed by its result, under the same id and name.\<close>

fun paired :: "replay_message list \<Rightarrow> bool" where
  "paired [] = True"
| "paired (Said r t # ms) = paired ms"
| "paired (CallMessage i n x # ResultMessage j k f out # ms) = (i = j \<and> n = k \<and> paired ms)"
| "paired _ = False"

fun call_ids :: "replay_message list \<Rightarrow> string list" where
  "call_ids [] = []"
| "call_ids (CallMessage i n x # ms) = i # call_ids ms"
| "call_ids (_ # ms) = call_ids ms"

fun message_size :: "(json \<Rightarrow> string) \<Rightarrow> replay_message \<Rightarrow> nat" where
  "message_size stringify (Said r t) = 0"
| "message_size stringify (CallMessage i n x) = length n + length (stringify (JObj x))"
| "message_size stringify (ResultMessage i n f out) = length (stringify (JStr out))"

definition calls_size :: "(json \<Rightarrow> string) \<Rightarrow> replay_message list \<Rightarrow> nat" where
  "calls_size stringify ms = sum_list (map (message_size stringify) ms)"

lemma paired_append: "paired ms \<Longrightarrow> paired ns \<Longrightarrow> paired (ms @ ns)"
  by (induction ms rule: paired.induct) auto

lemma said_messages: "said it = Inr ms \<Longrightarrow> paired ms \<and> call_ids ms = [] \<and> calls_size stringify ms = 0"
  by (auto simp: said_def calls_size_def split: if_splits option.splits json.splits)

lemma call_ids_append: "call_ids (ms @ ns) = call_ids ms @ call_ids ns"
  by (induction ms rule: call_ids.induct) auto

lemma calls_size_append: "calls_size stringify (ms @ ns) = calls_size stringify ms + calls_size stringify ns"
  by (simp add: calls_size_def)

lemma replay_paired: "replay_items replayed n its = Inr ms \<Longrightarrow> paired ms"
proof (induction replayed n its arbitrary: ms rule: replay_items.induct)
  case (2 replayed n it its)
  show ?case
  proof (cases "call_of it = None")
    case True
    then show ?thesis using 2 said_messages by (auto simp: paired_append split: sum.splits)
  next
    case False
    then show ?thesis using 2 by (auto simp: Let_def split: sum.splits option.splits)
  qed
qed simp

lemma replay_ids:
  "replay_items replayed n its = Inr ms \<Longrightarrow> \<exists>k. call_ids ms = map (\<lambda>j. ''call_'' @ js_nat (Suc j)) [n..<n + k]"
proof (induction replayed n its arbitrary: ms rule: replay_items.induct)
  case (2 replayed n it its)
  show ?case
  proof (cases "call_of it = None")
    case True
    then show ?thesis using 2 said_messages by (auto simp: call_ids_append split: sum.splits)
  next
    case False
    show ?thesis
    proof (cases "map_of replayed (item_text ''id'' it)")
      case None
      then show ?thesis using 2 False by simp
    next
      case (Some c)
      then obtain ms' where ms': "replay_items replayed (Suc n) its = Inr ms'"
          "call_ids ms = (''call_'' @ js_nat (Suc n)) # call_ids ms'"
        using 2(4) False by (auto simp: Let_def split: sum.splits)
      then obtain k where "call_ids ms' = map (\<lambda>j. ''call_'' @ js_nat (Suc j)) [Suc n..<Suc n + k]"
        using 2(2) False Some by blast
      then show ?thesis using ms'(2) by (intro exI [of _ "Suc k"]) (simp add: upt_conv_Cons)
    qed
  qed
qed (auto intro: exI [of _ 0])

lemma replay_ids_distinct: "replay_items replayed n its = Inr ms \<Longrightarrow> distinct (call_ids ms)"
  using replay_ids [of replayed n its ms] by (auto simp: distinct_map inj_on_def)

text \<open>What the kept calls weigh, by id.\<close>

definition weight :: "(json \<Rightarrow> string) \<Rightarrow> tool_call js_obj \<Rightarrow> string \<Rightarrow> nat" where
  "weight stringify m i = (case map_of m i of None \<Rightarrow> 0 | Some c \<Rightarrow> sizeOf stringify c)"

definition total_size :: "(json \<Rightarrow> string) \<Rightarrow> tool_call js_obj \<Rightarrow> nat" where
  "total_size stringify m = sum_list (map (\<lambda>(i, c). sizeOf stringify c) m)"

lemma weight_Cons: "weight stringify ((k, c) # m) i = (if i = k then sizeOf stringify c else weight stringify m i)"
  by (simp add: weight_def)

lemma weight_total: "finite A \<Longrightarrow> sum (weight stringify m) A \<le> total_size stringify m"
proof (induction m)
  case (Cons kc m)
  obtain k c where kc: "kc = (k, c)" by (cases kc)
  have "sum (weight stringify (kc # m)) A \<le> sum (\<lambda>i. (if i = k then sizeOf stringify c else 0) + weight stringify m i) A"
    unfolding kc by (rule sum_mono) (simp add: weight_Cons)
  also have "\<dots> \<le> sizeOf stringify c + sum (weight stringify m) A"
    using Cons.prems by (simp add: sum.distrib)
  finally show ?case using Cons by (simp add: kc total_size_def)
qed (simp add: weight_def total_size_def)

lemma total_size_set: "total_size stringify (obj_set i c m) \<le> total_size stringify m + sizeOf stringify c"
  unfolding obj_set_def total_size_def by (induction m) auto

lemma budget_total:
  "0 \<le> left \<Longrightarrow> int (total_size stringify (budget_loop stringify left rs kept)) \<le> int (total_size stringify kept) + left"
proof (induction stringify left rs kept rule: budget_loop.induct)
  case (2 stringify left i c newer kept)
  then show ?case using total_size_set [of stringify i c kept] by (auto split: if_splits)
qed simp

lemma recordsInBudget_total: "int (total_size stringify (recordsInBudget stringify rs)) \<le> REPLAY_CALL_BUDGET"
  using budget_total [of REPLAY_CALL_BUDGET stringify "rev rs" "[]"]
  by (simp add: recordsInBudget_def REPLAY_CALL_BUDGET_def total_size_def)

lemma replay_size:
  "replay_items replayed n its = Inr ms \<Longrightarrow> distinct (map item_id its) \<Longrightarrow>
     calls_size stringify ms \<le> sum (weight stringify replayed) (set (map item_id its))"
proof (induction replayed n its arbitrary: ms rule: replay_items.induct)
  case (2 replayed n it its)
  have split: "sum (weight stringify replayed) (set (map item_id (it # its))) =
      weight stringify replayed (item_id it) + sum (weight stringify replayed) (set (map item_id its))"
    using "2.prems"(2) by simp
  show ?case
  proof (cases "call_of it = None")
    case True
    then obtain xs ys where "said it = Inr xs" "replay_items replayed n its = Inr ys" "ms = xs @ ys"
      using "2.prems"(1) by (auto split: sum.splits)
    moreover from this have "calls_size stringify ys \<le> sum (weight stringify replayed) (set (map item_id its))"
      using 2 True by auto
    ultimately show ?thesis using said_messages unfolding split by (simp add: calls_size_append)
  next
    case False
    show ?thesis
    proof (cases "map_of replayed (item_text ''id'' it)")
      case None
      then have "calls_size stringify ms \<le> sum (weight stringify replayed) (set (map item_id its))"
        using 2 False by auto
      then show ?thesis unfolding split by simp
    next
      case (Some c)
      then obtain ys where ys: "replay_items replayed (Suc n) its = Inr ys"
          "calls_size stringify ms = sizeOf stringify c + calls_size stringify ys"
        using "2.prems"(1) False by (auto simp: Let_def calls_size_def sizeOf_def split: sum.splits)
      then have "calls_size stringify ys \<le> sum (weight stringify replayed) (set (map item_id its))"
        using 2 False Some by auto
      moreover have "weight stringify replayed (item_id it) = sizeOf stringify c"
        using Some by (simp add: weight_def item_id_def)
      ultimately show ?thesis unfolding split using ys(2) by simp
    qed
  qed
qed (simp add: calls_size_def)

text \<open>Content of files outside the context is not sent.\<close>

definition hidden :: "(string \<Rightarrow> bool) \<Rightarrow> string \<Rightarrow> json js_obj \<Rightarrow> bool \<Rightarrow> string \<Rightarrow> bool" where
  "hidden ctx n x f out \<longleftrightarrow>
     (case map_of x ''path'' of
        Some (JStr p) \<Rightarrow>
          ctx p \<or> (n = ''read_file'' \<and> \<not> f \<longrightarrow> out = outOfContext p) \<and>
            (n = ''write_file'' \<and> obj_has x ''content'' \<longrightarrow> map_of x ''content'' = Some (JStr (outOfContext p)))
      | _ \<Rightarrow> True)"

fun all_hidden :: "(string \<Rightarrow> bool) \<Rightarrow> replay_message list \<Rightarrow> bool" where
  "all_hidden ctx (CallMessage i n x # ResultMessage j k f out # ms) = (hidden ctx n x f out \<and> all_hidden ctx ms)"
| "all_hidden ctx (m # ms) = all_hidden ctx ms"
| "all_hidden ctx [] = True"

lemma shown_hidden:
  "hidden ctx (tc_name (shownWith ctx c)) (tc_input (shownWith ctx c)) (tc_failed (shownWith ctx c)) (tc_output (shownWith ctx c))"
  by (auto simp: hidden_def shownWith_def obj_has_def split: option.splits json.splits)

lemma said_hidden: "said it = Inr xs \<Longrightarrow> all_hidden ctx (xs @ ms) = all_hidden ctx ms"
  by (auto simp: said_def split: if_splits option.splits json.splits)

lemma records_shown: "records_of ctx its = Inr rs \<Longrightarrow> (i, c) \<in> set rs \<Longrightarrow> \<exists>c0. c = shownWith ctx c0"
  by (induction ctx its arbitrary: rs rule: records_of.induct) (auto split: option.splits sum.splits)

lemma budget_members: "map_of (budget_loop stringify left rs kept) i = Some c \<Longrightarrow> (i, c) \<in> set rs \<or> map_of kept i = Some c"
  by (induction stringify left rs kept rule: budget_loop.induct) (auto split: if_splits)

lemma replay_hidden:
  assumes "\<And>i c. map_of replayed i = Some c \<Longrightarrow> hidden ctx (tc_name c) (tc_input c) (tc_failed c) (tc_output c)"
  shows "replay_items replayed n its = Inr ms \<Longrightarrow> all_hidden ctx ms"
  using assms
proof (induction replayed n its arbitrary: ms rule: replay_items.induct)
  case (2 replayed n it its)
  show ?case
  proof (cases "call_of it = None")
    case True
    then show ?thesis using 2 by (auto simp: said_hidden split: sum.splits)
  next
    case False
    then show ?thesis using 2 by (auto simp: Let_def split: sum.splits option.splits)
  qed
qed simp

lemma dropWhile_facts:
  assumes "paired ms"
  shows "paired (dropWhile (\<lambda>m. \<not> from_user m) ms) \<and>
    (\<exists>is. call_ids ms = is @ call_ids (dropWhile (\<lambda>m. \<not> from_user m) ms)) \<and>
    calls_size stringify (dropWhile (\<lambda>m. \<not> from_user m) ms) \<le> calls_size stringify ms \<and>
    (all_hidden ctx ms \<longrightarrow> all_hidden ctx (dropWhile (\<lambda>m. \<not> from_user m) ms))"
  using assms by (induction ms rule: paired.induct) (auto simp: calls_size_def)

text \<open>
  C20: a model is shown a well-formed history. What a thread is replayed as opens with the user or is empty; every call of a tool
  is directly followed by its result, with the same id, and the ids are fresh; the calls together keep to the budget; and of a file
  that is no longer in the context, neither the result of a \<^verbatim>\<open>read_file\<close> nor the content of a \<^verbatim>\<open>write_file\<close> is sent again (other
  tools may still name it). The items of the thread are assumed to have different ids.
\<close>

theorem replay_is_well_formed:
  assumes "toReplayMessagesWith stringify ctx items = Inr ms" and "distinct (map item_id items)"
  shows "(ms = [] \<or> from_user (hd ms)) \<and> paired ms \<and> distinct (call_ids ms) \<and>
    int (calls_size stringify ms) \<le> REPLAY_CALL_BUDGET \<and> all_hidden ctx ms"
proof -
  obtain rs ns where rs: "records_of ctx items = Inr rs" and ns: "replay_items (recordsInBudget stringify rs) 0 items = Inr ns"
      and ms: "ms = dropWhile (\<lambda>m. \<not> from_user m) ns"
    using assms(1) by (auto simp: toReplayMessagesWith_def split: sum.splits)
  have "hidden ctx (tc_name c) (tc_input c) (tc_failed c) (tc_output c)" if "map_of (recordsInBudget stringify rs) i = Some c" for i c
    using budget_members [of stringify REPLAY_CALL_BUDGET "rev rs" "[]" i c] that records_shown [OF rs] shown_hidden
    by (auto simp: recordsInBudget_def)
  then have h: "all_hidden ctx ns" using replay_hidden ns by blast
  note d = dropWhile_facts [OF replay_paired [OF ns], of stringify ctx]
  have "calls_size stringify ns \<le> total_size stringify (recordsInBudget stringify rs)"
    using replay_size [OF ns assms(2), of stringify] weight_total [of "set (map item_id items)" stringify "recordsInBudget stringify rs"] by simp
  then have "int (calls_size stringify ms) \<le> REPLAY_CALL_BUDGET"
    using recordsInBudget_total [of stringify rs] d unfolding ms by simp
  moreover have "ms = [] \<or> from_user (hd ms)" unfolding ms using hd_dropWhile [of "\<lambda>m. \<not> from_user m" ns] by auto
  moreover have "distinct (call_ids ms)" using replay_ids_distinct [OF ns] d unfolding ms by (metis distinct_append)
  ultimately show ?thesis using d h unfolding ms by simp
qed

definition example_read :: chat_item where
  "example_read =
     [(''id'', JStr ''c''), (''createdAt'', JStr ''3''), (''kind'', JStr ''tool''), (''label'', JStr ''Read''),
      (''call'', JObj [(''name'', JStr ''read_file''), (''input'', JObj [(''path'', JStr ''k'')]), (''output'', JStr ''secret'')])]"

lemma example_replay:
  "toReplayMessagesWith (\<lambda>j. ''x'') (\<lambda>p. False) [example_question, example_read] =
     Inr [Said ''user'' ''hi'', CallMessage ''call_1'' ''read_file'' [(''path'', JStr ''k'')],
          ResultMessage ''call_1'' ''read_file'' False (outOfContext ''k'')]"
proof -
  have one: "js_nat (Suc 0) = ''1''" by code_simp
  show ?thesis
    by (simp add: one Let_def toReplayMessagesWith_def example_question_def example_read_def call_of_def item_is_def item_text_def as_str_def as_obj_def
      json_field_def shownWith_def recordsInBudget_def REPLAY_CALL_BUDGET_def sizeOf_def obj_set_def said_def js_trim_def js_space_def)
qed

theorem replay_is_well_formed_witness:
  "all_hidden (\<lambda>p. False) [Said ''user'' ''hi'', CallMessage ''call_1'' ''read_file'' [(''path'', JStr ''k'')],
     ResultMessage ''call_1'' ''read_file'' False (outOfContext ''k'')]"
  using replay_is_well_formed [OF example_replay]
  by (simp add: item_id_def item_text_def example_question_def example_read_def)

section \<open>Where the code does not do what it says\<close>

text \<open>
  A call that failed to write a file is shown as one that succeeded once the file is out of the context: the replacement for the
  written content drops the mark of the failure.
\<close>

lemma failed_write_shown_as_done:
  assumes "tc_name c = ''write_file''" and "map_of (tc_input c) ''path'' = Some (JStr p)" and "\<not> ctx p" and "obj_has (tc_input c) ''content''"
  shows "\<not> tc_failed (shownWith ctx c)"
  using assms by (simp add: shownWith_def)

text \<open>One damaged card costs the whole conversation: an allowed card with an undo state and no request makes the read throw.\<close>

lemma damaged_card_costs_thread:
  assumes "isStoredItem (JObj it)" and "item_is ''kind'' ''approval'' it" and "item_is ''status'' ''allowed'' it"
    and "map_of it ''undo'' \<noteq> None" and "map_of it ''updatedAt'' = None" and "map_of it ''request'' = None"
  shows "decodeThread date (JArr (JObj it # js)) = Inl TypeError"
  using assms by (auto simp: decodeThread_def decodeItem_def withValidVersion_def withValidUndo_def member_of_def item_is_def)

end
