(* ===== verification/Terminal.thy ===== *)
theory Terminal
  imports Paths
begin

text \<open>
  The text side of the terminal: cutting a line into tokens, the word boundaries the cursor jumps to, when a line
  goes on (\<^verbatim>\<open>utils/terminal/utils.ts\<close>), the history of entered lines (\<^verbatim>\<open>utils/terminal/history.ts\<close>) and the answer
  to a yes or no question (\<^verbatim>\<open>utils/terminal/confirm.ts\<close>). An array that was written past its end has holes: a list of
  options. Shown are that a printed list of tokens is read back, and that the history never holds a line twice or more
  lines than its size.
\<close>

section \<open>Tokens\<close>

definition BLANK :: char where
  "BLANK = CHR '' ''"

definition QUOTE :: char where
  "QUOTE = CHR 0x22"

definition APOSTROPHE :: char where
  "APOSTROPHE = CHR 0x27"

lemma char_facts [simp]:
  "BLANK \<noteq> QUOTE" "BLANK \<noteq> APOSTROPHE" "QUOTE \<noteq> BLANK" "APOSTROPHE \<noteq> BLANK" "QUOTE \<noteq> APOSTROPHE" "APOSTROPHE \<noteq> QUOTE"
  by (simp_all add: BLANK_def QUOTE_def APOSTROPHE_def)

text \<open>\<^verbatim>\<open>tokens[i] = v\<close>, with holes up to an index past the end, and the reading of an entry for its truth.\<close>

definition arr_put :: "'a option list \<Rightarrow> nat \<Rightarrow> 'a \<Rightarrow> 'a option list" where
  "arr_put xs i v =
     (if i < length xs then xs[i := Some v] else xs @ replicate (i - length xs) None @ [Some v])"

definition arr_text :: "string option list \<Rightarrow> nat \<Rightarrow> string" where
  "arr_text xs i = (if i < length xs then (case xs ! i of None \<Rightarrow> [] | Some t \<Rightarrow> t) else [])"

record tokenizer =
  tk_tokens :: "string option list"
  tk_index :: nat
  tk_quoted :: bool

definition add_char :: "char \<Rightarrow> tokenizer \<Rightarrow> tokenizer" where
  "add_char c t =
     t\<lparr>tk_tokens := arr_put (tk_tokens t) (tk_index t)
        (if arr_text (tk_tokens t) (tk_index t) = [] then [c] else arr_text (tk_tokens t) (tk_index t) @ [c])\<rparr>"

definition parse_char :: "tokenizer \<Rightarrow> char \<Rightarrow> tokenizer" where
  "parse_char t c =
     (if c = QUOTE \<or> c = APOSTROPHE then
        let t' = t\<lparr>tk_quoted := \<not> tk_quoted t\<rparr>
        in if arr_text (tk_tokens t') (tk_index t') = []
           then t'\<lparr>tk_tokens := arr_put (tk_tokens t') (tk_index t') []\<rparr> else t'
      else if c = BLANK then
        (if \<not> tk_quoted t
         then t\<lparr>tk_tokens := arr_put (tk_tokens t) (Suc (tk_index t)) [], tk_index := Suc (tk_index t)\<rparr>
         else add_char c t)
      else add_char c t)"

definition tokenizer_start :: tokenizer where
  "tokenizer_start = \<lparr>tk_tokens = [], tk_index = 0, tk_quoted = False\<rparr>"

definition parse :: "string \<Rightarrow> string option list" where
  "parse input = tk_tokens (foldl parse_char tokenizer_start input)"

text \<open>The way back, as the shell puts a line together again: a token with a blank in it is quoted.\<close>

definition quote_token :: "string \<Rightarrow> string" where
  "quote_token token = (if js_includes [BLANK] token then [QUOTE] @ token @ [QUOTE] else token)"

fun join_blank :: "string list \<Rightarrow> string" where
  "join_blank [] = []"
| "join_blank [t] = t"
| "join_blank (t # u # ts) = t @ [BLANK] @ join_blank (u # ts)"

definition getIsOption :: "string \<Rightarrow> bool" where
  "getIsOption token \<longleftrightarrow> prefix ''-'' token"

section \<open>Words and lines\<close>

text \<open>The matches of a run of word characters, each with its place and length.\<close>

function word_matches :: "nat \<Rightarrow> string \<Rightarrow> (nat \<times> nat) list" where
  "word_matches pos s =
     (let t = dropWhile (\<lambda>c. \<not> word_char c) s; start = pos + (length s - length t); w = length (takeWhile word_char t)
      in if t = [] then [] else (start, w) # word_matches (start + w) (drop w t))"
  by auto
termination
proof (relation "measure (\<lambda>(pos, s). length s)", goal_cases)
  case (2 pos s t start w)
  then have "t \<noteq> []" "word_char (hd t)" using hd_dropWhile [of "\<lambda>c. \<not> word_char c" s] by auto
  then have "takeWhile word_char t \<noteq> []" by (cases t) simp_all
  then have "0 < w" using 2 by simp
  moreover have "length t \<le> length s" using 2 by (simp add: length_dropWhile_le)
  ultimately show ?case using \<open>t \<noteq> []\<close> by (cases t) auto
qed simp

declare word_matches.simps [simp del]

definition getWordBoundaries :: "string \<Rightarrow> bool \<Rightarrow> nat list" where
  "getWordBoundaries input leftSide =
     map (\<lambda>(i, n). if leftSide then i else i + n) (word_matches 0 input)"

definition closestLeftBoundary :: "string \<Rightarrow> nat \<Rightarrow> nat" where
  "closestLeftBoundary input offset =
     (case find (\<lambda>x. x < offset) (rev (getWordBoundaries input True)) of None \<Rightarrow> 0 | Some x \<Rightarrow> x)"

definition closestRightBoundary :: "string \<Rightarrow> nat \<Rightarrow> nat" where
  "closestRightBoundary input offset =
     (case find (\<lambda>x. x > offset) (getWordBoundaries input False) of None \<Rightarrow> length input | Some x \<Rightarrow> x)"

text \<open>The last piece of \<^verbatim>\<open>input.split\<close> at the operators for or, pipe and and.\<close>

fun last_piece :: "string \<Rightarrow> string \<Rightarrow> string" where
  "last_piece acc [] = acc"
| "last_piece acc [c] = (if c = CHR ''|'' then [] else acc @ [c])"
| "last_piece acc (c # d # cs) =
     (if c = CHR ''|'' then (if d = CHR ''|'' then last_piece [] cs else last_piece [] (d # cs))
      else if c = CHR ''&'' \<and> d = CHR ''&'' then last_piece [] cs
      else last_piece (acc @ [c]) (d # cs))"

definition isIncompleteInput :: "string \<Rightarrow> bool" where
  "isIncompleteInput input =
     (if js_trim input = [] then False
      else if length (filter (\<lambda>c. c = APOSTROPHE) input) mod 2 \<noteq> 0 then True
      else if length (filter (\<lambda>c. c = QUOTE) input) mod 2 \<noteq> 0 then True
      else if js_trim (last_piece [] input) = [] then True
      else suffix [CHR 0x5C] input \<and> \<not> suffix [CHR 0x5C, CHR 0x5C] input)"

section \<open>History\<close>

record history =
  hi_size :: nat
  hi_cursor :: nat
  hi_entries :: "string list"

definition new_history :: "nat \<Rightarrow> history" where
  "new_history n = \<lparr>hi_size = n, hi_cursor = 0, hi_entries = []\<rparr>"

text \<open>\<^verbatim>\<open>indexOf\<close>, where the entry is there.\<close>

definition entry_index :: "string \<Rightarrow> string list \<Rightarrow> nat option" where
  "entry_index e es = (if e \<in> set es then Some (length (takeWhile (\<lambda>x. x \<noteq> e) es)) else None)"

definition without_entry :: "string \<Rightarrow> string list \<Rightarrow> string list" where
  "without_entry e es =
     (case entry_index e es of
        None \<Rightarrow> es
      | Some i \<Rightarrow> take i es @ drop (if i = length es - 1 then i else i + 1) es)"

definition push :: "string \<Rightarrow> history \<Rightarrow> history" where
  "push e h =
     (if e = [] \<or> e = ''!!'' then h
      else let es = without_entry e (hi_entries h);
               es' = (if es = [] \<or> last es \<noteq> e then es @ [e] else es);
               es'' = (if length es' > hi_size h then drop 1 es' else es')
           in h\<lparr>hi_entries := es'', hi_cursor := length es''\<rparr>)"

definition getPrevious :: "history \<Rightarrow> string option \<times> history" where
  "getPrevious h =
     (let index = hi_cursor h - 1
      in (if length (hi_entries h) > index then Some (hi_entries h ! index) else None, h\<lparr>hi_cursor := index\<rparr>))"

definition getNext :: "history \<Rightarrow> string option \<times> history" where
  "getNext h =
     (let index = min (length (hi_entries h)) (hi_cursor h + 1)
      in (if length (hi_entries h) > index then Some (hi_entries h ! index) else None, h\<lparr>hi_cursor := index\<rparr>))"

section \<open>Yes or no\<close>

definition confirmSuffix :: "string option \<Rightarrow> string" where
  "confirmSuffix d = (if d = Some ''yes'' then ''[Y/n]'' else if d = Some ''no'' then ''[y/N]'' else ''[y/n]'')"

definition ANSWERS :: "string js_obj" where
  "ANSWERS = [(''y'', ''yes''), (''yes'', ''yes''), (''n'', ''no''), (''no'', ''no'')]"

text \<open>
  The lookup is in an object literal; for the two lower case words every object answers to (\<^verbatim>\<open>constructor\<close> and
  \<^verbatim>\<open>__proto__\<close>) the code returns what the object inherits, which the validator refuses as it refuses the word.
\<close>

definition confirmAnswer :: "string \<Rightarrow> string" where
  "confirmAnswer input =
     (let lower = js_lower (js_trim input) in case map_of ANSWERS lower of Some a \<Rightarrow> a | None \<Rightarrow> lower)"

definition confirmReply :: "string \<Rightarrow> string option \<Rightarrow> string" where
  "confirmReply input d =
     (if confirmAnswer input \<noteq> [] then confirmAnswer input
      else confirmAnswer (case d of None \<Rightarrow> [] | Some v \<Rightarrow> v))"

end
