(* ===== verification/Unknown_Command.thy ===== *)
theory Unknown_Command
  imports Prelude
begin

text \<open>
  What the terminal says to a word that is no command (\<^verbatim>\<open>features/unknown-command/model/unknown-command.ts\<close>): the
  table of the edit distance, and the choice of the command to suggest. The table is shown to hold the least
  number of edits that turn one word into the other, and the suggestion to be the first of the closest commands.
\<close>

section \<open>The edit distance\<close>

definition init_table :: "string \<Rightarrow> string \<Rightarrow> nat list list" where
  "init_table a b = map (\<lambda>i. map (\<lambda>j. if i = 0 then j else i) [0..<length b + 1]) [0..<length a + 1]"

definition cell :: "string \<Rightarrow> string \<Rightarrow> nat list list \<Rightarrow> nat \<Rightarrow> nat \<Rightarrow> nat" where
  "cell a b d i j =
     (let cost = (if a ! (i - 1) = b ! (j - 1) then 0 else 1);
          m = min (d ! (i - 1) ! j + 1) (min (d ! i ! (j - 1) + 1) (d ! (i - 1) ! (j - 1) + cost));
          swapped = (i > 1 \<and> j > 1 \<and> a ! (i - 1) = b ! (j - 2) \<and> a ! (i - 2) = b ! (j - 1))
      in if swapped then min m (d ! (i - 2) ! (j - 2) + 1) else m)"

definition fill_cell :: "string \<Rightarrow> string \<Rightarrow> nat \<Rightarrow> nat \<Rightarrow> nat list list \<Rightarrow> nat list list" where
  "fill_cell a b i j d = d[i := (d ! i)[j := cell a b d i j]]"

definition fill_row :: "string \<Rightarrow> string \<Rightarrow> nat \<Rightarrow> nat list list \<Rightarrow> nat list list" where
  "fill_row a b i d = fold (fill_cell a b i) [1..<length b + 1] d"

definition editDistance :: "string \<Rightarrow> string \<Rightarrow> nat" where
  "editDistance a b = fold (fill_row a b) [1..<length a + 1] (init_table a b) ! length a ! length b"

section \<open>The answer\<close>

definition SHELL_HABITS :: "string list" where
  "SHELL_HABITS = [''ls'', ''cd'', ''cat'', ''npm'', ''yarn'', ''cargo'']"

definition MAX_EDITS :: nat where
  "MAX_EDITS = 2"

datatype unknown_command =
  Suggestion (uc_line: string) (uc_suggestion: string)
| ShellHabit (uc_line: string)
| NotFound (uc_line: string)

definition code :: "string \<Rightarrow> string" where
  "code s = [CHR 0x60] @ s @ [CHR 0x60]"

definition better :: "string \<Rightarrow> string \<Rightarrow> (string \<times> nat) option \<Rightarrow> (string \<times> nat) option" where
  "better word name best =
     (let edits = editDistance word name
      in if edits \<le> MAX_EDITS \<and> (case best of None \<Rightarrow> True | Some (n, e) \<Rightarrow> edits < e)
         then Some (name, edits) else best)"

definition unknownCommandIn :: "string list \<Rightarrow> string \<Rightarrow> unknown_command" where
  "unknownCommandIn names typed =
     (let word = js_lower typed
      in if word \<in> set SHELL_HABITS
         then ShellHabit (''This terminal runs Playground commands, not a system shell. Type '' @ code ''help'' @ '' to see them.'')
         else case fold (better word) names None of
             Some (name, e) \<Rightarrow> Suggestion (code typed @ '' is not a command. Did you mean '' @ code name @ ''?'') name
           | None \<Rightarrow> NotFound (code typed @ '' is not a command. Type '' @ code ''help'' @ '' to see commands.''))"

section \<open>Edits\<close>

text \<open>The edits of an alignment: neighbours are swapped at most once, and what was swapped is not edited again.\<close>

inductive edits :: "nat \<Rightarrow> string \<Rightarrow> string \<Rightarrow> bool" where
  no_edit: "edits 0 [] []"
| keep_char: "edits n a b \<Longrightarrow> edits n (a @ [c]) (b @ [c])"
| replace_char: "edits n a b \<Longrightarrow> edits (Suc n) (a @ [c]) (b @ [d])"
| delete_char: "edits n a b \<Longrightarrow> edits (Suc n) (a @ [c]) b"
| insert_char: "edits n a b \<Longrightarrow> edits (Suc n) a (b @ [d])"
| swap_chars: "edits n a b \<Longrightarrow> edits (Suc n) (a @ [c, d]) (b @ [d, c])"

definition least_edit :: "bool \<Rightarrow> nat \<Rightarrow> nat \<Rightarrow> nat \<Rightarrow> nat \<Rightarrow> nat" where
  "least_edit crossed del ins rep swp =
     (if crossed then min (min (del + 1) (min (ins + 1) rep)) (swp + 1) else min (del + 1) (min (ins + 1) rep))"

lemma least_edit_le:
  "least_edit crossed del ins rep swp \<le> Suc del" "least_edit crossed del ins rep swp \<le> Suc ins"
  "least_edit crossed del ins rep swp \<le> rep" "least_edit True del ins rep swp \<le> Suc swp"
  by (simp_all add: least_edit_def min_def)

lemma least_edit_P:
  assumes "P (Suc del)" "P (Suc ins)" "P rep" "crossed \<Longrightarrow> P (Suc swp)"
  shows "P (least_edit crossed del ins rep swp)"
  using assms by (simp add: least_edit_def min_def)

text \<open>The distance of two prefixes, by recursion on their lengths.\<close>

fun osa :: "string \<Rightarrow> string \<Rightarrow> nat \<Rightarrow> nat \<Rightarrow> nat" where
  "osa a b 0 j = j"
| "osa a b (Suc i) 0 = Suc i"
| "osa a b (Suc i) (Suc j) =
     least_edit (0 < i \<and> 0 < j \<and> a ! i = b ! (j - 1) \<and> a ! (i - 1) = b ! j)
       (osa a b i (Suc j)) (osa a b (Suc i) j) (osa a b i j + (if a ! i = b ! j then 0 else 1))
       (osa a b (i - 1) (j - 1))"

declare osa.simps(3) [simp del]

lemma osa_0 [simp]: "osa a b i 0 = i"
  by (cases i) simp_all

lemma osa_prefix:
  assumes "\<And>k. k < i \<Longrightarrow> a ! k = a' ! k" and "\<And>k. k < j \<Longrightarrow> b ! k = b' ! k"
  shows "osa a b i j = osa a' b' i j"
  using assms
proof (induction a b i j rule: osa.induct)
  case (3 a b i j)
  have "osa a b i (Suc j) = osa a' b' i (Suc j)" "osa a b (Suc i) j = osa a' b' (Suc i) j" "osa a b i j = osa a' b' i j"
    "osa a b (i - 1) (j - 1) = osa a' b' (i - 1) (j - 1)"
    by (rule 3; use 3(5,6) in simp)+
  moreover have "a ! i = a' ! i" "b ! j = b' ! j" "a ! (i - 1) = a' ! (i - 1)" "b ! (j - 1) = b' ! (j - 1)"
    using 3(5,6) by simp_all
  ultimately show ?case by (simp only: osa.simps(3))
qed simp_all

lemma osa_delete: "osa a b (Suc i) j \<le> Suc (osa a b i j)"
  by (cases j) (simp_all only: osa.simps(3) least_edit_le, simp)

lemma osa_insert: "osa a b i (Suc j) \<le> Suc (osa a b i j)"
  by (cases i) (simp, simp only: osa.simps(3) least_edit_le)

lemma osa_replace: "osa a b (Suc i) (Suc j) \<le> osa a b i j + (if a ! i = b ! j then 0 else 1)"
  by (simp only: osa.simps(3) least_edit_le)

lemma osa_swap:
  assumes "a ! Suc i = b ! j" and "a ! i = b ! Suc j"
  shows "osa a b (Suc (Suc i)) (Suc (Suc j)) \<le> Suc (osa a b i j)"
  unfolding osa.simps(3) [of a b "Suc i" "Suc j"] using assms least_edit_le(4) by simp

lemma osa_least: "edits n a b \<Longrightarrow> osa a b (length a) (length b) \<le> n"
proof (induction rule: edits.induct)
  case (keep_char n a b c)
  have "osa (a @ [c]) (b @ [c]) (length a) (length b) = osa a b (length a) (length b)"
    by (rule osa_prefix) (simp_all add: nth_append)
  then show ?case using keep_char osa_replace [of "a @ [c]" "b @ [c]" "length a" "length b"] by simp
next
  case (replace_char n a b c d)
  have "osa (a @ [c]) (b @ [d]) (length a) (length b) = osa a b (length a) (length b)"
    by (rule osa_prefix) (simp_all add: nth_append)
  then show ?case
    using replace_char osa_replace [of "a @ [c]" "b @ [d]" "length a" "length b"] by (auto split: if_splits)
next
  case (delete_char n a b c)
  have "osa (a @ [c]) b (length a) (length b) = osa a b (length a) (length b)"
    by (rule osa_prefix) (simp_all add: nth_append)
  then show ?case using delete_char osa_delete [of "a @ [c]" b "length a" "length b"] by simp
next
  case (insert_char n a b d)
  have "osa a (b @ [d]) (length a) (length b) = osa a b (length a) (length b)"
    by (rule osa_prefix) (simp_all add: nth_append)
  then show ?case using insert_char osa_insert [of a "b @ [d]" "length a" "length b"] by simp
next
  case (swap_chars n a b c d)
  have "osa (a @ [c, d]) (b @ [d, c]) (length a) (length b) = osa a b (length a) (length b)"
    by (rule osa_prefix) (simp_all add: nth_append)
  then show ?case
    using swap_chars osa_swap [of "a @ [c, d]" "length a" "b @ [d, c]" "length b"] by (simp add: nth_append)
qed simp

lemma edits_delete_all: "edits (length a) a []"
  by (induction a rule: rev_induct) (auto intro: edits.intros)

lemma edits_insert_all: "edits (length b) [] b"
  by (induction b rule: rev_induct) (auto intro: edits.intros)

lemma edits_osa:
  "i \<le> length a \<Longrightarrow> j \<le> length b \<Longrightarrow> edits (osa a b i j) (take i a) (take j b)"
proof (induction a b i j rule: osa.induct)
  case (1 a b j)
  then show ?case using edits_insert_all [of "take j b"] by simp
next
  case (2 a b i)
  then show ?case using edits_delete_all [of "take (Suc i) a"] by simp
next
  case (3 a b i j)
  have ta: "take (Suc i) a = take i a @ [a ! i]" and tb: "take (Suc j) b = take j b @ [b ! j]"
    using "3.prems" by (simp_all add: take_Suc_conv_app_nth)
  have del: "edits (Suc (osa a b i (Suc j))) (take (Suc i) a) (take (Suc j) b)"
    unfolding ta by (rule delete_char, rule 3(1)) (use "3.prems" in simp_all)
  have ins: "edits (Suc (osa a b (Suc i) j)) (take (Suc i) a) (take (Suc j) b)"
    unfolding tb by (rule insert_char, rule 3(2)) (use "3.prems" in simp_all)
  have diag: "edits (osa a b i j) (take i a) (take j b)"
    by (rule 3(3)) (use "3.prems" in simp_all)
  then have rep: "edits (osa a b i j + (if a ! i = b ! j then 0 else 1)) (take (Suc i) a) (take (Suc j) b)"
    unfolding ta tb using keep_char [OF diag, of "b ! j"] replace_char [OF diag, of "a ! i" "b ! j"] by simp
  have swp: "edits (Suc (osa a b (i - 1) (j - 1))) (take (Suc i) a) (take (Suc j) b)"
    if cross: "0 < i \<and> 0 < j \<and> a ! i = b ! (j - 1) \<and> a ! (i - 1) = b ! j"
  proof -
    have "edits (osa a b (i - 1) (j - 1)) (take (i - 1) a) (take (j - 1) b)"
      by (rule 3(4)) (use "3.prems" in simp_all)
    from swap_chars [OF this, of "a ! (i - 1)" "a ! i"]
    show ?thesis
      using cross "3.prems" take_Suc_conv_app_nth [of "i - 1" a] take_Suc_conv_app_nth [of "j - 1" b]
      unfolding ta tb by simp
  qed
  show ?case
    unfolding osa.simps(3)
    by (rule least_edit_P [where P = "\<lambda>n. edits n (take (Suc i) a) (take (Suc j) b)"]) (fact del, fact ins, fact rep, rule swp)
qed

section \<open>The table holds the distances\<close>

definition table_ok :: "string \<Rightarrow> string \<Rightarrow> nat \<Rightarrow> nat \<Rightarrow> nat list list \<Rightarrow> bool" where
  "table_ok a b i j d \<longleftrightarrow> length d = length a + 1 \<and> (\<forall>k \<le> length a. length (d ! k) = length b + 1) \<and>
     (\<forall>k \<le> length a. \<forall>l \<le> length b. k < i \<or> k = i \<and> l < j \<or> k = 0 \<or> l = 0 \<longrightarrow> d ! k ! l = osa a b k l)"

lemma table_ok_init: "table_ok a b 1 1 (init_table a b)"
  by (auto simp: table_ok_def init_table_def nth_append less_Suc_eq_le simp del: upt_Suc)

lemma cell_osa:
  assumes "table_ok a b i j d" and "0 < i" "i \<le> length a" "0 < j" "j \<le> length b"
  shows "cell a b d i j = osa a b i j"
proof -
  obtain k l where i: "i = Suc k" and j: "j = Suc l" using assms by (metis gr0_conv_Suc)
  have "d ! k ! j = osa a b k (Suc l)" "d ! i ! l = osa a b (Suc k) l" "d ! k ! l = osa a b k l"
    "d ! (k - 1) ! (l - 1) = osa a b (k - 1) (l - 1)"
    using assms unfolding i j by (simp_all add: table_ok_def)
  then show ?thesis unfolding i j cell_def osa.simps(3) least_edit_def by (simp add: Let_def numeral_2_eq_2)
qed

lemma fill_cell_ok:
  assumes "table_ok a b i j d" and "0 < i" "i \<le> length a" "0 < j" "j \<le> length b"
  shows "table_ok a b i (Suc j) (fill_cell a b i j d)"
proof -
  have entry: "fill_cell a b i j d ! k ! l = (if k = i \<and> l = j then osa a b i j else d ! k ! l)"
    if "k \<le> length a" "l \<le> length b" for k l
    using that assms cell_osa [OF assms] by (auto simp: fill_cell_def table_ok_def nth_list_update)
  have "length (fill_cell a b i j d) = length a + 1" "\<forall>k \<le> length a. length (fill_cell a b i j d ! k) = length b + 1"
    using assms by (simp_all add: fill_cell_def table_ok_def nth_list_update)
  moreover have "fill_cell a b i j d ! k ! l = osa a b k l"
    if "k \<le> length a" "l \<le> length b" "k < i \<or> k = i \<and> l < Suc j \<or> k = 0 \<or> l = 0" for k l
    using that assms(1) unfolding entry [OF that(1,2)] table_ok_def less_Suc_eq by metis
  ultimately show ?thesis by (simp add: table_ok_def)
qed

lemma fill_row_ok:
  assumes "table_ok a b i 1 d" and "0 < i" "i \<le> length a"
  shows "table_ok a b (Suc i) 1 (fill_row a b i d)"
proof -
  have "m \<le> length b \<Longrightarrow> table_ok a b i (Suc m) (fold (fill_cell a b i) [1..<Suc m] d)" for m
  proof (induction m)
    case (Suc m)
    then show ?case using fill_cell_ok [of a b i "Suc m" "fold (fill_cell a b i) [1..<Suc m] d"] assms by simp
  qed (use assms in simp)
  from this [OF order_refl] have "table_ok a b i (length b + 1) (fill_row a b i d)" by (simp add: fill_row_def)
  then show ?thesis unfolding table_ok_def by (metis Suc_eq_plus1 less_Suc_eq less_Suc_eq_le less_one)
qed

lemma editDistance_osa: "editDistance a b = osa a b (length a) (length b)"
proof -
  have "m \<le> length a \<Longrightarrow> table_ok a b (Suc m) 1 (fold (fill_row a b) [1..<Suc m] (init_table a b))" for m
  proof (induction m)
    case (Suc m)
    then show ?case using fill_row_ok [of a b "Suc m" "fold (fill_row a b) [1..<Suc m] (init_table a b)"] by simp
  qed (use table_ok_init in simp)
  from this [OF order_refl] show ?thesis by (simp add: table_ok_def editDistance_def)
qed

lemma editDistance_edits: "edits (editDistance a b) a b"
  using edits_osa [of "length a" a "length b" b] by (simp add: editDistance_osa)

lemma editDistance_le: "edits n a b \<Longrightarrow> editDistance a b \<le> n"
  using osa_least by (simp add: editDistance_osa)

lemma edit_distance_is_least: "editDistance a b = (LEAST n. edits n a b)"
  by (rule Least_equality [symmetric]) (simp_all add: editDistance_edits editDistance_le)

section \<open>The suggestion\<close>

definition first_closest :: "(string \<Rightarrow> nat) \<Rightarrow> string list \<Rightarrow> string \<Rightarrow> bool" where
  "first_closest dist names name \<longleftrightarrow> dist name \<le> MAX_EDITS \<and>
     (\<exists>before later. names = before @ name # later \<and>
       list_all (\<lambda>m. dist name < dist m) before \<and> list_all (\<lambda>m. dist name \<le> dist m) later)"

lemma first_closest_snoc:
  "first_closest dist (names @ [x]) name \<longleftrightarrow>
     first_closest dist names name \<and> dist name \<le> dist x \<or>
     name = x \<and> dist x \<le> MAX_EDITS \<and> list_all (\<lambda>m. dist x < dist m) names"
proof
  assume "first_closest dist (names @ [x]) name"
  then obtain before later where s: "names @ [x] = before @ name # later" "dist name \<le> MAX_EDITS"
    "list_all (\<lambda>m. dist name < dist m) before" "list_all (\<lambda>m. dist name \<le> dist m) later"
    by (auto simp: first_closest_def)
  then show "first_closest dist names name \<and> dist name \<le> dist x \<or>
     name = x \<and> dist x \<le> MAX_EDITS \<and> list_all (\<lambda>m. dist x < dist m) names"
    by (cases later rule: rev_cases) (auto simp: first_closest_def)
next
  assume "first_closest dist names name \<and> dist name \<le> dist x \<or>
     name = x \<and> dist x \<le> MAX_EDITS \<and> list_all (\<lambda>m. dist x < dist m) names"
  then show "first_closest dist (names @ [x]) name"
  proof
    assume a: "first_closest dist names name \<and> dist name \<le> dist x"
    then obtain before later where s: "names = before @ name # later" "dist name \<le> MAX_EDITS"
      "list_all (\<lambda>m. dist name < dist m) before" "list_all (\<lambda>m. dist name \<le> dist m) later"
      by (auto simp: first_closest_def)
    then show ?thesis using a unfolding first_closest_def
      by (intro conjI exI [of _ before] exI [of _ "later @ [x]"]) auto
  next
    assume "name = x \<and> dist x \<le> MAX_EDITS \<and> list_all (\<lambda>m. dist x < dist m) names"
    then show ?thesis unfolding first_closest_def by (intro conjI exI [of _ names] exI [of _ "[]"]) simp_all
  qed
qed

lemma better_picks_first:
  "case fold (better word) names None of
     Some (n, e) \<Rightarrow> e = editDistance word n \<and> first_closest (editDistance word) names n
   | None \<Rightarrow> list_all (\<lambda>m. MAX_EDITS < editDistance word m) names"
proof (induction names rule: rev_induct)
  case (snoc x names)
  define best where "best = fold (better word) names None"
  have run: "fold (better word) (names @ [x]) None = better word x best" by (simp add: best_def)
  show ?case
  proof (cases best)
    case None
    then have "list_all (\<lambda>m. MAX_EDITS < editDistance word m) names" using snoc by (simp flip: best_def)
    then show ?thesis using None unfolding run
      by (auto simp: better_def Let_def first_closest_snoc list_all_iff)
  next
    case (Some p)
    obtain n e where p: "p = (n, e)" by (cases p)
    then have ne: "e = editDistance word n" "first_closest (editDistance word) names n"
      using snoc Some by (simp_all flip: best_def)
    then have "list_all (\<lambda>m. e \<le> editDistance word m) names" "e \<le> MAX_EDITS"
      by (auto simp: first_closest_def list_all_iff order.order_iff_strict)
    then show ?thesis using Some p ne unfolding run
      by (auto simp: better_def Let_def first_closest_snoc list_all_iff)
  qed
qed simp

text \<open>
  An unknown word is answered with the first of the commands that take the fewest edits (a character replaced, deleted
  or inserted, or two neighbours swapped) to become from it, if one takes at most two, and with no command if every
  one takes more; words of a system shell get their own line.
\<close>

lemma suggestion_takes_fewest_edits:
  fixes names typed
  defines "word \<equiv> js_lower typed"
  defines "dist \<equiv> \<lambda>name. LEAST n. edits n word name"
  shows "case unknownCommandIn names typed of
      ShellHabit l \<Rightarrow> word \<in> set SHELL_HABITS
    | Suggestion l n \<Rightarrow> word \<notin> set SHELL_HABITS \<and> first_closest dist names n
    | NotFound l \<Rightarrow> word \<notin> set SHELL_HABITS \<and> list_all (\<lambda>m. 2 < dist m) names"
proof -
  have "dist = editDistance word" by (simp add: dist_def edit_distance_is_least fun_eq_iff)
  then show ?thesis
    using better_picks_first [of word names]
    by (auto simp: unknownCommandIn_def Let_def word_def [symmetric] MAX_EDITS_def split: option.splits)
qed

end
