(* ===== verification/Slow_Run.thy ===== *)
theory Slow_Run
  imports Prelude
begin

text \<open>
  The clock that tells a person a command is slow (\<^verbatim>\<open>utils/terminal/slow-run.ts\<close>). Clocks are numbered in the order they
  are created, the closure a watch returns is a call on its number, and the timers of the browser are a list with due
  times: a timer that is due runs its callback some time later, unless it was cleared.
\<close>

definition SLOW_RUN_MS :: nat where
  "SLOW_RUN_MS = 10000"

datatype clock_state = Idle | Counting nat | Waiting | Fired

record timer =
  ti_id :: nat
  ti_due :: nat
  ti_clock :: nat

record slow_run =
  sr_now :: nat
  sr_states :: "clock_state list"
  sr_clock :: "nat option"
  sr_timers :: "timer list"
  sr_nextTimer :: nat
  sr_printed :: "nat list"

definition no_run :: slow_run where
  "no_run = \<lparr>sr_now = 0, sr_states = [], sr_clock = None, sr_timers = [], sr_nextTimer = 0, sr_printed = []\<rparr>"

section \<open>The operations\<close>

definition halt :: "nat \<Rightarrow> slow_run \<Rightarrow> slow_run" where
  "halt own s =
     (case sr_states s ! own of
        Counting t \<Rightarrow> s\<lparr>sr_timers := filter (\<lambda>x. ti_id x \<noteq> t) (sr_timers s)\<rparr>
      | _ \<Rightarrow> s)"

definition arm :: "nat \<Rightarrow> slow_run \<Rightarrow> slow_run" where
  "arm own s =
     (if sr_states s ! own = Fired \<or> sr_states s ! own = Waiting then s
      else let s' = halt own s; t = sr_nextTimer s'
           in s'\<lparr>sr_states := (sr_states s')[own := Counting t],
                 sr_timers := sr_timers s' @ [\<lparr>ti_id = t, ti_due = sr_now s' + SLOW_RUN_MS, ti_clock = own\<rparr>],
                 sr_nextTimer := Suc t\<rparr>)"

text \<open>The callback of a timer: the state is set before the line is printed.\<close>

definition time_out :: "nat \<Rightarrow> slow_run \<Rightarrow> slow_run" where
  "time_out t s =
     (case find (\<lambda>x. ti_id x = t \<and> ti_due x \<le> sr_now s) (sr_timers s) of
        None \<Rightarrow> s
      | Some x \<Rightarrow> s\<lparr>sr_timers := filter (\<lambda>y. ti_id y \<noteq> t) (sr_timers s),
                   sr_states := (sr_states s)[ti_clock x := Fired], sr_printed := sr_printed s @ [ti_clock x]\<rparr>)"

definition watchSlowRun :: "slow_run \<Rightarrow> nat \<times> slow_run" where
  "watchSlowRun s =
     (let s' = (case sr_clock s of Some c \<Rightarrow> halt c s | None \<Rightarrow> s); own = length (sr_states s')
      in (own, arm own (s'\<lparr>sr_states := sr_states s' @ [Idle], sr_clock := Some own\<rparr>)))"

definition end_watch :: "nat \<Rightarrow> slow_run \<Rightarrow> slow_run" where
  "end_watch own s =
     (let s' = halt own s in if sr_clock s' = Some own then s'\<lparr>sr_clock := None\<rparr> else s')"

definition noteOutput :: "slow_run \<Rightarrow> slow_run" where
  "noteOutput s = (case sr_clock s of Some c \<Rightarrow> arm c s | None \<Rightarrow> s)"

definition noteQuestion :: "slow_run \<Rightarrow> slow_run" where
  "noteQuestion s =
     (case sr_clock s of
        None \<Rightarrow> s
      | Some c \<Rightarrow> if sr_states s ! c = Fired then s
                 else let s' = halt c s in s'\<lparr>sr_states := (sr_states s')[c := Waiting]\<rparr>)"

definition noteAnswer :: "slow_run \<Rightarrow> slow_run" where
  "noteAnswer s =
     (case sr_clock s of
        None \<Rightarrow> s
      | Some c \<Rightarrow> if sr_states s ! c \<noteq> Waiting then s else arm c (s\<lparr>sr_states := (sr_states s)[c := Idle]\<rparr>))"

section \<open>Every order of events\<close>

datatype clock_event = Watch | EndWatch nat | Output | Question | Answer | Elapse nat | TimeOut nat

fun clock_step :: "slow_run \<Rightarrow> clock_event \<Rightarrow> slow_run" where
  "clock_step s Watch = snd (watchSlowRun s)"
| "clock_step s (EndWatch own) = (if own < length (sr_states s) then end_watch own s else s)"
| "clock_step s Output = noteOutput s"
| "clock_step s Question = noteQuestion s"
| "clock_step s Answer = noteAnswer s"
| "clock_step s (Elapse d) = s\<lparr>sr_now := sr_now s + d\<rparr>"
| "clock_step s (TimeOut t) = time_out t s"

text \<open>
  At most one timer is pending, it is the one of the current clock and due at most the full time from now, exactly
  the clocks that fired have printed, once, and the current clock is never left idle.
\<close>

definition clocks_ok :: "slow_run \<Rightarrow> bool" where
  "clocks_ok s \<longleftrightarrow>
     distinct (sr_printed s) \<and> set (sr_printed s) = {c. c < length (sr_states s) \<and> sr_states s ! c = Fired} \<and>
     (\<forall>c < length (sr_states s). \<forall>t. sr_states s ! c = Counting t \<longrightarrow> t < sr_nextTimer s) \<and>
     (\<forall>c < length (sr_states s). \<forall>d < length (sr_states s). \<forall>t.
        sr_states s ! c = Counting t \<and> sr_states s ! d = Counting t \<longrightarrow> c = d)"

definition timers_ok :: "slow_run \<Rightarrow> bool" where
  "timers_ok s \<longleftrightarrow>
     (case sr_clock s of
        None \<Rightarrow> sr_timers s = []
      | Some c \<Rightarrow> c < length (sr_states s) \<and> sr_states s ! c \<noteq> Idle \<and>
          (case sr_states s ! c of
             Counting t \<Rightarrow> \<exists>due \<le> sr_now s + SLOW_RUN_MS. sr_timers s = [\<lparr>ti_id = t, ti_due = due, ti_clock = c\<rparr>]
           | _ \<Rightarrow> sr_timers s = []))"

definition clock_ok :: "slow_run \<Rightarrow> bool" where
  "clock_ok s \<longleftrightarrow> clocks_ok s \<and> timers_ok s"

lemma halt_current:
  assumes "timers_ok s" and "sr_clock s = Some c"
  shows "halt c s = s\<lparr>sr_timers := []\<rparr>"
  using assms by (auto simp: timers_ok_def halt_def split: clock_state.splits)

lemma halt_other:
  assumes "clock_ok s" and "sr_clock s \<noteq> Some own" and "own < length (sr_states s)"
  shows "halt own s = s"
proof (cases "sr_states s ! own")
  case (Counting t)
  have "ti_id x \<noteq> t" if "x \<in> set (sr_timers s)" for x
  proof (cases "sr_clock s")
    case (Some c)
    then have "c < length (sr_states s)" "sr_states s ! c = Counting (ti_id x)"
      using that assms(1) by (auto simp: clock_ok_def timers_ok_def split: clock_state.splits)
    then show ?thesis using assms Counting Some by (auto simp: clock_ok_def clocks_ok_def)
  qed (use that assms(1) in \<open>simp add: clock_ok_def timers_ok_def\<close>)
  then have "filter (\<lambda>x. ti_id x \<noteq> t) (sr_timers s) = sr_timers s" by (simp add: filter_id_conv)
  then show ?thesis using Counting by (simp add: halt_def)
qed (simp_all add: halt_def)

lemma clocks_ok_update:
  assumes "clocks_ok s" and "c < length (sr_states s)" and "sr_states s ! c \<noteq> Fired"
  shows "clocks_ok (s\<lparr>sr_states := (sr_states s)[c := Counting (sr_nextTimer s)], sr_timers := ts, sr_nextTimer := Suc (sr_nextTimer s)\<rparr>)"
    and "clocks_ok (s\<lparr>sr_states := (sr_states s)[c := Waiting]\<rparr>)"
    and "clocks_ok (s\<lparr>sr_states := (sr_states s)[c := Idle]\<rparr>)"
  using assms by (auto simp: clocks_ok_def nth_list_update less_Suc_eq)

lemma clocks_ok_timers [simp]: "clocks_ok (s\<lparr>sr_timers := ts\<rparr>) = clocks_ok s"
  "clocks_ok (s\<lparr>sr_clock := c\<rparr>) = clocks_ok s" "clocks_ok (s\<lparr>sr_now := n\<rparr>) = clocks_ok s"
  by (simp_all add: clocks_ok_def)

lemma arm_ok:
  assumes "clocks_ok s" and "sr_clock s = Some c" and "c < length (sr_states s)" and "sr_timers (halt c s) = []"
    and "sr_states s ! c \<noteq> Fired" "sr_states s ! c \<noteq> Waiting"
  shows "arm c s = s\<lparr>sr_states := (sr_states s)[c := Counting (sr_nextTimer s)],
      sr_timers := [\<lparr>ti_id = sr_nextTimer s, ti_due = sr_now s + SLOW_RUN_MS, ti_clock = c\<rparr>],
      sr_nextTimer := Suc (sr_nextTimer s)\<rparr>"
    and "clock_ok (arm c s)"
proof -
  have h: "halt c s = s\<lparr>sr_timers := []\<rparr>"
    using assms(4) by (auto simp: halt_def split: clock_state.splits)
  then show a: "arm c s = s\<lparr>sr_states := (sr_states s)[c := Counting (sr_nextTimer s)],
      sr_timers := [\<lparr>ti_id = sr_nextTimer s, ti_due = sr_now s + SLOW_RUN_MS, ti_clock = c\<rparr>],
      sr_nextTimer := Suc (sr_nextTimer s)\<rparr>"
    using assms(5,6) by (simp add: arm_def Let_def)
  show "clock_ok (arm c s)"
    unfolding a clock_ok_def using assms clocks_ok_update(1) [OF assms(1,3,5)] by (simp add: timers_ok_def)
qed

lemma arm_done: "sr_states s ! c = Fired \<or> sr_states s ! c = Waiting \<Longrightarrow> arm c s = s"
  by (simp add: arm_def)

lemma noteOutput_ok: "clock_ok s \<Longrightarrow> clock_ok (noteOutput s)"
proof (cases "sr_clock s")
  case (Some c)
  assume ok: "clock_ok s"
  then have c: "c < length (sr_states s)" "sr_timers (halt c s) = []"
    using Some halt_current [of s c] by (auto simp: clock_ok_def timers_ok_def)
  then show ?thesis
    using ok Some arm_ok(2) [of s c] arm_done [of s c] by (cases "sr_states s ! c") (auto simp: noteOutput_def clock_ok_def)
qed (simp add: noteOutput_def)

lemma noteQuestion_ok: "clock_ok s \<Longrightarrow> clock_ok (noteQuestion s)"
proof (cases "sr_clock s")
  case (Some c)
  assume ok: "clock_ok s"
  then have "c < length (sr_states s)" using Some by (simp add: clock_ok_def timers_ok_def)
  then show ?thesis
    using ok Some halt_current [of s c] clocks_ok_update(2) [of "s\<lparr>sr_timers := []\<rparr>" c]
    by (auto simp: noteQuestion_def clock_ok_def Let_def) (simp add: timers_ok_def)
qed (simp add: noteQuestion_def)

lemma noteAnswer_ok: "clock_ok s \<Longrightarrow> clock_ok (noteAnswer s)"
proof (cases "sr_clock s")
  case (Some c)
  assume ok: "clock_ok s"
  then have c: "c < length (sr_states s)" using Some by (simp add: clock_ok_def timers_ok_def)
  show ?thesis
  proof (cases "sr_states s ! c = Waiting")
    case True
    then have "sr_timers s = []" using ok Some by (simp add: clock_ok_def timers_ok_def)
    then show ?thesis
      using ok True Some c clocks_ok_update(3) [of s c] arm_ok(2) [of "s\<lparr>sr_states := (sr_states s)[c := Idle]\<rparr>" c]
      by (simp add: noteAnswer_def clock_ok_def halt_def)
  qed (use ok Some in \<open>simp add: noteAnswer_def\<close>)
qed (simp add: noteAnswer_def)

lemma watch_ok: "clock_ok s \<Longrightarrow> clock_ok (snd (watchSlowRun s))"
proof -
  assume ok: "clock_ok s"
  define s' where "s' = (case sr_clock s of Some c \<Rightarrow> halt c s | None \<Rightarrow> s)"
  have s': "s' = s\<lparr>sr_timers := []\<rparr>"
    using ok halt_current [of s] by (auto simp: s'_def clock_ok_def timers_ok_def split: option.splits)
  define w where "w = s'\<lparr>sr_states := sr_states s' @ [Idle], sr_clock := Some (length (sr_states s'))\<rparr>"
  have "clocks_ok w"
    using ok by (auto simp: w_def s' clock_ok_def clocks_ok_def nth_append less_Suc_eq)
  moreover have "sr_clock w = Some (length (sr_states s'))" "sr_states w ! length (sr_states s') = Idle"
    "sr_timers w = []" "length (sr_states s') < length (sr_states w)"
    by (simp_all add: w_def s')
  ultimately have "clock_ok (arm (length (sr_states s')) w)"
    by (intro arm_ok(2)) (simp_all add: halt_def)
  then show ?thesis by (simp add: watchSlowRun_def Let_def w_def flip: s'_def)
qed

lemma end_watch_ok: "clock_ok s \<Longrightarrow> own < length (sr_states s) \<Longrightarrow> clock_ok (end_watch own s)"
proof (cases "sr_clock s = Some own")
  case True
  assume "clock_ok s"
  then show ?thesis using True halt_current [of s own] by (simp add: end_watch_def clock_ok_def Let_def timers_ok_def)
next
  case False
  assume "clock_ok s" "own < length (sr_states s)"
  then show ?thesis using False halt_other [of s own] by (simp add: end_watch_def)
qed

lemma time_out_cases:
  assumes "clock_ok s"
  obtains "time_out t s = s"
  | c due where "sr_clock s = Some c" "c < length (sr_states s)" "sr_states s ! c = Counting t" "due \<le> sr_now s"
      "sr_timers s = [\<lparr>ti_id = t, ti_due = due, ti_clock = c\<rparr>]" "c \<notin> set (sr_printed s)"
      "time_out t s = s\<lparr>sr_timers := [], sr_states := (sr_states s)[c := Fired], sr_printed := sr_printed s @ [c]\<rparr>"
proof (cases "find (\<lambda>x. ti_id x = t \<and> ti_due x \<le> sr_now s) (sr_timers s)")
  case None
  then show thesis using that(1) by (simp add: time_out_def)
next
  case (Some x)
  then have x: "x \<in> set (sr_timers s)" "ti_id x = t" "ti_due x \<le> sr_now s" by (auto simp: find_Some_iff)
  then obtain c where c: "sr_clock s = Some c" using assms by (auto simp: clock_ok_def timers_ok_def split: option.splits)
  then obtain due where "c < length (sr_states s)" "sr_states s ! c = Counting t"
    "sr_timers s = [\<lparr>ti_id = t, ti_due = due, ti_clock = c\<rparr>]" "x = \<lparr>ti_id = t, ti_due = due, ti_clock = c\<rparr>"
    using x assms by (auto simp: clock_ok_def timers_ok_def split: clock_state.splits)
  then show thesis
    using that(2) [of c due] c x Some assms by (auto simp: time_out_def clock_ok_def clocks_ok_def)
qed

lemma time_out_ok: "clock_ok s \<Longrightarrow> clock_ok (time_out t s)"
proof -
  assume ok: "clock_ok s"
  from ok show ?thesis
  proof (cases rule: time_out_cases [of s t])
    case (2 c due)
    then show ?thesis using ok
      by (auto simp: clock_ok_def clocks_ok_def timers_ok_def nth_list_update)
  qed (use ok in simp_all)
qed

interpretation clocks: machine no_run clock_step clock_ok
proof
  show "clock_ok no_run" by (simp add: no_run_def clock_ok_def clocks_ok_def timers_ok_def)
  show "clock_ok (clock_step s e)" if "clock_ok s" for s e
    using that noteOutput_ok noteQuestion_ok noteAnswer_ok watch_ok end_watch_ok time_out_ok
    by (cases e) (auto simp: clock_ok_def timers_ok_def split: option.splits clock_state.splits)
qed

section \<open>When the line comes\<close>

text \<open>What an operation other than the callback does: it prints nothing, and a timer it sets is due after the full time.\<close>

definition sets_full :: "slow_run \<Rightarrow> slow_run \<Rightarrow> bool" where
  "sets_full s s' \<longleftrightarrow> sr_printed s' = sr_printed s \<and> sr_now s' = sr_now s \<and>
     set (sr_timers s') \<subseteq> set (sr_timers s) \<union> {x. ti_due x = sr_now s + SLOW_RUN_MS}"

lemma sets_full_halt: "sets_full s (halt c s)"
  by (auto simp: sets_full_def halt_def split: clock_state.splits)

lemma sets_full_trans: "sets_full s t \<Longrightarrow> sets_full t u \<Longrightarrow> sets_full s u"
  by (auto simp: sets_full_def)

lemma sets_full_same: "sr_printed t = sr_printed s \<Longrightarrow> sr_now t = sr_now s \<Longrightarrow> sr_timers t = sr_timers s \<Longrightarrow> sets_full s t"
  by (simp add: sets_full_def)

lemma sets_full_arm: "sets_full s (arm c s)"
  using sets_full_halt [of s c] by (auto simp: sets_full_def arm_def Let_def)

lemma sets_full_step: "\<forall>t d. e \<noteq> TimeOut t \<and> e \<noteq> Elapse d \<Longrightarrow> sets_full s (clock_step s e)"
proof (cases e)
  case Watch
  define s' where "s' = (case sr_clock s of Some c \<Rightarrow> halt c s | None \<Rightarrow> s)"
  have "sets_full s s'" by (auto simp: s'_def sets_full_halt intro: sets_full_same split: option.splits)
  then have "sets_full s (arm own (s'\<lparr>sr_states := sr_states s' @ [Idle], sr_clock := Some own\<rparr>))" for own
    by (rule sets_full_trans [OF sets_full_trans [OF _ sets_full_same] sets_full_arm]) simp_all
  then show ?thesis using Watch by (simp add: watchSlowRun_def Let_def flip: s'_def)
next
  case (EndWatch own)
  then show ?thesis using sets_full_halt [of s own] by (auto simp: end_watch_def Let_def sets_full_def)
next
  case Output
  then show ?thesis by (auto simp: noteOutput_def sets_full_arm intro: sets_full_same split: option.splits)
next
  case Question
  have "sets_full s ((halt c s)\<lparr>sr_states := v\<rparr>)" for c v using sets_full_halt [of s c] by (simp add: sets_full_def)
  then show ?thesis using Question by (auto simp: noteQuestion_def Let_def intro: sets_full_same split: option.splits)
next
  case Answer
  have "sets_full s (arm c (s\<lparr>sr_states := v\<rparr>))" for c v
    by (rule sets_full_trans [OF sets_full_same sets_full_arm]) simp_all
  then show ?thesis using Answer by (auto simp: noteAnswer_def intro: sets_full_same split: option.splits)
qed simp_all

fun elapsed :: "clock_event list \<Rightarrow> nat" where
  "elapsed [] = 0"
| "elapsed (Elapse d # es) = d + elapsed es"
| "elapsed (e # es) = elapsed es"

definition quiet_until :: "nat \<Rightarrow> slow_run \<Rightarrow> bool" where
  "quiet_until D s \<longleftrightarrow> (\<forall>x \<in> set (sr_timers s). D \<le> ti_due x) \<and> D \<le> sr_now s + SLOW_RUN_MS"

lemma time_out_now [simp]: "sr_now (time_out t s) = sr_now s"
  by (simp add: time_out_def split: option.splits)

lemma quiet_run:
  "clock_ok s \<Longrightarrow> quiet_until D s \<Longrightarrow> sr_now s + elapsed es < D \<Longrightarrow> sr_printed (foldl clock_step s es) = sr_printed s"
proof (induction es arbitrary: s)
  case (Cons e es)
  have ok: "clock_ok (clock_step s e)" by (rule clocks.inv_step [OF Cons.prems(1)])
  have e: "sr_printed (clock_step s e) = sr_printed s \<and> quiet_until D (clock_step s e) \<and>
      sr_now (clock_step s e) + elapsed es = sr_now s + elapsed (e # es)"
  proof (cases "\<exists>t. e = TimeOut t")
    case True
    then obtain t where t: "e = TimeOut t" by blast
    have "time_out t s = s"
      using Cons.prems by (cases rule: time_out_cases [of s t]) (auto simp: quiet_until_def t)
    then show ?thesis using Cons.prems t by simp
  next
    case False
    show ?thesis
    proof (cases "\<exists>d. e = Elapse d")
      case True
      then show ?thesis using Cons.prems by (auto simp: quiet_until_def)
    next
      case elapse: False
      then have "sets_full s (clock_step s e)" using False by (intro sets_full_step) blast
      moreover have "elapsed (e # es) = elapsed es" using elapse by (cases e) auto
      ultimately show ?thesis using Cons.prems by (auto simp: sets_full_def quiet_until_def)
    qed
  qed
  then show ?case using Cons.IH [OF ok] Cons.prems by simp
qed simp

lemma output_quiet:
  assumes "clock_ok s"
  shows "quiet_until (sr_now s + SLOW_RUN_MS) (noteOutput s)"
proof (cases "sr_clock s")
  case (Some c)
  then have c: "c < length (sr_states s)" "sr_timers (halt c s) = []"
    using assms halt_current [of s c] by (auto simp: clock_ok_def timers_ok_def)
  show ?thesis
  proof (cases "sr_states s ! c = Fired \<or> sr_states s ! c = Waiting")
    case True
    then have "sr_timers s = []" using assms Some by (auto simp: clock_ok_def timers_ok_def)
    then show ?thesis using True Some by (simp add: noteOutput_def arm_done quiet_until_def)
  next
    case False
    then show ?thesis
      using Some c assms arm_ok(1) [of s c] by (simp add: noteOutput_def clock_ok_def quiet_until_def)
  qed
qed (use assms in \<open>simp add: noteOutput_def quiet_until_def clock_ok_def timers_ok_def\<close>)

lemma question_stops:
  assumes "clock_ok s"
  shows "sr_timers (noteQuestion s) = []"
  using assms halt_current [of s]
  by (auto simp: noteQuestion_def clock_ok_def timers_ok_def Let_def split: option.splits)

definition asleep :: "slow_run \<Rightarrow> bool" where
  "asleep s \<longleftrightarrow> sr_timers s = [] \<and> (\<forall>c. sr_clock s = Some c \<longrightarrow> sr_states s ! c = Fired \<or> sr_states s ! c = Waiting)"

lemma question_asleep: "clock_ok s \<Longrightarrow> asleep (noteQuestion s)"
  using question_stops [of s] halt_current [of s]
  by (auto simp: asleep_def noteQuestion_def clock_ok_def timers_ok_def Let_def split: option.splits)

lemma asleep_run:
  "clock_ok s \<Longrightarrow> asleep s \<Longrightarrow> list_all (\<lambda>e. e \<noteq> Answer \<and> e \<noteq> Watch) es \<Longrightarrow>
     sr_printed (foldl clock_step s es) = sr_printed s"
proof (induction es arbitrary: s)
  case (Cons e es)
  have ok: "clock_ok (clock_step s e)" by (rule clocks.inv_step [OF Cons.prems(1)])
  have "asleep (clock_step s e) \<and> sr_printed (clock_step s e) = sr_printed s"
  proof (cases e)
    case (EndWatch own)
    have "own < length (sr_states s) \<Longrightarrow> halt own s = s"
      using Cons.prems halt_other [of s own] by (cases "sr_clock s = Some own") (auto simp: asleep_def halt_def)
    then show ?thesis using EndWatch Cons.prems by (auto simp: asleep_def end_watch_def Let_def)
  next
    case Output
    then have "clock_step s e = s" using Cons.prems by (auto simp: asleep_def noteOutput_def arm_done split: option.splits)
    then show ?thesis using Cons.prems by simp
  next
    case Question
    then show ?thesis
      using question_asleep Cons.prems sets_full_step [of Question s] by (simp add: sets_full_def)
  next
    case (TimeOut t)
    then have "clock_step s e = s" using Cons.prems by (simp add: asleep_def time_out_def)
    then show ?thesis using Cons.prems by simp
  qed (use Cons.prems in \<open>auto simp: asleep_def\<close>)
  then show ?case using Cons.IH [OF ok] Cons.prems by simp
qed simp

text \<open>
  C31: in every order of runs starting and ending, output, questions, answers and timers: each run gets the line at most once;
  after any output nothing is printed before ten more seconds have passed, whatever happens in them; while a
  question waits for its answer nothing is printed, however long it takes; and a run that is watched, has not got the
  line and waits for no answer gets it when it stays quiet for ten seconds.
\<close>

theorem slow_line_once_and_on_time:
  fixes es :: "clock_event list"
  defines "s \<equiv> foldl clock_step no_run es"
  shows "distinct (sr_printed s) \<and>
    (\<forall>es'. elapsed es' < SLOW_RUN_MS \<longrightarrow>
       sr_printed (foldl clock_step s (Output # es')) = sr_printed s) \<and>
    (\<forall>es'. list_all (\<lambda>e. e \<noteq> Answer \<and> e \<noteq> Watch) es' \<longrightarrow>
       sr_printed (foldl clock_step s (Question # es')) = sr_printed s) \<and>
    (\<forall>c. sr_clock s = Some c \<and> c \<notin> set (sr_printed s) \<and> sr_states s ! c \<noteq> Waiting \<longrightarrow>
       (\<exists>t. sr_printed (foldl clock_step s [Elapse SLOW_RUN_MS, TimeOut t]) = sr_printed s @ [c]))"
proof (intro conjI allI impI)
  have ok: "clock_ok s" unfolding s_def by (rule clocks.inv_run)
  then show "distinct (sr_printed s)" by (simp add: clock_ok_def clocks_ok_def)
  show "sr_printed (foldl clock_step s (Output # es')) = sr_printed s" if "elapsed es' < SLOW_RUN_MS" for es'
    using quiet_run [OF noteOutput_ok [OF ok] output_quiet [OF ok], of es'] sets_full_step [of Output s] that
    by (simp add: sets_full_def)
  show "sr_printed (foldl clock_step s (Question # es')) = sr_printed s"
    if "list_all (\<lambda>e. e \<noteq> Answer \<and> e \<noteq> Watch) es'" for es'
    using asleep_run [OF noteQuestion_ok [OF ok] question_asleep [OF ok] that] sets_full_step [of Question s]
    by (simp add: sets_full_def)
  fix c
  assume c: "sr_clock s = Some c \<and> c \<notin> set (sr_printed s) \<and> sr_states s ! c \<noteq> Waiting"
  then have "c < length (sr_states s)" "sr_states s ! c \<noteq> Idle" "sr_states s ! c \<noteq> Fired"
    using ok by (auto simp: clock_ok_def clocks_ok_def timers_ok_def)
  then obtain t where t: "sr_states s ! c = Counting t" using c by (cases "sr_states s ! c") auto
  then obtain due where "due \<le> sr_now s + SLOW_RUN_MS" "sr_timers s = [\<lparr>ti_id = t, ti_due = due, ti_clock = c\<rparr>]"
    using ok c by (auto simp: clock_ok_def timers_ok_def)
  then have "sr_printed (foldl clock_step s [Elapse SLOW_RUN_MS, TimeOut t]) = sr_printed s @ [c]"
    by (simp add: time_out_def)
  then show "\<exists>t. sr_printed (foldl clock_step s [Elapse SLOW_RUN_MS, TimeOut t]) = sr_printed s @ [c]" ..
qed

theorem slow_line_once_and_on_time_witness:
  "let s = foldl clock_step no_run [Watch, Elapse 9999]
   in sr_printed (foldl clock_step s [Output, Elapse 9999, TimeOut 1]) = [] \<and>
      sr_printed (foldl clock_step s [Question, Elapse 50000, TimeOut 0]) = [] \<and>
      (\<exists>t. sr_printed (foldl clock_step s [Elapse SLOW_RUN_MS, TimeOut t]) = [0])"
proof -
  define s where "s = foldl clock_step no_run [Watch, Elapse 9999]"
  have s: "sr_clock s = Some 0" "sr_printed s = []" "sr_states s ! 0 \<noteq> Waiting" unfolding s_def by code_simp+
  have e: "elapsed [Elapse 9999, TimeOut 1] < SLOW_RUN_MS" by (simp add: SLOW_RUN_MS_def)
  note all = slow_line_once_and_on_time [of "[Watch, Elapse 9999]", folded s_def]
  have "sr_printed (foldl clock_step s (Output # [Elapse 9999, TimeOut 1])) = []"
    using all e unfolding s(2) by blast
  moreover have "sr_printed (foldl clock_step s (Question # [Elapse 50000, TimeOut 0])) = []"
  proof -
    have "list_all (\<lambda>e. e \<noteq> Answer \<and> e \<noteq> Watch) [Elapse 50000, TimeOut 0]" by simp
    then show ?thesis using all unfolding s(2) by blast
  qed
  moreover have "\<exists>t. sr_printed (foldl clock_step s [Elapse SLOW_RUN_MS, TimeOut t]) = [0]"
    using all s by auto
  ultimately show ?thesis unfolding Let_def s_def [symmetric] by blast
qed

end
