(* ===== verification/Command.thy ===== *)
theory Command
  imports Terminal Unknown_Command Slow_Run
begin

text \<open>
  Terminal commands (\<^verbatim>\<open>utils/command.ts\<close>, \<^verbatim>\<open>commands/create.ts\<close>): how a command declares its arguments and options, how the
  tokens of a line are read against it, and the manager that starts, stops and finishes runs. The checks before a
  command and its handler are awaited code of the commands; a run stops there, and goes on with the answer as a step of
  its own, so that other runs, a stop and a lock may come between. Texts of usage and help are not modelled.
\<close>

section \<open>Declarations\<close>

datatype arg_values = Listed "string list" | Computed "string \<Rightarrow> string list \<Rightarrow> string list"

type_synonym 'p parser = "string \<Rightarrow> string list \<Rightarrow> string + 'p"

record 'p arg =
  ar_name :: string
  ar_optional :: bool
  ar_multiple :: bool
  ar_values :: "arg_values option"
  ar_parse :: "'p parser option"

text \<open>A short form is not given, a boolean, or a text.\<close>

datatype short_form = NoShort | ShortFlag bool | ShortText string

record 'p opt =
  op_name :: string
  op_short :: short_form
  op_takeValue :: bool
  op_values :: "string list option"
  op_parse :: "'p parser option"

datatype ('p, 'c, 'h) command = Command
  (cm_name: string)
  (cm_preChecks: "'c list")
  (cm_stoppable: bool)
  (cm_needsConnection: bool)
  (cm_args: "'p arg list option")
  (cm_options: "'p opt list option")
  (cm_handle: "'h option")
  (cm_subcommands: "('p, 'c, 'h) command list option")

datatype create_error = OptionalBeforeRequired | MultipleNotLast | ShortNotOneLetter string | DuplicateShort string
  | NoFirstLetter

definition help_option :: "'p opt" where
  "help_option = \<lparr>op_name = ''help'', op_short = ShortText ''h'', op_takeValue = False, op_values = None, op_parse = None\<rparr>"

definition addHelpOption :: "'p opt list option \<Rightarrow> 'p opt list option" where
  "addHelpOption opts = Some ((case opts of None \<Rightarrow> [] | Some os \<Rightarrow> os) @ [help_option])"

definition createCmd :: "('p, 'c, 'h) command \<Rightarrow> ('p, 'c, 'h) command" where
  "createCmd cmd =
     Command (cm_name cmd) (cm_preChecks cmd) (cm_stoppable cmd) (cm_needsConnection cmd) (cm_args cmd)
       (addHelpOption (cm_options cmd)) (cm_handle cmd) (cm_subcommands cmd)"

fun check_args :: "'p arg list \<Rightarrow> bool \<Rightarrow> 'p arg list \<Rightarrow> create_error option" where
  "check_args every isOptional [] = None"
| "check_args every isOptional (a # as) =
     (if isOptional \<and> \<not> ar_optional a then Some OptionalBeforeRequired
      else if ar_multiple a \<and> ar_name a \<noteq> ar_name (last every) then Some MultipleNotLast
      else check_args every (isOptional \<or> ar_optional a) as)"

definition createArgs :: "'p arg list \<Rightarrow> create_error + 'p arg list" where
  "createArgs args = (case check_args args False args of Some e \<Rightarrow> Inl e | None \<Rightarrow> Inr args)"

text \<open>Whether a short form counts as given: \<^verbatim>\<open>!opt.short\<close>.\<close>

definition has_short :: "'p opt \<Rightarrow> bool" where
  "has_short o1 = (case op_short o1 of NoShort \<Rightarrow> False | ShortFlag b \<Rightarrow> b | ShortText s \<Rightarrow> s \<noteq> [])"

definition createShort :: "'p opt \<Rightarrow> create_error + string" where
  "createShort o1 =
     (case (case op_short o1 of ShortText s \<Rightarrow> Some s | _ \<Rightarrow> (case op_name o1 of [] \<Rightarrow> None | c # cs \<Rightarrow> Some [c])) of
        None \<Rightarrow> Inl NoFirstLetter
      | Some s \<Rightarrow> if length s \<noteq> 1 then Inl (ShortNotOneLetter (op_name o1)) else Inr s)"

text \<open>\<^verbatim>\<open>some\<close> with a callback that may throw: up to the first answer.\<close>

fun short_taken :: "string \<Rightarrow> string \<Rightarrow> 'p opt list \<Rightarrow> create_error + bool" where
  "short_taken name short [] = Inr False"
| "short_taken name short (o1 # os) =
     (if op_name o1 = name \<or> \<not> has_short o1 then short_taken name short os
      else case createShort o1 of
          Inl e \<Rightarrow> Inl e
        | Inr s \<Rightarrow> if s = short then Inr True else short_taken name short os)"

text \<open>The loop over the options: those before the current one have their short form normalised in place.\<close>

fun normalise_shorts :: "'p opt list \<Rightarrow> 'p opt list \<Rightarrow> create_error + 'p opt list" where
  "normalise_shorts before [] = Inr before"
| "normalise_shorts before (o1 # os) =
     (if \<not> has_short o1 then normalise_shorts (before @ [o1]) os
      else case createShort o1 of
          Inl e \<Rightarrow> Inl e
        | Inr s \<Rightarrow>
            (case short_taken (op_name o1) s (before @ o1 # os) of
               Inl e \<Rightarrow> Inl e
             | Inr True \<Rightarrow> Inl (DuplicateShort (op_name o1))
             | Inr False \<Rightarrow> normalise_shorts (before @ [o1\<lparr>op_short := ShortText s\<rparr>]) os))"

definition createOptions :: "'p opt list \<Rightarrow> create_error + 'p opt list" where
  "createOptions opts = normalise_shorts [] opts"

section \<open>Reading the tokens\<close>

datatype parse_kind = AnArgument | AnOption

datatype 'e cmd_error =
  UnexpectedOption string
| NoSuchSubcommand string "string list"
| TooManyArguments nat
| ArgumentMissing string
| BadArgument string "string list"
| OptionValueMissing string
| BadOptionValue string "string list"
| ParseFailed parse_kind string string
| NoOptionsDeclared
| UnknownCommand string
| Offline
| Thrown 'e

datatype 'p piece = Raw string | Parsed 'p

datatype 'p arg_value = One "'p piece" | Several "'p piece list"

datatype 'p opt_value = Given | Valued "'p piece"

definition js_nth :: "'a list \<Rightarrow> nat \<Rightarrow> 'a option" where
  "js_nth xs i = (if i < length xs then Some (xs ! i) else None)"

text \<open>An option's token: \<^verbatim>\<open>"-" + o.short\<close> prints a short form that is not a text, too.\<close>

definition short_token :: "'p opt \<Rightarrow> string" where
  "short_token o1 = ''-'' @
     (case op_short o1 of NoShort \<Rightarrow> ''undefined'' | ShortFlag b \<Rightarrow> (if b then ''true'' else ''false'') | ShortText s \<Rightarrow> s)"

definition names_option :: "string \<Rightarrow> 'p opt \<Rightarrow> bool" where
  "names_option token o1 \<longleftrightarrow> ''--'' @ op_name o1 = token \<or> short_token o1 = token"

text \<open>The tokens after the command, sorted into arguments and options with their values.\<close>

fun collect :: "('p, 'c, 'h) command \<Rightarrow> bool \<Rightarrow> string list \<Rightarrow> string list \<Rightarrow> string list \<Rightarrow> 'e cmd_error + string list \<times> string list" where
  "collect cmd takeValue args opts [] = Inr (args, opts)"
| "collect cmd takeValue args opts (t # ts) =
     (if takeValue then collect cmd False args (opts @ [t]) ts
      else if prefix ''-'' t \<and> cm_options cmd \<noteq> None then
        (case find (names_option t) (the (cm_options cmd)) of
           None \<Rightarrow> Inl (UnexpectedOption t)
         | Some o1 \<Rightarrow> collect cmd (op_takeValue o1) args (opts @ [t]) ts)
      else if cm_args cmd \<noteq> None then collect cmd False (args @ [t]) opts ts
      else collect cmd False args opts ts)"

definition createParse :: "parse_kind \<Rightarrow> string \<Rightarrow> 'p parser \<Rightarrow> string list \<Rightarrow> string \<Rightarrow> 'e cmd_error + 'p" where
  "createParse kind name parser tokens token =
     (case parser token tokens of Inl msg \<Rightarrow> Inl (ParseFailed kind name msg) | Inr p \<Rightarrow> Inr p)"

text \<open>\<^verbatim>\<open>map\<close> with a callback that may throw.\<close>

fun map_throw :: "('a \<Rightarrow> 'x + 'b) \<Rightarrow> 'a list \<Rightarrow> 'x + 'b list" where
  "map_throw f [] = Inr []"
| "map_throw f (x # xs) =
     (case f x of Inl e \<Rightarrow> Inl e | Inr y \<Rightarrow> (case map_throw f xs of Inl e \<Rightarrow> Inl e | Inr ys \<Rightarrow> Inr (y # ys)))"

definition input_args :: "'p arg \<Rightarrow> nat \<Rightarrow> string list \<Rightarrow> string list" where
  "input_args a i args =
     (if ar_multiple a then drop i args
      else case js_nth args i of None \<Rightarrow> [] | Some t \<Rightarrow> if t = [] then [] else [t])"

definition allowed_values :: "arg_values \<Rightarrow> nat \<Rightarrow> string list \<Rightarrow> string list \<Rightarrow> string list" where
  "allowed_values v i args tokens = (case v of Listed vs \<Rightarrow> vs | Computed f \<Rightarrow> f (args ! i) tokens)"

definition parse_inputs :: "string list \<Rightarrow> 'p arg \<Rightarrow> string list \<Rightarrow> 'e cmd_error + 'p arg_value" where
  "parse_inputs tokens a inputs =
     (case ar_parse a of
        Some parser \<Rightarrow>
          if ar_multiple a
          then (case map_throw (createParse AnArgument (ar_name a) parser tokens) inputs of
                  Inl e \<Rightarrow> Inl e | Inr ps \<Rightarrow> Inr (Several (map Parsed ps)))
          else (case createParse AnArgument (ar_name a) parser tokens (hd inputs) of
                  Inl e \<Rightarrow> Inl e | Inr p \<Rightarrow> Inr (One (Parsed p)))
      | None \<Rightarrow> Inr (if ar_multiple a then Several (map Raw inputs) else One (Raw (hd inputs))))"

text \<open>The first value not allowed, if the search finds one; an empty one it finds is no reason to throw.\<close>

definition invalid_value :: "string list \<Rightarrow> string list \<Rightarrow> string option" where
  "invalid_value allowed inputs =
     (case find (\<lambda>t. t \<notin> set allowed) inputs of None \<Rightarrow> None | Some t \<Rightarrow> if t = [] then None else Some t)"

definition parse_arg :: "string list \<Rightarrow> string list \<Rightarrow> nat \<Rightarrow> 'p arg \<Rightarrow> 'e cmd_error + 'p arg_value option" where
  "parse_arg tokens args i a =
     (let inputs = input_args a i args
      in if inputs = [] then (if \<not> ar_optional a then Inl (ArgumentMissing (ar_name a)) else Inr None)
         else
           let allowed = (case ar_values a of None \<Rightarrow> inputs | Some v \<Rightarrow> allowed_values v i args tokens)
           in case invalid_value allowed inputs of
               Some t \<Rightarrow> Inl (BadArgument t allowed)
             | None \<Rightarrow> (case parse_inputs tokens a inputs of Inl e \<Rightarrow> Inl e | Inr v \<Rightarrow> Inr (Some v)))"

fun parse_args :: "string list \<Rightarrow> string list \<Rightarrow> nat \<Rightarrow> 'p arg list \<Rightarrow> 'p arg_value js_obj \<Rightarrow> 'e cmd_error + 'p arg_value js_obj" where
  "parse_args tokens args i [] parsed = Inr parsed"
| "parse_args tokens args i (a # as) parsed =
     (case parse_arg tokens args i a of
        Inl e \<Rightarrow> Inl e
      | Inr None \<Rightarrow> parse_args tokens args (Suc i) as parsed
      | Inr (Some v) \<Rightarrow> parse_args tokens args (Suc i) as (obj_set (ar_name a) v parsed))"

definition parse_opt :: "string list \<Rightarrow> string list \<Rightarrow> 'p opt \<Rightarrow> 'e cmd_error + 'p opt_value option" where
  "parse_opt tokens opts o1 =
     (if \<not> (\<exists>t \<in> set opts. names_option t o1) then Inr None
      else if \<not> op_takeValue o1 then Inr (Some Given)
      else
        let i = length (takeWhile (\<lambda>t. \<not> names_option t o1) opts)
        in case js_nth opts (Suc i) of
            None \<Rightarrow> Inl (OptionValueMissing (op_name o1))
          | Some val \<Rightarrow>
              if val = [] then Inl (OptionValueMissing (op_name o1))
              else if op_values o1 \<noteq> None \<and> val \<notin> set (the (op_values o1))
              then Inl (BadOptionValue val (the (op_values o1)))
              else case op_parse o1 of
                  None \<Rightarrow> Inr (Some (Valued (Raw val)))
                | Some parser \<Rightarrow>
                    (case createParse AnOption (op_name o1) parser tokens val of
                       Inl e \<Rightarrow> Inl e | Inr p \<Rightarrow> Inr (Some (Valued (Parsed p)))))"

fun parse_opts :: "string list \<Rightarrow> string list \<Rightarrow> 'p opt list \<Rightarrow> 'p opt_value js_obj \<Rightarrow> 'e cmd_error + 'p opt_value js_obj" where
  "parse_opts tokens opts [] parsed = Inr parsed"
| "parse_opts tokens opts (o1 # os) parsed =
     (case parse_opt tokens opts o1 of
        Inl e \<Rightarrow> Inl e
      | Inr None \<Rightarrow> parse_opts tokens opts os parsed
      | Inr (Some v) \<Rightarrow> parse_opts tokens opts os (obj_set (op_name o1) v parsed))"

text \<open>What reading a line comes to: a check to wait for, a text to print, an error, or the handler with its input.\<close>

datatype ('p, 'c, 'h, 'e) reading =
  Await "('p, 'c, 'h) command" nat
| Usage "('p, 'c, 'h) command"
| Help "('p, 'c, 'h) command"
| Fail "'e cmd_error"
| Call "('p, 'c, 'h) command" "'p arg_value js_obj" "'p opt_value js_obj"

definition find_sub :: "('p, 'c, 'h) command \<Rightarrow> string \<Rightarrow> ('p, 'c, 'h) command option" where
  "find_sub cmd token =
     (case cm_subcommands cmd of None \<Rightarrow> None | Some subs \<Rightarrow> find (\<lambda>c. cm_name c = token) subs)"

definition has_args_or_opts :: "('p, 'c, 'h) command \<Rightarrow> bool option" where
  "has_args_or_opts cmd =
     (if cm_args cmd \<noteq> None \<and> the (cm_args cmd) \<noteq> [] then Some True
      else case cm_options cmd of None \<Rightarrow> None | Some os \<Rightarrow> Some (length os > 1))"

definition collect_line :: "('p, 'c, 'h) command \<Rightarrow> string list \<Rightarrow> 'e cmd_error + string list \<times> string list" where
  "collect_line cmd rest =
     (case collect cmd False [] [] rest of
        Inl e \<Rightarrow> Inl e
      | Inr (args, opts) \<Rightarrow>
          if cm_args cmd = None \<and> cm_subcommands cmd \<noteq> None then
            (if prefix ''-'' (hd rest) then Inl (UnexpectedOption (hd rest))
             else Inl (NoSuchSubcommand (hd rest) (map cm_name (the (cm_subcommands cmd)))))
          else if length args > (case cm_args cmd of None \<Rightarrow> 0 | Some as \<Rightarrow> length as) \<and>
            \<not> (case cm_args cmd of None \<Rightarrow> False | Some as \<Rightarrow> as \<noteq> [] \<and> ar_multiple (last as))
          then Inl (TooManyArguments (length args))
          else Inr (args, opts))"

definition parse_line :: "('p, 'c, 'h) command \<Rightarrow> string list \<Rightarrow> string list \<Rightarrow> string list \<Rightarrow> ('p, 'c, 'h, 'e) reading" where
  "parse_line cmd tokens args opts =
     (case parse_args tokens args 0 (case cm_args cmd of None \<Rightarrow> [] | Some as \<Rightarrow> as) [] of
        Inl e \<Rightarrow> Fail e
      | Inr parsedArgs \<Rightarrow>
          (case parse_opts tokens opts (case cm_options cmd of None \<Rightarrow> [] | Some os \<Rightarrow> os) [] of
             Inl e \<Rightarrow> Fail e
           | Inr parsedOpts \<Rightarrow> Call cmd parsedArgs parsedOpts))"

definition read_line :: "('p, 'c, 'h) command \<Rightarrow> string list \<Rightarrow> nat \<Rightarrow> ('p, 'c, 'h, 'e) reading" where
  "read_line cmd tokens i =
     (if cm_handle cmd = None then Usage cmd
      else
        let nextToken = js_nth tokens (Suc i)
        in case has_args_or_opts cmd of
            None \<Rightarrow> Fail NoOptionsDeclared
          | Some True \<Rightarrow>
              if nextToken = Some ''--help'' \<or> nextToken = Some ''-h'' then Help cmd
              else if nextToken = None \<or> nextToken = Some [] then parse_line cmd tokens [] []
              else (case collect_line cmd (drop (Suc i) tokens) of
                      Inl e \<Rightarrow> Fail e
                    | Inr (args, opts) \<Rightarrow> parse_line cmd tokens args opts)
          | Some False \<Rightarrow> parse_line cmd tokens [] [])"

text \<open>The loop over the tokens, from the top of a round or from where the checks of a round have passed.\<close>

function walk :: "string list \<Rightarrow> ('p, 'c, 'h) command \<Rightarrow> nat \<Rightarrow> bool \<Rightarrow> ('p, 'c, 'h, 'e) reading" where
  "walk tokens cmd i checked =
     (let cmd' = (if checked then cmd else case find_sub cmd (tokens ! i) of Some c \<Rightarrow> c | None \<Rightarrow> cmd)
      in if \<not> checked \<and> cm_preChecks cmd' \<noteq> [] then Await cmd' i
         else if Suc i < length tokens \<and> find_sub cmd' (tokens ! Suc i) \<noteq> None then walk tokens cmd' (Suc i) False
         else read_line cmd' tokens i)"
  by pat_completeness auto
termination
  by (relation "measure (\<lambda>(tokens, cmd, i, checked). length tokens - i)") auto

declare walk.simps [simp del]

end
