(* ===== verification/Command_Manager.thy ===== *)
theory Command_Manager
  imports Command
begin

text \<open>
  The manager of command runs (\<^verbatim>\<open>PgCommandManager\<close> of \<^verbatim>\<open>utils/command.ts\<close>): a run starts, waits for checks and its
  handler, can be stopped or locked meanwhile, and finishes. Runs are numbered in the order they start; the promise
  a call of \<^verbatim>\<open>execute\<close> gives is an outcome under the number of its run. Waiting points are separate steps, so every
  interleaving of runs is a sequence of events.
\<close>

datatype stoppability = Stoppable | Step | Never

datatype ('p, 'c, 'h) phase =
  Checking "('p, 'c, 'h) command" nat nat
| Handling "('p, 'c, 'h) command" "'p arg_value js_obj" "'p opt_value js_obj"

record ('p, 'c, 'h) run =
  ru_id :: nat
  ru_name :: string
  ru_tokens :: "string list"
  ru_stoppability :: stoppability
  ru_aborted :: bool
  ru_watch :: "nat option"
  ru_phase :: "('p, 'c, 'h) phase"

datatype ('r, 'e) outcome = Resolved "'r option" | Rejected "'e cmd_error"

datatype ('r, 'e) run_event =
  DidStart nat string string
| DidFinish nat string "'e cmd_error + 'r"

datatype stop_line = Stopping | StepGoesOn | RunGoesOn string

record ('p, 'c, 'h, 'r, 'e) manager =
  mg_runs :: "('p, 'c, 'h) run list"
  mg_next :: nat
  mg_events :: "('r, 'e) run_event list"
  mg_outcomes :: "(nat \<times> ('r, 'e) outcome) list"
  mg_lines :: "stop_line list"
  mg_clock :: slow_run
  mg_history :: history

definition no_commands_run :: "('p, 'c, 'h, 'r, 'e) manager" where
  "no_commands_run =
     \<lparr>mg_runs = [], mg_next = 0, mg_events = [], mg_outcomes = [], mg_lines = [], mg_clock = no_run,
      mg_history = new_history 20\<rparr>"

section \<open>A run\<close>

definition with_run :: "nat \<Rightarrow> (('p, 'c, 'h) run \<Rightarrow> ('p, 'c, 'h) run) \<Rightarrow> ('p, 'c, 'h, 'r, 'e) manager \<Rightarrow> ('p, 'c, 'h, 'r, 'e) manager" where
  "with_run k f m = m\<lparr>mg_runs := map (\<lambda>r. if ru_id r = k then f r else r) (mg_runs m)\<rparr>"

definition outcome_event :: "nat \<Rightarrow> string \<Rightarrow> ('r, 'e) outcome \<Rightarrow> ('r, 'e) run_event list" where
  "outcome_event k name out =
     (case out of
        Resolved None \<Rightarrow> []
      | Resolved (Some r) \<Rightarrow> [DidFinish k name (Inr r)]
      | Rejected e \<Rightarrow> [DidFinish k name (Inl e)])"

text \<open>The \<^verbatim>\<open>finally\<close> of a run: the clock ends, the run leaves the set, and a result is announced.\<close>

definition end_run :: "('p, 'c, 'h) run \<Rightarrow> ('r, 'e) outcome \<Rightarrow> ('p, 'c, 'h, 'r, 'e) manager \<Rightarrow> ('p, 'c, 'h, 'r, 'e) manager" where
  "end_run r out m =
     m\<lparr>mg_clock := (case ru_watch r of None \<Rightarrow> mg_clock m | Some w \<Rightarrow> end_watch w (mg_clock m)),
       mg_runs := filter (\<lambda>x. ru_id x \<noteq> ru_id r) (mg_runs m),
       mg_events := mg_events m @ outcome_event (ru_id r) (ru_name r) out,
       mg_outcomes := mg_outcomes m @ [(ru_id r, out)]\<rparr>"

text \<open>Going on with what the reading of the line came to.\<close>

fun go_on :: "('p, 'c, 'h) run \<Rightarrow> ('p, 'c, 'h, 'e) reading \<Rightarrow> ('p, 'c, 'h, 'r, 'e) manager \<Rightarrow> ('p, 'c, 'h, 'r, 'e) manager" where
  "go_on r (Await cmd i) m = with_run (ru_id r) (\<lambda>x. x\<lparr>ru_phase := Checking cmd i 0\<rparr>) m"
| "go_on r (Usage cmd) m = end_run r (Resolved None) m"
| "go_on r (Help cmd) m = end_run r (Resolved None) m"
| "go_on r (Fail e) m = end_run r (Rejected e) m"
| "go_on r (Call cmd args opts) m =
     with_run (ru_id r)
       (\<lambda>x. x\<lparr>ru_stoppability := (if cm_stoppable cmd then Stoppable else Never), ru_phase := Handling cmd args opts\<rparr>) m"

section \<open>Starting\<close>

definition unknown_command_answered :: "('p, 'c, 'h) command list \<Rightarrow> string \<Rightarrow> ('p, 'c, 'h, 'r, 'e) manager \<Rightarrow> ('p, 'c, 'h, 'r, 'e) manager" where
  "unknown_command_answered cmds name m =
     (case unknownCommandIn (map cm_name cmds) name of
        Suggestion l s \<Rightarrow> m\<lparr>mg_history := push s (mg_history m)\<rparr>
      | _ \<Rightarrow> m)"

definition start_run :: "('p, 'c, 'h) command \<Rightarrow> string list \<Rightarrow> ('p, 'c, 'h, 'r, 'e) manager \<Rightarrow> ('p, 'c, 'h, 'r, 'e) manager" where
  "start_run topCmd tokens m =
     (let (watch, clock) = (if mg_runs m = [] then (case watchSlowRun (mg_clock m) of (w, c) \<Rightarrow> (Some w, c)) else (None, mg_clock m));
          r = \<lparr>ru_id = mg_next m, ru_name = cm_name topCmd, ru_tokens = tokens,
               ru_stoppability = (if cm_stoppable topCmd then Stoppable else Never), ru_aborted = False,
               ru_watch = watch, ru_phase = Checking topCmd 0 0\<rparr>
      in go_on r (walk tokens topCmd 0 False)
           (m\<lparr>mg_runs := mg_runs m @ [r], mg_next := Suc (mg_next m),
              mg_events := mg_events m @ [DidStart (mg_next m) (cm_name topCmd) (join_blank tokens)], mg_clock := clock\<rparr>))"

datatype 'e begun = NoCommand | Refused "'e cmd_error" | Begun nat

definition execute :: "('p, 'c, 'h) command list \<Rightarrow> bool \<Rightarrow> string list \<Rightarrow> ('p, 'c, 'h, 'r, 'e) manager \<Rightarrow>
    'e begun \<times> ('p, 'c, 'h, 'r, 'e) manager" where
  "execute cmds onLine tokens m =
     (case tokens of
        [] \<Rightarrow> (NoCommand, m)
      | name # rest \<Rightarrow>
          if name = [] then (NoCommand, m)
          else case find (\<lambda>c. cm_name c = name) cmds of
              None \<Rightarrow> (Refused (UnknownCommand (uc_line (unknownCommandIn (map cm_name cmds) name))),
                       unknown_command_answered cmds name m)
            | Some topCmd \<Rightarrow>
                let asksForHelp = (''--help'' \<in> set tokens \<or> ''-h'' \<in> set tokens)
                in if cm_needsConnection topCmd \<and> \<not> asksForHelp \<and> \<not> onLine then (Refused Offline, m)
                   else (Begun (mg_next m), start_run topCmd tokens m))"

section \<open>Going on and stopping\<close>

definition run_of :: "nat \<Rightarrow> ('p, 'c, 'h, 'r, 'e) manager \<Rightarrow> ('p, 'c, 'h) run option" where
  "run_of k m = find (\<lambda>r. ru_id r = k) (mg_runs m)"

definition check_done :: "nat \<Rightarrow> 'e option \<Rightarrow> ('p, 'c, 'h, 'r, 'e) manager \<Rightarrow> ('p, 'c, 'h, 'r, 'e) manager" where
  "check_done k thrown m =
     (case run_of k m of
        None \<Rightarrow> m
      | Some r \<Rightarrow>
          (case ru_phase r of
             Handling cmd args opts \<Rightarrow> m
           | Checking cmd i n \<Rightarrow>
               (case thrown of
                  Some e \<Rightarrow> end_run r (Rejected (Thrown e)) m
                | None \<Rightarrow>
                    if Suc n < length (cm_preChecks cmd)
                    then with_run k (\<lambda>x. x\<lparr>ru_phase := Checking cmd i (Suc n)\<rparr>) m
                    else go_on r (walk (ru_tokens r) cmd i True) m)))"

definition handler_done :: "nat \<Rightarrow> 'e + 'r \<Rightarrow> ('p, 'c, 'h, 'r, 'e) manager \<Rightarrow> ('p, 'c, 'h, 'r, 'e) manager" where
  "handler_done k res m =
     (case run_of k m of
        None \<Rightarrow> m
      | Some r \<Rightarrow>
          (case ru_phase r of
             Checking cmd i n \<Rightarrow> m
           | Handling cmd args opts \<Rightarrow>
               end_run r (case res of Inl e \<Rightarrow> Rejected (Thrown e) | Inr v \<Rightarrow> Resolved (Some v)) m))"

definition lockStop :: "nat \<Rightarrow> ('p, 'c, 'h, 'r, 'e) manager \<Rightarrow> ('p, 'c, 'h, 'r, 'e) manager" where
  "lockStop k m =
     with_run k (\<lambda>r. if ru_stoppability r = Stoppable then r\<lparr>ru_stoppability := Step\<rparr> else r) m"

definition stops :: "('p, 'c, 'h) run \<Rightarrow> bool" where
  "stops r \<longleftrightarrow> ru_stoppability r = Stoppable \<and> \<not> ru_aborted r"

definition stop :: "('p, 'c, 'h, 'r, 'e) manager \<Rightarrow> bool \<times> ('p, 'c, 'h, 'r, 'e) manager" where
  "stop m =
     (if mg_runs m = [] then (False, m)
      else if list_ex stops (mg_runs m) then
        (True, m\<lparr>mg_lines := mg_lines m @ [Stopping],
                 mg_runs := map (\<lambda>r. if stops r then r\<lparr>ru_aborted := True\<rparr> else r) (mg_runs m)\<rparr>)
      else if list_ex ru_aborted (mg_runs m) then (True, m)
      else (False, m\<lparr>mg_lines := mg_lines m @
              [if list_ex (\<lambda>r. ru_stoppability r = Step) (mg_runs m) then StepGoesOn
               else RunGoesOn (ru_name (last (mg_runs m)))]\<rparr>))"

section \<open>Every interleaving\<close>

text \<open>Only a handler is given \<^verbatim>\<open>lockStop\<close>.\<close>

definition in_handler :: "nat \<Rightarrow> ('p, 'c, 'h, 'r, 'e) manager \<Rightarrow> bool" where
  "in_handler k m = (case run_of k m of None \<Rightarrow> False | Some r \<Rightarrow>
     (case ru_phase r of Checking cmd i n \<Rightarrow> False | Handling cmd args opts \<Rightarrow> True))"

datatype ('e, 'r) manager_event =
  Execute bool "string list"
| CheckDone nat "'e option"
| HandlerDone nat "'e + 'r"
| LockStop nat
| StopPressed
| Printed
| Asked
| Answered
| Passed nat
| TimedOut nat

fun manager_step :: "('p, 'c, 'h) command list \<Rightarrow> ('p, 'c, 'h, 'r, 'e) manager \<Rightarrow> ('e, 'r) manager_event \<Rightarrow>
    ('p, 'c, 'h, 'r, 'e) manager" where
  "manager_step cmds m (Execute onLine tokens) = snd (execute cmds onLine tokens m)"
| "manager_step cmds m (CheckDone k thrown) = check_done k thrown m"
| "manager_step cmds m (HandlerDone k res) = handler_done k res m"
| "manager_step cmds m (LockStop k) = (if in_handler k m then lockStop k m else m)"
| "manager_step cmds m StopPressed = snd (stop m)"
| "manager_step cmds m Printed = m\<lparr>mg_clock := noteOutput (mg_clock m)\<rparr>"
| "manager_step cmds m Asked = m\<lparr>mg_clock := noteQuestion (mg_clock m)\<rparr>"
| "manager_step cmds m Answered = m\<lparr>mg_clock := noteAnswer (mg_clock m)\<rparr>"
| "manager_step cmds m (Passed d) = m\<lparr>mg_clock := clock_step (mg_clock m) (Elapse d)\<rparr>"
| "manager_step cmds m (TimedOut t) = m\<lparr>mg_clock := time_out t (mg_clock m)\<rparr>"

end
