(* ===== verification/Command_Correct.thy ===== *)
theory Command_Correct
  imports Command_Manager
begin

text \<open>
  What the reading of a line promises to a handler, and the invariants of the manager over every interleaving of runs:
  a run starts once and settles once, its result is announced once, and the clock for slow runs belongs to a run in flight.
\<close>

section \<open>The input of a handler\<close>

text \<open>
  A value fits its declaration: parsed exactly where there is a parser, several exactly for an argument that takes them,
  and in the fixed list of allowed values where there is one and no parser. Among several values an empty one ends the
  comparison with the list; lists that are computed, and what a parser returns, are not compared here.
\<close>

definition listed :: "'p arg \<Rightarrow> string \<Rightarrow> bool" where
  "listed a t = (case ar_values a of Some (Listed vs) \<Rightarrow> t \<in> set vs | _ \<Rightarrow> True)"

fun piece_fits :: "'p arg \<Rightarrow> 'p piece \<Rightarrow> bool" where
  "piece_fits a (Raw t) = (ar_parse a = None)"
| "piece_fits a (Parsed p) = (ar_parse a \<noteq> None)"

fun arg_fits :: "'p arg \<Rightarrow> 'p arg_value \<Rightarrow> bool" where
  "arg_fits a (One p) \<longleftrightarrow> \<not> ar_multiple a \<and> piece_fits a p \<and> (\<forall>t. p = Raw t \<longrightarrow> t \<noteq> [] \<and> listed a t)"
| "arg_fits a (Several ps) \<longleftrightarrow> ar_multiple a \<and> ps \<noteq> [] \<and> list_all (piece_fits a) ps \<and>
     (\<forall>t. Raw t \<in> set (takeWhile (\<lambda>p. p \<noteq> Raw []) ps) \<longrightarrow> listed a t)"

fun opt_fits :: "'p opt \<Rightarrow> 'p opt_value \<Rightarrow> bool" where
  "opt_fits o1 Given \<longleftrightarrow> \<not> op_takeValue o1"
| "opt_fits o1 (Valued (Parsed p)) \<longleftrightarrow> op_takeValue o1 \<and> op_parse o1 \<noteq> None"
| "opt_fits o1 (Valued (Raw t)) \<longleftrightarrow> op_takeValue o1 \<and> op_parse o1 = None \<and> t \<noteq> [] \<and>
     (op_values o1 = None \<or> t \<in> set (the (op_values o1)))"

definition declared :: "'a list option \<Rightarrow> 'a list" where
  "declared xs = (case xs of None \<Rightarrow> [] | Some ys \<Rightarrow> ys)"

definition input_ok :: "('p, 'c, 'h) command \<Rightarrow> 'p arg_value js_obj \<Rightarrow> 'p opt_value js_obj \<Rightarrow> bool" where
  "input_ok cmd args opts \<longleftrightarrow>
     list_all (\<lambda>a. ar_optional a \<or> obj_has args (ar_name a)) (declared (cm_args cmd)) \<and>
     list_all (\<lambda>(n, v). list_ex (\<lambda>a. ar_name a = n \<and> arg_fits a v) (declared (cm_args cmd))) args \<and>
     list_all (\<lambda>(n, v). list_ex (\<lambda>o1. op_name o1 = n \<and> opt_fits o1 v) (declared (cm_options cmd))) opts"

lemma obj_set_cases: "(n, w) \<in> set (obj_set k v m) \<Longrightarrow> (n, w) \<in> set m \<or> n = k \<and> w = v"
  unfolding obj_set_def by (induction m) (auto split: if_splits)

lemma map_throw_length: "map_throw f xs = Inr ys \<Longrightarrow> length ys = length xs"
  by (induction xs arbitrary: ys) (auto split: sum.splits)

lemma input_args_single: "\<not> ar_multiple a \<Longrightarrow> input_args a i args \<noteq> [] \<Longrightarrow> \<exists>t. t \<noteq> [] \<and> input_args a i args = [t]"
  by (auto simp: input_args_def split: option.splits if_splits)

lemma parse_arg_None: "parse_arg tokens args i a = Inr None \<Longrightarrow> ar_optional a"
  by (auto simp: parse_arg_def Let_def split: if_splits option.splits sum.splits)

lemma invalid_value_None:
  assumes "invalid_value allowed inputs = None"
  shows "set (takeWhile (\<lambda>t. t \<noteq> []) inputs) \<subseteq> set allowed"
proof -
  have "find P xs = None \<or> find P xs = Some [] \<Longrightarrow> t \<in> set (takeWhile (\<lambda>t. t \<noteq> []) xs) \<Longrightarrow> \<not> P t"
    for P and xs :: "string list" and t by (induction xs) (auto split: if_splits)
  then show ?thesis using assms by (fastforce simp: invalid_value_def split: option.splits if_splits)
qed

lemma takeWhile_raw:
  "Raw t \<in> set (takeWhile (\<lambda>p. p \<noteq> Raw []) (map Raw inputs)) \<longleftrightarrow> t \<in> set (takeWhile (\<lambda>t. t \<noteq> []) inputs)"
  by (induction inputs) auto

lemma parse_inputs_fit:
  fixes v :: "'p arg_value"
  assumes "parse_inputs tokens a inputs = (Inr v :: 'e cmd_error + 'p arg_value)" and "inputs \<noteq> []"
    and "\<not> ar_multiple a \<Longrightarrow> \<exists>t. t \<noteq> [] \<and> inputs = [t]"
    and "list_all (listed a) (takeWhile (\<lambda>t. t \<noteq> []) inputs)"
  shows "arg_fits a v"
proof (cases "ar_multiple a")
  case True
  show ?thesis
  proof (cases "ar_parse a")
    case None
    then show ?thesis using assms True by (auto simp: parse_inputs_def list_all_iff takeWhile_raw)
  next
    case (Some parser)
    then obtain ps where "map_throw (createParse AnArgument (ar_name a) parser tokens) inputs = (Inr ps :: 'e cmd_error + 'p list)"
      "v = Several (map Parsed ps)"
      using assms(1) True by (auto simp: parse_inputs_def split: sum.splits)
    moreover have "Raw t \<notin> set (takeWhile P (map Parsed ps))" for t P by (auto dest: set_takeWhileD)
    ultimately show ?thesis using True Some assms(2) map_throw_length by (fastforce simp: list_all_iff)
  qed
next
  case False
  then obtain t where "inputs = [t]" "t \<noteq> []" using assms(3) by blast
  then show ?thesis using assms(1,4) False by (auto simp: parse_inputs_def split: option.splits sum.splits)
qed

lemma parse_arg_fits:
  fixes v :: "'p arg_value"
  assumes "parse_arg tokens args i a = (Inr (Some v) :: 'e cmd_error + 'p arg_value option)"
  shows "arg_fits a v"
proof -
  define inputs where "inputs = input_args a i args"
  define allowed where "allowed = (case ar_values a of None \<Rightarrow> inputs | Some v \<Rightarrow> allowed_values v i args tokens)"
  have r: "inputs \<noteq> []" "invalid_value allowed inputs = None"
    "parse_inputs tokens a inputs = (Inr v :: 'e cmd_error + 'p arg_value)"
    using assms by (auto simp: parse_arg_def Let_def simp flip: inputs_def allowed_def split: if_splits option.splits sum.splits)
  from r(3,1) show ?thesis
  proof (rule parse_inputs_fit)
    show "\<exists>t. t \<noteq> [] \<and> inputs = [t]" if "\<not> ar_multiple a"
      using input_args_single [OF that] r(1) unfolding inputs_def by blast
    show "list_all (listed a) (takeWhile (\<lambda>t. t \<noteq> []) inputs)"
      using invalid_value_None [OF r(2)]
      by (auto simp: list_all_iff listed_def allowed_def allowed_values_def split: option.splits arg_values.splits)
  qed
qed

lemma parse_args_fit:
  fixes as :: "'p arg list"
  assumes "parse_args tokens args i as parsed = (Inr out :: 'e cmd_error + 'p arg_value js_obj)"
  shows "list_all (\<lambda>a. ar_optional a \<or> obj_has out (ar_name a)) as \<and>
    (\<forall>n. obj_has parsed n \<longrightarrow> obj_has out n) \<and>
    (\<forall>n v. (n, v) \<in> set out \<longrightarrow> (n, v) \<in> set parsed \<or> (\<exists>a \<in> set as. ar_name a = n \<and> arg_fits a v))"
  using assms
proof (induction as arbitrary: i parsed)
  case (Cons a as)
  then obtain res where res: "parse_arg tokens args i a = (Inr res :: 'e cmd_error + 'p arg_value option)"
    by (auto split: sum.splits)
  show ?case
  proof (cases res)
    case None
    then have "ar_optional a" using parse_arg_None res by blast
    moreover have "parse_args tokens args (Suc i) as parsed = (Inr out :: 'e cmd_error + 'p arg_value js_obj)"
      using Cons.prems res None by simp
    ultimately show ?thesis using Cons.IH [of "Suc i" parsed] by auto
  next
    case (Some v)
    then have run: "parse_args tokens args (Suc i) as (obj_set (ar_name a) v parsed) = (Inr out :: 'e cmd_error + 'p arg_value js_obj)"
      using Cons.prems res by simp
    have IH: "list_all (\<lambda>a. ar_optional a \<or> obj_has out (ar_name a)) as"
      "\<forall>n. n = ar_name a \<or> obj_has parsed n \<longrightarrow> obj_has out n"
      "\<forall>n w. (n, w) \<in> set out \<longrightarrow> (n, w) \<in> set (obj_set (ar_name a) v parsed) \<or> (\<exists>b \<in> set as. ar_name b = n \<and> arg_fits b w)"
      using Cons.IH [OF run] by simp_all
    have "arg_fits a v" using parse_arg_fits res Some by blast
    then have "(n, w) \<in> set parsed \<or> (\<exists>b \<in> set (a # as). ar_name b = n \<and> arg_fits b w)"
      if "(n, w) \<in> set out" for n w
    proof -
      from that IH(3) have "(n, w) \<in> set (obj_set (ar_name a) v parsed) \<or> (\<exists>b \<in> set as. ar_name b = n \<and> arg_fits b w)"
        by blast
      then show ?thesis using \<open>arg_fits a v\<close> obj_set_cases [of n w "ar_name a" v parsed] by auto
    qed
    then show ?thesis using IH(1,2) by simp
  qed
qed simp

lemma parse_opt_fits:
  fixes v :: "'p opt_value"
  assumes "parse_opt tokens opts o1 = (Inr (Some v) :: 'e cmd_error + 'p opt_value option)"
  shows "opt_fits o1 v"
proof (cases "op_takeValue o1")
  case True
  define val where "val = js_nth opts (Suc (length (takeWhile (\<lambda>t. \<not> names_option t o1) opts)))"
  note r = assms [unfolded parse_opt_def Let_def, folded val_def]
  obtain t where t: "val = Some t" "t \<noteq> []" "op_values o1 = None \<or> t \<in> set (the (op_values o1))"
    using r True by (cases val) (simp_all split: if_splits)
  show ?thesis
  proof (cases "op_parse o1")
    case None
    then have "v = Valued (Raw t)" using r True t by (simp split: if_splits)
    then show ?thesis using True t None by simp
  next
    case (Some parser)
    then obtain p where "v = Valued (Parsed p)"
      using r True t
      by (cases "createParse AnOption (op_name o1) parser tokens t :: 'e cmd_error + 'p") (auto split: if_splits)
    then show ?thesis using True Some by simp
  qed
next
  case False
  then have "v = Given" using assms by (simp add: parse_opt_def split: if_splits)
  then show ?thesis using False by simp
qed

lemma parse_opts_fit:
  fixes os :: "'p opt list"
  assumes "parse_opts tokens opts os parsed = (Inr out :: 'e cmd_error + 'p opt_value js_obj)"
  shows "\<forall>n v. (n, v) \<in> set out \<longrightarrow> (n, v) \<in> set parsed \<or> (\<exists>o1 \<in> set os. op_name o1 = n \<and> opt_fits o1 v)"
  using assms
proof (induction os arbitrary: parsed)
  case (Cons o1 os)
  then obtain res where res: "parse_opt tokens opts o1 = (Inr res :: 'e cmd_error + 'p opt_value option)"
    by (auto split: sum.splits)
  show ?case
  proof (cases res)
    case None
    then show ?thesis using Cons res by fastforce
  next
    case (Some v)
    then have run: "parse_opts tokens opts os (obj_set (op_name o1) v parsed) = (Inr out :: 'e cmd_error + 'p opt_value js_obj)"
      using Cons.prems res by simp
    have "opt_fits o1 v" using parse_opt_fits res Some by blast
    then have "(n, w) \<in> set parsed \<or> (\<exists>o2 \<in> set (o1 # os). op_name o2 = n \<and> opt_fits o2 w)"
      if "(n, w) \<in> set out" for n w
    proof -
      from that Cons.IH [OF run] have "(n, w) \<in> set (obj_set (op_name o1) v parsed) \<or> (\<exists>o2 \<in> set os. op_name o2 = n \<and> opt_fits o2 w)"
        by blast
      then show ?thesis using \<open>opt_fits o1 v\<close> obj_set_cases [of n w "op_name o1" v parsed] by auto
    qed
    then show ?thesis by blast
  qed
qed simp

lemma parse_line_ok:
  fixes cmd :: "('p, 'c, 'h) command"
  assumes "parse_line cmd tokens args opts = (Call c pa po :: ('p, 'c, 'h, 'e) reading)"
  shows "c = cmd \<and> input_ok cmd pa po"
proof -
  have r: "c = cmd" "parse_args tokens args 0 (declared (cm_args cmd)) [] = (Inr pa :: 'e cmd_error + 'p arg_value js_obj)"
    "parse_opts tokens opts (declared (cm_options cmd)) [] = (Inr po :: 'e cmd_error + 'p opt_value js_obj)"
    using assms by (auto simp: parse_line_def declared_def split: sum.splits)
  show ?thesis
    using r(1) parse_args_fit [OF r(2)] parse_opts_fit [OF r(3)]
    by (fastforce simp: input_ok_def list_all_iff list_ex_iff)
qed

lemma read_line_ok: "read_line cmd tokens i = Call c pa po \<Longrightarrow> c = cmd \<and> cm_handle c \<noteq> None \<and> input_ok c pa po"
  by (auto simp: read_line_def Let_def dest: parse_line_ok split: if_splits option.splits bool.splits sum.splits)

lemma walk_call: "walk tokens cmd i checked = Call c pa po \<Longrightarrow> cm_handle c \<noteq> None \<and> input_ok c pa po"
proof (induction tokens cmd i checked rule: walk.induct)
  case (1 tokens cmd i checked)
  then show ?case by (subst (asm) (2) walk.simps) (auto simp: Let_def dest: read_line_ok split: if_splits)
qed

end
