(* ===== verification/Command_Runs.thy ===== *)
theory Command_Runs
  imports Command_Correct
begin

text \<open>
  The manager over every interleaving: runs start once, settle once and are announced once; handlers get input that
  fits what their command declares; the slow-run clock belongs to a run in flight; and what a stop does.
\<close>

section \<open>Events and outcomes\<close>

fun starts_of :: "('r, 'e) run_event list \<Rightarrow> nat list" where
  "starts_of [] = []"
| "starts_of (DidStart k n i # es) = k # starts_of es"
| "starts_of (DidFinish k n r # es) = starts_of es"

fun finishes_of :: "('r, 'e) run_event list \<Rightarrow> (nat \<times> ('e cmd_error + 'r)) list" where
  "finishes_of [] = []"
| "finishes_of (DidStart k n i # es) = finishes_of es"
| "finishes_of (DidFinish k n r # es) = (k, r) # finishes_of es"

fun results_of :: "(nat \<times> ('r, 'e) outcome) list \<Rightarrow> (nat \<times> ('e cmd_error + 'r)) list" where
  "results_of [] = []"
| "results_of ((k, Resolved None) # os) = results_of os"
| "results_of ((k, Resolved (Some r)) # os) = (k, Inr r) # results_of os"
| "results_of ((k, Rejected e) # os) = (k, Inl e) # results_of os"

lemma of_append [simp]:
  "starts_of (es @ fs) = starts_of es @ starts_of fs" "finishes_of (es @ fs) = finishes_of es @ finishes_of fs"
  by (induction es rule: starts_of.induct) simp_all

lemma results_of_append [simp]: "results_of (os @ ps) = results_of os @ results_of ps"
  by (induction os rule: results_of.induct) simp_all

lemma of_outcome_event [simp]:
  "starts_of (outcome_event k n out) = []" "finishes_of (outcome_event k n out) = results_of [(k, out)]"
  by (cases out; cases "case out of Resolved x \<Rightarrow> x | Rejected e \<Rightarrow> None"; simp add: outcome_event_def split: option.splits)+

section \<open>The invariant\<close>

definition ids :: "('p, 'c, 'h, 'r, 'e) manager \<Rightarrow> nat list" where
  "ids m = map ru_id (mg_runs m)"

definition books_ok :: "('p, 'c, 'h, 'r, 'e) manager \<Rightarrow> bool" where
  "books_ok m \<longleftrightarrow> starts_of (mg_events m) = [0..<mg_next m] \<and> distinct (ids m @ map fst (mg_outcomes m)) \<and>
     set (ids m @ map fst (mg_outcomes m)) = {..<mg_next m} \<and> finishes_of (mg_events m) = results_of (mg_outcomes m)"

definition clock_owned :: "('p, 'c, 'h, 'r, 'e) manager \<Rightarrow> bool" where
  "clock_owned m \<longleftrightarrow> clock_ok (mg_clock m) \<and>
     List.map_filter ru_watch (mg_runs m) = (case sr_clock (mg_clock m) of None \<Rightarrow> [] | Some c \<Rightarrow> [c])"

fun phase_ok :: "('p, 'c, 'h) phase \<Rightarrow> bool" where
  "phase_ok (Checking cmd i n) = True"
| "phase_ok (Handling cmd args opts) = (cm_handle cmd \<noteq> None \<and> input_ok cmd args opts)"

definition manager_ok :: "('p, 'c, 'h, 'r, 'e) manager \<Rightarrow> bool" where
  "manager_ok m \<longleftrightarrow> books_ok m \<and> clock_owned m \<and> list_all (\<lambda>r. phase_ok (ru_phase r)) (mg_runs m)"

lemma map_filter_append: "List.map_filter f (xs @ ys) = List.map_filter f xs @ List.map_filter f ys"
  by (induction xs) (simp_all add: map_filter_simps split: option.splits)

lemma map_runs_ok:
  assumes "manager_ok m" and "\<And>r. ru_id (f r) = ru_id r" and "\<And>r. ru_watch (f r) = ru_watch r"
    and "\<And>r. phase_ok (ru_phase r) \<Longrightarrow> phase_ok (ru_phase (f r))"
  shows "manager_ok (m\<lparr>mg_runs := map f (mg_runs m)\<rparr>)"
proof -
  have "ru_id \<circ> f = ru_id" using assms(2) by (simp add: fun_eq_iff)
  then have "ids (m\<lparr>mg_runs := map f (mg_runs m)\<rparr>) = ids m" by (simp add: ids_def)
  then have "books_ok (m\<lparr>mg_runs := map f (mg_runs m)\<rparr>)" using assms(1) by (simp add: manager_ok_def books_ok_def)
  moreover have "List.map_filter ru_watch (map f rs) = List.map_filter ru_watch rs" for rs
    using assms(3) by (induction rs) (simp_all add: map_filter_simps split: option.splits)
  then have "clock_owned (m\<lparr>mg_runs := map f (mg_runs m)\<rparr>)" using assms(1) by (simp add: manager_ok_def clock_owned_def)
  moreover have "list_all (\<lambda>r. phase_ok (ru_phase r)) (map f (mg_runs m))"
    using assms(1,4) by (auto simp: manager_ok_def list_all_iff)
  ultimately show ?thesis by (simp add: manager_ok_def)
qed

lemma with_run_ok:
  assumes "manager_ok m" and "\<And>r. ru_id (f r) = ru_id r" and "\<And>r. ru_watch (f r) = ru_watch r"
    and "\<And>r. phase_ok (ru_phase r) \<Longrightarrow> phase_ok (ru_phase (f r))"
  shows "manager_ok (with_run k f m)"
  unfolding with_run_def by (rule map_runs_ok [OF assms(1)]) (simp_all add: assms(2-4))

lemma filter_id_split:
  assumes "distinct (map ru_id (xs @ r # ys))"
  shows "filter (\<lambda>x. ru_id x \<noteq> ru_id r) (xs @ r # ys) = xs @ ys"
proof -
  have "ru_id r \<notin> ru_id ` set xs" "ru_id r \<notin> ru_id ` set ys" using assms by auto
  then have "filter (\<lambda>x. ru_id x \<noteq> ru_id r) xs = xs" "filter (\<lambda>x. ru_id x \<noteq> ru_id r) ys = ys"
    by (auto simp: filter_id_conv image_iff)
  then show ?thesis by simp
qed

lemma end_run_ok:
  assumes "manager_ok m" and "r \<in> set (mg_runs m)"
  shows "manager_ok (end_run r out m)"
proof -
  obtain xs ys where runs: "mg_runs m = xs @ r # ys" using assms(2) by (meson split_list)
  have dist: "distinct (map ru_id (xs @ r # ys))"
  proof -
    have "distinct (map ru_id (mg_runs m) @ map fst (mg_outcomes m))" using assms(1) by (simp only: manager_ok_def books_ok_def ids_def)
    then show ?thesis unfolding runs by (rule distinct_append [THEN iffD1, THEN conjunct1])
  qed
  define m' where "m' = end_run r out m"
  have m': "mg_runs m' = xs @ ys" "mg_next m' = mg_next m" "mg_outcomes m' = mg_outcomes m @ [(ru_id r, out)]"
    "mg_events m' = mg_events m @ outcome_event (ru_id r) (ru_name r) out"
    "mg_clock m' = (case ru_watch r of None \<Rightarrow> mg_clock m | Some w \<Rightarrow> end_watch w (mg_clock m))"
    using filter_id_split [OF dist] by (simp_all add: m'_def end_run_def runs)
  have "books_ok m'"
  proof -
    have "distinct (map ru_id (xs @ r # ys) @ map fst (mg_outcomes m))" using assms(1) by (simp only: manager_ok_def books_ok_def ids_def runs)
    then have "distinct (map ru_id (xs @ ys) @ map fst (mg_outcomes m @ [(ru_id r, out)]))" by auto
    moreover have "set (map ru_id (xs @ ys) @ map fst (mg_outcomes m @ [(ru_id r, out)])) =
        set (map ru_id (xs @ r # ys) @ map fst (mg_outcomes m))" by auto
    ultimately show ?thesis using assms(1) unfolding manager_ok_def books_ok_def ids_def m' runs by simp
  qed
  moreover have "clock_owned m'"
  proof (cases "ru_watch r")
    case None
    then show ?thesis
      using assms(1) unfolding manager_ok_def clock_owned_def m' runs by (simp add: map_filter_append map_filter_simps)
  next
    case (Some w)
    then have w: "sr_clock (mg_clock m) = Some w" "List.map_filter ru_watch (xs @ ys) = []"
      using assms(1) unfolding manager_ok_def clock_owned_def runs
      by (auto simp: map_filter_append map_filter_simps append_eq_Cons_conv split: option.splits)
    have ok: "clock_ok (mg_clock m)" using assms(1) by (simp add: manager_ok_def clock_owned_def)
    then have "w < length (sr_states (mg_clock m))" using w(1) by (simp add: clock_ok_def timers_ok_def)
    then have "clock_ok (end_watch w (mg_clock m))" using end_watch_ok ok by blast
    moreover have "sr_clock (end_watch w (mg_clock m)) = None"
      using w(1) halt_current [of "mg_clock m" w] ok by (simp add: end_watch_def clock_ok_def Let_def)
    ultimately show ?thesis using w(2) Some unfolding clock_owned_def m' by simp
  qed
  moreover have "list_all (\<lambda>r. phase_ok (ru_phase r)) (mg_runs m')"
    using assms(1) unfolding manager_ok_def m' runs by simp
  ultimately show ?thesis by (simp add: manager_ok_def m'_def)
qed

lemma go_on_ok:
  assumes "manager_ok m" and "r \<in> set (mg_runs m)"
    and "\<And>c pa po. rd = Call c pa po \<Longrightarrow> cm_handle c \<noteq> None \<and> input_ok c pa po"
  shows "manager_ok (go_on r rd m)"
  using assms by (cases rd) (simp_all add: end_run_ok with_run_ok)

section \<open>Every step keeps it\<close>

lemma clock_note_current [simp]:
  "sr_clock (arm c s) = sr_clock s" "sr_clock (noteOutput s) = sr_clock s" "sr_clock (noteQuestion s) = sr_clock s"
  "sr_clock (noteAnswer s) = sr_clock s" "sr_clock (time_out t s) = sr_clock s" "sr_clock (halt c s) = sr_clock s"
proof -
  show h: "sr_clock (halt c s) = sr_clock s" for c s by (simp add: halt_def split: clock_state.splits)
  show a: "sr_clock (arm c s) = sr_clock s" for c s by (simp add: arm_def Let_def h)
  show "sr_clock (noteOutput s) = sr_clock s" by (simp add: noteOutput_def a split: option.splits)
  show "sr_clock (noteQuestion s) = sr_clock s" by (simp add: noteQuestion_def Let_def h split: option.splits)
  show "sr_clock (noteAnswer s) = sr_clock s" by (simp add: noteAnswer_def a split: option.splits)
  show "sr_clock (time_out t s) = sr_clock s" by (simp add: time_out_def split: option.splits)
qed

lemma watch_current: "sr_clock (snd (watchSlowRun s)) = Some (fst (watchSlowRun s))"
  by (simp add: watchSlowRun_def Let_def)

lemma clock_set_ok:
  assumes "manager_ok m" and "clock_ok c" and "sr_clock c = sr_clock (mg_clock m)"
  shows "manager_ok (m\<lparr>mg_clock := c\<rparr>)"
  using assms by (simp add: manager_ok_def books_ok_def clock_owned_def ids_def)

lemma start_run_ok:
  assumes "manager_ok m"
  shows "manager_ok (start_run topCmd tokens m)"
proof -
  define wc where "wc = (if mg_runs m = [] then (case watchSlowRun (mg_clock m) of (w, c) \<Rightarrow> (Some w, c)) else (None, mg_clock m))"
  define r where "r = \<lparr>ru_id = mg_next m, ru_name = cm_name topCmd, ru_tokens = tokens,
      ru_stoppability = (if cm_stoppable topCmd then Stoppable else Never), ru_aborted = False,
      ru_watch = fst wc, ru_phase = Checking topCmd 0 0\<rparr>"
  define m' where "m' = m\<lparr>mg_runs := mg_runs m @ [r], mg_next := Suc (mg_next m),
      mg_events := mg_events m @ [DidStart (mg_next m) (cm_name topCmd) (join_blank tokens)], mg_clock := snd wc\<rparr>"
  have wc: "wc = (if mg_runs m = [] then (Some (fst (watchSlowRun (mg_clock m))), snd (watchSlowRun (mg_clock m)))
      else (None, mg_clock m))"
    by (simp add: wc_def split: prod.splits)
  have "books_ok m'"
    using assms by (auto simp: manager_ok_def books_ok_def ids_def m'_def r_def)
  moreover have "clock_owned m'"
  proof (cases "mg_runs m = []")
    case True
    then show ?thesis
      using assms Slow_Run.watch_ok [of "mg_clock m"] watch_current [of "mg_clock m"]
      by (simp add: clock_owned_def manager_ok_def m'_def wc r_def map_filter_simps)
  next
    case False
    then show ?thesis using assms by (simp add: clock_owned_def manager_ok_def m'_def wc r_def map_filter_append map_filter_simps)
  qed
  moreover have "list_all (\<lambda>r. phase_ok (ru_phase r)) (mg_runs m')"
    using assms by (simp add: manager_ok_def m'_def r_def)
  ultimately have "manager_ok m'" by (simp add: manager_ok_def)
  then have "manager_ok (go_on r (walk tokens topCmd 0 False) m')"
    by (rule go_on_ok) (simp add: m'_def, rule walk_call)
  then show ?thesis by (simp add: start_run_def Let_def case_prod_beta r_def m'_def wc_def)
qed

lemma run_of_mem: "run_of k m = Some r \<Longrightarrow> r \<in> set (mg_runs m) \<and> ru_id r = k"
  by (auto simp: run_of_def find_Some_iff)

lemma check_done_ok: "manager_ok m \<Longrightarrow> manager_ok (check_done k thrown m)"
  by (auto simp: check_done_def dest: run_of_mem intro!: end_run_ok with_run_ok go_on_ok walk_call
      split: option.splits phase.splits)

lemma handler_done_ok: "manager_ok m \<Longrightarrow> manager_ok (handler_done k res m)"
  by (auto simp: handler_done_def dest: run_of_mem intro!: end_run_ok split: option.splits phase.splits)

lemma lockStop_ok: "manager_ok m \<Longrightarrow> manager_ok (lockStop k m)"
  by (auto simp: lockStop_def intro!: with_run_ok)

lemma execute_ok: "manager_ok m \<Longrightarrow> manager_ok (snd (execute cmds onLine tokens m))"
proof -
  assume ok: "manager_ok m"
  have "manager_ok (m\<lparr>mg_history := h\<rparr>)" for h
    using ok by (simp add: manager_ok_def books_ok_def clock_owned_def ids_def)
  then have "manager_ok (unknown_command_answered cmds name m)" for name
    using ok by (simp add: unknown_command_answered_def split: unknown_command.splits)
  then show ?thesis using ok start_run_ok
    by (auto simp: execute_def Let_def split: list.splits option.splits)
qed

lemma stop_ok: "manager_ok m \<Longrightarrow> manager_ok (snd (stop m))"
proof -
  assume ok: "manager_ok m"
  then have "manager_ok (m\<lparr>mg_lines := ls\<rparr>)" for ls by (simp add: manager_ok_def books_ok_def clock_owned_def ids_def)
  moreover from this have
    "manager_ok (m\<lparr>mg_lines := ls, mg_runs := map (\<lambda>r. if stops r then r\<lparr>ru_aborted := True\<rparr> else r) (mg_runs m)\<rparr>)" for ls
    using map_runs_ok [of "m\<lparr>mg_lines := ls\<rparr>" "\<lambda>r. if stops r then r\<lparr>ru_aborted := True\<rparr> else r"] by simp
  ultimately show ?thesis using ok by (simp add: stop_def)
qed

interpretation manager: machine no_commands_run "manager_step cmds" manager_ok for cmds
proof
  show "manager_ok no_commands_run"
    using clocks.inv_init by (simp add: manager_ok_def books_ok_def clock_owned_def ids_def no_commands_run_def map_filter_simps no_run_def)
  show "manager_ok (manager_step cmds m e)" if "manager_ok m" for m e
  proof -
    have ok: "clock_ok (mg_clock m)" using that by (simp add: manager_ok_def clock_owned_def)
    show ?thesis
      using that ok execute_ok check_done_ok handler_done_ok lockStop_ok stop_ok clocks.inv_step [OF ok, of "Elapse _"]
      by (cases e) (auto intro!: clock_set_ok simp: noteOutput_ok noteQuestion_ok noteAnswer_ok time_out_ok)
  qed
qed

section \<open>What holds in every interleaving\<close>

text \<open>
  C16: a run that started settles once and is announced once. In every interleaving of executions, checks, handlers, locks,
  stops and time passing: the start events are those of the runs in order, one each; the runs that started are
  those in flight and those whose promise has settled, none of them twice or in both; and the finish events are, in
  order, the results of the settled ones, exactly those that threw or came to a value (help and usage finish nothing).
\<close>

theorem runs_start_and_finish_once:
  fixes cmds :: "('p, 'c, 'h) command list" and es :: "('e, 'r) manager_event list"
  defines "m \<equiv> foldl (manager_step cmds) no_commands_run es"
  shows "starts_of (mg_events m) = [0..<mg_next m] \<and>
    distinct (map ru_id (mg_runs m) @ map fst (mg_outcomes m)) \<and>
    set (map ru_id (mg_runs m) @ map fst (mg_outcomes m)) = {..<mg_next m} \<and>
    finishes_of (mg_events m) = results_of (mg_outcomes m)"
proof -
  have "manager_ok m" unfolding m_def by (rule manager.inv_run)
  then show ?thesis unfolding manager_ok_def books_ok_def ids_def by blast
qed

text \<open>
  C12: a handler runs only on input of the shape its command declares. In every interleaving, a run in its handler has a command
  with a handler, a value for each argument that is not optional, and values of declared arguments and options only: several exactly
  for an argument that takes several, parsed exactly where there is a parser, a value exactly for an option that takes
  one, and no single value is empty. A value that is not parsed is in the fixed list of allowed values, where the declaration has one;
  of several values of one argument that is so only for those before the first empty one, as the code stops comparing there.
  Nothing is said of values allowed by a computed list, nor of what a parser returns.
\<close>

theorem handlers_get_declared_input:
  fixes cmds :: "('p, 'c, 'h) command list" and es :: "('e, 'r) manager_event list"
  assumes "r \<in> set (mg_runs (foldl (manager_step cmds) no_commands_run es))"
    and "ru_phase r = Handling cmd args opts"
  shows "cm_handle cmd \<noteq> None \<and> input_ok cmd args opts"
  using manager.inv_run [of cmds es] assms by (auto simp: manager_ok_def list_all_iff)

text \<open>The clock for slow runs is the one of a run in flight, of at most one, and each clock prints at most once.\<close>

theorem slow_clock_is_of_a_run:
  fixes cmds :: "('p, 'c, 'h) command list" and es :: "('e, 'r) manager_event list"
  defines "m \<equiv> foldl (manager_step cmds) no_commands_run es"
  shows "List.map_filter ru_watch (mg_runs m) = (case sr_clock (mg_clock m) of None \<Rightarrow> [] | Some c \<Rightarrow> [c]) \<and>
    distinct (sr_printed (mg_clock m))"
proof -
  have "manager_ok m" unfolding m_def by (rule manager.inv_run)
  then show ?thesis unfolding manager_ok_def clock_owned_def clock_ok_def clocks_ok_def by blast
qed

text \<open>
  A stop aborts exactly the runs that can be stopped now, and reports whether a run is stopping afterwards. It prints
  a line unless nothing runs or a stop is already under way with nothing new to stop.
\<close>

theorem stop_aborts_what_can_stop:
  fixes m :: "('p, 'c, 'h, 'r, 'e) manager"
  shows "let (stopping, m') = stop m
   in mg_runs m' = map (\<lambda>r. if stops r then r\<lparr>ru_aborted := True\<rparr> else r) (mg_runs m) \<and>
      stopping = list_ex ru_aborted (mg_runs m') \<and>
      length (mg_lines m') = length (mg_lines m) +
        (if mg_runs m = [] \<or> \<not> list_ex stops (mg_runs m) \<and> list_ex ru_aborted (mg_runs m) then 0 else 1)"
proof -
  have same: "map (\<lambda>r. if stops r then r\<lparr>ru_aborted := True\<rparr> else r) rs = rs" if "\<not> list_ex stops rs"
    for rs :: "('p, 'c, 'h) run list"
    using that by (induction rs) auto
  have "list_ex ru_aborted (map (\<lambda>r. if stops r then r\<lparr>ru_aborted := True\<rparr> else r) rs)" if "list_ex stops rs"
    for rs :: "('p, 'c, 'h) run list"
    using that by (induction rs) auto
  then show ?thesis using same [of "mg_runs m"] by (auto simp: stop_def Let_def)
qed

section \<open>Help that is not given\<close>

text \<open>
  A command with a handler and nothing but the help option runs when it is asked for its help: no text is printed, the
  handler is called, and a command that needs a connection starts without one.
\<close>

lemma bare_command_runs_for_help:
  fixes cmd :: "('p, 'c, 'h) command" and m :: "('p, 'c, 'h, 'r, 'e) manager"
  assumes "find (\<lambda>c. cm_name c = cm_name cmd) cmds = Some cmd" and "cm_name cmd \<noteq> []"
    and "cm_args cmd = None" and "cm_options cmd = addHelpOption None" and "cm_subcommands cmd = None"
    and "cm_preChecks cmd = []" and "cm_handle cmd = Some h" and "h' \<in> {''--help'', ''-h''}"
  shows "\<exists>m'. execute cmds onLine [cm_name cmd, h'] m = (Begun (mg_next m), m') \<and>
    list_ex (\<lambda>r. ru_id r = mg_next m \<and> ru_phase r = Handling cmd [] []) (mg_runs m') \<and>
    length (mg_lines m') = length (mg_lines m)"
proof -
  have sub: "find_sub cmd t = None" for t using assms(5) by (simp add: find_sub_def)
  have line: "read_line cmd [cm_name cmd, h'] 0 = (Call cmd [] [] :: ('p, 'c, 'h, 'e) reading)"
    using assms by (simp add: read_line_def has_args_or_opts_def addHelpOption_def parse_line_def parse_opt_def Let_def)
  have walk: "walk [cm_name cmd, h'] cmd 0 False = (Call cmd [] [] :: ('p, 'c, 'h, 'e) reading)"
    using assms line by (subst walk.simps) (simp add: sub)
  have "execute cmds onLine [cm_name cmd, h'] m = (Begun (mg_next m), start_run cmd [cm_name cmd, h'] m)"
    using assms by (auto simp: execute_def Let_def)
  moreover have "list_ex (\<lambda>r. ru_id r = mg_next m \<and> ru_phase r = Handling cmd [] []) (mg_runs (start_run cmd [cm_name cmd, h'] m))"
    "mg_lines (start_run cmd [cm_name cmd, h'] m) = mg_lines m"
    by (simp_all add: start_run_def walk Let_def case_prod_beta with_run_def)
  ultimately show ?thesis by simp
qed

section \<open>An example\<close>

definition example_build :: "(string, unit, nat) command" where
  "example_build = createCmd (Command ''build'' [] True True None None (Some 1) None)"

definition example_connect :: "(string, unit, nat) command" where
  "example_connect = createCmd (Command ''connect'' [()] False False
     (Some [\<lparr>ar_name = ''protocol'', ar_optional = False, ar_multiple = False, ar_values = Some (Listed [''devnet'', ''mainnet'']), ar_parse = None\<rparr>])
     None (Some 2) None)"

lemma bare_command_runs_for_help_example:
  "\<exists>m'. execute [example_build, example_connect] False [''build'', ''--help'']
      (no_commands_run :: (string, unit, nat, unit, string) manager) = (Begun 0, m') \<and>
    list_ex (\<lambda>r. ru_id r = 0 \<and> ru_phase r = Handling example_build [] []) (mg_runs m') \<and> length (mg_lines m') = 0"
  using bare_command_runs_for_help [of example_build "[example_build, example_connect]" 1 "''--help''" False
      "no_commands_run :: (string, unit, nat, unit, string) manager"]
  by (simp add: example_build_def createCmd_def no_commands_run_def)

definition handling :: "string \<Rightarrow> string arg_value js_obj \<Rightarrow> (string, unit, nat) run \<Rightarrow> bool" where
  "handling name given r =
     (case ru_phase r of Checking cmd i n \<Rightarrow> False | Handling cmd args opts \<Rightarrow> cm_name cmd = name \<and> args = given \<and> opts = [])"

theorem handlers_get_declared_input_witness:
  "\<exists>cmd :: (string, unit, nat) command. cm_name cmd = ''connect'' \<and> cm_handle cmd \<noteq> None \<and>
     input_ok cmd [(''protocol'', One (Raw ''devnet''))] []"
proof -
  let ?m = "foldl (manager_step [example_build, example_connect])
    (no_commands_run :: (string, unit, nat, unit, string) manager) [Execute True [''connect'', ''devnet''], CheckDone 0 None]"
  have "list_ex (handling ''connect'' [(''protocol'', One (Raw ''devnet''))]) (mg_runs ?m)"
    by code_simp
  then obtain r where r: "r \<in> set (mg_runs ?m)" "handling ''connect'' [(''protocol'', One (Raw ''devnet''))] r"
    by (auto simp: list_ex_iff)
  then obtain cmd where "ru_phase r = Handling cmd [(''protocol'', One (Raw ''devnet''))] []" "cm_name cmd = ''connect''"
    by (auto simp: handling_def split: phase.splits)
  then show ?thesis using handlers_get_declared_input [OF r(1)] by blast
qed

end
