(* ===== verification/Terminal_Correct.thy ===== *)
theory Terminal_Correct
  imports Terminal
begin

text \<open>
  Reading back a printed line of tokens, and the history as the latest lines without repetition.
\<close>

section \<open>Tokens are read back\<close>

definition within :: "string option list \<Rightarrow> string \<Rightarrow> bool \<Rightarrow> tokenizer" where
  "within ts w q = \<lparr>tk_tokens = ts @ [Some w], tk_index = length ts, tk_quoted = q\<rparr>"

definition unquoted :: "string \<Rightarrow> bool" where
  "unquoted w \<longleftrightarrow> QUOTE \<notin> set w \<and> APOSTROPHE \<notin> set w"

lemma unquoted_simps [simp]:
  "unquoted []" "unquoted (c # w) \<longleftrightarrow> c \<noteq> QUOTE \<and> c \<noteq> APOSTROPHE \<and> unquoted w"
  by (auto simp: unquoted_def)

lemma add_char_within [simp]: "add_char c (within ts w q) = within ts (w @ [c]) q"
  by (simp add: add_char_def within_def arr_put_def arr_text_def)

lemma parse_char_within [simp]:
  "parse_char (within ts w False) BLANK = within (ts @ [Some w]) [] False"
  "parse_char (within ts w True) BLANK = within ts (w @ [BLANK]) True"
  "parse_char (within ts w q) QUOTE = within ts w (\<not> q)"
  "c \<noteq> QUOTE \<Longrightarrow> c \<noteq> APOSTROPHE \<Longrightarrow> c \<noteq> BLANK \<Longrightarrow> parse_char (within ts w q) c = within ts (w @ [c]) q"
     apply (simp_all add: parse_char_def)
   apply (simp_all add: within_def arr_put_def arr_text_def Let_def)
  done

lemma parse_char_start:
  "parse_char tokenizer_start QUOTE = within [] [] True"
  "c \<noteq> QUOTE \<Longrightarrow> c \<noteq> APOSTROPHE \<Longrightarrow> c \<noteq> BLANK \<Longrightarrow> parse_char tokenizer_start c = within [] [c] False"
  by (simp_all add: parse_char_def tokenizer_start_def within_def arr_put_def arr_text_def Let_def add_char_def)

lemma parse_quoted_text: "unquoted cs \<Longrightarrow> foldl parse_char (within ts w True) cs = within ts (w @ cs) True"
proof (induction cs arbitrary: w)
  case (Cons c cs)
  then show ?case by (cases "c = BLANK") simp_all
qed simp

lemma parse_plain_text:
  "unquoted cs \<Longrightarrow> BLANK \<notin> set cs \<Longrightarrow> foldl parse_char (within ts w False) cs = within ts (w @ cs) False"
  by (induction cs arbitrary: w) auto

lemma js_includes_char: "js_includes [c] w \<longleftrightarrow> c \<in> set w"
  by (induction w) auto

lemma parse_quote_token:
  assumes "unquoted t"
  shows "foldl parse_char (within ts [] False) (quote_token t) = within ts t False"
  using assms by (simp add: quote_token_def js_includes_char parse_quoted_text parse_plain_text)

lemma parse_first_token:
  assumes "unquoted t" and "t \<noteq> []"
  shows "foldl parse_char tokenizer_start (quote_token t) = within [] t False"
proof (cases "BLANK \<in> set t")
  case True
  then show ?thesis
    using assms by (simp add: quote_token_def js_includes_char parse_char_start parse_quoted_text)
next
  case False
  then show ?thesis
    using assms by (cases t) (auto simp: quote_token_def js_includes_char parse_char_start parse_plain_text)
qed

lemma parse_more_tokens:
  assumes "list_all unquoted (u # us)"
  shows "foldl parse_char (within ts w False) (BLANK # join_blank (map quote_token (u # us))) =
    within (ts @ Some w # map Some (butlast (u # us))) (last (u # us)) False"
  using assms
proof (induction us arbitrary: u ts w)
  case (Cons v us)
  have "foldl parse_char (within ts w False) (BLANK # join_blank (map quote_token (u # v # us))) =
      foldl parse_char (within (ts @ [Some w]) u False) (BLANK # join_blank (map quote_token (v # us)))"
    using Cons.prems by (simp add: parse_quote_token)
  also have "\<dots> = within ((ts @ [Some w]) @ Some u # map Some (butlast (v # us))) (last (v # us)) False"
    by (rule Cons.IH) (use Cons.prems in simp)
  finally show ?case by simp
qed (simp add: parse_quote_token)

text \<open>
  A line made of tokens, those with a blank in quotes, is cut into exactly these tokens again, empty ones included,
  whenever no token holds a quotation mark and the first is not empty.
\<close>

lemma parse_tokens_back:
  assumes "list_all unquoted (t # ts)" and "t \<noteq> []"
  shows "parse (join_blank (map quote_token (t # ts))) = map Some (t # ts)"
proof (cases ts)
  case Nil
  then show ?thesis using assms by (simp add: parse_def parse_first_token) (simp add: within_def)
next
  case (Cons u us)
  then have "foldl parse_char tokenizer_start (join_blank (map quote_token (t # ts))) =
      foldl parse_char (within [] t False) (BLANK # join_blank (map quote_token (u # us)))"
    using assms by (simp add: parse_first_token)
  also have "\<dots> = within (Some t # map Some (butlast (u # us))) (last (u # us)) False"
    using parse_more_tokens [of u us "[]" t] assms Cons by simp
  finally have "parse (join_blank (map quote_token (t # ts))) = Some t # map Some (butlast (u # us)) @ [Some (last (u # us))]"
    by (simp add: parse_def within_def)
  also have "map Some (butlast (u # us)) @ [Some (last (u # us))] = map Some (u # us)"
    by (metis append_butlast_last_id list.distinct(1) list.simps(8,9) map_append)
  finally show ?thesis using Cons by simp
qed

section \<open>History\<close>

definition lastn :: "nat \<Rightarrow> 'a list \<Rightarrow> 'a list" where
  "lastn n xs = drop (length xs - n) xs"

lemma lastn_split:
  obtains X where "xs = X @ lastn n xs" and "X = [] \<or> length (lastn n xs) = n"
proof
  show "xs = take (length xs - n) xs @ lastn n xs" by (simp add: lastn_def)
  show "take (length xs - n) xs = [] \<or> length (lastn n xs) = n" by (auto simp: lastn_def)
qed

lemma takeWhile_unique: "x \<notin> set xs \<Longrightarrow> takeWhile (\<lambda>y. y \<noteq> x) (xs @ x # ys) = xs"
  by (induction xs) auto

lemma without_entry_then_pushed:
  assumes "distinct es"
  shows "(let es' = without_entry e es in if es' = [] \<or> last es' \<noteq> e then es' @ [e] else es') = removeAll e es @ [e]"
proof (cases "e \<in> set es")
  case True
  then obtain xs ys where es: "es = xs @ e # ys" "e \<notin> set xs" by (metis split_list_first)
  then have "e \<notin> set ys" using assms by auto
  moreover have "last ys \<noteq> e" if "ys \<noteq> []" using that \<open>e \<notin> set ys\<close> last_in_set by metis
  ultimately show ?thesis using es by (cases "ys = []") (auto simp: without_entry_def entry_index_def takeWhile_unique last_append Let_def)
next
  case False
  then have "es \<noteq> [] \<Longrightarrow> last es \<noteq> e" using last_in_set by metis
  then show ?thesis using False by (auto simp: without_entry_def entry_index_def)
qed

definition worth_keeping :: "string \<Rightarrow> bool" where
  "worth_keeping e \<longleftrightarrow> e \<noteq> [] \<and> e \<noteq> ''!!''"

lemma push_entries:
  assumes "worth_keeping e" and "distinct (hi_entries h)" and "length (hi_entries h) \<le> hi_size h"
  shows "hi_entries (push e h) = lastn (hi_size h) (removeAll e (hi_entries h) @ [e])"
    and "hi_cursor (push e h) = length (hi_entries (push e h))"
proof -
  define es where "es = removeAll e (hi_entries h) @ [e]"
  have "hi_entries (push e h) = (if length es > hi_size h then drop 1 es else es)"
    using assms(1) without_entry_then_pushed [OF assms(2), of e]
    by (simp add: push_def worth_keeping_def Let_def flip: es_def)
  moreover have "length es \<le> Suc (hi_size h)"
    using le_trans [OF length_removeAll_less_eq assms(3)] by (simp add: es_def)
  ultimately show "hi_entries (push e h) = lastn (hi_size h) (removeAll e (hi_entries h) @ [e])"
    unfolding es_def [symmetric] lastn_def by (cases "length es = Suc (hi_size h)") simp_all
  show "hi_cursor (push e h) = length (hi_entries (push e h))"
    using assms(1) by (simp add: push_def worth_keeping_def Let_def)
qed

datatype history_call = PushLine string | Previous | Next

fun history_step :: "history \<Rightarrow> history_call \<Rightarrow> history" where
  "history_step h (PushLine e) = push e h"
| "history_step h Previous = snd (getPrevious h)"
| "history_step h Next = snd (getNext h)"

fun pushed_lines :: "history_call list \<Rightarrow> string list" where
  "pushed_lines [] = []"
| "pushed_lines (PushLine e # cs) = (if worth_keeping e then [e] else []) @ pushed_lines cs"
| "pushed_lines (c # cs) = pushed_lines cs"

lemma pushed_lines_append [simp]: "pushed_lines (cs @ ds) = pushed_lines cs @ pushed_lines ds"
  by (induction cs rule: pushed_lines.induct) simp_all

lemma remdups_snoc: "remdups (xs @ [x]) = removeAll x (remdups xs) @ [x]"
  by (induction xs) auto

lemma lastn_repush:
  assumes "distinct xs"
  shows "lastn n (removeAll x (lastn n xs) @ [x]) = lastn n (removeAll x xs @ [x])"
proof -
  obtain X where X: "xs = X @ lastn n xs" "X = [] \<or> length (lastn n xs) = n" by (rule lastn_split)
  show ?thesis
  proof (cases "X = []")
    case False
    then have n: "length (lastn n xs) = n" using X(2) by simp
    have "n \<le> Suc (length (removeAll x (lastn n xs)))"
    proof -
      have "distinct (lastn n xs)" using assms by (simp add: lastn_def)
      then have "n - 1 \<le> length (removeAll x (lastn n xs))"
        using n by (simp add: distinct_remove1_removeAll [symmetric] length_remove1)
      then show ?thesis by simp
    qed
    moreover have "removeAll x xs = removeAll x X @ removeAll x (lastn n xs)" by (subst X(1)) simp
    ultimately show ?thesis by (simp add: lastn_def)
  qed (use X in simp)
qed

lemma history_step_size [simp]: "hi_size (history_step h c) = hi_size h"
  by (cases c) (simp_all add: push_def getPrevious_def getNext_def Let_def)

text \<open>
  Whatever is entered and however the arrow keys are used, the history holds the latest lines, as many as its size,
  each once, at the place of its last entry and without empty lines and \<^verbatim>\<open>!!\<close>; the cursor is at one of them or right
  after the last.
\<close>

lemma history_is_latest_lines:
  "hi_entries (foldl history_step (new_history n) cs) = lastn n (remdups (pushed_lines cs)) \<and>
   hi_cursor (foldl history_step (new_history n) cs) \<le> length (lastn n (remdups (pushed_lines cs)))"
proof (induction cs rule: rev_induct)
  case Nil
  then show ?case by (simp add: new_history_def lastn_def)
next
  case (snoc c cs)
  define h where "h = foldl history_step (new_history n) cs"
  have "hi_size (foldl history_step k cs) = hi_size k" for k by (induction cs arbitrary: k) simp_all
  then have sz: "hi_size h = n" by (simp add: h_def new_history_def)
  have h: "hi_entries h = lastn n (remdups (pushed_lines cs))" "hi_cursor h \<le> length (hi_entries h)"
    using snoc.IH by (simp_all add: h_def)
  then have d: "distinct (hi_entries h)" "length (hi_entries h) \<le> hi_size h"
    by (auto simp: lastn_def sz)
  show ?case
  proof (cases c)
    case (PushLine e)
    show ?thesis
    proof (cases "worth_keeping e")
      case True
      then show ?thesis
        using push_entries [OF True d] PushLine h lastn_repush [of "remdups (pushed_lines cs)" n e]
        by (simp add: remdups_snoc sz flip: h_def)
    next
      case False
      then have "push e h = h" by (auto simp: push_def worth_keeping_def)
      then show ?thesis using False PushLine h by (simp flip: h_def)
    qed
  qed (use h in \<open>auto simp: getPrevious_def getNext_def Let_def simp flip: h_def\<close>)
qed

section \<open>Word boundaries\<close>

text \<open>Jumping by words never leaves the line: to the left strictly before the cursor or to the start, to the right after it or to the end.\<close>

lemma word_matches_unfold:
  fixes pos s
  defines "t \<equiv> dropWhile (\<lambda>c. \<not> word_char c) s"
  defines "w \<equiv> length (takeWhile word_char t)"
  shows "word_matches pos s =
    (if t = [] then [] else (pos + (length s - length t), w) # word_matches (pos + (length s - length t) + w) (drop w t))"
  unfolding t_def w_def by (subst word_matches.simps) (simp only: Let_def)

lemma word_matches_bounds:
  "(i, w) \<in> set (word_matches pos s) \<Longrightarrow> i + w \<le> pos + length s"
proof (induction "length s" arbitrary: pos s rule: less_induct)
  case less
  define t where "t = dropWhile (\<lambda>c. \<not> word_char c) s"
  define k where "k = length (takeWhile word_char t)"
  define start where "start = pos + (length s - length t)"
  have le: "length t \<le> length s" "k \<le> length t"
    by (simp_all add: t_def k_def length_dropWhile_le length_takeWhile_le)
  have ms: "word_matches pos s = (if t = [] then [] else (start, k) # word_matches (start + k) (drop k t))"
    unfolding start_def k_def t_def by (rule word_matches_unfold)
  have pos: "0 < k" if "t \<noteq> []"
    using that hd_dropWhile [of "\<lambda>c. \<not> word_char c" s] unfolding k_def t_def [symmetric] by (cases t) simp_all
  from less.prems ms consider "i = start" "w = k" | "t \<noteq> []" "(i, w) \<in> set (word_matches (start + k) (drop k t))"
    by (auto split: if_splits)
  then show ?case
  proof cases
    case 1
    then show ?thesis using le by (simp add: start_def)
  next
    case 2
    then have "length (drop k t) < length s" using pos le by (cases t) auto
    then have "i + w \<le> start + k + length (drop k t)" by (rule less.hyps) (rule 2(2))
    then show ?thesis using le by (simp add: start_def)
  qed
qed

lemma closest_left_le: "closestLeftBoundary s k \<le> k"
  by (auto simp: closestLeftBoundary_def find_Some_iff split: option.splits)

lemma closest_right_le: "closestRightBoundary s k \<le> length s"
proof (cases "find (\<lambda>x. x > k) (getWordBoundaries s False)")
  case (Some x)
  then have "x \<in> set (getWordBoundaries s False)" by (auto simp: find_Some_iff)
  then show ?thesis
    using Some word_matches_bounds [of _ _ 0 s] by (fastforce simp: closestRightBoundary_def getWordBoundaries_def)
qed (simp add: closestRightBoundary_def)

end
