(* ===== verification/Shell.thy ===== *)
theory Shell
  imports Terminal
begin

text \<open>
  The line editor of the terminal: the prompt with its input and cursor and what is written to the screen
  (\<^verbatim>\<open>utils/terminal/tty.ts\<close>), the keys, pasted text, completion and the reading of a finished line
  (\<^verbatim>\<open>utils/terminal/shell.ts\<close>). The screen itself is a package: what is written to it is recorded, colouring left aside, and
  what is read from it and the candidates of the completion are arguments. What a key asks of the rest of the program is
  returned beside the new state.
\<close>

section \<open>The prompt\<close>

datatype tty_write = Shown string | Control string | Listing "string list"

record shell =
  sh_input :: string
  sh_cursor :: nat
  sh_promptPrefix :: string
  sh_continuationPrefix :: string
  sh_cols :: nat
  sh_firstInit :: bool
  sh_out :: "tty_write list"
  sh_history :: history
  sh_activePrompt :: bool
  sh_pending :: bool
  sh_waitingForInput :: bool
  sh_processCount :: nat

definition ESC :: char where
  "ESC = CHR 0x1B"

definition TAB :: char where
  "TAB = CHR 0x09"

text \<open>\<^verbatim>\<open>input.replace\<close> of every line feed by a line feed and the continuation prompt.\<close>

definition applyPrompts :: "shell \<Rightarrow> string \<Rightarrow> string" where
  "applyPrompts s input =
     sh_promptPrefix s @ concat (map (\<lambda>c. if c = LF then LF # sh_continuationPrefix s else [c]) input)"

definition applyPromptOffset :: "shell \<Rightarrow> string \<Rightarrow> nat \<Rightarrow> nat" where
  "applyPromptOffset s input offset = length (applyPrompts s (take offset input))"

definition walk_char :: "nat \<Rightarrow> char \<Rightarrow> nat \<times> nat \<Rightarrow> nat \<times> nat" where
  "walk_char maxCols c p =
     (case p of (row, col) \<Rightarrow>
        if c = LF then (row + 1, 0) else if col + 1 > maxCols then (row + 1, 0) else (row, col + 1))"

text \<open>Row and column of an offset; past the end \<^verbatim>\<open>charAt\<close> is empty and counts as a character.\<close>

definition offsetToColRow :: "string \<Rightarrow> nat \<Rightarrow> nat \<Rightarrow> nat \<times> nat" where
  "offsetToColRow input offset maxCols =
     fold (\<lambda>i. walk_char maxCols (if i < length input then input ! i else CHR 0x00)) [0..<offset] (0, 0)"

definition countLines :: "string \<Rightarrow> nat \<Rightarrow> nat" where
  "countLines input maxCols = fst (offsetToColRow input (length input) maxCols) + 1"

definition out :: "tty_write list \<Rightarrow> shell \<Rightarrow> shell" where
  "out ws s = s\<lparr>sh_out := sh_out s @ ws\<rparr>"

definition codes :: "nat \<Rightarrow> string \<Rightarrow> tty_write list" where
  "codes n c = replicate n (Control (ESC # c))"

definition clearInput :: "shell \<Rightarrow> shell" where
  "clearInput s =
     (let currentPrompt = applyPrompts s (sh_input s);
          allRows = countLines currentPrompt (sh_cols s);
          row = fst (offsetToColRow currentPrompt (applyPromptOffset s (sh_input s) (sh_cursor s)) (sh_cols s))
      in out (codes (allRows - row - 1) ''[E'' @ [Control ([CR, ESC] @ ''[K'')] @
              concat (replicate (allRows - 1) [Control ([ESC] @ ''[F''), Control ([ESC] @ ''[K'')])) s)"

definition setInput :: "string \<Rightarrow> bool \<Rightarrow> shell \<Rightarrow> shell" where
  "setInput newInput noClearInput s0 =
     (let s = (if noClearInput then s0 else clearInput s0);
          newPrompt = applyPrompts s newInput;
          cursor = (if sh_cursor s > length newInput then length newInput else sh_cursor s);
          newCursor = applyPromptOffset s newInput cursor;
          newLines = countLines newPrompt (sh_cols s);
          (row, col) = offsetToColRow newPrompt newCursor (sh_cols s)
      in out ([Shown newPrompt, Control [CR]] @ codes (newLines - row - 1) ''[F'' @ codes col ''[C'')
           (s\<lparr>sh_cursor := cursor, sh_input := newInput\<rparr>))"

definition writeCursorPosition :: "nat \<Rightarrow> shell \<Rightarrow> shell" where
  "writeCursorPosition newCursor s =
     (let shown = applyPrompts s (sh_input s);
          (prevRow, prevCol) = offsetToColRow shown (applyPromptOffset s (sh_input s) (sh_cursor s)) (sh_cols s);
          (newRow, newCol) = offsetToColRow shown (applyPromptOffset s (sh_input s) newCursor) (sh_cols s)
      in out ((if newRow > prevRow then codes (newRow - prevRow) ''[B'' else codes (prevRow - newRow) ''[A'') @
              (if newCol > prevCol then codes (newCol - prevCol) ''[C'' else codes (prevCol - newCol) ''[D''))
           (s\<lparr>sh_cursor := newCursor\<rparr>))"

definition setCursor :: "nat \<Rightarrow> shell \<Rightarrow> shell" where
  "setCursor newCursor s = writeCursorPosition (min newCursor (length (sh_input s))) s"

definition setCursorDirectly :: "nat \<Rightarrow> shell \<Rightarrow> shell" where
  "setCursorDirectly newCursor s = writeCursorPosition newCursor s"

definition read_prompt :: "string \<Rightarrow> string \<Rightarrow> shell \<Rightarrow> shell" where
  "read_prompt promptPrefix continuationPrefix s =
     (let s' = (if promptPrefix = [] then s else out [Shown promptPrefix] s)
      in s'\<lparr>sh_firstInit := True, sh_promptPrefix := promptPrefix, sh_continuationPrefix := continuationPrefix,
            sh_input := [], sh_cursor := 0\<rparr>)"

section \<open>Keys\<close>

definition handleCursorMove :: "int \<Rightarrow> shell \<Rightarrow> shell" where
  "handleCursorMove dir s =
     (if dir > 0 then setCursorDirectly (nat (int (sh_cursor s) + min dir (int (length (sh_input s)) - int (sh_cursor s)))) s
      else if dir < 0 then setCursorDirectly (nat (int (sh_cursor s) + max dir (- int (sh_cursor s)))) s
      else s)"

definition handleCursorInsert :: "string \<Rightarrow> shell \<Rightarrow> shell" where
  "handleCursorInsert data s =
     setInput (take (sh_cursor s) (sh_input s) @ data @ drop (sh_cursor s) (sh_input s)) False
       (setCursorDirectly (sh_cursor s + length data) s)"

definition handleCursorErase :: "bool \<Rightarrow> shell \<Rightarrow> shell" where
  "handleCursorErase backspace s =
     (if backspace then
        (if sh_cursor s \<le> 0 then s
         else setInput (take (sh_cursor s - 1) (sh_input s) @ drop (sh_cursor s) (sh_input s)) True
                (setCursorDirectly (sh_cursor s - 1) (clearInput s)))
      else setInput (take (sh_cursor s) (sh_input s) @ drop (sh_cursor s + 1) (sh_input s)) False s)"

definition show_entry :: "string \<Rightarrow> shell \<Rightarrow> shell" where
  "show_entry v s = setCursor (length v) (setInput v False s)"

definition previous_entry :: "shell \<Rightarrow> shell" where
  "previous_entry s =
     (case getPrevious (sh_history s) of (v, h) \<Rightarrow>
        (case v of
           None \<Rightarrow> s\<lparr>sh_history := h\<rparr>
         | Some t \<Rightarrow> if t = [] then s\<lparr>sh_history := h\<rparr> else show_entry t (s\<lparr>sh_history := h\<rparr>)))"

definition next_entry :: "shell \<Rightarrow> shell" where
  "next_entry s =
     (case getNext (sh_history s) of (v, h) \<Rightarrow>
        show_entry (case v of None \<Rightarrow> [] | Some t \<Rightarrow> t) (s\<lparr>sh_history := h\<rparr>))"

definition handle_escape :: "string \<Rightarrow> shell \<Rightarrow> shell" where
  "handle_escape sequence s =
     (if sequence = ''[A'' then previous_entry s
      else if sequence = ''[B'' then next_entry s
      else if sequence = ''[D'' then handleCursorMove (-1) s
      else if sequence = ''[C'' then handleCursorMove 1 s
      else if sequence = ''[3~'' then handleCursorErase False s
      else if sequence = ''[F'' then setCursor (length (sh_input s)) s
      else if sequence = ''[H'' then setCursor 0 s
      else if sequence = ''b'' then setCursor (closestLeftBoundary (sh_input s) (sh_cursor s)) s
      else if sequence = ''f'' then setCursor (closestRightBoundary (sh_input s) (sh_cursor s)) s
      else if sequence = [CHR 0x7F] then
        let offset = closestLeftBoundary (sh_input s) (sh_cursor s)
        in setCursor offset (setInput (take offset (sh_input s) @ drop (sh_cursor s) (sh_input s)) False s)
      else s)"

section \<open>Completion\<close>

definition is_blank :: "char \<Rightarrow> bool" where
  "is_blank c \<longleftrightarrow> c = BLANK \<or> c = TAB"

text \<open>Whether some line of the text ends in a blank or tab after a character that is no backslash.\<close>

fun ends_in_blank :: "string \<Rightarrow> bool" where
  "ends_in_blank (c # d # cs) =
     (c \<noteq> CHR 0x5C \<and> is_blank d \<and> (cs = [] \<or> hd cs = LF \<or> hd cs = CR) \<or> ends_in_blank (d # cs))"
| "ends_in_blank cs = False"

fun split_blank :: "string \<Rightarrow> string list" where
  "split_blank [] = [[]]"
| "split_blank (c # cs) =
     (if c = BLANK then [] # split_blank cs
      else case split_blank cs of l # ls \<Rightarrow> (c # l) # ls | [] \<Rightarrow> [[c]])"

text \<open>\<^verbatim>\<open>tokens.join(" ")\<close>, a hole being empty, with the last token replaced.\<close>

definition replace_last :: "string \<Rightarrow> string list \<Rightarrow> string list" where
  "replace_last t ts = (if ts = [] then [] else butlast ts @ [t])"

definition createNewInput :: "string \<Rightarrow> nat \<Rightarrow> string \<Rightarrow> string" where
  "createNewInput fragment count candidate =
     (let tokens = map (\<lambda>t. case t of None \<Rightarrow> [] | Some w \<Rightarrow> quote_token w) (parse fragment);
          first = (case last (split_blank fragment) of [] \<Rightarrow> None | c # cs \<Rightarrow> Some c);
          char = (if first = Some APOSTROPHE then APOSTROPHE else QUOTE);
          quotes = js_includes [BLANK] candidate;
          pre = (quotes \<or> first = Some char);
          suf = (quotes \<and> \<not> suffix [BLANK] candidate \<or> first = Some char \<and> count = 1);
          text = (if pre then [char] else []) @ candidate @ (if suf then [char] else [])
      in join_blank (replace_last text tokens))"

fun common_candidate :: "string \<Rightarrow> string list \<Rightarrow> nat \<Rightarrow> string" where
  "common_candidate [] cands i = []"
| "common_candidate (c # cs) cands i =
     (if list_all (\<lambda>d. i < length d \<and> d ! i = c) cands then c # common_candidate cs cands (Suc i) else [])"

text \<open>Completing the prompt, printing below it and showing it again; a printing that waits for a key is resumed by nobody.\<close>

definition print_above :: "tty_write list \<Rightarrow> bool \<Rightarrow> shell \<Rightarrow> shell" where
  "print_above ws waits s =
     (let s1 = out (Shown [CR, LF] # ws) (setCursor (length (sh_input s)) s)
      in if waits then s1 else setInput (sh_input s1) False (setCursor (sh_cursor s1) s1))"

definition complete :: "(string \<Rightarrow> string list) \<Rightarrow> shell \<Rightarrow> shell" where
  "complete getCandidates s =
     (let fragment = take (sh_cursor s) (sh_input s); candidates = getCandidates fragment
      in if candidates = [] then (if ends_in_blank fragment then s else handleCursorInsert [BLANK] s)
         else if length candidates = 1 then
           let newInput = createNewInput fragment 1 (hd candidates)
           in setCursor (length newInput) (setInput newInput False s)
         else if length candidates \<le> 100 then
           let newInput = createNewInput fragment (length candidates) (common_candidate (hd candidates) candidates 0)
           in if fragment = newInput then print_above [Listing candidates] False s
              else setCursor (length newInput) (setInput newInput False s)
         else print_above [Shown (''Display all '' @ js_nat (length candidates) @ '' possibilities? (y or n)'')] True s)"

section \<open>A finished line\<close>

datatype shell_effect = RunTokens "string list" | AnswerInput string | StopRun

text \<open>The tokens with every \<^verbatim>\<open>!!\<close> replaced by those of the previous entry; \<^verbatim>\<open>flatMap\<close> leaves holes out.\<close>

fun expand_tokens :: "string option list \<Rightarrow> history \<Rightarrow> string list \<times> history" where
  "expand_tokens [] h = ([], h)"
| "expand_tokens (None # ts) h = expand_tokens ts h"
| "expand_tokens (Some t # ts) h =
     (if t = ''!!''
      then case getPrevious h of (v, h1) \<Rightarrow>
          (case expand_tokens ts h1 of (us, h2) \<Rightarrow>
             (List.map_filter id (parse (case v of None \<Rightarrow> [] | Some e \<Rightarrow> e)) @ us, h2))
      else case expand_tokens ts h of (us, h2) \<Rightarrow> (t # us, h2))"

definition clearLine :: "shell \<Rightarrow> shell" where
  "clearLine s = out [Control (ESC # ''[G''), Control (ESC # ''[2K'')] s"

definition handleReadComplete :: "bool \<Rightarrow> shell \<Rightarrow> shell_effect list \<times> shell" where
  "handleReadComplete clearCmd s0 =
     (let input = sh_input s0;
          s = (if sh_activePrompt s0
               then s0\<lparr>sh_activePrompt := False, sh_pending := True, sh_promptPrefix := [], sh_continuationPrefix := []\<rparr>
               else s0);
          s1 = (if clearCmd then clearLine s else out [Shown [CR, LF]] s)
      in if sh_waitingForInput s1
         then ([AnswerInput (sh_input s1)], s1\<lparr>sh_waitingForInput := False\<rparr>)
         else case expand_tokens (parse input) (sh_history s1) of (tokens, h) \<Rightarrow>
             ([RunTokens tokens], s1\<lparr>sh_history := h\<rparr>))"

definition executeFromStr :: "string \<Rightarrow> bool \<Rightarrow> shell \<Rightarrow> shell_effect list \<times> shell" where
  "executeFromStr cmd clearCmd s = handleReadComplete clearCmd (setInput cmd False s)"

text \<open>The continuation of a prompt that was resolved: the line is entered into the history.\<close>

definition prompt_resolved :: "shell \<Rightarrow> shell" where
  "prompt_resolved s =
     (if sh_pending s then s\<lparr>sh_pending := False, sh_history := push (js_trim (sh_input s)) (sh_history s)\<rparr> else s)"

definition handle_control :: "(string \<Rightarrow> string list) \<Rightarrow> bool \<Rightarrow> string \<Rightarrow> shell \<Rightarrow> shell_effect list \<times> shell" where
  "handle_control getCandidates anyHandler data s =
     (if data = [CR] then
        (if isIncompleteInput (sh_input s) then ([], handleCursorInsert [LF] s) else handleReadComplete False s)
      else if data \<in> {[CHR 0x7F], [CHR 0x08], [CHR 0x04]} then ([], handleCursorErase True s)
      else if data = [TAB] then
        ([], if anyHandler then complete getCandidates s else handleCursorInsert (replicate 4 BLANK) s)
      else if data = [CHR 0x01] then ([], setCursor 0 s)
      else if data = [CHR 0x02] then ([], handleCursorMove (-1) s)
      else if data = [CHR 0x05] then ([], setCursor (length (sh_input s)) s)
      else if data = [CHR 0x06] then ([], handleCursorMove 1 s)
      else if data = [CHR 0x07] then ([], setInput [] False (s\<lparr>sh_history := snd (getPrevious (sh_history s))\<rparr>))
      else if data = [CHR 0x0B] then
        (let s' = setInput (take (sh_cursor s) (sh_input s)) False s in ([], setCursor (length (sh_input s')) s'))
      else if data = [CHR 0x0E] then ([], next_entry s)
      else if data = [CHR 0x10] then ([], previous_entry s)
      else if data = [CHR 0x15] then ([], setCursor 0 (setInput (drop (sh_cursor s) (sh_input s)) False s))
      else ([], s))"

definition handleData :: "(string \<Rightarrow> string list) \<Rightarrow> bool \<Rightarrow> string \<Rightarrow> shell \<Rightarrow> shell_effect list \<times> shell" where
  "handleData getCandidates anyHandler data s =
     (case data of
        [] \<Rightarrow> ([], handleCursorInsert [] s)
      | c # cs \<Rightarrow>
          if c = ESC then ([], handle_escape cs s)
          else if (of_char c :: nat) < 32 \<or> c = CHR 0x7F then handle_control getCandidates anyHandler data s
          else ([], handleCursorInsert data s))"

section \<open>Data from the terminal\<close>

definition isPrompting :: "shell \<Rightarrow> bool" where
  "isPrompting s \<longleftrightarrow> sh_processCount s = 0 \<or> sh_waitingForInput s"

text \<open>Runs of line ends in pasted text become one carriage return.\<close>

fun squash_ends :: "string \<Rightarrow> string" where
  "squash_ends [] = []"
| "squash_ends (c # cs) =
     (if c = CR \<or> c = LF
      then (if cs \<noteq> [] \<and> (hd cs = CR \<or> hd cs = LF) then squash_ends cs else CR # squash_ends cs)
      else c # squash_ends cs)"

fun handle_each :: "(string \<Rightarrow> string list) \<Rightarrow> bool \<Rightarrow> string \<Rightarrow> shell \<Rightarrow> shell_effect list \<times> shell" where
  "handle_each gc ah [] s = ([], s)"
| "handle_each gc ah (c # cs) s =
     (case handleData gc ah [c] s of (es, s1) \<Rightarrow> (case handle_each gc ah cs s1 of (fs, s2) \<Rightarrow> (es @ fs, s2)))"

definition handleTermData :: "(string \<Rightarrow> string list) \<Rightarrow> bool \<Rightarrow> string option \<Rightarrow> string \<Rightarrow> shell \<Rightarrow> shell_effect list \<times> shell" where
  "handleTermData getCandidates anyHandler promptRead data s =
     (if \<not> isPrompting s then (if data = [CHR 0x03] then [StopRun] else [], s)
      else if sh_firstInit s \<and> sh_activePrompt s \<and> promptRead = None then ([], s)
      else
        let s1 = (if sh_firstInit s \<and> sh_activePrompt s
                  then s\<lparr>sh_promptPrefix := the promptRead, sh_firstInit := False\<rparr> else s)
        in if length data > 3 \<and> hd data \<noteq> ESC then handle_each getCandidates anyHandler (squash_ends data) s1
           else handleData getCandidates anyHandler data s1)"

text \<open>Prompting, unless a prompt is active and on the screen.\<close>

definition prompt :: "string \<Rightarrow> string \<Rightarrow> string \<Rightarrow> bool \<Rightarrow> shell \<Rightarrow> shell" where
  "prompt promptPrefix waitingPrefix continuationPrefix onScreen s =
     (if sh_activePrompt s \<and> onScreen then s
      else (read_prompt (if sh_waitingForInput s then waitingPrefix else promptPrefix) continuationPrefix s)
        \<lparr>sh_activePrompt := True\<rparr>)"

definition disable :: "shell \<Rightarrow> shell" where
  "disable s = s\<lparr>sh_processCount := sh_processCount s + 1\<rparr>"

definition enable :: "string \<Rightarrow> string \<Rightarrow> string \<Rightarrow> bool \<Rightarrow> shell \<Rightarrow> shell" where
  "enable promptPrefix waitingPrefix continuationPrefix onScreen s =
     (let s' = s\<lparr>sh_processCount := sh_processCount s - 1\<rparr>
      in if sh_processCount s' = 0 then prompt promptPrefix waitingPrefix continuationPrefix onScreen s' else s')"

end
