(* ===== verification/Shell_Correct.thy ===== *)
theory Shell_Correct
  imports Shell Terminal_Correct
begin

text \<open>
  The line editor as a text with a cursor in it: every editing key does to the text before and after the cursor what it
  should, and moves the cursor on the screen by exactly what the positions differ. Then what a finished line, a pasted
  text and a completion come to.
\<close>

section \<open>What an operation changes\<close>

lemma out_fields [simp]:
  "sh_input (out ws s) = sh_input s" "sh_cursor (out ws s) = sh_cursor s" "sh_history (out ws s) = sh_history s"
  "sh_activePrompt (out ws s) = sh_activePrompt s" "sh_waitingForInput (out ws s) = sh_waitingForInput s"
  "sh_pending (out ws s) = sh_pending s" "sh_processCount (out ws s) = sh_processCount s"
  by (simp_all add: out_def)

lemma clearInput_fields [simp]:
  "sh_input (clearInput s) = sh_input s" "sh_cursor (clearInput s) = sh_cursor s" "sh_history (clearInput s) = sh_history s"
  "sh_activePrompt (clearInput s) = sh_activePrompt s" "sh_waitingForInput (clearInput s) = sh_waitingForInput s"
  "sh_pending (clearInput s) = sh_pending s" "sh_processCount (clearInput s) = sh_processCount s"
  by (simp_all add: clearInput_def Let_def)

lemma setInput_fields [simp]:
  "sh_input (setInput t b s) = t" "sh_cursor (setInput t b s) = min (sh_cursor s) (length t)"
  "sh_history (setInput t b s) = sh_history s" "sh_activePrompt (setInput t b s) = sh_activePrompt s"
  "sh_waitingForInput (setInput t b s) = sh_waitingForInput s" "sh_pending (setInput t b s) = sh_pending s"
  "sh_processCount (setInput t b s) = sh_processCount s"
  by (simp_all add: setInput_def Let_def case_prod_beta)

lemma writeCursorPosition_fields [simp]:
  "sh_input (writeCursorPosition k s) = sh_input s" "sh_cursor (writeCursorPosition k s) = k"
  "sh_history (writeCursorPosition k s) = sh_history s" "sh_activePrompt (writeCursorPosition k s) = sh_activePrompt s"
  "sh_waitingForInput (writeCursorPosition k s) = sh_waitingForInput s" "sh_pending (writeCursorPosition k s) = sh_pending s"
  "sh_processCount (writeCursorPosition k s) = sh_processCount s"
  by (simp_all add: writeCursorPosition_def Let_def case_prod_beta)

lemmas cursor_defs = setCursor_def setCursorDirectly_def

section \<open>Editing keys\<close>

datatype edit_key = Typed char | Backspace | DeleteRight | MoveLeft | MoveRight | Home | LineEnd
  | KillRight | KillLeft | WordLeft | WordRight | KillWord

fun key_data :: "edit_key \<Rightarrow> string" where
  "key_data (Typed c) = [c]"
| "key_data Backspace = [CHR 0x7F]"
| "key_data DeleteRight = [ESC] @ ''[3~''"
| "key_data MoveLeft = [ESC] @ ''[D''"
| "key_data MoveRight = [ESC] @ ''[C''"
| "key_data Home = [CHR 0x01]"
| "key_data LineEnd = [CHR 0x05]"
| "key_data KillRight = [CHR 0x0B]"
| "key_data KillLeft = [CHR 0x15]"
| "key_data WordLeft = [ESC] @ ''b''"
| "key_data WordRight = [ESC] @ ''f''"
| "key_data KillWord = [ESC, CHR 0x7F]"

fun visible :: "edit_key \<Rightarrow> bool" where
  "visible (Typed c) \<longleftrightarrow> 32 \<le> (of_char c :: nat) \<and> c \<noteq> CHR 0x7F"
| "visible k = True"

text \<open>The text before and after the cursor, and what a key does to the two.\<close>

definition zipper :: "shell \<Rightarrow> string \<times> string" where
  "zipper s = (take (sh_cursor s) (sh_input s), drop (sh_cursor s) (sh_input s))"

definition split_at :: "nat \<Rightarrow> string \<Rightarrow> string \<times> string" where
  "split_at k t = (take k t, drop k t)"

lemma split_at [simp]: "fst (split_at k t) @ snd (split_at k t) = t" "length (fst (split_at k t)) = min (length t) k"
  by (simp_all add: split_at_def)

fun edit :: "edit_key \<Rightarrow> string \<times> string \<Rightarrow> string \<times> string" where
  "edit (Typed c) (l, r) = (l @ [c], r)"
| "edit Backspace (l, r) = (butlast l, r)"
| "edit DeleteRight (l, r) = (l, tl r)"
| "edit MoveLeft (l, r) = (if l = [] then (l, r) else (butlast l, last l # r))"
| "edit MoveRight (l, r) = (if r = [] then (l, r) else (l @ [hd r], tl r))"
| "edit Home (l, r) = ([], l @ r)"
| "edit LineEnd (l, r) = (l @ r, [])"
| "edit KillRight (l, r) = (l, [])"
| "edit KillLeft (l, r) = ([], r)"
| "edit WordLeft (l, r) = split_at (closestLeftBoundary (l @ r) (length l)) (l @ r)"
| "edit WordRight (l, r) = split_at (closestRightBoundary (l @ r) (length l)) (l @ r)"
| "edit KillWord (l, r) = (take (closestLeftBoundary (l @ r) (length l)) l, r)"

definition key :: "(string \<Rightarrow> string list) \<Rightarrow> bool \<Rightarrow> shell \<Rightarrow> edit_key \<Rightarrow> shell" where
  "key gc ah s k = snd (handleData gc ah (key_data k) s)"

definition cursor_ok :: "shell \<Rightarrow> bool" where
  "cursor_ok s \<longleftrightarrow> sh_cursor s \<le> length (sh_input s)"

lemma zipper_append [simp]: "fst (zipper s) @ snd (zipper s) = sh_input s"
  by (simp add: zipper_def)

lemma fst_zipper: "cursor_ok s \<Longrightarrow> length (fst (zipper s)) = sh_cursor s"
  by (simp add: zipper_def cursor_ok_def)

lemma zipperI:
  assumes "sh_input s = l @ r" and "sh_cursor s = length l"
  shows "zipper s = (l, r)"
  using assms by (simp add: zipper_def)

lemma key_escape: "key_data k = ESC # cs \<Longrightarrow> key gc ah s k = handle_escape cs s"
  by (simp add: key_def handleData_def)

lemma key_control:
  "key_data k = [c] \<Longrightarrow> c \<noteq> ESC \<Longrightarrow> (of_char c :: nat) < 32 \<or> c = CHR 0x7F \<Longrightarrow> key gc ah s k = snd (handle_control gc ah [c] s)"
  by (simp add: key_def handleData_def)

lemmas key_codes = ESC_def CR_def TAB_def

lemma key_edits:
  assumes "cursor_ok s" and "visible k"
  shows "cursor_ok (key gc ah s k)" and "zipper (key gc ah s k) = edit k (zipper s)"
    and "sh_history (key gc ah s k) = sh_history s"
proof -
  obtain l r where s: "sh_input s = l @ r" "sh_cursor s = length l" "zipper s = (l, r)"
    using assms(1) by (metis append_take_drop_id cursor_ok_def fst_zipper fst_conv length_take min.absorb2 prod.collapse zipper_append zipperI)
  define t where "t = key gc ah s k"
  have left: "closestLeftBoundary (l @ r) (length l) \<le> length l" by (rule closest_left_le)
  have right: "closestRightBoundary (l @ r) (length l) \<le> length (l @ r)" by (rule closest_right_le)
  have t: "sh_input t = fst (edit k (l, r)) @ snd (edit k (l, r)) \<and> sh_cursor t = length (fst (edit k (l, r))) \<and>
    sh_history t = sh_history s"
  proof (cases k)
    case (Typed c)
    then show ?thesis using assms(2) s unfolding t_def
      by (auto simp: key_def handleData_def key_codes handleCursorInsert_def cursor_defs)
  next
    case Backspace
    then have "t = handleCursorErase True s"
      unfolding t_def by (simp add: key_control [where c = "CHR 0x7F"] key_codes handle_control_def)
    then show ?thesis using s Backspace
      by (cases l rule: rev_cases) (auto simp: handleCursorErase_def cursor_defs)
  next
    case DeleteRight
    then have "t = handleCursorErase False s" unfolding t_def by (simp add: key_escape handle_escape_def)
    then show ?thesis using s DeleteRight by (cases r) (auto simp: handleCursorErase_def cursor_defs)
  next
    case MoveLeft
    then have "t = handleCursorMove (-1) s" unfolding t_def by (simp add: key_escape handle_escape_def)
    then show ?thesis using s MoveLeft
      by (cases l rule: rev_cases) (auto simp: handleCursorMove_def cursor_defs nat_add_distrib)
  next
    case MoveRight
    then have "t = handleCursorMove 1 s" unfolding t_def by (simp add: key_escape handle_escape_def)
    then show ?thesis using s MoveRight by (cases r) (auto simp: handleCursorMove_def cursor_defs nat_add_distrib)
  next
    case Home
    then have "t = setCursor 0 s" unfolding t_def by (simp add: key_control [where c = "CHR 0x01"] key_codes handle_control_def)
    then show ?thesis using s Home by (simp add: cursor_defs)
  next
    case LineEnd
    then have "t = setCursor (length (sh_input s)) s"
      unfolding t_def by (simp add: key_control [where c = "CHR 0x05"] key_codes handle_control_def)
    then show ?thesis using s LineEnd by (simp add: cursor_defs)
  next
    case KillRight
    then have "t = (let s' = setInput (take (sh_cursor s) (sh_input s)) False s in setCursor (length (sh_input s')) s')"
      unfolding t_def by (simp add: key_control [where c = "CHR 0x0B"] key_codes handle_control_def Let_def)
    then show ?thesis using s KillRight by (simp add: cursor_defs Let_def)
  next
    case KillLeft
    then have "t = setCursor 0 (setInput (drop (sh_cursor s) (sh_input s)) False s)"
      unfolding t_def by (simp add: key_control [where c = "CHR 0x15"] key_codes handle_control_def)
    then show ?thesis using s KillLeft by (simp add: cursor_defs)
  next
    case WordLeft
    then have "t = setCursor (closestLeftBoundary (sh_input s) (sh_cursor s)) s"
      unfolding t_def by (simp add: key_escape handle_escape_def)
    then show ?thesis using s WordLeft left by (simp add: cursor_defs)
  next
    case WordRight
    then have "t = setCursor (closestRightBoundary (sh_input s) (sh_cursor s)) s"
      unfolding t_def by (simp add: key_escape handle_escape_def)
    then show ?thesis using s WordRight right by (simp add: cursor_defs)
  next
    case KillWord
    define k where "k = closestLeftBoundary (l @ r) (length l)"
    have "t = setCursor k (setInput (take k (l @ r) @ drop (length l) (l @ r)) False s)"
      using KillWord s unfolding t_def k_def by (simp add: key_escape handle_escape_def Let_def)
    then show ?thesis using s KillWord left by (simp add: cursor_defs flip: k_def)
  qed
  have z: "zipper t = edit k (l, r)" using t zipperI [of t "fst (edit k (l, r))" "snd (edit k (l, r))"] by simp
  show "cursor_ok (key gc ah s k)" using t by (simp add: cursor_ok_def flip: t_def)
  show "zipper (key gc ah s k) = edit k (zipper s)" using z s(3) by (simp flip: t_def)
  show "sh_history (key gc ah s k) = sh_history s" using t by (simp flip: t_def)
qed

text \<open>
  C26: from a fresh prompt and through any sequence of typed characters and editing keys, the editor is a text with a
  cursor: the text before and after the cursor is what the keys, one after the other, make of two empty texts. The
  cursor is never outside the text, and the history is left alone.
\<close>

theorem editing_keys_edit:
  fixes getCandidates :: "string \<Rightarrow> string list" and anyHandler :: bool and prefix0 continuation :: string and s0 :: shell
  assumes "list_all visible ks"
  defines "s \<equiv> foldl (key getCandidates anyHandler) (read_prompt prefix0 continuation s0) ks"
  shows "(take (sh_cursor s) (sh_input s), drop (sh_cursor s) (sh_input s)) = fold edit ks ([], []) \<and>
    sh_cursor s \<le> length (sh_input s) \<and> sh_history s = sh_history s0"
proof -
  have "cursor_ok (foldl (key getCandidates anyHandler) t ks) \<and>
      zipper (foldl (key getCandidates anyHandler) t ks) = fold edit ks (zipper t) \<and>
      sh_history (foldl (key getCandidates anyHandler) t ks) = sh_history t" if "cursor_ok t" for t
    using assms(1) that
  proof (induction ks arbitrary: t)
    case (Cons k ks)
    then show ?case using key_edits [of t k getCandidates anyHandler] by simp
  qed simp
  moreover have "cursor_ok (read_prompt prefix0 continuation s0)" "zipper (read_prompt prefix0 continuation s0) = ([], [])"
    "sh_history (read_prompt prefix0 continuation s0) = sh_history s0"
    by (simp_all add: read_prompt_def cursor_ok_def zipper_def Let_def)
  ultimately have "cursor_ok s \<and> zipper s = fold edit ks ([], []) \<and> sh_history s = sh_history s0"
    unfolding s_def by metis
  then show ?thesis unfolding zipper_def cursor_ok_def by blast
qed

definition example_shell :: shell where
  "example_shell =
     \<lparr>sh_input = [], sh_cursor = 0, sh_promptPrefix = ''$ '', sh_continuationPrefix = ''> '', sh_cols = 80, sh_firstInit = False,
      sh_out = [], sh_history = push ''deploy'' (push ''build'' (new_history 20)), sh_activePrompt = True, sh_pending = False,
      sh_waitingForInput = False, sh_processCount = 0\<rparr>"

theorem editing_keys_edit_witness:
  "let s = foldl (key (\<lambda>_. []) True) (read_prompt ''$ '' ''> '' example_shell)
     [Typed (CHR ''a''), Typed (CHR ''x''), Backspace, Typed (CHR ''c''), MoveLeft, Typed (CHR ''b'')]
   in (take (sh_cursor s) (sh_input s), drop (sh_cursor s) (sh_input s)) = (''ab'', ''c'')"
  using editing_keys_edit [of "[Typed (CHR ''a''), Typed (CHR ''x''), Backspace, Typed (CHR ''c''), MoveLeft, Typed (CHR ''b'')]"
      "\<lambda>_. []" True "''$ ''" "''> ''" example_shell]
  by (simp add: Let_def)

section \<open>The cursor on the screen\<close>

text \<open>What a movement code does to the cursor of a terminal.\<close>

fun move :: "nat \<times> nat \<Rightarrow> tty_write \<Rightarrow> nat \<times> nat" where
  "move (row, col) (Control c) =
     (if c = ESC # ''[A'' then (row - 1, col) else if c = ESC # ''[B'' then (row + 1, col)
      else if c = ESC # ''[C'' then (row, col + 1) else if c = ESC # ''[D'' then (row, col - 1) else (row, col))"
| "move p w = p"

lemma move_codes:
  "foldl move (row, col) (codes n ''[A'') = (row - n, col)" "foldl move (row, col) (codes n ''[B'') = (row + n, col)"
  "foldl move (row, col) (codes n ''[C'') = (row, col + n)" "foldl move (row, col) (codes n ''[D'') = (row, col - n)"
  by (induction n arbitrary: row col) (simp_all add: codes_def)

text \<open>The codes written for a new cursor position take the screen's cursor from the place of the old position to that of the new one.\<close>

lemma cursor_codes_reach:
  defines "place \<equiv> \<lambda>s k. offsetToColRow (applyPrompts s (sh_input s)) (applyPromptOffset s (sh_input s) k) (sh_cols s)"
  shows "\<exists>ws. sh_out (writeCursorPosition k s) = sh_out s @ ws \<and> foldl move (place s (sh_cursor s)) ws = place s k"
proof -
  obtain pr pc where p: "place s (sh_cursor s) = (pr, pc)" by fastforce
  obtain nr nc where n: "place s k = (nr, nc)" by fastforce
  have "sh_out (writeCursorPosition k s) = sh_out s @
      ((if nr > pr then codes (nr - pr) ''[B'' else codes (pr - nr) ''[A'') @
       (if nc > pc then codes (nc - pc) ''[C'' else codes (pc - nc) ''[D''))"
    using p n by (simp add: writeCursorPosition_def place_def out_def Let_def)
  moreover have "foldl move (pr, pc) ((if nr > pr then codes (nr - pr) ''[B'' else codes (pr - nr) ''[A'') @
       (if nc > pc then codes (nc - pc) ''[C'' else codes (pc - nc) ''[D'')) = (nr, nc)"
    by (auto simp: move_codes)
  ultimately show ?thesis using p n by auto
qed

section \<open>The last command again\<close>

lemma push_bang [simp]: "push ''!!'' h = h" by (simp add: push_def)

lemma parse_bang: "parse ''!!'' = [Some ''!!'']"
  by code_simp

lemma trim_bang: "js_trim ''!!'' = ''!!''"
  by code_simp

text \<open>
  \<^verbatim>\<open>!!\<close> runs the last line that was entered. Entered again right after, it runs the line before that one: entering
  \<^verbatim>\<open>!!\<close> moves the cursor of the history back and nothing puts it at the end again.
\<close>

definition enter_bang :: "shell \<Rightarrow> shell_effect list \<times> shell" where
  "enter_bang s = (case handleReadComplete False (s\<lparr>sh_input := ''!!'', sh_activePrompt := True\<rparr>) of (es, s') \<Rightarrow> (es, prompt_resolved s'))"

theorem last_command_twice_walks_back:
  assumes "hi_entries (sh_history s) = es @ [e1, e2]" and "hi_cursor (sh_history s) = length (hi_entries (sh_history s))"
    and "\<not> sh_waitingForInput s"
  shows "let (effects, s1) = enter_bang s; (effects', s2) = enter_bang s1
    in effects = [RunTokens (List.map_filter id (parse e2))] \<and> effects' = [RunTokens (List.map_filter id (parse e1))]"
proof -
  define h where "h = sh_history s"
  have g: "getPrevious h = (Some e2, h\<lparr>hi_cursor := Suc (length es)\<rparr>)"
    "getPrevious (h\<lparr>hi_cursor := Suc (length es)\<rparr>) = (Some e1, h\<lparr>hi_cursor := length es\<rparr>)"
    using assms(1,2) by (simp_all add: getPrevious_def Let_def h_def nth_append)
  have bang: "\<exists>s'. enter_bang t = ([RunTokens (List.map_filter id (parse e))], s') \<and> sh_history s' = k' \<and> \<not> sh_waitingForInput s'"
    if "getPrevious (sh_history t) = (Some e, k')" "\<not> sh_waitingForInput t" for t e k'
    using that
    by (simp add: enter_bang_def handleReadComplete_def Let_def parse_bang prompt_resolved_def trim_bang case_prod_beta)
  obtain s1 where s1: "enter_bang s = ([RunTokens (List.map_filter id (parse e2))], s1)"
    "sh_history s1 = h\<lparr>hi_cursor := Suc (length es)\<rparr>" "\<not> sh_waitingForInput s1"
    using bang [of s e2] g(1) assms(3) h_def by blast
  obtain s2 where "enter_bang s1 = ([RunTokens (List.map_filter id (parse e1))], s2)"
    using bang [of s1 e1] g(2) s1 by auto
  then show ?thesis using s1 by simp
qed

theorem last_command_twice_walks_back_witness:
  "let (effects, s1) = enter_bang example_shell; (effects', s2) = enter_bang s1
   in effects = [RunTokens [''deploy'']] \<and> effects' = [RunTokens [''build'']]"
proof -
  have p: "List.map_filter id (parse ''deploy'') = [''deploy'']" "List.map_filter id (parse ''build'') = [''build'']" by code_simp+
  have h: "hi_entries (sh_history example_shell) = [] @ [''build'', ''deploy'']"
    "hi_cursor (sh_history example_shell) = length (hi_entries (sh_history example_shell))" "\<not> sh_waitingForInput example_shell"
    by code_simp+
  show ?thesis using last_command_twice_walks_back [OF h] unfolding p .
qed

section \<open>Pasting and completing\<close>

abbreviation printable :: "string \<Rightarrow> bool" where
  "printable cs \<equiv> list_all (\<lambda>c. visible (Typed c)) cs"

lemma handle_each_append:
  "handle_each gc ah (xs @ ys) s =
     (case handle_each gc ah xs s of (es, s1) \<Rightarrow> (case handle_each gc ah ys s1 of (fs, s2) \<Rightarrow> (es @ fs, s2)))"
  by (induction xs arbitrary: s) (simp_all add: case_prod_beta)

text \<open>A state with the cursor at the end of a text, asking for a command.\<close>

definition typed_in :: "string \<Rightarrow> shell \<Rightarrow> bool" where
  "typed_in t s \<longleftrightarrow> sh_input s = t \<and> sh_cursor s = length t \<and> \<not> sh_waitingForInput s"

lemma type_char:
  assumes "typed_in t s" and "visible (Typed c)"
  shows "fst (handleData gc ah [c] s) = []" "typed_in (t @ [c]) (snd (handleData gc ah [c] s))"
proof -
  have "handleData gc ah [c] s = ([], handleCursorInsert [c] s)"
    using assms(2) by (auto simp: handleData_def key_codes)
  then show "fst (handleData gc ah [c] s) = []" "typed_in (t @ [c]) (snd (handleData gc ah [c] s))"
    using assms(1) by (simp_all add: typed_in_def handleCursorInsert_def cursor_defs)
qed

lemma type_text:
  "typed_in t s \<Longrightarrow> printable cs \<Longrightarrow>
     fst (handle_each gc ah cs s) = [] \<and> typed_in (t @ cs) (snd (handle_each gc ah cs s))"
proof (induction cs arbitrary: s t)
  case (Cons c cs)
  then show ?case using type_char [of t s c gc ah] Cons.IH [of "t @ [c]" "snd (handleData gc ah [c] s)"]
    by (simp add: case_prod_beta)
qed simp

definition no_bang :: "string \<Rightarrow> bool" where
  "no_bang t \<longleftrightarrow> Some ''!!'' \<notin> set (parse t)"

lemma expand_no_bang: "Some ''!!'' \<notin> set ts \<Longrightarrow> expand_tokens ts h = (List.map_filter id ts, h)"
  by (induction ts h rule: expand_tokens.induct) (auto simp: map_filter_simps)

lemma enter_line:
  assumes "typed_in t s" and "\<not> isIncompleteInput t" and "no_bang t"
  shows "fst (handleData gc ah [CR] s) = [RunTokens (List.map_filter id (parse t))]"
    and "typed_in t (snd (handleData gc ah [CR] s))"
proof -
  have "handleData gc ah [CR] s = handleReadComplete False s"
    using assms(1,2) by (simp add: handleData_def handle_control_def typed_in_def key_codes)
  then show "fst (handleData gc ah [CR] s) = [RunTokens (List.map_filter id (parse t))]"
    and "typed_in t (snd (handleData gc ah [CR] s))"
    using assms by (simp_all add: handleReadComplete_def Let_def typed_in_def no_bang_def expand_no_bang)
qed

lemma squash_printable: "printable cs \<Longrightarrow> squash_ends (cs @ ds) = cs @ squash_ends ds"
  by (induction cs) (auto simp: CR_def LF_def)

text \<open>
  Two lines pasted at an empty prompt are not run one after the other: the input is not emptied between them, so the
  second line runs with the first in front of it.
\<close>

lemma pasted_lines_run_together:
  assumes "typed_in [] s" and "isPrompting s" and "printable a" "printable b" and "b \<noteq> []" and "2 < length (a @ b)"
    and "\<not> isIncompleteInput a" "\<not> isIncompleteInput (a @ b)" and "no_bang a" "no_bang (a @ b)"
  shows "fst (handleTermData gc ah (Some p) (a @ [LF] @ b @ [LF]) s) =
    [RunTokens (List.map_filter id (parse a)), RunTokens (List.map_filter id (parse (a @ b)))]"
proof -
  have b: "hd b \<noteq> CR \<and> hd b \<noteq> LF" using assms(4,5) by (cases b) (auto simp: CR_def LF_def)
  have "squash_ends (a @ [LF] @ b @ [LF]) = a @ [CR] @ b @ [CR]"
    using b assms(5) by (simp add: squash_printable [OF assms(3)] squash_printable [OF assms(4)] hd_append)
  moreover have "hd (a @ [LF] @ b @ [LF]) \<noteq> ESC" using assms(3) by (cases a) (auto simp: LF_def ESC_def)
  moreover define s1 where
    "s1 = (if sh_firstInit s \<and> sh_activePrompt s then s\<lparr>sh_promptPrefix := p, sh_firstInit := False\<rparr> else s)"
  ultimately have s1: "typed_in [] s1"
    "handleTermData gc ah (Some p) (a @ [LF] @ b @ [LF]) s = handle_each gc ah (a @ [CR] @ b @ [CR]) s1"
    using assms(1,2,6) by (simp_all add: handleTermData_def Let_def typed_in_def)
  define s2 where "s2 = snd (handle_each gc ah a s1)"
  have 2: "handle_each gc ah a s1 = ([], s2)" "typed_in a s2"
    using type_text [OF s1(1) assms(3), of gc ah] by (simp_all add: s2_def prod_eq_iff)
  define s3 where "s3 = snd (handleData gc ah [CR] s2)"
  have 3: "handleData gc ah [CR] s2 = ([RunTokens (List.map_filter id (parse a))], s3)" "typed_in a s3"
    using enter_line [OF 2(2) assms(7,9), of gc ah] by (simp_all add: s3_def prod_eq_iff)
  define s4 where "s4 = snd (handle_each gc ah b s3)"
  have 4: "handle_each gc ah b s3 = ([], s4)" "typed_in (a @ b) s4"
    using type_text [OF 3(2) assms(4), of gc ah] by (simp_all add: s4_def prod_eq_iff)
  have "fst (handleData gc ah [CR] s4) = [RunTokens (List.map_filter id (parse (a @ b)))]"
    by (rule enter_line(1) [OF 4(2) assms(8,10)])
  then show ?thesis using s1(2) 2(1) 3(1) 4(1) by (simp add: handle_each_append case_prod_beta)
qed

text \<open>A completion before the end of the line drops what is behind the cursor.\<close>

lemma completion_drops_rest:
  assumes "getCandidates (take (sh_cursor s) (sh_input s)) = [c]"
  shows "sh_input (complete getCandidates s) = createNewInput (take (sh_cursor s) (sh_input s)) 1 c"
  using assms by (simp add: complete_def Let_def cursor_defs)

end
