(* ===== verification/Autocomplete_Correct.thy ===== *)
theory Autocomplete_Correct
  imports Autocomplete Shell_Correct
begin

text \<open>
  The recursion of the completion ends by itself; a candidate continues the token at the cursor; and a completed line
  reads back as the tokens before with the candidate in the place of the last.
\<close>

section \<open>The recursion ends\<close>

text \<open>Definitions in which only the places of arguments are numbers, as those made from commands with letters for short options.\<close>

fun plain_node :: "node \<Rightarrow> bool" where
  "plain_node (Node es vs m t other) \<longleftrightarrow>
     list_all (\<lambda>e. \<not> (isInt (fst e) \<and> getIsOption (fst e)) \<and> plain_node (snd e)) es \<and>
     (case other of None \<Rightarrow> True | Some k \<Rightarrow> \<not> isInt k)"

definition plain :: "(string \<times> node) list \<Rightarrow> bool" where
  "plain obj \<longleftrightarrow> list_all (\<lambda>e. plain_node (snd e)) obj"

lemma plain_node_parts: "plain_node nd \<Longrightarrow> plain (nd_entries nd) \<and> (case nd_other nd of None \<Rightarrow> True | Some k \<Rightarrow> \<not> isInt k)"
  by (cases nd) (auto simp: plain_def list_all_iff)

lemma plain_filter: "plain obj \<Longrightarrow> plain (filter P obj)"
  by (auto simp: plain_def list_all_iff)

lemma plain_entries: "plain obj \<Longrightarrow> plain (js_entries obj)"
  by (auto simp: plain_def js_entries_def list_all_iff)

lemma delete_key_keeps:
  assumes "plain obj" and "case k of None \<Rightarrow> True | Some n \<Rightarrow> \<not> isInt n"
  shows "plain (delete_key k obj)" and "isInt ky \<Longrightarrow> ky \<in> fst ` set obj \<Longrightarrow> ky \<in> fst ` set (delete_key k obj)"
  using assms by (auto simp: delete_key_def plain_filter image_iff split: option.splits)

lemma arg_amount_pos: "isInt ky \<Longrightarrow> ky \<in> fst ` set obj \<Longrightarrow> 0 < arg_amount obj"
  by (auto simp: arg_amount_def filter_empty_conv)

lemma round_cong:
  assumes "plain obj" and "plain es" and "\<And>ky. ky \<in> fst ` set es \<Longrightarrow> isInt ky \<Longrightarrow> ky \<in> fst ` set obj"
    and same: "\<And>o1 j. plain o1 \<Longrightarrow> i < j \<Longrightarrow> rec o1 j = rec' o1 j"
  shows "round rec ts index i obj es = round rec' ts index i obj es"
  using assms(1-3)
proof (induction es arbitrary: obj)
  case (Cons e es)
  obtain ky nd where e: "e = (ky, nd)" by (cases e)
  have nd: "plain (nd_entries nd)" "case nd_other nd of None \<Rightarrow> True | Some k \<Rightarrow> \<not> isInt k" "plain es"
    using Cons.prems(2) e plain_node_parts by (auto simp: plain_def)
  have rest: "round rec ts index i obj es = round rec' ts index i obj es"
    by (rule Cons.IH) (use Cons.prems nd in auto)
  have rest': "round rec ts index i (delete_key (nd_other nd) obj) es = round rec' ts index i (delete_key (nd_other nd) obj) es"
    by (rule Cons.IH) (use Cons.prems nd delete_key_keeps [OF Cons.prems(1) nd(2)] in auto)
  have calls: "rec obj (i + 1) = rec' obj (i + 1)" "rec (nd_entries nd) (i + 1) = rec' (nd_entries nd) (i + 1)"
    "\<And>k. 0 < k \<Longrightarrow> rec (delete_key (nd_other nd) obj) (i + k) = rec' (delete_key (nd_other nd) obj) (i + k)"
    using same Cons.prems(1) nd(1) delete_key_keeps(1) [OF Cons.prems(1) nd(2)] by auto
  have opts: "rec (only_options obj) (i + arg_amount obj) = rec' (only_options obj) (i + arg_amount obj)" if "isInt ky"
    using same [of "only_options obj" "i + arg_amount obj"] arg_amount_pos [OF that, of obj] Cons.prems(1,3) e that
    by (auto simp: only_options_def plain_filter)
  show ?case
  proof (cases "isInt ky")
    case True
    then show ?thesis unfolding e round.simps using rest calls(1) opts by auto
  next
    case False
    define j where "j = (if nd_takeValue nd then i + 2 else i + 1)"
    have "rec (delete_key (nd_other nd) obj) j = rec' (delete_key (nd_other nd) obj) j"
      using calls(3) [of 2] calls(3) [of 1] by (simp add: j_def)
    then show ?thesis unfolding e round.simps Let_def j_def [symmetric] using rest rest' calls(2) False by simp
  qed
qed simp

text \<open>Any number of nested calls from the number of tokens on gives the same candidates.\<close>

lemma candidates_fuel:
  assumes "plain obj" and "Suc index - i \<le> n" and "Suc index - i \<le> m"
  shows "candidates_in n ts index obj i = candidates_in m ts index obj i"
  using assms
proof (induction n arbitrary: obj i m)
  case 0
  then show ?case by (cases m) auto
next
  case (Suc n)
  show ?case
  proof (cases "i > index")
    case False
    then obtain k where m: "m = Suc k" using Suc.prems by (cases m) auto
    have "round (candidates_in n ts index) ts index i obj (js_entries obj) =
        round (candidates_in k ts index) ts index i obj (js_entries obj)"
    proof (rule round_cong [OF Suc.prems(1) plain_entries [OF Suc.prems(1)]])
      show "ky \<in> fst ` set obj" if "ky \<in> fst ` set (js_entries obj)" for ky
        using that by (auto simp: js_entries_def)
      show "candidates_in n ts index o1 j = candidates_in k ts index o1 j" if "plain o1" "i < j" for o1 j
        by (rule Suc.IH) (use that Suc.prems m in auto)
    qed
    then show ?thesis using False m by simp
  qed (cases m; simp)
qed

section \<open>A candidate continues the token\<close>

definition continues :: "tokens \<Rightarrow> nat \<Rightarrow> string \<Rightarrow> bool" where
  "continues ts index c \<longleftrightarrow> prefix (tok ts index) c"

lemma starting_continues: "c \<in> set (starting (tok ts index) vs) \<Longrightarrow> continues ts index c"
  by (auto simp: starting_def continues_def)

lemma round_continues:
  assumes "\<And>o1 j c. c \<in> set (rec o1 j) \<Longrightarrow> continues ts index c"
  shows "c \<in> set (round rec ts index i obj es) \<Longrightarrow> continues ts index c"
proof (induction es arbitrary: obj)
  case (Cons e es)
  obtain ky nd where e: "e = (ky, nd)" by (cases e)
  have here: "continues ts index ky" if "i = index" "tok ts i = [] \<or> prefix (tok ts i) ky"
    using that by (auto simp: continues_def)
  show ?case
    using Cons here assms starting_continues unfolding e
    by (auto simp: Let_def split: if_splits)
qed simp

lemma candidates_continue: "c \<in> set (candidates_in n ts index obj i) \<Longrightarrow> continues ts index c"
proof (induction n arbitrary: obj i c)
  case (Suc n)
  then show ?case using round_continues [of "candidates_in n ts index" ts index c] by (auto split: if_splits)
qed simp

lemma entries_continue:
  assumes "c \<in> set (entry_candidates es ts index)"
  shows "continues ts index c"
proof -
  obtain e where e: "entry_matches ts index e" "index < length e" "e ! index = Some c"
    using assms by (auto simp: entry_candidates_def map_filter_def split: if_splits)
  show ?thesis
  proof (cases "index < length ts")
    case True
    then have "token_agrees ts index e index" using e(1) by (simp add: entry_matches_def list_all_iff)
    then have "case ts ! index of None \<Rightarrow> True | Some t \<Rightarrow> (if Suc index = length ts then prefix t c else c = t)"
      using e(2,3) by (simp add: token_agrees_def split: option.splits if_splits)
    then show ?thesis using True by (auto simp: continues_def tok_def arr_text_def split: option.splits if_splits)
  qed (simp add: continues_def tok_def arr_text_def)
qed

lemma handler_continues: "c \<in> set (run_handler h ts index) \<Longrightarrow> continues ts index c"
proof (cases h)
  case (EntriesHandler es)
  assume "c \<in> set (run_handler h ts index)"
  then show ?thesis unfolding EntriesHandler run_handler.simps by (rule entries_continue)
next
  case (ObjectHandler d)
  assume "c \<in> set (run_handler h ts index)"
  then show ?thesis unfolding ObjectHandler run_handler.simps recursivelyGetCandidates_def by (rule candidates_continue)
qed

text \<open>
  Every candidate for a line that is not blank continues its last token, whatever definitions and entries it is
  completed from.
\<close>

theorem candidates_continue_token:
  assumes "\<forall>xs. set (order xs) \<subseteq> set xs" and "js_trim input \<noteq> []" and "c \<in> set (getCandidates order handlers input)"
  shows "prefix (tok (parse input) (length (parse input) - 1)) c"
proof -
  have "c \<in> set (concat (map (\<lambda>h. run_handler h (parse input) (length (parse input) - 1)) handlers))"
  proof -
    let ?all = "concat (map (\<lambda>h. run_handler h (parse input) (length (parse input) - 1)) handlers)"
    have "c \<in> set (order (js_set ?all))" using assms(2,3) by (simp add: getCandidates_def Let_def)
    moreover have "set (order (js_set ?all)) \<subseteq> set (js_set ?all)" using assms(1) by blast
    ultimately show ?thesis by (auto simp: js_set_def)
  qed
  then show ?thesis using handler_continues by (fastforce simp: continues_def)
qed

section \<open>A completed line\<close>

lemma last_split_blank: "x \<in> set (last (split_blank t)) \<Longrightarrow> x \<in> set t"
proof (induction t)
  case (Cons c t)
  then show ?case by (auto split: list.splits if_splits)
qed simp

text \<open>
  Completing at the end of a line with its only candidate leaves a line that reads as the tokens before it with the
  candidate in the place of the last one, for lines and candidates without quotation marks.
\<close>

theorem completion_reads_back:
  assumes "parse t = map Some (ts @ [l])" and "ts \<noteq> [] \<Longrightarrow> hd ts \<noteq> []" and "c \<noteq> []"
    and "list_all unquoted (t # c # ts)" and "\<not> suffix [BLANK] c"
    and "sh_input s = t" and "sh_cursor s = length t" and "complete_with t = [c]"
  shows "parse (sh_input (complete complete_with s)) = map Some (ts @ [c])"
proof -
  define first where "first = (case last (split_blank t) of [] \<Rightarrow> None | x # xs \<Rightarrow> Some x)"
  have "first \<noteq> Some QUOTE \<and> first \<noteq> Some APOSTROPHE"
    using assms(4) last_split_blank [of _ t] by (fastforce simp: first_def unquoted_def split: list.splits)
  then have "createNewInput t 1 c = join_blank (map quote_token ts @ [quote_token c])"
    using assms(1,5)
    by (auto simp: createNewInput_def Let_def replace_last_def quote_token_def [of c] butlast_append comp_def simp flip: first_def)
  also have "map quote_token ts @ [quote_token c] = map quote_token (ts @ [c])" by simp
  finally have line: "createNewInput t 1 c = join_blank (map quote_token (ts @ [c]))" .
  have "parse (join_blank (map quote_token (ts @ [c]))) = map Some (ts @ [c])"
  proof (cases ts)
    case Nil
    then show ?thesis using parse_tokens_back [of c "[]"] assms(3,4) by simp
  next
    case (Cons u us)
    then show ?thesis using parse_tokens_back [of u "us @ [c]"] assms(2,4) by simp
  qed
  then show ?thesis using completion_drops_rest [of complete_with s c] assms(6-8) line by simp
qed

theorem completion_reads_back_witness:
  "parse (sh_input (complete (\<lambda>_. [''keypair.json'']) (example_shell\<lparr>sh_input := ''run --file key'', sh_cursor := 14\<rparr>))) =
     [Some ''run'', Some ''--file'', Some ''keypair.json'']"
proof -
  have p: "parse ''run --file key'' = map Some ([''run'', ''--file''] @ [''key''])" by code_simp
  have u: "list_all unquoted [''run --file key'', ''keypair.json'', ''run'', ''--file'']"
    by (simp add: QUOTE_def APOSTROPHE_def)
  have b: "\<not> suffix [BLANK] ''keypair.json''" by code_simp
  show ?thesis
    using completion_reads_back [OF p _ _ u b, of "example_shell\<lparr>sh_input := ''run --file key'', sh_cursor := 14\<rparr>" "\<lambda>_. [''keypair.json'']"]
    by simp
qed

definition example_definitions :: node where
  "example_definitions = Node [(''build'', Node [] None False False None), (''run'', Node [(''0'', Node [] (Some (\<lambda>_ _. [''client.ts'', ''other.ts''])) True False None)] None False False None)]
     None False False None"

theorem candidates_continue_token_witness:
  "getCandidates id [ObjectHandler example_definitions] ''run cl'' = [''client.ts''] \<and> prefix ''cl'' ''client.ts''"
proof -
  have c: "getCandidates id [ObjectHandler example_definitions] ''run cl'' = [''client.ts'']" by code_simp
  have "js_trim ''run cl'' \<noteq> []" "tok (parse ''run cl'') (length (parse ''run cl'') - 1) = ''cl''" by code_simp+
  then show ?thesis
    using candidates_continue_token [of id "''run cl''" "''client.ts''" "[ObjectHandler example_definitions]"] c by simp
qed

end
