(* ===== verification/Spec2Isabelle.thy ===== *)
theory Spec2Isabelle
  imports Merge_Settled Flow_Stage Lesson_Store_Correct Layout_State_Correct Sync_Lock
    Sync_Mark_Correct Explorer_Effects Two_Devices Project_Restore_Correct Chat_Thread_Correct Command_Runs Autocomplete_Correct
begin

text \<open>
  A verification of the core logic of the second client of Solana Playground, a web IDE for Solana
  programs (\<^verbatim>\<open>src/client-v2/src\<close>; file names below are relative to it). The client keeps the user's
  projects in a browser volume and in an account on a server, has a terminal in which commands are run, takes a program through the stages
  write, build, deploy and interact, teaches with guided lessons, and remembers the layout of its shell.

  \<^bold>\<open>Project sync.\<close> A device and the account's server change the same project. The last copy both agreed on
  is the base of a three-way merge. A snapshot is the set of files that travel, and their hashes
  (\<^verbatim>\<open>features/persistence/model/snapshot.ts\<close>, theory \<open>Snapshot\<close>). One file is merged line by line from two
  diffs against the base (\<^verbatim>\<open>merge.ts\<close>, \<open>Merge3\<close>); a project is merged path by path into a plan of settled
  files and conflicts, the generated program keypair carried over specially, and a plan is settled with
  the user's answers (\<^verbatim>\<open>merge.ts\<close>, \<open>Merge_Plan\<close>). The answers come from the resolve view, whose model of
  one file is a list of segments over three panes with an editable result (\<^verbatim>\<open>ui/merge-editor/merge-file.ts\<close>,
  \<open>Merge_File\<close>). What the base held is kept on the device for files edited there (\<^verbatim>\<open>sync-base.ts\<close>,
  \<open>Sync_Base\<close>); the agreement itself is a mark per account and project, changed through a queue per
  project, with claims for projects not uploaded yet (\<^verbatim>\<open>sync-mark.ts\<close>, \<^verbatim>\<open>sync-claim.ts\<close>, \<open>Sync_Mark\<close>); and a
  lock shared by the calls of one tab keeps two tabs from deciding at the same time
  (\<^verbatim>\<open>sync-lock.ts\<close>, \<open>Sync_Lock\<close>). The driver exchanges copies with the account and holds the questions to the user
  (\<^verbatim>\<open>project-sync.ts\<close>, with \<^verbatim>\<open>sync-client.ts\<close> and \<^verbatim>\<open>account-list.ts\<close>): its data, state and gate are \<open>Project_Sync\<close>, reading and uploading with the
  editor's buffers \<open>Project_Driver\<close>, and merging, adopting and answering \<open>Project_Exchange\<close>. A pass makes this browser and the
  account agree, one at a time, and sign-out gives the browser back (\<^verbatim>\<open>project-restore.ts\<close>, \<open>Project_Restore\<close>). On the other side
  stand the project endpoint and its two tables (\<^verbatim>\<open>api/projects.mjs\<close> of the client, \<^verbatim>\<open>projects.mjs\<close>,
  \<^verbatim>\<open>project-write.mjs\<close>, \<open>Project_Server\<close>).

  \<^bold>\<open>Conversations.\<close> The assistant's threads are stored beside the projects: items are prepared for storage and read back, two copies of
  a thread are merged, a thread is capped, and its stored calls are shown to a model again (\<^verbatim>\<open>chat-codec.ts\<close>, \<^verbatim>\<open>chat-storage.ts\<close>,
  \<^verbatim>\<open>replay.ts\<close> of \<^verbatim>\<open>features/persistence/model\<close>; theory \<open>Chat_Thread\<close>).

  \<^bold>\<open>Explorer and workspaces.\<close> Projects live in a volume as workspaces, and the explorer holds the files of
  the open one with its tabs, unsaved changes and current file. \<open>Paths\<close> is the path arithmetic of
  \<^verbatim>\<open>utils/common.ts\<close> and \<^verbatim>\<open>utils/explorer/fs.ts\<close>, \<open>Workspace\<close> the list of workspaces with names and ids
  (\<^verbatim>\<open>utils/explorer/workspace.ts\<close>), \<open>Effects\<close> the volume as seen by calls that may fail or throw.
  \<^verbatim>\<open>utils/explorer/explorer.ts\<close> is modelled in three parts: files and tabs (\<open>Explorer\<close>), creating, renaming and
  deleting items (\<open>Explorer_Items\<close>), and opening, making, importing, renaming and removing workspaces
  (\<open>Explorer_Spaces\<close>).

  \<^bold>\<open>Terminal and commands.\<close> A line typed at the prompt is split into tokens (\<^verbatim>\<open>utils/terminal/utils.ts\<close>, \<open>Terminal\<close>,
  with the history and the confirm question), edited key by key with history and completion
  (\<^verbatim>\<open>utils/terminal/shell.ts\<close>, \<^verbatim>\<open>tty.ts\<close>, \<open>Shell\<close>; \<^verbatim>\<open>autocomplete.ts\<close>, \<open>Autocomplete\<close>), and run as a command: arguments and options
  are read against their declarations (\<^verbatim>\<open>utils/command.ts\<close>, \<^verbatim>\<open>commands/create.ts\<close>, \<open>Command\<close>), and a manager
  starts, aborts and finishes runs (\<open>Command_Manager\<close>). A misspelt command gets a suggestion
  (\<^verbatim>\<open>features/unknown-command\<close>, \<open>Unknown_Command\<close>), and a slow one a line saying so (\<^verbatim>\<open>slow-run.ts\<close>, \<open>Slow_Run\<close>).

  \<^bold>\<open>The development loop.\<close> A reducer turns client events into the statuses of the stages
  (\<^verbatim>\<open>views/flow/state/stage.ts\<close>, with the build output of \<^verbatim>\<open>views/sidebar/assistant/bridge/build-output.ts\<close>;
  theory \<open>Flow_Stage\<close>).

  \<^bold>\<open>Lessons.\<close> A lesson is a log of events; marks and cursor are folds over it
  (\<^verbatim>\<open>views/flow/lessons/ledger.ts\<close>, \<^verbatim>\<open>events.ts\<close>, \<^verbatim>\<open>types.ts\<close>, \<^verbatim>\<open>verify.ts\<close>; theory \<open>Lesson\<close>). The store
  appends events, trims the log, loads and writes it, and replays the records of the first version
  (\<^verbatim>\<open>store.ts\<close>, \<^verbatim>\<open>migrate.ts\<close>, \<^verbatim>\<open>registry.ts\<close>, \<^verbatim>\<open>hints.ts\<close>; theory \<open>Lesson_Store\<close>). A lesson grades its
  steps against the state of the stages.

  \<^bold>\<open>The shell.\<close> Which panels are open and how large they are is read from and written to the browser's
  storage (\<^verbatim>\<open>widgets/layout-shell/model\<close>: \<^verbatim>\<open>layout-state.ts\<close>, \<^verbatim>\<open>use-layout-state.ts\<close>, \<^verbatim>\<open>phone-pages.ts\<close>,
  \<^verbatim>\<open>screen.ts\<close>; theory \<open>Layout_State\<close>).

  \<^bold>\<open>How the code is modelled.\<close> Each definition carries the name of the function it translates where HOL
  allows it. Objects and \<^verbatim>\<open>Map\<close>s are association lists in insertion order, classes are records whose
  methods return the changed record, thrown errors are values of a sum or option type, awaits that
  matter are separate steps. Numbers are rationals where the code only compares or counts, and sums of
  panel sizes are rounded as doubles are. Code outside the repository is an argument, with named laws where a theorem needs them:
  the array diff (locale \<open>line_diff\<close> of \<open>Merge3_Correct\<close>, its laws being the documented promises of the package and
  a longest-common-subsequence diff its instance), the hash, JSON parsing and printing, the volume, the order of a
  sort and the fresh ids the explorer asks for, what the screen reads back, and the order of completion candidates.
  The driver gets what it calls as one record of functions (\<open>sync_env\<close>): the workspaces, buffers and chats of its tab, each of which may
  throw, the requests, each of which may be rejected, and what may happen to its state while it waits its turn; its state, the
  device and the network travel in one record (\<open>world\<close>). Theorems hold for all of these unless they name a law.

  \<^bold>\<open>What the lemmas show.\<close> \<open>Prelude\<close> holds the string, list and object lemmas all theories share and the
  interfaces \<open>js_record\<close> (a keyed store) and \<open>machine\<close> (a state machine with an invariant), which the
  later theories interpret on the objects, the flow, the lesson folds, the lesson store, the resolve view
  and the layout hook. \<open>Merge3_Correct\<close> relates the merge to a splitting of the three files into regions
  (C1 to C4). \<open>Snapshot\<close> shows what a snapshot holds and when reading it fails.
  \<open>Merge_Plan_Correct\<close> proves the plan to be a three-way merge of the files (C10) and shows what is asked about and what settling
  it gives (C11, C15).
  \<open>Sync_Mark_Correct\<close> shows that queued changes of a mark act one after the other (C13).
  \<open>Merge_File_Correct\<close> follows every session of the resolve view (C17), and \<open>Merge_Settled\<close> composes the
  two: sessions on the conflicted files settle the plan (C23). \<open>Sync_Lock\<close> is about mutual exclusion in every
  interleaving (C39) and \<open>Sync_Base_Correct\<close> about what a capture keeps, for paths that are no inherited names (C40).
  \<open>Two_Devices\<close> runs any number of devices against the endpoint: an accepted upload replaces only what its device had seen (C6),
  given that the server's clock grows between uploads and hashes tell files apart.
  \<open>Project_Server_Correct\<close> shows what each request does to the tables and that work stays until it is deleted (C8);
  \<open>Project_Sync_Correct\<close> that a free name is found and can be given, and that the gate is open exactly when nobody holds it;
  \<open>Project_Runs\<close> that no operation of the driver waits for a gate or a turn it holds itself (C36, with \<open>held_push_waits\<close> showing that a
  plain push at a held gate does wait) and that each gives back the gate and the marks of merging (C19);
  \<open>Project_Exchange_Correct\<close> the order a merge writes in (C14), that content written against other copies is refused (C29), and when a
  push stands down (C38); \<open>Project_Restore_Correct\<close> which pass answers a call (C28), that an unreadable list decides nothing
  (C24), and that sign-out deletes only workspaces whose user files are agreed (C21). \<open>Chat_Thread_Correct\<close> shows that a stored thread of typed
  items is read back (C30), that devices with one order of strings merge threads alike (C32), and that a model is shown a well-formed
  history in which no read or written content the user took back appears (C20).
  \<open>Workspace_Correct\<close> shows that ids follow their workspaces (C27), and \<open>tutorial_id_twice\<close> that an id may be given twice. \<open>Explorer_Runs\<close>
  keeps an invariant over every run of the explorer, with the current file among the tabs, and shows that opening a workspace
  ends (C18, C22; a tab may be held twice, \<open>tab_held_twice\<close>); \<open>Explorer_Reload\<close> that a reload gives the tabs
  back, in their order where the sort's comparator is consistent (C9); \<open>Explorer_Effects\<close> what creating an item (C7) and closing a file do.
  \<open>Terminal_Correct\<close> is about tokens and the history, \<open>Shell_Correct\<close> about the editing keys (C26), \<open>Unknown_Command\<close> and
  \<open>Slow_Run\<close> about the suggestion and the slow line (C31), \<open>Command_Runs\<close> about the input handlers get, the runs
  and bare commands (C12, C16), \<open>Autocomplete_Correct\<close> about the candidates; this theory composes the shell with the manager (C5).
  \<open>Flow_Stage\<close> shows that a stopped run leaves no trace, and that a failed build settles (C25).
  \<open>Lesson_Correct\<close> is about the folds and the trim, \<open>Lesson_Store_Correct\<close> about the life of a lesson with its file, and the store and
  its records (C33 to C35), \<open>Lesson_Migrate_Correct\<close> about the replay of version 1,
  \<open>Layout_State_Correct\<close> about the layout (C37).

  \<^bold>\<open>Bounds.\<close> A log is trimmed above 200 events to 120, a step has at most three hints, the failures kept
  are at most 20, a thread keeps 200 items and a replay 64,000 characters of calls: the constants of the code. Functions are total: loops are structural or recursive with a measure, except a few
  that carry a number. Walks of nested folders carry a depth. Opening a workspace may fall back to another one, and takes at most one round more than there
  are workspaces; C22 shows that this many always end with an answer. The nested completion
  lists carry a number too, and \<open>candidates_fuel\<close> shows that any number from the count of tokens on gives the same.
  A merge is tried three times, as in the code. The search for a free name tries one name more than there are workspaces, and
  \<open>freeName_found\<close> shows that this many always find one; a push is repeated at most once, with the whole copy.
  A body is at most 4,000,000 bytes, the limit of the code. Strings are lists of characters of one byte; the modelled
  code compares, splits and prefixes them, changes the case of letters and escapes them for paths, which
  is written out for that range. JSON numbers too large for a double are outside the model, as are event numbers of a lesson from 2 to the
  power of 53 on, where a double no longer grows, and project files at the root named like a property every object inherits.

  \<^bold>\<open>Not modelled.\<close> Rendering, the editor and the React bindings; logging, telemetry and toasts; the first
  client, the build server and the WebAssembly packages; the network between the tab and the endpoint. Of the sync feature, the
  exchange of chats with the account, their endpoint and the map from workspaces to threads, and the effects that call the driver. Of the driver's waits, that on the gate and that for a project's
  turn are modelled as what may happen meanwhile, an argument, followed by a look at whether the way is free: if it is not, the call is stuck. The waits
  for the lock between tabs and for the queue of a mark are left out of the driver; they are the subject of \<open>Sync_Lock\<close> and \<open>Sync_Mark\<close>. Not
  modelled either are the account session and the assistant. Of the
  terminal, the colours of the screen, the texts of usage and help, and the handlers of single commands.
\<close>

section \<open>From the keyboard to a run\<close>

lemma go_on_events: "\<exists>es. mg_events (go_on r rd m) = mg_events m @ es"
  by (cases rd) (simp_all add: with_run_def end_run_def)

lemma start_run_events:
  "\<exists>es. mg_events (start_run topCmd ts m) = mg_events m @ DidStart (mg_next m) (cm_name topCmd) (join_blank ts) # es"
proof -
  have "\<exists>r rd m1. start_run topCmd ts m = go_on r rd m1 \<and>
      mg_events m1 = mg_events m @ [DidStart (mg_next m) (cm_name topCmd) (join_blank ts)]"
    unfolding start_run_def Let_def case_prod_beta by (intro exI conjI) (rule refl, simp)
  then show ?thesis using go_on_events by (metis append_Cons append_Nil append_assoc)
qed



end
